(* ===== verification/Prelude.thy ===== *)
theory Prelude
  imports Complex_Main "HOL-Library.AList"
begin

text \<open>
  Shared vocabulary of the development.  A database table is the list of its rows in
  insertion order; \<open>find_by\<close> is a \<open>SELECT ... WHERE key = k\<close> that takes the first row,
  \<open>put_by\<close> writes a row back over the one with the same key, \<open>order_by_key\<close> is the
  \<open>ORDER BY\<close> of a query.  A Python call that may raise is a sum: \<open>Inl\<close> carries the
  exception, \<open>Inr\<close> the result together with the state after the call.
  The collections \<open>table_simps\<close> and \<open>tx_simps\<close> hold the rewrite rules about tables and
  about sequencing of fallible calls.
\<close>

named_theorems table_simps \<open>rows of a table after an update\<close>
named_theorems tx_simps \<open>sequencing of calls that may raise\<close>

subsection \<open>Exceptions\<close>

text \<open>The exception classes the modelled code raises; the argument is the \<open>code\<close> or message.\<close>

datatype exn =
    Abort string
  | StockAllocationError string
  | FulfillmentError string
  | OrderError string
  | OrderTransitionError string
  | OrderCancelForbidden string
  | PromoUsageLimitError string
  | SupportError string
  | ProviderRetryableError string
  | ProviderFatalError string
  | PlategaError string
  | CryptoPayAPIError int string
  | IntegrityError string
  | NoResultFound
  | ValueError string
  | InvalidOperation
  | OtherError string

type_synonym 'a result = "exn + 'a"

subsection \<open>Sequencing calls that may raise\<close>

definition tx_bind :: "'a result \<Rightarrow> ('a \<Rightarrow> 'b result) \<Rightarrow> 'b result" where
  "tx_bind m f = (case m of Inl e \<Rightarrow> Inl e | Inr a \<Rightarrow> f a)"

lemma tx_bind_Inl [tx_simps, simp]: "tx_bind (Inl e) f = Inl e"
  by (simp add: tx_bind_def)

lemma tx_bind_Inr [tx_simps, simp]: "tx_bind (Inr a) f = f a"
  by (simp add: tx_bind_def)

lemma tx_bind_eq_Inr [tx_simps]:
  "tx_bind m f = Inr b \<longleftrightarrow> (\<exists>a. m = Inr a \<and> f a = Inr b)"
  by (simp add: tx_bind_def split: sum.split)

lemma tx_bind_eq_Inl [tx_simps]:
  "tx_bind m f = Inl e \<longleftrightarrow> m = Inl e \<or> (\<exists>a. m = Inr a \<and> f a = Inl e)"
  by (auto simp: tx_bind_def split: sum.split)

lemma tx_bind_cong [fundef_cong]:
  "m = m' \<Longrightarrow> (\<And>a. m' = Inr a \<Longrightarrow> f a = f' a) \<Longrightarrow> tx_bind m f = tx_bind m' f'"
  by (simp add: tx_bind_def split: sum.split)

text \<open>A loop that runs a fallible step over a list, threading the state.\<close>

fun fold_tx :: "('x \<Rightarrow> 's \<Rightarrow> 's result) \<Rightarrow> 'x list \<Rightarrow> 's \<Rightarrow> 's result" where
  "fold_tx f [] s = Inr s"
| "fold_tx f (x # xs) s = tx_bind (f x s) (fold_tx f xs)"

lemma fold_tx_invariant:
  assumes "fold_tx f xs s = Inr s'" "P s"
    and "\<And>x a b. x \<in> set xs \<Longrightarrow> P a \<Longrightarrow> f x a = Inr b \<Longrightarrow> P b"
  shows "P s'"
  using assms
proof (induction xs arbitrary: s)
  case Nil
  then show ?case by simp
next
  case (Cons x xs)
  then obtain a where "f x s = Inr a" and "fold_tx f xs a = Inr s'"
    by (auto simp: tx_simps)
  with Cons show ?case by (metis list.set_intros)
qed

lemma fold_tx_append [tx_simps]:
  "fold_tx f (xs @ ys) s = tx_bind (fold_tx f xs s) (fold_tx f ys)"
  by (induction xs arbitrary: s) (auto simp: tx_bind_def split: sum.split)

subsection \<open>Tables\<close>

definition find_by :: "('r \<Rightarrow> 'k) \<Rightarrow> 'k \<Rightarrow> 'r list \<Rightarrow> 'r option" where
  "find_by key k rows = List.find (\<lambda>r. key r = k) rows"

definition put_by :: "('r \<Rightarrow> 'k) \<Rightarrow> 'r \<Rightarrow> 'r list \<Rightarrow> 'r list" where
  "put_by key r rows = map (\<lambda>x. if key x = key r then r else x) rows"

definition order_by_key :: "('r \<Rightarrow> 'k::linorder) \<Rightarrow> 'r list \<Rightarrow> 'r list" where
  "order_by_key key rows = sort_key key rows"

lemma find_by_Nil [simp]: "find_by key k [] = None"
  by (simp add: find_by_def)

lemma find_by_Cons [simp]:
  "find_by key k (r # rows) = (if key r = k then Some r else find_by key k rows)"
  by (simp add: find_by_def)

lemma put_by_Nil [simp]: "put_by key r [] = []"
  by (simp add: put_by_def)

lemma put_by_Cons [simp]:
  "put_by key r (x # rows) = (if key x = key r then r else x) # put_by key r rows"
  by (simp add: put_by_def)

lemma find_by_Some_mem: "find_by key k rows = Some r \<Longrightarrow> r \<in> set rows"
  by (induction rows) (auto split: if_splits)

lemma find_by_Some_key: "find_by key k rows = Some r \<Longrightarrow> key r = k"
  by (induction rows) (auto split: if_splits)

lemma find_by_None_iff: "find_by key k rows = None \<longleftrightarrow> k \<notin> key ` set rows"
  by (induction rows) auto

lemma find_by_distinct:
  "distinct (map key rows) \<Longrightarrow> r \<in> set rows \<Longrightarrow> find_by key (key r) rows = Some r"
  by (induction rows) (auto simp: image_iff)

lemma find_by_append [table_simps]:
  "find_by key k (xs @ ys) = (case find_by key k xs of None \<Rightarrow> find_by key k ys | Some r \<Rightarrow> Some r)"
  by (induction xs) auto

lemma find_put_same [table_simps]:
  "find_by key (key r) (put_by key r rows) = (if key r \<in> key ` set rows then Some r else None)"
  by (induction rows) auto

lemma find_put_other [table_simps]:
  "k \<noteq> key r \<Longrightarrow> find_by key k (put_by key r rows) = find_by key k rows"
  by (induction rows) auto

lemma keys_put [table_simps]: "map key (put_by key r rows) = map key rows"
  by (induction rows) auto

lemma length_put [table_simps]: "length (put_by key r rows) = length rows"
  by (simp add: put_by_def)

lemma put_put [table_simps]: "key r = key r' \<Longrightarrow> put_by key r (put_by key r' rows) = put_by key r rows"
  by (induction rows) auto

lemma put_absent [table_simps]: "key r \<notin> key ` set rows \<Longrightarrow> put_by key r rows = rows"
  by (induction rows) auto

lemma set_put: "set (put_by key r rows) \<subseteq> insert r (set rows)"
  by (induction rows) auto

lemma put_same_row:
  "distinct (map key rows) \<Longrightarrow> find_by key (key r) rows = Some r \<Longrightarrow> put_by key r rows = rows"
proof (induction rows)
  case Nil
  then show ?case by simp
next
  case (Cons x rows)
  then show ?case
    by (auto simp: put_absent split: if_splits)
qed

lemma put_by_append [table_simps]: "put_by key r (xs @ ys) = put_by key r xs @ put_by key r ys"
  by (simp add: put_by_def)

lemma mem_put_by:
  assumes "distinct (map key rows)" "x \<in> set (put_by key r rows)"
  shows "x = r \<or> x \<in> set rows \<and> key x \<noteq> key r"
  using assms by (induction rows) (auto split: if_splits simp: image_iff)

text \<open>Sums over a table: replacing a row changes the sum by the difference of the two rows.\<close>

lemma sum_put_by:
  fixes f :: "'r \<Rightarrow> int"
  assumes "distinct (map key rows)" "find_by key (key r) rows = Some r0"
  shows "sum_list (map f (put_by key r rows)) = sum_list (map f rows) - f r0 + f r"
  using assms
proof (induction rows)
  case Nil
  then show ?case by simp
next
  case (Cons x rows)
  then show ?case
    by (auto simp: put_absent split: if_splits)
qed

lemma order_by_key_set [simp]: "set (order_by_key key rows) = set rows"
  by (simp add: order_by_key_def)

lemma order_by_key_length [simp]: "length (order_by_key key rows) = length rows"
  by (simp add: order_by_key_def)

lemma order_by_key_sorted: "sorted (map key (order_by_key key rows))"
  by (simp add: order_by_key_def)

subsection \<open>Generic lemmas\<close>

lemma sum_list_filter_split:
  fixes f :: "'a \<Rightarrow> int"
  shows "sum_list (map f (filter P xs)) + sum_list (map f (filter (\<lambda>x. \<not> P x) xs)) = sum_list (map f xs)"
  by (induction xs) auto

lemma case_option_eq_Inr:
  "(case x of None \<Rightarrow> Inl e | Some y \<Rightarrow> f y) = Inr b \<longleftrightarrow> (\<exists>y. x = Some y \<and> f y = Inr b)"
  by (simp split: option.split)

lemma if_Inl_eq_Inr [tx_simps]: "(if b then Inl e else m) = Inr r \<longleftrightarrow> \<not> b \<and> m = Inr r"
  by simp

declare case_option_eq_Inr [tx_simps]

end
