(* ===== verification/Money.thy ===== *)
theory Money
  imports Prelude
begin

text \<open>
  \<open>bot/money.py\<close>: every persisted amount is an integer number of kopecks.
  A finite Python \<open>Decimal\<close> is its signed coefficient and its exponent, with value
  \<open>mantissa * 10 ^ exponent\<close>; arithmetic runs in the default context of 28 digits, so a
  result that needs more raises \<open>InvalidOperation\<close>.  \<open>cents_to_float_rub\<close> is kept as the
  exact quotient, which the code rounds to the nearest double.
\<close>

subsection \<open>Decimal numbers\<close>

record decimal =
  mantissa :: int
  exponent :: int

definition dec_of_int :: "int \<Rightarrow> decimal" where
  "dec_of_int n = \<lparr>mantissa = n, exponent = 0\<rparr>"

definition dec_value :: "decimal \<Rightarrow> rat" where
  "dec_value d = (if 0 \<le> exponent d then of_int (mantissa d * 10 ^ nat (exponent d))
                  else of_int (mantissa d) / of_int (10 ^ nat (- exponent d)))"

text \<open>\<open>d.quantize(Decimal("1"), rounding=ROUND_HALF_UP)\<close>: ties go away from zero.\<close>

definition quantize_half_up :: "decimal \<Rightarrow> int" where
  "quantize_half_up d =
     (if 0 \<le> exponent d then mantissa d * 10 ^ nat (exponent d)
      else (let q = 10 ^ nat (- exponent d)
            in sgn (mantissa d) * ((2 * \<bar>mantissa d\<bar> + q) div (2 * q))))"

definition rub_to_cents :: "decimal \<Rightarrow> int result" where
  "rub_to_cents d =
     (if exponent d < - 2 then Inl (ValueError ''Amount can have at most 2 decimal places'')
      else (let cents = quantize_half_up (d\<lparr>mantissa := mantissa d * 100\<rparr>)
            in if 10 ^ 28 \<le> \<bar>cents\<bar> then Inl InvalidOperation else Inr cents))"

subsection \<open>Rendering\<close>

definition digit_char :: "nat \<Rightarrow> char" where
  "digit_char d = char_of (48 + d)"

fun show_nat :: "nat \<Rightarrow> string" where
  "show_nat n = (if n < 10 then [digit_char n] else show_nat (n div 10) @ [digit_char (n mod 10)])"

declare show_nat.simps [simp del]

definition show_int :: "int \<Rightarrow> string" where
  "show_int i = (if i < 0 then ''-'' @ show_nat (nat (- i)) else show_nat (nat i))"

text \<open>The format \<open>{kop:02d}\<close> of a number below 100.\<close>

definition show_02d :: "nat \<Rightarrow> string" where
  "show_02d n = (if n < 10 then ''0'' @ show_nat n else show_nat n)"

definition cents_to_display :: "int \<Rightarrow> string" where
  "cents_to_display cents =
     (let sgn_s = (if cents < 0 then ''-'' else '''');
          abs_cents = nat \<bar>cents\<bar>;
          rub = abs_cents div 100;
          kop = abs_cents mod 100
      in if kop = 0 then sgn_s @ show_nat rub
         else sgn_s @ show_nat rub @ ''.'' @ show_02d kop)"

definition cents_to_float_rub :: "int \<Rightarrow> rat" where
  "cents_to_float_rub cents = of_int cents / 100"

definition format_cents_for_ui :: "int \<Rightarrow> string" where
  "format_cents_for_ui cents = cents_to_display cents"

definition cents_to_csv_amount :: "int \<Rightarrow> string" where
  "cents_to_csv_amount cents =
     (let sgn_s = (if cents < 0 then ''-'' else '''');
          abs_cents = nat \<bar>cents\<bar>
      in sgn_s @ show_nat (abs_cents div 100) @ ''.'' @ show_02d (abs_cents mod 100))"

subsection \<open>Reading a number back\<close>

text \<open>
  \<open>Decimal(s)\<close> on the strings the program itself prints: an optional minus sign, digits, and
  an optional fraction.  The exponent counts the digits after the point.
\<close>

definition char_digit :: "char \<Rightarrow> nat option" where
  "char_digit c = (let n = of_char c in if 48 \<le> n \<and> n < (58::nat) then Some (n - 48) else None)"

fun parse_digits :: "nat \<Rightarrow> string \<Rightarrow> nat option" where
  "parse_digits acc [] = Some acc"
| "parse_digits acc (c # cs) =
     (case char_digit c of None \<Rightarrow> None | Some d \<Rightarrow> parse_digits (10 * acc + d) cs)"

definition parse_nat :: "string \<Rightarrow> nat option" where
  "parse_nat s = (if s = [] then None else parse_digits 0 s)"

definition parse_unsigned :: "string \<Rightarrow> decimal option" where
  "parse_unsigned s =
     (let ip = takeWhile (\<lambda>c. c \<noteq> CHR ''.'') s;
          rest = dropWhile (\<lambda>c. c \<noteq> CHR ''.'') s
      in case rest of
           [] \<Rightarrow> (case parse_nat ip of None \<Rightarrow> None | Some n \<Rightarrow> Some \<lparr>mantissa = int n, exponent = 0\<rparr>)
         | _ # fp \<Rightarrow> (case parse_nat (ip @ fp) of None \<Rightarrow> None
             | Some n \<Rightarrow> Some \<lparr>mantissa = int n, exponent = - int (length fp)\<rparr>))"

definition decimal_of_string :: "string \<Rightarrow> decimal result" where
  "decimal_of_string s =
     (let neg = (case s of c # _ \<Rightarrow> c = CHR ''-'' | [] \<Rightarrow> False);
          body = (if neg then tl s else s)
      in case parse_unsigned body of
           None \<Rightarrow> Inl InvalidOperation
         | Some d \<Rightarrow> Inr (if neg then d\<lparr>mantissa := - mantissa d\<rparr> else d))"

subsection \<open>Lemmas\<close>

lemma char_digit_digit_char [simp]: "d < 10 \<Longrightarrow> char_digit (digit_char d) = Some d"
  by (simp add: char_digit_def digit_char_def)

lemma digit_char_not_dot [simp]: "d < 10 \<Longrightarrow> digit_char d \<noteq> CHR ''.''"
proof
  assume "d < 10" "digit_char d = CHR ''.''"
  then have "char_digit (CHR ''.'') = Some d"
    using char_digit_digit_char by metis
  then show False by (simp add: char_digit_def)
qed

lemma digit_char_not_minus [simp]: "d < 10 \<Longrightarrow> digit_char d \<noteq> CHR ''-''"
proof
  assume "d < 10" "digit_char d = CHR ''-''"
  then have "char_digit (CHR ''-'') = Some d"
    using char_digit_digit_char by metis
  then show False by (simp add: char_digit_def)
qed

lemma show_nat_not_Nil [simp]: "show_nat n \<noteq> []"
  by (subst show_nat.simps) simp

lemma show_nat_small: "n < 10 \<Longrightarrow> show_nat n = [digit_char n]"
  by (subst show_nat.simps) simp

lemma show_nat_large: "10 \<le> n \<Longrightarrow> show_nat n = show_nat (n div 10) @ [digit_char (n mod 10)]"
  by (subst show_nat.simps) simp

lemma show_nat_chars: "c \<in> set (show_nat n) \<Longrightarrow> \<exists>d<10. c = digit_char d"
proof (induction n rule: show_nat.induct)
  case (1 n)
  show ?case
  proof (cases "n < 10")
    case True
    with 1(2) show ?thesis by (auto simp: show_nat_small)
  next
    case False
    then have "c \<in> set (show_nat (n div 10)) \<or> c = digit_char (n mod 10)"
      using 1(2) by (auto simp: show_nat_large)
    moreover have "n mod 10 < 10" by simp
    ultimately show ?thesis using 1(1) False by blast
  qed
qed

lemma show_nat_no_dot: "c \<in> set (show_nat n) \<Longrightarrow> c \<noteq> CHR ''.''"
  using show_nat_chars digit_char_not_dot by metis

lemma hd_show_nat: "hd (show_nat n) \<noteq> CHR ''-''"
proof -
  obtain d where "d < 10" "hd (show_nat n) = digit_char d"
    using show_nat_chars [OF hd_in_set [OF show_nat_not_Nil]] by blast
  then show ?thesis using digit_char_not_minus by simp
qed

lemma parse_digits_append:
  "parse_digits acc (xs @ ys) = (case parse_digits acc xs of None \<Rightarrow> None | Some n \<Rightarrow> parse_digits n ys)"
  by (induction xs arbitrary: acc) (auto split: option.split)

lemma parse_digits_show_nat:
  "parse_digits acc (show_nat n) = Some (acc * 10 ^ length (show_nat n) + n)"
proof (induction n arbitrary: acc rule: show_nat.induct)
  case (1 n)
  show ?case
  proof (cases "n < 10")
    case True
    then show ?thesis by (simp add: show_nat_small)
  next
    case False
    with 1 have "parse_digits acc (show_nat (n div 10)) =
        Some (acc * 10 ^ length (show_nat (n div 10)) + n div 10)" by simp
    with False show ?thesis
      by (simp add: show_nat_large parse_digits_append algebra_simps)
  qed
qed

lemma parse_nat_show_nat [simp]: "parse_nat (show_nat n) = Some n"
  by (simp add: parse_nat_def parse_digits_show_nat)

lemma show_nat_length_2: "10 \<le> n \<Longrightarrow> n < 100 \<Longrightarrow> length (show_nat n) = 2"
proof -
  assume "10 \<le> n" "n < 100"
  then have "n div 10 < 10" by simp
  with \<open>10 \<le> n\<close> show ?thesis by (simp add: show_nat_large show_nat_small)
qed

lemma digit_char_0: "CHR ''0'' = digit_char 0"
proof -
  have "char_of (of_char (CHR ''0'') :: nat) = CHR ''0''" by (rule char_of_char)
  then show ?thesis by (simp add: digit_char_def)
qed

lemma show_02d_length: "n < 100 \<Longrightarrow> length (show_02d n) = 2"
  by (cases "n < 10") (simp_all add: show_02d_def show_nat_small show_nat_length_2)

lemma parse_digits_show_02d:
  assumes "n < 100"
  shows "parse_digits acc (show_02d n) = Some (100 * acc + n)"
proof (cases "n < 10")
  case True
  then have "show_02d n = digit_char 0 # [digit_char n]"
    by (simp add: show_02d_def show_nat_small digit_char_0)
  with True show ?thesis by simp
next
  case False
  with assms have "length (show_nat n) = 2" by (simp add: show_nat_length_2)
  with False show ?thesis
    by (simp add: show_02d_def parse_digits_show_nat)
qed

lemma parse_unsigned_nat: "parse_unsigned (show_nat n) = Some \<lparr>mantissa = int n, exponent = 0\<rparr>"
proof -
  have tk: "takeWhile (\<lambda>c. c \<noteq> CHR ''.'') (show_nat n) = show_nat n"
    using show_nat_no_dot by (subst takeWhile_eq_all_conv) blast
  have dr: "dropWhile (\<lambda>c. c \<noteq> CHR ''.'') (show_nat n) = []"
    using show_nat_no_dot by (subst dropWhile_eq_Nil_conv) blast
  show ?thesis unfolding parse_unsigned_def Let_def tk dr by simp
qed

lemma parse_unsigned_point:
  assumes "k < 100"
  shows "parse_unsigned (show_nat n @ ''.'' @ show_02d k) =
    Some \<lparr>mantissa = int (100 * n + k), exponent = - 2\<rparr>"
proof -
  let ?s = "show_nat n @ ''.'' @ show_02d k"
  have tk: "takeWhile (\<lambda>c. c \<noteq> CHR ''.'') ?s = show_nat n"
    using show_nat_no_dot [of _ n] by (subst takeWhile_append2) auto
  have dr: "dropWhile (\<lambda>c. c \<noteq> CHR ''.'') ?s = CHR ''.'' # show_02d k"
    using show_nat_no_dot [of _ n] by (subst dropWhile_append2) auto
  have "parse_nat (show_nat n @ show_02d k) = Some (100 * n + k)"
    using assms by (simp add: parse_nat_def parse_digits_append parse_digits_show_nat
        parse_digits_show_02d)
  then show ?thesis unfolding parse_unsigned_def Let_def tk dr
    by (simp add: show_02d_length assms)
qed

lemma rub_to_cents_integer:
  "\<bar>n\<bar> * 100 < 10 ^ 28 \<Longrightarrow> rub_to_cents \<lparr>mantissa = n, exponent = 0\<rparr> = Inr (n * 100)"
  by (simp add: rub_to_cents_def quantize_half_up_def abs_mult)

lemma half_up_exact: "(2 * (\<bar>n\<bar> * 100) + 100) div 200 = \<bar>n :: int\<bar>"
proof -
  have "(2 * (\<bar>n\<bar> * 100) + 100) div 200 = (100 + \<bar>n\<bar> * 200) div 200" by (simp add: algebra_simps)
  also have "\<dots> = \<bar>n\<bar>" by (subst div_mult_self1) simp_all
  finally show ?thesis .
qed

lemma rub_to_cents_hundredths:
  assumes "\<bar>n\<bar> < 10 ^ 28"
  shows "rub_to_cents \<lparr>mantissa = n, exponent = - 2\<rparr> = Inr n"
proof -
  have "quantize_half_up \<lparr>mantissa = n * 100, exponent = - 2\<rparr> =
      sgn (n * 100) * ((2 * (\<bar>n\<bar> * 100) + 100) div 200)"
    by (simp add: quantize_half_up_def abs_mult)
  also have "\<dots> = n" unfolding half_up_exact by (simp add: sgn_mult sgn_mult_abs)
  finally show ?thesis using assms by (simp add: rub_to_cents_def)
qed

text \<open>A string of the program read back: the sign, then the body.\<close>

lemma decimal_of_signed:
  assumes "b \<noteq> []" "hd b \<noteq> CHR ''-''" "parse_unsigned b = Some d"
  shows "decimal_of_string ((if c < (0::int) then ''-'' else '''') @ b) =
    Inr (if c < 0 then d\<lparr>mantissa := - mantissa d\<rparr> else d)"
  using assms by (cases b) (auto simp: decimal_of_string_def Let_def)

lemma hd_show_nat_append: "hd (show_nat n @ s) \<noteq> CHR ''-''"
  using hd_show_nat by (simp add: hd_append)

lemma decimal_of_csv:
  "decimal_of_string (cents_to_csv_amount c) = Inr \<lparr>mantissa = c, exponent = - 2\<rparr>"
proof -
  define n where "n = nat \<bar>c\<bar>"
  have "parse_unsigned (show_nat (n div 100) @ ''.'' @ show_02d (n mod 100)) =
      Some \<lparr>mantissa = int n, exponent = - 2\<rparr>"
    by (subst parse_unsigned_point) simp_all
  moreover have "show_nat (n div 100) @ ''.'' @ show_02d (n mod 100) \<noteq> []" by simp
  ultimately show ?thesis
    unfolding cents_to_csv_amount_def Let_def n_def [symmetric]
    by (subst decimal_of_signed [OF _ hd_show_nat_append]) (auto simp: n_def)
qed

lemma decimal_of_display_point:
  assumes "nat \<bar>c\<bar> mod 100 \<noteq> 0"
  shows "cents_to_display c = cents_to_csv_amount c"
  using assms by (simp add: cents_to_display_def cents_to_csv_amount_def Let_def)

lemma decimal_of_display_whole:
  assumes "nat \<bar>c\<bar> mod 100 = 0"
  shows "decimal_of_string (cents_to_display c) = Inr \<lparr>mantissa = c div 100, exponent = 0\<rparr>"
proof -
  have "int (nat \<bar>c\<bar> mod 100) = \<bar>c\<bar> mod 100" by (simp add: zmod_int)
  with assms have "\<bar>c\<bar> mod 100 = 0" by simp
  then have d: "100 dvd c" by (simp add: mod_eq_0_iff_dvd)
  have shown: "cents_to_display c = (if c < 0 then ''-'' else '''') @ show_nat (nat \<bar>c\<bar> div 100)"
    using assms by (simp add: cents_to_display_def Let_def)
  have "int (nat \<bar>c\<bar> div 100) = \<bar>c\<bar> div 100" by (simp add: zdiv_int)
  with d have m: "(if c < 0 then - int (nat \<bar>c\<bar> div 100) else int (nat \<bar>c\<bar> div 100)) = c div 100"
    by auto
  show ?thesis
    unfolding shown decimal_of_signed [OF show_nat_not_Nil hd_show_nat parse_unsigned_nat] m [symmetric]
    by simp
qed

subsection \<open>Properties\<close>

theorem money_round_trip:
  assumes "\<bar>c\<bar> < 10 ^ 28"
  shows "tx_bind (decimal_of_string (cents_to_display c)) rub_to_cents = Inr c \<and>
    tx_bind (decimal_of_string (cents_to_csv_amount c)) rub_to_cents = Inr c"
proof (cases "nat \<bar>c\<bar> mod 100 = 0")
  case True
  have "int (nat \<bar>c\<bar> mod 100) = \<bar>c\<bar> mod 100" by (simp add: zmod_int)
  with True have c: "c div 100 * 100 = c" by auto
  with assms have "\<bar>c div 100\<bar> * 100 < 10 ^ 28" by (metis abs_mult abs_numeral)
  then show ?thesis
    using assms c by (simp only: decimal_of_display_whole [OF True] decimal_of_csv tx_bind_Inr
        rub_to_cents_integer rub_to_cents_hundredths) simp?
next
  case False
  then show ?thesis using assms
    by (simp only: decimal_of_display_point [OF False] decimal_of_csv tx_bind_Inr
        rub_to_cents_hundredths)
qed

lemma money_round_trip_witness:
  "tx_bind (decimal_of_string (cents_to_display (- 1050))) rub_to_cents = Inr (- 1050) \<and>
   tx_bind (decimal_of_string (cents_to_csv_amount (- 1050))) rub_to_cents = Inr (- 1050)"
  using money_round_trip [of "- 1050"] by simp

end
