(* ===== verification/Models.thy ===== *)
theory Models
  imports Prelude "HOL-Library.Word"
begin

text \<open>
  The data of the program: \<open>bot/database/models/main.py\<close>, \<open>orders.py\<close>, \<open>support.py\<close>,
  \<open>fulfillment_providers.py\<close>, \<open>payment_config.py\<close> and \<open>bot/catalog/enums.py\<close>.  Each mapped
  class is a record whose fields are its columns, with a prefix that names the table; a nullable
  column is an \<open>option\<close>.  Money is an \<open>int\<close> number of kopecks, a percent column (\<open>NUMERIC(5,2)\<close>)
  a \<open>rat\<close>, a moment an \<open>int\<close> number of seconds (UTC), a JSON column its parsed value (\<open>None\<close> for
  text that is not JSON).  The \<open>shop\<close> is the whole database: one list of rows per table, the counter
  behind the serial primary keys, and the background tasks scheduled so far.
\<close>

subsection \<open>Enumerations\<close>

datatype fulfillment_type = FulfillStock | FulfillApi

datatype stock_status = AVAILABLE | RESERVED | SOLD

datatype order_status =
  CREATED | PROCESSING | COMPLETED | FAILED | EXPIRED | REFUNDED | OtherStatus string

definition known_statuses :: "order_status list" where
  "known_statuses = [CREATED, PROCESSING, COMPLETED, FAILED, EXPIRED, REFUNDED]"

datatype delivery_type = DeliverStock | DeliverApi | DeliverGift

datatype ticket_status = TicketOpen | TicketPending | TicketClosed | OtherTicketStatus string

definition active_statuses :: "ticket_status list" where
  "active_statuses = [TicketOpen, TicketPending]"

datatype author_role = AuthorUser | AuthorStaff

datatype promo_scope = GlobalScope | CategoryScope | ItemScope

datatype json =
    JNull | JBool bool | JNum int | JFloat rat | JStr string | JArr "json list" | JObj "(string \<times> json) list"

subsection \<open>Permissions\<close>

text \<open>\<open>Permission\<close>: an Integer column used as a bit mask.\<close>

unbundle bit_operations_syntax

definition USE :: "32 word" where "USE = push_bit 0 1"
definition BROADCAST :: "32 word" where "BROADCAST = push_bit 1 1"
definition SETTINGS_MANAGE :: "32 word" where "SETTINGS_MANAGE = push_bit 2 1"
definition USERS_MANAGE :: "32 word" where "USERS_MANAGE = push_bit 3 1"
definition CATALOG_MANAGE :: "32 word" where "CATALOG_MANAGE = push_bit 4 1"
definition ADMINS_MANAGE :: "32 word" where "ADMINS_MANAGE = push_bit 5 1"
definition OWN :: "32 word" where "OWN = push_bit 6 1"
definition STATS_VIEW :: "32 word" where "STATS_VIEW = push_bit 7 1"
definition BALANCE_MANAGE :: "32 word" where "BALANCE_MANAGE = push_bit 8 1"
definition PROMO_MANAGE :: "32 word" where "PROMO_MANAGE = push_bit 9 1"
definition ORDERS_MANAGE :: "32 word" where "ORDERS_MANAGE = push_bit 10 1"
definition TICKETS_MANAGE :: "32 word" where "TICKETS_MANAGE = push_bit 11 1"
definition PROVIDERS_MANAGE :: "32 word" where "PROVIDERS_MANAGE = push_bit 12 1"
definition PAYMENTS_CONFIG :: "32 word" where "PAYMENTS_CONFIG = push_bit 13 1"
definition AUDIT_VIEW :: "32 word" where "AUDIT_VIEW = push_bit 14 1"

definition ALL_BITS :: "32 word list" where
  "ALL_BITS = [USE, BROADCAST, SETTINGS_MANAGE, USERS_MANAGE, CATALOG_MANAGE, ADMINS_MANAGE, OWN,
     STATS_VIEW, BALANCE_MANAGE, PROMO_MANAGE, ORDERS_MANAGE, TICKETS_MANAGE, PROVIDERS_MANAGE,
     PAYMENTS_CONFIG, AUDIT_VIEW]"

definition all_bits :: "32 word" where
  "all_bits = fold (\<lambda>b mask. mask OR b) ALL_BITS 0"

definition is_subset :: "32 word \<Rightarrow> 32 word \<Rightarrow> bool" where
  "is_subset perms of_perms = (perms AND NOT of_perms = 0)"

definition has_any_admin_perm :: "32 word \<Rightarrow> bool" where
  "has_any_admin_perm perms = (perms AND NOT USE \<noteq> 0)"

definition granted :: "32 word \<Rightarrow> 32 word \<Rightarrow> bool" where
  "granted perms b = (perms AND b = b)"

subsection \<open>Rows\<close>

record role =
  r_id :: int
  r_name :: string
  r_default :: bool
  r_permissions :: "32 word"

record user =
  u_id :: int
  u_role_id :: "int option"
  u_balance :: int
  u_referral_id :: "int option"
  u_registration_date :: int
  u_is_blocked :: bool

record category =
  c_id :: int
  c_name :: string

record goods =
  g_id :: int
  g_name :: string
  g_price :: int
  g_description :: string
  g_category_id :: int
  g_fulfillment_type :: fulfillment_type
  g_allows_gift :: bool
  g_sale_percent :: "rat option"
  g_sale_until :: "int option"

record item_value =
  iv_id :: int
  iv_item_id :: int
  iv_value :: "string option"
  iv_is_infinity :: bool
  iv_status :: stock_status
  iv_reserved_order_id :: "int option"

record bought_goods =
  bg_id :: int
  bg_item_name :: string
  bg_value :: string
  bg_price :: int
  bg_buyer_id :: "int option"
  bg_datetime :: int
  bg_unique_id :: int
  bg_order_id :: "int option"

record operation =
  op_id :: int
  op_user_id :: "int option"
  op_value :: int
  op_time :: int

record payment =
  pay_id :: int
  pay_internal_uuid :: "string option"
  pay_provider :: string
  pay_external_id :: string
  pay_user_id :: "int option"
  pay_amount :: int
  pay_currency :: string
  pay_status :: string
  pay_created_at :: int

record referral_earning =
  re_id :: int
  re_referrer_id :: int
  re_referral_id :: int
  re_amount :: int
  re_original_amount :: int
  re_order_id :: "int option"
  re_created_at :: int

record audit_row =
  al_level :: string
  al_user_id :: "int option"
  al_action :: string
  al_resource_type :: "string option"
  al_resource_id :: "string option"

record promo_code =
  pc_id :: int
  pc_code :: string
  pc_discount_type :: string
  pc_discount_value :: int
  pc_scope :: promo_scope
  pc_max_uses :: int
  pc_max_uses_per_user :: int
  pc_min_order_cents :: int
  pc_current_uses :: int
  pc_expires_at :: "int option"
  pc_category_id :: "int option"
  pc_item_id :: "int option"
  pc_is_active :: bool

record promo_usage =
  pu_id :: int
  pu_promo_id :: int
  pu_user_id :: int
  pu_order_id :: "int option"

record cart_item =
  ci_id :: int
  ci_user_id :: int
  ci_item_id :: int
  ci_promo_code :: "string option"
  ci_quantity :: int

record review =
  rv_id :: int
  rv_user_id :: int
  rv_item_id :: int
  rv_rating :: int
  rv_text :: "string option"

record stock_subscription =
  ss_id :: int
  ss_user_id :: int
  ss_item_id :: int

record order =
  o_id :: int
  o_user_id :: int
  o_goods_id :: int
  o_quantity :: int
  o_price_cents :: int
  o_discount_cents :: int
  o_total_cents :: int
  o_cost_cents :: int
  o_fee_cents :: int
  o_referral_amount_cents :: int
  o_profit_cents :: "int option"
  o_status :: order_status
  o_delivery_type :: delivery_type
  o_provider_id :: "int option"
  o_provider_external_order_id :: "string option"
  o_fulfillment_payload :: "string option"
  o_gift_telegram_id :: "int option"
  o_created_at :: int
  o_completed_at :: "int option"
  o_expires_at :: "int option"
  o_fulfillment_attempt_count :: int
  o_processing_started_at :: "int option"
  o_delivery_notified_at :: "int option"

record order_status_history =
  h_id :: int
  h_order_id :: int
  h_from_status :: "order_status option"
  h_to_status :: order_status
  h_actor_id :: "int option"

record fulfillment_provider =
  fp_id :: int
  fp_code :: string
  fp_name :: string
  fp_enabled :: bool
  fp_config_json :: "json option"
  fp_default_timeout_seconds :: int
  fp_default_retry_count :: int

record goods_provider_link =
  gpl_id :: int
  gpl_goods_id :: int
  gpl_provider_id :: int
  gpl_external_product_id :: string
  gpl_cost_cents :: int
  gpl_request_params :: "json option"
  gpl_result_mapping :: "json option"
  gpl_timeout_seconds :: "int option"
  gpl_retry_count :: "int option"
  gpl_delivery_template :: "string option"
  gpl_priority :: int
  gpl_enabled :: bool

record payment_gateway =
  pg_id :: int
  pg_code :: string
  pg_enabled :: bool
  pg_config_json :: "json option"

record payment_instrument =
  pi_id :: int
  pi_code :: string
  pi_title :: string
  pi_enabled :: bool
  pi_sort_order :: int
  pi_currency :: string
  pi_gateway_id :: int

record support_ticket =
  st_id :: int
  st_user_id :: int
  st_status :: ticket_status
  st_linked_order_id :: "int option"
  st_created_at :: int
  st_updated_at :: int

record support_message =
  sm_id :: int
  sm_ticket_id :: int
  sm_author_role :: author_role
  sm_author_user_id :: "int option"
  sm_body :: string
  sm_created_at :: int

end
