(* ===== verification/Shop.thy ===== *)
theory Shop
  imports Models
begin

text \<open>
  The database as one state, and \<open>Database.session()\<close> (\<open>bot/database/main.py\<close>) on it.  A
  transaction body is a function from the state to an exception or a result with the state it
  leaves; an exception discards that state, which is the rollback.  \<open>run_session\<close> is the
  \<open>async with Database().session()\<close> block: body, then commit, where the CHECK constraints of the
  models are evaluated.  UNIQUE constraints are evaluated by the operation that inserts.  Row locks
  (\<open>with_for_update\<close>) make concurrent transactions on the same rows run one after the other, so a
  transaction is one step on the state.
\<close>

subsection \<open>State\<close>

text \<open>Coroutines handed to \<open>safe_create_task\<close>: cache invalidations, the fulfilment of an API
  order and the restock notice.\<close>

datatype bg_task =
    InvalidateUserCache int
  | InvalidateStatsCache
  | InvalidateItemCache string "string option"
  | InvalidateCategoryCache string
  | DropRoleCache int
  | FlushRoleCaches
  | NotifyRestock string
  | FulfillProcessingOrder int

text \<open>
  Beside the tables, \<open>t_counts\<close> is what the keys of the list counts hold in the cache (\<open>None\<close> without a
  cache manager).  Entries expire and are deleted outside the operations below, so what is proved of a
  list is proved for any content of it.
\<close>

record shop =
  t_roles :: "role list"
  t_users :: "user list"
  t_categories :: "category list"
  t_goods :: "goods list"
  t_item_values :: "item_value list"
  t_bought :: "bought_goods list"
  t_operations :: "operation list"
  t_payments :: "payment list"
  t_earnings :: "referral_earning list"
  t_audit :: "audit_row list"
  t_promos :: "promo_code list"
  t_promo_usages :: "promo_usage list"
  t_cart :: "cart_item list"
  t_reviews :: "review list"
  t_subs :: "stock_subscription list"
  t_orders :: "order list"
  t_history :: "order_status_history list"
  t_providers :: "fulfillment_provider list"
  t_links :: "goods_provider_link list"
  t_gateways :: "payment_gateway list"
  t_instruments :: "payment_instrument list"
  t_tickets :: "support_ticket list"
  t_messages :: "support_message list"
  t_seq :: int
  t_tasks :: "bg_task list"
  t_counts :: "(string \<times> int) list option"

definition empty_shop :: shop where
  "empty_shop = \<lparr>t_roles = [], t_users = [], t_categories = [], t_goods = [], t_item_values = [],
     t_bought = [], t_operations = [], t_payments = [], t_earnings = [], t_audit = [], t_promos = [],
     t_promo_usages = [], t_cart = [], t_reviews = [], t_subs = [], t_orders = [], t_history = [],
     t_providers = [], t_links = [], t_gateways = [], t_instruments = [], t_tickets = [],
     t_messages = [], t_seq = 0, t_tasks = [], t_counts = None\<rparr>"

text \<open>
  What a transaction reads from outside the database: the clock, \<open>EnvKeys\<close>, \<open>uuid4()\<close> (by attempt
  and row), the replies of the HTTP services, \<open>str()\<close> of a JSON float, array or object, and SHA-256.
\<close>

datatype http_body = EmptyBody | JsonBody json | RawBody string

datatype http_result = HttpReply int http_body | HttpTimeout | HttpFailure string

record env =
  env_now :: int
  env_referral_percent :: int
  env_pay_currency :: string
  env_attempt :: nat
  env_uuid :: "nat \<Rightarrow> int \<Rightarrow> int"
  env_http :: "string \<Rightarrow> string \<Rightarrow> json \<Rightarrow> http_result"
  env_repr :: "json \<Rightarrow> string"
  env_sha256 :: "string \<Rightarrow> string"
  env_min_amount :: int
  env_max_amount :: int
  env_stars_per_value :: rat
  env_batch_size :: nat
  env_hung_seconds :: int
  env_expire_batch :: nat

text \<open>\<open>uuid4().int >> 65\<close>\<close>

definition fresh_unique_id :: "env \<Rightarrow> int \<Rightarrow> int" where
  "fresh_unique_id e row_id = env_uuid e (env_attempt e) row_id div 2 ^ 65"

subsection \<open>Access by primary key\<close>

definition get_user :: "shop \<Rightarrow> int \<Rightarrow> user option" where
  "get_user s k = find_by u_id k (t_users s)"

definition put_user :: "user \<Rightarrow> shop \<Rightarrow> shop" where
  "put_user r s = s\<lparr>t_users := put_by u_id r (t_users s)\<rparr>"

definition get_goods :: "shop \<Rightarrow> int \<Rightarrow> goods option" where
  "get_goods s k = find_by g_id k (t_goods s)"

definition put_goods :: "goods \<Rightarrow> shop \<Rightarrow> shop" where
  "put_goods r s = s\<lparr>t_goods := put_by g_id r (t_goods s)\<rparr>"

definition goods_by_name :: "shop \<Rightarrow> string \<Rightarrow> goods option" where
  "goods_by_name s n = find_by g_name n (t_goods s)"

definition get_order :: "shop \<Rightarrow> int \<Rightarrow> order option" where
  "get_order s k = find_by o_id k (t_orders s)"

definition put_order :: "order \<Rightarrow> shop \<Rightarrow> shop" where
  "put_order r s = s\<lparr>t_orders := put_by o_id r (t_orders s)\<rparr>"

definition get_promo :: "shop \<Rightarrow> int \<Rightarrow> promo_code option" where
  "get_promo s k = find_by pc_id k (t_promos s)"

definition put_promo :: "promo_code \<Rightarrow> shop \<Rightarrow> shop" where
  "put_promo r s = s\<lparr>t_promos := put_by pc_id r (t_promos s)\<rparr>"

definition promo_by_code :: "shop \<Rightarrow> string \<Rightarrow> promo_code option" where
  "promo_by_code s c = find_by pc_code c (t_promos s)"

definition get_payment :: "shop \<Rightarrow> string \<times> string \<Rightarrow> payment option" where
  "get_payment s k = find_by (\<lambda>p. (pay_provider p, pay_external_id p)) k (t_payments s)"

definition put_payment :: "payment \<Rightarrow> shop \<Rightarrow> shop" where
  "put_payment r s =
     s\<lparr>t_payments := put_by (\<lambda>p. (pay_provider p, pay_external_id p)) r (t_payments s)\<rparr>"

definition get_ticket :: "shop \<Rightarrow> int \<Rightarrow> support_ticket option" where
  "get_ticket s k = find_by st_id k (t_tickets s)"

definition put_ticket :: "support_ticket \<Rightarrow> shop \<Rightarrow> shop" where
  "put_ticket r s = s\<lparr>t_tickets := put_by st_id r (t_tickets s)\<rparr>"

definition get_cart_item :: "shop \<Rightarrow> int \<Rightarrow> cart_item option" where
  "get_cart_item s k = find_by ci_id k (t_cart s)"

definition put_cart_item :: "cart_item \<Rightarrow> shop \<Rightarrow> shop" where
  "put_cart_item r s = s\<lparr>t_cart := put_by ci_id r (t_cart s)\<rparr>"

definition get_provider :: "shop \<Rightarrow> int \<Rightarrow> fulfillment_provider option" where
  "get_provider s k = find_by fp_id k (t_providers s)"

definition get_role :: "shop \<Rightarrow> int \<Rightarrow> role option" where
  "get_role s k = find_by r_id k (t_roles s)"

definition put_role :: "role \<Rightarrow> shop \<Rightarrow> shop" where
  "put_role r s = s\<lparr>t_roles := put_by r_id r (t_roles s)\<rparr>"

subsection \<open>The table contract\<close>

text \<open>
  What an operation relies on when it reads a row, changes it and writes it back.  Everything that
  is proved from the contract alone is proved here once and used for every table.
\<close>

locale row_table =
  fixes lookup :: "'s \<Rightarrow> 'k \<Rightarrow> 'r option"
    and store :: "'r \<Rightarrow> 's \<Rightarrow> 's"
    and key :: "'r \<Rightarrow> 'k"
  assumes lookup_key: "lookup s k = Some r \<Longrightarrow> key r = k"
    and lookup_store_same: "lookup s (key r) \<noteq> None \<Longrightarrow> lookup (store r s) (key r) = Some r"
    and lookup_store_absent: "lookup s (key r) = None \<Longrightarrow> lookup (store r s) (key r) = None"
    and lookup_store_other: "k \<noteq> key r \<Longrightarrow> lookup (store r s) k = lookup s k"
    and store_store: "key r = key r' \<Longrightarrow> store r (store r' s) = store r s"
begin

lemma lookup_store:
  "lookup (store r s) k = (if k = key r then map_option (\<lambda>_. r) (lookup s k) else lookup s k)"
  using lookup_store_same lookup_store_absent lookup_store_other
  by (cases "lookup s k") auto

lemma read_modify_write:
  assumes "lookup s k = Some r" "key (f r) = key r"
  shows "lookup (store (f r) s) k = Some (f r)"
  using assms lookup_key by (auto simp: lookup_store)

lemma modify_twice:
  assumes "key (f r) = key r" "key (g (f r)) = key (f r)"
  shows "store (g (f r)) (store (f r) s) = store (g (f r)) s"
  using assms by (simp add: store_store)

lemma store_dom: "lookup (store r s) k = None \<longleftrightarrow> lookup s k = None"
  by (simp add: lookup_store)

end

lemma find_put:
  "find_by key k (put_by key r rows) =
     (if k = key r then map_option (\<lambda>_. r) (find_by key k rows) else find_by key k rows)"
  by (induction rows) auto

interpretation users: row_table get_user put_user u_id
  by unfold_locales (auto simp: get_user_def put_user_def find_put put_put dest: find_by_Some_key)

interpretation goods_table: row_table get_goods put_goods g_id
  by unfold_locales (auto simp: get_goods_def put_goods_def find_put put_put dest: find_by_Some_key)

interpretation orders: row_table get_order put_order o_id
  by unfold_locales (auto simp: get_order_def put_order_def find_put put_put dest: find_by_Some_key)

interpretation promos: row_table get_promo put_promo pc_id
  by unfold_locales (auto simp: get_promo_def put_promo_def find_put put_put dest: find_by_Some_key)

interpretation payments: row_table get_payment put_payment "\<lambda>p. (pay_provider p, pay_external_id p)"
  by unfold_locales
    (auto simp: get_payment_def put_payment_def find_put put_put dest: find_by_Some_key)

interpretation tickets: row_table get_ticket put_ticket st_id
  by unfold_locales (auto simp: get_ticket_def put_ticket_def find_put put_put dest: find_by_Some_key)

interpretation cart_rows: row_table get_cart_item put_cart_item ci_id
  by unfold_locales
    (auto simp: get_cart_item_def put_cart_item_def find_put put_put dest: find_by_Some_key)

interpretation roles: row_table get_role put_role r_id
  by unfold_locales (auto simp: get_role_def put_role_def find_put put_put dest: find_by_Some_key)

lemmas table_lookup [table_simps] =
  users.lookup_store goods_table.lookup_store orders.lookup_store promos.lookup_store
  payments.lookup_store tickets.lookup_store cart_rows.lookup_store roles.lookup_store

subsection \<open>Inserting rows\<close>

text \<open>\<open>session.add(Row(...))\<close>: the row gets the next serial key.\<close>

definition next_id :: "shop \<Rightarrow> int" where
  "next_id s = t_seq s + 1"

definition add_operation :: "int \<Rightarrow> int \<Rightarrow> int \<Rightarrow> shop \<Rightarrow> shop" where
  "add_operation uid v t s =
     s\<lparr>t_operations := t_operations s @ [\<lparr>op_id = next_id s, op_user_id = Some uid, op_value = v, op_time = t\<rparr>],
       t_seq := next_id s\<rparr>"

definition log_audit :: "string \<Rightarrow> string \<Rightarrow> int option \<Rightarrow> string option \<Rightarrow> string option \<Rightarrow> shop \<Rightarrow> shop" where
  "log_audit action level uid rtype rid s =
     s\<lparr>t_audit := t_audit s @ [\<lparr>al_level = level, al_user_id = uid, al_action = action,
          al_resource_type = rtype, al_resource_id = rid\<rparr>]\<rparr>"

definition safe_create_task :: "bg_task \<Rightarrow> shop \<Rightarrow> shop" where
  "safe_create_task t s = s\<lparr>t_tasks := t_tasks s @ [t]\<rparr>"

subsection \<open>Sessions\<close>

text \<open>The CHECK constraints of the models, and the uniqueness of the provider's order id, which is
  only written by an update; the name of the first one violated.\<close>

definition user_check :: "user \<Rightarrow> bool" where
  "user_check u \<longleftrightarrow> u_referral_id u \<noteq> Some (u_id u) \<and> 0 \<le> u_balance u"

definition promo_check :: "promo_code \<Rightarrow> bool" where
  "promo_check p \<longleftrightarrow> 0 \<le> pc_discount_value p \<and> (pc_category_id p = None \<or> pc_item_id p = None)"

definition order_check :: "order \<Rightarrow> bool" where
  "order_check x \<longleftrightarrow> 0 < o_quantity x \<and> o_status x \<in> set known_statuses \<and> 0 \<le> o_total_cents x"

definition ticket_check :: "support_ticket \<Rightarrow> bool" where
  "ticket_check t \<longleftrightarrow> st_status t \<in> {TicketOpen, TicketPending, TicketClosed}"

definition check_violation :: "shop \<Rightarrow> string option" where
  "check_violation s =
     (if \<not> list_all (\<lambda>u. u_referral_id u \<noteq> Some (u_id u)) (t_users s) then Some ''ck_users_no_self_referral''
      else if \<not> list_all (\<lambda>u. 0 \<le> u_balance u) (t_users s) then Some ''ck_users_balance_nonneg''
      else if \<not> list_all (\<lambda>r. re_referrer_id r \<noteq> re_referral_id r) (t_earnings s)
        then Some ''ck_referral_earnings_no_self_referral''
      else if \<not> list_all promo_check (t_promos s) then Some ''ck_promo''
      else if \<not> list_all (\<lambda>c. 0 < ci_quantity c) (t_cart s) then Some ''ck_cart_items_quantity_positive''
      else if \<not> list_all (\<lambda>r. 1 \<le> rv_rating r \<and> rv_rating r \<le> 5) (t_reviews s)
        then Some ''ck_review_rating_range''
      else if \<not> list_all order_check (t_orders s) then Some ''ck_orders''
      else if \<not> distinct (List.map_filter o_provider_external_order_id (t_orders s))
        then Some ''uq_orders_provider_external_id''
      else if \<not> list_all ticket_check (t_tickets s) then Some ''ck_support_tickets_status''
      else None)"

definition commit :: "'a \<times> shop \<Rightarrow> ('a \<times> shop) result" where
  "commit as = (case check_violation (snd as) of None \<Rightarrow> Inr as | Some c \<Rightarrow> Inl (IntegrityError c))"

definition run_session :: "(shop \<Rightarrow> ('a \<times> shop) result) \<Rightarrow> shop \<Rightarrow> ('a \<times> shop) result" where
  "run_session body s = tx_bind (body s) commit"

lemma commit_eq_Inr [tx_simps]: "commit as = Inr bs \<longleftrightarrow> check_violation (snd as) = None \<and> bs = as"
  by (auto simp: commit_def split: option.split)

lemma run_session_Inr [tx_simps]:
  "run_session body s = Inr r \<longleftrightarrow> body s = Inr r \<and> check_violation (snd r) = None"
  by (cases r) (auto simp: run_session_def tx_simps)

lemma run_session_Inl_body: "body s = Inl e \<Longrightarrow> run_session body s = Inl e"
  by (simp add: run_session_def)

lemma check_violation_None:
  "check_violation s = None \<longleftrightarrow>
     list_all user_check (t_users s) \<and>
     list_all (\<lambda>r. re_referrer_id r \<noteq> re_referral_id r) (t_earnings s) \<and>
     list_all promo_check (t_promos s) \<and> list_all (\<lambda>c. 0 < ci_quantity c) (t_cart s) \<and>
     list_all (\<lambda>r. 1 \<le> rv_rating r \<and> rv_rating r \<le> 5) (t_reviews s) \<and>
     list_all order_check (t_orders s) \<and>
     distinct (List.map_filter o_provider_external_order_id (t_orders s)) \<and>
     list_all ticket_check (t_tickets s)"
  by (auto simp: check_violation_def user_check_def list_all_iff)

subsection \<open>Balances\<close>

definition total_balance :: "shop \<Rightarrow> int" where
  "total_balance s = sum_list (map u_balance (t_users s))"

definition users_ok :: "shop \<Rightarrow> bool" where
  "users_ok s \<longleftrightarrow> distinct (map u_id (t_users s))"

lemma total_balance_put:
  assumes "users_ok s" "get_user s (u_id v) = Some u"
  shows "total_balance (put_user v s) = total_balance s - u_balance u + u_balance v"
  using sum_put_by [of u_id "t_users s" v u u_balance] assms
  by (simp add: total_balance_def put_user_def users_ok_def get_user_def)

lemma users_ok_put [simp]: "users_ok (put_user v s) = users_ok s"
  by (simp add: users_ok_def put_user_def keys_put)

text \<open>The balance of a user, zero when there is none.\<close>

definition balance_of :: "shop \<Rightarrow> int \<Rightarrow> int" where
  "balance_of s k = (case get_user s k of None \<Rightarrow> 0 | Some u \<Rightarrow> u_balance u)"

lemma balance_of_put:
  assumes "get_user s (u_id v) \<noteq> None"
  shows "balance_of (put_user v s) k = (if k = u_id v then u_balance v else balance_of s k)"
  using assms by (auto simp: balance_of_def users.lookup_store split: option.split)

lemma balance_of_users: "t_users s' = t_users s \<Longrightarrow> balance_of s' k = balance_of s k"
  by (simp add: balance_of_def get_user_def)

lemma get_user_id: "get_user s k = Some u \<Longrightarrow> u_id u = k"
  by (rule users.lookup_key)

end
