(* ===== verification/Sample_Shop.thy ===== *)
theory Sample_Shop
  imports Shop
begin

text \<open>
  A small concrete shop and its environment, on which the witnesses evaluate the operations: a
  buyer invited by a referrer, a product with three finite units, a promo code bound to its category.
\<close>

definition sample_env :: env where
  "sample_env = \<lparr>env_now = 1000, env_referral_percent = 10, env_pay_currency = ''RUB'', env_attempt = 0,
     env_uuid = (\<lambda>a i. (i + 1) * 2 ^ 65), env_http = (\<lambda>m u b. HttpTimeout), env_repr = (\<lambda>_. ''{}''),
     env_sha256 = (\<lambda>t. t), env_min_amount = 20, env_max_amount = 10000, env_stars_per_value = 91 / 100,
     env_batch_size = 10, env_hung_seconds = 3600, env_expire_batch = 50\<rparr>"

definition sample_user :: "int \<Rightarrow> int \<Rightarrow> int option \<Rightarrow> user" where
  "sample_user k b r = \<lparr>u_id = k, u_role_id = Some 1, u_balance = b, u_referral_id = r,
     u_registration_date = 0, u_is_blocked = False\<rparr>"

definition sample_goods :: "int \<Rightarrow> string \<Rightarrow> int \<Rightarrow> fulfillment_type \<Rightarrow> goods" where
  "sample_goods k n p ft = \<lparr>g_id = k, g_name = n, g_price = p, g_description = ''d'', g_category_id = 7,
     g_fulfillment_type = ft, g_allows_gift = True, g_sale_percent = None, g_sale_until = None\<rparr>"

definition sample_sale_goods :: goods where
  "sample_sale_goods = (sample_goods 3 ''key'' 1999 FulfillStock)
     \<lparr>g_sale_percent := Some (25 / 2), g_sale_until := Some 2000\<rparr>"

definition sample_value :: "int \<Rightarrow> int \<Rightarrow> string \<Rightarrow> item_value" where
  "sample_value k g v = \<lparr>iv_id = k, iv_item_id = g, iv_value = Some v, iv_is_infinity = False,
     iv_status = AVAILABLE, iv_reserved_order_id = None\<rparr>"

definition sample_promo :: promo_code where
  "sample_promo = \<lparr>pc_id = 9, pc_code = ''SALE'', pc_discount_type = ''percent'', pc_discount_value = 25,
     pc_scope = CategoryScope, pc_max_uses = 2, pc_max_uses_per_user = 1, pc_min_order_cents = 1000,
     pc_current_uses = 0, pc_expires_at = Some 2000, pc_category_id = Some 7, pc_item_id = None,
     pc_is_active = True\<rparr>"

definition sample_cart_item :: "int \<Rightarrow> int \<Rightarrow> int \<Rightarrow> int \<Rightarrow> string option \<Rightarrow> cart_item" where
  "sample_cart_item k u g q c = \<lparr>ci_id = k, ci_user_id = u, ci_item_id = g, ci_promo_code = c,
     ci_quantity = q\<rparr>"

definition sample_provider :: "fulfillment_provider" where
  "sample_provider = \<lparr>fp_id = 11, fp_code = ''fake'', fp_name = ''Fake'', fp_enabled = True,
     fp_config_json = Some (JObj [(''mode'', JStr ''success'')]), fp_default_timeout_seconds = 30,
     fp_default_retry_count = 3\<rparr>"

definition sample_link :: "goods_provider_link" where
  "sample_link = \<lparr>gpl_id = 12, gpl_goods_id = 6, gpl_provider_id = 11, gpl_external_product_id = ''p'',
     gpl_cost_cents = 300, gpl_request_params = Some (JObj []), gpl_result_mapping = Some (JObj []),
     gpl_timeout_seconds = None, gpl_retry_count = Some 2, gpl_delivery_template = None,
     gpl_priority = 100, gpl_enabled = True\<rparr>"

definition sample_order :: "int \<Rightarrow> int \<Rightarrow> int \<Rightarrow> int \<Rightarrow> order_status \<Rightarrow> order" where
  "sample_order k u g t st = \<lparr>o_id = k, o_user_id = u, o_goods_id = g, o_quantity = 1, o_price_cents = t,
     o_discount_cents = 0, o_total_cents = t, o_cost_cents = 0, o_fee_cents = 0,
     o_referral_amount_cents = 0, o_profit_cents = None, o_status = st, o_delivery_type = DeliverStock,
     o_provider_id = None, o_provider_external_order_id = None, o_fulfillment_payload = None,
     o_gift_telegram_id = None, o_created_at = 900, o_completed_at = None, o_expires_at = Some 950,
     o_fulfillment_attempt_count = 0, o_processing_started_at = None, o_delivery_notified_at = None\<rparr>"

definition sample_shop :: shop where
  "sample_shop = empty_shop\<lparr>t_users := [sample_user 1 5000 (Some 2), sample_user 2 0 None],
     t_goods := [sample_goods 3 ''key'' 1999 FulfillStock, sample_goods 6 ''api'' 1000 FulfillApi],
     t_item_values := [sample_value 5 3 ''k2'', sample_value 4 3 ''k1'', sample_value 8 3 ''k3''],
     t_promos := [sample_promo], t_providers := [sample_provider], t_links := [sample_link],
     t_cart := [sample_cart_item 13 1 3 2 (Some ''sale'')], t_seq := 20\<rparr>"

end
