(* ===== verification/Pricing.thy ===== *)
theory Pricing
  imports Money Sample_Shop
begin

text \<open>
  \<open>bot/database/methods/pricing.py\<close> and the two copies of \<open>_split_amount\<close> (\<open>transactions.py\<close>,
  \<open>fulfillment.py\<close>): the sale price of a product, the discount of a promo code, and the split of a
  line total over the units of the line.
\<close>

subsection \<open>Definitions\<close>

text \<open>\<open>Decimal.to_integral_value()\<close>: ties to even.\<close>

definition to_integral_value :: "rat \<Rightarrow> int" where
  "to_integral_value x =
     (let f = \<lfloor>x\<rfloor>; d = x - of_int f
      in if d < 1 / 2 then f else if 1 / 2 < d then f + 1 else if even f then f else f + 1)"

definition effective_price :: "goods \<Rightarrow> int \<Rightarrow> int \<times> bool \<times> int" where
  "effective_price g now =
     (let original = g_price g
      in case (g_sale_percent g, g_sale_until g) of
           (Some sale_percent, Some sale_until) \<Rightarrow>
             if sale_until \<le> now \<or> sale_percent \<le> 0 then (original, False, original)
             else (let pct = min sale_percent 100;
                       pct_bp = to_integral_value (pct * 100);
                       final = (original * (10000 - pct_bp)) div 10000
                   in (if final < 0 then 0 else final, True, original))
         | _ \<Rightarrow> (original, False, original))"

definition apply_promo_discount :: "int \<Rightarrow> string \<Rightarrow> int \<Rightarrow> int \<Rightarrow> int" where
  "apply_promo_discount base_price_cents discount_type discount_value quantity =
     (let line = base_price_cents * max quantity 0
      in if discount_type = ''percent''
         then (let pct = min (max discount_value 0) 100 in (line * (100 - pct)) div 100)
         else (let off = max discount_value 0 in max (line - off) 0))"

definition split_amount :: "int \<Rightarrow> int \<Rightarrow> int list" where
  "split_amount total_cents n =
     (if n \<le> 0 then []
      else (let base = total_cents div n; extra = total_cents mod n
            in map (\<lambda>i. base + (if int i < extra then 1 else 0)) [0..<nat n]))"

text \<open>\<open>Decimal(cents) / Decimal("100")\<close>: exact, with the trailing zeros of the quotient removed.\<close>

definition dec_div_100 :: "int \<Rightarrow> decimal" where
  "dec_div_100 n =
     (if n mod 100 = 0 then \<lparr>mantissa = n div 100, exponent = 0\<rparr>
      else if n mod 10 = 0 then \<lparr>mantissa = n div 10, exponent = - 1\<rparr>
      else \<lparr>mantissa = n, exponent = - 2\<rparr>)"

subsection \<open>Splitting a total\<close>

lemma length_split_amount [simp]: "length (split_amount t n) = nat n"
  by (simp add: split_amount_def Let_def)

lemma sum_list_indicator:
  "sum_list (map (\<lambda>i. b + (if int i < e then 1 else 0)) [0..<m]) = int m * b + max 0 (min e (int m))"
proof (induction m)
  case 0
  then show ?case by simp
next
  case (Suc m)
  then show ?case by (auto simp: algebra_simps max_def min_def)
qed

lemma sum_split_amount:
  assumes "0 < n"
  shows "sum_list (split_amount t n) = t"
proof -
  have "0 \<le> t mod n" "t mod n \<le> n"
    using assms pos_mod_bound [of n t] by (simp_all add: less_imp_le)
  then have "max 0 (min (t mod n) (int (nat n))) = t mod n" using assms by simp
  moreover have "n * (t div n) + t mod n = t" by simp
  ultimately show ?thesis
    using assms by (simp add: split_amount_def Let_def sum_list_indicator)
qed

lemma split_amount_one [simp]: "split_amount t 1 = [t]"
  by (simp add: split_amount_def)

lemma split_amount_member:
  assumes "x \<in> set (split_amount t n)"
  shows "x = t div n \<or> x = t div n + 1"
  using assms by (auto simp: split_amount_def Let_def split: if_splits)

lemma split_amount_nonneg:
  assumes "0 \<le> t" "x \<in> set (split_amount t n)"
  shows "0 \<le> x"
proof -
  have "0 < n" using assms(2) by (auto simp: split_amount_def split: if_splits)
  with assms(1) have "0 \<le> t div n" by (simp add: pos_imp_zdiv_nonneg_iff)
  with split_amount_member [OF assms(2)] show ?thesis by auto
qed

subsection \<open>Prices and discounts\<close>

lemma to_integral_value_of_int [simp]: "to_integral_value (of_int n) = n"
  by (simp add: to_integral_value_def Let_def)

lemma to_integral_value_ge: "of_int a \<le> x \<Longrightarrow> a \<le> to_integral_value x"
  using le_floor_iff [of a x] by (simp add: to_integral_value_def Let_def)

lemma to_integral_value_le: "x \<le> of_int b \<Longrightarrow> to_integral_value x \<le> b"
proof -
  assume le: "x \<le> of_int b"
  have "\<lfloor>x\<rfloor> \<le> b" using le floor_le_iff floor_mono [OF le] by simp
  moreover have "\<lfloor>x\<rfloor> < b" if "1 / 2 \<le> x - of_int \<lfloor>x\<rfloor>"
  proof (rule ccontr)
    assume "\<not> \<lfloor>x\<rfloor> < b"
    with \<open>\<lfloor>x\<rfloor> \<le> b\<close> have "\<lfloor>x\<rfloor> = b" by simp
    with le that show False by simp
  qed
  ultimately show ?thesis by (auto simp: to_integral_value_def Let_def not_less)
qed

lemma scaled_bounds:
  fixes p k m :: int
  assumes "0 \<le> p" "0 \<le> k" "k \<le> m" "0 < m"
  shows "0 \<le> p * k div m" "p * k div m \<le> p"
proof -
  show "0 \<le> p * k div m" using assms by (simp add: pos_imp_zdiv_nonneg_iff)
  have "p * k \<le> p * m" using assms by (simp add: mult_left_mono)
  from zdiv_mono1 [OF this \<open>0 < m\<close>] show "p * k div m \<le> p" using assms(4) by simp
qed

lemma effective_price_cases:
  obtains "effective_price g now = (g_price g, False, g_price g)"
  | b where "effective_price g now =
        (max 0 (g_price g * (10000 - b) div 10000), True, g_price g)" "0 \<le> b" "b \<le> 10000"
proof (cases "snd (effective_price g now)")
  case (Pair on orig)
  show ?thesis
  proof (cases on)
    case False
    then have "effective_price g now = (g_price g, False, g_price g)"
      using Pair by (auto simp: effective_price_def Let_def split: option.splits if_splits)
    then show ?thesis by (rule that(1))
  next
    case True
    then obtain p u where p: "g_sale_percent g = Some p" "g_sale_until g = Some u" "now < u" "0 < p"
      using Pair by (auto simp: effective_price_def Let_def not_le split: option.splits if_splits)
    let ?b = "to_integral_value (min p 100 * 100)"
    have "of_int 0 \<le> min p 100 * 100" "min p 100 * 100 \<le> of_int 10000"
      using p(4) by (auto simp: min_def)
    from to_integral_value_ge [OF this(1)] to_integral_value_le [OF this(2)]
    have "0 \<le> ?b" "?b \<le> 10000" .
    moreover have "effective_price g now = (max 0 (g_price g * (10000 - ?b) div 10000), True, g_price g)"
      using p by (simp add: effective_price_def Let_def max_def)
    ultimately show ?thesis using that(2) by blast
  qed
qed

lemma effective_price_bounds:
  assumes "0 \<le> g_price g"
  shows "0 \<le> fst (effective_price g now) \<and> fst (effective_price g now) \<le> g_price g"
proof (cases rule: effective_price_cases [of g now])
  case 1
  with assms show ?thesis by simp
next
  case (2 b)
  with assms scaled_bounds [of "g_price g" "10000 - b" 10000] show ?thesis by simp
qed

lemma apply_promo_discount_nonneg:
  assumes "0 \<le> p"
  shows "0 \<le> apply_promo_discount p t v q"
proof -
  have "0 \<le> p * max q 0" using assms by simp
  then have "0 \<le> p * max q 0 * (100 - min (max v 0) 100) div 100"
    by (rule scaled_bounds(1)) simp_all
  then show ?thesis unfolding apply_promo_discount_def Let_def by simp
qed

lemma apply_promo_discount_le:
  assumes "0 \<le> p"
  shows "apply_promo_discount p t v q \<le> p * max q 0"
proof -
  have nonneg: "0 \<le> p * max q 0" using assms by simp
  then have "p * max q 0 * (100 - min (max v 0) 100) div 100 \<le> p * max q 0"
    by (rule scaled_bounds(2)) simp_all
  with nonneg show ?thesis unfolding apply_promo_discount_def Let_def by simp
qed

subsection \<open>The order snapshot price\<close>

lemma half_up_tenths: "(2 * (\<bar>m\<bar> * 100) + 10) div 20 = 10 * \<bar>m :: int\<bar>"
proof -
  have "(2 * (\<bar>m\<bar> * 100) + 10) div 20 = (10 + (10 * \<bar>m\<bar>) * 20) div 20" by (simp add: algebra_simps)
  also have "\<dots> = 10 * \<bar>m\<bar>" by (subst div_mult_self1) simp_all
  finally show ?thesis .
qed

lemma rub_to_cents_tenths:
  assumes "\<bar>10 * m\<bar> < 10 ^ 28"
  shows "rub_to_cents \<lparr>mantissa = m, exponent = - 1\<rparr> = Inr (10 * m)"
proof -
  have "quantize_half_up \<lparr>mantissa = m * 100, exponent = - 1\<rparr> =
      sgn (m * 100) * ((2 * (\<bar>m\<bar> * 100) + 10) div 20)"
    by (simp add: quantize_half_up_def abs_mult)
  also have "\<dots> = 10 * m" unfolding half_up_tenths by (simp add: sgn_mult sgn_mult_abs)
  finally show ?thesis using assms by (simp add: rub_to_cents_def)
qed

lemma rub_to_cents_div_100:
  assumes "\<bar>n\<bar> < 10 ^ 28"
  shows "rub_to_cents (dec_div_100 n) = Inr n"
proof -
  consider (rub) "n mod 100 = 0" | (ten) "n mod 100 \<noteq> 0" "n mod 10 = 0"
    | (kop) "n mod 100 \<noteq> 0" "n mod 10 \<noteq> 0" by blast
  then show ?thesis
  proof cases
    case rub
    then obtain k where n: "n = 100 * k" by auto
    have "\<bar>k\<bar> * 100 < 10 ^ 28" using assms unfolding n by (simp only: abs_mult)
    then show ?thesis using rub_to_cents_integer [of k] by (simp only: dec_div_100_def n) simp
  next
    case ten
    then obtain k where n: "n = 10 * k" by auto
    show ?thesis using ten rub_to_cents_tenths [of k] assms unfolding n dec_div_100_def
      by (simp only: if_False if_True) simp
  next
    case kop
    with assms show ?thesis by (simp only: dec_div_100_def rub_to_cents_hundredths if_False)
  qed
qed

lemma rub_to_cents_div_100_Inr:
  assumes "rub_to_cents (dec_div_100 n) = Inr u"
  shows "u = n"
proof -
  have q: "quantize_half_up ((dec_div_100 n)\<lparr>mantissa := mantissa (dec_div_100 n) * 100\<rparr>) = n"
  proof -
    consider (rub) k where "n = 100 * k" | (ten) k where "n = 10 * k" "n mod 100 \<noteq> 0"
      | (kop) "n mod 100 \<noteq> 0" "n mod 10 \<noteq> 0"
      by (metis mod_mult_self1_is_0 mult_div_mod_eq add.right_neutral)
    then show ?thesis
    proof cases
      case rub
      then show ?thesis by (simp add: dec_div_100_def quantize_half_up_def)
    next
      case ten
      have "quantize_half_up \<lparr>mantissa = k * 100, exponent = - 1\<rparr> =
          sgn (k * 100) * ((2 * (\<bar>k\<bar> * 100) + 10) div 20)"
        by (simp add: quantize_half_up_def abs_mult)
      also have "\<dots> = 10 * k" unfolding half_up_tenths by (simp add: sgn_mult sgn_mult_abs)
      finally show ?thesis using ten by (simp add: dec_div_100_def)
    next
      case kop
      have "quantize_half_up \<lparr>mantissa = n * 100, exponent = - 2\<rparr> =
          sgn (n * 100) * ((2 * (\<bar>n\<bar> * 100) + 100) div 200)"
        by (simp add: quantize_half_up_def abs_mult)
      also have "\<dots> = n" unfolding half_up_exact by (simp add: sgn_mult sgn_mult_abs)
      finally show ?thesis using kop by (simp add: dec_div_100_def)
    qed
  qed
  show ?thesis using assms unfolding rub_to_cents_def Let_def q by (simp split: if_splits)
qed

subsection \<open>Properties\<close>

theorem split_amount_fair:
  assumes "0 < n"
  shows "sum_list (split_amount t n) = t \<and> length (split_amount t n) = nat n \<and>
    (\<forall>x \<in> set (split_amount t n). \<forall>y \<in> set (split_amount t n). \<bar>x - y\<bar> \<le> 1 \<and> (0 \<le> t \<longrightarrow> 0 \<le> x))"
proof -
  have "\<bar>x - y\<bar> \<le> 1 \<and> (0 \<le> t \<longrightarrow> 0 \<le> x)"
    if "x \<in> set (split_amount t n)" "y \<in> set (split_amount t n)" for x y
    using split_amount_member [OF that(1)] split_amount_member [OF that(2)] split_amount_nonneg [OF _ that(1)]
    by auto
  then show ?thesis by (simp add: sum_split_amount [OF assms])
qed

lemma split_amount_fair_witness:
  "sum_list (split_amount 1000 3) = 1000 \<and> length (split_amount 1000 3) = 3 \<and>
    hd (split_amount 1000 3) - last (split_amount 1000 3) \<le> 1"
proof -
  have "split_amount 1000 3 \<noteq> []" by code_simp
  then have "hd (split_amount 1000 3) \<in> set (split_amount 1000 3)"
    "last (split_amount 1000 3) \<in> set (split_amount 1000 3)" by simp_all
  with split_amount_fair [of 3 1000] show ?thesis by fastforce
qed

theorem line_price_bounds:
  assumes "0 \<le> g_price g"
  shows "0 \<le> apply_promo_discount (fst (effective_price g now)) t v q \<and>
    apply_promo_discount (fst (effective_price g now)) t v q \<le> g_price g * max q 0"
proof -
  note e = effective_price_bounds [OF assms, of now]
  have "apply_promo_discount (fst (effective_price g now)) t v q \<le> fst (effective_price g now) * max q 0"
    using e by (intro apply_promo_discount_le) simp
  also have "\<dots> \<le> g_price g * max q 0" using e by (intro mult_right_mono) simp_all
  finally show ?thesis using e apply_promo_discount_nonneg by simp
qed

lemma line_price_bounds_witness:
  "0 \<le> apply_promo_discount (fst (effective_price (sample_goods 3 ''key'' 1999 FulfillStock) 1000)) ''fixed'' 5000 2 \<and>
   apply_promo_discount (fst (effective_price (sample_goods 3 ''key'' 1999 FulfillStock) 1000)) ''fixed'' 5000 2
     \<le> g_price (sample_goods 3 ''key'' 1999 FulfillStock) * max 2 0"
  by (rule line_price_bounds) (simp add: sample_goods_def)

theorem sale_price_exact:
  assumes "g_sale_percent g = Some pct" "g_sale_until g = Some u" "now < u" "0 \<le> g_price g"
    and "pct = of_int k / 100" "0 < k" "k \<le> 10000"
  shows "effective_price g now = (\<lfloor>of_int (g_price g) * (100 - pct) / 100\<rfloor>, True, g_price g)"
proof -
  have pct: "min pct 100 = pct" "0 < pct" "pct * 100 = of_int k" using assms(5-7) by (simp_all add: min_def)
  have "of_int (g_price g) * (100 - pct) / 100 = of_int (g_price g * (10000 - k)) / of_int 10000"
    using assms(5) by (simp add: field_simps)
  then have fl: "\<lfloor>of_int (g_price g) * (100 - pct) / 100\<rfloor> = g_price g * (10000 - k) div 10000"
    by (simp only: floor_divide_of_int_eq)
  have "0 \<le> g_price g * (10000 - k) div 10000"
    by (rule scaled_bounds(1)) (use assms(4,6,7) in simp_all)
  then show ?thesis
    unfolding fl using assms(1-3) pct by (simp add: effective_price_def Let_def)
qed

lemma sale_price_exact_witness:
  "effective_price sample_sale_goods 1000 =
     (\<lfloor>of_int (g_price sample_sale_goods) * (100 - 25 / 2 :: rat) / 100\<rfloor>, True, g_price sample_sale_goods)"
  by (rule sale_price_exact [where u = 2000 and k = 1250]) (simp_all add: sample_sale_goods_def sample_goods_def)

end
