(* ===== verification/Stock.thy ===== *)
theory Stock
  imports Sample_Shop
begin

text \<open>
  \<open>bot/catalog/stock.py\<close>: claiming, reserving and releasing the deliverable values of a product.
  A finite value is deleted when it is sold; an infinite template row is never consumed.  The
  lemmas show that both loops take exactly the units with the lowest ids, each once, and leave the
  stock alone when they fail.
\<close>

subsection \<open>Operations\<close>

definition assert_gift_purchase_allowed :: "goods \<Rightarrow> int option \<Rightarrow> unit result" where
  "assert_gift_purchase_allowed g gift =
     (case gift of None \<Rightarrow> Inr ()
      | Some _ \<Rightarrow> if \<not> g_allows_gift g then Inl (StockAllocationError ''gift_not_allowed'') else Inr ())"

definition infinite_row :: "shop \<Rightarrow> int \<Rightarrow> item_value option" where
  "infinite_row s gid = List.find (\<lambda>v. iv_item_id v = gid \<and> iv_is_infinity v) (t_item_values s)"

definition finite_available :: "shop \<Rightarrow> int \<Rightarrow> item_value list" where
  "finite_available s gid =
     filter (\<lambda>v. iv_item_id v = gid \<and> \<not> iv_is_infinity v \<and> iv_status v = AVAILABLE) (t_item_values s)"

definition count_finite_available_units :: "shop \<Rightarrow> int \<Rightarrow> int" where
  "count_finite_available_units s gid = int (length (finite_available s gid))"

definition stock_unit_available_clause :: "item_value \<Rightarrow> bool" where
  "stock_unit_available_clause v \<longleftrightarrow> iv_is_infinity v \<or> iv_status v = AVAILABLE"

text \<open>The \<open>for row_id, row_value in rows\<close> loop: delete each selected row, count the deleted ones.\<close>

fun claim_units :: "item_value list \<Rightarrow> shop \<Rightarrow> (string option list \<times> shop) result" where
  "claim_units [] s = Inr ([], s)"
| "claim_units (r # rs) s =
     (let hit = (\<lambda>v. iv_id v = iv_id r \<and> iv_status v = AVAILABLE)
      in if length (filter hit (t_item_values s)) \<noteq> 1 then Inl (StockAllocationError ''out_of_stock'')
         else tx_bind (claim_units rs (s\<lparr>t_item_values := filter (\<lambda>v. \<not> hit v) (t_item_values s)\<rparr>))
                (\<lambda>(vs, s'). Inr (iv_value r # vs, s')))"

definition consume_stock_units :: "goods \<Rightarrow> int \<Rightarrow> shop \<Rightarrow> (string option list \<times> shop) result" where
  "consume_stock_units g quantity s =
     (if quantity \<le> 0 then Inr ([], s)
      else if g_fulfillment_type g = FulfillApi then Inl (StockAllocationError ''api_fulfillment'')
      else case infinite_row s (g_id g) of
             Some v \<Rightarrow> Inr (replicate (nat quantity) (iv_value v), s)
           | None \<Rightarrow>
               (let rows = take (nat quantity) (order_by_key iv_id (finite_available s (g_id g)))
                in if length rows < nat quantity then Inl (StockAllocationError ''out_of_stock'')
                   else claim_units rows s))"

fun reserve_loop :: "nat \<Rightarrow> int \<Rightarrow> int \<Rightarrow> shop \<Rightarrow> (string option list \<times> shop) result" where
  "reserve_loop 0 gid oid s = Inr ([], s)"
| "reserve_loop (Suc n) gid oid s =
     (case order_by_key iv_id (finite_available s gid) of
        [] \<Rightarrow> Inl (StockAllocationError ''out_of_stock'')
      | r # _ \<Rightarrow>
          (let hit = (\<lambda>v. iv_id v = iv_id r \<and> iv_status v = AVAILABLE)
           in if length (filter hit (t_item_values s)) \<noteq> 1 then Inl (StockAllocationError ''out_of_stock'')
              else tx_bind (reserve_loop n gid oid
                     (s\<lparr>t_item_values :=
                        map (\<lambda>v. if hit v then v\<lparr>iv_status := RESERVED, iv_reserved_order_id := Some oid\<rparr> else v)
                          (t_item_values s)\<rparr>))
                     (\<lambda>(vs, s'). Inr (iv_value r # vs, s'))))"

definition reserve_stock_units :: "goods \<Rightarrow> int \<Rightarrow> int \<Rightarrow> shop \<Rightarrow> (string option list \<times> shop) result" where
  "reserve_stock_units g order_id quantity s =
     (if g_fulfillment_type g = FulfillApi then Inl (StockAllocationError ''api_fulfillment'')
      else if quantity \<le> 0 then Inr ([], s)
      else case infinite_row s (g_id g) of
             Some v \<Rightarrow> Inr (replicate (nat quantity) (iv_value v), s)
           | None \<Rightarrow> reserve_loop (nat quantity) (g_id g) order_id s)"

definition release_stock_reservations :: "int \<Rightarrow> shop \<Rightarrow> int \<times> shop" where
  "release_stock_reservations order_id s =
     (let hit = (\<lambda>v. iv_reserved_order_id v = Some order_id \<and> iv_status v = RESERVED)
      in (int (length (filter hit (t_item_values s))),
          s\<lparr>t_item_values :=
             map (\<lambda>v. if hit v then v\<lparr>iv_status := AVAILABLE, iv_reserved_order_id := None\<rparr> else v)
               (t_item_values s)\<rparr>))"

subsection \<open>Lowest ids first\<close>

text \<open>The units a sale of \<open>n\<close> takes, and their ids.\<close>

definition next_units :: "shop \<Rightarrow> int \<Rightarrow> nat \<Rightarrow> item_value list" where
  "next_units s gid n = take n (order_by_key iv_id (finite_available s gid))"

definition distinct_values :: "shop \<Rightarrow> bool" where
  "distinct_values s \<longleftrightarrow> distinct (map iv_id (t_item_values s))"

lemma order_by_filter: "order_by_key k (filter P xs) = filter P (order_by_key k xs)"
  by (simp add: order_by_key_def filter_sort)

lemma finite_available_mem:
  "v \<in> set (finite_available s gid) \<longleftrightarrow>
     v \<in> set (t_item_values s) \<and> iv_item_id v = gid \<and> \<not> iv_is_infinity v \<and> iv_status v = AVAILABLE"
  by (auto simp: finite_available_def)

lemma next_units_subset: "set (next_units s gid n) \<subseteq> set (finite_available s gid)"
  unfolding next_units_def using set_take_subset by fastforce

lemma distinct_map_filter_one:
  "distinct (map f xs) \<Longrightarrow> x \<in> set xs \<Longrightarrow> filter (\<lambda>y. f y = f x) xs = [x]"
  by (induction xs) (auto simp: filter_empty_conv image_iff)

lemma same_id:
  assumes "distinct_values s" "v \<in> set (t_item_values s)" "w \<in> set (t_item_values s)" "iv_id v = iv_id w"
  shows "v = w"
  using assms by (auto simp: distinct_values_def distinct_map dest: inj_onD)

lemma hit_is_id:
  assumes "distinct_values s" "r \<in> set (finite_available s gid)" "v \<in> set (t_item_values s)"
  shows "(iv_id v = iv_id r \<and> iv_status v = AVAILABLE) \<longleftrightarrow> iv_id v = iv_id r"
  using assms same_id [of s v r] by (auto simp: finite_available_mem)

lemma hit_unique:
  assumes "distinct_values s" "r \<in> set (finite_available s gid)"
  shows "length (filter (\<lambda>v. iv_id v = iv_id r \<and> iv_status v = AVAILABLE) (t_item_values s)) = 1"
proof -
  have "filter (\<lambda>v. iv_id v = iv_id r \<and> iv_status v = AVAILABLE) (t_item_values s) =
      filter (\<lambda>v. iv_id v = iv_id r) (t_item_values s)"
    using hit_is_id [OF assms] by (intro filter_cong) auto
  also have "\<dots> = [r]"
    using assms by (intro distinct_map_filter_one) (auto simp: distinct_values_def finite_available_mem)
  finally show ?thesis by simp
qed

lemma distinct_sorted_ids:
  assumes "distinct_values s"
  shows "distinct (map iv_id (order_by_key iv_id (finite_available s gid)))"
proof -
  have "distinct (map iv_id (finite_available s gid))"
    using assms unfolding distinct_values_def finite_available_def by (rule distinct_map_filter)
  then show ?thesis by (simp add: order_by_key_def distinct_map)
qed

subsection \<open>Claiming\<close>

definition without_ids :: "int list \<Rightarrow> item_value list \<Rightarrow> item_value list" where
  "without_ids ids rows = filter (\<lambda>v. iv_id v \<notin> set ids) rows"

lemma claim_units_exact:
  assumes "distinct_values s" "set rs \<subseteq> set (finite_available s gid)" "distinct (map iv_id rs)"
  shows "claim_units rs s = Inr (map iv_value rs,
     s\<lparr>t_item_values := without_ids (map iv_id rs) (t_item_values s)\<rparr>)"
  using assms
proof (induction rs arbitrary: s)
  case Nil
  then show ?case by (simp add: without_ids_def)
next
  case (Cons r rs)
  let ?hit = "\<lambda>v. iv_id v = iv_id r \<and> iv_status v = AVAILABLE"
  let ?s = "s\<lparr>t_item_values := filter (\<lambda>v. \<not> ?hit v) (t_item_values s)\<rparr>"
  have r: "r \<in> set (finite_available s gid)" using Cons.prems(2) by simp
  have rest: "filter (\<lambda>v. \<not> ?hit v) (t_item_values s) =
      filter (\<lambda>v. iv_id v \<noteq> iv_id r) (t_item_values s)"
    using hit_is_id [OF Cons.prems(1) r] by (intro filter_cong) auto
  have "distinct_values ?s"
    using Cons.prems(1) unfolding distinct_values_def by (simp add: distinct_map_filter)
  moreover have "set rs \<subseteq> set (finite_available ?s gid)"
  proof
    fix x assume x: "x \<in> set rs"
    have "iv_id r \<notin> iv_id ` set rs" using Cons.prems(3) by simp
    with imageI [OF x, of iv_id] have "iv_id x \<noteq> iv_id r" by metis
    moreover have "x \<in> set (finite_available s gid)" using x Cons.prems(2) by auto
    ultimately show "x \<in> set (finite_available ?s gid)" by (simp add: finite_available_mem)
  qed
  moreover have "distinct (map iv_id rs)" using Cons.prems(3) by simp
  ultimately have "claim_units rs ?s = Inr (map iv_value rs,
      ?s\<lparr>t_item_values := without_ids (map iv_id rs) (t_item_values ?s)\<rparr>)"
    by (rule Cons.IH)
  moreover have "without_ids (map iv_id rs) (t_item_values ?s) =
      without_ids (map iv_id (r # rs)) (t_item_values s)"
    unfolding rest by (simp add: without_ids_def rest conj_commute)
  ultimately show ?case
    using hit_unique [OF Cons.prems(1) r] by (simp add: Let_def)
qed

lemma consume_stock_units_finite:
  assumes "distinct_values s" "0 < q" "g_fulfillment_type g = FulfillStock" "infinite_row s (g_id g) = None"
  shows "consume_stock_units g q s =
    (if count_finite_available_units s (g_id g) < q then Inl (StockAllocationError ''out_of_stock'')
     else Inr (map iv_value (next_units s (g_id g) (nat q)),
       s\<lparr>t_item_values := without_ids (map iv_id (next_units s (g_id g) (nat q))) (t_item_values s)\<rparr>))"
proof (cases "count_finite_available_units s (g_id g) < q")
  case True
  then have "length (finite_available s (g_id g)) < nat q"
    by (simp add: count_finite_available_units_def zless_nat_eq_int_zless)
  with True assms show ?thesis
    by (simp add: consume_stock_units_def Let_def)
next
  case False
  then have len: "length (next_units s (g_id g) (nat q)) = nat q"
    by (auto simp: next_units_def count_finite_available_units_def)
  have "distinct (map iv_id (next_units s (g_id g) (nat q)))"
    using distinct_sorted_ids [OF assms(1)] by (simp add: next_units_def flip: take_map)
  from claim_units_exact [OF assms(1) next_units_subset this] len False assms(2-4)
  show ?thesis by (simp add: consume_stock_units_def Let_def next_units_def)
qed

lemma consume_stock_units_frame:
  assumes "consume_stock_units g q s = Inr (vs, s')"
  shows "\<exists>P. s' = s\<lparr>t_item_values := filter P (t_item_values s)\<rparr>"
proof -
  have claim: "\<exists>P. b = a\<lparr>t_item_values := filter P (t_item_values a)\<rparr>"
    if "claim_units rs a = Inr (ws, b)" for rs a ws b
    using that
  proof (induction rs arbitrary: a ws)
    case Nil
    then show ?case by (intro exI [of _ "\<lambda>_. True"]) auto
  next
    case (Cons r rs)
    let ?hit = "\<lambda>v. iv_id v = iv_id r \<and> iv_status v = AVAILABLE"
    from Cons.prems obtain ws' where
      "claim_units rs (a\<lparr>t_item_values := filter (\<lambda>v. \<not> ?hit v) (t_item_values a)\<rparr>) = Inr (ws', b)"
      by (auto simp: Let_def tx_simps split: if_splits)
    from Cons.IH [OF this] obtain P where
      "b = a\<lparr>t_item_values := filter P (filter (\<lambda>v. \<not> ?hit v) (t_item_values a))\<rparr>" by auto
    then show ?case by (intro exI [of _ "\<lambda>v. \<not> ?hit v \<and> P v"]) (simp add: conj_ac)
  qed
  show ?thesis
  proof (cases "0 < q \<and> g_fulfillment_type g \<noteq> FulfillApi \<and> infinite_row s (g_id g) = None")
    case True
    with assms show ?thesis by (auto simp: consume_stock_units_def Let_def split: if_splits intro: claim)
  next
    case False
    with assms have "s' = s" by (auto simp: consume_stock_units_def split: if_splits option.splits)
    then show ?thesis by (intro exI [of _ "\<lambda>_. True"]) auto
  qed
qed

lemma consume_distinct:
  assumes "consume_stock_units g q s = Inr (vs, s')" "distinct_values s"
  shows "distinct_values s'"
  using consume_stock_units_frame [OF assms(1)] assms(2)
  by (auto simp: distinct_values_def distinct_map_filter)

lemma consume_infinite:
  assumes "0 < q" "g_fulfillment_type g = FulfillStock" "infinite_row s (g_id g) = Some v"
  shows "consume_stock_units g q s = Inr (replicate (nat q) (iv_value v), s)"
  using assms by (simp add: consume_stock_units_def)

lemma consume_length:
  assumes "consume_stock_units g q s = Inr (vs, s')"
  shows "length vs = nat q"
proof -
  have claim: "length ws = length rs" if "claim_units rs a = Inr (ws, b)" for rs a ws b
    using that by (induction rs arbitrary: a ws) (auto simp: Let_def tx_simps split: if_splits)
  from assms show ?thesis
    by (auto simp: consume_stock_units_def Let_def dest!: claim split: if_splits option.splits)
qed

subsection \<open>Reserving and releasing\<close>

definition mark_reserved :: "int list \<Rightarrow> int \<Rightarrow> item_value list \<Rightarrow> item_value list" where
  "mark_reserved ids oid rows =
     map (\<lambda>v. if iv_id v \<in> set ids then v\<lparr>iv_status := RESERVED, iv_reserved_order_id := Some oid\<rparr> else v) rows"

lemma mark_reserved_ids [simp]: "map iv_id (mark_reserved ids oid rows) = map iv_id rows"
  by (simp add: mark_reserved_def)

lemma finite_available_after_mark:
  "finite_available (s\<lparr>t_item_values := mark_reserved ids oid (t_item_values s)\<rparr>) gid =
     filter (\<lambda>v. iv_id v \<notin> set ids) (finite_available s gid)"
proof -
  have "filter (\<lambda>v. iv_item_id v = gid \<and> \<not> iv_is_infinity v \<and> iv_status v = AVAILABLE)
      (mark_reserved ids oid rows) =
    filter (\<lambda>v. iv_id v \<notin> set ids)
      (filter (\<lambda>v. iv_item_id v = gid \<and> \<not> iv_is_infinity v \<and> iv_status v = AVAILABLE) rows)" for rows
    by (induction rows) (auto simp: mark_reserved_def)
  then show ?thesis by (simp add: finite_available_def)
qed

lemma mark_reserved_Cons:
  "mark_reserved ids oid (mark_reserved [i] oid rows) = mark_reserved (i # ids) oid rows"
  by (induction rows) (auto simp: mark_reserved_def)

lemma filter_other_ids:
  "distinct (map f (x # xs)) \<Longrightarrow> filter (\<lambda>y. f y \<noteq> f x) (x # xs) = xs"
  by (auto simp: filter_id_conv) (metis image_eqI)

lemma reserve_loop_exact:
  assumes "distinct_values s"
  shows "reserve_loop n gid oid s =
    (if length (finite_available s gid) < n then Inl (StockAllocationError ''out_of_stock'')
     else Inr (map iv_value (next_units s gid n),
       s\<lparr>t_item_values := mark_reserved (map iv_id (next_units s gid n)) oid (t_item_values s)\<rparr>))"
  using assms
proof (induction n arbitrary: s)
  case 0
  then show ?case by (simp add: next_units_def mark_reserved_def)
next
  case (Suc n)
  show ?case
  proof (cases "order_by_key iv_id (finite_available s gid)")
    case Nil
    then have "finite_available s gid = []" using order_by_key_length by (metis length_0_conv)
    with Nil show ?thesis by simp
  next
    case (Cons r rs)
    let ?rows = "mark_reserved [iv_id r] oid (t_item_values s)"
    let ?s = "s\<lparr>t_item_values := ?rows\<rparr>"
    have r: "r \<in> set (finite_available s gid)" using Cons by (metis list.set_intros(1) order_by_key_set)
    have rows: "map (\<lambda>v. if iv_id v = iv_id r \<and> iv_status v = AVAILABLE
        then v\<lparr>iv_status := RESERVED, iv_reserved_order_id := Some oid\<rparr> else v) (t_item_values s) = ?rows"
      unfolding mark_reserved_def using hit_is_id [OF Suc.prems r] by (intro map_cong) auto
    have avail: "finite_available ?s gid = filter (\<lambda>v. iv_id v \<noteq> iv_id r) (finite_available s gid)"
      using finite_available_after_mark [of "[iv_id r]" oid s gid] by simp
    have sorted: "order_by_key iv_id (finite_available ?s gid) = rs"
      using distinct_sorted_ids [OF Suc.prems, of gid] unfolding avail order_by_filter Cons
      by (rule filter_other_ids)
    then have len: "length (finite_available s gid) = Suc (length (finite_available ?s gid))"
      using Cons order_by_key_length by (metis length_Cons)
    have "distinct_values ?s" using Suc.prems by (simp add: distinct_values_def)
    from Suc.IH [OF this] show ?thesis
      using hit_unique [OF Suc.prems r] Cons len
      by (simp add: rows Let_def next_units_def sorted mark_reserved_Cons)
  qed
qed

lemma release_after_mark:
  assumes "\<forall>v \<in> set rows. iv_reserved_order_id v \<noteq> Some oid"
    and "\<forall>v \<in> set rows. iv_id v \<in> set ids \<longrightarrow> iv_status v = AVAILABLE \<and> iv_reserved_order_id v = None"
  shows "map (\<lambda>v. if iv_reserved_order_id v = Some oid \<and> iv_status v = RESERVED
       then v\<lparr>iv_status := AVAILABLE, iv_reserved_order_id := None\<rparr> else v) (mark_reserved ids oid rows) = rows"
proof -
  have "(\<lambda>v. if iv_reserved_order_id v = Some oid \<and> iv_status v = RESERVED
       then v\<lparr>iv_status := AVAILABLE, iv_reserved_order_id := None\<rparr> else v)
     (if iv_id v \<in> set ids then v\<lparr>iv_status := RESERVED, iv_reserved_order_id := Some oid\<rparr> else v) = v"
    if "v \<in> set rows" for v
    using bspec [OF assms(1) that] bspec [OF assms(2) that] by auto
  then show ?thesis unfolding mark_reserved_def map_map comp_def by (intro map_idI)
qed

lemma release_count_mark:
  assumes "\<forall>v \<in> set rows. iv_reserved_order_id v \<noteq> Some oid"
  shows "length (filter (\<lambda>v. iv_reserved_order_id v = Some oid \<and> iv_status v = RESERVED)
      (mark_reserved ids oid rows)) = length (filter (\<lambda>v. iv_id v \<in> set ids) rows)"
  using assms by (induction rows) (auto simp: mark_reserved_def)

subsection \<open>Properties\<close>

theorem consume_stock_exact:
  assumes "distinct_values s" "0 < q" "g_fulfillment_type g = FulfillStock" "infinite_row s (g_id g) = None"
  shows "consume_stock_units g q s =
    (if count_finite_available_units s (g_id g) < q then Inl (StockAllocationError ''out_of_stock'')
     else Inr (map iv_value (next_units s (g_id g) (nat q)),
       s\<lparr>t_item_values := without_ids (map iv_id (next_units s (g_id g) (nat q))) (t_item_values s)\<rparr>))"
  by (rule consume_stock_units_finite [OF assms])

lemma consume_stock_exact_witness:
  "consume_stock_units (sample_goods 3 ''key'' 1999 FulfillStock) 2 sample_shop =
     Inr ([Some ''k1'', Some ''k2''], sample_shop\<lparr>t_item_values := [sample_value 8 3 ''k3'']\<rparr>)"
proof -
  have "consume_stock_units (sample_goods 3 ''key'' 1999 FulfillStock) 2 sample_shop =
      Inr (map iv_value (next_units sample_shop 3 2),
        sample_shop\<lparr>t_item_values := without_ids (map iv_id (next_units sample_shop 3 2)) (t_item_values sample_shop)\<rparr>)"
    using consume_stock_exact [of sample_shop 2 "sample_goods 3 ''key'' 1999 FulfillStock"]
    by (simp add: sample_shop_def sample_goods_def distinct_values_def sample_value_def infinite_row_def
        count_finite_available_units_def finite_available_def)
  moreover have "map iv_value (next_units sample_shop 3 2) = [Some ''k1'', Some ''k2''] \<and>
      without_ids (map iv_id (next_units sample_shop 3 2)) (t_item_values sample_shop) = [sample_value 8 3 ''k3'']"
    by code_simp
  ultimately show ?thesis by simp
qed

lemma next_units_split:
  assumes "distinct_values s"
  shows "next_units s gid (a + b) = next_units s gid a @
    next_units (s\<lparr>t_item_values := without_ids (map iv_id (next_units s gid a)) (t_item_values s)\<rparr>) gid b"
proof -
  let ?xs = "order_by_key iv_id (finite_available s gid)"
  have "finite_available (s\<lparr>t_item_values := without_ids ids (t_item_values s)\<rparr>) gid =
      filter (\<lambda>v. iv_id v \<notin> set ids) (finite_available s gid)" for ids
    by (simp add: finite_available_def without_ids_def conj_ac)
  then have "order_by_key iv_id (finite_available
      (s\<lparr>t_item_values := without_ids (map iv_id (take a ?xs)) (t_item_values s)\<rparr>) gid) =
      filter (\<lambda>v. iv_id v \<notin> set (map iv_id (take a ?xs))) ?xs"
    by (simp add: order_by_filter)
  also have "\<dots> = drop a ?xs"
  proof -
    define ts ds where "ts = take a ?xs" and "ds = drop a ?xs"
    then have xs: "?xs = ts @ ds" by simp
    have "distinct (map iv_id (ts @ ds))" using distinct_sorted_ids [OF assms, of gid] by (simp add: xs)
    then have "filter (\<lambda>v. iv_id v \<notin> set (map iv_id ts)) ds = ds"
      by (auto simp: filter_id_conv)
    moreover have "filter (\<lambda>v. iv_id v \<notin> set (map iv_id ts)) ts = []"
      by (auto simp: filter_empty_conv)
    ultimately show ?thesis
      unfolding ts_def [symmetric] ds_def [symmetric] by (subst xs) (simp only: filter_append append_Nil)
  qed
  finally show ?thesis by (simp add: next_units_def take_add)
qed

lemma finite_available_without:
  assumes "distinct_values s"
  shows "length (finite_available (s\<lparr>t_item_values :=
      without_ids (map iv_id (next_units s gid a)) (t_item_values s)\<rparr>) gid) = length (finite_available s gid) - a"
proof -
  let ?s = "s\<lparr>t_item_values := without_ids (map iv_id (next_units s gid a)) (t_item_values s)\<rparr>"
  have "length (next_units s gid (a + n)) = length (next_units s gid a) + length (next_units ?s gid n)" for n
    by (subst next_units_split [OF assms]) simp
  from this [of "length (finite_available s gid) + length (finite_available ?s gid)"]
  show ?thesis by (simp add: next_units_def min_def split: if_splits)
qed

theorem consume_in_two_steps:
  assumes "distinct_values s" "0 < a" "0 < b"
  shows "consume_stock_units g (a + b) s =
    tx_bind (consume_stock_units g a s) (\<lambda>(vs, s1).
    tx_bind (consume_stock_units g b s1) (\<lambda>(ws, s2). Inr (vs @ ws, s2)))"
proof -
  consider (api) "g_fulfillment_type g = FulfillApi"
    | (inf) v where "g_fulfillment_type g = FulfillStock" "infinite_row s (g_id g) = Some v"
    | (fin) "g_fulfillment_type g = FulfillStock" "infinite_row s (g_id g) = None"
    by (cases "g_fulfillment_type g"; cases "infinite_row s (g_id g)") auto
  then show ?thesis
  proof cases
    case api
    with assms show ?thesis by (simp add: consume_stock_units_def)
  next
    case inf
    with assms show ?thesis by (simp add: consume_infinite nat_add_distrib replicate_add)
  next
    case fin
    let ?n = "length (finite_available s (g_id g))"
    let ?s1 = "s\<lparr>t_item_values := without_ids (map iv_id (next_units s (g_id g) (nat a))) (t_item_values s)\<rparr>"
    have d1: "distinct_values ?s1"
      using assms(1) by (simp add: distinct_values_def without_ids_def distinct_map_filter)
    have i1: "infinite_row ?s1 (g_id g) = None"
      using fin(2) by (auto simp: infinite_row_def find_None_iff without_ids_def)
    have c1: "count_finite_available_units ?s1 (g_id g) = int (?n - nat a)"
      by (simp add: count_finite_available_units_def finite_available_without [OF assms(1)])
    have two: "without_ids ys (without_ids xs rows) = without_ids (xs @ ys) rows" for xs ys rows
      by (simp add: without_ids_def conj_ac)
    have ab: "nat (a + b) = nat a + nat b" using assms by (simp add: nat_add_distrib)
    show ?thesis
      using consume_stock_units_finite [OF assms(1) _ fin, of "a + b"]
        consume_stock_units_finite [OF assms(1,2) fin] consume_stock_units_finite [OF d1 assms(3) fin(1) i1]
        next_units_split [OF assms(1), of "g_id g" "nat a" "nat b"] assms(2,3)
      unfolding c1 ab by (auto simp: count_finite_available_units_def two)
  qed
qed

lemma consume_in_two_steps_witness:
  "consume_stock_units (sample_goods 3 ''key'' 1999 FulfillStock) (1 + 2) sample_shop =
    tx_bind (consume_stock_units (sample_goods 3 ''key'' 1999 FulfillStock) 1 sample_shop) (\<lambda>(vs, s1).
    tx_bind (consume_stock_units (sample_goods 3 ''key'' 1999 FulfillStock) 2 s1) (\<lambda>(ws, s2). Inr (vs @ ws, s2)))"
  by (rule consume_in_two_steps) (simp_all add: distinct_values_def sample_shop_def sample_value_def)

text \<open>C18: Reserving q finite units lowers the sellable count by q, hands out the lowest ids, and
  releasing the reservations of that order restores the stock table exactly.\<close>
theorem reserve_release_round_trip:
  assumes "reserve_stock_units g oid q s = Inr (vs, s')" "infinite_row s (g_id g) = None" "0 < q"
    and "distinct_values s" "\<forall>v \<in> set (t_item_values s). iv_reserved_order_id v \<noteq> Some oid"
    and "\<forall>v \<in> set (t_item_values s). iv_status v = AVAILABLE \<longrightarrow> iv_reserved_order_id v = None"
  shows "count_finite_available_units s' (g_id g) = count_finite_available_units s (g_id g) - q \<and>
    vs = map iv_value (next_units s (g_id g) (nat q)) \<and> release_stock_reservations oid s' = (q, s)"
proof -
  let ?us = "next_units s (g_id g) (nat q)"
  have enough: "nat q \<le> length (finite_available s (g_id g))" and vs: "vs = map iv_value ?us"
    and s': "s' = s\<lparr>t_item_values := mark_reserved (map iv_id ?us) oid (t_item_values s)\<rparr>"
    using assms(1-3) reserve_loop_exact [OF assms(4), of "nat q" "g_id g" oid]
    by (auto simp: reserve_stock_units_def split: if_splits)
  have us: "set ?us \<subseteq> set (finite_available s (g_id g))" by (rule next_units_subset)
  have len: "length ?us = nat q" using enough by (simp add: next_units_def)
  have d: "distinct (map iv_id ?us)"
    using distinct_sorted_ids [OF assms(4), of "g_id g"] by (simp add: next_units_def flip: take_map)
  have av: "iv_status v = AVAILABLE \<and> iv_reserved_order_id v = None"
    if "v \<in> set (t_item_values s)" "iv_id v \<in> set (map iv_id ?us)" for v
  proof -
    from that(2) obtain w where w: "w \<in> set ?us" "iv_id w = iv_id v" by auto
    then have "w \<in> set (finite_available s (g_id g))" using us by auto
    then have "v = w" "iv_status w = AVAILABLE"
      using same_id [OF assms(4) that(1)] w(2) by (auto simp: finite_available_mem)
    with that(1) assms(6) show ?thesis by auto
  qed
  have "set (filter (\<lambda>v. iv_id v \<in> set (map iv_id ?us)) (t_item_values s)) = set ?us"
  proof (rule set_eqI)
    fix v
    have "v \<in> set ?us" if v: "v \<in> set (t_item_values s)" "iv_id v \<in> iv_id ` set ?us"
    proof -
      from v(2) obtain w where w: "w \<in> set ?us" "iv_id v = iv_id w" by auto
      then have "w \<in> set (t_item_values s)" using us by (auto simp: finite_available_mem)
      from same_id [OF assms(4) v(1) this w(2)] w(1) show ?thesis by simp
    qed
    then show "v \<in> set (filter (\<lambda>v. iv_id v \<in> set (map iv_id ?us)) (t_item_values s)) \<longleftrightarrow> v \<in> set ?us"
      using us by (auto simp: finite_available_mem)
  qed
  moreover have "distinct (filter (\<lambda>v. iv_id v \<in> set (map iv_id ?us)) (t_item_values s))"
    using assms(4) by (simp add: distinct_values_def distinct_map)
  moreover have "distinct ?us" using d by (simp add: distinct_map)
  ultimately have hit: "length (filter (\<lambda>v. iv_id v \<in> set (map iv_id ?us)) (t_item_values s)) = nat q"
    using len by (metis distinct_card)
  have "finite_available (s\<lparr>t_item_values := without_ids ids (t_item_values s)\<rparr>) gid =
      filter (\<lambda>v. iv_id v \<notin> set ids) (finite_available s gid)" for ids gid
    by (simp add: finite_available_def without_ids_def conj_ac)
  then have cnt: "length (finite_available s' (g_id g)) = length (finite_available s (g_id g)) - nat q"
    unfolding s' finite_available_after_mark using finite_available_without [OF assms(4)] by metis
  have "release_stock_reservations oid s' = (int (nat q), s)"
    unfolding release_stock_reservations_def Let_def s'
    using release_count_mark [OF assms(5), of "map iv_id ?us"] hit
      release_after_mark [OF assms(5), of "map iv_id ?us"] av by simp
  with cnt enough vs assms(3) show ?thesis by (simp add: count_finite_available_units_def)
qed

lemma reserve_release_round_trip_witness:
  "\<exists>vs s'. reserve_stock_units (sample_goods 3 ''key'' 1999 FulfillStock) 30 2 sample_shop = Inr (vs, s') \<and>
    count_finite_available_units s' 3 = 1 \<and> release_stock_reservations 30 s' = (2, sample_shop)"
proof -
  let ?g = "sample_goods 3 ''key'' 1999 FulfillStock"
  have g: "g_id ?g = 3" "g_fulfillment_type ?g = FulfillStock" by (simp_all add: sample_goods_def)
  have d: "distinct_values sample_shop" "infinite_row sample_shop (g_id ?g) = None"
    "count_finite_available_units sample_shop 3 = 3" by code_simp+
  have "length (finite_available sample_shop 3) = 3" by code_simp
  then obtain vs s' where r: "reserve_stock_units ?g 30 2 sample_shop = Inr (vs, s')"
    using reserve_loop_exact [OF d(1), of 2 3 30] d(2) g by (simp add: reserve_stock_units_def)
  have "\<forall>v \<in> set (t_item_values sample_shop). iv_reserved_order_id v \<noteq> Some 30"
    "\<forall>v \<in> set (t_item_values sample_shop). iv_status v = AVAILABLE \<longrightarrow> iv_reserved_order_id v = None"
    by (simp_all add: sample_shop_def sample_value_def)
  from reserve_release_round_trip [OF r d(2) _ d(1) this] r d(3) g show ?thesis by simp
qed

end
