(* ===== verification/Referral.thy ===== *)
theory Referral
  imports Money Sample_Shop
begin

text \<open>
  \<open>bot/misc/services/referral.py\<close>: the reward of a referrer when an order completes, and its
  reversal when the order is refunded.  The \<open>Order\<close> object is an argument and comes back changed:
  the session writes it to the table at the next flush.
\<close>

definition referral_percent :: "env \<Rightarrow> int" where
  "referral_percent e = min (max (env_referral_percent e) 0) 99"

definition earning_of_order :: "shop \<Rightarrow> int \<Rightarrow> referral_earning option" where
  "earning_of_order s oid = List.find (\<lambda>r. re_order_id r = Some oid) (t_earnings s)"

text \<open>\<open>if not referrer_id\<close>: null and zero.\<close>

definition referrer_of :: "user \<Rightarrow> int option" where
  "referrer_of u = (if u_referral_id u = Some 0 then None else u_referral_id u)"

definition credit_referral_for_order :: "env \<Rightarrow> order \<Rightarrow> shop \<Rightarrow> ((int \<times> order) \<times> shop) result" where
  "credit_referral_for_order e x s =
     (if o_status x \<noteq> COMPLETED then Inr ((0, x), s)
      else case earning_of_order s (o_id x) of
        Some existing \<Rightarrow> Inr ((re_amount existing, x\<lparr>o_referral_amount_cents := re_amount existing\<rparr>), s)
      | None \<Rightarrow>
         (let percent = referral_percent e
          in if percent \<le> 0 then Inr ((0, x), s)
             else case get_user s (o_user_id x) of
               None \<Rightarrow> Inl NoResultFound
             | Some buyer \<Rightarrow>
                (case referrer_of buyer of
                   None \<Rightarrow> Inr ((0, x), s)
                 | Some referrer_id \<Rightarrow>
                    if referrer_id = o_user_id x then Inr ((0, x), s)
                    else (let amount = (o_total_cents x * percent) div 100
                          in if amount \<le> 0 then Inr ((0, x), s)
                             else case get_user s referrer_id of
                               None \<Rightarrow> Inr ((0, x), s)
                             | Some referrer \<Rightarrow>
                                (let s1 = put_user (referrer\<lparr>u_balance := u_balance referrer + amount\<rparr>) s;
                                     s2 = s1\<lparr>t_earnings := t_earnings s1 @
                                            [\<lparr>re_id = next_id s1, re_referrer_id = referrer_id,
                                               re_referral_id = o_user_id x, re_amount = amount,
                                               re_original_amount = o_total_cents x, re_order_id = Some (o_id x),
                                               re_created_at = env_now e\<rparr>],
                                          t_seq := next_id s1\<rparr>;
                                     s3 = log_audit ''referral_bonus'' ''INFO'' (Some referrer_id) (Some ''Order'')
                                       (Some (show_int (o_id x))) s2
                                 in Inr ((amount, x\<lparr>o_referral_amount_cents := amount\<rparr>),
                                      safe_create_task (InvalidateUserCache referrer_id) s3))))))"

definition reverse_referral_for_order :: "order \<Rightarrow> shop \<Rightarrow> (bool \<times> order) \<times> shop" where
  "reverse_referral_for_order x s =
     (case earning_of_order s (o_id x) of
        None \<Rightarrow> ((False, x), s)
      | Some earning \<Rightarrow>
         (let s1 = (case get_user s (re_referrer_id earning) of
                      None \<Rightarrow> s
                    | Some referrer \<Rightarrow>
                        put_user (referrer\<lparr>u_balance := u_balance referrer - re_amount earning\<rparr>) s);
              s2 = s1\<lparr>t_earnings := filter (\<lambda>r. re_id r \<noteq> re_id earning) (t_earnings s1)\<rparr>
          in ((True, x\<lparr>o_referral_amount_cents := 0\<rparr>),
              safe_create_task (InvalidateUserCache (re_referrer_id earning)) s2)))"

subsection \<open>Lemmas\<close>

text \<open>
  What a credit leaves: either the state is unchanged, or one referrer other than the buyer got
  \<open>amount\<close> and one earning row for this order was appended.
\<close>

lemma credit_referral_cases:
  assumes "credit_referral_for_order e x s = Inr ((a, y), s')"
  obtains (none) "s' = s" "y = x\<lparr>o_referral_amount_cents := o_referral_amount_cents y\<rparr>"
      "a = 0 \<or> (\<exists>r. earning_of_order s (o_id x) = Some r)"
  | (paid) r row where "get_user s (re_referrer_id row) = Some r" "re_referrer_id row \<noteq> o_user_id x" "0 < a"
      "a = o_total_cents x * referral_percent e div 100" "re_amount row = a" "re_order_id row = Some (o_id x)"
      "re_referral_id row = o_user_id x" "re_id row = t_seq s + 1" "earning_of_order s (o_id x) = None"
      "y = x\<lparr>o_referral_amount_cents := a\<rparr>"
      "s' = s\<lparr>t_users := put_by u_id (r\<lparr>u_balance := u_balance r + a\<rparr>) (t_users s),
         t_earnings := t_earnings s @ [row], t_audit := t_audit s' , t_seq := t_seq s + 1, t_tasks := t_tasks s'\<rparr>"
proof (cases "s' = s \<and> y = x\<lparr>o_referral_amount_cents := o_referral_amount_cents y\<rparr> \<and>
    (a = 0 \<or> (\<exists>r. earning_of_order s (o_id x) = Some r))")
  case True
  then show ?thesis using none by blast
next
  case False
  with assms obtain buyer referrer_id r where b: "o_status x = COMPLETED"
      "earning_of_order s (o_id x) = None" "get_user s (o_user_id x) = Some buyer"
      "referrer_of buyer = Some referrer_id" "referrer_id \<noteq> o_user_id x"
      "get_user s referrer_id = Some r" "0 < o_total_cents x * referral_percent e div 100"
      "0 < referral_percent e"
    by (auto simp: credit_referral_for_order_def Let_def not_le split: if_splits option.splits)
  let ?row = "\<lparr>re_id = t_seq s + 1, re_referrer_id = referrer_id, re_referral_id = o_user_id x,
      re_amount = o_total_cents x * referral_percent e div 100, re_original_amount = o_total_cents x,
      re_order_id = Some (o_id x),
                                               re_created_at = env_now e\<rparr>"
  have "a = o_total_cents x * referral_percent e div 100 \<and> y = x\<lparr>o_referral_amount_cents := a\<rparr> \<and>
      s' = s\<lparr>t_users := put_by u_id (r\<lparr>u_balance := u_balance r + a\<rparr>) (t_users s),
         t_earnings := t_earnings s @ [?row], t_audit := t_audit s' , t_seq := t_seq s + 1, t_tasks := t_tasks s'\<rparr>"
    using assms b by (auto simp: credit_referral_for_order_def Let_def put_user_def next_id_def log_audit_def
        safe_create_task_def)
  then have "a = o_total_cents x * referral_percent e div 100" "y = x\<lparr>o_referral_amount_cents := a\<rparr>"
    "s' = s\<lparr>t_users := put_by u_id (r\<lparr>u_balance := u_balance r + a\<rparr>) (t_users s),
         t_earnings := t_earnings s @ [?row], t_audit := t_audit s' , t_seq := t_seq s + 1, t_tasks := t_tasks s'\<rparr>"
    by blast+
  with b show ?thesis by (intro paid [of ?row r]) simp_all
qed

lemma earning_of_order_append:
  "earning_of_order (s\<lparr>t_earnings := rows @ [row]\<rparr>) oid =
     (case List.find (\<lambda>r. re_order_id r = Some oid) rows of Some r \<Rightarrow> Some r
      | None \<Rightarrow> if re_order_id row = Some oid then Some row else None)"
  unfolding earning_of_order_def by (induction rows) auto

lemma find_None_filter: "List.find P xs = None \<Longrightarrow> filter (\<lambda>x. \<not> P x) xs = xs"
  by (induction xs) (auto split: if_splits)

lemma reverse_none: "earning_of_order s (o_id x) = None \<Longrightarrow> reverse_referral_for_order x s = ((False, x), s)"
  by (simp add: reverse_referral_for_order_def)

text \<open>
  The bonus an order of \<open>total_cents\<close> kopecks by \<open>buyer\<close> earns, and for whom; the credit of a completed
  order that has no earning yet pays exactly this.
\<close>

definition order_bonus :: "env \<Rightarrow> shop \<Rightarrow> int \<Rightarrow> int \<Rightarrow> (int \<times> int) option" where
  "order_bonus e s buyer total_cents =
     (let amount = total_cents * referral_percent e div 100
      in case get_user s buyer of None \<Rightarrow> None
         | Some b \<Rightarrow> (case referrer_of b of None \<Rightarrow> None
             | Some r \<Rightarrow> if r = buyer \<or> referral_percent e \<le> 0 \<or> amount \<le> 0 \<or> get_user s r = None
                 then None else Some (r, amount)))"

definition bonus_for :: "(int \<times> int) option \<Rightarrow> int \<Rightarrow> int" where
  "bonus_for b k = (case b of None \<Rightarrow> 0 | Some (r, a) \<Rightarrow> if k = r then a else 0)"

lemma credit_referral_exists:
  assumes "get_user s (o_user_id x) \<noteq> None"
  shows "\<exists>r. credit_referral_for_order e x s = Inr r"
  using assms by (auto simp: credit_referral_for_order_def Let_def split: option.split)

definition pay_bonus :: "env \<Rightarrow> order \<Rightarrow> int \<Rightarrow> int \<Rightarrow> user \<Rightarrow> shop \<Rightarrow> shop" where
  "pay_bonus e x k amount r s =
     (let s1 = put_user (r\<lparr>u_balance := u_balance r + amount\<rparr>) s;
          s2 = s1\<lparr>t_earnings := t_earnings s1 @
                 [\<lparr>re_id = next_id s1, re_referrer_id = k, re_referral_id = o_user_id x, re_amount = amount,
                    re_original_amount = o_total_cents x, re_order_id = Some (o_id x),
                                               re_created_at = env_now e\<rparr>], t_seq := next_id s1\<rparr>
      in safe_create_task (InvalidateUserCache k)
           (log_audit ''referral_bonus'' ''INFO'' (Some k) (Some ''Order'') (Some (show_int (o_id x))) s2))"

lemma pay_bonus_users: "t_users (pay_bonus e x k a r s) = put_by u_id (r\<lparr>u_balance := u_balance r + a\<rparr>) (t_users s)"
  by (simp add: pay_bonus_def Let_def put_user_def log_audit_def safe_create_task_def)

lemma credit_as_bonus:
  assumes "o_status x = COMPLETED" "earning_of_order s (o_id x) = None" "get_user s (o_user_id x) = Some b"
  shows "credit_referral_for_order e x s =
    (case order_bonus e s (o_user_id x) (o_total_cents x) of
       None \<Rightarrow> Inr ((0, x), s)
     | Some (k, a) \<Rightarrow> Inr ((a, x\<lparr>o_referral_amount_cents := a\<rparr>), pay_bonus e x k a (the (get_user s k)) s))"
  using assms
  by (simp add: credit_referral_for_order_def order_bonus_def Let_def pay_bonus_def split: option.split)

lemma order_bonus_Some:
  "order_bonus e s buyer t = Some (k, a) \<Longrightarrow>
     k \<noteq> buyer \<and> a = t * referral_percent e div 100 \<and> 0 < a \<and> get_user s k \<noteq> None"
  by (auto simp: order_bonus_def Let_def split: option.splits if_splits)

lemma credit_referral_bonus:
  assumes "credit_referral_for_order e x s = Inr ((a, y), s')" "o_status x = COMPLETED"
    and "earning_of_order s (o_id x) = None"
  shows "balance_of s' k = balance_of s k + bonus_for (order_bonus e s (o_user_id x) (o_total_cents x)) k"
    and "get_user s' k = None \<longleftrightarrow> get_user s k = None"
proof -
  have "balance_of s' k = balance_of s k + bonus_for (order_bonus e s (o_user_id x) (o_total_cents x)) k \<and>
      (get_user s' k = None \<longleftrightarrow> get_user s k = None)"
  proof (cases "get_user s (o_user_id x)")
    case None
    with assms have "s' = s" by (auto simp: credit_referral_for_order_def Let_def split: if_splits)
    with None show ?thesis by (simp add: order_bonus_def Let_def bonus_for_def)
  next
    case (Some b)
    show ?thesis
    proof (cases "order_bonus e s (o_user_id x) (o_total_cents x)")
      case None
      with credit_as_bonus [OF assms(2,3) Some, of e] assms(1) show ?thesis by (simp add: bonus_for_def)
    next
      case (Some p)
      obtain m am where p: "p = (m, am)" by fastforce
      from order_bonus_Some [OF Some [unfolded p]] obtain r where r: "get_user s m = Some r" by auto
      have "s' = pay_bonus e x m am r s"
        using credit_as_bonus [OF assms(2,3) \<open>get_user s (o_user_id x) = Some b\<close>, of e] assms(1) Some p r by simp
      moreover have "u_id r = m" using r by (rule users.lookup_key)
      ultimately show ?thesis using Some p r
        by (auto simp: balance_of_def get_user_def pay_bonus_users find_put bonus_for_def split: option.split)
    qed
  qed
  then show "balance_of s' k = balance_of s k + bonus_for (order_bonus e s (o_user_id x) (o_total_cents x)) k"
    and "get_user s' k = None \<longleftrightarrow> get_user s k = None" by blast+
qed

text \<open>An earning row belongs to an order whose id was drawn before.\<close>

definition earnings_ok :: "shop \<Rightarrow> bool" where
  "earnings_ok s \<longleftrightarrow> (\<forall>r \<in> set (t_earnings s). case re_order_id r of None \<Rightarrow> True | Some k \<Rightarrow> k \<le> t_seq s) \<and>
     (\<forall>r \<in> set (t_earnings s). re_id r \<le> t_seq s) \<and> distinct (map re_id (t_earnings s))"

lemma no_earning_of_fresh: "earnings_ok s \<Longrightarrow> t_seq s < k \<Longrightarrow> earning_of_order s k = None"
  by (fastforce simp: earnings_ok_def earning_of_order_def find_None_iff)

lemma earnings_ok_seq: "earnings_ok s \<Longrightarrow> t_earnings s' = t_earnings s \<Longrightarrow> t_seq s \<le> t_seq s' \<Longrightarrow> earnings_ok s'"
  by (fastforce simp: earnings_ok_def split: option.splits)

lemma credit_referral_keys:
  assumes "credit_referral_for_order e x s = Inr ((a, y), s')"
  shows "map u_id (t_users s') = map u_id (t_users s)"
    and "earnings_ok s \<Longrightarrow> o_id x \<le> t_seq s \<Longrightarrow> earnings_ok s'"
proof -
  have "map u_id (t_users s') = map u_id (t_users s) \<and>
      (earnings_ok s \<longrightarrow> o_id x \<le> t_seq s \<longrightarrow> earnings_ok s')"
    using assms
  proof (cases rule: credit_referral_cases)
    case none
    then show ?thesis by simp
  next
    case (paid r row)
    have "t_seq s' = t_seq s + 1" "t_earnings s' = t_earnings s @ [row]"
      "t_users s' = put_by u_id (r\<lparr>u_balance := u_balance r + a\<rparr>) (t_users s)"
      by (subst paid(11), simp)+
    then show ?thesis using paid(6,8) by (fastforce simp: earnings_ok_def keys_put split: option.splits)
  qed
  then show "map u_id (t_users s') = map u_id (t_users s)"
    and "earnings_ok s \<Longrightarrow> o_id x \<le> t_seq s \<Longrightarrow> earnings_ok s'" by blast+
qed

subsection \<open>Properties\<close>

lemma filter_fresh_id: "\<forall>r \<in> set xs. f r \<noteq> k \<Longrightarrow> filter (\<lambda>r. f r \<noteq> k) xs = xs"
  by (simp add: filter_id_conv)

lemma find_append_None:
  "List.find P xs = None \<Longrightarrow> List.find P (xs @ [y]) = (if P y then Some y else None)"
  by (induction xs) (auto split: if_splits)

lemma credit_keeps_order:
  assumes "credit_referral_for_order e x s = Inr ((a, y), s')"
  shows "y = x\<lparr>o_referral_amount_cents := o_referral_amount_cents y\<rparr>"
  using assms by (cases rule: credit_referral_cases) auto

text \<open>C20: Crediting the referral bonus of an order a second time pays nothing more: it returns the same
  amount and leaves the shop as it is, whatever the configured percentage has become.\<close>
theorem referral_paid_once:
  assumes "credit_referral_for_order e x s = Inr ((a, y), s')" "0 < a"
  shows "credit_referral_for_order e' y s' = Inr ((a, y), s') \<and> o_referral_amount_cents y = a"
proof -
  have st: "o_status x = COMPLETED" using assms by (auto simp: credit_referral_for_order_def split: if_splits)
  obtain k where "y = x\<lparr>o_referral_amount_cents := k\<rparr>" using credit_keeps_order [OF assms(1)] by metis
  with st have y: "o_status y = COMPLETED" "o_id y = o_id x" by simp_all
  show ?thesis
  proof (cases "earning_of_order s (o_id x)")
    case (Some r)
    with assms st have "y = x\<lparr>o_referral_amount_cents := a\<rparr>" "s' = s" "a = re_amount r"
      by (auto simp: credit_referral_for_order_def)
    with Some st show ?thesis by (simp add: credit_referral_for_order_def)
  next
    case None
    from assms(1) show ?thesis
    proof (cases rule: credit_referral_cases)
      case none
      with None assms(2) show ?thesis by simp
    next
      case (paid r row)
      have "t_earnings s' = t_earnings s @ [row]" by (subst paid(11)) simp
      with None paid(6) y(2) have "earning_of_order s' (o_id y) = Some row"
        by (simp add: earning_of_order_def find_append_None)
      with y(1) paid(5,10) show ?thesis by (simp add: credit_referral_for_order_def)
    qed
  qed
qed

text \<open>C21: Reversing the bonus of an order after it was credited restores every balance and the referral
  earnings table.\<close>
theorem referral_reversal_undoes_credit:
  assumes "credit_referral_for_order e x s = Inr ((a, y), s')" "earning_of_order s (o_id x) = None"
    and "earnings_ok s" "reverse_referral_for_order y s' = ((b, z), s'')"
  shows "balance_of s'' k = balance_of s k \<and> t_earnings s'' = t_earnings s"
  using assms(1)
proof (cases rule: credit_referral_cases)
  case none
  obtain k where "y = x\<lparr>o_referral_amount_cents := k\<rparr>" using none(2) by metis
  then have "o_id y = o_id x" by simp
  with none assms(2,4) reverse_none [of s y] show ?thesis by simp
next
  case (paid r row)
  let ?r = "r\<lparr>u_balance := u_balance r + a\<rparr>"
  have s': "t_earnings s' = t_earnings s @ [row]" "t_users s' = put_by u_id ?r (t_users s)"
    by (subst paid(11), simp)+
  have rid: "u_id r = re_referrer_id row" using paid(1) by (rule users.lookup_key)
  have oid: "o_id y = o_id x" by (simp add: paid(10))
  have e: "earning_of_order s' (o_id y) = Some row"
    using assms(2) paid(6) by (simp add: earning_of_order_def s' oid find_append_None)
  have gu: "get_user s' (re_referrer_id row) = Some ?r"
    using paid(1) rid by (simp add: get_user_def s' find_put)
  have "\<forall>w \<in> set (t_earnings s). re_id w \<noteq> re_id row"
    using assms(3) paid(8) by (force simp: earnings_ok_def)
  then have "t_earnings s'' = t_earnings s"
    using assms(4) by (auto simp: reverse_referral_for_order_def e gu put_user_def safe_create_task_def s'
        Let_def filter_fresh_id)
  moreover have "get_user s'' k = get_user s k"
  proof -
    have "t_users s'' = put_by u_id (?r\<lparr>u_balance := u_balance ?r - a\<rparr>) (put_by u_id ?r (t_users s))"
      using assms(4) by (auto simp: reverse_referral_for_order_def e gu put_user_def safe_create_task_def s'
          Let_def paid(5))
    also have "\<dots> = put_by u_id r (t_users s)" by (subst put_put) simp_all
    finally show ?thesis using paid(1) rid by (auto simp: get_user_def find_put)
  qed
  ultimately show ?thesis by (simp add: balance_of_def)
qed

lemma sample_credit:
  obtains y s' where "credit_referral_for_order sample_env
      (sample_order 21 1 3 1999 COMPLETED) sample_shop = Inr ((199, y), s')"
    "earning_of_order sample_shop 21 = None" "earnings_ok sample_shop"
proof -
  have "map_sum id fst (credit_referral_for_order sample_env (sample_order 21 1 3 1999 COMPLETED) sample_shop)
      = Inr (199, (sample_order 21 1 3 1999 COMPLETED)\<lparr>o_referral_amount_cents := 199\<rparr>)" by code_simp
  then obtain s' where "credit_referral_for_order sample_env (sample_order 21 1 3 1999 COMPLETED) sample_shop
      = Inr ((199, (sample_order 21 1 3 1999 COMPLETED)\<lparr>o_referral_amount_cents := 199\<rparr>), s')"
    by (cases "credit_referral_for_order sample_env (sample_order 21 1 3 1999 COMPLETED) sample_shop") auto
  moreover have "earning_of_order sample_shop 21 = None" "earnings_ok sample_shop" by code_simp+
  ultimately show ?thesis by (rule that)
qed

lemma referral_paid_once_witness:
  "\<exists>y s'. credit_referral_for_order sample_env (sample_order 21 1 3 1999 COMPLETED) sample_shop = Inr ((199, y), s') \<and>
    credit_referral_for_order sample_env y s' = Inr ((199, y), s') \<and> o_referral_amount_cents y = 199"
proof -
  from sample_credit obtain y s' where
    r: "credit_referral_for_order sample_env (sample_order 21 1 3 1999 COMPLETED) sample_shop = Inr ((199, y), s')"
    by metis
  with referral_paid_once [OF r] show ?thesis by auto
qed

lemma referral_reversal_undoes_credit_witness:
  "\<exists>y s' r. credit_referral_for_order sample_env (sample_order 21 1 3 1999 COMPLETED) sample_shop = Inr ((199, y), s') \<and>
    reverse_referral_for_order y s' = r \<and> balance_of (snd r) 2 = balance_of sample_shop 2"
proof -
  from sample_credit obtain y s' where
    r: "credit_referral_for_order sample_env (sample_order 21 1 3 1999 COMPLETED) sample_shop = Inr ((199, y), s')"
    and ok: "earning_of_order sample_shop 21 = None" "earnings_ok sample_shop" by metis
  obtain b z s'' where v: "reverse_referral_for_order y s' = ((b, z), s'')" by (metis surj_pair)
  have "o_id (sample_order 21 1 3 1999 COMPLETED) = 21" by (simp add: sample_order_def)
  with ok(1) have "earning_of_order sample_shop (o_id (sample_order 21 1 3 1999 COMPLETED)) = None" by simp
  from referral_reversal_undoes_credit [OF r this ok(2) v] r v show ?thesis by auto
qed

end
