(* ===== verification/Orders.thy ===== *)
theory Orders
  imports Pricing Stock Referral
begin

text \<open>
  \<open>bot/database/methods/orders.py\<close>: the order state machine, the creation of an order with its
  frozen amounts, user cancellation, operator refund and the expiry sweep.  An \<open>Order\<close> object is
  passed along and written back by \<open>append_history\<close>, which flushes.
\<close>

subsection \<open>State machine\<close>

fun allowed_next_statuses :: "order_status \<Rightarrow> order_status list" where
  "allowed_next_statuses CREATED = [PROCESSING, EXPIRED]"
| "allowed_next_statuses PROCESSING = [COMPLETED, FAILED, EXPIRED]"
| "allowed_next_statuses COMPLETED = [REFUNDED]"
| "allowed_next_statuses FAILED = [REFUNDED]"
| "allowed_next_statuses EXPIRED = []"
| "allowed_next_statuses REFUNDED = []"
| "allowed_next_statuses (OtherStatus _) = []"

definition can_transition :: "order_status \<Rightarrow> order_status \<Rightarrow> bool" where
  "can_transition from_status to_status \<longleftrightarrow> to_status \<in> set (allowed_next_statuses from_status)"

definition compute_profit_cents :: "int \<Rightarrow> int \<Rightarrow> int \<Rightarrow> int \<Rightarrow> int" where
  "compute_profit_cents total_cents cost_cents fee_cents referral_amount_cents =
     total_cents - cost_cents - fee_cents - referral_amount_cents"

definition expire_created_if_due :: "order_status \<Rightarrow> int option \<Rightarrow> int \<Rightarrow> order_status option" where
  "expire_created_if_due status expires_at now =
     (case expires_at of None \<Rightarrow> None
      | Some t \<Rightarrow> if status \<noteq> CREATED then None else if t \<le> now then Some EXPIRED else None)"

fun status_text :: "order_status \<Rightarrow> string" where
  "status_text CREATED = ''CREATED''"
| "status_text PROCESSING = ''PROCESSING''"
| "status_text COMPLETED = ''COMPLETED''"
| "status_text FAILED = ''FAILED''"
| "status_text EXPIRED = ''EXPIRED''"
| "status_text REFUNDED = ''REFUNDED''"
| "status_text (OtherStatus t) = t"

subsection \<open>Transitions\<close>

definition append_history :: "order \<Rightarrow> order_status option \<Rightarrow> order_status \<Rightarrow> int option \<Rightarrow> shop \<Rightarrow> shop" where
  "append_history x from_status to_status actor_id s =
     (let s1 = put_order x s
      in s1\<lparr>t_history := t_history s1 @ [\<lparr>h_id = next_id s1, h_order_id = o_id x,
              h_from_status = from_status, h_to_status = to_status, h_actor_id = actor_id\<rparr>],
            t_seq := next_id s1\<rparr>)"

definition transition_order ::
    "env \<Rightarrow> order \<Rightarrow> order_status \<Rightarrow> int option \<Rightarrow> shop \<Rightarrow> (order \<times> shop) result" where
  "transition_order e x to_status actor_id s =
     (if to_status \<notin> set known_statuses
      then Inl (OrderTransitionError (''unknown_status:'' @ status_text to_status))
      else if \<not> can_transition (o_status x) to_status
      then Inl (OrderTransitionError (''illegal:'' @ status_text (o_status x) @ ''->'' @ status_text to_status))
      else
        (let from_status = o_status x;
             x1 = x\<lparr>o_status := to_status\<rparr>;
             x2 = (if to_status = PROCESSING \<and> o_processing_started_at x1 = None
                   then x1\<lparr>o_processing_started_at := Some (env_now e)\<rparr> else x1);
             s1 = (if to_status = EXPIRED \<or> to_status = FAILED
                   then snd (release_stock_reservations (o_id x) s) else s)
         in tx_bind
              (if to_status = COMPLETED
               then tx_bind (credit_referral_for_order e x2 s1) (\<lambda>((_, x3), s2).
                      Inr (x3\<lparr>o_profit_cents := Some (compute_profit_cents (o_total_cents x3) (o_cost_cents x3)
                                 (o_fee_cents x3) (o_referral_amount_cents x3)),
                              o_completed_at := Some (env_now e)\<rparr>, s2))
               else Inr (x2, s1))
              (\<lambda>(x4, s3).
                 let ((_, x5), s4) = (if to_status = REFUNDED then reverse_referral_for_order x4 s3
                                      else ((False, x4), s3))
                 in Inr (x5, append_history x5 (Some from_status) to_status actor_id s4))))"

definition create_order_with_snapshot ::
    "env \<Rightarrow> int \<Rightarrow> int \<Rightarrow> int \<Rightarrow> decimal \<Rightarrow> int \<Rightarrow> int \<Rightarrow> int \<Rightarrow> int \<Rightarrow> delivery_type \<Rightarrow> int option
     \<Rightarrow> int option \<Rightarrow> string option \<Rightarrow> int option \<Rightarrow> shop \<Rightarrow> (order \<times> shop) result" where
  "create_order_with_snapshot e user_id goods_id quantity unit_price_rub discount_cents cost_cents fee_cents
       referral_amount_cents delivery_type expires_at provider_id provider_external_order_id
       gift_telegram_id s =
     (if quantity \<le> 0 then Inl (OrderError ''invalid_quantity'')
      else tx_bind (rub_to_cents unit_price_rub) (\<lambda>unit_cents.
        let line_price_cents = unit_cents * quantity;
            total_cents = max 0 (line_price_cents - discount_cents);
            x = \<lparr>o_id = next_id s, o_user_id = user_id, o_goods_id = goods_id, o_quantity = quantity,
                 o_price_cents = unit_cents, o_discount_cents = discount_cents, o_total_cents = total_cents,
                 o_cost_cents = cost_cents, o_fee_cents = fee_cents,
                 o_referral_amount_cents = referral_amount_cents, o_profit_cents = None,
                 o_status = CREATED, o_delivery_type = delivery_type, o_provider_id = provider_id,
                 o_provider_external_order_id = provider_external_order_id,
                 o_fulfillment_payload = None, o_gift_telegram_id = gift_telegram_id,
                 o_created_at = env_now e, o_completed_at = None, o_expires_at = expires_at,
                 o_fulfillment_attempt_count = 0, o_processing_started_at = None,
                 o_delivery_notified_at = None\<rparr>;
            s1 = s\<lparr>t_orders := t_orders s @ [x], t_seq := next_id s\<rparr>
        in Inr (x, append_history x None CREATED (Some user_id) s1)))"

definition paid_or_settled :: "order_status list" where
  "paid_or_settled = [PROCESSING, COMPLETED, FAILED, REFUNDED]"

definition user_cancel_order :: "env \<Rightarrow> int \<Rightarrow> int \<Rightarrow> shop \<Rightarrow> (order \<times> shop) result" where
  "user_cancel_order e order_id user_id s =
     (case get_order s order_id of
        None \<Rightarrow> Inl (OrderCancelForbidden ''not_found'')
      | Some x \<Rightarrow>
          if o_user_id x \<noteq> user_id then Inl (OrderCancelForbidden ''not_found'')
          else if o_status x \<in> set paid_or_settled then Inl (OrderCancelForbidden ''paid_order'')
          else if o_status x \<noteq> CREATED then Inl (OrderCancelForbidden ''not_cancellable'')
          else transition_order e x EXPIRED (Some user_id) s)"

definition manual_refund_order :: "env \<Rightarrow> int \<Rightarrow> int \<Rightarrow> shop \<Rightarrow> ((order \<times> bool) \<times> shop) result" where
  "manual_refund_order e order_id operator_id s =
     (case get_order s order_id of
        None \<Rightarrow> Inl (OrderError ''not_found'')
      | Some x \<Rightarrow>
          if o_status x = REFUNDED then Inr ((x, False), s)
          else if o_status x \<noteq> COMPLETED \<and> o_status x \<noteq> FAILED
          then Inl (OrderTransitionError (''refund_not_allowed:'' @ status_text (o_status x)))
          else case get_user s (o_user_id x) of
            None \<Rightarrow> Inl NoResultFound
          | Some u \<Rightarrow>
              (let s1 = put_user (u\<lparr>u_balance := u_balance u + o_total_cents x\<rparr>) s;
                   s2 = add_operation (o_user_id x) (o_total_cents x) (env_now e) s1;
                   s3 = log_audit ''order_refund'' ''INFO'' (Some operator_id) (Some ''Order'')
                          (Some (show_int (o_id x))) s2
               in tx_bind (transition_order e x REFUNDED (Some operator_id) s3) (\<lambda>(y, s4).
                    Inr ((y, True), safe_create_task (InvalidateUserCache (o_user_id y)) s4))))"

definition due_created_orders :: "int \<Rightarrow> nat \<Rightarrow> shop \<Rightarrow> order list" where
  "due_created_orders now limit s =
     take limit (order_by_key o_id (filter (\<lambda>x. o_status x = CREATED \<and>
        (case o_expires_at x of None \<Rightarrow> False | Some t \<Rightarrow> t \<le> now)) (t_orders s)))"

definition expire_due_created_orders :: "env \<Rightarrow> nat \<Rightarrow> shop \<Rightarrow> (int \<times> shop) result" where
  "expire_due_created_orders e limit s =
     (let rows = due_created_orders (env_now e) limit s
      in tx_bind (fold_tx (\<lambda>x s. tx_bind (transition_order e x EXPIRED None s) (\<lambda>(_, s'). Inr s')) rows s)
           (\<lambda>s'. Inr (int (length rows), s')))"

definition list_processing_api_order_ids :: "nat \<Rightarrow> shop \<Rightarrow> int list" where
  "list_processing_api_order_ids limit s =
     map o_id (take limit (order_by_key o_id
       (filter (\<lambda>x. o_status x = PROCESSING \<and> o_delivery_type x = DeliverApi) (t_orders s))))"

subsection \<open>The transition graph\<close>

fun status_rank :: "order_status \<Rightarrow> nat" where
  "status_rank CREATED = 0"
| "status_rank PROCESSING = 1"
| "status_rank COMPLETED = 2"
| "status_rank FAILED = 2"
| "status_rank EXPIRED = 3"
| "status_rank REFUNDED = 3"
| "status_rank (OtherStatus _) = 3"

lemma can_transition_simps [simp]:
  "can_transition CREATED t \<longleftrightarrow> t = PROCESSING \<or> t = EXPIRED"
  "can_transition PROCESSING t \<longleftrightarrow> t = COMPLETED \<or> t = FAILED \<or> t = EXPIRED"
  "can_transition COMPLETED t \<longleftrightarrow> t = REFUNDED"
  "can_transition FAILED t \<longleftrightarrow> t = REFUNDED"
  "\<not> can_transition EXPIRED t"
  "\<not> can_transition REFUNDED t"
  "\<not> can_transition (OtherStatus x) t"
  by (auto simp: can_transition_def)

lemma can_transition_rank: "can_transition a b \<Longrightarrow> status_rank a < status_rank b"
  by (cases a) auto

lemma can_transition_known: "can_transition a b \<Longrightarrow> b \<in> set known_statuses"
  by (cases a) (auto simp: known_statuses_def)

text \<open>A status history is a path of the graph that starts at \<open>CREATED\<close>.\<close>

fun history_path :: "order_status option \<Rightarrow> order_status_history list \<Rightarrow> order_status option \<Rightarrow> bool" where
  "history_path from [] final \<longleftrightarrow> from = final"
| "history_path from (h # hs) final \<longleftrightarrow>
     h_from_status h = from \<and>
     (case from of None \<Rightarrow> h_to_status h = CREATED | Some f \<Rightarrow> can_transition f (h_to_status h)) \<and>
     history_path (Some (h_to_status h)) hs final"

lemma history_path_snoc:
  "history_path from (hs @ [h]) final \<longleftrightarrow>
     (\<exists>mid. history_path from hs mid \<and> h_from_status h = mid \<and>
       (case mid of None \<Rightarrow> h_to_status h = CREATED | Some f \<Rightarrow> can_transition f (h_to_status h)) \<and>
       final = Some (h_to_status h))"
  by (induction hs arbitrary: "from") auto

lemma history_path_rank:
  "history_path (Some a) hs (Some b) \<Longrightarrow> length hs + status_rank a \<le> status_rank b"
proof (induction hs arbitrary: a)
  case Nil
  then show ?case by simp
next
  case (Cons h hs)
  then have "can_transition a (h_to_status h)" "history_path (Some (h_to_status h)) hs (Some b)" by auto
  with Cons.IH can_transition_rank show ?case by fastforce
qed

lemma status_rank_le: "status_rank a \<le> 3"
  by (cases a) auto

lemma history_path_length: "history_path None hs (Some b) \<Longrightarrow> length hs \<le> 4"
  using status_rank_le [of b]
  by (cases hs) (auto dest: history_path_rank)

definition history_of :: "shop \<Rightarrow> int \<Rightarrow> order_status_history list" where
  "history_of s oid = filter (\<lambda>h. h_order_id h = oid) (t_history s)"

text \<open>
  The invariant of the order tables: ids are distinct and were drawn from the counter, and the
  recorded history of every order is a legal path that ends in its current status.
\<close>

definition orders_ok :: "shop \<Rightarrow> bool" where
  "orders_ok s \<longleftrightarrow>
     distinct (map o_id (t_orders s)) \<and>
     (\<forall>x \<in> set (t_orders s). o_id x \<le> t_seq s) \<and>
     (\<forall>h \<in> set (t_history s). h_order_id h \<le> t_seq s) \<and>
     (\<forall>x \<in> set (t_orders s). history_path None (history_of s (o_id x)) (Some (o_status x)))"

text \<open>The object in hand is the stored row, with the same status.\<close>

definition in_sync :: "shop \<Rightarrow> order \<Rightarrow> bool" where
  "in_sync s x \<longleftrightarrow> (\<exists>r. get_order s (o_id x) = Some r \<and> o_status r = o_status x)"

lemma in_sync_get: "get_order s k = Some x \<Longrightarrow> in_sync s x"
  using orders.lookup_key by (auto simp: in_sync_def)

lemma append_history_fields [simp]:
  "t_orders (append_history x f t a s) = put_by o_id x (t_orders s)"
  "t_history (append_history x f t a s) = t_history s @ [\<lparr>h_id = t_seq s + 1, h_order_id = o_id x,
      h_from_status = f, h_to_status = t, h_actor_id = a\<rparr>]"
  "t_seq (append_history x f t a s) = t_seq s + 1"
  "t_users (append_history x f t a s) = t_users s"
  "t_item_values (append_history x f t a s) = t_item_values s"
  "t_bought (append_history x f t a s) = t_bought s"
  "t_operations (append_history x f t a s) = t_operations s"
  "t_payments (append_history x f t a s) = t_payments s"
  "t_earnings (append_history x f t a s) = t_earnings s"
  "t_promos (append_history x f t a s) = t_promos s"
  "t_promo_usages (append_history x f t a s) = t_promo_usages s"
  "t_goods (append_history x f t a s) = t_goods s"
  "t_cart (append_history x f t a s) = t_cart s"
  "t_tickets (append_history x f t a s) = t_tickets s"
  "t_reviews (append_history x f t a s) = t_reviews s"
  "t_links (append_history x f t a s) = t_links s"
  "t_providers (append_history x f t a s) = t_providers s"
  by (simp_all add: append_history_def put_order_def next_id_def Let_def)

subsection \<open>What a transition leaves\<close>

definition start_processing :: "env \<Rightarrow> order \<Rightarrow> order" where
  "start_processing e x = x\<lparr>o_status := PROCESSING, o_processing_started_at :=
     Some (case o_processing_started_at x of None \<Rightarrow> env_now e | Some t \<Rightarrow> t)\<rparr>"

lemma transition_processing:
  assumes "o_status x = CREATED"
  shows "transition_order e x PROCESSING a s =
    Inr (start_processing e x, append_history (start_processing e x) (Some CREATED) PROCESSING a s)"
proof -
  have "(if o_processing_started_at x = None then x\<lparr>o_status := PROCESSING, o_processing_started_at := Some (env_now e)\<rparr>
      else x\<lparr>o_status := PROCESSING\<rparr>) = start_processing e x"
    by (cases x) (auto simp: start_processing_def split: option.split)
  then show ?thesis using assms
    by (simp add: transition_order_def known_statuses_def Let_def)
qed

lemma transition_failed:
  assumes "o_status x = PROCESSING"
  shows "transition_order e x FAILED a s = Inr (x\<lparr>o_status := FAILED\<rparr>,
     append_history (x\<lparr>o_status := FAILED\<rparr>) (Some PROCESSING) FAILED a
       (snd (release_stock_reservations (o_id x) s)))"
  using assms by (simp add: transition_order_def known_statuses_def Let_def)

lemma transition_expired:
  assumes "o_status x = CREATED \<or> o_status x = PROCESSING"
  shows "transition_order e x EXPIRED a s = Inr (x\<lparr>o_status := EXPIRED\<rparr>,
     append_history (x\<lparr>o_status := EXPIRED\<rparr>) (Some (o_status x)) EXPIRED a
       (snd (release_stock_reservations (o_id x) s)))"
  using assms by (auto simp: transition_order_def known_statuses_def Let_def)

lemma transition_refunded:
  assumes "o_status x = COMPLETED \<or> o_status x = FAILED"
    and "reverse_referral_for_order (x\<lparr>o_status := REFUNDED\<rparr>) s = ((b, y), s1)"
  shows "transition_order e x REFUNDED a s =
    Inr (y, append_history y (Some (o_status x)) REFUNDED a s1)"
  using assms by (auto simp: transition_order_def known_statuses_def Let_def)

definition mark_completed :: "env \<Rightarrow> order \<Rightarrow> order" where
  "mark_completed e x = x\<lparr>o_profit_cents := Some (compute_profit_cents (o_total_cents x) (o_cost_cents x)
     (o_fee_cents x) (o_referral_amount_cents x)), o_completed_at := Some (env_now e)\<rparr>"

lemma transition_completed:
  assumes "o_status x = PROCESSING"
  shows "transition_order e x COMPLETED a s =
    tx_bind (credit_referral_for_order e (x\<lparr>o_status := COMPLETED\<rparr>) s) (\<lambda>((_, y), s1).
      Inr (mark_completed e y, append_history (mark_completed e y) (Some PROCESSING) COMPLETED a s1))"
  using assms
  by (auto simp: transition_order_def known_statuses_def Let_def mark_completed_def tx_bind_def
      split: sum.split)

lemma credit_referral_order:
  assumes "credit_referral_for_order e x s = Inr ((a, y), s1)"
  shows "y = x\<lparr>o_referral_amount_cents := o_referral_amount_cents y\<rparr>"
  using assms by (cases rule: credit_referral_cases) auto

lemma credit_referral_tables:
  assumes "credit_referral_for_order e x s = Inr ((a, y), s1)"
  shows "t_orders s1 = t_orders s" "t_history s1 = t_history s" "t_seq s \<le> t_seq s1"
    "t_bought s1 = t_bought s" "t_item_values s1 = t_item_values s" "t_promos s1 = t_promos s"
    "t_promo_usages s1 = t_promo_usages s" "t_goods s1 = t_goods s" "t_operations s1 = t_operations s"
    "t_cart s1 = t_cart s" "t_payments s1 = t_payments s" "t_links s1 = t_links s"
    "t_providers s1 = t_providers s" "t_reviews s1 = t_reviews s" "t_tickets s1 = t_tickets s"
proof -
  have "\<exists>us es au sq ta. s1 = s\<lparr>t_users := us, t_earnings := es, t_audit := au, t_seq := sq, t_tasks := ta\<rparr>
      \<and> t_seq s \<le> sq"
    using assms
  proof (cases rule: credit_referral_cases)
    case none
    then have "s1 = s\<lparr>t_users := t_users s, t_earnings := t_earnings s, t_audit := t_audit s,
        t_seq := t_seq s, t_tasks := t_tasks s\<rparr>" by simp
    then show ?thesis by blast
  next
    case (paid r row)
    from paid(11) show ?thesis
      by (intro exI [of _ "put_by u_id (r\<lparr>u_balance := u_balance r + a\<rparr>) (t_users s)"]
          exI [of _ "t_earnings s @ [row]"] exI [of _ "t_audit s1"] exI [of _ "t_seq s + 1"]
          exI [of _ "t_tasks s1"]) simp
  qed
  then show "t_orders s1 = t_orders s" "t_history s1 = t_history s" "t_seq s \<le> t_seq s1"
    "t_bought s1 = t_bought s" "t_item_values s1 = t_item_values s" "t_promos s1 = t_promos s"
    "t_promo_usages s1 = t_promo_usages s" "t_goods s1 = t_goods s" "t_operations s1 = t_operations s"
    "t_cart s1 = t_cart s" "t_payments s1 = t_payments s" "t_links s1 = t_links s"
    "t_providers s1 = t_providers s" "t_reviews s1 = t_reviews s" "t_tickets s1 = t_tickets s"
    by auto
qed

lemma reverse_referral_effect:
  assumes "reverse_referral_for_order x s = ((b, y), s1)"
  shows "y = x\<lparr>o_referral_amount_cents := o_referral_amount_cents y\<rparr>"
    and "\<exists>us es ta. s1 = s\<lparr>t_users := us, t_earnings := es, t_tasks := ta\<rparr>"
proof -
  show "y = x\<lparr>o_referral_amount_cents := o_referral_amount_cents y\<rparr>"
    using assms by (auto simp: reverse_referral_for_order_def Let_def split: option.splits)
  show "\<exists>us es ta. s1 = s\<lparr>t_users := us, t_earnings := es, t_tasks := ta\<rparr>"
  proof (cases "earning_of_order s (o_id x)")
    case None
    with assms have "s1 = s\<lparr>t_users := t_users s, t_earnings := t_earnings s, t_tasks := t_tasks s\<rparr>"
      by (simp add: reverse_referral_for_order_def)
    then show ?thesis by blast
  next
    case (Some r)
    with assms have "s1 = s\<lparr>t_users := t_users s1, t_earnings := t_earnings s1, t_tasks := t_tasks s1\<rparr>"
      by (auto simp: reverse_referral_for_order_def Let_def put_user_def safe_create_task_def
          split: option.splits)
    then show ?thesis by blast
  qed
qed

lemma release_tables [simp]:
  "t_orders (snd (release_stock_reservations k s)) = t_orders s"
  "t_history (snd (release_stock_reservations k s)) = t_history s"
  "t_seq (snd (release_stock_reservations k s)) = t_seq s"
  "t_users (snd (release_stock_reservations k s)) = t_users s"
  "t_earnings (snd (release_stock_reservations k s)) = t_earnings s"
  "t_bought (snd (release_stock_reservations k s)) = t_bought s"
  "t_operations (snd (release_stock_reservations k s)) = t_operations s"
  by (simp_all add: release_stock_reservations_def Let_def)

text \<open>The amounts, the parties and the goods of an order never change in a transition.\<close>

definition same_snapshot :: "order \<Rightarrow> order \<Rightarrow> bool" where
  "same_snapshot x y \<longleftrightarrow> o_id y = o_id x \<and> o_user_id y = o_user_id x \<and> o_goods_id y = o_goods_id x \<and>
     o_quantity y = o_quantity x \<and> o_price_cents y = o_price_cents x \<and>
     o_discount_cents y = o_discount_cents x \<and> o_total_cents y = o_total_cents x \<and>
     o_delivery_type y = o_delivery_type x \<and> o_gift_telegram_id y = o_gift_telegram_id x"

lemma same_snapshot_refl [simp]: "same_snapshot x x"
  by (simp add: same_snapshot_def)

lemma same_snapshot_trans: "same_snapshot x y \<Longrightarrow> same_snapshot y z \<Longrightarrow> same_snapshot x z"
  by (simp add: same_snapshot_def)

lemma transition_order_Inr:
  assumes "transition_order e x t a s = Inr (y, s')"
  obtains s4 where "can_transition (o_status x) t" "o_status y = t" "same_snapshot x y"
    "s' = append_history y (Some (o_status x)) t a s4" "t_orders s4 = t_orders s"
    "t_history s4 = t_history s" "t_seq s \<le> t_seq s4"
proof -
  from assms have ct: "can_transition (o_status x) t"
    by (auto simp: transition_order_def split: if_splits)
  then have "t \<in> set known_statuses" by (rule can_transition_known)
  then consider "t = CREATED" | "t = PROCESSING" | "t = COMPLETED" | "t = FAILED" | "t = EXPIRED" | "t = REFUNDED"
    by (auto simp: known_statuses_def)
  then show ?thesis
  proof cases
    case 1
    with ct show ?thesis by (cases "o_status x") auto
  next
    case 2
    with ct have "o_status x = CREATED" by (cases "o_status x") auto
    with 2 assms show ?thesis
      by (intro that [of s]) (auto simp: transition_processing start_processing_def same_snapshot_def)
  next
    case 3
    with ct have xs: "o_status x = PROCESSING" by (cases "o_status x") auto
    from assms [unfolded 3 transition_completed [OF xs]] obtain am z s1 where
      cr: "credit_referral_for_order e (x\<lparr>o_status := COMPLETED\<rparr>) s = Inr ((am, z), s1)"
      and y: "y = mark_completed e z" "s' = append_history (mark_completed e z) (Some PROCESSING) COMPLETED a s1"
      by (auto simp: tx_simps)
    from credit_referral_order [OF cr] have "same_snapshot x y" "o_status y = COMPLETED"
      unfolding y mark_completed_def same_snapshot_def by (cases z; cases x; simp)+
    then show ?thesis
      using 3 ct xs y credit_referral_tables(1-3) [OF cr] by (intro that [of s1]) auto
  next
    case 4
    with ct have "o_status x = PROCESSING" by (cases "o_status x") auto
    with 4 assms show ?thesis
      by (intro that [of "snd (release_stock_reservations (o_id x) s)"])
        (auto simp: transition_failed same_snapshot_def)
  next
    case 5
    with ct have "o_status x = CREATED \<or> o_status x = PROCESSING" by (cases "o_status x") auto
    with 5 ct assms show ?thesis
      by (intro that [of "snd (release_stock_reservations (o_id x) s)"])
        (auto simp: transition_expired same_snapshot_def)
  next
    case 6
    with ct have xs: "o_status x = COMPLETED \<or> o_status x = FAILED" by (cases "o_status x") auto
    obtain b z s1 where rv: "reverse_referral_for_order (x\<lparr>o_status := REFUNDED\<rparr>) s = ((b, z), s1)"
      by (metis surj_pair)
    from assms [unfolded 6 transition_refunded [OF xs rv]] have y: "y = z"
      "s' = append_history z (Some (o_status x)) REFUNDED a s1" by auto
    from reverse_referral_effect(1) [OF rv] have "same_snapshot x y" "o_status y = REFUNDED"
      unfolding y same_snapshot_def by (cases z; cases x; simp)+
    moreover have "t_orders s1 = t_orders s" "t_history s1 = t_history s" "t_seq s \<le> t_seq s1"
      using reverse_referral_effect(2) [OF rv] by auto
    ultimately show ?thesis using 6 ct y by (intro that [of s1]) auto
  qed
qed

lemma history_of_append:
  "history_of (append_history x f t a s) k =
     (if k = o_id x then history_of s k @ [\<lparr>h_id = t_seq s + 1, h_order_id = o_id x,
        h_from_status = f, h_to_status = t, h_actor_id = a\<rparr>] else history_of s k)"
  by (auto simp: history_of_def)

lemma orders_ok_append_history:
  assumes ok: "orders_ok s" and sync: "get_order s (o_id y) = Some r" "o_status r = f"
    and step: "can_transition f t" "o_status y = t"
    and same: "t_orders s4 = t_orders s" "t_history s4 = t_history s" "t_seq s \<le> t_seq s4"
  shows "orders_ok (append_history y (Some f) t a s4)"
proof -
  let ?s = "append_history y (Some f) t a s4"
  have r: "r \<in> set (t_orders s)" "o_id r = o_id y"
    using sync(1) by (auto simp: get_order_def dest: find_by_Some_mem find_by_Some_key)
  have hist: "history_of s4 k = history_of s k" for k by (simp add: history_of_def same)
  have d: "distinct (map o_id (t_orders s))" using ok by (simp add: orders_ok_def)
  have "history_path None (history_of ?s (o_id z)) (Some (o_status z)) \<and> o_id z \<le> t_seq ?s"
    if "z \<in> set (t_orders ?s)" for z
  proof -
    from that have "z = y \<or> z \<in> set (t_orders s) \<and> o_id z \<noteq> o_id y"
      using mem_put_by [OF d] by (simp add: same)
    then show ?thesis
    proof
      assume "z = y"
      moreover have "history_path None (history_of s (o_id r)) (Some f)" "o_id r \<le> t_seq s"
        using ok r sync(2) by (auto simp: orders_ok_def)
      ultimately show ?thesis using r(2) step same(3)
        by (auto simp: history_of_append hist history_path_snoc)
    next
      assume "z \<in> set (t_orders s) \<and> o_id z \<noteq> o_id y"
      then show ?thesis using ok same(3) by (auto simp: orders_ok_def history_of_append hist)
    qed
  qed
  moreover have "o_id y \<le> t_seq s" using ok r by (auto simp: orders_ok_def)
  ultimately show ?thesis
    using ok d same by (auto simp: orders_ok_def keys_put intro: order_trans)
qed

lemma transition_order_ok:
  assumes "transition_order e x t a s = Inr (y, s')" "orders_ok s" "in_sync s x"
  shows "orders_ok s'" "in_sync s' y"
proof -
  from assms(1) obtain s4 where t: "can_transition (o_status x) t" "o_status y = t" "same_snapshot x y"
    "s' = append_history y (Some (o_status x)) t a s4" "t_orders s4 = t_orders s"
    "t_history s4 = t_history s" "t_seq s \<le> t_seq s4" by (rule transition_order_Inr)
  from assms(3) obtain r where r: "get_order s (o_id x) = Some r" "o_status r = o_status x"
    by (auto simp: in_sync_def)
  have id: "o_id y = o_id x" using t(3) by (simp add: same_snapshot_def)
  show "orders_ok s'"
    unfolding t(4) by (rule orders_ok_append_history [OF assms(2) _ r(2) t(1,2,5-7)]) (simp add: id r)
  have "get_order s' (o_id y) = Some y"
    using r(1) by (simp add: t(4) get_order_def find_put t(5) id)
  then show "in_sync s' y" by (rule in_sync_get)
qed

lemma create_order_Inr:
  assumes "create_order_with_snapshot e u g q p d c fe rf dt ex pv xt gf s = Inr (x, s')"
  obtains unit where "rub_to_cents p = Inr unit" "0 < q" "o_id x = t_seq s + 1" "o_user_id x = u"
    "o_goods_id x = g" "o_quantity x = q" "o_price_cents x = unit" "o_discount_cents x = d"
    "o_total_cents x = max 0 (unit * q - d)" "o_status x = CREATED" "o_delivery_type x = dt"
    "o_gift_telegram_id x = gf" "o_cost_cents x = c" "o_fee_cents x = fe" "o_provider_id x = pv"
    "o_referral_amount_cents x = rf" "o_expires_at x = ex" "o_processing_started_at x = None"
    "o_provider_external_order_id x = xt" "o_fulfillment_payload x = None"
    "o_fulfillment_attempt_count x = 0" "o_delivery_notified_at x = None"
    "s' = append_history x None CREATED (Some u) (s\<lparr>t_orders := t_orders s @ [x], t_seq := t_seq s + 1\<rparr>)"
  using assms by (auto simp: create_order_with_snapshot_def Let_def tx_simps next_id_def split: if_splits)

lemma create_order_ok:
  assumes "create_order_with_snapshot e u g q p d c fe rf dt ex pv xt gf s = Inr (x, s')" "orders_ok s"
  shows "orders_ok s'" "get_order s' (o_id x) = Some x"
proof -
  from assms(1) obtain "unit" where x: "o_id x = t_seq s + 1" "o_status x = CREATED"
    "s' = append_history x None CREATED (Some u) (s\<lparr>t_orders := t_orders s @ [x], t_seq := t_seq s + 1\<rparr>)"
    by (rule create_order_Inr)
  have fresh: "o_id x \<notin> o_id ` set (t_orders s)" "\<forall>h \<in> set (t_history s). h_order_id h \<noteq> o_id x"
    using assms(2) x(1) by (force simp: orders_ok_def)+
  then have none: "history_of s (o_id x) = []" by (auto simp: history_of_def filter_empty_conv)
  have orders': "t_orders s' = t_orders s @ [x]"
    using fresh(1) by (simp add: x(3) put_by_append put_absent)
  have hist: "history_of s' k = history_of s k @
      (if k = o_id x then [\<lparr>h_id = t_seq s + 2, h_order_id = o_id x, h_from_status = None,
         h_to_status = CREATED, h_actor_id = Some u\<rparr>] else [])" for k
    by (simp add: x(3) history_of_append history_of_def)
  have "history_path None (history_of s' (o_id z)) (Some (o_status z))" if "z \<in> set (t_orders s')" for z
    using that assms(2) fresh(1) x(2) none
    by (auto simp: orders' hist orders_ok_def)
  moreover have seq: "t_seq s' = t_seq s + 2" by (simp add: x(3))
  have "o_id z \<le> t_seq s'" if "z \<in> set (t_orders s')" for z
    using that assms(2) x(1) by (auto simp: orders' orders_ok_def seq dest!: bspec)
  moreover note this
  moreover have "h_order_id h \<le> t_seq s'" if "h \<in> set (t_history s')" for h
    using that assms(2) x(1) by (auto simp: orders_ok_def x(3) intro: order_trans)
  ultimately show "orders_ok s'"
    using assms(2) fresh(1) by (simp add: orders_ok_def orders')
  have "find_by o_id (o_id x) (t_orders s) = None" using fresh(1) by (simp add: find_by_None_iff)
  then show "get_order s' (o_id x) = Some x"
    by (simp add: get_order_def orders' find_by_append)
qed

subsection \<open>Properties\<close>

lemma history_of_length_le:
  assumes "orders_ok s" "get_order s k = Some x"
  shows "length (history_of s k) \<le> 4"
proof -
  have "x \<in> set (t_orders s)" "o_id x = k"
    using assms(2) by (auto simp: get_order_def dest: find_by_Some_mem find_by_Some_key)
  with assms(1) have "history_path None (history_of s k) (Some (o_status x))" by (auto simp: orders_ok_def)
  then show ?thesis by (rule history_path_length)
qed

text \<open>C16: Every status change keeps the invariant of the order tables: ids are unique and every history
  row continues the previous one along an allowed edge of the status machine, so the history of an
  order is a legal path that ends in its current status.\<close>
theorem order_history_invariant:
  assumes "transition_order e x t a s = Inr (y, s')" "orders_ok s" "in_sync s x"
  shows "orders_ok s' \<and> same_snapshot x y \<and> o_status y = t \<and> get_order s' (o_id x) = Some y \<and>
    length (history_of s' (o_id x)) = length (history_of s (o_id x)) + 1 \<and>
    length (history_of s' (o_id x)) \<le> 4"
proof -
  from assms(1) obtain s4 where t: "can_transition (o_status x) t" "o_status y = t" "same_snapshot x y"
    "s' = append_history y (Some (o_status x)) t a s4" "t_orders s4 = t_orders s"
    "t_history s4 = t_history s" "t_seq s \<le> t_seq s4" by (rule transition_order_Inr)
  have id: "o_id y = o_id x" using t(3) by (simp add: same_snapshot_def)
  obtain r where "get_order s (o_id x) = Some r" using assms(3) by (auto simp: in_sync_def)
  then have g: "get_order s' (o_id x) = Some y" by (simp add: t(4) get_order_def find_put t(5) id)
  have ok: "orders_ok s'" using transition_order_ok [OF assms] by simp
  have "length (history_of s' (o_id x)) = length (history_of s (o_id x)) + 1"
    by (simp add: t(4) history_of_append id) (simp add: history_of_def t(6))
  with ok g t(2,3) history_of_length_le [OF ok g] show ?thesis by simp
qed

definition sample_order_shop :: "order_status \<Rightarrow> shop" where
  "sample_order_shop st = sample_shop\<lparr>t_orders := [sample_order 17 1 3 1999 st],
     t_history := (case st of
        CREATED \<Rightarrow> [\<lparr>h_id = 18, h_order_id = 17, h_from_status = None, h_to_status = CREATED, h_actor_id = Some 1\<rparr>]
      | _ \<Rightarrow> [\<lparr>h_id = 18, h_order_id = 17, h_from_status = None, h_to_status = CREATED, h_actor_id = Some 1\<rparr>,
              \<lparr>h_id = 19, h_order_id = 17, h_from_status = Some CREATED, h_to_status = PROCESSING, h_actor_id = Some 1\<rparr>,
              \<lparr>h_id = 20, h_order_id = 17, h_from_status = Some PROCESSING, h_to_status = st, h_actor_id = Some 1\<rparr>])\<rparr>"

lemma order_history_invariant_witness:
  "orders_ok (snd (projr (transition_order sample_env (sample_order 17 1 3 1999 CREATED) PROCESSING (Some 1)
     (sample_order_shop CREATED)))) \<and>
   length (history_of (snd (projr (transition_order sample_env (sample_order 17 1 3 1999 CREATED) PROCESSING (Some 1)
     (sample_order_shop CREATED)))) 17) = 2"
proof -
  let ?x = "sample_order 17 1 3 1999 CREATED"
  have st: "o_status ?x = CREATED" "o_id ?x = 17" by (simp_all add: sample_order_def)
  note tr = transition_processing [OF st(1), of sample_env "Some 1" "sample_order_shop CREATED"]
  have ok: "orders_ok (sample_order_shop CREATED)" by code_simp
  have "get_order (sample_order_shop CREATED) (o_id ?x) = Some ?x" by code_simp
  then have "in_sync (sample_order_shop CREATED) ?x" by (rule in_sync_get)
  moreover have "length (history_of (sample_order_shop CREATED) 17) = 1" by code_simp
  ultimately show ?thesis using order_history_invariant [OF tr ok] unfolding tr by (simp add: st)
qed

text \<open>What a refund takes back from a user: the earning of the order, if that user got it.\<close>

definition reversal_for :: "shop \<Rightarrow> int \<Rightarrow> int \<Rightarrow> int" where
  "reversal_for s oid k = (case earning_of_order s oid of None \<Rightarrow> 0
     | Some r \<Rightarrow> if k = re_referrer_id r \<and> get_user s k \<noteq> None then re_amount r else 0)"

lemma reversal_for_cong:
  "t_earnings s' = t_earnings s \<Longrightarrow> (get_user s' k = None \<longleftrightarrow> get_user s k = None) \<Longrightarrow>
     reversal_for s' oid k = reversal_for s oid k"
  by (simp add: reversal_for_def earning_of_order_def cong: if_cong option.case_cong)

lemma reverse_balance:
  assumes "reverse_referral_for_order x s = ((b, y), s')"
  shows "balance_of s' k = balance_of s k - reversal_for s (o_id x) k"
    and "get_user s' k = None \<longleftrightarrow> get_user s k = None"
proof -
  have "balance_of s' k = balance_of s k - reversal_for s (o_id x) k \<and> (get_user s' k = None \<longleftrightarrow> get_user s k = None)"
  proof (cases "earning_of_order s (o_id x)")
    case None
    with assms show ?thesis by (simp add: reverse_referral_for_order_def reversal_for_def)
  next
    case (Some r)
    show ?thesis
    proof (cases "get_user s (re_referrer_id r)")
      case None
      with Some assms have "t_users s' = t_users s"
        by (auto simp: reverse_referral_for_order_def Let_def safe_create_task_def)
      with Some None show ?thesis by (auto simp: reversal_for_def balance_of_def get_user_def)
    next
      case (Some u)
      have "u_id u = re_referrer_id r" using Some by (rule users.lookup_key)
      moreover have "t_users s' = put_by u_id (u\<lparr>u_balance := u_balance u - re_amount r\<rparr>) (t_users s)"
        using Some \<open>earning_of_order s (o_id x) = Some r\<close> assms
        by (auto simp: reverse_referral_for_order_def Let_def safe_create_task_def put_user_def)
      ultimately show ?thesis using Some \<open>earning_of_order s (o_id x) = Some r\<close>
        by (auto simp: reversal_for_def balance_of_def get_user_def find_put split: option.split)
    qed
  qed
  then show "balance_of s' k = balance_of s k - reversal_for s (o_id x) k"
    and "get_user s' k = None \<longleftrightarrow> get_user s k = None" by blast+
qed

lemma transition_refunded_balance:
  assumes "transition_order e x REFUNDED a s = Inr (y, s')"
  shows "balance_of s' k = balance_of s k - reversal_for s (o_id x) k"
    and "get_user s' k = None \<longleftrightarrow> get_user s k = None"
proof -
  have st: "o_status x = COMPLETED \<or> o_status x = FAILED"
  proof -
    have "can_transition (o_status x) REFUNDED" using assms by (rule transition_order_Inr)
    then show ?thesis by (cases "o_status x") auto
  qed
  obtain b z s1 where rv: "reverse_referral_for_order (x\<lparr>o_status := REFUNDED\<rparr>) s = ((b, z), s1)"
    by (metis surj_pair)
  from assms [unfolded transition_refunded [OF st rv]] have u: "t_users s' = t_users s1" by auto
  show "balance_of s' k = balance_of s k - reversal_for s (o_id x) k"
    using reverse_balance(1) [OF rv, of k] by (simp add: balance_of_users [OF u])
  show "get_user s' k = None \<longleftrightarrow> get_user s k = None"
    using reverse_balance(2) [OF rv, of k] u by (simp add: get_user_def)
qed

text \<open>Paying \<open>t\<close> kopecks back to a user and booking the operation.\<close>

lemma payback_balance:
  assumes "get_user s k0 = Some u"
  shows "balance_of (add_operation k0 t n (put_user (u\<lparr>u_balance := u_balance u + t\<rparr>) s)) k =
    balance_of s k + (if k = k0 then t else 0)"
    and "get_user (add_operation k0 t n (put_user (u\<lparr>u_balance := u_balance u + t\<rparr>) s)) k = None \<longleftrightarrow> get_user s k = None"
    and "reversal_for (add_operation k0 t n (put_user (u\<lparr>u_balance := u_balance u + t\<rparr>) s)) oid k = reversal_for s oid k"
proof -
  have "u_id u = k0" using assms by (rule users.lookup_key)
  then show "balance_of (add_operation k0 t n (put_user (u\<lparr>u_balance := u_balance u + t\<rparr>) s)) k =
    balance_of s k + (if k = k0 then t else 0)"
    and n: "get_user (add_operation k0 t n (put_user (u\<lparr>u_balance := u_balance u + t\<rparr>) s)) k = None \<longleftrightarrow> get_user s k = None"
    using assms by (auto simp: balance_of_def get_user_def add_operation_def put_user_def find_put split: option.split)
  show "reversal_for (add_operation k0 t n (put_user (u\<lparr>u_balance := u_balance u + t\<rparr>) s)) oid k = reversal_for s oid k"
    by (rule reversal_for_cong [OF _ n]) (simp add: add_operation_def put_user_def)
qed

text \<open>C17: An operator refund of a COMPLETED or FAILED order credits the buyer with exactly the order
  total (less a reversed referral bonus for the referrer) and sets REFUNDED; refunding again
  credits nothing and changes nothing.\<close>
theorem manual_refund_once:
  assumes "manual_refund_order e oid op s = Inr ((y, True), s')" "orders_ok s"
  shows "(\<forall>k. balance_of s' k = balance_of s k + (if k = o_user_id y then o_total_cents y else 0)
      - reversal_for s oid k) \<and>
    o_status y = REFUNDED \<and> (\<forall>e' op'. manual_refund_order e' oid op' s' = Inr ((y, False), s')) \<and> orders_ok s'"
proof -
  from assms(1) obtain x u where x: "get_order s oid = Some x" "o_status x = COMPLETED \<or> o_status x = FAILED"
      "get_user s (o_user_id x) = Some u" and
    tr: "\<exists>s4. transition_order e x REFUNDED (Some op)
        (log_audit ''order_refund'' ''INFO'' (Some op) (Some ''Order'') (Some (show_int (o_id x)))
          (add_operation (o_user_id x) (o_total_cents x) (env_now e)
            (put_user (u\<lparr>u_balance := u_balance u + o_total_cents x\<rparr>) s))) = Inr (y, s4) \<and>
        s' = safe_create_task (InvalidateUserCache (o_user_id y)) s4"
    by (auto simp: manual_refund_order_def Let_def tx_simps split: option.splits if_splits)
  let ?s2 = "add_operation (o_user_id x) (o_total_cents x) (env_now e)
            (put_user (u\<lparr>u_balance := u_balance u + o_total_cents x\<rparr>) s)"
  let ?s3 = "log_audit ''order_refund'' ''INFO'' (Some op) (Some ''Order'') (Some (show_int (o_id x))) ?s2"
  from tr obtain s4 where t: "transition_order e x REFUNDED (Some op) ?s3 = Inr (y, s4)"
    and s': "s' = safe_create_task (InvalidateUserCache (o_user_id y)) s4" by blast
  have oid: "o_id x = oid" using x(1) by (rule orders.lookup_key)
  have ok3: "orders_ok ?s3" "in_sync ?s3 x"
    using assms(2) x(1) oid
    by (auto simp: orders_ok_def history_of_def log_audit_def add_operation_def put_user_def next_id_def
        in_sync_def get_order_def intro: order_trans)
  have inv: "orders_ok s4" "same_snapshot x y" "o_status y = REFUNDED"
    using transition_order_ok(1) [OF t ok3] by (simp, metis transition_order_Inr [OF t], metis transition_order_Inr [OF t])
  have gy: "get_order s4 oid = Some y"
  proof -
    from t obtain s5 where "s4 = append_history y (Some (o_status x)) REFUNDED (Some op) s5" "t_orders s5 = t_orders ?s3"
      by (rule transition_order_Inr)
    moreover have "t_orders ?s3 = t_orders s" by (simp add: log_audit_def add_operation_def put_user_def)
    ultimately show ?thesis using x(1) oid inv(2)
      by (simp add: get_order_def find_put same_snapshot_def)
  qed
  have b: "balance_of s' k = balance_of s k + (if k = o_user_id y then o_total_cents y else 0) - reversal_for s oid k" for k
  proof -
    have "balance_of s' k = balance_of s4 k" by (rule balance_of_users) (simp add: s' safe_create_task_def)
    also have "\<dots> = balance_of ?s3 k - reversal_for ?s3 oid k"
      using transition_refunded_balance(1) [OF t] by (simp add: oid)
    also have "balance_of ?s3 k = balance_of ?s2 k" by (rule balance_of_users) (simp add: log_audit_def)
    also have "reversal_for ?s3 oid k = reversal_for ?s2 oid k"
      by (rule reversal_for_cong) (simp_all add: get_user_def log_audit_def)
    finally show ?thesis
      using payback_balance(1,3) [OF x(3)] inv(2) by (simp add: same_snapshot_def)
  qed
  moreover have "manual_refund_order e' oid op' s' = Inr ((y, False), s')" for e' op'
    using gy inv(3) by (simp add: manual_refund_order_def s' safe_create_task_def get_order_def)
  moreover have "orders_ok s'" using inv(1) by (simp add: s' safe_create_task_def orders_ok_def history_of_def)
  ultimately show ?thesis using inv(3) by blast
qed

lemma manual_refund_once_witness:
  "\<exists>y s'. manual_refund_order sample_env 17 99 (sample_order_shop COMPLETED) = Inr ((y, True), s') \<and>
    balance_of s' 1 = 6999 \<and> (\<forall>e' op'. manual_refund_order e' 17 op' s' = Inr ((y, False), s'))"
proof -
  let ?s = "sample_order_shop COMPLETED"
  have "map_sum id (\<lambda>((y, c), s'). (c, o_user_id y, o_total_cents y)) (manual_refund_order sample_env 17 99 ?s) =
      Inr (True, 1, 1999)" by code_simp
  then obtain y s' where r: "manual_refund_order sample_env 17 99 ?s = Inr ((y, True), s')"
    and y: "o_user_id y = 1" "o_total_cents y = 1999"
    by (cases "manual_refund_order sample_env 17 99 ?s") auto
  have ok: "orders_ok ?s" "balance_of ?s 1 = 5000" "reversal_for ?s 17 1 = 0" by code_simp+
  from manual_refund_once [OF r ok(1)] r y ok(2,3) show ?thesis by auto
qed

theorem user_cancel_only_unpaid:
  assumes "user_cancel_order e oid uid s = Inr (y, s')"
  shows "\<exists>x. get_order s oid = Some x \<and> o_user_id x = uid \<and> o_status x = CREATED \<and>
    y = x\<lparr>o_status := EXPIRED\<rparr> \<and> t_users s' = t_users s \<and> t_operations s' = t_operations s \<and>
    (\<forall>v \<in> set (t_item_values s'). \<not> (iv_reserved_order_id v = Some oid \<and> iv_status v = RESERVED))"
proof -
  from assms obtain x where x: "get_order s oid = Some x" "o_user_id x = uid" "o_status x = CREATED"
    and t: "transition_order e x EXPIRED (Some uid) s = Inr (y, s')"
    by (auto simp: user_cancel_order_def split: option.splits if_splits)
  have oid: "o_id x = oid" using x(1) by (rule orders.lookup_key)
  from t x(3) have y: "y = x\<lparr>o_status := EXPIRED\<rparr>" and
    s': "s' = append_history (x\<lparr>o_status := EXPIRED\<rparr>) (Some CREATED) EXPIRED (Some uid)
       (snd (release_stock_reservations (o_id x) s))"
    by (auto simp: transition_expired)
  have "\<not> (iv_reserved_order_id v = Some oid \<and> iv_status v = RESERVED)" if "v \<in> set (t_item_values s')" for v
    using that by (auto simp: s' oid release_stock_reservations_def Let_def split: if_splits)
  with x y show ?thesis by (auto simp: s')
qed

lemma user_cancel_only_unpaid_witness:
  "\<exists>y s'. user_cancel_order sample_env 17 1 (sample_order_shop CREATED) = Inr (y, s') \<and>
    o_status y = EXPIRED \<and> t_users s' = t_users (sample_order_shop CREATED)"
proof -
  have "map_sum id fst (user_cancel_order sample_env 17 1 (sample_order_shop CREATED)) =
      Inr ((sample_order 17 1 3 1999 CREATED)\<lparr>o_status := EXPIRED\<rparr>)" by code_simp
  then obtain y s' where r: "user_cancel_order sample_env 17 1 (sample_order_shop CREATED) = Inr (y, s')"
    by (cases "user_cancel_order sample_env 17 1 (sample_order_shop CREATED)") auto
  from user_cancel_only_unpaid [OF r] r show ?thesis by auto
qed

lemma expire_fold:
  assumes "distinct (map o_id rows)"
    and "\<forall>x \<in> set rows. get_order s (o_id x) = Some x \<and> o_status x = CREATED" "orders_ok s"
  shows "\<exists>s'. fold_tx (\<lambda>x s. tx_bind (transition_order e x EXPIRED None s) (\<lambda>(_, s'). Inr s')) rows s = Inr s' \<and>
    orders_ok s' \<and> t_users s' = t_users s \<and>
    (\<forall>k. get_order s' k = (if k \<in> o_id ` set rows then map_option (\<lambda>x. x\<lparr>o_status := EXPIRED\<rparr>) (get_order s k)
                           else get_order s k))"
  using assms
proof (induction rows arbitrary: s)
  case Nil
  then show ?case by simp
next
  case (Cons x rows)
  let ?y = "x\<lparr>o_status := EXPIRED\<rparr>"
  let ?s = "append_history ?y (Some CREATED) EXPIRED None (snd (release_stock_reservations (o_id x) s))"
  have x: "get_order s (o_id x) = Some x" "o_status x = CREATED" using Cons.prems(2) by auto
  have tr: "transition_order e x EXPIRED None s = Inr (?y, ?s)" using x(2) by (simp add: transition_expired)
  have ok: "orders_ok ?s" by (rule transition_order_ok(1) [OF tr Cons.prems(3) in_sync_get [OF x(1)]])
  have get: "get_order ?s k = (if k = o_id x then Some ?y else get_order s k)" for k
  proof -
    have "get_order ?s k = find_by o_id k (put_by o_id ?y (t_orders s))" by (simp add: get_order_def)
    also have "\<dots> = (if k = o_id x then map_option (\<lambda>_. ?y) (get_order s k) else get_order s k)"
      by (simp add: find_put get_order_def)
    finally show ?thesis using x(1) by (simp only: option.map cong: if_cong)
  qed
  have rest: "\<forall>z \<in> set rows. get_order ?s (o_id z) = Some z \<and> o_status z = CREATED"
  proof
    fix z assume z: "z \<in> set rows"
    with Cons.prems(1) have "o_id z \<noteq> o_id x" by (simp add: image_iff) metis
    then show "get_order ?s (o_id z) = Some z \<and> o_status z = CREATED"
      unfolding get using Cons.prems(2) z by simp
  qed
  have "distinct (map o_id rows)" using Cons.prems(1) by simp
  from Cons.IH [OF this rest ok] obtain s' where s': "fold_tx (\<lambda>x s. tx_bind (transition_order e x EXPIRED None s) (\<lambda>(_, s'). Inr s')) rows ?s = Inr s'"
    "orders_ok s'" "t_users s' = t_users ?s"
    "\<forall>k. get_order s' k = (if k \<in> o_id ` set rows then map_option (\<lambda>x. x\<lparr>o_status := EXPIRED\<rparr>) (get_order ?s k)
        else get_order ?s k)"
    by blast
  have "get_order s' k = (if k \<in> o_id ` set (x # rows) then map_option (\<lambda>x. x\<lparr>o_status := EXPIRED\<rparr>) (get_order s k)
      else get_order s k)" for k
  proof (cases "k = o_id x")
    case True
    with Cons.prems(1) have "k \<notin> o_id ` set rows" by simp
    with True s'(4) x(1) show ?thesis by (simp add: get)
  next
    case False
    with s'(4) show ?thesis by (simp add: get)
  qed
  with s'(1-3) show ?case by (simp add: tr)
qed

lemma due_mem:
  "x \<in> set (due_created_orders now limit s) \<Longrightarrow> x \<in> set (t_orders s) \<and> o_status x = CREATED"
  unfolding due_created_orders_def by (auto dest!: in_set_takeD)

theorem expire_sweep:
  assumes "orders_ok s"
  shows "\<exists>s'. expire_due_created_orders e limit s = Inr (int (length (due_created_orders (env_now e) limit s)), s') \<and>
    orders_ok s' \<and> t_users s' = t_users s \<and>
    (\<forall>k. get_order s' k = (if k \<in> o_id ` set (due_created_orders (env_now e) limit s)
       then map_option (\<lambda>x. x\<lparr>o_status := EXPIRED\<rparr>) (get_order s k) else get_order s k)) \<and>
    (length (due_created_orders (env_now e) limit s) < limit \<longrightarrow> due_created_orders (env_now e) limit s' = [])"
proof -
  let ?rows = "due_created_orders (env_now e) limit s"
  let ?due = "\<lambda>x. o_status x = CREATED \<and> (case o_expires_at x of None \<Rightarrow> False | Some t \<Rightarrow> t \<le> env_now e)"
  have d: "distinct (map o_id (t_orders s))" using assms by (simp add: orders_ok_def)
  have get: "get_order s (o_id x) = Some x" if "x \<in> set (t_orders s)" for x
    using find_by_distinct [OF d that] by (simp add: get_order_def)
  have "distinct (map o_id (order_by_key o_id (filter ?due (t_orders s))))"
    using distinct_map_filter [OF d, of ?due] by (simp add: order_by_key_def distinct_map)
  then have "distinct (map o_id ?rows)" by (simp add: due_created_orders_def flip: take_map)
  moreover have "\<forall>x \<in> set ?rows. get_order s (o_id x) = Some x \<and> o_status x = CREATED"
    using get due_mem by blast
  ultimately obtain s' where s': "fold_tx (\<lambda>x s. tx_bind (transition_order e x EXPIRED None s) (\<lambda>(_, s'). Inr s')) ?rows s = Inr s'"
    "orders_ok s'" "t_users s' = t_users s"
    "\<forall>k. get_order s' k = (if k \<in> o_id ` set ?rows then map_option (\<lambda>x. x\<lparr>o_status := EXPIRED\<rparr>) (get_order s k)
        else get_order s k)"
    using expire_fold assms by blast
  have "filter ?due (t_orders s') = []" if "length ?rows < limit"
  proof -
    have all: "?rows = order_by_key o_id (filter ?due (t_orders s))"
      using that by (simp add: due_created_orders_def)
    have "\<not> ?due x" if x: "x \<in> set (t_orders s')" for x
    proof
      assume due: "?due x"
      have "distinct (map o_id (t_orders s'))" using s'(2) by (simp add: orders_ok_def)
      from find_by_distinct [OF this x] have g: "get_order s' (o_id x) = Some x" by (simp add: get_order_def)
      show False
      proof (cases "o_id x \<in> o_id ` set ?rows")
        case True
        with g s'(4) due show False by (cases "get_order s (o_id x)") auto
      next
        case False
        with g s'(4) have "get_order s (o_id x) = Some x" by simp
        then have "x \<in> set (t_orders s)" by (auto simp: get_order_def dest: find_by_Some_mem)
        with due have "x \<in> set ?rows" unfolding all by simp
        with False show False by blast
      qed
    qed
    then show ?thesis by (simp add: filter_empty_conv)
  qed
  then have "length ?rows < limit \<longrightarrow> due_created_orders (env_now e) limit s' = []"
    by (simp add: due_created_orders_def order_by_key_def)
  with s' show ?thesis by (simp add: expire_due_created_orders_def Let_def)
qed

lemma expire_sweep_witness:
  "\<exists>s'. expire_due_created_orders sample_env 5 (sample_order_shop CREATED) = Inr (1, s') \<and>
    map_option o_status (get_order s' 17) = Some EXPIRED \<and> due_created_orders 1000 5 s' = []"
proof -
  have ok: "orders_ok (sample_order_shop CREATED)" by code_simp
  have n: "map o_id (due_created_orders (env_now sample_env) 5 (sample_order_shop CREATED)) = [17]"
    "env_now sample_env = 1000" "map_option o_id (get_order (sample_order_shop CREATED) 17) = Some 17" by code_simp+
  have l: "length (due_created_orders (env_now sample_env) 5 (sample_order_shop CREATED)) = 1"
    "o_id ` set (due_created_orders (env_now sample_env) 5 (sample_order_shop CREATED)) = {17}"
    using arg_cong [OF n(1), of length] arg_cong [OF n(1), of set] by auto
  from expire_sweep [OF ok, of sample_env 5] obtain s' where
    "expire_due_created_orders sample_env 5 (sample_order_shop CREATED) = Inr (1, s')"
    "get_order s' 17 = map_option (\<lambda>x. x\<lparr>o_status := EXPIRED\<rparr>) (get_order (sample_order_shop CREATED) 17)"
    "due_created_orders 1000 5 s' = []"
    unfolding l by (auto simp: n(2))
  with n(3) show ?thesis by (auto intro!: exI [of _ s'])
qed

end
