(* ===== verification/PyStr.thy ===== *)
theory PyStr
  imports Money Models
begin

text \<open>
  The methods of Python's \<open>str\<close> and \<open>dict\<close> the program uses, on strings of bytes (UTF-8): case
  mapping and white space are the ASCII part of Python's, which is what codes, keys and
  identifiers contain.
\<close>

subsection \<open>Strings\<close>

definition char_upper :: "char \<Rightarrow> char" where
  "char_upper c = (let n = of_char c in if 97 \<le> n \<and> n \<le> (122::nat) then char_of (n - 32) else c)"

definition char_lower :: "char \<Rightarrow> char" where
  "char_lower c = (let n = of_char c in if 65 \<le> n \<and> n \<le> (90::nat) then char_of (n + 32) else c)"

definition upper :: "string \<Rightarrow> string" where
  "upper s = map char_upper s"

definition lower :: "string \<Rightarrow> string" where
  "lower s = map char_lower s"

definition is_space :: "char \<Rightarrow> bool" where
  "is_space c = (let n = of_char c in (9 \<le> n \<and> n \<le> (13::nat)) \<or> (28 \<le> n \<and> n \<le> 32))"

definition lstrip_by :: "(char \<Rightarrow> bool) \<Rightarrow> string \<Rightarrow> string" where
  "lstrip_by P s = dropWhile P s"

definition rstrip_by :: "(char \<Rightarrow> bool) \<Rightarrow> string \<Rightarrow> string" where
  "rstrip_by P s = rev (dropWhile P (rev s))"

definition strip :: "string \<Rightarrow> string" where
  "strip s = rstrip_by is_space (lstrip_by is_space s)"

fun split_on :: "char \<Rightarrow> string \<Rightarrow> string list" where
  "split_on c [] = [[]]"
| "split_on c (x # xs) =
     (if x = c then [] # split_on c xs
      else (case split_on c xs of [] \<Rightarrow> [[x]] | p # ps \<Rightarrow> (x # p) # ps))"

definition is_digits :: "string \<Rightarrow> bool" where
  "is_digits s \<longleftrightarrow> s \<noteq> [] \<and> list_all (\<lambda>c. char_digit c \<noteq> None) s"

subsection \<open>JSON values as Python objects\<close>

definition truthy :: "json \<Rightarrow> bool" where
  "truthy j = (case j of JNull \<Rightarrow> False | JBool b \<Rightarrow> b | JNum n \<Rightarrow> n \<noteq> 0
     | JFloat r \<Rightarrow> r \<noteq> 0 | JStr t \<Rightarrow> t \<noteq> []
     | JArr xs \<Rightarrow> xs \<noteq> [] | JObj kvs \<Rightarrow> kvs \<noteq> [])"

text \<open>\<open>str(x)\<close>; the text of a float, an array or an object is left to the parameter.\<close>

definition py_str :: "(json \<Rightarrow> string) \<Rightarrow> json \<Rightarrow> string" where
  "py_str repr j = (case j of JNull \<Rightarrow> ''None'' | JBool b \<Rightarrow> (if b then ''True'' else ''False'')
     | JNum n \<Rightarrow> show_int n | JFloat r \<Rightarrow> repr j | JStr t \<Rightarrow> t | JArr xs \<Rightarrow> repr j | JObj kvs \<Rightarrow> repr j)"

text \<open>\<open>d.get(key)\<close>: only a dict has the method.\<close>

definition json_get :: "string \<Rightarrow> json \<Rightarrow> json result" where
  "json_get key j =
     (case j of JObj kvs \<Rightarrow> Inr (case map_of kvs key of None \<Rightarrow> JNull | Some v \<Rightarrow> v)
      | _ \<Rightarrow> Inl (OtherError ''AttributeError''))"

text \<open>A configuration value that is used as a string.\<close>

definition as_str :: "json \<Rightarrow> string result" where
  "as_str j = (case j of JStr t \<Rightarrow> Inr t | _ \<Rightarrow> Inl (OtherError ''AttributeError''))"

definition dict_get :: "(string \<times> json) list \<Rightarrow> string \<Rightarrow> json" where
  "dict_get d k = (case map_of d k of None \<Rightarrow> JNull | Some v \<Rightarrow> v)"

text \<open>\<open>{**d, key: value}\<close> and \<open>d.update(other)\<close>.\<close>

definition dict_set :: "string \<Rightarrow> json \<Rightarrow> json \<Rightarrow> json result" where
  "dict_set k v j = (case j of JObj kvs \<Rightarrow> Inr (JObj (AList.update k v kvs)) | _ \<Rightarrow> Inl (OtherError ''TypeError''))"

definition truthy_str :: "string option \<Rightarrow> bool" where
  "truthy_str t \<longleftrightarrow> t \<noteq> None \<and> t \<noteq> Some []"

definition dict_update :: "(string \<times> json) list \<Rightarrow> (string \<times> json) list \<Rightarrow> (string \<times> json) list" where
  "dict_update d d' = fold (\<lambda>(k, v). AList.update k v) d' d"

text \<open>
  \<open>len\<close> of a string counts code points: every byte that is not a UTF-8 continuation byte.
\<close>

definition py_len :: "string \<Rightarrow> nat" where
  "py_len s = length (filter (\<lambda>c. let n = of_char c in \<not> (128 \<le> n \<and> n < (192::nat))) s)"

text \<open>\<open>s[:n]\<close> counts code points: a byte from 128 to 191 continues one.\<close>

fun py_take :: "nat \<Rightarrow> string \<Rightarrow> string" where
  "py_take n [] = []"
| "py_take n (c # cs) =
     (if 128 \<le> (of_char c :: nat) \<and> (of_char c :: nat) < 192 then c # py_take n cs
      else case n of 0 \<Rightarrow> [] | Suc m \<Rightarrow> c # py_take m cs)"

text \<open>
  \<open>int(x)\<close> and \<open>float(x)\<close> of a JSON value; of a string they read what \<open>Decimal\<close> reads in plain
  notation.
\<close>

definition parse_int :: "string \<Rightarrow> int result" where
  "parse_int s =
     (let t = strip s
      in case t of
           [] \<Rightarrow> Inl (ValueError ''int'')
         | c # cs \<Rightarrow>
             (case parse_nat (if c = CHR ''-'' \<or> c = CHR ''+'' then cs else t) of
                None \<Rightarrow> Inl (ValueError ''int'')
              | Some n \<Rightarrow> Inr (if c = CHR ''-'' then - int n else int n)))"

definition json_int :: "json \<Rightarrow> int result" where
  "json_int j = (case j of JNum n \<Rightarrow> Inr n | JBool b \<Rightarrow> Inr (if b then 1 else 0)
     | JFloat r \<Rightarrow> Inr (if r < 0 then \<lceil>r\<rceil> else \<lfloor>r\<rfloor>) | JStr s \<Rightarrow> parse_int s
     | _ \<Rightarrow> Inl (OtherError ''TypeError''))"

definition json_float :: "json \<Rightarrow> rat result" where
  "json_float j = (case j of JNum n \<Rightarrow> Inr (of_int n) | JBool b \<Rightarrow> Inr (if b then 1 else 0)
     | JFloat r \<Rightarrow> Inr r
     | JStr s \<Rightarrow> (case decimal_of_string (strip s) of Inl _ \<Rightarrow> Inl (ValueError ''float'') | Inr d \<Rightarrow> Inr (dec_value d))
     | _ \<Rightarrow> Inl (OtherError ''TypeError''))"

definition json_or :: "json \<Rightarrow> json \<Rightarrow> json" where
  "json_or a b = (if truthy a then a else b)"

text \<open>A truthy id: not null and not zero.\<close>

definition truthy_id :: "int option \<Rightarrow> bool" where
  "truthy_id x \<longleftrightarrow> x \<noteq> None \<and> x \<noteq> Some 0"

lemma json_get_obj [simp]:
  "json_get k (JObj kvs) = Inr (case map_of kvs k of None \<Rightarrow> JNull | Some v \<Rightarrow> v)"
  by (simp add: json_get_def)

lemma split_on_not_Nil [simp]: "split_on c s \<noteq> []"
  by (induction s) (auto split: list.split)

lemma length_upper [simp]: "length (upper s) = length s"
  by (simp add: upper_def)

lemma upper_Nil [simp]: "upper s = [] \<longleftrightarrow> s = []"
  by (simp add: upper_def)

lemma show_nat_inj [simp]: "show_nat a = show_nat b \<longleftrightarrow> a = b"
  by (metis option.inject parse_nat_show_nat)

subsection \<open>Numbers in texts\<close>

lemma digit_char_not:
  assumes "d < 10"
  shows "digit_char d \<noteq> CHR '':'' \<and> \<not> is_space (digit_char d) \<and> digit_char d \<noteq> CHR ''-'' \<and> digit_char d \<noteq> CHR ''+''"
proof -
  have "list_all (\<lambda>d. digit_char d \<noteq> CHR '':'' \<and> \<not> is_space (digit_char d) \<and> digit_char d \<noteq> CHR ''-'' \<and>
      digit_char d \<noteq> CHR ''+'') [0..<10]" by code_simp
  with assms show ?thesis by (simp add: list_all_iff)
qed

lemma show_nat_set:
  assumes "c \<in> set (show_nat n)"
  shows "c \<noteq> CHR '':'' \<and> \<not> is_space c \<and> c \<noteq> CHR ''-'' \<and> c \<noteq> CHR ''+''"
proof -
  from show_nat_chars [OF assms] obtain d where "d < 10" "c = digit_char d" by blast
  then show ?thesis using digit_char_not by simp
qed

lemma strip_none: "list_all (\<lambda>c. \<not> is_space c) t \<Longrightarrow> strip t = t"
proof -
  have d: "dropWhile is_space u = u" if "list_all (\<lambda>c. \<not> is_space c) u" for u
    using that by (cases u) auto
  assume "list_all (\<lambda>c. \<not> is_space c) t"
  then show ?thesis by (simp add: strip_def rstrip_by_def lstrip_by_def d list_all_iff)
qed

lemma parse_int_show_int: "parse_int (show_int n) = Inr n"
proof -
  have sp: "list_all (\<lambda>c. \<not> is_space c) (show_int n)"
    using show_nat_set by (auto simp: show_int_def list_all_iff is_space_def)
  have first: "c \<noteq> CHR ''-'' \<and> c \<noteq> CHR ''+''" if "show_nat k = c # cs" for k c cs
    using show_nat_set [of c k] that by simp
  show ?thesis
  proof (cases "n < 0")
    case True
    then show ?thesis using strip_none [OF sp] by (simp add: parse_int_def show_int_def)
  next
    case False
    obtain c cs where c: "show_nat (nat n) = c # cs" by (cases "show_nat (nat n)") simp_all
    have "parse_nat (c # cs) = Some (nat n)" by (simp flip: c)
    then show ?thesis using False strip_none [OF sp] first [OF c] by (simp add: parse_int_def show_int_def c)
  qed
qed

lemma parse_int_show_nat: "parse_int (show_nat n) = Inr (int n)"
  using parse_int_show_int [of "int n"] by (simp add: show_int_def)

lemma split_on_none: "c \<notin> set xs \<Longrightarrow> split_on c xs = [xs]"
  by (induction xs) auto

lemma split_on_first: "c \<notin> set xs \<Longrightarrow> split_on c (xs @ c # ys) = xs # split_on c ys"
  by (induction xs) auto

end
