(* ===== verification/Providers.thy ===== *)
theory Providers
  imports PyStr Sample_Shop
begin

text \<open>
  \<open>bot/providers/\<close>: the services that deliver goods of type API.  \<open>FakeProvider\<close> is modelled with
  its dictionaries, \<open>WizardProvider\<close> on the replies of its HTTP service (\<open>env_http\<close>); \<open>registry.py\<close>
  builds one of them from the provider row, \<open>links.py\<close> selects the link of a product,
  \<open>mapping.py\<close> reads the delivered value out of a reply, and \<open>fulfillment.py\<close> places the external
  order of an order.  A provider call returns the provider object it leaves, since the fake keeps
  its orders in it.
\<close>

subsection \<open>Data\<close>

record provider_product =
  pp_external_product_id :: string
  pp_title :: string
  pp_available :: bool

record provider_order_request =
  rq_external_product_id :: string
  rq_quantity :: int
  rq_idempotency_key :: string
  rq_request_params :: json
  rq_cost_cents :: int

record provider_order =
  po_external_order_id :: string
  po_status :: string
  po_delivery_value :: "string option"
  po_raw :: "(string \<times> json) list"

definition po_completed :: "provider_order \<Rightarrow> bool" where
  "po_completed p \<longleftrightarrow> upper (po_status p) \<in> {''COMPLETED'', ''SUCCESS'', ''DELIVERED'', ''PAID''}"

subsection \<open>\<open>fake.py\<close>\<close>

record fake_provider =
  fk_mode :: json
  fk_products :: "(string \<times> provider_product) list"
  fk_orders :: "(string \<times> provider_order) list"
  fk_idempotency :: "(string \<times> string) list"

definition fake_init :: "json \<Rightarrow> fake_provider" where
  "fake_init mode = \<lparr>fk_mode = mode, fk_products = [], fk_orders = [], fk_idempotency = []\<rparr>"

definition fake_seed_product :: "string \<Rightarrow> fake_provider \<Rightarrow> fake_provider" where
  "fake_seed_product k p = p\<lparr>fk_products := AList.update k
     \<lparr>pp_external_product_id = k, pp_title = ''Fake'', pp_available = True\<rparr> (fk_products p)\<rparr>"

definition fake_get_product :: "string \<Rightarrow> fake_provider \<Rightarrow> provider_product result \<times> fake_provider" where
  "fake_get_product k p =
     (case map_of (fk_products p) k of
        Some pp \<Rightarrow> (Inr pp, p)
      | None \<Rightarrow>
          if fk_mode p = JStr ''success''
          then (let p' = fake_seed_product k p
                in (case map_of (fk_products p') k of Some pp \<Rightarrow> Inr pp | None \<Rightarrow> Inl (OtherError ''KeyError''), p'))
          else (Inl (ProviderFatalError ''product_not_found''), p))"

definition fake_create_order ::
    "provider_order_request \<Rightarrow> fake_provider \<Rightarrow> provider_order result \<times> fake_provider" where
  "fake_create_order r p =
     (if fk_mode p = JStr ''timeout'' then (Inl (ProviderRetryableError ''timeout''), p)
      else if fk_mode p = JStr ''fatal'' then (Inl (ProviderFatalError ''out_of_stock''), p)
      else if fk_mode p = JStr ''unavailable_product'' then (Inl (ProviderFatalError ''product_unavailable''), p)
      else case map_of (fk_idempotency p) (rq_idempotency_key r) of
        Some existing \<Rightarrow>
          ((case map_of (fk_orders p) existing of Some x \<Rightarrow> Inr x | None \<Rightarrow> Inl (OtherError ''KeyError'')), p)
      | None \<Rightarrow>
          (let p1 = (if map_of (fk_products p) (rq_external_product_id r) = None \<and> fk_mode p = JStr ''success''
                     then fake_seed_product (rq_external_product_id r) p else p)
           in case map_of (fk_products p1) (rq_external_product_id r) of
                None \<Rightarrow> (Inl (ProviderFatalError ''out_of_stock''), p1)
              | Some product \<Rightarrow>
                 if \<not> pp_available product then (Inl (ProviderFatalError ''out_of_stock''), p1)
                 else (let external_id = ''fake-'' @ show_nat (length (fk_orders p1) + 1);
                           x = \<lparr>po_external_order_id = external_id, po_status = ''COMPLETED'',
                                po_delivery_value = Some (''KEY-'' @ rq_external_product_id r @ ''-'' @
                                  show_int (rq_quantity r)),
                                po_raw = [(''id'', JStr external_id), (''status'', JStr ''completed'')]\<rparr>
                       in (Inr x, p1\<lparr>fk_orders := AList.update external_id x (fk_orders p1),
                             fk_idempotency := AList.update (rq_idempotency_key r) external_id
                               (fk_idempotency p1)\<rparr>))))"

definition fake_get_order_status :: "string \<Rightarrow> fake_provider \<Rightarrow> provider_order result" where
  "fake_get_order_status k p =
     (case map_of (fk_orders p) k of None \<Rightarrow> Inl (ProviderFatalError ''order_not_found'') | Some x \<Rightarrow> Inr x)"

definition fake_cancel_order :: "string \<Rightarrow> fake_provider \<Rightarrow> fake_provider" where
  "fake_cancel_order k p =
     (case map_of (fk_orders p) k of
        None \<Rightarrow> p
      | Some x \<Rightarrow> p\<lparr>fk_orders := AList.update k
          (x\<lparr>po_status := ''CANCELED'',
             po_raw := AList.update ''status'' (JStr ''canceled'') (po_raw x)\<rparr>) (fk_orders p)\<rparr>)"

subsection \<open>\<open>wizard.py\<close>\<close>

record wizard_provider =
  wz_base_url :: string
  wz_api_key :: string

definition DEFAULT_BASE_URL :: string where
  "DEFAULT_BASE_URL = ''https://api.wizard-bot.com/v1''"

definition wizard_init :: "json \<Rightarrow> wizard_provider result" where
  "wizard_init config =
     tx_bind (json_get ''base_url'' config) (\<lambda>b.
     tx_bind (as_str (json_or b (JStr DEFAULT_BASE_URL))) (\<lambda>base.
     tx_bind (json_get ''api_key'' config) (\<lambda>k1.
     tx_bind (json_get ''api_secret'' config) (\<lambda>k2.
     tx_bind (as_str (json_or k1 (json_or k2 (JStr [])))) (\<lambda>key.
       Inr \<lparr>wz_base_url = rstrip_by (\<lambda>c. c = CHR ''/'') base, wz_api_key = strip key\<rparr>)))))"

definition wizard_unwrap_payload :: "(string \<times> json) list \<Rightarrow> (string \<times> json) list" where
  "wizard_unwrap_payload data =
     (case map_of data ''data'' of
        Some (JObj inner) \<Rightarrow> inner
      | Some (JArr (JObj inner # _)) \<Rightarrow> inner
      | _ \<Rightarrow> data)"

definition wizard_classify_http_error :: "env \<Rightarrow> int \<Rightarrow> (string \<times> json) list \<Rightarrow> exn" where
  "wizard_classify_http_error e status data =
     (if status \<in> {408, 429, 500, 502, 503, 504}
      then ProviderRetryableError (''wizard_http_'' @ show_int status)
      else if status = 402 then ProviderFatalError ''wizard_insufficient_balance''
      else (let detail = json_or (dict_get data ''detail'') (json_or (dict_get data ''error'') (dict_get data ''message''));
                msg = ''wizard_http_'' @ show_int status
            in ProviderFatalError (if truthy detail then msg @ '':'' @ py_str (env_repr e) detail else msg)))"

definition wizard_request ::
    "env \<Rightarrow> wizard_provider \<Rightarrow> string \<Rightarrow> string \<Rightarrow> json \<Rightarrow> (string \<times> json) list result" where
  "wizard_request e w http_method path body =
     (if wz_api_key w = [] then Inl (ProviderFatalError ''wizard_api_key_required'')
      else case env_http e http_method (wz_base_url w @ path) body of
        HttpTimeout \<Rightarrow> Inl (ProviderRetryableError ''timeout'')
      | HttpFailure m \<Rightarrow> Inl (ProviderRetryableError m)
      | HttpReply status txt \<Rightarrow>
          (let data = (case txt of EmptyBody \<Rightarrow> [] | RawBody t \<Rightarrow> [(''raw'', JStr t)]
                       | JsonBody (JObj kvs) \<Rightarrow> kvs | JsonBody j \<Rightarrow> [(''data'', j)])
           in if 400 \<le> status then Inl (wizard_classify_http_error e status data) else Inr data))"

definition wizard_category :: "string \<Rightarrow> string" where
  "wizard_category ext = lower (strip ext)"

definition wizard_get_product :: "string \<Rightarrow> provider_product result" where
  "wizard_get_product ext =
     (let cat = wizard_category ext
      in if cat \<notin> {''stars'', ''premium''} then Inl (ProviderFatalError (''wizard_invalid_category:'' @ ext))
         else Inr \<lparr>pp_external_product_id = cat,
                   pp_title = (if cat = ''stars'' then ''Telegram Stars'' else ''Telegram Premium''),
                   pp_available = True\<rparr>)"

definition wizard_delivery_from_order ::
    "env \<Rightarrow> (string \<times> json) list \<Rightarrow> string option \<Rightarrow> string option" where
  "wizard_delivery_from_order e data hint =
     (let status = lower (py_str (env_repr e) (json_or (dict_get data ''status'') (JStr [])))
      in if status \<noteq> ''success'' then None
         else (let cat = py_str (env_repr e) (json_or (dict_get data ''category'') (JStr ''stars''));
                   qty = py_str (env_repr e) (dict_get data ''quantity'');
                   recipient = (if truthy (dict_get data ''recipient'')
                                then py_str (env_repr e) (dict_get data ''recipient'')
                                else case hint of Some h \<Rightarrow> if h = [] then ''?'' else h | None \<Rightarrow> ''?'')
               in Some (cat @ '':'' @ qty @ [CHR 0xE2, CHR 0x86, CHR 0x92] @ ''@'' @ recipient)))"

definition wizard_order_from_response ::
    "env \<Rightarrow> (string \<times> json) list \<Rightarrow> string option \<Rightarrow> provider_order result" where
  "wizard_order_from_response e data hint =
     (if dict_get data ''id'' = JNull then Inl (ProviderFatalError ''wizard_invalid_order_response'')
      else Inr \<lparr>po_external_order_id = py_str (env_repr e) (dict_get data ''id''),
                po_status = lower (py_str (env_repr e) (json_or (dict_get data ''status'') (JStr ''unknown''))),
                po_delivery_value = wizard_delivery_from_order e data hint,
                po_raw = filter (\<lambda>(k, v). lower k \<notin> {''authorization'', ''api_key''}) data\<rparr>)"

definition wizard_create_order :: "env \<Rightarrow> wizard_provider \<Rightarrow> provider_order_request \<Rightarrow> provider_order result" where
  "wizard_create_order e w r =
     (let cat = wizard_category (rq_external_product_id r)
      in if cat \<notin> {''stars'', ''premium''} then Inl (ProviderFatalError ''wizard_invalid_category'')
         else
         tx_bind (json_get ''recipient'' (json_or (rq_request_params r) (JObj []))) (\<lambda>r1.
         tx_bind (json_get ''username'' (json_or (rq_request_params r) (JObj []))) (\<lambda>r2.
           if \<not> truthy (json_or r1 r2) then Inl (ProviderFatalError ''wizard_recipient_required'')
           else
            (let recipient = lstrip_by (\<lambda>c. c = CHR ''@'') (strip (py_str (env_repr e) (json_or r1 r2)));
                 quantity = rq_quantity r
             in if py_len recipient < 4 \<or> 32 < py_len recipient
                then Inl (ProviderFatalError ''wizard_invalid_recipient'')
                else if cat = ''premium'' \<and> quantity \<notin> {3, 6, 12}
                then Inl (ProviderFatalError ''wizard_premium_quantity'')
                else if cat = ''stars'' \<and> (quantity < 50 \<or> 1000000 < quantity)
                then Inl (ProviderFatalError ''wizard_stars_quantity'')
                else tx_bind (wizard_request e w ''POST'' ''/orders/create''
                       (JObj [(''recipient'', JStr recipient), (''quantity'', JNum quantity),
                              (''category'', JStr cat)]))
                       (\<lambda>data. wizard_order_from_response e (wizard_unwrap_payload data) (Some recipient))))))"

definition wizard_get_order_status :: "env \<Rightarrow> wizard_provider \<Rightarrow> string \<Rightarrow> provider_order result" where
  "wizard_get_order_status e w ext =
     tx_bind (wizard_request e w ''GET'' (''/orders/get/'' @ ext) JNull)
       (\<lambda>data. wizard_order_from_response e (wizard_unwrap_payload data) None)"

definition wizard_cancel_order :: "string \<Rightarrow> unit result" where
  "wizard_cancel_order ext = Inl (ProviderFatalError ''wizard_cancel_not_supported'')"

subsection \<open>\<open>registry.py\<close>\<close>

datatype provider_impl = FakeImpl fake_provider | WizardImpl wizard_provider

definition parse_provider_config :: "json option \<Rightarrow> json" where
  "parse_provider_config config_json = (case config_json of None \<Rightarrow> JObj [] | Some j \<Rightarrow> j)"

definition build_provider :: "string \<Rightarrow> json option \<Rightarrow> provider_impl result" where
  "build_provider code config_json =
     (let cfg = parse_provider_config config_json
      in if code = ''fake''
         then (case cfg of
                 JObj kvs \<Rightarrow> Inr (FakeImpl (fake_init
                   (case map_of kvs ''mode'' of None \<Rightarrow> JStr ''success'' | Some m \<Rightarrow> m)))
               | _ \<Rightarrow> Inl (OtherError ''AttributeError''))
         else if code = ''wizard'' then tx_bind (wizard_init cfg) (\<lambda>w. Inr (WizardImpl w))
         else Inl (ValueError (''unknown_fulfillment_provider:'' @ code)))"

definition impl_create_order :: "env \<Rightarrow> provider_impl \<Rightarrow> provider_order_request \<Rightarrow> provider_order result" where
  "impl_create_order e impl r =
     (case impl of FakeImpl p \<Rightarrow> fst (fake_create_order r p) | WizardImpl w \<Rightarrow> wizard_create_order e w r)"

definition impl_get_order_status :: "env \<Rightarrow> provider_impl \<Rightarrow> string \<Rightarrow> provider_order result" where
  "impl_get_order_status e impl ext =
     (case impl of FakeImpl p \<Rightarrow> fake_get_order_status ext p | WizardImpl w \<Rightarrow> wizard_get_order_status e w ext)"

definition impl_get_product :: "provider_impl \<Rightarrow> string \<Rightarrow> provider_product result" where
  "impl_get_product impl ext =
     (case impl of FakeImpl p \<Rightarrow> fst (fake_get_product ext p) | WizardImpl w \<Rightarrow> wizard_get_product ext)"

subsection \<open>\<open>mapping.py\<close>\<close>

fun walk_path :: "json \<Rightarrow> string list \<Rightarrow> json option result" where
  "walk_path cur [] = Inr (Some cur)"
| "walk_path cur (part # parts) =
     (case cur of
        JObj kvs \<Rightarrow> walk_path (dict_get kvs part) parts
      | JArr xs \<Rightarrow>
          if is_digits part
          then (case parse_nat part of
                  Some i \<Rightarrow> if i < length xs then walk_path (xs ! i) parts else Inl (OtherError ''IndexError'')
                | None \<Rightarrow> Inr None)
          else Inr None
      | _ \<Rightarrow> Inr None)"

definition extract_delivery_value :: "env \<Rightarrow> (string \<times> json) list \<Rightarrow> json \<Rightarrow> string option result" where
  "extract_delivery_value e data mapping =
     tx_bind (json_get ''path'' mapping) (\<lambda>p.
     tx_bind (as_str (json_or p (JStr ''delivery.value''))) (\<lambda>path.
     tx_bind (walk_path (JObj data) (split_on (CHR ''.'') path)) (\<lambda>found.
       Inr (case found of None \<Rightarrow> None | Some JNull \<Rightarrow> None | Some j \<Rightarrow> Some (py_str (env_repr e) j)))))"

subsection \<open>\<open>links.py\<close>\<close>

definition link_usable :: "shop \<Rightarrow> int \<Rightarrow> goods_provider_link \<Rightarrow> bool" where
  "link_usable s goods_id l \<longleftrightarrow>
     gpl_goods_id l = goods_id \<and> gpl_enabled l \<and>
     (case get_provider s (gpl_provider_id l) of None \<Rightarrow> False | Some p \<Rightarrow> fp_enabled p)"

text \<open>\<open>ORDER BY priority ASC, id ASC LIMIT 1\<close>: sorting by id first and then, stably, by priority.\<close>

definition select_primary_link :: "shop \<Rightarrow> int \<Rightarrow> goods_provider_link option" where
  "select_primary_link s goods_id =
     (case order_by_key gpl_priority (order_by_key gpl_id (filter (link_usable s goods_id) (t_links s))) of
        [] \<Rightarrow> None
      | l # _ \<Rightarrow> Some l)"

subsection \<open>\<open>fulfillment.py\<close>\<close>

definition load_config :: "fulfillment_provider \<Rightarrow> json result" where
  "load_config p = (case fp_config_json p of None \<Rightarrow> Inl (ValueError ''json'') | Some j \<Rightarrow> Inr j)"

definition merge_mapping :: "goods_provider_link \<Rightarrow> fulfillment_provider \<Rightarrow> json result" where
  "merge_mapping l p =
     (let link_map = (case gpl_result_mapping l of None \<Rightarrow> JObj [] | Some j \<Rightarrow> j)
      in if truthy link_map then Inr link_map
         else tx_bind (load_config p) (\<lambda>cfg.
              tx_bind (json_get ''result_mapping'' cfg) (\<lambda>m.
                Inr (json_or m (JObj [(''path'', JStr ''delivery.value'')])))))"

text \<open>
  The order object comes back with the provider's id, the cost and the delivered value.  The
  provider object is built anew in every call.
\<close>

definition note_external ::
    "order \<Rightarrow> goods_provider_link \<Rightarrow> fulfillment_provider \<Rightarrow> provider_order \<Rightarrow> order" where
  "note_external x l p r =
     (let x1 = x\<lparr>o_provider_id := Some (fp_id p), o_provider_external_order_id := Some (po_external_order_id r)\<rparr>
      in if gpl_cost_cents l \<noteq> 0 \<and> o_cost_cents x1 = 0 then x1\<lparr>o_cost_cents := gpl_cost_cents l\<rparr> else x1)"

definition store_delivery :: "string option \<Rightarrow> order \<Rightarrow> order" where
  "store_delivery delivery x = (if truthy_str delivery then x\<lparr>o_fulfillment_payload := delivery\<rparr> else x)"

definition create_external_order ::
    "env \<Rightarrow> order \<Rightarrow> goods_provider_link \<Rightarrow> fulfillment_provider \<Rightarrow> (provider_order \<times> order) result" where
  "create_external_order e x l p =
     (if truthy_str (o_provider_external_order_id x)
      then (if truthy_str (o_fulfillment_payload x)
            then Inr (\<lparr>po_external_order_id = the (o_provider_external_order_id x), po_status = ''COMPLETED'',
                       po_delivery_value = o_fulfillment_payload x, po_raw = []\<rparr>, x)
            else tx_bind (build_provider (fp_code p) (fp_config_json p)) (\<lambda>impl.
                 tx_bind (impl_get_order_status e impl (the (o_provider_external_order_id x))) (\<lambda>r. Inr (r, x))))
      else
       tx_bind (build_provider (fp_code p) (fp_config_json p)) (\<lambda>impl0.
       let params = (case gpl_request_params l of None \<Rightarrow> JObj [] | Some j \<Rightarrow> j)
       in tx_bind (merge_mapping l p) (\<lambda>mapping.
          tx_bind (load_config p) (\<lambda>cfg.
          tx_bind (if truthy mapping \<and> fp_code p = ''wizard''
                   then tx_bind (dict_set ''result_mapping'' mapping cfg)
                          (\<lambda>cfg'. build_provider (fp_code p) (Some cfg'))
                   else Inr impl0) (\<lambda>impl.
          tx_bind (impl_create_order e impl
             \<lparr>rq_external_product_id = gpl_external_product_id l, rq_quantity = o_quantity x,
              rq_idempotency_key = show_int (o_id x), rq_request_params = params,
              rq_cost_cents = gpl_cost_cents l\<rparr>) (\<lambda>r.
          tx_bind (if \<not> truthy_str (po_delivery_value r) \<and> po_raw r \<noteq> []
                   then extract_delivery_value e (po_raw r) mapping
                   else Inr (po_delivery_value r)) (\<lambda>delivery.
            Inr (r, store_delivery delivery (note_external x l p r)))))))))"

subsection \<open>\<open>admin_validate.py\<close>\<close>

definition validate_provider_link ::
    "env \<Rightarrow> goods_provider_link \<Rightarrow> fulfillment_provider \<Rightarrow> (bool \<times> string) result" where
  "validate_provider_link e l p =
     tx_bind (load_config p) (\<lambda>cfg.
       if fp_code p = ''fake''
       then tx_bind (build_provider (fp_code p) (fp_config_json p)) (\<lambda>impl.
            tx_bind (impl_get_product impl (gpl_external_product_id l)) (\<lambda>_. Inr (True, ''ok'')))
       else tx_bind (json_get ''skip_catalog_validation'' cfg) (\<lambda>skip.
         if truthy skip then Inr (True, ''catalog_validation_skipped'')
         else tx_bind (build_provider (fp_code p) (fp_config_json p)) (\<lambda>impl.
           case impl_get_product impl (gpl_external_product_id l) of
             Inl (ProviderFatalError m) \<Rightarrow> Inr (False, m)
           | Inl (ProviderRetryableError m) \<Rightarrow> Inr (False, m)
           | Inl _ \<Rightarrow> Inr (False, [])
           | Inr pp \<Rightarrow> if \<not> pp_available pp then Inr (False, ''product_not_available'') else Inr (True, ''ok''))))"

subsection \<open>Properties\<close>

theorem external_order_not_repeated:
  assumes "truthy_str (o_provider_external_order_id x)" "truthy_str (o_fulfillment_payload x)"
  shows "\<exists>r. \<forall>e. create_external_order e x l p = Inr (r, x) \<and> po_delivery_value r = o_fulfillment_payload x \<and>
    Some (po_external_order_id r) = o_provider_external_order_id x"
  using assms
  by (intro exI [of _ "\<lparr>po_external_order_id = the (o_provider_external_order_id x), po_status = ''COMPLETED'',
      po_delivery_value = o_fulfillment_payload x, po_raw = []\<rparr>"])
    (auto simp: create_external_order_def truthy_str_def)

lemma external_order_not_repeated_witness:
  "\<exists>r. \<forall>e. create_external_order e (sample_order 17 1 6 1000 PROCESSING\<lparr>o_provider_external_order_id := Some ''w1'',
       o_fulfillment_payload := Some ''code''\<rparr>) sample_link sample_provider =
     Inr (r, sample_order 17 1 6 1000 PROCESSING\<lparr>o_provider_external_order_id := Some ''w1'',
       o_fulfillment_payload := Some ''code''\<rparr>)"
  using external_order_not_repeated [of "sample_order 17 1 6 1000 PROCESSING\<lparr>o_provider_external_order_id := Some ''w1'',
       o_fulfillment_payload := Some ''code''\<rparr>" sample_link sample_provider]
  by (auto simp: truthy_str_def)

lemma hd_sorted_min:
  "sort_key f xs = y # ys \<Longrightarrow> x \<in> set xs \<Longrightarrow> f y \<le> f x"
  using sorted_sort_key [of f xs] set_sort [of f xs] by fastforce

theorem primary_link_minimal:
  "case select_primary_link s gid of
     None \<Rightarrow> \<forall>l \<in> set (t_links s). \<not> link_usable s gid l
   | Some l \<Rightarrow> l \<in> set (t_links s) \<and> link_usable s gid l \<and>
       (\<forall>l' \<in> set (t_links s). link_usable s gid l' \<longrightarrow>
          gpl_priority l < gpl_priority l' \<or> gpl_priority l = gpl_priority l' \<and> gpl_id l \<le> gpl_id l')"
proof -
  let ?us = "filter (link_usable s gid) (t_links s)"
  let ?ids = "sort_key gpl_id ?us"
  show ?thesis
  proof (cases "sort_key gpl_priority ?ids")
    case Nil
    then have "?us = []" by (metis length_0_conv length_sort)
    with Nil show ?thesis by (simp add: select_primary_link_def order_by_key_def filter_empty_conv)
  next
    case (Cons l ls)
    have l: "l \<in> set ?us" using Cons by (metis list.set_intros(1) set_sort)
    have "gpl_priority l < gpl_priority l' \<or> gpl_priority l = gpl_priority l' \<and> gpl_id l \<le> gpl_id l'"
      if l': "l' \<in> set ?us" for l'
    proof -
      have le: "gpl_priority l \<le> gpl_priority l'"
        using hd_sorted_min [OF Cons, of l'] l' by simp
      have "gpl_id l \<le> gpl_id l'" if eq: "gpl_priority l = gpl_priority l'"
      proof -
        let ?same = "\<lambda>k. gpl_priority k = gpl_priority l"
        have "filter ?same (sort_key gpl_priority ?ids) = filter ?same ?ids"
          by (simp add: sort_key_stable)
        then have "filter ?same ?ids = l # filter ?same ls" using Cons by simp
        moreover have "sorted (map gpl_id (filter ?same ?ids))"
          by (rule sorted_filter) (simp add: sorted_sort_key)
        moreover have "l' \<in> set (filter ?same ?ids)" using l' eq by simp
        ultimately show ?thesis by auto
      qed
      with le show ?thesis by auto
    qed
    with l Cons show ?thesis by (simp add: select_primary_link_def order_by_key_def)
  qed
qed

lemma primary_link_minimal_witness:
  "select_primary_link sample_shop 6 = Some sample_link \<and> link_usable sample_shop 6 sample_link"
proof -
  have "select_primary_link sample_shop 6 = Some sample_link" by code_simp
  with primary_link_minimal [of sample_shop 6] show ?thesis by simp
qed

text \<open>
  The contract of a provider whose \<open>create_order\<close> honours the idempotency key: an accepted order is
  remembered under its key, stays remembered, and is answered again instead of being placed again.
\<close>

locale idempotent_provider =
  fixes create :: "'r \<Rightarrow> 'p \<Rightarrow> 'o result \<times> 'p"
    and placed :: "'p \<Rightarrow> 'k \<Rightarrow> 'o option"
    and key :: "'r \<Rightarrow> 'k"
    and ok :: "'p \<Rightarrow> bool"
  assumes create_ok: "ok p \<Longrightarrow> ok (snd (create r p))"
    and create_places: "ok p \<Longrightarrow> fst (create r p) = Inr x \<Longrightarrow> placed (snd (create r p)) (key r) = Some x"
    and placed_kept: "ok p \<Longrightarrow> placed p k = Some x \<Longrightarrow> placed (snd (create r p)) k = Some x"
    and create_placed: "ok p \<Longrightarrow> placed p (key r) = Some x \<Longrightarrow> create r p = (Inr x, p)"
begin

lemma placed_kept_all:
  "ok p \<Longrightarrow> placed p k = Some x \<Longrightarrow>
     ok (fold (\<lambda>r p. snd (create r p)) rs p) \<and> placed (fold (\<lambda>r p. snd (create r p)) rs p) k = Some x"
  by (induction rs arbitrary: p) (simp_all add: create_ok placed_kept)

lemma retry_returns_same:
  assumes "ok p" "create r p = (Inr x, p1)" "p2 = fold (\<lambda>r p. snd (create r p)) rs p1"
  shows "create r p2 = (Inr x, p2)"
proof -
  have "ok p1" "placed p1 (key r) = Some x"
    using create_ok [OF assms(1), of r] create_places [OF assms(1), of r x] assms(2) by auto
  then show ?thesis using placed_kept_all create_placed assms(3) by blast
qed

end

definition fake_id :: "nat \<Rightarrow> string" where
  "fake_id n = ''fake-'' @ show_nat n"

definition fake_placed :: "fake_provider \<Rightarrow> string \<Rightarrow> provider_order option" where
  "fake_placed p k = (case map_of (fk_idempotency p) k of None \<Rightarrow> None | Some i \<Rightarrow> map_of (fk_orders p) i)"

text \<open>The invariant of the fake: its order ids are \<open>fake-1\<close>, \<open>fake-2\<close>, ..., and every key leads to one.\<close>

definition fake_ok :: "fake_provider \<Rightarrow> bool" where
  "fake_ok p \<longleftrightarrow> fk_mode p \<notin> {JStr ''timeout'', JStr ''fatal'', JStr ''unavailable_product''} \<and>
     map fst (fk_orders p) = map fake_id [1..<Suc (length (fk_orders p))] \<and>
     (\<forall>i \<in> ran (map_of (fk_idempotency p)). map_of (fk_orders p) i \<noteq> None)"

lemma update_fresh: "k \<notin> fst ` set al \<Longrightarrow> AList.update k v al = al @ [(k, v)]"
  by (induction al) auto

lemma fake_id_fresh:
  assumes "map fst os = map fake_id [1..<Suc (length os)]"
  shows "fake_id (Suc (length os)) \<notin> fst ` set os"
proof
  assume "fake_id (Suc (length os)) \<in> fst ` set os"
  then have "fake_id (Suc (length os)) \<in> fake_id ` set [1..<Suc (length os)]"
    using assms by (metis list.set_map)
  then show False by (auto simp: fake_id_def)
qed

lemma fake_create_cases:
  assumes "fake_ok p"
  obtains (again) x where "fake_placed p (rq_idempotency_key r) = Some x" "fake_create_order r p = (Inr x, p)"
  | (refused) p' c where "fake_placed p (rq_idempotency_key r) = None" "fake_create_order r p = (Inl c, p')"
      "fk_orders p' = fk_orders p" "fk_idempotency p' = fk_idempotency p" "fk_mode p' = fk_mode p"
  | (new) p' x where "fake_placed p (rq_idempotency_key r) = None" "fake_create_order r p = (Inr x, p')"
      "fk_orders p' = AList.update (fake_id (Suc (length (fk_orders p)))) x (fk_orders p)"
      "fk_idempotency p' = AList.update (rq_idempotency_key r) (fake_id (Suc (length (fk_orders p)))) (fk_idempotency p)"
      "fk_mode p' = fk_mode p"
proof (cases "map_of (fk_idempotency p) (rq_idempotency_key r)")
  case (Some i)
  then have "i \<in> ran (map_of (fk_idempotency p))" by (auto simp: ran_def)
  with assms obtain x where "map_of (fk_orders p) i = Some x" by (auto simp: fake_ok_def)
  with Some assms show ?thesis
    by (intro again [of x]) (auto simp: fake_placed_def fake_create_order_def fake_ok_def)
next
  case None
  let ?p1 = "if map_of (fk_products p) (rq_external_product_id r) = None \<and> fk_mode p = JStr ''success''
      then fake_seed_product (rq_external_product_id r) p else p"
  have p1: "fk_orders ?p1 = fk_orders p" "fk_idempotency ?p1 = fk_idempotency p" "fk_mode ?p1 = fk_mode p"
    by (simp_all add: fake_seed_product_def)
  have none: "fake_placed p (rq_idempotency_key r) = None" using None by (simp add: fake_placed_def)
  have mode: "fk_mode p \<noteq> JStr ''timeout''" "fk_mode p \<noteq> JStr ''fatal''" "fk_mode p \<noteq> JStr ''unavailable_product''"
    using assms by (auto simp: fake_ok_def)
  show ?thesis
  proof (cases "map_of (fk_products ?p1) (rq_external_product_id r)")
    case None
    then have "fake_create_order r p = (Inl (ProviderFatalError ''out_of_stock''), ?p1)"
      unfolding fake_create_order_def Let_def using mode \<open>map_of (fk_idempotency p) (rq_idempotency_key r) = None\<close>
      by simp
    with none p1 show ?thesis by (intro refused)
  next
    case (Some product)
    show ?thesis
    proof (cases "pp_available product")
      case False
      then have "fake_create_order r p = (Inl (ProviderFatalError ''out_of_stock''), ?p1)"
        unfolding fake_create_order_def Let_def using mode None Some by simp
      with none p1 show ?thesis by (intro refused)
    next
      case True
      let ?id = "fake_id (Suc (length (fk_orders p)))"
      let ?x = "\<lparr>po_external_order_id = ?id, po_status = ''COMPLETED'',
          po_delivery_value = Some (''KEY-'' @ rq_external_product_id r @ ''-'' @ show_int (rq_quantity r)),
          po_raw = [(''id'', JStr ?id), (''status'', JStr ''completed'')]\<rparr>"
      have eq: "fake_create_order r p = (Inr ?x, ?p1\<lparr>fk_orders := AList.update ?id ?x (fk_orders p),
          fk_idempotency := AList.update (rq_idempotency_key r) ?id (fk_idempotency p)\<rparr>)"
        unfolding fake_create_order_def Let_def p1 using mode None Some True
        by (simp add: fake_id_def fake_seed_product_def)
      show ?thesis by (rule new [OF none eq]) (simp_all add: fake_seed_product_def)
    qed
  qed
qed

interpretation fake: idempotent_provider fake_create_order fake_placed rq_idempotency_key fake_ok
proof
  fix p r and x :: provider_order and k
  assume ok: "fake_ok p"
  have ids: "map fst (fk_orders p) = map fake_id [1..<Suc (length (fk_orders p))]"
    using ok by (simp add: fake_ok_def)
  note fresh = fake_id_fresh [OF ids]
  show "fake_ok (snd (fake_create_order r p))"
    using ok
  proof (cases rule: fake_create_cases [of p r])
    case (new p' x)
    have "map_of (fk_orders p') i \<noteq> None" if "i \<in> ran (map_of (fk_idempotency p'))" for i
      using that ok by (auto simp: new update_conv' ran_def fake_ok_def split: if_splits)
    moreover have "map fst (fk_orders p') = map fake_id [1..<Suc (length (fk_orders p'))]"
      using ids by (simp add: new(3) update_fresh [OF fresh])
    ultimately show ?thesis using new ok by (simp add: fake_ok_def)
  qed (use ok in \<open>auto simp: fake_ok_def\<close>)
  show "fake_placed (snd (fake_create_order r p)) (rq_idempotency_key r) = Some x"
    if "fst (fake_create_order r p) = Inr x"
    using ok
    by (cases rule: fake_create_cases [of p r]) (use that in \<open>auto simp: fake_placed_def update_conv'\<close>)
  show "fake_placed (snd (fake_create_order r p)) k = Some x" if pl: "fake_placed p k = Some x"
    using ok
  proof (cases rule: fake_create_cases [of p r])
    case (new p' y)
    obtain i where i: "map_of (fk_idempotency p) k = Some i" "map_of (fk_orders p) i = Some x"
      using pl by (auto simp: fake_placed_def split: option.splits)
    have "k \<noteq> rq_idempotency_key r" using pl new(1) by auto
    moreover have "i \<noteq> fake_id (Suc (length (fk_orders p)))"
      using i(2) fresh by (metis fst_conv image_eqI map_of_SomeD)
    ultimately show ?thesis using i by (simp add: fake_placed_def new update_conv')
  qed (use pl in \<open>auto simp: fake_placed_def cong: option.case_cong\<close>)
  show "fake_create_order r p = (Inr x, p)" if "fake_placed p (rq_idempotency_key r) = Some x"
    using ok by (cases rule: fake_create_cases [of p r]) (use that in auto)
qed

theorem fake_order_placed_once:
  assumes "fake_ok p" "fake_create_order r p = (Inr x, p1)"
  shows "fake_create_order r (fold (\<lambda>r p. snd (fake_create_order r p)) rs p1) =
    (Inr x, fold (\<lambda>r p. snd (fake_create_order r p)) rs p1)"
  by (rule fake.retry_returns_same [OF assms refl])

definition sample_request :: "string \<Rightarrow> provider_order_request" where
  "sample_request k = \<lparr>rq_external_product_id = ''p'', rq_quantity = 1, rq_idempotency_key = k,
     rq_request_params = JObj [], rq_cost_cents = 0\<rparr>"

lemma fake_order_placed_once_witness:
  "\<exists>x p1. fake_create_order (sample_request ''17'') (fake_init (JStr ''success'')) = (Inr x, p1) \<and>
    fake_create_order (sample_request ''17'') (fold (\<lambda>r p. snd (fake_create_order r p)) [sample_request ''18''] p1) =
      (Inr x, fold (\<lambda>r p. snd (fake_create_order r p)) [sample_request ''18''] p1)"
proof -
  have ok: "fake_ok (fake_init (JStr ''success''))" by (simp add: fake_ok_def fake_init_def)
  have "map_sum id po_external_order_id (fst (fake_create_order (sample_request ''17'') (fake_init (JStr ''success'')))) =
      Inr ''fake-1''" by code_simp
  then obtain x p1 where r: "fake_create_order (sample_request ''17'') (fake_init (JStr ''success'')) = (Inr x, p1)"
    by (cases "fake_create_order (sample_request ''17'') (fake_init (JStr ''success''))";
        cases "fst (fake_create_order (sample_request ''17'') (fake_init (JStr ''success'')))") auto
  from fake_order_placed_once [OF ok r, of "[sample_request ''18'']"] r show ?thesis by blast
qed

end
