(* ===== verification/Fulfillment.thy ===== *)
theory Fulfillment
  imports Orders Providers
begin

text \<open>
  \<open>bot/misc/services/fulfillment.py\<close> and \<open>fulfillment_worker.py\<close>: paying for an order, delivering
  it from stock or through a provider, refunding it, and the polling worker.
\<close>

subsection \<open>Delivery\<close>

definition max_fulfillment_retries :: "goods_provider_link \<Rightarrow> fulfillment_provider \<Rightarrow> int" where
  "max_fulfillment_retries l p =
     (case gpl_retry_count l of
        Some n \<Rightarrow> max 1 n
      | None \<Rightarrow> max 1 (if fp_default_retry_count p = 0 then 3 else fp_default_retry_count p))"

definition delivery_recipient_telegram_id :: "order \<Rightarrow> int" where
  "delivery_recipient_telegram_id x = (case o_gift_telegram_id x of Some g \<Rightarrow> g | None \<Rightarrow> o_user_id x)"

definition resolve_delivery_type :: "goods \<Rightarrow> int option \<Rightarrow> delivery_type" where
  "resolve_delivery_type g gift =
     (if gift \<noteq> None then DeliverGift
      else if g_fulfillment_type g = FulfillApi then DeliverApi else DeliverStock)"

text \<open>
  One \<open>BoughtGoods\<close> row per delivered value; the value is NOT NULL and the \<open>unique_id\<close> unique.
  \<open>insert_bought\<close> is the loop \<open>_record_bought_units\<close> shares with the cart checkout.
\<close>

fun insert_bought ::
    "env \<Rightarrow> string \<Rightarrow> int \<Rightarrow> int option \<Rightarrow> (string option \<times> int) list \<Rightarrow> shop
     \<Rightarrow> (bought_goods list \<times> shop) result" where
  "insert_bought e name buyer oid [] s = Inr ([], s)"
| "insert_bought e name buyer oid ((v, unit_price) # rest) s =
     (case v of None \<Rightarrow> Inl (IntegrityError ''value'')
      | Some val \<Rightarrow>
         (let row = \<lparr>bg_id = next_id s, bg_item_name = name, bg_value = val, bg_price = unit_price,
                bg_buyer_id = Some buyer, bg_datetime = env_now e,
                bg_unique_id = fresh_unique_id e (next_id s), bg_order_id = oid\<rparr>
          in if bg_unique_id row \<in> set (map bg_unique_id (t_bought s)) then Inl (IntegrityError ''unique_id'')
             else tx_bind (insert_bought e name buyer oid rest
                     (s\<lparr>t_bought := t_bought s @ [row], t_seq := next_id s\<rparr>))
                   (\<lambda>(rows, s'). Inr (row # rows, s'))))"

definition record_bought_units ::
    "env \<Rightarrow> order \<Rightarrow> goods \<Rightarrow> (string option \<times> int) list \<Rightarrow> shop \<Rightarrow> (bought_goods list \<times> shop) result" where
  "record_bought_units e x g vps s =
     insert_bought e (g_name g) (delivery_recipient_telegram_id x) (Some (o_id x)) vps s"

definition credit_refund :: "env \<Rightarrow> order \<Rightarrow> shop \<Rightarrow> (unit \<times> shop) result" where
  "credit_refund e x s =
     (case get_user s (o_user_id x) of
        None \<Rightarrow> Inl NoResultFound
      | Some u \<Rightarrow> Inr ((), add_operation (o_user_id x) (o_total_cents x) (env_now e)
           (put_user (u\<lparr>u_balance := u_balance u + o_total_cents x\<rparr>) s)))"

definition refund_failed_order :: "env \<Rightarrow> order \<Rightarrow> int option \<Rightarrow> shop \<Rightarrow> (order \<times> shop) result" where
  "refund_failed_order e x actor_id s =
     (if o_status x = REFUNDED then Inr (x, s)
      else if o_status x \<noteq> FAILED
      then Inl (OrderTransitionError (''refund_not_allowed:'' @ status_text (o_status x)))
      else tx_bind (credit_refund e x s) (\<lambda>(_, s1). transition_order e x REFUNDED actor_id s1))"

definition bought_of_order :: "shop \<Rightarrow> int \<Rightarrow> bought_goods list" where
  "bought_of_order s oid = filter (\<lambda>b. bg_order_id b = Some oid) (t_bought s)"

definition complete_stock_order ::
    "env \<Rightarrow> order \<Rightarrow> goods \<Rightarrow> string option list \<Rightarrow> shop \<Rightarrow> ((bought_goods list \<times> order) \<times> shop) result" where
  "complete_stock_order e x g delivered_values s =
     (if o_status x = COMPLETED then Inr ((bought_of_order s (o_id x), x), s)
      else if o_status x \<noteq> PROCESSING then Inl (FulfillmentError (''invalid_status:'' @ status_text (o_status x)))
      else (let unit_prices = split_amount (o_total_cents x) (int (length delivered_values))
            in tx_bind (record_bought_units e x g (zip delivered_values unit_prices) s) (\<lambda>(rows, s1).
               tx_bind (transition_order e x COMPLETED (Some (o_user_id x)) s1) (\<lambda>(y, s2).
                 Inr ((rows, y), s2)))))"

datatype tick_status = TickNoop | TickCompleted | TickPending | TickRefunded | TickRetry

text \<open>\<open>transition_order(FAILED)\<close> followed by \<open>refund_failed_order\<close>, as every failing branch does.\<close>

definition fail_and_refund :: "env \<Rightarrow> order \<Rightarrow> shop \<Rightarrow> (order \<times> shop) result" where
  "fail_and_refund e x s =
     tx_bind (transition_order e x FAILED (Some (o_user_id x)) s)
       (\<lambda>(y, s1). refund_failed_order e y (Some (o_user_id y)) s1)"

definition link_for_order ::
    "shop \<Rightarrow> order \<Rightarrow> goods \<Rightarrow> goods_provider_link option \<Rightarrow> goods_provider_link option" where
  "link_for_order s x g link =
     (case link of Some l \<Rightarrow> Some l
      | None \<Rightarrow>
         (case (if truthy_id (o_provider_id x)
                then List.find (\<lambda>l. gpl_goods_id l = g_id g \<and> Some (gpl_provider_id l) = o_provider_id x) (t_links s)
                else None) of
            Some l \<Rightarrow> Some l
          | None \<Rightarrow> select_primary_link s (g_id g)))"

definition deliver_external ::
    "env \<Rightarrow> order \<Rightarrow> goods \<Rightarrow> provider_order \<Rightarrow> shop \<Rightarrow> (tick_status \<times> shop) result" where
  "deliver_external e x g r s =
     (let delivery = (if truthy_str (po_delivery_value r) then po_delivery_value r else o_fulfillment_payload x)
      in if \<not> truthy_str delivery then Inr (TickPending, put_order x s)
         else (let unit_prices = split_amount (o_total_cents x) (o_quantity x);
                   vals = (if 1 < o_quantity x then replicate (nat (o_quantity x)) delivery else [delivery])
               in tx_bind (record_bought_units e x g (zip vals unit_prices) s) (\<lambda>(_, s1).
                  tx_bind (transition_order e x COMPLETED (Some (o_user_id x)) s1) (\<lambda>(_, s2).
                    Inr (TickCompleted, s2)))))"

definition fulfill_processing_order ::
    "env \<Rightarrow> int \<Rightarrow> goods_provider_link option \<Rightarrow> shop \<Rightarrow> (tick_status \<times> shop) result" where
  "fulfill_processing_order e order_id link s =
     (case get_order s order_id of
        None \<Rightarrow> Inl (FulfillmentError ''order_not_found'')
      | Some x \<Rightarrow>
          if o_status x \<noteq> PROCESSING then Inr (TickNoop, s)
          else if bought_of_order s (o_id x) \<noteq> []
          then tx_bind (transition_order e x COMPLETED (Some (o_user_id x)) s) (\<lambda>(_, s1). Inr (TickNoop, s1))
          else if o_delivery_type x = DeliverStock then Inl (FulfillmentError ''stock_not_in_worker'')
          else case get_goods s (o_goods_id x) of
            None \<Rightarrow> Inl (OtherError ''AttributeError'')
          | Some g \<Rightarrow>
             (case link_for_order s x g link of
                None \<Rightarrow> tx_bind (fail_and_refund e x s) (\<lambda>(_, s1). Inr (TickRefunded, s1))
              | Some l \<Rightarrow>
                 (case get_provider s (gpl_provider_id l) of
                    None \<Rightarrow> Inl (OtherError ''AttributeError'')
                  | Some p \<Rightarrow>
                     (case create_external_order e x l p of
                        Inl (ProviderRetryableError _) \<Rightarrow>
                          (let x1 = x\<lparr>o_fulfillment_attempt_count := o_fulfillment_attempt_count x + 1\<rparr>
                           in if max_fulfillment_retries l p \<le> o_fulfillment_attempt_count x1
                              then tx_bind (fail_and_refund e x1 s) (\<lambda>(_, s1). Inr (TickRefunded, s1))
                              else Inr (TickRetry, put_order x1 s))
                      | Inl (ProviderFatalError _) \<Rightarrow>
                          tx_bind (fail_and_refund e x s) (\<lambda>(_, s1). Inr (TickRefunded, s1))
                      | Inl err \<Rightarrow> Inl err
                      | Inr (r, x1) \<Rightarrow> deliver_external e x1 g r s))))"

definition fulfill_processing_order_by_id :: "env \<Rightarrow> int \<Rightarrow> shop \<Rightarrow> (tick_status \<times> shop) result" where
  "fulfill_processing_order_by_id e order_id = run_session (fulfill_processing_order e order_id None)"

subsection \<open>Paying\<close>

definition begin_paid_order ::
    "env \<Rightarrow> user \<Rightarrow> goods \<Rightarrow> int \<Rightarrow> int \<Rightarrow> int \<Rightarrow> int option \<Rightarrow> int \<Rightarrow> shop \<Rightarrow> (order \<times> shop) result" where
  "begin_paid_order e u g quantity unit_price_cents discount_cents gift cost_cents s =
     (let line_total = unit_price_cents * quantity;
          total_cents = max 0 (line_total - discount_cents)
      in if u_balance u < total_cents then Inl (FulfillmentError ''insufficient_funds'')
         else tx_bind (assert_gift_purchase_allowed g gift) (\<lambda>_.
              tx_bind (create_order_with_snapshot e (u_id u) (g_id g) quantity (dec_div_100 unit_price_cents)
                         discount_cents cost_cents 0 0 (resolve_delivery_type g gift) None None None gift s)
                (\<lambda>(x, s1). transition_order e x PROCESSING (Some (u_id u))
                    (put_user (u\<lparr>u_balance := u_balance u - total_cents\<rparr>) s1))))"

definition purchase_stock_line ::
    "env \<Rightarrow> order \<Rightarrow> goods \<Rightarrow> int \<Rightarrow> string option list option \<Rightarrow> shop
     \<Rightarrow> ((bought_goods list \<times> order) \<times> shop) result" where
  "purchase_stock_line e x g quantity delivered_values s =
     (case delivered_values of
        Some (v # vs) \<Rightarrow> complete_stock_order e x g (v # vs) s
      | _ \<Rightarrow> tx_bind (consume_stock_units g quantity s) (\<lambda>(vs, s1). complete_stock_order e x g vs s1))"

definition purchase_api_line :: "order \<Rightarrow> goods \<Rightarrow> shop \<Rightarrow> (order \<times> shop) result" where
  "purchase_api_line x g s =
     (case select_primary_link s (g_id g) of
        None \<Rightarrow> Inl (FulfillmentError ''no_provider_link'')
      | Some l \<Rightarrow>
         (let x1 = x\<lparr>o_provider_id := Some (gpl_provider_id l)\<rparr>;
              x2 = (if gpl_cost_cents l \<noteq> 0 then x1\<lparr>o_cost_cents := gpl_cost_cents l\<rparr> else x1)
          in Inr (x2, put_order x2 s)))"

record discount_info =
  di_code :: string
  di_original_price :: rat
  di_discount :: rat

record purchase_data =
  pd_item_name :: string
  pd_value :: "string option"
  pd_price :: rat
  pd_new_balance :: rat
  pd_order_id :: int
  pd_order_status :: order_status
  pd_unique_id :: "int option"
  pd_bought_id :: "int option"
  pd_discount :: "discount_info option"

definition purchase_result_from_order ::
    "order \<Rightarrow> goods \<Rightarrow> bought_goods list \<Rightarrow> int \<Rightarrow> discount_info option \<Rightarrow> purchase_data" where
  "purchase_result_from_order x g bought_rows user_balance_cents discount =
     (let primary = (case bought_rows of [] \<Rightarrow> None | b # _ \<Rightarrow> Some b)
      in \<lparr>pd_item_name = g_name g, pd_value = map_option bg_value primary,
          pd_price = cents_to_float_rub (o_total_cents x),
          pd_new_balance = cents_to_float_rub user_balance_cents, pd_order_id = o_id x,
          pd_order_status = o_status x, pd_unique_id = map_option bg_unique_id primary,
          pd_bought_id = map_option bg_id primary, pd_discount = discount\<rparr>)"

subsection \<open>The worker\<close>

definition hung_orders :: "env \<Rightarrow> shop \<Rightarrow> order list" where
  "hung_orders e s =
     (let cutoff = env_now e - env_hung_seconds e
      in take (env_batch_size e) (filter (\<lambda>x. o_status x = PROCESSING \<and> o_delivery_type x = DeliverApi \<and>
           (case o_processing_started_at x of None \<Rightarrow> False | Some t \<Rightarrow> t < cutoff)) (t_orders s)))"

definition fail_hung_processing :: "env \<Rightarrow> shop \<Rightarrow> (unit \<times> shop) result" where
  "fail_hung_processing e =
     run_session (\<lambda>s. tx_bind (fold_tx (\<lambda>x s. tx_bind (fail_and_refund e x s) (\<lambda>(_, s1). Inr s1)) (hung_orders e s) s)
       (\<lambda>s1. Inr ((), s1)))"

text \<open>
  \<open>notify_order_delivery\<close>: \<open>deliver\<close> is the Telegram call, with its recipient and value; it
  answers whether the message went out.  The result pairs the return value with the messages sent.
\<close>

definition notify_order_delivery ::
    "(int \<Rightarrow> string \<Rightarrow> bool) \<Rightarrow> env \<Rightarrow> int \<Rightarrow> shop \<Rightarrow> ((bool \<times> (int \<times> string) list) \<times> shop) result" where
  "notify_order_delivery deliver e order_id s =
     (case get_order s order_id of
        None \<Rightarrow> Inr ((False, []), s)
      | Some x \<Rightarrow>
          if o_status x \<noteq> COMPLETED then Inr ((False, []), s)
          else if o_delivery_notified_at x \<noteq> None then Inr ((False, []), s)
          else (case bought_of_order s (o_id x) of
             [] \<Rightarrow> Inr ((False, []), s)
           | bg # _ \<Rightarrow>
              (let recipient = (if truthy_id (o_gift_telegram_id x) then the (o_gift_telegram_id x) else o_user_id x)
               in case get_user s (o_user_id x) of
                 None \<Rightarrow> Inl NoResultFound
               | Some u \<Rightarrow>
                   if \<not> deliver recipient (bg_value bg) then Inr ((False, []), s)
                   else tx_bind (run_session (\<lambda>s. Inr ((), put_order (x\<lparr>o_delivery_notified_at := Some (env_now e)\<rparr>) s)) s)
                          (\<lambda>(_, s1). Inr ((True, [(recipient, bg_value bg)]), s1)))))"

text \<open>
  One pass of the worker.  An exception ends the pass: the sessions committed before it stay, the
  remaining ids wait for the next pass.
\<close>

fun tick_orders ::
    "(int \<Rightarrow> string \<Rightarrow> bool) \<Rightarrow> env \<Rightarrow> int list \<Rightarrow> shop \<Rightarrow> (exn option \<times> (int \<times> string) list) \<times> shop" where
  "tick_orders deliver e [] s = ((None, []), s)"
| "tick_orders deliver e (oid # oids) s =
     (case fulfill_processing_order_by_id e oid s of
        Inl err \<Rightarrow> ((Some err, []), s)
      | Inr (status, s1) \<Rightarrow>
          if status \<noteq> TickCompleted then tick_orders deliver e oids s1
          else (case notify_order_delivery deliver e oid s1 of
                  Inl err \<Rightarrow> ((Some err, []), s1)
                | Inr ((_, sent), s2) \<Rightarrow>
                    (let ((err, more), s3) = tick_orders deliver e oids s2 in ((err, sent @ more), s3))))"

definition worker_tick ::
    "(int \<Rightarrow> string \<Rightarrow> bool) \<Rightarrow> env \<Rightarrow> shop \<Rightarrow> (exn option \<times> (int \<times> string) list) \<times> shop" where
  "worker_tick deliver e s =
     (case run_session (expire_due_created_orders e (env_expire_batch e)) s of
        Inl err \<Rightarrow> ((Some err, []), s)
      | Inr (_, s1) \<Rightarrow>
         (case fail_hung_processing e s1 of
            Inl err \<Rightarrow> ((Some err, []), s1)
          | Inr (_, s2) \<Rightarrow> tick_orders deliver e (list_processing_api_order_ids (env_batch_size e) s2) s2))"

subsection \<open>What the steps leave\<close>

lemma insert_bought_Inr:
  assumes "insert_bought e name buyer oid vps s = Inr (rows, s')"
  shows "s' = s\<lparr>t_bought := t_bought s @ rows, t_seq := t_seq s + int (length vps)\<rparr>"
    and "map bg_price rows = map snd vps" and "map (\<lambda>b. Some (bg_value b)) rows = map fst vps"
    and "\<forall>b \<in> set rows. bg_order_id b = oid \<and> bg_item_name b = name \<and> bg_buyer_id b = Some buyer"
proof -
  have "s' = s\<lparr>t_bought := t_bought s @ rows, t_seq := t_seq s + int (length vps)\<rparr> \<and>
      map bg_price rows = map snd vps \<and> map (\<lambda>b. Some (bg_value b)) rows = map fst vps \<and>
      (\<forall>b \<in> set rows. bg_order_id b = oid \<and> bg_item_name b = name \<and> bg_buyer_id b = Some buyer)"
    using assms
  proof (induction vps arbitrary: s rows)
    case Nil
    then show ?case by auto
  next
    case (Cons vp vps)
    obtain v p where vp: "vp = (v, p)" by fastforce
    from Cons.prems obtain val rows' where v: "v = Some val"
      and step: "insert_bought e name buyer oid vps (s\<lparr>t_bought := t_bought s @ [hd rows], t_seq := next_id s\<rparr>)
          = Inr (rows', s')"
      and rows: "rows = hd rows # rows'" "bg_price (hd rows) = p" "bg_value (hd rows) = val"
        "bg_order_id (hd rows) = oid" "bg_item_name (hd rows) = name" "bg_buyer_id (hd rows) = Some buyer"
      by (auto simp: vp Let_def tx_simps split: option.splits if_splits)
    obtain r where r: "rows = r # rows'" using rows(1) by metis
    from Cons.IH [OF step] rows(2-) v show ?case by (simp add: vp r next_id_def)
  qed
  then show "s' = s\<lparr>t_bought := t_bought s @ rows, t_seq := t_seq s + int (length vps)\<rparr>"
    and "map bg_price rows = map snd vps" and "map (\<lambda>b. Some (bg_value b)) rows = map fst vps"
    and "\<forall>b \<in> set rows. bg_order_id b = oid \<and> bg_item_name b = name \<and> bg_buyer_id b = Some buyer"
    by auto
qed

lemma record_bought_units_Inr:
  assumes "record_bought_units e x g vps s = Inr (rows, s')"
  shows "s' = s\<lparr>t_bought := t_bought s @ rows, t_seq := t_seq s + int (length vps)\<rparr>"
    and "map bg_price rows = map snd vps" and "map (\<lambda>b. Some (bg_value b)) rows = map fst vps"
    and "\<forall>b \<in> set rows. bg_order_id b = Some (o_id x) \<and> bg_item_name b = g_name g \<and>
       bg_buyer_id b = Some (delivery_recipient_telegram_id x)"
  using insert_bought_Inr [OF assms [unfolded record_bought_units_def]] by auto

lemma record_bought_units_sum:
  assumes "record_bought_units e x g (zip vs (split_amount t (int (length vs)))) s = Inr (rows, s')" "vs \<noteq> []"
  shows "sum_list (map bg_price rows) = t" "length rows = length vs"
proof -
  have p: "map bg_price rows = split_amount t (int (length vs))"
    using record_bought_units_Inr(2) [OF assms(1)] by simp
  then show "sum_list (map bg_price rows) = t" using assms(2) by (simp add: sum_split_amount)
  from p have "length (map bg_price rows) = nat (int (length vs))" by simp
  then show "length rows = length vs" by simp
qed

lemma fail_and_refund_processing:
  assumes "o_status x = PROCESSING"
  shows "fail_and_refund e x s =
    (let y = x\<lparr>o_status := FAILED\<rparr>;
         s1 = append_history y (Some PROCESSING) FAILED (Some (o_user_id x))
                (snd (release_stock_reservations (o_id x) s))
     in tx_bind (credit_refund e y s1) (\<lambda>(_, s2). transition_order e y REFUNDED (Some (o_user_id x)) s2))"
  using assms by (simp add: fail_and_refund_def transition_failed refund_failed_order_def Let_def)

lemma credit_refund_Inr:
  assumes "credit_refund e x s = Inr (r, s')"
  obtains u where "get_user s (o_user_id x) = Some u"
    "s' = add_operation (o_user_id x) (o_total_cents x) (env_now e)
       (put_user (u\<lparr>u_balance := u_balance u + o_total_cents x\<rparr>) s)"
  using assms by (auto simp: credit_refund_def split: option.splits)

lemma begin_paid_order_Inr:
  assumes "begin_paid_order e u g q p d gift c s = Inr (y, s')"
  obtains x s1 where "max 0 (p * q - d) \<le> u_balance u"
    "assert_gift_purchase_allowed g gift = Inr ()"
    "create_order_with_snapshot e (u_id u) (g_id g) q (dec_div_100 p) d c 0 0
       (resolve_delivery_type g gift) None None None gift s = Inr (x, s1)"
    "o_status x = CREATED" "y = start_processing e x"
    "s' = append_history y (Some CREATED) PROCESSING (Some (u_id u))
       (put_user (u\<lparr>u_balance := u_balance u - max 0 (p * q - d)\<rparr>) s1)"
proof -
  from assms obtain x s1 where x: "max 0 (p * q - d) \<le> u_balance u"
    "assert_gift_purchase_allowed g gift = Inr ()"
    "create_order_with_snapshot e (u_id u) (g_id g) q (dec_div_100 p) d c 0 0
       (resolve_delivery_type g gift) None None None gift s = Inr (x, s1)"
    "transition_order e x PROCESSING (Some (u_id u))
       (put_user (u\<lparr>u_balance := u_balance u - max 0 (p * q - d)\<rparr>) s1) = Inr (y, s')"
    by (auto simp: begin_paid_order_def Let_def tx_simps not_less)
  have st: "o_status x = CREATED" using x(3) by (rule create_order_Inr)
  with x show ?thesis by (intro that [of x s1]) (auto simp: transition_processing)
qed

lemma begin_paid_order_Inl:
  assumes "begin_paid_order e u g q p d gift c s = Inl err" "0 < q" "\<bar>p\<bar> < 10 ^ 28"
  shows "err = FulfillmentError ''insufficient_funds'' \<and> u_balance u < max 0 (p * q - d) \<or>
    err = StockAllocationError ''gift_not_allowed'' \<and> gift \<noteq> None \<and> \<not> g_allows_gift g"
  using assms(1)
proof (cases "u_balance u < max 0 (p * q - d)")
  case True
  with assms(1) show ?thesis by (simp add: begin_paid_order_def Let_def)
next
  case False
  show ?thesis
  proof (cases "assert_gift_purchase_allowed g gift")
    case (Inl e')
    with assms(1) False show ?thesis
      by (auto simp: begin_paid_order_def Let_def assert_gift_purchase_allowed_def
          split: option.splits if_splits)
  next
    case (Inr r)
    obtain x s1 where c: "create_order_with_snapshot e (u_id u) (g_id g) q (dec_div_100 p) d c 0 0
       (resolve_delivery_type g gift) None None None gift s = Inr (x, s1)"
      using assms(2,3) by (auto simp: create_order_with_snapshot_def rub_to_cents_div_100 Let_def)
    have "o_status x = CREATED" using c by (rule create_order_Inr)
    with assms(1) False Inr c show ?thesis
      by (simp add: begin_paid_order_def Let_def transition_processing)
  qed
qed

subsection \<open>Properties\<close>

lemma orders_ok_frame:
  "orders_ok s \<Longrightarrow> t_orders s' = t_orders s \<Longrightarrow> t_history s' = t_history s \<Longrightarrow> t_seq s \<le> t_seq s' \<Longrightarrow> orders_ok s'"
  by (auto simp: orders_ok_def history_of_def intro: order_trans)

lemma get_order_frame: "t_orders s' = t_orders s \<Longrightarrow> get_order s' k = get_order s k"
  by (simp add: get_order_def)

lemma in_sync_frame: "in_sync s x \<Longrightarrow> t_orders s' = t_orders s \<Longrightarrow> in_sync s' x"
  by (simp add: in_sync_def get_order_def)

lemma in_sync_same: "in_sync s x \<Longrightarrow> o_id y = o_id x \<Longrightarrow> o_status y = o_status x \<Longrightarrow> in_sync s y"
  by (simp add: in_sync_def)

lemma transition_get:
  assumes "transition_order e x t a s = Inr (y, s')" "in_sync s x"
  shows "get_order s' (o_id x) = Some y"
proof -
  from assms(1) obtain s4 where t: "same_snapshot x y" "s' = append_history y (Some (o_status x)) t a s4"
    "t_orders s4 = t_orders s" by (rule transition_order_Inr)
  moreover obtain r where "get_order s (o_id x) = Some r" using assms(2) by (auto simp: in_sync_def)
  ultimately show ?thesis by (simp add: get_order_def find_put same_snapshot_def)
qed

lemma transition_order_result:
  assumes "transition_order e x t a s = Inr (y, s')"
  shows "o_status y = t" "same_snapshot x y"
  using transition_order_Inr [OF assms] by metis+

lemma reverse_referral_bought: "reverse_referral_for_order x s = ((b, y), s') \<Longrightarrow> t_bought s' = t_bought s"
  using reverse_referral_effect(2) by fastforce

lemma fail_and_refund_effect:
  assumes "fail_and_refund e x s = Inr (y, s')" "o_status x = PROCESSING" "orders_ok s" "in_sync s x"
  shows "o_status y = REFUNDED \<and> same_snapshot x y \<and> get_order s' (o_id x) = Some y \<and> orders_ok s' \<and>
    t_bought s' = t_bought s \<and>
    (\<forall>k. balance_of s' k = balance_of s k + (if k = o_user_id x then o_total_cents x else 0)
       - reversal_for s (o_id x) k)"
proof -
  let ?f = "x\<lparr>o_status := FAILED\<rparr>"
  let ?s1 = "append_history ?f (Some PROCESSING) FAILED (Some (o_user_id x)) (snd (release_stock_reservations (o_id x) s))"
  from assms(1,2) obtain s2 where c: "credit_refund e ?f ?s1 = Inr ((), s2)"
    and t2: "transition_order e ?f REFUNDED (Some (o_user_id x)) s2 = Inr (y, s')"
    by (auto simp: fail_and_refund_processing Let_def tx_simps)
  have t1: "transition_order e x FAILED (Some (o_user_id x)) s = Inr (?f, ?s1)"
    using assms(2) by (simp add: transition_failed)
  have ok1: "orders_ok ?s1" "in_sync ?s1 ?f" using transition_order_ok [OF t1 assms(3,4)] by auto
  from c obtain u where u: "get_user ?s1 (o_user_id ?f) = Some u"
    and s2: "s2 = add_operation (o_user_id ?f) (o_total_cents ?f) (env_now e)
       (put_user (u\<lparr>u_balance := u_balance u + o_total_cents ?f\<rparr>) ?s1)" by (rule credit_refund_Inr)
  have same2: "t_orders s2 = t_orders ?s1" "t_history s2 = t_history ?s1" "t_seq ?s1 \<le> t_seq s2"
    "t_bought s2 = t_bought s"
    by (simp_all add: s2 add_operation_def put_user_def next_id_def)
  have ok2: "orders_ok s2" "in_sync s2 ?f"
    by (rule orders_ok_frame [OF ok1(1) same2(1-3)], rule in_sync_frame [OF ok1(2) same2(1)])
  have fin: "orders_ok s'" "get_order s' (o_id x) = Some y"
    using transition_order_ok(1) [OF t2 ok2] transition_get [OF t2 ok2(2)] by simp_all
  have y: "o_status y = REFUNDED" "same_snapshot ?f y"
    using transition_order_result [OF t2] by simp_all
  have bought: "t_bought s' = t_bought s"
  proof -
    obtain b z s3 where rv: "reverse_referral_for_order (?f\<lparr>o_status := REFUNDED\<rparr>) s2 = ((b, z), s3)"
      by (metis surj_pair)
    have "o_status ?f = COMPLETED \<or> o_status ?f = FAILED" by simp
    from t2 [unfolded transition_refunded [OF this rv]] have "t_bought s' = t_bought s3" by auto
    with reverse_referral_bought [OF rv] same2(4) show ?thesis by simp
  qed
  have bal: "balance_of s' k = balance_of s k + (if k = o_user_id x then o_total_cents x else 0)
       - reversal_for s (o_id x) k" for k
  proof -
    have "balance_of s' k = balance_of s2 k - reversal_for s2 (o_id x) k"
      using transition_refunded_balance(1) [OF t2, of k] by simp
    also have "balance_of s2 k = balance_of ?s1 k + (if k = o_user_id x then o_total_cents x else 0)"
      using payback_balance(1) [OF u, of "o_total_cents x" "env_now e" k] by (simp add: s2)
    also have "reversal_for s2 (o_id x) k = reversal_for ?s1 (o_id x) k"
      using payback_balance(3) [OF u, of "o_total_cents x" "env_now e" "o_id x" k] by (simp add: s2)
    also have "balance_of ?s1 k = balance_of s k" by (rule balance_of_users) simp
    also have "reversal_for ?s1 (o_id x) k = reversal_for s (o_id x) k"
      by (rule reversal_for_cong) (simp_all add: get_user_def)
    finally show ?thesis .
  qed
  from y bought bal fin show ?thesis by (simp add: same_snapshot_def)
qed

lemma stored_external_same:
  "same_snapshot x (store_delivery d (note_external x l p r))"
  "o_status (store_delivery d (note_external x l p r)) = o_status x"
  "o_fulfillment_attempt_count (store_delivery d (note_external x l p r)) = o_fulfillment_attempt_count x"
  by (simp_all add: store_delivery_def note_external_def Let_def same_snapshot_def)

lemma create_external_order_same:
  assumes "create_external_order e x l p = Inr (r, y)"
  shows "same_snapshot x y" "o_status y = o_status x" "o_fulfillment_attempt_count y = o_fulfillment_attempt_count x"
proof -
  have "y = x \<or> (\<exists>d. y = store_delivery d (note_external x l p r))"
  proof (cases "truthy_str (o_provider_external_order_id x)")
    case True
    with assms show ?thesis by (auto simp: create_external_order_def tx_simps split: if_splits)
  next
    case False
    with assms show ?thesis by (auto simp: create_external_order_def tx_simps Let_def)
  qed
  then show "same_snapshot x y" "o_status y = o_status x" "o_fulfillment_attempt_count y = o_fulfillment_attempt_count x"
    using stored_external_same by auto
qed

lemma transition_completed_bought:
  assumes "transition_order e x COMPLETED a s = Inr (y, s')" "o_status x = PROCESSING"
  shows "t_bought s' = t_bought s"
  using assms credit_referral_tables(4) by (fastforce simp: transition_completed tx_simps)

lemma deliver_external_effect:
  assumes "deliver_external e x g r s = Inr (st, s')" "o_status x = PROCESSING" "orders_ok s" "in_sync s x"
    and "0 < o_quantity x" "bought_of_order s (o_id x) = []"
  shows "(st = TickCompleted \<and> (\<exists>y. get_order s' (o_id x) = Some y \<and> o_status y = COMPLETED \<and> same_snapshot x y) \<and>
      sum_list (map bg_price (bought_of_order s' (o_id x))) = o_total_cents x \<and>
      length (bought_of_order s' (o_id x)) = nat (o_quantity x) \<and> orders_ok s') \<or>
    (st = TickPending \<and> s' = put_order x s)"
proof -
  define delivery where "delivery = (if truthy_str (po_delivery_value r) then po_delivery_value r else o_fulfillment_payload x)"
  define vals where "vals = (if 1 < o_quantity x then replicate (nat (o_quantity x)) delivery else [delivery])"
  have len: "int (length vals) = o_quantity x" "vals \<noteq> []" using assms(5) by (auto simp: vals_def)
  show ?thesis
  proof (cases "truthy_str delivery")
    case False
    with assms(1) show ?thesis by (simp add: deliver_external_def Let_def flip: delivery_def)
  next
    case True
    with assms(1) obtain rows s1 y where
      rec: "record_bought_units e x g (zip vals (split_amount (o_total_cents x) (o_quantity x))) s = Inr (rows, s1)"
      and tr: "transition_order e x COMPLETED (Some (o_user_id x)) s1 = Inr (y, s')" and st: "st = TickCompleted"
      by (auto simp: deliver_external_def Let_def tx_simps simp flip: delivery_def vals_def)
    have s1: "s1 = s\<lparr>t_bought := t_bought s @ rows, t_seq := t_seq s + int (length (zip vals (split_amount (o_total_cents x) (o_quantity x))))\<rparr>"
      using record_bought_units_Inr(1) [OF rec] .
    have same1: "t_orders s1 = t_orders s" "t_history s1 = t_history s" "t_seq s \<le> t_seq s1" "t_bought s1 = t_bought s @ rows"
      by (simp_all add: s1)
    have ok1: "orders_ok s1" "in_sync s1 x"
      by (rule orders_ok_frame [OF assms(3) same1(1-3)], rule in_sync_frame [OF assms(4) same1(1)])
    have "bought_of_order s' (o_id x) = rows"
    proof -
      have "bought_of_order s' (o_id x) = bought_of_order s1 (o_id x)"
        by (simp add: bought_of_order_def transition_completed_bought [OF tr assms(2)])
      also have "\<dots> = bought_of_order s (o_id x) @ filter (\<lambda>b. bg_order_id b = Some (o_id x)) rows"
        by (simp add: bought_of_order_def same1(4))
      also have "\<dots> = rows" using assms(6) record_bought_units_Inr(4) [OF rec] by (simp add: filter_id_conv)
      finally show ?thesis .
    qed
    moreover have "sum_list (map bg_price rows) = o_total_cents x" "length rows = length vals"
      using record_bought_units_sum [of e x g vals "o_total_cents x" s rows s1] rec len by auto
    moreover have "o_status y = COMPLETED" "same_snapshot x y"
      using transition_order_result [OF tr] by simp_all
    ultimately show ?thesis
      using st transition_get [OF tr ok1(2)] transition_order_ok(1) [OF tr ok1] len by auto
  qed
qed

text \<open>The outcome of one fulfilment tick on a paid order, by the status it reports.\<close>

definition tick_outcome :: "shop \<Rightarrow> goods_provider_link option \<Rightarrow> order \<Rightarrow> tick_status \<Rightarrow> shop \<Rightarrow> bool" where
  "tick_outcome s link x st s' = (\<exists>y. get_order s' (o_id x) = Some y \<and> same_snapshot x y \<and>
     (case st of
        TickNoop \<Rightarrow> o_status y = COMPLETED \<and> bought_of_order s (o_id x) \<noteq> [] \<and> t_bought s' = t_bought s
      | TickCompleted \<Rightarrow> o_status y = COMPLETED \<and> length (bought_of_order s' (o_id x)) = nat (o_quantity x) \<and>
          sum_list (map bg_price (bought_of_order s' (o_id x))) = o_total_cents x
      | TickPending \<Rightarrow> o_status y = PROCESSING \<and> t_users s' = t_users s \<and> t_bought s' = t_bought s \<and>
          o_fulfillment_attempt_count y = o_fulfillment_attempt_count x
      | TickRetry \<Rightarrow> o_status y = PROCESSING \<and> t_users s' = t_users s \<and> t_bought s' = t_bought s \<and>
          o_fulfillment_attempt_count y = o_fulfillment_attempt_count x + 1 \<and>
          (\<exists>g l p. get_goods s (o_goods_id x) = Some g \<and> link_for_order s x g link = Some l \<and>
             get_provider s (gpl_provider_id l) = Some p \<and>
             o_fulfillment_attempt_count y < max_fulfillment_retries l p)
      | TickRefunded \<Rightarrow> o_status y = REFUNDED \<and> t_bought s' = t_bought s \<and>
          (\<forall>k. balance_of s' k = balance_of s k + (if k = o_user_id x then o_total_cents x else 0)
             - reversal_for s (o_id x) k)))"

lemma put_order_frame:
  assumes "in_sync s x" "o_id y = o_id x"
  shows "get_order (put_order y s) (o_id x) = Some y"
  using assms by (auto simp: in_sync_def put_order_def get_order_def find_put)

lemma tick_returns:
  assumes "fulfill_processing_order e oid link s = Inr (st, s')"
    and "get_order s oid = Some x" "o_status x = PROCESSING" "0 < o_quantity x" "orders_ok s"
  shows "tick_outcome s link x st s'"
proof -
  have oid: "o_id x = oid" using assms(2) by (rule orders.lookup_key)
  have sync: "in_sync s x" by (rule in_sync_get) (use assms(2) oid in simp)
  have refund: "tick_outcome s link x TickRefunded s1"
    if "fail_and_refund e z s = Inr (y, s1)" "same_snapshot x z" "o_status z = PROCESSING" for z y s1
    using fail_and_refund_effect [OF that(1,3) assms(5)] in_sync_same [OF sync, of z] that(2,3) assms(3)
    by (fastforce simp: tick_outcome_def same_snapshot_def)
  show ?thesis
  proof (cases "bought_of_order s (o_id x) = []")
    case False
    with assms(1-3) obtain y where tr: "transition_order e x COMPLETED (Some (o_user_id x)) s = Inr (y, s')"
      and "st = TickNoop" by (auto simp: fulfill_processing_order_def tx_simps)
    moreover have "o_status y = COMPLETED" "same_snapshot x y" using transition_order_result [OF tr] by simp_all
    ultimately show ?thesis
      using False transition_get [OF tr sync] transition_completed_bought [OF tr assms(3)] by (auto simp: tick_outcome_def)
  next
    case none: True
    with assms(1-3) obtain g where dt: "o_delivery_type x \<noteq> DeliverStock" and g: "get_goods s (o_goods_id x) = Some g"
      by (auto simp: fulfill_processing_order_def split: if_splits option.splits)
    note run = assms(1) [unfolded fulfill_processing_order_def assms(2) option.case]
    show ?thesis
    proof (cases "link_for_order s x g link")
      case None
      with run assms(3) none dt g obtain y where "fail_and_refund e x s = Inr (y, s')" "st = TickRefunded"
        by (auto simp: tx_simps)
      with refund [of x] assms(3) show ?thesis by simp
    next
      case (Some l)
      with run assms(3) none dt g obtain p where p: "get_provider s (gpl_provider_id l) = Some p"
        by (auto split: option.splits)
      show ?thesis
      proof (cases "create_external_order e x l p")
        case (Inr ry)
        obtain r z where ry: "ry = (r, z)" by fastforce
        note z = create_external_order_same [OF Inr [unfolded ry]]
        have d: "deliver_external e z g r s = Inr (st, s')"
          using run assms(3) none dt g Some p Inr ry by simp
        have zx: "o_id z = o_id x" "o_status z = PROCESSING" "0 < o_quantity z" "bought_of_order s (o_id z) = []"
          using z assms(3,4) none by (auto simp: same_snapshot_def)
        from deliver_external_effect [OF d zx(2) assms(5) in_sync_same [OF sync] zx(3,4)] z zx assms(3)
        have "(st = TickCompleted \<and> (\<exists>y. get_order s' (o_id z) = Some y \<and> o_status y = COMPLETED \<and> same_snapshot z y) \<and>
            sum_list (map bg_price (bought_of_order s' (o_id z))) = o_total_cents z \<and>
            length (bought_of_order s' (o_id z)) = nat (o_quantity z) \<and> orders_ok s') \<or> st = TickPending \<and> s' = put_order z s"
          by simp
        then show ?thesis
        proof
          assume "st = TickPending \<and> s' = put_order z s"
          then show ?thesis using put_order_frame [OF sync zx(1)] z zx
            by (auto simp: tick_outcome_def put_order_def)
        next
          assume "st = TickCompleted \<and> (\<exists>y. get_order s' (o_id z) = Some y \<and> o_status y = COMPLETED \<and> same_snapshot z y) \<and>
            sum_list (map bg_price (bought_of_order s' (o_id z))) = o_total_cents z \<and>
            length (bought_of_order s' (o_id z)) = nat (o_quantity z) \<and> orders_ok s'"
          then show ?thesis using z(1) zx(1)
            by (auto simp: tick_outcome_def same_snapshot_def)
        qed
      next
        case (Inl err)
        let ?x1 = "x\<lparr>o_fulfillment_attempt_count := o_fulfillment_attempt_count x + 1\<rparr>"
        have x1: "same_snapshot x ?x1" "o_status ?x1 = PROCESSING" "o_id ?x1 = o_id x"
          using assms(3) by (simp_all add: same_snapshot_def)
        from run assms(3) none dt g Some p Inl consider
            (fatal) y where "fail_and_refund e x s = Inr (y, s')" "st = TickRefunded"
          | (last) y where "fail_and_refund e ?x1 s = Inr (y, s')" "st = TickRefunded"
          | (again) "st = TickRetry" "s' = put_order ?x1 s"
              "o_fulfillment_attempt_count ?x1 < max_fulfillment_retries l p"
          by (auto simp: tx_simps Let_def not_le split: exn.splits if_splits)
        then show ?thesis
        proof cases
          case fatal
          with refund [of x] assms(3) show ?thesis by simp
        next
          case last
          with refund [OF last(1) x1(1,2)] show ?thesis by simp
        next
          case again
          have "t_users s' = t_users s" "t_bought s' = t_bought s" by (simp_all add: again put_order_def)
          with again put_order_frame [OF sync x1(3)] x1 g Some p show ?thesis by (auto simp: tick_outcome_def)
        qed
      qed
    qed
  qed
qed

text \<open>
  Why a tick raises: a stock order, a product or provider that is gone, a buyer that is gone, a
  unique id that is taken, or an answer of the service that the adapter does not expect.
\<close>

definition tick_error :: "env \<Rightarrow> shop \<Rightarrow> goods_provider_link option \<Rightarrow> order \<Rightarrow> exn \<Rightarrow> bool" where
  "tick_error e s link x err \<longleftrightarrow>
     err = NoResultFound \<and> get_user s (o_user_id x) = None \<or>
     bought_of_order s (o_id x) = [] \<and>
       (err = FulfillmentError ''stock_not_in_worker'' \<and> o_delivery_type x = DeliverStock \<or>
        err = OtherError ''AttributeError'' \<and> get_goods s (o_goods_id x) = None \<or>
        err = IntegrityError ''unique_id'' \<or>
        (\<exists>g l. get_goods s (o_goods_id x) = Some g \<and> link_for_order s x g link = Some l \<and>
           (case get_provider s (gpl_provider_id l) of
              None \<Rightarrow> err = OtherError ''AttributeError''
            | Some p \<Rightarrow> create_external_order e x l p = Inl err \<and>
                (\<forall>m. err \<noteq> ProviderRetryableError m \<and> err \<noteq> ProviderFatalError m))))"

lemma credit_referral_Inl:
  "credit_referral_for_order e x s = Inl err \<Longrightarrow> err = NoResultFound \<and> get_user s (o_user_id x) = None"
  by (auto simp: credit_referral_for_order_def Let_def split: if_splits option.splits)

lemma transition_completed_Inl:
  "transition_order e x COMPLETED a s = Inl err \<Longrightarrow> o_status x = PROCESSING \<Longrightarrow>
     err = NoResultFound \<and> get_user s (o_user_id x) = None"
  by (auto simp: transition_completed tx_simps dest!: credit_referral_Inl)

lemma fail_and_refund_Inl:
  assumes "fail_and_refund e x s = Inl err" "o_status x = PROCESSING"
  shows "err = NoResultFound \<and> get_user s (o_user_id x) = None"
proof -
  let ?y = "x\<lparr>o_status := FAILED\<rparr>"
  let ?s1 = "append_history ?y (Some PROCESSING) FAILED (Some (o_user_id x)) (snd (release_stock_reservations (o_id x) s))"
  have "transition_order e ?y REFUNDED a s2 \<noteq> Inl err" for a s2
  proof -
    obtain b z s3 where rv: "reverse_referral_for_order (?y\<lparr>o_status := REFUNDED\<rparr>) s2 = ((b, z), s3)"
      by (metis surj_pair)
    have "o_status ?y = COMPLETED \<or> o_status ?y = FAILED" by simp
    from transition_refunded [OF this rv] show ?thesis by simp
  qed
  moreover have "get_user ?s1 = get_user s" by (simp add: get_user_def fun_eq_iff)
  ultimately show ?thesis
    using assms(1) unfolding fail_and_refund_processing [OF assms(2)] Let_def
    by (auto simp: tx_simps credit_refund_def split: option.splits)
qed

lemma insert_bought_raises:
  "insert_bought e name buyer oid vps s = Inl err \<Longrightarrow> \<forall>vp \<in> set vps. fst vp \<noteq> None \<Longrightarrow> err = IntegrityError ''unique_id''"
proof (induction vps arbitrary: s)
  case (Cons vp vps)
  then show ?case by (cases vp) (auto simp: Let_def tx_simps split: option.splits if_splits)
qed simp

lemma deliver_external_Inl:
  assumes "deliver_external e x g r s = Inl err" "o_status x = PROCESSING"
  shows "err = IntegrityError ''unique_id'' \<or> err = NoResultFound \<and> get_user s (o_user_id x) = None"
proof -
  define delivery where "delivery = (if truthy_str (po_delivery_value r) then po_delivery_value r else o_fulfillment_payload x)"
  define vals where "vals = (if 1 < o_quantity x then replicate (nat (o_quantity x)) delivery else [delivery])"
  have t: "truthy_str delivery" using assms(1) by (auto simp: deliver_external_def Let_def delivery_def [symmetric] split: if_splits)
  then obtain d where "delivery = Some d" by (auto simp: truthy_str_def)
  then have some: "\<forall>vp \<in> set (zip vals ps). fst vp \<noteq> None" for ps :: "int list"
    by (auto simp: vals_def dest!: set_zip_leftD split: if_splits)
  let ?ps = "split_amount (o_total_cents x) (o_quantity x)"
  from assms(1) t have "record_bought_units e x g (zip vals ?ps) s = Inl err \<or>
      (\<exists>rows s1. record_bought_units e x g (zip vals ?ps) s = Inr (rows, s1) \<and>
         transition_order e x COMPLETED (Some (o_user_id x)) s1 = Inl err)"
    by (auto simp: deliver_external_def Let_def tx_simps simp flip: delivery_def vals_def)
  then show ?thesis
  proof (elim disjE exE conjE)
    assume "record_bought_units e x g (zip vals ?ps) s = Inl err"
    then show ?thesis using insert_bought_raises some by (auto simp: record_bought_units_def)
  next
    fix rows s1
    assume r: "record_bought_units e x g (zip vals ?ps) s = Inr (rows, s1)"
      and tr: "transition_order e x COMPLETED (Some (o_user_id x)) s1 = Inl err"
    from transition_completed_Inl [OF tr assms(2)] record_bought_units_Inr(1) [OF r] show ?thesis
      by (auto simp: get_user_def)
  qed
qed

lemma tick_raises:
  assumes "fulfill_processing_order e oid link s = Inl err" "get_order s oid = Some x" "o_status x = PROCESSING"
  shows "tick_error e s link x err"
proof (cases "bought_of_order s (o_id x) = []")
  case False
  with assms have "transition_order e x COMPLETED (Some (o_user_id x)) s = Inl err"
    by (auto simp: fulfill_processing_order_def tx_simps)
  then show ?thesis using transition_completed_Inl assms(3) by (auto simp: tick_error_def)
next
  case none: True
  note run = assms(1) [unfolded fulfill_processing_order_def assms(2) option.case]
  show ?thesis
  proof (cases "o_delivery_type x = DeliverStock \<or> get_goods s (o_goods_id x) = None")
    case True
    with run none assms(3) have "o_delivery_type x = DeliverStock \<and> err = FulfillmentError ''stock_not_in_worker'' \<or>
        get_goods s (o_goods_id x) = None \<and> err = OtherError ''AttributeError''"
      by (cases "o_delivery_type x = DeliverStock") simp_all
    with none show ?thesis by (auto simp: tick_error_def)
  next
    case False
    then obtain g where dt: "o_delivery_type x \<noteq> DeliverStock" and g: "get_goods s (o_goods_id x) = Some g" by auto
    have refused: ?thesis if "fail_and_refund e z s = Inl err" "o_status z = PROCESSING" "o_user_id z = o_user_id x" for z
      using fail_and_refund_Inl [OF that(1,2)] that(3) by (simp add: tick_error_def)
    show ?thesis
    proof (cases "link_for_order s x g link")
      case None
      with run assms(3) none dt g have "fail_and_refund e x s = Inl err" by (auto simp: tx_simps)
      with refused assms(3) show ?thesis by blast
    next
      case (Some l)
      show ?thesis
      proof (cases "get_provider s (gpl_provider_id l)")
        case None
        with run assms(3) none dt g Some show ?thesis by (auto simp: tick_error_def)
      next
        case p: (Some p)
        show ?thesis
        proof (cases "create_external_order e x l p")
          case (Inr ry)
          obtain r z where ry: "ry = (r, z)" by fastforce
          note z = create_external_order_same [OF Inr [unfolded ry]]
          have "deliver_external e z g r s = Inl err"
            using run assms(3) none dt g Some p Inr ry by simp
          from deliver_external_Inl [OF this] z assms(3) none show ?thesis
            by (auto simp: tick_error_def same_snapshot_def)
        next
          case (Inl exc)
          let ?x1 = "x\<lparr>o_fulfillment_attempt_count := o_fulfillment_attempt_count x + 1\<rparr>"
          from run assms(3) none dt g Some p Inl consider
              "fail_and_refund e x s = Inl err" | "fail_and_refund e ?x1 s = Inl err"
            | "exc = err" "\<forall>m. err \<noteq> ProviderRetryableError m \<and> err \<noteq> ProviderFatalError m"
            by (auto simp: tx_simps Let_def split: exn.splits if_splits)
          then show ?thesis
          proof cases
            case 1
            with refused assms(3) show ?thesis by blast
          next
            case 2
            with refused [of ?x1] assms(3) show ?thesis by simp
          next
            case 3
            with none g Some p Inl show ?thesis by (auto simp: tick_error_def)
          qed
        qed
      qed
    qed
  qed
qed


definition sample_api_shop :: shop where
  "sample_api_shop = sample_shop\<lparr>t_orders := [(sample_order 17 1 6 1000 PROCESSING)\<lparr>o_delivery_type := DeliverApi\<rparr>],
     t_history := [\<lparr>h_id = 18, h_order_id = 17, h_from_status = None, h_to_status = CREATED, h_actor_id = Some 1\<rparr>,
        \<lparr>h_id = 19, h_order_id = 17, h_from_status = Some CREATED, h_to_status = PROCESSING, h_actor_id = Some 1\<rparr>]\<rparr>"


end
