(* ===== verification/Promos.thy ===== *)
theory Promos
  imports PyStr Sample_Shop
begin

text \<open>
  Promo codes: \<open>bot/database/methods/promo_usage.py\<close>, the rules of \<open>promo_rule_error\<close> with its
  read-side validators (\<open>read.py\<close>), and the admin operations of \<open>create.py\<close>, \<open>update.py\<close> and
  \<open>delete.py\<close>.
\<close>

subsection \<open>Usage\<close>

definition promo_scope_for :: "int option \<Rightarrow> int option \<Rightarrow> promo_scope" where
  "promo_scope_for category_id item_id =
     (if item_id \<noteq> None then ItemScope else if category_id \<noteq> None then CategoryScope else GlobalScope)"

text \<open>\<open>int(getattr(promo, "max_uses_per_user", 1) or 1)\<close>\<close>

definition max_per_user :: "promo_code \<Rightarrow> int" where
  "max_per_user p = (if pc_max_uses_per_user p = 0 then 1 else pc_max_uses_per_user p)"

definition count_promo_usages_for_user :: "shop \<Rightarrow> int \<Rightarrow> int \<Rightarrow> int" where
  "count_promo_usages_for_user s promo_id user_id =
     int (length (filter (\<lambda>u. pu_promo_id u = promo_id \<and> pu_user_id u = user_id) (t_promo_usages s)))"

definition record_promo_usage :: "promo_code \<Rightarrow> int \<Rightarrow> int option \<Rightarrow> shop \<Rightarrow> (unit \<times> shop) result" where
  "record_promo_usage promo user_id order_id s =
     (if 0 < pc_max_uses promo \<and> pc_max_uses promo \<le> pc_current_uses promo
      then Inl (PromoUsageLimitError ''max_uses'')
      else if max_per_user promo \<le> count_promo_usages_for_user s (pc_id promo) user_id
      then Inl (PromoUsageLimitError ''already_used'')
      else (let s1 = put_promo (promo\<lparr>pc_current_uses := pc_current_uses promo + 1\<rparr>) s
            in Inr ((), s1\<lparr>t_promo_usages := t_promo_usages s1 @
                  [\<lparr>pu_id = next_id s1, pu_promo_id = pc_id promo, pu_user_id = user_id,
                     pu_order_id = order_id\<rparr>], t_seq := next_id s1\<rparr>)))"

subsection \<open>Rules\<close>

definition promo_rule_error ::
    "shop \<Rightarrow> int \<Rightarrow> promo_code option \<Rightarrow> int \<Rightarrow> (int \<times> int) option \<Rightarrow> bool \<Rightarrow> bool option \<Rightarrow> int option
     \<Rightarrow> string option" where
  "promo_rule_error s now promo_opt user_id goods require_balance used order_total_cents =
     (case promo_opt of None \<Rightarrow> Some ''not_found''
      | Some promo \<Rightarrow>
        if \<not> pc_is_active promo then Some ''inactive''
        else if require_balance \<noteq> (pc_discount_type promo = ''balance'') then Some ''wrong_type''
        else if (case pc_expires_at promo of None \<Rightarrow> False | Some t \<Rightarrow> t < now) then Some ''expired''
        else if 0 < pc_max_uses promo \<and> pc_max_uses promo \<le> pc_current_uses promo then Some ''max_uses''
        else if \<not> require_balance \<and> (case order_total_cents of None \<Rightarrow> False
              | Some t \<Rightarrow> 0 < pc_min_order_cents promo \<and> t < pc_min_order_cents promo) then Some ''min_order''
        else if (case used of Some b \<Rightarrow> b
              | None \<Rightarrow> max_per_user promo \<le> count_promo_usages_for_user s (pc_id promo) user_id)
          then Some ''already_used''
        else if require_balance then None
        else if pc_scope promo = ItemScope \<and> pc_item_id promo = None then Some ''wrong_item''
        else if pc_scope promo = CategoryScope \<and> pc_category_id promo = None then Some ''wrong_category''
        else if truthy_id (pc_item_id promo) \<and> pc_item_id promo \<noteq> map_option fst goods then Some ''wrong_item''
        else if truthy_id (pc_category_id promo) \<and> pc_category_id promo \<noteq> map_option snd goods
          then Some ''wrong_category''
        else None)"

text \<open>The binding key of a product: its id and its category.\<close>

definition goods_key :: "goods \<Rightarrow> int \<times> int" where
  "goods_key g = (g_id g, g_category_id g)"

definition VALIDATE_PROMO_ERRORS :: "string \<Rightarrow> string" where
  "VALIDATE_PROMO_ERRORS e =
     (if e = ''wrong_type'' then ''promo.not_balance_type''
      else if e = ''max_uses'' then ''promo.max_uses_reached''
      else ''promo.'' @ e)"

definition validate_promo_for_item ::
    "env \<Rightarrow> shop \<Rightarrow> string \<Rightarrow> string \<Rightarrow> int \<Rightarrow> bool \<times> string \<times> promo_code option" where
  "validate_promo_for_item e s code item_name user_id =
     (let promo = promo_by_code s (upper code)
      in case promo_rule_error s (env_now e) promo user_id
               (map_option goods_key (goods_by_name s item_name)) False None None of
           Some err \<Rightarrow> (False, VALIDATE_PROMO_ERRORS err, None)
         | None \<Rightarrow> (True, '''', promo))"

text \<open>
  A cart line as \<open>get_cart_items\<close> returns it, and the product information \<open>get_items_info\<close> returns
  by name: id, category and list price.
\<close>

record cart_line =
  cl_id :: int
  cl_item_name :: string
  cl_promo_code :: "string option"
  cl_quantity :: int

type_synonym item_info = "int \<times> int \<times> int"

definition validate_promos_for_cart ::
    "env \<Rightarrow> shop \<Rightarrow> int \<Rightarrow> cart_line list \<Rightarrow> (string \<Rightarrow> item_info option)
     \<Rightarrow> (int \<times> bool \<times> string \<times> promo_code option) list" where
  "validate_promos_for_cart e s user_id lines info_map =
     (let coded = filter (\<lambda>ln. cl_promo_code ln \<noteq> None \<and> cl_promo_code ln \<noteq> Some []) lines
      in map (\<lambda>ln.
           let promo = promo_by_code s (upper (the (cl_promo_code ln)));
               info = info_map (cl_item_name ln);
               goods = map_option (\<lambda>(gid, cid, price). (gid, cid)) info;
               qty = (if cl_quantity ln = 0 then 1 else cl_quantity ln);
               line_total_cents = map_option (\<lambda>(gid, cid, price). price * qty) info;
               used_up = (case promo of None \<Rightarrow> False
                          | Some p \<Rightarrow> max_per_user p \<le> count_promo_usages_for_user s (pc_id p) user_id)
           in case promo_rule_error s (env_now e) promo user_id goods False (Some used_up) line_total_cents of
                Some err \<Rightarrow> (cl_id ln, False, VALIDATE_PROMO_ERRORS err, None)
              | None \<Rightarrow> (cl_id ln, True, '''', promo)) coded)"

subsection \<open>Administration\<close>

definition create_promo_code ::
    "string \<Rightarrow> string \<Rightarrow> decimal \<Rightarrow> int \<Rightarrow> int option \<Rightarrow> int option \<Rightarrow> int option \<Rightarrow> int \<Rightarrow> int
     \<Rightarrow> shop \<Rightarrow> (int option \<times> shop) result" where
  "create_promo_code code discount_type discount_value max_uses expires_at category_id item_id
       min_order_cents max_uses_per_user s =
     (if category_id \<noteq> None \<and> item_id \<noteq> None
      then Inl (ValueError ''a promo code cannot be bound to both a category and an item'')
      else tx_bind
        (if discount_type = ''percent''
         then Inr (let q = 10 ^ nat (- exponent discount_value)
                   in if 0 \<le> exponent discount_value
                      then mantissa discount_value * 10 ^ nat (exponent discount_value)
                      else sgn (mantissa discount_value) * (\<bar>mantissa discount_value\<bar> div q))
         else rub_to_cents discount_value)
        (\<lambda>stored_value. run_session (\<lambda>s.
           if promo_by_code s (upper code) \<noteq> None then Inr (None, s)
           else Inr (Some (next_id s),
             s\<lparr>t_promos := t_promos s @
                 [\<lparr>pc_id = next_id s, pc_code = upper code, pc_discount_type = discount_type,
                    pc_discount_value = stored_value, pc_scope = promo_scope_for category_id item_id,
                    pc_max_uses = max_uses,
                    pc_max_uses_per_user = (if max_uses_per_user = 0 then 1 else max_uses_per_user),
                    pc_min_order_cents = min_order_cents, pc_current_uses = 0, pc_expires_at = expires_at,
                    pc_category_id = category_id, pc_item_id = item_id, pc_is_active = True\<rparr>],
               t_seq := next_id s\<rparr>)) s))"

definition toggle_promo_code :: "int \<Rightarrow> shop \<Rightarrow> (bool option \<times> shop) result" where
  "toggle_promo_code promo_id =
     run_session (\<lambda>s. case get_promo s promo_id of
         None \<Rightarrow> Inr (None, s)
       | Some p \<Rightarrow> Inr (Some (\<not> pc_is_active p), put_promo (p\<lparr>pc_is_active := \<not> pc_is_active p\<rparr>) s))"

text \<open>The usages of a deleted promo code go with it (\<open>ondelete='CASCADE'\<close>).\<close>

definition delete_promo_code :: "int \<Rightarrow> shop \<Rightarrow> (bool \<times> shop) result" where
  "delete_promo_code promo_id =
     run_session (\<lambda>s. case get_promo s promo_id of
         None \<Rightarrow> Inr (False, s)
       | Some p \<Rightarrow> Inr (True, s\<lparr>t_promos := filter (\<lambda>q. pc_id q \<noteq> promo_id) (t_promos s),
             t_promo_usages := filter (\<lambda>u. pu_promo_id u \<noteq> promo_id) (t_promo_usages s)\<rparr>))"

subsection \<open>Lemmas\<close>

text \<open>
  The counters of a promo code agree with its usage rows, and neither cap is exceeded: no more
  usages than \<open>max_uses\<close> (when it is positive), no more of one user than the per-user cap.
\<close>

definition usages_of :: "shop \<Rightarrow> int \<Rightarrow> promo_usage list" where
  "usages_of s pid = filter (\<lambda>u. pu_promo_id u = pid) (t_promo_usages s)"

definition promo_within_caps :: "shop \<Rightarrow> promo_code \<Rightarrow> bool" where
  "promo_within_caps s p \<longleftrightarrow>
     pc_current_uses p = int (length (usages_of s (pc_id p))) \<and>
     (0 < pc_max_uses p \<longrightarrow> pc_current_uses p \<le> pc_max_uses p)"

definition promos_ok :: "shop \<Rightarrow> bool" where
  "promos_ok s \<longleftrightarrow> distinct (map pc_id (t_promos s)) \<and> (\<forall>p \<in> set (t_promos s). promo_within_caps s p)"

lemma record_promo_usage_Inr:
  "record_promo_usage p uid oid s = Inr (u, s') \<longleftrightarrow>
     \<not> (0 < pc_max_uses p \<and> pc_max_uses p \<le> pc_current_uses p) \<and>
     count_promo_usages_for_user s (pc_id p) uid < max_per_user p \<and>
     s' = s\<lparr>t_promos := put_by pc_id (p\<lparr>pc_current_uses := pc_current_uses p + 1\<rparr>) (t_promos s),
        t_promo_usages := t_promo_usages s @ [\<lparr>pu_id = next_id s, pu_promo_id = pc_id p,
           pu_user_id = uid, pu_order_id = oid\<rparr>], t_seq := next_id s\<rparr>"
  by (auto simp: record_promo_usage_def Let_def put_promo_def next_id_def)

lemma record_promo_usage_Inl:
  "record_promo_usage p uid oid s = Inl e \<Longrightarrow>
     e = PromoUsageLimitError ''max_uses'' \<or> e = PromoUsageLimitError ''already_used''"
  by (auto simp: record_promo_usage_def Let_def split: if_splits)

lemma promo_rule_ok_usable:
  assumes "promo_rule_error s now (Some p) uid g rb None t = None"
  shows "pc_is_active p" "\<not> (0 < pc_max_uses p \<and> pc_max_uses p \<le> pc_current_uses p)"
    "count_promo_usages_for_user s (pc_id p) uid < max_per_user p"
  using assms by (auto simp: promo_rule_error_def split: if_splits)

lemma record_after_rule:
  assumes "promo_rule_error s now (Some p) uid g rb None t = None"
    and "t_promo_usages s' = t_promo_usages s"
  shows "\<exists>s''. record_promo_usage p uid oid s' = Inr ((), s'')"
  using promo_rule_ok_usable [OF assms(1)] assms(2)
  by (auto simp: record_promo_usage_def Let_def count_promo_usages_for_user_def)

lemma record_promo_usage_caps:
  assumes "promos_ok s" "get_promo s (pc_id p) = Some p" "record_promo_usage p uid oid s = Inr (u, s')"
  shows "promos_ok s'"
proof -
  let ?p = "p\<lparr>pc_current_uses := pc_current_uses p + 1\<rparr>"
  from assms(3) have cap: "\<not> (0 < pc_max_uses p \<and> pc_max_uses p \<le> pc_current_uses p)"
    and s': "t_promos s' = put_by pc_id ?p (t_promos s)"
      "t_promo_usages s' = t_promo_usages s @
         [\<lparr>pu_id = next_id s, pu_promo_id = pc_id p, pu_user_id = uid, pu_order_id = oid\<rparr>]"
    by (auto simp: record_promo_usage_Inr)
  have "p \<in> set (t_promos s)"
    using assms(2) by (auto simp: get_promo_def dest: find_by_Some_mem)
  then have p: "pc_current_uses p = int (length (usages_of s (pc_id p)))"
    using assms(1) by (auto simp: promos_ok_def promo_within_caps_def)
  have "promo_within_caps s' q" if "q \<in> set (t_promos s')" for q
  proof -
    have "q = ?p \<or> q \<in> set (t_promos s) \<and> pc_id q \<noteq> pc_id ?p"
      using that assms(1) mem_put_by [of pc_id "t_promos s" q ?p] by (simp add: s' promos_ok_def)
    then show ?thesis
      using p cap assms(1) s'(2) by (auto simp: promo_within_caps_def usages_of_def promos_ok_def)
  qed
  moreover have "distinct (map pc_id (t_promos s'))"
    using assms(1) by (simp add: s' keys_put promos_ok_def)
  ultimately show ?thesis by (auto simp: promos_ok_def)
qed

lemma record_promo_usage_user_cap:
  assumes "record_promo_usage p uid oid s = Inr (u, s')"
  shows "count_promo_usages_for_user s' (pc_id p) uid = count_promo_usages_for_user s (pc_id p) uid + 1"
    and "count_promo_usages_for_user s' (pc_id p) uid \<le> max_per_user p"
  using assms by (auto simp: record_promo_usage_Inr count_promo_usages_for_user_def)

subsection \<open>Properties\<close>

text \<open>C22: Recording a use of a promo code keeps its usage counter equal to its usage rows, never lets
  it exceed max_uses, and never lets one user exceed the per-user cap.\<close>
theorem promo_caps_kept:
  assumes "promos_ok s" "get_promo s (pc_id p) = Some p" "record_promo_usage p uid oid s = Inr ((), s')"
  shows "promos_ok s' \<and> count_promo_usages_for_user s' (pc_id p) uid \<le> max_per_user p \<and>
    count_promo_usages_for_user s' (pc_id p) uid = count_promo_usages_for_user s (pc_id p) uid + 1"
  using record_promo_usage_caps [OF assms] record_promo_usage_user_cap [OF assms(3)] by simp

lemma promo_caps_kept_witness:
  "\<exists>s'. record_promo_usage sample_promo 1 None sample_shop = Inr ((), s') \<and> promos_ok s' \<and>
    count_promo_usages_for_user s' 9 1 \<le> 1 \<and>
    count_promo_usages_for_user s' 9 1 = count_promo_usages_for_user sample_shop 9 1 + 1"
proof -
  have ok: "promos_ok sample_shop" "get_promo sample_shop (pc_id sample_promo) = Some sample_promo"
    by (simp_all add: promos_ok_def promo_within_caps_def usages_of_def get_promo_def sample_shop_def
        sample_promo_def empty_shop_def)
  have "\<exists>s'. record_promo_usage sample_promo 1 None sample_shop = Inr ((), s')"
    by (simp add: record_promo_usage_def count_promo_usages_for_user_def sample_shop_def sample_promo_def
        empty_shop_def max_per_user_def Let_def)
  then obtain s' where r: "record_promo_usage sample_promo 1 None sample_shop = Inr ((), s')" by blast
  have "pc_id sample_promo = 9" "max_per_user sample_promo = 1"
    by (simp_all add: sample_promo_def max_per_user_def)
  with promo_caps_kept [OF ok r] r show ?thesis by auto
qed

theorem accepted_promo_is_recorded:
  assumes "promo_rule_error s now (Some p) uid g require_balance None order_total = None"
    and "t_promo_usages s' = t_promo_usages s"
  shows "\<exists>s''. record_promo_usage p uid oid s' = Inr ((), s'')"
  by (rule record_after_rule [OF assms])

lemma accepted_promo_is_recorded_witness:
  "\<exists>s''. record_promo_usage sample_promo 1 (Some 21) sample_shop = Inr ((), s'')"
proof -
  have "promo_rule_error sample_shop 1000 (Some sample_promo) 1 (Some (3, 7)) False None (Some 1999) = None"
    by (simp add: promo_rule_error_def sample_promo_def truthy_id_def max_per_user_def
        count_promo_usages_for_user_def sample_shop_def empty_shop_def)
  from accepted_promo_is_recorded [OF this refl] show ?thesis .
qed

end
