(* ===== verification/Checkout.thy ===== *)
theory Checkout
  imports Fulfillment Promos
begin

text \<open>
  \<open>bot/database/methods/transactions.py\<close>, the two purchase transactions.  \<open>buy_body\<close> and
  \<open>checkout_body\<close> are the bodies of the sessions, \<open>buy_loop\<close> and \<open>checkout_loop\<close> the retry loops
  around them.  The caches of \<open>checkout_cart_transaction\<close> (\<open>promos_by_code\<close>,
  \<open>promo_usage_count\<close>) hold what the same query would return again, since the loop changes no promo
  row, and are not kept apart.
\<close>

subsection \<open>One product\<close>

definition BUY_PROMO_ERRORS :: "string \<Rightarrow> string" where
  "BUY_PROMO_ERRORS err =
     (if err = ''not_found'' \<or> err = ''inactive'' \<or> err = ''wrong_type'' then ''promo_invalid''
      else ''promo_'' @ err)"

text \<open>\<open>except FulfillmentError / StockAllocationError as exc: raise _Abort(exc.code)\<close>\<close>

definition abort_on_line_error :: "'a result \<Rightarrow> 'a result" where
  "abort_on_line_error m =
     (case m of Inl (FulfillmentError c) \<Rightarrow> Inl (Abort c)
      | Inl (StockAllocationError c) \<Rightarrow> Inl (Abort c) | _ \<Rightarrow> m)"

definition buy_check_gift :: "shop \<Rightarrow> int \<Rightarrow> goods \<Rightarrow> int option \<Rightarrow> unit result" where
  "buy_check_gift s telegram_id g gift =
     (case gift of None \<Rightarrow> Inr ()
      | Some r \<Rightarrow> tx_bind (abort_on_line_error (assert_gift_purchase_allowed g gift)) (\<lambda>_.
          if r = telegram_id then Inl (Abort ''gift_recipient_not_registered'')
          else if get_user s r = None then Inl (Abort ''gift_recipient_not_registered'') else Inr ()))"

text \<open>The final price, the applied promo code and its description.\<close>

definition buy_price ::
    "env \<Rightarrow> shop \<Rightarrow> int \<Rightarrow> goods \<Rightarrow> string option \<Rightarrow> (int \<times> promo_code option \<times> discount_info option) result" where
  "buy_price e s telegram_id g promo_code =
     (let price = fst (effective_price g (env_now e))
      in if promo_code = None \<or> promo_code = Some [] then Inr (price, None, None)
         else (let promo = promo_by_code s (upper (the promo_code))
               in case promo_rule_error s (env_now e) promo telegram_id (Some (goods_key g)) False None (Some price) of
                    Some err \<Rightarrow> Inl (Abort (BUY_PROMO_ERRORS err))
                  | None \<Rightarrow>
                     (case promo of None \<Rightarrow> Inl (Abort ''promo_invalid'')
                      | Some p \<Rightarrow>
                         (let final_price = apply_promo_discount price (pc_discount_type p) (pc_discount_value p) 1
                          in Inr (final_price, Some p,
                               Some \<lparr>di_code = pc_code p, di_original_price = cents_to_float_rub price,
                                     di_discount = cents_to_float_rub (price - final_price)\<rparr>)))))"

definition buy_line ::
    "env \<Rightarrow> user \<Rightarrow> goods \<Rightarrow> int \<Rightarrow> int \<Rightarrow> int option \<Rightarrow> int \<Rightarrow> shop
     \<Rightarrow> ((bought_goods list \<times> order \<times> int option) \<times> shop) result" where
  "buy_line e u g price discount_cents gift cost_cents s =
     (if g_fulfillment_type g = FulfillApi
      then tx_bind (begin_paid_order e u g 1 price discount_cents gift cost_cents s) (\<lambda>(x, s1).
           tx_bind (purchase_api_line x g s1) (\<lambda>(x1, s2). Inr (([], x1, Some (o_id x1)), s2)))
      else tx_bind (consume_stock_units g 1 s) (\<lambda>(delivered, s1).
           tx_bind (begin_paid_order e u g 1 price discount_cents gift 0 s1) (\<lambda>(x, s2).
           tx_bind (purchase_stock_line e x g 1 (Some delivered) s2) (\<lambda>((rows, x1), s3).
             Inr ((rows, x1, None), s3)))))"

definition buy_record_promo :: "int \<Rightarrow> promo_code option \<Rightarrow> order \<Rightarrow> shop \<Rightarrow> (unit \<times> shop) result" where
  "buy_record_promo telegram_id applied x s =
     (case applied of None \<Rightarrow> Inr ((), s)
      | Some p \<Rightarrow>
         (case record_promo_usage p telegram_id (Some (o_id x)) s of
            Inl (PromoUsageLimitError c) \<Rightarrow> Inl (Abort (BUY_PROMO_ERRORS c))
          | r \<Rightarrow> r))"

definition buy_body ::
    "env \<Rightarrow> int \<Rightarrow> string \<Rightarrow> string option \<Rightarrow> int option \<Rightarrow> shop
     \<Rightarrow> ((purchase_data \<times> int option) \<times> shop) result" where
  "buy_body e telegram_id item_name promo_code gift s =
     (case get_user s telegram_id of
        None \<Rightarrow> Inl (Abort ''user_not_found'')
      | Some u \<Rightarrow>
     (case goods_by_name s item_name of
        None \<Rightarrow> Inl (Abort ''item_not_found'')
      | Some g \<Rightarrow>
     tx_bind (buy_check_gift s telegram_id g gift) (\<lambda>_.
     tx_bind (buy_price e s telegram_id g promo_code) (\<lambda>(final_price, applied, info).
     let price = fst (effective_price g (env_now e));
         discount_cents = (if promo_code = None \<or> promo_code = Some [] then 0 else price - final_price)
     in tx_bind (if g_fulfillment_type g = FulfillApi
                 then (case select_primary_link s (g_id g) of
                         None \<Rightarrow> Inl (Abort ''no_provider_link'') | Some l \<Rightarrow> Inr (gpl_cost_cents l))
                 else Inr 0) (\<lambda>cost_cents.
     tx_bind (abort_on_line_error (buy_line e u g price discount_cents gift cost_cents s)) (\<lambda>((rows, x, api), s1).
     tx_bind (buy_record_promo telegram_id applied x s1) (\<lambda>(_, s2).
       Inr ((purchase_result_from_order x g rows (balance_of s2 telegram_id) info, api), s2))))))))"

type_synonym outcome = "bool \<times> string \<times> purchase_data option"

fun buy_loop ::
    "nat \<Rightarrow> env \<Rightarrow> int \<Rightarrow> string \<Rightarrow> string option \<Rightarrow> int option \<Rightarrow> shop \<Rightarrow> outcome \<times> shop" where
  "buy_loop 0 e telegram_id item_name promo_code gift s = ((False, ''transaction_error'', None), s)"
| "buy_loop (Suc n) e telegram_id item_name promo_code gift s =
     (let attempt = 2 - n;
          failed = ((False, ''transaction_error'', None),
            log_audit ''purchase_failed'' ''WARNING'' (Some telegram_id) (Some ''Item'') (Some item_name) s)
      in case run_session (buy_body (e\<lparr>env_attempt := attempt\<rparr>) telegram_id item_name promo_code gift) s of
           Inl (Abort c) \<Rightarrow> ((False, c, None), s)
         | Inl (IntegrityError m) \<Rightarrow>
             if m = ''unique_id'' \<and> attempt < 2 then buy_loop n e telegram_id item_name promo_code gift s
             else failed
         | Inl _ \<Rightarrow> failed
         | Inr ((d, api), s1) \<Rightarrow>
             ((True, ''success'', Some d),
              (case api of None \<Rightarrow> id | Some oid \<Rightarrow> safe_create_task (FulfillProcessingOrder oid))
                (safe_create_task (InvalidateItemCache item_name None)
                  (safe_create_task InvalidateStatsCache
                    (safe_create_task (InvalidateUserCache telegram_id) s1)))))"

definition buy_item_transaction ::
    "env \<Rightarrow> int \<Rightarrow> string \<Rightarrow> string option \<Rightarrow> int option \<Rightarrow> shop \<Rightarrow> outcome \<times> shop" where
  "buy_item_transaction = buy_loop 3"

subsection \<open>The cart\<close>

record purchase_line =
  pl_cart_id :: int
  pl_goods :: goods
  pl_qty :: int
  pl_unit_price :: int
  pl_line_price :: int
  pl_promo :: "promo_code option"
  pl_delivered :: "string option list"

definition line_promo ::
    "env \<Rightarrow> shop \<Rightarrow> int \<Rightarrow> goods \<Rightarrow> string option \<Rightarrow> int \<Rightarrow> promo_code option" where
  "line_promo e s user_id g code line_price =
     (if code = None \<or> code = Some [] then None
      else case promo_by_code s (upper (the code)) of
        None \<Rightarrow> None
      | Some candidate \<Rightarrow>
         (let used_up = max_per_user candidate \<le> count_promo_usages_for_user s (pc_id candidate) user_id
          in if promo_rule_error s (env_now e) (Some candidate) user_id (Some (goods_key g)) False
                  (Some used_up) (Some line_price) = None
             then Some candidate else None))"

text \<open>The loop over the cart: the purchase lines, and the ids of the lines to remove.\<close>

fun resolve_cart ::
    "env \<Rightarrow> int \<Rightarrow> cart_item list \<Rightarrow> shop \<Rightarrow> ((purchase_line list \<times> int list) \<times> shop) result" where
  "resolve_cart e user_id [] s = Inr (([], []), s)"
| "resolve_cart e user_id (ci # cs) s =
     (case get_goods s (ci_item_id ci) of
        None \<Rightarrow> tx_bind (resolve_cart e user_id cs s) (\<lambda>((ls, rm), s1). Inr ((ls, ci_id ci # rm), s1))
      | Some g \<Rightarrow>
          if infinite_row s (g_id g) = None \<and> count_finite_available_units s (g_id g) = 0
          then tx_bind (resolve_cart e user_id cs s) (\<lambda>((ls, rm), s1). Inr ((ls, ci_id ci # rm), s1))
          else tx_bind (abort_on_line_error (consume_stock_units g (ci_quantity ci) s)) (\<lambda>(delivered, s1).
            let price = fst (effective_price g (env_now e));
                line_price = price * ci_quantity ci;
                line = \<lparr>pl_cart_id = ci_id ci, pl_goods = g, pl_qty = ci_quantity ci, pl_unit_price = price,
                        pl_line_price = line_price,
                        pl_promo = line_promo e s1 user_id g (ci_promo_code ci) line_price,
                        pl_delivered = delivered\<rparr>
            in tx_bind (resolve_cart e user_id cs s1) (\<lambda>((ls, rm), s2). Inr ((line # ls, rm), s2))))"

definition has_promo :: "int \<Rightarrow> purchase_line \<Rightarrow> bool" where
  "has_promo pid l \<longleftrightarrow> map_option pc_id (pl_promo l) = Some pid"

text \<open>\<open>max(eligible, key=lambda p: (p['line_price'], -p['cart_id']))\<close>: the first maximal element.\<close>

definition line_less :: "purchase_line \<Rightarrow> purchase_line \<Rightarrow> bool" where
  "line_less a b \<longleftrightarrow> pl_line_price a < pl_line_price b \<or>
     pl_line_price a = pl_line_price b \<and> pl_cart_id b < pl_cart_id a"

fun best_line :: "purchase_line \<Rightarrow> purchase_line list \<Rightarrow> purchase_line" where
  "best_line b [] = b"
| "best_line b (l # ls) = best_line (if line_less b l then l else b) ls"

definition apply_promo_to_cart :: "promo_code \<Rightarrow> purchase_line list \<Rightarrow> purchase_line list" where
  "apply_promo_to_cart promo ls =
     (case filter (has_promo (pc_id promo)) ls of
        [] \<Rightarrow> ls
      | l # rest \<Rightarrow>
         (let best = best_line l rest
          in map (\<lambda>p. if \<not> has_promo (pc_id promo) p then p
                       else if pl_cart_id p = pl_cart_id best
                       then p\<lparr>pl_line_price := apply_promo_discount (pl_unit_price p) (pc_discount_type promo)
                                (pc_discount_value promo) (pl_qty p)\<rparr>
                       else p\<lparr>pl_promo := None\<rparr>) ls))"

text \<open>The distinct promo codes of the lines, in order of their first occurrence.\<close>

fun distinct_promos :: "purchase_line list \<Rightarrow> promo_code list" where
  "distinct_promos [] = []"
| "distinct_promos (l # ls) =
     (case pl_promo l of None \<Rightarrow> distinct_promos ls
      | Some p \<Rightarrow> p # filter (\<lambda>q. pc_id q \<noteq> pc_id p) (distinct_promos ls))"

definition discount_cart :: "purchase_line list \<Rightarrow> purchase_line list" where
  "discount_cart ls = fold apply_promo_to_cart (distinct_promos ls) ls"

definition cart_total :: "purchase_line list \<Rightarrow> int" where
  "cart_total ls = sum_list (map pl_line_price ls)"

record receipt_row =
  rr_item_name :: string
  rr_value :: string
  rr_price :: rat
  rr_bought_id :: int
  rr_unique_id :: int

definition receipt_of :: "bought_goods \<Rightarrow> receipt_row" where
  "receipt_of b = \<lparr>rr_item_name = bg_item_name b, rr_value = bg_value b,
     rr_price = cents_to_float_rub (bg_price b), rr_bought_id = bg_id b, rr_unique_id = bg_unique_id b\<rparr>"

fun deliver_cart :: "env \<Rightarrow> int \<Rightarrow> purchase_line list \<Rightarrow> shop \<Rightarrow> (bought_goods list \<times> shop) result" where
  "deliver_cart e user_id [] s = Inr ([], s)"
| "deliver_cart e user_id (p # ps) s =
     tx_bind (insert_bought e (g_name (pl_goods p)) user_id None
                (zip (pl_delivered p) (split_amount (pl_line_price p) (pl_qty p))) s) (\<lambda>(rows, s1).
     tx_bind (deliver_cart e user_id ps s1) (\<lambda>(more, s2). Inr (rows @ more, s2)))"

fun record_cart_promos :: "int \<Rightarrow> promo_code list \<Rightarrow> shop \<Rightarrow> (unit \<times> shop) result" where
  "record_cart_promos user_id [] s = Inr ((), s)"
| "record_cart_promos user_id (p # ps) s =
     (case record_promo_usage p user_id None s of
        Inl (PromoUsageLimitError _) \<Rightarrow> Inl (Abort ''transaction_error'')
      | Inl err \<Rightarrow> Inl err
      | Inr (_, s1) \<Rightarrow> record_cart_promos user_id ps s1)"

type_synonym cart_outcome = "bool \<times> string \<times> receipt_row list option"

definition checkout_body :: "env \<Rightarrow> int \<Rightarrow> int option \<Rightarrow> shop \<Rightarrow> (cart_outcome \<times> shop) result" where
  "checkout_body e user_id expected_total s =
     (case get_user s user_id of
        None \<Rightarrow> Inl (Abort ''user_not_found'')
      | Some u \<Rightarrow>
         (let cart_items = filter (\<lambda>ci. ci_user_id ci = user_id) (t_cart s)
          in if cart_items = [] then Inl (Abort ''cart_empty'')
             else tx_bind (resolve_cart e user_id cart_items s) (\<lambda>((resolved, to_remove), s1).
               let ps = discount_cart resolved;
                   total_price = cart_total ps;
                   s2 = s1\<lparr>t_cart := filter (\<lambda>ci. ci_id ci \<notin> set to_remove) (t_cart s1)\<rparr>
               in if ps = [] then Inr ((False, ''cart_items_unavailable'', None), s2)
                  else if expected_total \<noteq> None \<and> expected_total \<noteq> Some total_price
                  then Inl (Abort ''price_changed'')
                  else if u_balance u < total_price then Inl (Abort ''insufficient_funds'')
                  else tx_bind (deliver_cart e user_id ps s2) (\<lambda>(rows, s3).
                    tx_bind (record_cart_promos user_id (distinct_promos resolved) s3) (\<lambda>(_, s4).
                      let s5 = put_user (u\<lparr>u_balance := u_balance u - total_price\<rparr>) s4
                      in Inr ((True, ''success'', Some (map receipt_of rows)),
                           s5\<lparr>t_cart := filter (\<lambda>ci. ci_user_id ci \<noteq> user_id) (t_cart s5)\<rparr>))))))"

fun checkout_loop :: "nat \<Rightarrow> env \<Rightarrow> int \<Rightarrow> int option \<Rightarrow> shop \<Rightarrow> cart_outcome \<times> shop" where
  "checkout_loop 0 e user_id expected_total s = ((False, ''transaction_error'', None), s)"
| "checkout_loop (Suc n) e user_id expected_total s =
     (let attempt = 2 - n;
          failed = ((False, ''transaction_error'', None),
            log_audit ''cart_checkout_failed'' ''WARNING'' (Some user_id) None None s)
      in case run_session (checkout_body (e\<lparr>env_attempt := attempt\<rparr>) user_id expected_total) s of
           Inl (Abort c) \<Rightarrow> ((False, c, None), s)
         | Inl (IntegrityError m) \<Rightarrow>
             if m = ''unique_id'' \<and> attempt < 2 then checkout_loop n e user_id expected_total s else failed
         | Inl _ \<Rightarrow> failed
         | Inr ((ok, code, receipt), s1) \<Rightarrow>
             ((ok, code, receipt),
              if ok then fold (\<lambda>name. safe_create_task (InvalidateItemCache name None))
                  (remdups (map rr_item_name (case receipt of None \<Rightarrow> [] | Some rs \<Rightarrow> rs)))
                  (safe_create_task InvalidateStatsCache (safe_create_task (InvalidateUserCache user_id) s1))
              else s1))"

definition checkout_cart_transaction :: "env \<Rightarrow> int \<Rightarrow> int option \<Rightarrow> shop \<Rightarrow> cart_outcome \<times> shop" where
  "checkout_cart_transaction = checkout_loop 3"

end
