(* ===== verification/Purchases.thy ===== *)
theory Purchases
  imports Checkout
begin

text \<open>
  What the two purchase transactions do to the shop: the effect of a successful purchase on
  balances, orders, stock, purchase rows and promo counters, the outcome of every branch, and that
  a reported failure leaves nothing behind but an audit row.
\<close>

subsection \<open>Effects of the parts\<close>

lemma abort_on_line_error_Inr [tx_simps, simp]: "abort_on_line_error m = Inr r \<longleftrightarrow> m = Inr r"
  by (auto simp: abort_on_line_error_def split: sum.splits exn.splits)

lemma complete_stock_Inr:
  assumes "complete_stock_order e x g vs s = Inr ((rows, y), s')" "o_status x = PROCESSING"
  obtains a z s2 where
    "record_bought_units e x g (zip vs (split_amount (o_total_cents x) (int (length vs)))) s =
       Inr (rows, s\<lparr>t_bought := t_bought s @ rows, t_seq := t_seq s + int (length vs)\<rparr>)"
    "credit_referral_for_order e (x\<lparr>o_status := COMPLETED\<rparr>)
       (s\<lparr>t_bought := t_bought s @ rows, t_seq := t_seq s + int (length vs)\<rparr>) = Inr ((a, z), s2)"
    "y = mark_completed e z"
    "s' = append_history y (Some PROCESSING) COMPLETED (Some (o_user_id x)) s2"
proof -
  from assms obtain s1 where r: "record_bought_units e x g
      (zip vs (split_amount (o_total_cents x) (int (length vs)))) s = Inr (rows, s1)"
    and t: "transition_order e x COMPLETED (Some (o_user_id x)) s1 = Inr (y, s')"
    by (auto simp: complete_stock_order_def Let_def tx_simps)
  have s1: "s1 = s\<lparr>t_bought := t_bought s @ rows, t_seq := t_seq s + int (length vs)\<rparr>"
    using record_bought_units_Inr(1) [OF r] by simp
  from t [unfolded transition_completed [OF assms(2)]] obtain a z s2 where
    "credit_referral_for_order e (x\<lparr>o_status := COMPLETED\<rparr>) s1 = Inr ((a, z), s2)"
    "y = mark_completed e z" "s' = append_history y (Some PROCESSING) COMPLETED (Some (o_user_id x)) s2"
    by (auto simp: tx_simps)
  with r show ?thesis unfolding s1 by (rule that)
qed

text \<open>The invariant every operation keeps: keys are unique and histories are legal.\<close>

definition shop_ok :: "shop \<Rightarrow> bool" where
  "shop_ok s \<longleftrightarrow> users_ok s \<and> orders_ok s \<and> distinct_values s \<and> earnings_ok s"

text \<open>The CHECK constraints after a table changed.\<close>

lemma list_all_put_by: "list_all P rows \<Longrightarrow> P r \<Longrightarrow> list_all P (put_by key r rows)"
  using set_put [of key r rows] by (auto simp: list_all_iff)

lemma credit_referral_checks:
  assumes "credit_referral_for_order e x s = Inr ((a, y), s')"
  shows "list_all user_check (t_users s) \<Longrightarrow> list_all user_check (t_users s')"
    and "list_all (\<lambda>r. re_referrer_id r \<noteq> re_referral_id r) (t_earnings s) \<Longrightarrow>
      list_all (\<lambda>r. re_referrer_id r \<noteq> re_referral_id r) (t_earnings s')"
proof -
  have "(list_all user_check (t_users s) \<longrightarrow> list_all user_check (t_users s')) \<and>
      (list_all (\<lambda>r. re_referrer_id r \<noteq> re_referral_id r) (t_earnings s) \<longrightarrow>
       list_all (\<lambda>r. re_referrer_id r \<noteq> re_referral_id r) (t_earnings s'))"
    using assms
  proof (cases rule: credit_referral_cases)
    case none
    then show ?thesis by simp
  next
    case (paid r row)
    have t: "t_earnings s' = t_earnings s @ [row]"
      "t_users s' = put_by u_id (r\<lparr>u_balance := u_balance r + a\<rparr>) (t_users s)"
      by (subst paid(11), simp)+
    have "user_check (r\<lparr>u_balance := u_balance r + a\<rparr>)" if "list_all user_check (t_users s)"
    proof -
      have "r \<in> set (t_users s)" using paid(1) by (auto simp: get_user_def dest: find_by_Some_mem)
      with that have "user_check r" by (simp add: list_all_iff)
      with paid(3) show ?thesis by (simp add: user_check_def)
    qed
    with paid(2,7) show ?thesis by (auto simp: t intro: list_all_put_by)
  qed
  then show "list_all user_check (t_users s) \<Longrightarrow> list_all user_check (t_users s')"
    and "list_all (\<lambda>r. re_referrer_id r \<noteq> re_referral_id r) (t_earnings s) \<Longrightarrow>
      list_all (\<lambda>r. re_referrer_id r \<noteq> re_referral_id r) (t_earnings s')" by blast+
qed

lemma record_promo_frame:
  assumes "record_promo_usage p uid oid s = Inr (r, s')"
  shows "t_users s' = t_users s" "t_orders s' = t_orders s" "t_bought s' = t_bought s"
    "t_item_values s' = t_item_values s" "t_history s' = t_history s" "t_earnings s' = t_earnings s"
    "t_seq s' = t_seq s + 1" "t_cart s' = t_cart s" "t_operations s' = t_operations s"
    "t_reviews s' = t_reviews s" "t_tickets s' = t_tickets s" "t_payments s' = t_payments s"
  using assms by (auto simp: record_promo_usage_Inr next_id_def)

lemma buy_record_promo_Inr:
  assumes "buy_record_promo uid applied x s = Inr (r, s')"
  shows "applied = None \<and> s' = s \<or>
    (\<exists>p. applied = Some p \<and> record_promo_usage p uid (Some (o_id x)) s = Inr ((), s'))"
  using assms by (auto simp: buy_record_promo_def split: option.splits sum.splits exn.splits)

lemma buy_price_Inr:
  assumes "buy_price e s uid g code = Inr (fp, applied, info)"
  shows "applied = None \<and> fp = fst (effective_price g (env_now e)) \<and> (code = None \<or> code = Some []) \<or>
    (\<exists>p c. code = Some c \<and> c \<noteq> [] \<and> applied = Some p \<and> promo_by_code s (upper c) = Some p \<and>
      promo_rule_error s (env_now e) (Some p) uid (Some (goods_key g)) False None
        (Some (fst (effective_price g (env_now e)))) = None \<and>
      fp = apply_promo_discount (fst (effective_price g (env_now e))) (pc_discount_type p)
             (pc_discount_value p) 1)"
proof (cases "code = None \<or> code = Some []")
  case True
  with assms show ?thesis by (auto simp: buy_price_def Let_def)
next
  case False
  then obtain c where c: "code = Some c" "c \<noteq> []" by auto
  show ?thesis
  proof (cases "promo_by_code s (upper c)")
    case None
    with assms c show ?thesis by (simp add: buy_price_def Let_def split: option.splits)
  next
    case (Some p)
    with assms c show ?thesis by (auto simp: buy_price_def Let_def split: option.splits)
  qed
qed

lemma buy_price_bounds:
  assumes "buy_price e s uid g code = Inr (fp, applied, info)" "0 \<le> g_price g"
  shows "0 \<le> fp" "fp \<le> fst (effective_price g (env_now e))"
  using buy_price_Inr [OF assms(1)] effective_price_bounds [OF assms(2), of "env_now e"]
    apply_promo_discount_nonneg apply_promo_discount_le [of "fst (effective_price g (env_now e))" _ _ 1]
  by auto

subsection \<open>A purchase from stock\<close>

text \<open>
  The whole effect of a successful line: the order \<open>y\<close> is completed and paid by \<open>u\<close>, one purchase
  row carries its total, the stock lost what \<open>consume_stock_units\<close> took, and the balances moved by
  the price and the referral bonus.
\<close>

lemma buy_line_stock:
  assumes line: "buy_line e u g p d gift c s = Inr ((rows, y, api), s')"
    and stock: "g_fulfillment_type g = FulfillStock" and u: "get_user s (u_id u) = Some u"
    and ok: "shop_ok s"
  obtains v row sA where "api = None" "rows = [row]" "consume_stock_units g 1 s = Inr ([Some v], sA)"
    "bg_value row = v" "bg_price row = o_total_cents y" "bg_order_id row = Some (o_id y)"
    "bg_buyer_id row = Some (case gift of None \<Rightarrow> u_id u | Some r \<Rightarrow> r)" "bg_item_name row = g_name g"
    "o_status y = COMPLETED" "o_user_id y = u_id u" "o_goods_id y = g_id g" "o_quantity y = 1"
    "o_price_cents y = p" "o_discount_cents y = d" "o_total_cents y = max 0 (p - d)"
    "o_total_cents y \<le> u_balance u" "o_id y = t_seq s + 1" "o_provider_external_order_id y = None"
    "get_order s' (o_id y) = Some y" "orders_ok s'"
    "t_bought s' = t_bought s @ [row]" "t_item_values s' = t_item_values sA"
    "t_promos s' = t_promos s" "t_promo_usages s' = t_promo_usages s"
    "t_orders s' = t_orders s @ [y]" "t_cart s' = t_cart s" "t_operations s' = t_operations s"
    "\<And>k. balance_of s' k = balance_of s k - (if k = u_id u then o_total_cents y else 0)
       + bonus_for (order_bonus e s (u_id u) (o_total_cents y)) k"
    "\<And>k. get_user s' k = None \<longleftrightarrow> get_user s k = None" "shop_ok s'"
    "check_violation s = None \<Longrightarrow> check_violation s' = None"
proof -
  from line stock obtain vs sA x sB where
    cons: "consume_stock_units g 1 s = Inr (vs, sA)" and
    beg: "begin_paid_order e u g 1 p d gift 0 sA = Inr (x, sB)" and
    fin: "purchase_stock_line e x g 1 (Some vs) sB = Inr ((rows, y), s')" and api: "api = None"
    by (auto simp: buy_line_def tx_simps)
  from consume_stock_units_frame [OF cons] obtain P where
    sA: "sA = s\<lparr>t_item_values := filter P (t_item_values s)\<rparr>" by blast
  from consume_length [OF cons] obtain w where vs: "vs = [w]" by (auto simp: length_Suc_conv)
  from beg obtain x0 s1 where x0: "max 0 (p * 1 - d) \<le> u_balance u"
    "create_order_with_snapshot e (u_id u) (g_id g) 1 (dec_div_100 p) d 0 0 0
       (resolve_delivery_type g gift) None None None gift sA = Inr (x0, s1)"
    "x = start_processing e x0"
    "sB = append_history x (Some CREATED) PROCESSING (Some (u_id u))
       (put_user (u\<lparr>u_balance := u_balance u - max 0 (p * 1 - d)\<rparr>) s1)"
    by (rule begin_paid_order_Inr)
  from x0(2) obtain un where un: "rub_to_cents (dec_div_100 p) = Inr un" "o_id x0 = t_seq sA + 1"
    "o_user_id x0 = u_id u" "o_goods_id x0 = g_id g" "o_quantity x0 = 1" "o_price_cents x0 = un"
    "o_discount_cents x0 = d" "o_total_cents x0 = max 0 (un * 1 - d)" "o_status x0 = CREATED"
    "o_gift_telegram_id x0 = gift" "o_provider_external_order_id x0 = None"
    "s1 = append_history x0 None CREATED (Some (u_id u)) (sA\<lparr>t_orders := t_orders sA @ [x0], t_seq := t_seq sA + 1\<rparr>)"
    by (rule create_order_Inr)
  have unp: "un = p" by (rule rub_to_cents_div_100_Inr [OF un(1)])
  have xs: "o_status x = PROCESSING" "o_id x = t_seq s + 1" "o_user_id x = u_id u" "o_goods_id x = g_id g"
    "o_quantity x = 1" "o_price_cents x = p" "o_discount_cents x = d" "o_total_cents x = max 0 (p - d)"
    "o_gift_telegram_id x = gift" "o_provider_external_order_id x = None"
    using un unp by (simp_all add: x0(3) start_processing_def sA)
  from fin have comp: "complete_stock_order e x g [w] sB = Inr ((rows, y), s')"
    by (simp add: purchase_stock_line_def vs)
  from comp xs(1) obtain a z s2 where
    rec: "record_bought_units e x g (zip [w] (split_amount (o_total_cents x) (int (length [w])))) sB =
       Inr (rows, sB\<lparr>t_bought := t_bought sB @ rows, t_seq := t_seq sB + int (length [w])\<rparr>)" and
    cred0: "credit_referral_for_order e (x\<lparr>o_status := COMPLETED\<rparr>)
       (sB\<lparr>t_bought := t_bought sB @ rows, t_seq := t_seq sB + int (length [w])\<rparr>) = Inr ((a, z), s2)" and
    y: "y = mark_completed e z" and
    s': "s' = append_history y (Some PROCESSING) COMPLETED (Some (o_user_id x)) s2"
    by (rule complete_stock_Inr)
  let ?sC = "sB\<lparr>t_bought := t_bought sB @ rows, t_seq := t_seq sB + 1\<rparr>"
  have cred: "credit_referral_for_order e (x\<lparr>o_status := COMPLETED\<rparr>) ?sC = Inr ((a, z), s2)"
    using cred0 by simp
  have zx: "z = x\<lparr>o_status := COMPLETED, o_referral_amount_cents := o_referral_amount_cents z\<rparr>"
    using credit_referral_order [OF cred] by simp
  have ys: "o_status y = COMPLETED" "o_id y = t_seq s + 1" "o_user_id y = u_id u" "o_goods_id y = g_id g"
    "o_quantity y = 1" "o_price_cents y = p" "o_discount_cents y = d" "o_total_cents y = max 0 (p - d)"
    "o_provider_external_order_id y = None"
    using xs by (subst y, subst zx, simp add: mark_completed_def)+
  from record_bought_units_Inr(2-4) [OF rec] obtain row where row: "rows = [row]"
    "bg_price row = o_total_cents x" "Some (bg_value row) = w" "bg_order_id row = Some (o_id x)"
    "bg_item_name row = g_name g" "bg_buyer_id row = Some (delivery_recipient_telegram_id x)"
    by (auto simp: map_eq_Cons_conv)
  have okA: "orders_ok sA" using ok by (simp add: sA shop_ok_def orders_ok_def history_of_def)
  have ok1: "orders_ok s1" "get_order s1 (o_id x0) = Some x0" using create_order_ok [OF x0(2) okA] by auto
  have "transition_order e x0 PROCESSING (Some (u_id u))
      (put_user (u\<lparr>u_balance := u_balance u - max 0 (p * 1 - d)\<rparr>) s1) = Inr (x, sB)"
    using transition_processing [OF un(9)] by (simp add: x0(3,4))
  moreover have "orders_ok (put_user v s1)" "in_sync (put_user v s1) x0" for v
    using ok1 by (auto simp: orders_ok_def put_user_def history_of_def in_sync_def get_order_def)
  ultimately have okB: "orders_ok sB" "in_sync sB x" by (auto dest: transition_order_ok)
  have "orders_ok ?sC" "in_sync ?sC x"
    using okB by (auto simp: orders_ok_def history_of_def in_sync_def get_order_def)
  moreover have tr: "transition_order e x COMPLETED (Some (o_user_id x)) ?sC = Inr (y, s')"
    unfolding transition_completed [OF xs(1)] cred y s' by simp
  ultimately have okE: "orders_ok s'" by (auto dest: transition_order_ok(1))
  have usersB: "t_users sB = put_by u_id (u\<lparr>u_balance := u_balance u - max 0 (p - d)\<rparr>) (t_users s)"
    by (simp add: x0(4) un(12) put_user_def sA)
  have fresh: "o_id x0 \<notin> o_id ` set (t_orders s)"
    using ok un(2) by (force simp: shop_ok_def orders_ok_def sA)
  have ordB: "t_orders sB = t_orders s @ [x]"
    using fresh by (simp add: x0(4) un(12) put_user_def sA put_by_append put_absent x0(3) start_processing_def)
  have ordE: "t_orders s' = t_orders s @ [y]"
    using fresh credit_referral_tables(1) [OF cred] un(2) ys(2) xs(2)
    by (simp add: s' ordB put_by_append put_absent sA)
  have bal: "balance_of ?sC k = balance_of s k - (if k = u_id u then max 0 (p - d) else 0)" for k
    using u by (auto simp: balance_of_def get_user_def usersB find_put split: option.split dest: find_by_Some_key)
  have ex: "get_user ?sC k = None \<longleftrightarrow> get_user s k = None" for k
    by (simp add: get_user_def usersB find_put)
  have gu: "get_user ?sC (u_id u) = Some (u\<lparr>u_balance := u_balance u - max 0 (p - d)\<rparr>)"
    using u by (simp add: get_user_def usersB find_put)
  have bon: "order_bonus e ?sC (u_id u) t = order_bonus e s (u_id u) t" for t
    by (simp add: order_bonus_def Let_def gu u ex referrer_of_def split: option.split)
  have "earning_of_order ?sC k = earning_of_order s k" for k
    by (simp add: earning_of_order_def x0(4) un(12) sA put_user_def)
  then have none: "earning_of_order ?sC (o_id (x\<lparr>o_status := COMPLETED\<rparr>)) = None"
    using ok xs(2) by (simp add: no_earning_of_fresh shop_ok_def)
  have balE: "balance_of s' k = balance_of s k - (if k = u_id u then o_total_cents y else 0)
       + bonus_for (order_bonus e s (u_id u) (o_total_cents y)) k" for k
  proof -
    have "balance_of s' k = balance_of s2 k" by (rule balance_of_users) (simp add: s')
    also have "\<dots> = balance_of ?sC k + bonus_for (order_bonus e ?sC (u_id u) (max 0 (p - d))) k"
      using credit_referral_bonus(1) [OF cred _ none, of k] xs(3,8) by simp
    finally show ?thesis by (simp only: bal bon ys(8))
  qed
  have exE: "get_user s' k = None \<longleftrightarrow> get_user s k = None" for k
    using credit_referral_bonus(2) [OF cred _ none, of k] ex [of k] by (simp add: s' get_user_def)
  have tables: "t_bought s' = t_bought s @ [row]" "t_item_values s' = t_item_values sA"
    "t_promos s' = t_promos s" "t_promo_usages s' = t_promo_usages s" "t_cart s' = t_cart s"
    "t_operations s' = t_operations s"
    using credit_referral_tables [OF cred]
    by (simp_all add: s' x0(4) un(12) put_user_def sA row(1))
  have "get_order s' (o_id y) = Some y"
    using fresh un(2) ys(2) find_by_None_iff [of o_id "t_seq s + 1" "t_orders s"]
    by (simp add: get_order_def ordE find_by_append sA)
  moreover have "shop_ok s'"
  proof -
    have "map u_id (t_users s') = map u_id (t_users s)"
      using credit_referral_keys(1) [OF cred] by (simp add: s' usersB keys_put)
    then have "users_ok s'" using ok by (simp add: shop_ok_def users_ok_def)
    moreover have "distinct_values s'"
      using consume_distinct [OF cons] ok tables(2) by (simp add: shop_ok_def distinct_values_def)
    moreover have "earnings_ok ?sC"
      by (rule earnings_ok_seq [of s]) (use ok in \<open>simp_all add: shop_ok_def x0(4) un(12) sA put_user_def\<close>)
    moreover have "o_id x \<le> t_seq ?sC" using xs(2) by (simp add: x0(4) un(12) sA put_user_def)
    ultimately have "earnings_ok s2" using credit_referral_keys(2) [OF cred] by simp
    then have "earnings_ok s'" by (rule earnings_ok_seq) (simp_all add: s')
    with \<open>users_ok s'\<close> \<open>distinct_values s'\<close> okE show ?thesis by (simp add: shop_ok_def)
  qed
  moreover have "check_violation s' = None" if ck: "check_violation s = None"
  proof -
    have "u \<in> set (t_users s)" using u by (auto simp: get_user_def dest: find_by_Some_mem)
    with ck have "user_check u" by (simp add: check_violation_None list_all_iff)
    with x0(1) have "user_check (u\<lparr>u_balance := u_balance u - max 0 (p - d)\<rparr>)" by (simp add: user_check_def)
    with ck have "list_all user_check (t_users ?sC)"
      by (simp add: usersB check_violation_None list_all_put_by)
    then have "list_all user_check (t_users s')" using credit_referral_checks(1) [OF cred] by (simp add: s')
    moreover have "t_earnings ?sC = t_earnings s" by (simp add: x0(4) un(12) sA put_user_def)
    then have "list_all (\<lambda>r. re_referrer_id r \<noteq> re_referral_id r) (t_earnings s')"
      using credit_referral_checks(2) [OF cred] ck by (simp add: s' check_violation_None)
    moreover have "order_check y" using ys by (simp add: order_check_def known_statuses_def)
    moreover have "t_reviews s2 = t_reviews s" "t_tickets s2 = t_tickets s"
      using credit_referral_tables(14,15) [OF cred] by (simp_all add: x0(4) un(12) sA put_user_def)
    ultimately show ?thesis
      using ck tables ordE ys(9) by (simp add: check_violation_None List.map_filter_def s')
  qed
  ultimately show ?thesis
    using that [of row "bg_value row" sA] api row cons ys xs x0(1) okE tables ordE balE exE
    by (auto simp: vs delivery_recipient_telegram_id_def split: option.split)
qed

subsection \<open>The retry loops\<close>

lemma buy_loop_True:
  "buy_loop n e uid name code gift s = ((True, msg, d), s') \<Longrightarrow>
    \<exists>a data api s1. run_session (buy_body (e\<lparr>env_attempt := a\<rparr>) uid name code gift) s = Inr ((data, api), s1) \<and>
      d = Some data \<and> msg = ''success'' \<and> s' = s1\<lparr>t_tasks := t_tasks s'\<rparr>"
proof (induction n arbitrary: s)
  case 0
  then show ?case by simp
next
  case (Suc n)
  show ?case
  proof (cases "run_session (buy_body (e\<lparr>env_attempt := 2 - n\<rparr>) uid name code gift) s")
    case (Inl err)
    then show ?thesis using Suc by (auto simp: Let_def split: exn.splits if_splits)
  next
    case (Inr r)
    obtain data api s1 where r: "r = ((data, api), s1)" by (metis surj_pair)
    with Suc.prems Inr have "d = Some data \<and> msg = ''success'' \<and> s' = s1\<lparr>t_tasks := t_tasks s'\<rparr>"
      by (auto simp: Let_def safe_create_task_def split: option.splits)
    with Inr r show ?thesis by blast
  qed
qed

lemma buy_loop_False:
  "buy_loop n e uid name code gift s = ((False, msg, d), s') \<Longrightarrow>
    d = None \<and> (\<exists>rows. s' = s\<lparr>t_audit := t_audit s @ rows\<rparr>)"
proof (induction n arbitrary: s)
  case 0
  then have "d = None \<and> s' = s\<lparr>t_audit := t_audit s @ []\<rparr>" by simp
  then show ?case by blast
next
  case (Suc n)
  show ?case
  proof (cases "run_session (buy_body (e\<lparr>env_attempt := 2 - n\<rparr>) uid name code gift) s")
    case (Inl err)
    then consider "buy_loop n e uid name code gift s = ((False, msg, d), s')"
      | "d = None" "s' = s"
      | "d = None" "s' = log_audit ''purchase_failed'' ''WARNING'' (Some uid) (Some ''Item'') (Some name) s"
      using Suc.prems by (auto simp: Let_def split: exn.splits if_splits)
    then show ?thesis
    proof cases
      case 1
      then show ?thesis by (rule Suc.IH)
    next
      case 2
      then have "s' = s\<lparr>t_audit := t_audit s @ []\<rparr>" by simp
      with 2 show ?thesis by blast
    next
      case 3
      then show ?thesis by (auto simp: log_audit_def)
    qed
  next
    case (Inr r)
    with Suc.prems show ?thesis by (auto simp: Let_def split: prod.splits option.splits)
  qed
qed

lemma attempt_irrelevant [simp]:
  "buy_price (e\<lparr>env_attempt := a\<rparr>) s uid g code = buy_price e s uid g code"
  "order_bonus (e\<lparr>env_attempt := a\<rparr>) s k t = order_bonus e s k t"
  by (simp_all add: buy_price_def order_bonus_def referral_percent_def Let_def
      cong: if_cong option.case_cong)

lemma max_0_diff: "0 \<le> (b :: int) \<Longrightarrow> max 0 (a - (a - b)) = b"
  by simp

text \<open>The body of a successful purchase from stock.\<close>

lemma buy_body_stock:
  assumes body: "buy_body e uid name code gift s = Inr ((d, api), s')"
    and g: "goods_by_name s name = Some g" "g_fulfillment_type g = FulfillStock" "0 \<le> g_price g"
    and ok: "shop_ok s"
  obtains u fp applied info v row sA x where "get_user s uid = Some u"
    "buy_price e s uid g code = Inr (fp, applied, info)" "0 \<le> fp" "fp \<le> u_balance u"
    "consume_stock_units g 1 s = Inr ([Some v], sA)"
    "o_status x = COMPLETED" "o_user_id x = uid" "o_goods_id x = g_id g" "o_total_cents x = fp"
    "o_id x = pd_order_id d" "get_order s' (o_id x) = Some x" "t_orders s' = t_orders s @ [x]"
    "o_quantity x = 1" "o_provider_external_order_id x = None"
    "bg_value row = v" "bg_price row = fp" "bg_order_id row = Some (o_id x)" "bg_item_name row = g_name g"
    "bg_buyer_id row = Some (case gift of None \<Rightarrow> uid | Some r \<Rightarrow> r)"
    "t_bought s' = t_bought s @ [row]" "t_item_values s' = t_item_values sA"
    "\<And>k. balance_of s' k = balance_of s k - (if k = uid then fp else 0) + bonus_for (order_bonus e s uid fp) k"
    "shop_ok s'" "applied = None \<longrightarrow> t_promos s' = t_promos s \<and> t_promo_usages s' = t_promo_usages s"
proof -
  from body g obtain u where u: "get_user s uid = Some u" by (auto simp: buy_body_def split: option.splits)
  have uid: "u_id u = uid" using u by (rule users.lookup_key)
  let ?p = "fst (effective_price g (env_now e))"
  from body g u obtain fp applied info rows x api' s1 where
    bp: "buy_price e s uid g code = Inr (fp, applied, info)" and
    bl: "buy_line e u g ?p (if code = None \<or> code = Some [] then 0 else ?p - fp) gift 0 s = Inr ((rows, x, api'), s1)" and
    rp: "buy_record_promo uid applied x s1 = Inr ((), s')" and
    d: "d = purchase_result_from_order x g rows (balance_of s' uid) info"
    by (auto simp: buy_body_def Let_def tx_simps)
  have fp: "0 \<le> fp" "(if code = None \<or> code = Some [] then 0 else ?p - fp) = ?p - fp"
    using buy_price_bounds [OF bp g(3)] buy_price_Inr [OF bp] by auto
  note bl' = bl [unfolded fp(2)]
  from bl' g(2) u [folded uid] ok obtain v row sA where L: "api' = None" "rows = [row]"
    "consume_stock_units g 1 s = Inr ([Some v], sA)"
    "bg_value row = v" "bg_price row = o_total_cents x" "bg_order_id row = Some (o_id x)"
    "bg_buyer_id row = Some (case gift of None \<Rightarrow> u_id u | Some r \<Rightarrow> r)" "bg_item_name row = g_name g"
    "o_status x = COMPLETED" "o_user_id x = u_id u" "o_goods_id x = g_id g" "o_quantity x = 1"
    "o_total_cents x = max 0 (?p - (?p - fp))"
    "o_total_cents x \<le> u_balance u" "o_provider_external_order_id x = None"
    "get_order s1 (o_id x) = Some x"
    "t_bought s1 = t_bought s @ [row]" "t_item_values s1 = t_item_values sA"
    "t_promos s1 = t_promos s" "t_promo_usages s1 = t_promo_usages s"
    "t_orders s1 = t_orders s @ [x]"
    "\<And>k. balance_of s1 k = balance_of s k - (if k = u_id u then o_total_cents x else 0)
       + bonus_for (order_bonus e s (u_id u) (o_total_cents x)) k" "shop_ok s1"
    by (rule buy_line_stock) blast
  have tot: "o_total_cents x = fp" using L(13) fp(1) by simp
  have frame: "t_users s' = t_users s1" "t_orders s' = t_orders s1" "t_bought s' = t_bought s1"
    "t_item_values s' = t_item_values s1" "t_history s' = t_history s1" "t_earnings s' = t_earnings s1"
    "t_seq s1 \<le> t_seq s'"
    using buy_record_promo_Inr [OF rp] record_promo_frame by (metis order_refl zle_add1_eq_le less_imp_le lessI)+
  have "shop_ok s'"
    using L(23) frame by (auto simp: shop_ok_def users_ok_def orders_ok_def distinct_values_def history_of_def
        intro: earnings_ok_seq)
  moreover have "balance_of s' k = balance_of s k - (if k = uid then fp else 0) + bonus_for (order_bonus e s uid fp) k" for k
    using L(22) [of k] by (simp add: balance_of_users [OF frame(1)] uid tot)
  moreover have "pd_order_id d = o_id x" by (simp add: d purchase_result_from_order_def Let_def)
  moreover have "get_order s' (o_id x) = Some x" using L(16) frame(2) by (simp add: get_order_def)
  moreover have "applied = None \<longrightarrow> t_promos s' = t_promos s \<and> t_promo_usages s' = t_promo_usages s"
    using rp L(19,20) by (auto simp: buy_record_promo_def)
  ultimately show ?thesis
    using that [of u fp applied info v sA x row] u bp fp(1) L [unfolded uid] tot frame by simp
qed

subsection \<open>Properties\<close>

text \<open>
  What a purchase of one unit from stock has done: the order \<open>oid\<close> is completed at the price \<open>fp\<close>,
  one purchase row carries the value taken from stock, the buyer paid and the referrer got the bonus.
\<close>

definition stock_purchase ::
    "env \<Rightarrow> int \<Rightarrow> goods \<Rightarrow> int option \<Rightarrow> int \<Rightarrow> int \<Rightarrow> shop \<Rightarrow> shop \<Rightarrow> bool" where
  "stock_purchase e uid g gift fp oid s s' \<longleftrightarrow>
     (\<exists>v row sA x. consume_stock_units g 1 s = Inr ([Some v], sA) \<and> t_item_values s' = t_item_values sA \<and>
        t_bought s' = t_bought s @ [row] \<and> bg_value row = v \<and> bg_price row = fp \<and>
        bg_order_id row = Some oid \<and> bg_item_name row = g_name g \<and>
        bg_buyer_id row = Some (case gift of None \<Rightarrow> uid | Some r \<Rightarrow> r) \<and>
        t_orders s' = t_orders s @ [x] \<and> get_order s' oid = Some x \<and> o_status x = COMPLETED \<and>
        o_user_id x = uid \<and> o_goods_id x = g_id g \<and> o_total_cents x = fp) \<and>
     (\<forall>k. balance_of s' k =
        balance_of s k - (if k = uid then fp else 0) + bonus_for (order_bonus e s uid fp) k)"

lemma stock_purchase_tasks: "stock_purchase e uid g gift fp oid s (s1\<lparr>t_tasks := ts\<rparr>) = stock_purchase e uid g gift fp oid s s1"
  by (simp add: stock_purchase_def get_order_def balance_of_def get_user_def)

lemma shop_ok_tasks: "shop_ok (s\<lparr>t_tasks := ts\<rparr>) = shop_ok s"
  by (simp add: shop_ok_def users_ok_def orders_ok_def distinct_values_def earnings_ok_def history_of_def
      cong: option.case_cong)

lemma buy_item_stock:
  assumes buy: "buy_item_transaction e uid name code gift s = ((True, msg, d), s')"
    and g: "goods_by_name s name = Some g" "g_fulfillment_type g = FulfillStock" "0 \<le> g_price g"
    and ok: "shop_ok s"
  shows "\<exists>data fp applied info. d = Some data \<and> msg = ''success'' \<and>
    buy_price e s uid g code = Inr (fp, applied, info) \<and> 0 \<le> fp \<and> fp \<le> balance_of s uid \<and>
    stock_purchase e uid g gift fp (pd_order_id data) s s' \<and> shop_ok s' \<and> check_violation s' = None"
proof -
  from buy_loop_True [OF buy [unfolded buy_item_transaction_def]] obtain a data api s1 where
    run: "run_session (buy_body (e\<lparr>env_attempt := a\<rparr>) uid name code gift) s = Inr ((data, api), s1)"
    and d: "d = Some data" "msg = ''success''" and s': "s' = s1\<lparr>t_tasks := t_tasks s'\<rparr>" by blast
  from run have body: "buy_body (e\<lparr>env_attempt := a\<rparr>) uid name code gift s = Inr ((data, api), s1)"
    and ck: "check_violation s1 = None" by (simp_all add: run_session_Inr)
  from body g ok obtain u fp applied info v row sA x where B: "get_user s uid = Some u"
    "buy_price (e\<lparr>env_attempt := a\<rparr>) s uid g code = Inr (fp, applied, info)" "0 \<le> fp" "fp \<le> u_balance u"
    "consume_stock_units g 1 s = Inr ([Some v], sA)"
    "o_status x = COMPLETED" "o_user_id x = uid" "o_goods_id x = g_id g" "o_total_cents x = fp"
    "o_id x = pd_order_id data" "get_order s1 (o_id x) = Some x" "t_orders s1 = t_orders s @ [x]"
    "bg_value row = v" "bg_price row = fp" "bg_order_id row = Some (o_id x)" "bg_item_name row = g_name g"
    "bg_buyer_id row = Some (case gift of None \<Rightarrow> uid | Some r \<Rightarrow> r)"
    "t_bought s1 = t_bought s @ [row]" "t_item_values s1 = t_item_values sA"
    "\<And>k. balance_of s1 k = balance_of s k - (if k = uid then fp else 0)
       + bonus_for (order_bonus (e\<lparr>env_attempt := a\<rparr>) s uid fp) k" "shop_ok s1"
    by (rule buy_body_stock) blast
  have "stock_purchase e uid g gift fp (pd_order_id data) s s1"
    using B by (auto simp: stock_purchase_def)
  moreover have "balance_of s uid = u_balance u" using B(1) by (simp add: balance_of_def)
  moreover have "check_violation (s1\<lparr>t_tasks := t_tasks s'\<rparr>) = None" using ck by (simp add: check_violation_None)
  ultimately show ?thesis
    using B d stock_purchase_tasks [where ?s1.0 = s1 and ts = "t_tasks s'"] shop_ok_tasks [where s = s1 and ts = "t_tasks s'"] unfolding s' [symmetric]
    by (intro exI [of _ data] exI [of _ fp] exI [of _ applied] exI [of _ info]) simp
qed

text \<open>C3: A successful purchase of a stock product charges exactly the computed price (never negative,
  never above the list price or the balance), takes one value out of stock, records it in one
  purchase row for the buyer or the gift recipient, completes one new order over that price, and
  moves no balance but the buyer's and the referrer's bonus; all invariants of the shop are kept.\<close>
theorem buy_item_stock_effect:
  assumes "buy_item_transaction e uid name code gift s = ((True, msg, d), s')"
    and "goods_by_name s name = Some g" "g_fulfillment_type g = FulfillStock" "0 \<le> g_price g"
    and "shop_ok s"
  shows "\<exists>data fp applied info. d = Some data \<and> buy_price e s uid g code = Inr (fp, applied, info) \<and>
    0 \<le> fp \<and> fp \<le> g_price g \<and> fp \<le> balance_of s uid \<and>
    stock_purchase e uid g gift fp (pd_order_id data) s s' \<and> shop_ok s'"
proof -
  from buy_item_stock [OF assms] obtain data fp applied info where B: "d = Some data"
    "buy_price e s uid g code = Inr (fp, applied, info)" "0 \<le> fp" "fp \<le> balance_of s uid"
    "stock_purchase e uid g gift fp (pd_order_id data) s s'" "shop_ok s'" by blast
  moreover have "fp \<le> g_price g"
    using buy_price_bounds(2) [OF B(2) assms(4)] effective_price_bounds [OF assms(4), of "env_now e"] by simp
  ultimately show ?thesis by blast
qed

lemma outcome_cases: "(fst (fst r), fst (snd (fst r)), snd (snd (fst r)) \<noteq> None) = (b, m, True) \<Longrightarrow>
    \<exists>d s'. r = ((b, m, Some d), s')"
  by (cases r) auto

lemma sample_purchase:
  "\<exists>d s'. buy_item_transaction sample_env 1 ''key'' (Some ''sale'') None sample_shop = ((True, ''success'', Some d), s')"
  by (rule outcome_cases) code_simp

lemma sample_shop_ok: "shop_ok sample_shop"
  by code_simp

lemma buy_item_stock_effect_witness:
  "\<exists>data s'. buy_item_transaction sample_env 1 ''key'' (Some ''sale'') None sample_shop = ((True, ''success'', Some data), s') \<and>
    stock_purchase sample_env 1 (sample_goods 3 ''key'' 1999 FulfillStock) None 1499 (pd_order_id data) sample_shop s'"
proof -
  from sample_purchase obtain d s' where
    r: "buy_item_transaction sample_env 1 ''key'' (Some ''sale'') None sample_shop = ((True, ''success'', Some d), s')"
    by blast
  let ?g = "sample_goods 3 ''key'' 1999 FulfillStock"
  have g: "goods_by_name sample_shop ''key'' = Some ?g" by code_simp
  have "map_sum id fst (buy_price sample_env sample_shop 1 ?g (Some ''sale'')) = Inr 1499" by code_simp
  then obtain a i where p: "buy_price sample_env sample_shop 1 ?g (Some ''sale'') = Inr (1499, a, i)"
    by (cases "buy_price sample_env sample_shop 1 ?g (Some ''sale'')") auto
  have "g_fulfillment_type ?g = FulfillStock" "0 \<le> g_price ?g" by (simp_all add: sample_goods_def)
  from buy_item_stock_effect [OF r g this sample_shop_ok] p r show ?thesis by auto
qed

text \<open>C4: A purchase that reports failure, for whatever reason and after however many retries, has left
  no trace in the shop but audit rows.\<close>
theorem buy_item_failure_unchanged:
  assumes "buy_item_transaction e uid name code gift s = ((False, msg, d), s')"
  shows "d = None \<and> (\<exists>rows. s' = s\<lparr>t_audit := t_audit s @ rows\<rparr>)"
  by (rule buy_loop_False [OF assms [unfolded buy_item_transaction_def]])

lemma buy_item_failure_unchanged_witness:
  "\<exists>s' rows. buy_item_transaction sample_env 2 ''key'' None None sample_shop =
     ((False, ''insufficient_funds'', None), s') \<and> s' = sample_shop\<lparr>t_audit := t_audit sample_shop @ rows\<rparr>"
proof -
  have "fst (buy_item_transaction sample_env 2 ''key'' None None sample_shop) = (False, ''insufficient_funds'', None)"
    by code_simp
  then have "buy_item_transaction sample_env 2 ''key'' None None sample_shop =
      ((False, ''insufficient_funds'', None), snd (buy_item_transaction sample_env 2 ''key'' None None sample_shop))"
    by (metis prod.collapse)
  from buy_item_failure_unchanged [OF this] this show ?thesis by metis
qed

lemma buy_line_exists:
  assumes cons: "consume_stock_units g 1 s = Inr ([Some v], sA)" and g: "g_fulfillment_type g = FulfillStock"
    and u: "get_user s (u_id u) = Some u" and funds: "max 0 (p - d) \<le> u_balance u" and p: "\<bar>p\<bar> < 10 ^ 28"
    and fresh: "\<forall>k. fresh_unique_id e k \<notin> bg_unique_id ` set (t_bought s)"
  shows "\<exists>r. buy_line e u g p d None c s = Inr r"
proof -
  from consume_stock_units_frame [OF cons] obtain P where
    sA: "sA = s\<lparr>t_item_values := filter P (t_item_values s)\<rparr>" by blast
  obtain x sB where beg: "begin_paid_order e u g 1 p d None 0 sA = Inr (x, sB)"
    using begin_paid_order_Inl [of e u g 1 p d None 0 sA, OF _ _ p] funds
    by (cases "begin_paid_order e u g 1 p d None 0 sA") auto
  then obtain x0 s1 where x0: "create_order_with_snapshot e (u_id u) (g_id g) 1 (dec_div_100 p) d 0 0 0
       (resolve_delivery_type g None) None None None None sA = Inr (x0, s1)"
    "x = start_processing e x0" "o_status x0 = CREATED"
    "sB = append_history x (Some CREATED) PROCESSING (Some (u_id u))
       (put_user (u\<lparr>u_balance := u_balance u - max 0 (p * 1 - d)\<rparr>) s1)"
    by (rule begin_paid_order_Inr)
  from x0(1) obtain un where un: "o_user_id x0 = u_id u"
    "s1 = append_history x0 None CREATED (Some (u_id u)) (sA\<lparr>t_orders := t_orders sA @ [x0], t_seq := t_seq sA + 1\<rparr>)"
    by (rule create_order_Inr)
  have st: "o_status x = PROCESSING" "o_user_id x = u_id u" using un(1) by (simp_all add: x0(2) start_processing_def)
  have tB: "t_bought sB = t_bought s" "get_user sB (u_id u) \<noteq> None"
    using u by (simp_all add: x0(4) un(2) put_user_def sA get_user_def find_put)
  have rec: "\<exists>row. record_bought_units e x g [(Some v, t)] sB =
      Inr ([row], sB\<lparr>t_bought := t_bought sB @ [row], t_seq := next_id sB\<rparr>)" for t
    using fresh by (simp add: record_bought_units_def tB(1) Let_def)
  have cr: "\<exists>r. credit_referral_for_order e (x\<lparr>o_status := COMPLETED\<rparr>) (sB\<lparr>t_bought := b, t_seq := k\<rparr>) = Inr r" for b k
    by (rule credit_referral_exists) (use tB(2) st(2) in \<open>simp add: get_user_def\<close>)
  have "\<exists>r. complete_stock_order e x g [Some v] sB = Inr r"
  proof -
    from rec obtain row where r: "record_bought_units e x g (zip [Some v] (split_amount (o_total_cents x) 1)) sB =
      Inr ([row], sB\<lparr>t_bought := t_bought sB @ [row], t_seq := next_id sB\<rparr>)" by auto
    from cr [of "next_id sB" "t_bought sB @ [row]"] obtain a z s2 where
      "credit_referral_for_order e (x\<lparr>o_status := COMPLETED\<rparr>)
        (sB\<lparr>t_bought := t_bought sB @ [row], t_seq := next_id sB\<rparr>) = Inr ((a, z), s2)" by auto
    with r st show ?thesis by (simp add: complete_stock_order_def transition_completed Let_def)
  qed
  then obtain rows y s3 where "complete_stock_order e x g [Some v] sB = Inr ((rows, y), s3)" by auto
  with cons g beg show ?thesis by (simp add: buy_line_def purchase_stock_line_def)
qed

lemma consume_one_cases:
  assumes "distinct_values s" "g_fulfillment_type g = FulfillStock" "\<forall>v \<in> set (t_item_values s). iv_value v \<noteq> None"
  shows "if infinite_row s (g_id g) = None \<and> count_finite_available_units s (g_id g) = 0
    then consume_stock_units g 1 s = Inl (StockAllocationError ''out_of_stock'')
    else \<exists>v sA. consume_stock_units g 1 s = Inr ([Some v], sA)"
proof (cases "infinite_row s (g_id g)")
  case (Some w)
  then have "w \<in> set (t_item_values s)" by (auto simp: infinite_row_def find_Some_iff)
  with assms consume_infinite [of 1 g s w] Some show ?thesis by auto
next
  case None
  show ?thesis
  proof (cases "count_finite_available_units s (g_id g) = 0")
    case True
    with None consume_stock_units_finite [of s 1 g, OF assms(1) _ assms(2) None] show ?thesis by simp
  next
    case False
    then have "\<not> count_finite_available_units s (g_id g) < 1"
      by (simp add: count_finite_available_units_def) linarith?
    then obtain ys where r: "consume_stock_units g 1 s = Inr (map iv_value (next_units s (g_id g) 1), ys)"
      using consume_stock_units_finite [of s 1 g, OF assms(1) _ assms(2) None] by simp
    from consume_length [OF r] obtain w where w: "next_units s (g_id g) 1 = [w]"
      by (auto simp: length_Suc_conv)
    have "w \<in> set (t_item_values s)"
      using next_units_subset [of s "g_id g" 1] finite_available_mem [of w s "g_id g"] w by auto
    with assms(3) r w None False show ?thesis by auto
  qed
qed

text \<open>C5: Without promo code and gift, on a consistent shop and with fresh unique ids, buying a stock
  product by a registered user has a determined outcome: out_of_stock when nothing is available,
  otherwise insufficient_funds when the balance is below the current price, otherwise success; no
  other failure is possible.\<close>
theorem buy_item_plain_outcome:
  assumes ok: "shop_ok s" "check_violation s = None" and u: "get_user s uid = Some u"
    and g: "goods_by_name s name = Some g" "g_fulfillment_type g = FulfillStock" "0 \<le> g_price g" "g_price g < 10 ^ 28"
    and vals: "\<forall>v \<in> set (t_item_values s). iv_value v \<noteq> None"
    and fresh: "\<forall>k. env_uuid e 0 k div 2 ^ 65 \<notin> bg_unique_id ` set (t_bought s)"
  shows "\<exists>d. fst (buy_item_transaction e uid name None None s) =
    (if infinite_row s (g_id g) = None \<and> count_finite_available_units s (g_id g) = 0
     then (False, ''out_of_stock'', None)
     else if u_balance u < fst (effective_price g (env_now e)) then (False, ''insufficient_funds'', None)
     else (True, ''success'', Some d))"
proof -
  let ?e = "e\<lparr>env_attempt := 0\<rparr>"
  let ?p = "fst (effective_price g (env_now e))"
  have uid: "u_id u = uid" using u by (rule users.lookup_key)
  have p: "0 \<le> ?p" "\<bar>?p\<bar> < 10 ^ 28" using effective_price_bounds [OF g(3), of "env_now e"] g(4) by auto
  have body: "buy_body ?e uid name None None s =
     tx_bind (abort_on_line_error (buy_line ?e u g ?p 0 None 0 s)) (\<lambda>((rows, x, api), s1).
       Inr ((purchase_result_from_order x g rows (balance_of s1 uid) None, api), s1))"
    using u g by (simp add: buy_body_def buy_check_gift_def buy_price_def buy_record_promo_def Let_def)
  have loop: "fst (buy_item_transaction e uid name None None s) = (False, c, None)"
    if "buy_body ?e uid name None None s = Inl (Abort c)" for c
    using run_session_Inl_body [of "buy_body ?e uid name None None", OF that]
    by (simp add: buy_item_transaction_def numeral_3_eq_3 Let_def)
  note cons = consume_one_cases [OF _ g(2) vals]
  have dv: "distinct_values s" using ok(1) by (simp add: shop_ok_def)
  show ?thesis
  proof (cases "infinite_row s (g_id g) = None \<and> count_finite_available_units s (g_id g) = 0")
    case True
    with cons [OF dv] g(2) have "buy_line ?e u g ?p 0 None 0 s = Inl (StockAllocationError ''out_of_stock'')"
      by (simp add: buy_line_def)
    then have "buy_body ?e uid name None None s = Inl (Abort ''out_of_stock'')"
      by (simp add: body abort_on_line_error_def)
    with True show ?thesis by (simp add: loop)
  next
    case False
    with cons [OF dv] obtain v sA where c: "consume_stock_units g 1 s = Inr ([Some v], sA)" by (simp split: if_splits) blast
    show ?thesis
    proof (cases "u_balance u < ?p")
      case True
      then have "begin_paid_order ?e u g 1 ?p 0 None 0 sA = Inl (FulfillmentError ''insufficient_funds'')"
        using p(1) by (simp add: begin_paid_order_def Let_def less_max_iff_disj)
      with c g(2) have "buy_line ?e u g ?p 0 None 0 s = Inl (FulfillmentError ''insufficient_funds'')"
        by (simp add: buy_line_def)
      then have "buy_body ?e uid name None None s = Inl (Abort ''insufficient_funds'')"
        by (simp add: body abort_on_line_error_def)
      with True False show ?thesis by (simp add: loop)
    next
      case funds: False
      have "max 0 (?p - 0) \<le> u_balance u" using funds p(1) by simp
      moreover have "\<forall>k. fresh_unique_id ?e k \<notin> bg_unique_id ` set (t_bought s)"
        using fresh by (simp add: fresh_unique_id_def)
      ultimately obtain rows y api s1 where r: "buy_line ?e u g ?p 0 None 0 s = Inr ((rows, y, api), s1)"
        using buy_line_exists [OF c g(2) _ _ p(2), of u 0 ?e 0] u uid by force
      have "check_violation s1 = None"
        by (rule buy_line_stock [OF r g(2)]) (use u uid ok in simp_all)
      with r have "\<exists>d. run_session (buy_body ?e uid name None None) s = Inr ((d, api), s1)"
        by (simp add: run_session_Inr body abort_on_line_error_def)
      then have "\<exists>d. fst (buy_item_transaction e uid name None None s) = (True, ''success'', Some d)"
        by (auto simp: buy_item_transaction_def numeral_3_eq_3 Let_def)
      with False funds show ?thesis by auto
    qed
  qed
qed

lemma buy_item_plain_outcome_witness:
  "\<exists>d. fst (buy_item_transaction sample_env 1 ''key'' None None sample_shop) = (True, ''success'', Some d)"
proof -
  let ?g = "sample_goods 3 ''key'' 1999 FulfillStock"
  have h: "check_violation sample_shop = None" "get_user sample_shop 1 = Some (sample_user 1 5000 (Some 2))"
    "goods_by_name sample_shop ''key'' = Some ?g" "count_finite_available_units sample_shop (g_id ?g) = 3"
    "fst (effective_price ?g (env_now sample_env)) = 1999" by code_simp+
  moreover have "g_fulfillment_type ?g = FulfillStock" "0 \<le> g_price ?g" "g_price ?g < 10 ^ 28"
    "\<forall>v \<in> set (t_item_values sample_shop). iv_value v \<noteq> None"
    "\<forall>k. env_uuid sample_env 0 k div 2 ^ 65 \<notin> bg_unique_id ` set (t_bought sample_shop)"
    by (simp_all add: sample_goods_def sample_shop_def sample_value_def empty_shop_def)
  ultimately show ?thesis
    using buy_item_plain_outcome [OF sample_shop_ok, of 1 "sample_user 1 5000 (Some 2)" "''key''" ?g sample_env]
    by (simp add: sample_user_def)
qed

subsection \<open>The cart\<close>

text \<open>A line is well formed when it holds one delivered value per unit.\<close>

definition line_ok :: "purchase_line \<Rightarrow> bool" where
  "line_ok l \<longleftrightarrow> 0 < pl_qty l \<and> length (pl_delivered l) = nat (pl_qty l)"

lemma resolve_cart_Cons:
  assumes "resolve_cart e uid (ci # cs) s = Inr ((ls, rm), s')"
  obtains (skip) rm' where "resolve_cart e uid cs s = Inr ((ls, rm'), s')" "rm = ci_id ci # rm'"
    | (line) g vs s1 ls' where "get_goods s (ci_item_id ci) = Some g"
        "consume_stock_units g (ci_quantity ci) s = Inr (vs, s1)"
        "resolve_cart e uid cs s1 = Inr ((ls', rm), s')"
        "ls = \<lparr>pl_cart_id = ci_id ci, pl_goods = g, pl_qty = ci_quantity ci,
            pl_unit_price = fst (effective_price g (env_now e)),
            pl_line_price = fst (effective_price g (env_now e)) * ci_quantity ci,
            pl_promo = line_promo e s1 uid g (ci_promo_code ci) (fst (effective_price g (env_now e)) * ci_quantity ci),
            pl_delivered = vs\<rparr> # ls'"
proof (cases "get_goods s (ci_item_id ci)")
  case None
  with assms skip show ?thesis by (auto simp: tx_simps)
next
  case (Some g)
  show ?thesis
  proof (cases "infinite_row s (g_id g) = None \<and> count_finite_available_units s (g_id g) = 0")
    case True
    with Some assms skip show ?thesis by (auto simp: tx_simps)
  next
    case False
    with Some assms line [OF Some] show ?thesis by (auto simp: tx_simps Let_def simp del: de_Morgan_conj)
  qed
qed

lemma resolve_cart_frame:
  assumes "resolve_cart e uid cs s = Inr ((ls, rm), s')" "\<forall>c \<in> set cs. 0 < ci_quantity c"
  shows "list_all line_ok ls \<and> (\<exists>P. s' = s\<lparr>t_item_values := filter P (t_item_values s)\<rparr>) \<and>
    (ls = [] \<longrightarrow> s' = s) \<and> set rm \<subseteq> ci_id ` set cs"
  using assms
proof (induction cs arbitrary: s ls rm s')
  case Nil
  then show ?case by (auto intro!: exI [of _ "\<lambda>_. True"])
next
  case (Cons ci cs)
  have q: "\<forall>c \<in> set cs. 0 < ci_quantity c" "0 < ci_quantity ci" using Cons.prems(2) by simp_all
  from Cons.prems(1) show ?case
  proof (cases rule: resolve_cart_Cons)
    case (skip rm')
    with Cons.IH [OF skip(1) q(1)] show ?thesis by auto
  next
    case (line g vs s1 ls')
    from consume_stock_units_frame [OF line(2)] obtain P where
      P: "s1 = s\<lparr>t_item_values := filter P (t_item_values s)\<rparr>" by blast
    from Cons.IH [OF line(3) q(1)] obtain Q where
      IH: "list_all line_ok ls'" "s' = s1\<lparr>t_item_values := filter Q (t_item_values s1)\<rparr>" "set rm \<subseteq> ci_id ` set cs"
      by blast
    have "s' = s\<lparr>t_item_values := filter (\<lambda>v. P v \<and> Q v) (t_item_values s)\<rparr>"
      unfolding IH(2) P by (simp add: conj_commute)
    then show ?thesis
      using IH(1,3) q(2) consume_length [OF line(2)] line(4) by (auto simp: line_ok_def list_all_iff)
  qed
qed

text \<open>
  A line is dead when its product is gone or has neither an unlimited value nor a unit on sale.  When
  no line is left to buy, every line was dead, and all of them are to be removed.
\<close>

definition dead_line :: "shop \<Rightarrow> cart_item \<Rightarrow> bool" where
  "dead_line s c \<longleftrightarrow>
     (case get_goods s (ci_item_id c) of None \<Rightarrow> True
      | Some g \<Rightarrow> infinite_row s (g_id g) = None \<and> count_finite_available_units s (g_id g) = 0)"

lemma resolve_cart_dead:
  "resolve_cart e uid cs s = Inr (([], rm), s') \<Longrightarrow>
     rm = map ci_id cs \<and> s' = s \<and> (\<forall>c \<in> set cs. dead_line s c)"
proof (induction cs arbitrary: rm s')
  case (Cons c cs)
  have dead: "dead_line s c"
  proof (rule ccontr)
    assume "\<not> dead_line s c"
    then obtain g where "get_goods s (ci_item_id c) = Some g"
      "\<not> (infinite_row s (g_id g) = None \<and> count_finite_available_units s (g_id g) = 0)"
      by (auto simp: dead_line_def split: option.splits)
    with Cons.prems show False by (auto simp: tx_simps Let_def simp del: de_Morgan_conj)
  qed
  then obtain rm' where "resolve_cart e uid cs s = Inr (([], rm'), s')" "rm = ci_id c # rm'"
    using Cons.prems by (auto simp: dead_line_def tx_simps split: option.splits)
  with Cons.IH dead show ?case by simp
qed simp

lemma discount_cart_line_ok: "list_all line_ok (discount_cart ls) = list_all line_ok ls"
proof -
  have "list_all line_ok (apply_promo_to_cart p ls) = list_all line_ok ls" for p ls
    by (simp add: apply_promo_to_cart_def Let_def list_all_length line_ok_def if_distrib [of pl_qty]
        if_distrib [of pl_delivered] cong: if_cong split: list.split)
  then have "list_all line_ok (fold apply_promo_to_cart ps ls) = list_all line_ok ls" for ps
    by (induction ps arbitrary: ls) simp_all
  then show ?thesis by (simp add: discount_cart_def)
qed

lemma discount_cart_Nil: "discount_cart ls = [] \<longleftrightarrow> ls = []"
proof -
  have "apply_promo_to_cart p ls = [] \<longleftrightarrow> ls = []" for p ls
    by (auto simp: apply_promo_to_cart_def Let_def split: list.split)
  then have "fold apply_promo_to_cart ps ls = [] \<longleftrightarrow> ls = []" for ps
    by (induction ps arbitrary: ls) simp_all
  then show ?thesis by (simp add: discount_cart_def)
qed

text \<open>The rows of the purchase add up to the total, and belong to the buyer.\<close>

lemma deliver_cart_Inr:
  assumes "deliver_cart e uid ps s = Inr (rows, s')" "list_all line_ok ps"
  shows "s' = s\<lparr>t_bought := t_bought s @ rows, t_seq := t_seq s + int (length rows)\<rparr> \<and>
    sum_list (map bg_price rows) = cart_total ps \<and>
    (\<forall>r \<in> set rows. bg_buyer_id r = Some uid \<and> bg_order_id r = None) \<and>
    length rows = sum_list (map (\<lambda>p. nat (pl_qty p)) ps)"
  using assms
proof (induction ps arbitrary: s rows)
  case Nil
  then show ?case by (simp add: cart_total_def)
next
  case (Cons p ps)
  let ?vps = "zip (pl_delivered p) (split_amount (pl_line_price p) (pl_qty p))"
  from Cons.prems(1) obtain rs s1 more where
    i: "insert_bought e (g_name (pl_goods p)) uid None ?vps s = Inr (rs, s1)" and
    d: "deliver_cart e uid ps s1 = Inr (more, s')" and rows: "rows = rs @ more"
    by (auto simp: tx_simps)
  have p: "0 < pl_qty p" "length (pl_delivered p) = nat (pl_qty p)"
    using Cons.prems(2) by (simp_all add: line_ok_def)
  note ins = insert_bought_Inr [OF i]
  have len: "length rs = nat (pl_qty p)" using arg_cong [OF ins(3), of length] p by simp
  have "map bg_price rs = split_amount (pl_line_price p) (pl_qty p)" using ins p by simp
  then have sum: "sum_list (map bg_price rs) = pl_line_price p" using sum_split_amount [OF p(1)] by simp
  have IH: "s' = s1\<lparr>t_bought := t_bought s1 @ more, t_seq := t_seq s1 + int (length more)\<rparr> \<and>
    sum_list (map bg_price more) = cart_total ps \<and>
    (\<forall>r \<in> set more. bg_buyer_id r = Some uid \<and> bg_order_id r = None) \<and>
    length more = sum_list (map (\<lambda>p. nat (pl_qty p)) ps)"
    using Cons.IH [OF d] Cons.prems(2) by simp
  show ?case
    using IH ins len sum rows p(2) by (auto simp: cart_total_def)
qed

lemma record_cart_promos_frame:
  assumes "record_cart_promos uid ps s = Inr (r, s')"
  shows "t_users s' = t_users s \<and> t_bought s' = t_bought s \<and> t_cart s' = t_cart s \<and> t_orders s' = t_orders s \<and>
    t_operations s' = t_operations s \<and> t_item_values s' = t_item_values s \<and> t_history s' = t_history s \<and>
    t_earnings s' = t_earnings s \<and> t_seq s \<le> t_seq s'"
  using assms
proof (induction ps arbitrary: s)
  case Nil
  then show ?case by simp
next
  case (Cons p ps)
  from Cons.prems obtain s1 where r: "record_promo_usage p uid None s = Inr ((), s1)"
    and "record_cart_promos uid ps s1 = Inr (r, s')" by (auto split: sum.splits exn.splits)
  with Cons.IH record_promo_frame [OF r] show ?case by fastforce
qed

subsection \<open>Properties of the cart\<close>

lemma checkout_loop_True:
  "checkout_loop n e uid expect s = ((True, msg, rc), s') \<Longrightarrow>
    \<exists>a s1. run_session (checkout_body (e\<lparr>env_attempt := a\<rparr>) uid expect) s = Inr ((True, msg, rc), s1) \<and>
      s' = s1\<lparr>t_tasks := t_tasks s'\<rparr>"
proof (induction n arbitrary: s)
  case 0
  then show ?case by simp
next
  case (Suc n)
  have tasks: "\<exists>ts. fold (\<lambda>name. safe_create_task (f name)) ns (s\<lparr>t_tasks := ts0\<rparr>) = s\<lparr>t_tasks := ts\<rparr>"
    for f and ns :: "string list" and s ts0
    by (induction ns arbitrary: ts0) (auto simp: safe_create_task_def)
  show ?case
  proof (cases "run_session (checkout_body (e\<lparr>env_attempt := 2 - n\<rparr>) uid expect) s")
    case (Inl err)
    then show ?thesis using Suc by (auto simp: Let_def split: exn.splits if_splits)
  next
    case (Inr r)
    obtain ok code receipt s1 where r: "r = ((ok, code, receipt), s1)" by (metis surj_pair)
    with Suc.prems Inr have "ok" "code = msg" "receipt = rc"
      and "s' = fold (\<lambda>name. safe_create_task (InvalidateItemCache name None))
            (remdups (map rr_item_name (case receipt of None \<Rightarrow> [] | Some rs \<Rightarrow> rs)))
            (safe_create_task InvalidateStatsCache (safe_create_task (InvalidateUserCache uid) s1))"
      by (auto simp: Let_def)
    moreover have "\<exists>ts. fold (\<lambda>name. safe_create_task (InvalidateItemCache name None)) ns
        (safe_create_task InvalidateStatsCache (safe_create_task (InvalidateUserCache uid) s1)) = s1\<lparr>t_tasks := ts\<rparr>" for ns
      using tasks [where f = "\<lambda>n. InvalidateItemCache n None" and ns = ns and s = s1] by (simp add: safe_create_task_def)
    ultimately have "\<exists>ts. s' = s1\<lparr>t_tasks := ts\<rparr>" by metis
    then have task: "s' = s1\<lparr>t_tasks := t_tasks s'\<rparr>" by auto
    have "run_session (checkout_body (e\<lparr>env_attempt := 2 - n\<rparr>) uid expect) s = Inr ((True, msg, rc), s1)"
      using Inr r \<open>ok\<close> \<open>code = msg\<close> \<open>receipt = rc\<close> by simp
    with task show ?thesis by (intro exI conjI)
  qed
qed

text \<open>The cart rows of one user.\<close>

definition cart_of :: "shop \<Rightarrow> int \<Rightarrow> cart_item list" where
  "cart_of s uid = filter (\<lambda>c. ci_user_id c = uid) (t_cart s)"

lemma checkout_body_True:
  assumes body: "checkout_body e uid expect s = Inr ((True, msg, rc), s')"
    and qty: "\<forall>c \<in> set (t_cart s). 0 < ci_quantity c" and ids: "distinct (map ci_id (t_cart s))"
  obtains u ls rm s1 rows where "get_user s uid = Some u" "cart_of s uid \<noteq> []"
    "resolve_cart e uid (cart_of s uid) s = Inr ((ls, rm), s1)" "ls \<noteq> []"
    "expect = None \<or> expect = Some (cart_total (discount_cart ls))"
    "cart_total (discount_cart ls) \<le> u_balance u" "rc = Some (map receipt_of rows)"
    "t_bought s' = t_bought s @ rows" "sum_list (map bg_price rows) = cart_total (discount_cart ls)"
    "\<forall>r \<in> set rows. bg_buyer_id r = Some uid"
    "length rows = sum_list (map (\<lambda>p. nat (pl_qty p)) (discount_cart ls))"
    "t_users s' = put_by u_id (u\<lparr>u_balance := u_balance u - cart_total (discount_cart ls)\<rparr>) (t_users s)"
    "t_cart s' = filter (\<lambda>c. ci_user_id c \<noteq> uid) (t_cart s)"
    "t_item_values s' = t_item_values s1" "t_orders s' = t_orders s" "t_history s' = t_history s"
    "t_earnings s' = t_earnings s" "t_seq s \<le> t_seq s'"
proof -
  from body obtain u where u: "get_user s uid = Some u" by (auto simp: checkout_body_def split: option.splits)
  let ?cs = "cart_of s uid"
  from body u obtain ls rm s1 where ne: "?cs \<noteq> []" and
    r: "resolve_cart e uid ?cs s = Inr ((ls, rm), s1)"
    by (auto simp: checkout_body_def Let_def cart_of_def [symmetric] tx_simps)
  let ?ps = "discount_cart ls"
  let ?s2 = "s1\<lparr>t_cart := filter (\<lambda>ci. ci_id ci \<notin> set rm) (t_cart s1)\<rparr>"
  note body' = body [unfolded checkout_body_def u option.case Let_def cart_of_def [symmetric]]
  from body' ne r have ps: "?ps \<noteq> []" by auto
  with body' ne r have ex: "expect = None \<or> expect = Some (cart_total ?ps)" "cart_total ?ps \<le> u_balance u"
    by (auto split: if_splits)
  with body' ne r ps obtain rows s3 s4 where
    d: "deliver_cart e uid ?ps ?s2 = Inr (rows, s3)" and
    p: "record_cart_promos uid (distinct_promos ls) s3 = Inr ((), s4)" and
    rc: "rc = Some (map receipt_of rows)" and
    s': "s' = put_user (u\<lparr>u_balance := u_balance u - cart_total ?ps\<rparr>) s4
           \<lparr>t_cart := filter (\<lambda>ci. ci_user_id ci \<noteq> uid) (t_cart s4)\<rparr>"
    by (auto simp: tx_simps put_user_def)
  have "\<forall>c \<in> set ?cs. 0 < ci_quantity c" using qty by (simp add: cart_of_def)
  from resolve_cart_frame [OF r this] obtain P where
    lo: "list_all line_ok ls" and s1: "s1 = s\<lparr>t_item_values := filter P (t_item_values s)\<rparr>" and
    rm: "set rm \<subseteq> ci_id ` set ?cs" by blast
  from lo have "list_all line_ok ?ps" by (simp add: discount_cart_line_ok)
  note D = deliver_cart_Inr [OF d this] and F = record_cart_promos_frame [OF p]
  have s3: "s3 = ?s2\<lparr>t_bought := t_bought s @ rows, t_seq := t_seq s + int (length rows)\<rparr>" using D by (simp add: s1)
  have other: "ci_id c \<notin> set rm" if "c \<in> set (t_cart s)" "ci_user_id c \<noteq> uid" for c
  proof
    assume "ci_id c \<in> set rm"
    with rm obtain c' where "c' \<in> set ?cs" "ci_id c' = ci_id c" by auto
    with that ids have "c' = c" by (auto simp: cart_of_def inj_on_def distinct_map)
    with \<open>c' \<in> set ?cs\<close> that show False by (simp add: cart_of_def)
  qed
  have "t_cart s' = filter (\<lambda>c. ci_user_id c \<noteq> uid) (t_cart s)"
  proof -
    have "t_cart s' = filter (\<lambda>c. ci_user_id c \<noteq> uid) (filter (\<lambda>c. ci_id c \<notin> set rm) (t_cart s))"
      using F by (simp add: s' s3 s1)
    also have "\<dots> = filter (\<lambda>c. ci_user_id c \<noteq> uid) (t_cart s)"
      using other by (auto intro: filter_cong)
    finally show ?thesis .
  qed
  moreover have "ls \<noteq> []" using ps by (simp add: discount_cart_Nil)
  ultimately show ?thesis
    using that [of u ls rm s1 rows] u ne r ex rc D F s3 by (simp add: s' s1 put_user_def)
qed

lemma resolve_cart_attempt [simp]: "resolve_cart (e\<lparr>env_attempt := a\<rparr>) uid cs s = resolve_cart e uid cs s"
proof (induction cs arbitrary: s)
  case (Cons ci cs)
  have "line_promo (e\<lparr>env_attempt := a\<rparr>) = line_promo e" by (intro ext) (simp add: line_promo_def Let_def cong: if_cong option.case_cong)
  then show ?case by (simp add: Cons.IH Let_def cong: if_cong option.case_cong)
qed simp

text \<open>C6: A successful cart checkout charges the total of the discounted lines (the total the user
  confirmed, when one was given), which is at most the balance; the purchase rows it adds belong
  to the buyer and add up to that total, the stock loses what the lines took, the user's cart is
  emptied, and nobody else's balance or cart changes.\<close>
theorem cart_checkout_effect:
  assumes "checkout_cart_transaction e uid expect s = ((True, msg, rc), s')"
    and "\<forall>c \<in> set (t_cart s). 0 < ci_quantity c" "distinct (map ci_id (t_cart s))"
  shows "\<exists>total rows ls rm s1. resolve_cart e uid (cart_of s uid) s = Inr ((ls, rm), s1) \<and>
    total = cart_total (discount_cart ls) \<and> (expect = None \<or> expect = Some total) \<and>
    total \<le> balance_of s uid \<and> rc = Some (map receipt_of rows) \<and>
    t_bought s' = t_bought s @ rows \<and> sum_list (map bg_price rows) = total \<and>
    (\<forall>r \<in> set rows. bg_buyer_id r = Some uid) \<and> t_item_values s' = t_item_values s1 \<and>
    (\<forall>k. balance_of s' k = balance_of s k - (if k = uid then total else 0)) \<and>
    t_cart s' = filter (\<lambda>c. ci_user_id c \<noteq> uid) (t_cart s) \<and> t_orders s' = t_orders s"
proof -
  from checkout_loop_True [OF assms(1) [unfolded checkout_cart_transaction_def]] obtain a s2 where
    run: "run_session (checkout_body (e\<lparr>env_attempt := a\<rparr>) uid expect) s = Inr ((True, msg, rc), s2)" and
    s': "s' = s2\<lparr>t_tasks := t_tasks s'\<rparr>" by blast
  from run have "checkout_body (e\<lparr>env_attempt := a\<rparr>) uid expect s = Inr ((True, msg, rc), s2)"
    by (simp add: run_session_Inr)
  then obtain u ls rm s1 rows where B: "get_user s uid = Some u"
    "resolve_cart (e\<lparr>env_attempt := a\<rparr>) uid (cart_of s uid) s = Inr ((ls, rm), s1)"
    "expect = None \<or> expect = Some (cart_total (discount_cart ls))"
    "cart_total (discount_cart ls) \<le> u_balance u" "rc = Some (map receipt_of rows)"
    "t_bought s2 = t_bought s @ rows" "sum_list (map bg_price rows) = cart_total (discount_cart ls)"
    "\<forall>r \<in> set rows. bg_buyer_id r = Some uid"
    "t_users s2 = put_by u_id (u\<lparr>u_balance := u_balance u - cart_total (discount_cart ls)\<rparr>) (t_users s)"
    "t_cart s2 = filter (\<lambda>c. ci_user_id c \<noteq> uid) (t_cart s)"
    "t_item_values s2 = t_item_values s1" "t_orders s2 = t_orders s"
    by (rule checkout_body_True [OF _ assms(2,3)]) blast
  have uid: "u_id u = uid" using B(1) by (rule users.lookup_key)
  have "balance_of s2 k = balance_of s k - (if k = uid then cart_total (discount_cart ls) else 0)" for k
    using B(1) uid by (auto simp: balance_of_def get_user_def B(9) find_put split: option.split)
  moreover have "balance_of s' k = balance_of s2 k" for k
    by (rule balance_of_users) (subst s', simp)
  moreover have "t_bought s' = t_bought s2" "t_item_values s' = t_item_values s2" "t_cart s' = t_cart s2"
    "t_orders s' = t_orders s2" by (subst s', simp)+
  moreover have "balance_of s uid = u_balance u" using B(1) by (simp add: balance_of_def)
  ultimately show ?thesis using B by simp
qed

lemma cart_checkout_effect_witness:
  "\<exists>rc s'. checkout_cart_transaction sample_env 1 (Some 2998) sample_shop = ((True, ''success'', Some rc), s') \<and>
    t_cart s' = [] \<and> balance_of s' 1 = 2002"
proof -
  let ?r = "checkout_cart_transaction sample_env 1 (Some 2998) sample_shop"
  have "\<exists>d s'. ?r = ((True, ''success'', Some d), s')" by (rule outcome_cases) code_simp
  then obtain rc s' where r: "?r = ((True, ''success'', Some rc), s')" by (elim exE)
  have h: "\<forall>c \<in> set (t_cart sample_shop). 0 < ci_quantity c" "distinct (map ci_id (t_cart sample_shop))"
    "filter (\<lambda>c. ci_user_id c \<noteq> 1) (t_cart sample_shop) = []" "balance_of sample_shop 1 = 5000"
    by (simp_all add: sample_shop_def sample_cart_item_def empty_shop_def balance_of_def get_user_def sample_user_def)
  from cart_checkout_effect [OF r h(1,2)] obtain total where t: "Some (2998::int) = None \<or> Some 2998 = Some total"
    and k: "\<forall>k. balance_of s' k = balance_of sample_shop k - (if k = 1 then total else 0)"
    and c: "t_cart s' = filter (\<lambda>c. ci_user_id c \<noteq> 1) (t_cart sample_shop)"
    by (elim exE conjE) (rule that)
  have "balance_of s' 1 = 2002" using spec [OF k, of 1] t h(4) by simp
  moreover have "t_cart s' = []" using c h(3) by simp
  ultimately show ?thesis using r by blast
qed

lemma checkout_body_False:
  assumes body: "checkout_body e uid expect s = Inr ((False, msg, rc), s')"
  shows "msg = ''cart_items_unavailable'' \<and> rc = None \<and> cart_of s uid \<noteq> [] \<and>
    (\<forall>c \<in> set (cart_of s uid). dead_line s c) \<and>
    s' = s\<lparr>t_cart := filter (\<lambda>c. ci_id c \<notin> ci_id ` set (cart_of s uid)) (t_cart s)\<rparr>"
proof -
  from body obtain u where u: "get_user s uid = Some u" by (auto simp: checkout_body_def split: option.splits)
  from body u obtain ls rm s1 where ne: "cart_of s uid \<noteq> []" and
    r: "resolve_cart e uid (cart_of s uid) s = Inr ((ls, rm), s1)"
    by (auto simp: checkout_body_def Let_def cart_of_def [symmetric] tx_simps)
  note body' = body [unfolded checkout_body_def u option.case Let_def cart_of_def [symmetric]]
  have ps: "discount_cart ls = []" using body' ne r by (auto simp: tx_simps split: if_splits)
  then have "ls = []" by (simp add: discount_cart_Nil)
  with resolve_cart_dead r have "s1 = s" "rm = map ci_id (cart_of s uid)" "\<forall>c \<in> set (cart_of s uid). dead_line s c"
    by blast+
  moreover have "msg = ''cart_items_unavailable''" "rc = None" "s' = s1\<lparr>t_cart := filter (\<lambda>c. ci_id c \<notin> set rm) (t_cart s1)\<rparr>"
    using body' ne r ps by auto
  ultimately show ?thesis using ne by simp
qed

lemma checkout_loop_False:
  "checkout_loop n e uid expect s = ((False, msg, rc), s') \<Longrightarrow>
    rc = None \<and> ((\<exists>rows. s' = s\<lparr>t_audit := t_audit s @ rows\<rparr>) \<or>
      msg = ''cart_items_unavailable'' \<and> cart_of s uid \<noteq> [] \<and>
      (\<forall>c \<in> set (cart_of s uid). dead_line s c) \<and>
      s' = s\<lparr>t_cart := filter (\<lambda>c. ci_id c \<notin> ci_id ` set (cart_of s uid)) (t_cart s)\<rparr>)"
proof (induction n)
  case 0
  then have "rc = None \<and> s' = s\<lparr>t_audit := t_audit s @ []\<rparr>" by simp
  then show ?case by blast
next
  case (Suc n)
  show ?case
  proof (cases "run_session (checkout_body (e\<lparr>env_attempt := 2 - n\<rparr>) uid expect) s")
    case (Inl err)
    then consider "checkout_loop n e uid expect s = ((False, msg, rc), s')"
      | "rc = None" "s' = s"
      | "rc = None" "s' = log_audit ''cart_checkout_failed'' ''WARNING'' (Some uid) None None s"
      using Suc.prems by (auto simp: Let_def split: exn.splits if_splits)
    then show ?thesis
    proof cases
      case 1
      then show ?thesis by (rule Suc.IH)
    next
      case 2
      then have "s' = s\<lparr>t_audit := t_audit s @ []\<rparr>" by simp
      with 2 show ?thesis by blast
    next
      case 3
      then show ?thesis by (auto simp: log_audit_def)
    qed
  next
    case (Inr r)
    obtain ok code receipt s1 where r: "r = ((ok, code, receipt), s1)" by (metis surj_pair)
    with Suc.prems Inr have "\<not> ok" "code = msg" "receipt = rc" "s1 = s'" by (auto simp: Let_def split: if_splits)
    with Inr r have "checkout_body (e\<lparr>env_attempt := 2 - n\<rparr>) uid expect s = Inr ((False, msg, rc), s')"
      by (simp add: run_session_Inr)
    from checkout_body_False [OF this] show ?thesis by blast
  qed
qed

text \<open>C7: A failed checkout leaves the shop as it was but for audit rows, with one exception: when every
  line of the user's cart, and there is one, is dead (its product is gone or has no unit on sale),
  it answers cart_items_unavailable and removes exactly that user's lines; a live line is never
  removed by a failure.\<close>
theorem cart_checkout_failure:
  assumes "checkout_cart_transaction e uid expect s = ((False, msg, rc), s')"
  shows "rc = None \<and> ((\<exists>rows. s' = s\<lparr>t_audit := t_audit s @ rows\<rparr>) \<or>
    msg = ''cart_items_unavailable'' \<and> cart_of s uid \<noteq> [] \<and> (\<forall>c \<in> set (cart_of s uid). dead_line s c) \<and>
      s' = s\<lparr>t_cart := filter (\<lambda>c. ci_id c \<notin> ci_id ` set (cart_of s uid)) (t_cart s)\<rparr>)"
  by (rule checkout_loop_False [OF assms [unfolded checkout_cart_transaction_def]])

text \<open>Both products of this cart are dead: one is sold out, the other is an API product, which has no units.\<close>

definition dead_cart_shop :: shop where
  "dead_cart_shop = sample_shop\<lparr>t_item_values := [],
     t_cart := [sample_cart_item 13 1 3 2 None, sample_cart_item 14 2 3 1 None, sample_cart_item 15 1 6 1 None]\<rparr>"

lemma cart_checkout_failure_witness:
  "\<exists>s'. checkout_cart_transaction sample_env 1 None dead_cart_shop = ((False, ''cart_items_unavailable'', None), s') \<and>
    (\<forall>c \<in> set (cart_of dead_cart_shop 1). dead_line dead_cart_shop c) \<and> map ci_id (t_cart s') = [14]"
proof -
  let ?r = "checkout_cart_transaction sample_env 1 None dead_cart_shop"
  have f: "fst ?r = (False, ''cart_items_unavailable'', None)" by code_simp
  have ids: "map ci_id (t_cart (snd ?r)) = [14]" by code_simp
  from f have r: "?r = ((False, ''cart_items_unavailable'', None), snd ?r)" by (metis prod.collapse)
  have "map ci_id (t_cart dead_cart_shop) = [13, 14, 15]" by code_simp
  with ids have "\<not> (\<exists>rows. snd ?r = dead_cart_shop\<lparr>t_audit := t_audit dead_cart_shop @ rows\<rparr>)" by auto
  with cart_checkout_failure [OF r] have "\<forall>c \<in> set (cart_of dead_cart_shop 1). dead_line dead_cart_shop c" by blast
  then show ?thesis by (intro exI [of _ "snd ?r"] conjI r ids)
qed

subsubsection \<open>One line per promo code\<close>

text \<open>
  The rule of the docstring, line by line: a line keeps its code only if no other line with the same
  code is dearer (the lowest cart id among equals), and that line alone is discounted.
\<close>

definition dearest_with :: "purchase_line list \<Rightarrow> promo_code \<Rightarrow> purchase_line \<Rightarrow> bool" where
  "dearest_with ls p l \<longleftrightarrow> (\<forall>l' \<in> set ls. has_promo (pc_id p) l' \<longrightarrow> \<not> line_less l l')"

definition settled_line :: "purchase_line list \<Rightarrow> purchase_line \<Rightarrow> purchase_line" where
  "settled_line ls l =
     (case pl_promo l of None \<Rightarrow> l
      | Some p \<Rightarrow> if dearest_with ls p l
          then l\<lparr>pl_line_price := apply_promo_discount (pl_unit_price l) (pc_discount_type p) (pc_discount_value p) (pl_qty l)\<rparr>
          else l\<lparr>pl_promo := None\<rparr>)"

definition consistent_promos :: "purchase_line list \<Rightarrow> bool" where
  "consistent_promos ls \<longleftrightarrow> (\<forall>l \<in> set ls. \<forall>l' \<in> set ls. \<forall>p q.
     pl_promo l = Some p \<longrightarrow> pl_promo l' = Some q \<longrightarrow> pc_id p = pc_id q \<longrightarrow> p = q)"

lemma best_line_mem: "best_line b ls \<in> insert b (set ls)"
  by (induction ls arbitrary: b) auto

lemma line_less_trans: "line_less a b \<Longrightarrow> line_less b c \<Longrightarrow> line_less a c"
  by (auto simp: line_less_def)

lemma line_less_neg_trans: "\<not> line_less a b \<Longrightarrow> \<not> line_less b c \<Longrightarrow> \<not> line_less a c"
  by (auto simp: line_less_def)

lemma line_less_irrefl: "\<not> line_less a a"
  by (simp add: line_less_def)

lemma line_less_total: "pl_cart_id a \<noteq> pl_cart_id b \<Longrightarrow> line_less a b \<or> line_less b a"
  by (auto simp: line_less_def)

lemma best_line_max: "x \<in> insert b (set ls) \<Longrightarrow> \<not> line_less (best_line b ls) x"
proof (induction ls arbitrary: b x)
  case Nil
  then show ?case by (simp add: line_less_irrefl)
next
  case (Cons l ls)
  let ?m = "if line_less b l then l else b"
  show ?case
  proof (cases "x \<in> insert ?m (set ls)")
    case True
    then show ?thesis using Cons.IH [of x ?m] by simp
  next
    case False
    then have "x \<in> {b, l}" "x \<noteq> ?m" using Cons.prems by auto
    then have "x = b \<and> line_less b l \<or> x = l \<and> \<not> line_less b l" by (auto split: if_splits)
    moreover have "\<not> line_less (best_line ?m ls) ?m" by (rule Cons.IH) simp
    ultimately show ?thesis
      using line_less_trans [of "best_line ?m ls" b l] line_less_neg_trans [of "best_line ?m ls" b l] by auto
  qed
qed

text \<open>With distinct cart ids the line \<open>max\<close> picks is the dearest one.\<close>

lemma best_is_dearest:
  assumes "filter (has_promo (pc_id p)) ls = x # xs" "distinct (map pl_cart_id ls)" "l \<in> set ls" "has_promo (pc_id p) l"
  shows "pl_cart_id l = pl_cart_id (best_line x xs) \<longleftrightarrow> dearest_with ls p l"
proof -
  let ?b = "best_line x xs"
  have el: "insert x (set xs) = {l \<in> set ls. has_promo (pc_id p) l}" using arg_cong [OF assms(1), of set] by auto
  have b: "?b \<in> set ls" "has_promo (pc_id p) ?b" using best_line_mem [of x xs] el by auto
  have max: "\<not> line_less ?b l'" if "l' \<in> set ls" "has_promo (pc_id p) l'" for l'
    using best_line_max [of l' x xs] el that by simp
  show ?thesis
  proof
    assume "pl_cart_id l = pl_cart_id ?b"
    with assms(2,3) b(1) have "l = ?b" by (auto simp: distinct_map inj_on_def)
    with max show "dearest_with ls p l" by (simp add: dearest_with_def)
  next
    assume "dearest_with ls p l"
    with b max [OF assms(3,4)] show "pl_cart_id l = pl_cart_id ?b"
      using line_less_total [of l ?b] by (auto simp: dearest_with_def)
  qed
qed

definition settled_by :: "purchase_line list \<Rightarrow> int set \<Rightarrow> purchase_line \<Rightarrow> purchase_line" where
  "settled_by ls D l = (case pl_promo l of None \<Rightarrow> l | Some p \<Rightarrow> if pc_id p \<in> D then settled_line ls l else l)"

lemma settled_by_promo:
  "pid \<notin> D \<Longrightarrow> has_promo pid (settled_by ls D l) \<longleftrightarrow> has_promo pid l"
  by (auto simp: settled_by_def settled_line_def has_promo_def split: option.splits)

lemma settled_by_same: "has_promo pid l \<Longrightarrow> pid \<notin> D \<Longrightarrow> settled_by ls D l = l"
  by (auto simp: settled_by_def has_promo_def split: option.splits)

lemma apply_promo_settles:
  assumes c: "consistent_promos ls" "distinct (map pl_cart_id ls)" and p: "\<exists>l \<in> set ls. pl_promo l = Some p"
    and D: "pc_id p \<notin> D"
  shows "apply_promo_to_cart p (map (settled_by ls D) ls) = map (settled_by ls (insert (pc_id p) D)) ls"
proof -
  have same: "filter (has_promo (pc_id p)) (map (settled_by ls D) ls) = filter (has_promo (pc_id p)) ls"
    using D by (simp add: filter_map comp_def settled_by_promo)
      (rule map_idI, auto simp: settled_by_same)
  from p obtain x xs where f: "filter (has_promo (pc_id p)) ls = x # xs"
    by (cases "filter (has_promo (pc_id p)) ls") (auto simp: filter_empty_conv has_promo_def)
  show ?thesis
    unfolding apply_promo_to_cart_def same f list.case Let_def map_map
  proof (rule map_cong [OF refl], goal_cases)
    case (1 l)
    show ?case
    proof (cases "has_promo (pc_id p) l")
      case True
      then obtain q where q: "pl_promo l = Some q" "pc_id q = pc_id p" by (auto simp: has_promo_def)
      with c(1) p 1 have qp: "q = p" unfolding consistent_promos_def by blast
      have "settled_by ls (insert (pc_id p) D) l = settled_line ls l" using q by (simp add: settled_by_def)
      moreover have "settled_by ls D l = l" using True D by (rule settled_by_same)
      ultimately show ?thesis
        using best_is_dearest [OF f c(2) 1 True] q qp True by (simp add: settled_line_def)
    next
      case False
      then have "settled_by ls (insert (pc_id p) D) l = settled_by ls D l"
        by (auto simp: settled_by_def has_promo_def split: option.split)
      with False D show ?thesis by (simp add: settled_by_promo)
    qed
  qed
qed

lemma distinct_promos_ids: "distinct (map pc_id (distinct_promos ls))"
  by (induction ls) (auto simp: distinct_map_filter split: option.split)

lemma distinct_promos_mem: "p \<in> set (distinct_promos ls) \<Longrightarrow> \<exists>l \<in> set ls. pl_promo l = Some p"
  by (induction ls) (auto split: option.splits)

lemma distinct_promos_cover: "l \<in> set ls \<Longrightarrow> pl_promo l = Some p \<Longrightarrow> pc_id p \<in> pc_id ` set (distinct_promos ls)"
  by (induction ls) (force split: option.splits)+

lemma discount_cart_settles:
  assumes "consistent_promos ls" "distinct (map pl_cart_id ls)"
  shows "discount_cart ls = map (settled_line ls) ls"
proof -
  have "fold apply_promo_to_cart ps (map (settled_by ls D) ls) = map (settled_by ls (D \<union> pc_id ` set ps)) ls"
    if "distinct (map pc_id ps)" "set ps \<subseteq> set (distinct_promos ls)" "pc_id ` set ps \<inter> D = {}" for ps D
    using that
  proof (induction ps arbitrary: D)
    case Nil
    then show ?case by simp
  next
    case (Cons p ps)
    have "\<exists>l \<in> set ls. pl_promo l = Some p" using Cons.prems(2) distinct_promos_mem by auto
    moreover have "pc_id p \<notin> D" using Cons.prems(3) by auto
    ultimately have "apply_promo_to_cart p (map (settled_by ls D) ls) = map (settled_by ls (insert (pc_id p) D)) ls"
      by (rule apply_promo_settles [OF assms])
    with Cons show ?case by simp
  qed
  from this [of "distinct_promos ls" "{}"]
  have "fold apply_promo_to_cart (distinct_promos ls) (map (settled_by ls {}) ls) =
      map (settled_by ls (pc_id ` set (distinct_promos ls))) ls" by (simp add: distinct_promos_ids)
  moreover have "map (settled_by ls {}) ls = ls" by (rule map_idI) (simp add: settled_by_def split: option.split)
  moreover have "map (settled_by ls (pc_id ` set (distinct_promos ls))) ls = map (settled_line ls) ls"
    by (rule map_cong [OF refl])
      (use distinct_promos_cover in \<open>auto simp: settled_by_def settled_line_def split: option.split\<close>)
  ultimately show ?thesis by (simp add: discount_cart_def)
qed

text \<open>C8: The promo loop of the checkout is the line-by-line rule: a line keeps its code exactly when no
  other line with the same code is dearer (lowest cart id among equals), and only that line is
  discounted; so every code discounts at most one line.\<close>
theorem cart_promo_single_line:
  assumes "consistent_promos ls" "distinct (map pl_cart_id ls)"
  shows "discount_cart ls = map (settled_line ls) ls \<and> length (filter (has_promo pid) (discount_cart ls)) \<le> 1"
proof -
  have "length (filter (has_promo pid) (map (settled_line ls) ls)) = length (filter (has_promo pid \<circ> settled_line ls) ls)"
    by (simp add: filter_map)
  also have "\<dots> \<le> 1"
  proof (rule ccontr)
    assume "\<not> ?thesis"
    moreover have d: "distinct (map pl_cart_id (filter (has_promo pid \<circ> settled_line ls) ls))"
      using assms(2) by (rule distinct_map_filter)
    ultimately obtain a b rest where f: "filter (has_promo pid \<circ> settled_line ls) ls = a # b # rest"
      by (metis One_nat_def Suc_le_mono le0 length_Cons list.exhaust list.size(3) nat_le_linear)
    then have "a \<in> set (filter (has_promo pid \<circ> settled_line ls) ls)"
      "b \<in> set (filter (has_promo pid \<circ> settled_line ls) ls)" by (simp_all only: list.set insert_iff simp_thms)
    then have ab: "a \<in> set ls" "b \<in> set ls" "has_promo pid (settled_line ls a)" "has_promo pid (settled_line ls b)"
      by simp_all
    from d f have ne: "pl_cart_id a \<noteq> pl_cart_id b" by auto
    from ab have "has_promo pid a" "has_promo pid b"
      and "\<exists>p. pc_id p = pid \<and> dearest_with ls p a" "\<exists>p. pc_id p = pid \<and> dearest_with ls p b"
      by (auto simp: settled_line_def has_promo_def split: option.splits if_splits)
    with ab line_less_total [OF ne] show False by (auto simp: dearest_with_def)
  qed
  finally show ?thesis using discount_cart_settles [OF assms] by simp
qed

lemma cart_promo_single_line_witness:
  "\<exists>a b. discount_cart [a, b] = [a\<lparr>pl_promo := None\<rparr>, b\<lparr>pl_line_price := 3000\<rparr>] \<and>
    length (filter (has_promo 9) (discount_cart [a, b])) \<le> 1"
proof -
  let ?l = "\<lambda>k p. \<lparr>pl_cart_id = k, pl_goods = sample_goods 3 ''key'' p FulfillStock, pl_qty = 1, pl_unit_price = p,
    pl_line_price = p, pl_promo = Some sample_promo, pl_delivered = [Some ''v'']\<rparr>"
  let ?ls = "[?l 1 2000, ?l 2 4000]"
  have s: "settled_line ?ls (?l 1 2000) = (?l 1 2000)\<lparr>pl_promo := None\<rparr>"
    "settled_line ?ls (?l 2 4000) = (?l 2 4000)\<lparr>pl_line_price := 3000\<rparr>"
    by (auto simp: settled_line_def dearest_with_def has_promo_def line_less_def sample_promo_def
        apply_promo_discount_def)
  have "consistent_promos ?ls" by (simp add: consistent_promos_def)
  moreover have "distinct (map pl_cart_id ?ls)" by simp
  ultimately have "discount_cart ?ls = map (settled_line ?ls) ?ls \<and> length (filter (has_promo 9) (discount_cart ?ls)) \<le> 1"
    by (rule cart_promo_single_line)
  then show ?thesis unfolding list.map s by blast
qed

end
