(* ===== verification/Payments.thy ===== *)
theory Payments
  imports PyStr Pricing Sample_Shop
begin

text \<open>
  Topping up a balance: \<open>bot/payments/credit.py\<close> and \<open>process_payment_with_referral\<close>
  (\<open>transactions.py\<close>), the gateway configuration (\<open>gateway_settings.py\<close>), the Platega gateway, the
  instruments and the webhook (\<open>service.py\<close>, \<open>payment_webhooks.py\<close>).
\<close>

subsection \<open>Crediting\<close>

text \<open>
  The transaction of \<open>process_payment_topup\<close>; \<open>processed\<close> are the statuses that count as already
  credited.  A payment that is already on record is credited with its recorded amount.
\<close>

definition topup_body ::
    "env \<Rightarrow> string list \<Rightarrow> int \<Rightarrow> int \<Rightarrow> string \<Rightarrow> string \<Rightarrow> shop \<Rightarrow> (unit \<times> shop) result" where
  "topup_body e processed user_id amount provider external_id s =
     tx_bind (case get_payment s (provider, external_id) of
        Some p \<Rightarrow>
          if pay_status p \<in> set processed then Inl (Abort ''already_processed'')
          else Inr (pay_amount p, put_payment (p\<lparr>pay_status := ''succeeded''\<rparr>) s)
      | None \<Rightarrow>
          Inr (amount, s\<lparr>t_payments := t_payments s @ [\<lparr>pay_id = next_id s, pay_internal_uuid = None,
             pay_provider = provider, pay_external_id = external_id, pay_user_id = Some user_id,
             pay_amount = amount, pay_currency = env_pay_currency e, pay_status = ''succeeded'',
             pay_created_at = env_now e\<rparr>], t_seq := next_id s\<rparr>))
     (\<lambda>(amount, s1). case get_user s1 user_id of
        None \<Rightarrow> Inl NoResultFound
      | Some u \<Rightarrow> Inr ((), add_operation user_id amount (env_now e)
           (put_user (u\<lparr>u_balance := u_balance u + amount\<rparr>) s1)))"

definition run_topup ::
    "env \<Rightarrow> string list \<Rightarrow> int \<Rightarrow> int \<Rightarrow> string \<Rightarrow> string \<Rightarrow> shop \<Rightarrow> (bool \<times> string) \<times> shop" where
  "run_topup e processed user_id amount provider external_id s =
     (case run_session (topup_body e processed user_id amount provider external_id) s of
        Inl (Abort c) \<Rightarrow> ((False, c), s)
      | Inl (IntegrityError _) \<Rightarrow> ((False, ''already_processed''), s)
      | Inl _ \<Rightarrow> ((False, ''payment_error''),
          log_audit ''payment_failed'' ''WARNING'' (Some user_id) (Some ''Payment'') None s)
      | Inr (_, s1) \<Rightarrow> ((True, ''success''),
          safe_create_task InvalidateStatsCache (safe_create_task (InvalidateUserCache user_id) s1)))"

definition process_payment_topup ::
    "env \<Rightarrow> int \<Rightarrow> int \<Rightarrow> string \<Rightarrow> string \<Rightarrow> shop \<Rightarrow> (bool \<times> string) \<times> shop" where
  "process_payment_topup e = run_topup e [''succeeded'', ''paid'', ''completed'']"

definition process_payment_with_referral ::
    "env \<Rightarrow> int \<Rightarrow> int \<Rightarrow> string \<Rightarrow> string \<Rightarrow> shop \<Rightarrow> (bool \<times> string) \<times> shop" where
  "process_payment_with_referral e = run_topup e [''succeeded'']"

text \<open>
  \<open>create_pending_payment\<close>: the pair of provider and external id is unique, the internal uuid too,
  and the user must exist.
\<close>

definition create_pending_payment ::
    "env \<Rightarrow> string \<Rightarrow> string \<Rightarrow> int \<Rightarrow> int \<Rightarrow> string \<Rightarrow> string option \<Rightarrow> shop \<Rightarrow> (unit \<times> shop) result" where
  "create_pending_payment e provider external_id user_id amount currency internal_uuid =
     run_session (\<lambda>s.
       if get_payment s (provider, external_id) \<noteq> None then Inl (IntegrityError ''uq_payment_provider_ext'')
       else if internal_uuid \<noteq> None \<and> internal_uuid \<in> set (map pay_internal_uuid (t_payments s))
       then Inl (IntegrityError ''internal_uuid'')
       else if get_user s user_id = None then Inl (IntegrityError ''user_id'')
       else Inr ((), s\<lparr>t_payments := t_payments s @ [\<lparr>pay_id = next_id s, pay_internal_uuid = internal_uuid,
             pay_provider = provider, pay_external_id = external_id, pay_user_id = Some user_id,
             pay_amount = amount, pay_currency = currency, pay_status = ''pending'',
             pay_created_at = env_now e\<rparr>], t_seq := next_id s\<rparr>))"

subsection \<open>Gateway configuration\<close>

text \<open>\<open>GATEWAY_CONFIG_SCHEMAS\<close>; of the hints only the prefix \<open>string\<close> matters.\<close>

definition GATEWAY_CONFIG_SCHEMAS :: "string \<Rightarrow> (string \<times> json) list" where
  "GATEWAY_CONFIG_SCHEMAS code =
     (if code = ''platega'' then
        [(''merchant_id'', JStr ''string''), (''api_secret'', JStr ''string''),
         (''base_url'', JStr ''https://app.platega.io''), (''payment_method'', JNum 11),
         (''return_url'', JStr ''https://t.me''), (''failed_url'', JStr ''https://t.me''),
         (''webhook_path'', JStr ''/webhooks/platega'')]
      else if code = ''cryptopay'' then [(''api_token'', JStr ''string'')]
      else if code = ''telegram_fiat'' then [(''provider_token'', JStr ''string'')]
      else if code = ''stars'' then [(''stars_per_value'', JStr ''float'')]
      else [])"

definition starts_with :: "string \<Rightarrow> string \<Rightarrow> bool" where
  "starts_with p s \<longleftrightarrow> take (length p) s = p"

definition default_config_json :: "string \<Rightarrow> json" where
  "default_config_json code = JObj (filter (\<lambda>(key, hint). key \<noteq> ''webhook_path'' \<and>
     (case hint of JNum _ \<Rightarrow> True | JFloat _ \<Rightarrow> True | JStr t \<Rightarrow> \<not> starts_with ''string'' t | _ \<Rightarrow> False))
     (GATEWAY_CONFIG_SCHEMAS code))"

definition load_cfg :: "payment_gateway \<Rightarrow> (string \<times> json) list" where
  "load_cfg gw = (case pg_config_json gw of Some (JObj kvs) \<Rightarrow> kvs | _ \<Rightarrow> [])"

text \<open>\<open>(cfg.get(key) or "").strip()\<close>\<close>

definition str_field :: "(string \<times> json) list \<Rightarrow> string \<Rightarrow> string result" where
  "str_field cfg key = tx_bind (as_str (json_or (dict_get cfg key) (JStr []))) (\<lambda>t. Inr (strip t))"

definition stars_rate :: "(string \<times> json) list \<Rightarrow> rat" where
  "stars_rate cfg = (case json_float (json_or (dict_get cfg ''stars_per_value'') (JNum 0)) of Inl _ \<Rightarrow> 0 | Inr r \<Rightarrow> r)"

definition gateway_is_configured :: "payment_gateway \<Rightarrow> bool result" where
  "gateway_is_configured gw =
     (let code = pg_code gw; cfg = load_cfg gw
      in if code = ''platega'' then
           tx_bind (str_field cfg ''merchant_id'') (\<lambda>m.
             if m = [] then Inr False
             else tx_bind (str_field cfg ''api_secret'') (\<lambda>k. Inr (k \<noteq> [])))
         else if code = ''cryptopay'' then tx_bind (str_field cfg ''api_token'') (\<lambda>t. Inr (t \<noteq> []))
         else if code = ''telegram_fiat'' then tx_bind (str_field cfg ''provider_token'') (\<lambda>t. Inr (t \<noteq> []))
         else if code = ''stars'' then Inr (0 < stars_rate cfg)
         else if code = ''heleket'' then Inr False
         else Inr (cfg \<noteq> []))"

definition token_option :: "string \<Rightarrow> string option" where
  "token_option t = (if t = [] then None else Some t)"

definition cryptopay_api_token :: "payment_gateway \<Rightarrow> string option result" where
  "cryptopay_api_token gw = tx_bind (str_field (load_cfg gw) ''api_token'') (\<lambda>t. Inr (token_option t))"

definition telegram_provider_token :: "payment_gateway \<Rightarrow> string option result" where
  "telegram_provider_token gw = tx_bind (str_field (load_cfg gw) ''provider_token'') (\<lambda>t. Inr (token_option t))"

definition stars_per_value :: "payment_gateway \<Rightarrow> rat" where
  "stars_per_value gw = stars_rate (load_cfg gw)"

definition get_gateway_by_code :: "shop \<Rightarrow> string \<Rightarrow> payment_gateway option" where
  "get_gateway_by_code s code = find_by pg_code code (t_gateways s)"

definition get_configured_gateway :: "shop \<Rightarrow> string \<Rightarrow> payment_gateway option result" where
  "get_configured_gateway s code =
     (case get_gateway_by_code s code of
        None \<Rightarrow> Inr None
      | Some gw \<Rightarrow>
          if \<not> pg_enabled gw then Inr None
          else tx_bind (gateway_is_configured gw) (\<lambda>ok. Inr (if ok then Some gw else None)))"

subsection \<open>\<open>payment_config.py\<close>\<close>

text \<open>The title of the card instrument, in UTF-8.\<close>

definition card_mir_title :: string where
  "card_mir_title = [CHR 0xD0, CHR 0x9A, CHR 0xD0, CHR 0xB0, CHR 0xD1, CHR 0x80, CHR 0xD1, CHR 0x82, CHR 0xD0,
     CHR 0xB0, CHR 0x20, CHR 0x2F, CHR 0x20, CHR 0xD0, CHR 0x9C, CHR 0xD0, CHR 0x98, CHR 0xD0,
     CHR 0xA0]"

definition seed_default_payment_config :: "shop \<Rightarrow> shop" where
  "seed_default_payment_config s =
     (if t_gateways s \<noteq> [] then s
      else (let k = t_seq s;
                gw = (\<lambda>i code enabled. \<lparr>pg_id = k + i, pg_code = code, pg_enabled = enabled,
                        pg_config_json = Some (default_config_json code)\<rparr>);
                ins = (\<lambda>i code title enabled sort g. \<lparr>pi_id = k + i, pi_code = code, pi_title = title,
                        pi_enabled = enabled, pi_sort_order = sort, pi_currency = ''RUB'', pi_gateway_id = k + g\<rparr>)
            in s\<lparr>t_gateways := [gw 1 ''platega'' True, gw 2 ''cryptopay'' True, gw 3 ''stars'' True,
                                gw 4 ''telegram_fiat'' True, gw 5 ''heleket'' False],
                 t_instruments := t_instruments s @
                   [ins 6 ''card_mir'' card_mir_title True 10 1, ins 7 ''cryptopay'' ''CryptoPay'' False 20 2,
                    ins 8 ''stars'' ''Telegram Stars'' False 30 3,
                    ins 9 ''telegram_fiat'' ''Telegram Payments'' False 40 4],
                 t_seq := k + 9\<rparr>))"

subsection \<open>Platega\<close>

definition platega_defaults :: "(string \<times> json) list" where
  "platega_defaults = [(''base_url'', JStr ''https://app.platega.io''), (''payment_method'', JNum 11),
     (''return_url'', JStr ''https://t.me''), (''failed_url'', JStr ''https://t.me'')]"

definition platega_config :: "json \<Rightarrow> (string \<times> json) list result" where
  "platega_config gateway_config =
     (case json_or gateway_config (JObj []) of
        JObj kvs \<Rightarrow> Inr (dict_update platega_defaults kvs)
      | _ \<Rightarrow> Inl (OtherError ''TypeError''))"

definition gateway_config_from_json :: "json option \<Rightarrow> json" where
  "gateway_config_from_json config_json = (case config_json of None \<Rightarrow> JObj [] | Some j \<Rightarrow> j)"

definition auth_headers :: "(string \<times> json) list \<Rightarrow> (string \<times> string) result" where
  "auth_headers cfg =
     tx_bind (str_field cfg ''merchant_id'') (\<lambda>merchant.
     tx_bind (str_field cfg ''api_secret'') (\<lambda>secret.
       if merchant = [] \<or> secret = [] then Inl (PlategaError ''platega_not_configured'')
       else Inr (merchant, secret)))"

definition verify_webhook_headers :: "json \<Rightarrow> string option \<Rightarrow> string option \<Rightarrow> bool result" where
  "verify_webhook_headers gateway_config merchant_header secret_header =
     tx_bind (platega_config gateway_config) (\<lambda>cfg.
     tx_bind (str_field cfg ''merchant_id'') (\<lambda>expected_m.
     tx_bind (str_field cfg ''api_secret'') (\<lambda>expected_s.
       Inr (expected_m \<noteq> [] \<and> expected_s \<noteq> [] \<and>
            merchant_header = Some expected_m \<and> secret_header = Some expected_s))))"

text \<open>The JSON of a reply: \<open>await resp.json(content_type=None)\<close>.\<close>

definition reply_json :: "http_result \<Rightarrow> (int \<times> json) result" where
  "reply_json r = (case r of
     HttpTimeout \<Rightarrow> Inl (OtherError ''TimeoutError'')
   | HttpFailure m \<Rightarrow> Inl (OtherError m)
   | HttpReply status b \<Rightarrow> (case b of EmptyBody \<Rightarrow> Inr (status, JNull) | JsonBody j \<Rightarrow> Inr (status, j)
       | RawBody _ \<Rightarrow> Inl (ValueError ''JSONDecodeError'')))"

record created_payment =
  cp_provider :: string
  cp_external_id :: string
  cp_payment_url :: "string option"
  cp_internal_uuid :: string
  cp_mode :: string

definition platega_body ::
    "(string \<times> json) list \<Rightarrow> int \<Rightarrow> int \<Rightarrow> int \<Rightarrow> string \<Rightarrow> string \<Rightarrow> string option \<Rightarrow> json" where
  "platega_body cfg payment_method user_id amount_cents internal_uuid description username =
     JObj [(''paymentMethod'', JNum payment_method),
           (''paymentDetails'', JObj [(''amount'', JFloat (cents_to_float_rub amount_cents)), (''currency'', JStr ''RUB'')]),
           (''description'', JStr description), (''return'', dict_get cfg ''return_url''),
           (''failedUrl'', dict_get cfg ''failed_url''), (''payload'', JStr internal_uuid),
           (''orderId'', JStr internal_uuid),
           (''metadata'', JObj [(''userId'', JStr (show_int user_id)),
              (''userName'', JStr (case username of None \<Rightarrow> show_int user_id
                 | Some n \<Rightarrow> if n = [] then show_int user_id else n))])]"

definition platega_create_payment ::
    "env \<Rightarrow> json \<Rightarrow> int \<Rightarrow> int \<Rightarrow> string \<Rightarrow> string \<Rightarrow> string option \<Rightarrow> created_payment result" where
  "platega_create_payment e gateway_config user_id amount_cents internal_uuid description username =
     tx_bind (platega_config gateway_config) (\<lambda>cfg.
     tx_bind (auth_headers cfg) (\<lambda>_.
     tx_bind (json_int (dict_get cfg ''payment_method'')) (\<lambda>payment_method.
     tx_bind (reply_json (env_http e ''POST''
        (py_str (env_repr e) (dict_get cfg ''base_url'') @ ''/transaction/process'')
        (platega_body cfg payment_method user_id amount_cents internal_uuid description username))) (\<lambda>(status, data).
     if 400 \<le> status then Inl (PlategaError (''platega_http_'' @ show_int status))
     else
     tx_bind (json_get ''transactionId'' data) (\<lambda>t1.
     tx_bind (json_get ''transaction_id'' data) (\<lambda>t2.
     tx_bind (json_get ''redirect'' data) (\<lambda>r1.
     tx_bind (json_get ''url'' data) (\<lambda>r2.
       if \<not> truthy (json_or t1 t2) \<or> \<not> truthy (json_or r1 r2) then Inl (PlategaError ''platega_invalid_response'')
       else Inr \<lparr>cp_provider = ''platega'', cp_external_id = py_str (env_repr e) (json_or t1 t2),
                 cp_payment_url = Some (py_str (env_repr e) (json_or r1 r2)),
                 cp_internal_uuid = internal_uuid, cp_mode = ''redirect''\<rparr>))))))))"

record payment_status_info =
  ps_external_id :: string
  ps_status :: string
  ps_paid :: bool

text \<open>\<open>str(data.get("status", "")).upper()\<close>\<close>

definition status_of :: "env \<Rightarrow> json \<Rightarrow> string result" where
  "status_of e data = (case data of
     JObj kvs \<Rightarrow> Inr (upper (case map_of kvs ''status'' of None \<Rightarrow> [] | Some v \<Rightarrow> py_str (env_repr e) v))
   | _ \<Rightarrow> Inl (OtherError ''AttributeError''))"

definition platega_fetch_status :: "env \<Rightarrow> json \<Rightarrow> string \<Rightarrow> payment_status_info result" where
  "platega_fetch_status e gateway_config external_id =
     tx_bind (platega_config gateway_config) (\<lambda>cfg.
     tx_bind (auth_headers cfg) (\<lambda>_.
     tx_bind (reply_json (env_http e ''GET''
        (py_str (env_repr e) (dict_get cfg ''base_url'') @ ''/transaction/'' @ external_id) JNull)) (\<lambda>(status, data).
     if status = 404 then Inr \<lparr>ps_external_id = external_id, ps_status = ''NOT_FOUND'', ps_paid = False\<rparr>
     else if 400 \<le> status then Inl (PlategaError (''platega_http_'' @ show_int status))
     else tx_bind (status_of e data) (\<lambda>st.
       Inr \<lparr>ps_external_id = external_id, ps_status = st, ps_paid = (st = ''CONFIRMED'')\<rparr>))))"

record webhook_event =
  we_provider :: string
  we_external_id :: string
  we_status :: string

definition parse_webhook_body :: "env \<Rightarrow> json \<Rightarrow> webhook_event result" where
  "parse_webhook_body e body =
     tx_bind (json_get ''id'' body) (\<lambda>i.
     tx_bind (status_of e body) (\<lambda>st.
       Inr \<lparr>we_provider = ''platega'', we_external_id = py_str (env_repr e) (json_or i (JStr [])), we_status = st\<rparr>))"

subsection \<open>Instruments\<close>

definition gateway_of :: "shop \<Rightarrow> payment_instrument \<Rightarrow> payment_gateway option" where
  "gateway_of s i = find_by pg_id (pi_gateway_id i) (t_gateways s)"

fun keep_configured :: "shop \<Rightarrow> payment_instrument list \<Rightarrow> payment_instrument list result" where
  "keep_configured s [] = Inr []"
| "keep_configured s (i # is) =
     (case gateway_of s i of
        None \<Rightarrow> keep_configured s is
      | Some gw \<Rightarrow> tx_bind (gateway_is_configured gw) (\<lambda>ok.
          tx_bind (keep_configured s is) (\<lambda>rest. Inr (if ok then i # rest else rest))))"

definition list_enabled_instruments :: "shop \<Rightarrow> payment_instrument list result" where
  "list_enabled_instruments s =
     keep_configured s (order_by_key pi_sort_order (order_by_key pi_id
       (filter (\<lambda>i. pi_enabled i \<and> pi_currency i = ''RUB'' \<and>
          (case gateway_of s i of None \<Rightarrow> False | Some gw \<Rightarrow> pg_enabled gw)) (t_instruments s))))"

definition get_instrument_by_code :: "shop \<Rightarrow> string \<Rightarrow> payment_instrument option" where
  "get_instrument_by_code s code = find_by pi_code code (t_instruments s)"

definition any_instrument_enabled :: "shop \<Rightarrow> bool result" where
  "any_instrument_enabled s = tx_bind (list_enabled_instruments s) (\<lambda>is. Inr (is \<noteq> []))"

text \<open>\<open>internal_uuid\<close> is \<open>str(uuid.uuid4())\<close>; the description is a fixed text.\<close>

definition create_topup_via_instrument ::
    "env \<Rightarrow> string \<Rightarrow> string \<Rightarrow> payment_instrument \<Rightarrow> payment_gateway \<Rightarrow> int \<Rightarrow> int \<Rightarrow> string option \<Rightarrow> shop
     \<Rightarrow> (created_payment \<times> shop) result" where
  "create_topup_via_instrument e internal_uuid description i gw user_id amount_cents username s =
     (if \<not> pg_enabled gw \<or> \<not> pi_enabled i then Inl (ValueError ''instrument_disabled'')
      else if pg_code gw = ''platega'' then
        tx_bind (platega_create_payment e (gateway_config_from_json (pg_config_json gw)) user_id amount_cents
                   internal_uuid description username) (\<lambda>created.
        tx_bind (create_pending_payment e (cp_provider created) (cp_external_id created) user_id amount_cents
                   (pi_currency i) (Some internal_uuid) s) (\<lambda>(_, s1). Inr (created, s1)))
      else if pg_code gw = ''heleket'' then Inl (ValueError ''gateway_not_implemented'')
      else Inl (ValueError (''unsupported_gateway:'' @ pg_code gw)))"

subsection \<open>The webhook\<close>

definition finalize_platega_webhook ::
    "env \<Rightarrow> json \<Rightarrow> json \<Rightarrow> string option \<Rightarrow> string option \<Rightarrow> shop \<Rightarrow> ((int \<times> string) \<times> shop) result" where
  "finalize_platega_webhook e gateway_config body merchant_header secret_header s =
     tx_bind (verify_webhook_headers gateway_config merchant_header secret_header) (\<lambda>ok.
     if \<not> ok then Inr ((401, ''unauthorized''), s)
     else
     tx_bind (parse_webhook_body e body) (\<lambda>event.
     if we_status event \<noteq> ''CONFIRMED'' then Inr ((200, ''ignored''), s)
     else
     (case get_payment s (''platega'', we_external_id event) of
        None \<Rightarrow> Inr ((404, ''payment_not_found''), s)
      | Some p \<Rightarrow>
          if \<not> truthy_id (pay_user_id p) then Inr ((404, ''payment_not_found''), s)
          else (let ((success, msg), s1) = process_payment_topup e (the (pay_user_id p)) (pay_amount p)
                      ''platega'' (we_external_id event) s
                in Inr (if \<not> success \<and> msg \<noteq> ''already_processed'' then (500, msg) else (200, ''ok''), s1)))))"

text \<open>The HTTP handler; a body that is not JSON is \<open>None\<close>.\<close>

definition platega_webhook ::
    "env \<Rightarrow> json option \<Rightarrow> string option \<Rightarrow> string option \<Rightarrow> shop \<Rightarrow> ((int \<times> string) \<times> shop) result" where
  "platega_webhook e body merchant_header secret_header s =
     (case body of
        None \<Rightarrow> Inr ((400, ''invalid_json''), s)
      | Some b \<Rightarrow>
         (case get_gateway_by_code s ''platega'' of
            None \<Rightarrow> Inr ((503, ''gateway_disabled''), s)
          | Some gw \<Rightarrow>
              if \<not> pg_enabled gw then Inr ((503, ''gateway_disabled''), s)
              else finalize_platega_webhook e (gateway_config_from_json (pg_config_json gw)) b
                     merchant_header secret_header s))"

subsection \<open>Crediting once\<close>

text \<open>
  What makes a keyed operation safe to repeat: a success settles its key, a settled key stays settled
  whatever is run next, and a request on a settled key is refused and changes nothing.
\<close>

locale once_by_key =
  fixes run :: "'k \<Rightarrow> 'a \<Rightarrow> 's \<Rightarrow> bool \<times> 's"
    and settled :: "'s \<Rightarrow> 'k \<Rightarrow> bool"
  assumes success_settles: "run k a s = (True, s') \<Longrightarrow> settled s' k"
    and settled_kept: "settled s k \<Longrightarrow> settled (snd (run k' a s)) k"
    and settled_refused: "settled s k \<Longrightarrow> run k a s = (False, s)"

text \<open>How many requests of a sequence succeed on the key \<open>k\<close>.\<close>

fun successes :: "('k \<Rightarrow> 'a \<Rightarrow> 's \<Rightarrow> bool \<times> 's) \<Rightarrow> 'k \<Rightarrow> ('k \<times> 'a) list \<Rightarrow> 's \<Rightarrow> nat" where
  "successes run k [] s = 0"
| "successes run k ((k', a) # rest) s =
     (let (ok, s1) = run k' a s in (if ok \<and> k' = k then 1 else 0) + successes run k rest s1)"

context once_by_key
begin

lemma none_after_settled: "settled s k \<Longrightarrow> successes run k reqs s = 0"
proof (induction reqs arbitrary: s)
  case (Cons r reqs)
  obtain k' a where r: "r = (k', a)" by fastforce
  obtain ok s1 where s1: "run k' a s = (ok, s1)" by fastforce
  have "settled s1 k" using settled_kept [OF Cons.prems, of k' a] by (simp add: s1)
  moreover have "\<not> (ok \<and> k' = k)" using settled_refused [of s k a] Cons.prems s1 by auto
  ultimately show ?case using Cons.IH by (auto simp: r s1)
qed simp

lemma at_most_once: "successes run k reqs s \<le> 1"
proof (induction reqs arbitrary: s)
  case (Cons r reqs)
  obtain k' a where r: "r = (k', a)" by fastforce
  obtain ok s1 where s1: "run k' a s = (ok, s1)" by fastforce
  show ?case
  proof (cases "ok \<and> k' = k")
    case True
    with s1 have "settled s1 k" using success_settles [of k a s s1] by simp
    with True s1 show ?thesis by (auto simp: r none_after_settled)
  next
    case False
    with Cons.IH [of s1] show ?thesis by (auto simp: r s1)
  qed
qed simp

end

lemma topup_body_Inr:
  assumes "topup_body e pr uid amt prov ext s = Inr ((), s')"
  obtains u a s1 where "get_user s uid = Some u"
    "get_payment s (prov, ext) = None \<and> a = amt \<and>
       s1 = s\<lparr>t_payments := t_payments s @ [\<lparr>pay_id = next_id s, pay_internal_uuid = None,
             pay_provider = prov, pay_external_id = ext, pay_user_id = Some uid,
             pay_amount = amt, pay_currency = env_pay_currency e, pay_status = ''succeeded'',
             pay_created_at = env_now e\<rparr>], t_seq := next_id s\<rparr> \<or>
     (\<exists>p. get_payment s (prov, ext) = Some p \<and> pay_status p \<notin> set pr \<and> a = pay_amount p \<and>
       s1 = put_payment (p\<lparr>pay_status := ''succeeded''\<rparr>) s)"
    "s' = add_operation uid a (env_now e) (put_user (u\<lparr>u_balance := u_balance u + a\<rparr>) s1)"
proof (cases "get_payment s (prov, ext)")
  case None
  with assms that show ?thesis
    by (auto simp: topup_body_def get_user_def split: option.splits)
next
  case (Some p)
  with assms that show ?thesis
    by (auto simp: topup_body_def get_user_def put_payment_def split: option.splits if_splits)
qed

lemma run_topup_cases:
  assumes "run_topup e pr uid amt prov ext s = ((b, m), s')"
  obtains (refused) "\<not> b" "s' = s \<or> s' = log_audit ''payment_failed'' ''WARNING'' (Some uid) (Some ''Payment'') None s"
    | (credited) s1 where "b" "m = ''success''" "topup_body e pr uid amt prov ext s = Inr ((), s1)"
        "check_violation s1 = None"
        "s' = safe_create_task InvalidateStatsCache (safe_create_task (InvalidateUserCache uid) s1)"
proof (cases "run_session (topup_body e pr uid amt prov ext) s")
  case (Inl err)
  with assms refused show ?thesis by (cases err) (auto simp: run_topup_def)
next
  case (Inr r)
  obtain s1 where "r = ((), s1)" by (cases r) auto
  with assms Inr credited [of s1] show ?thesis by (simp add: run_topup_def run_session_Inr)
qed

definition payment_settled :: "string list \<Rightarrow> shop \<Rightarrow> string \<times> string \<Rightarrow> bool" where
  "payment_settled pr s k \<longleftrightarrow> (\<exists>p. get_payment s k = Some p \<and> pay_status p \<in> set pr)"

lemma payment_settled_frame: "t_payments s' = t_payments s \<Longrightarrow> payment_settled pr s' k = payment_settled pr s k"
  by (simp add: payment_settled_def get_payment_def)

lemma topup_body_payments:
  assumes "topup_body e pr uid amt prov ext s = Inr ((), s')"
  shows "\<exists>p. get_payment s' (prov, ext) = Some p \<and> pay_status p = ''succeeded''"
    and "k \<noteq> (prov, ext) \<Longrightarrow> get_payment s' k = get_payment s k"
  using assms by (elim topup_body_Inr; auto simp: get_payment_def put_payment_def add_operation_def put_user_def
      find_by_append find_put split: option.splits dest: find_by_Some_key)+

text \<open>A request: the environment, the user and the amount, on the key of provider and external id.\<close>

definition topup_request :: "string list \<Rightarrow> string \<times> string \<Rightarrow> env \<times> int \<times> int \<Rightarrow> shop \<Rightarrow> bool \<times> shop" where
  "topup_request pr k r s =
     (let ((ok, _), s') = run_topup (fst r) pr (fst (snd r)) (snd (snd r)) (fst k) (snd k) s in (ok, s'))"

lemma topup_once:
  assumes "''succeeded'' \<in> set pr"
  shows "once_by_key (topup_request pr) (payment_settled pr)"
proof
  fix k r s s' assume "topup_request pr k r s = (True, s')"
  then obtain m where "run_topup (fst r) pr (fst (snd r)) (snd (snd r)) (fst k) (snd k) s = ((True, m), s')"
    by (auto simp: topup_request_def split: prod.splits)
  then show "payment_settled pr s' k"
  proof (cases rule: run_topup_cases)
    case (credited s1)
    with topup_body_payments(1) [OF credited(3)] assms show ?thesis
      by (auto simp: payment_settled_def get_payment_def safe_create_task_def)
  qed simp
next
  fix s k k' r assume set: "payment_settled pr s k"
  obtain ok m s' where run: "run_topup (fst r) pr (fst (snd r)) (snd (snd r)) (fst k') (snd k') s = ((ok, m), s')"
    by (metis prod.collapse)
  have "payment_settled pr s' k"
    using run
  proof (cases rule: run_topup_cases)
    case refused
    then show ?thesis using set payment_settled_frame [of s' s pr k] by (auto simp: log_audit_def)
  next
    case (credited s1)
    have "get_payment s1 k = get_payment s k \<or> k = k'" using topup_body_payments(2) [OF credited(3), of k] by (cases k') auto
    moreover have "\<exists>p. get_payment s1 k' = Some p \<and> pay_status p \<in> set pr"
      using topup_body_payments(1) [OF credited(3)] assms by auto
    ultimately have "payment_settled pr s1 k" using set by (auto simp: payment_settled_def)
    then show ?thesis using payment_settled_frame [of s' s1] by (simp add: credited(5) safe_create_task_def)
  qed
  then show "payment_settled pr (snd (topup_request pr k' r s)) k" by (simp add: topup_request_def run)
next
  fix s k r assume "payment_settled pr s k"
  then show "topup_request pr k r s = (False, s)"
    by (auto simp: payment_settled_def topup_request_def run_topup_def topup_body_def run_session_def)
qed

interpretation topup: once_by_key "topup_request [''succeeded'', ''paid'', ''completed'']"
    "payment_settled [''succeeded'', ''paid'', ''completed'']"
  by (rule topup_once) simp

interpretation telegram_topup: once_by_key "topup_request [''succeeded'']" "payment_settled [''succeeded'']"
  by (rule topup_once) simp

subsection \<open>Properties\<close>

text \<open>The two credit operations as keyed requests.\<close>

definition credit_request :: "string \<times> string \<Rightarrow> env \<times> int \<times> int \<Rightarrow> shop \<Rightarrow> bool \<times> shop" where
  "credit_request k r s =
     (let ((ok, _), s') = process_payment_topup (fst r) (fst (snd r)) (snd (snd r)) (fst k) (snd k) s in (ok, s'))"

lemma credit_request_topup: "credit_request = topup_request [''succeeded'', ''paid'', ''completed'']"
  by (intro ext) (simp add: credit_request_def topup_request_def process_payment_topup_def)

text \<open>C11: In any sequence of top-up requests, for whatever users and amounts and in any order, at most
  one succeeds for the same provider and external id.\<close>
theorem topup_at_most_once: "successes credit_request k reqs s \<le> 1"
  unfolding credit_request_topup by (rule topup.at_most_once)

lemma sample_topup: "\<exists>m s'. process_payment_topup sample_env 1 700 ''platega'' ''p1'' sample_shop = ((True, m), s')"
proof -
  have "fst (fst (process_payment_topup sample_env 1 700 ''platega'' ''p1'' sample_shop)) = True" by code_simp
  then show ?thesis by (metis prod.collapse)
qed

text \<open>
  The money that came in: the amounts of the payments that count as credited.  It only grows together
  with the balances.
\<close>

definition credited_total :: "shop \<Rightarrow> int" where
  "credited_total s = sum_list (map pay_amount
     (filter (\<lambda>p. pay_status p \<in> {''succeeded'', ''paid'', ''completed''}) (t_payments s)))"

definition payments_ok :: "shop \<Rightarrow> bool" where
  "payments_ok s \<longleftrightarrow> users_ok s \<and> distinct (map (\<lambda>p. (pay_provider p, pay_external_id p)) (t_payments s))"

lemma credited_as_sum:
  "credited_total s = sum_list (map (\<lambda>p. if pay_status p \<in> {''succeeded'', ''paid'', ''completed''} then pay_amount p else 0)
     (t_payments s))"
proof -
  have "sum_list (map pay_amount (filter P ps)) = sum_list (map (\<lambda>p. if P p then pay_amount p else 0) ps)" for P ps
    by (induction ps) auto
  then show ?thesis by (simp add: credited_total_def)
qed

lemma topup_keeps_ledger:
  assumes ok: "payments_ok s"
    and run: "run_topup e [''succeeded'', ''paid'', ''completed''] uid amt prov ext s = ((b, m), s')"
  shows "payments_ok s' \<and> total_balance s' - credited_total s' = total_balance s - credited_total s"
  using run
proof (cases rule: run_topup_cases)
  case refused
  then show ?thesis using ok
    by (auto simp: log_audit_def payments_ok_def users_ok_def total_balance_def credited_total_def)
next
  case (credited s1)
  let ?key = "\<lambda>p. (pay_provider p, pay_external_id p)"
  let ?f = "\<lambda>p. if pay_status p \<in> {''succeeded'', ''paid'', ''completed''} then pay_amount p else (0::int)"
  from credited(3) show ?thesis
  proof (rule topup_body_Inr, goal_cases)
    case (1 u a s2)
    have u: "u_id u = uid" using 1(1) by (rule users.lookup_key)
    have users: "t_users s2 = t_users s" using 1(2) by (auto simp: put_payment_def)
    have bal: "total_balance s1 = total_balance s + a"
      using total_balance_put [of s "u\<lparr>u_balance := u_balance u + a\<rparr>" u] ok 1(1) u users
      by (simp add: 1(3) payments_ok_def add_operation_def put_user_def total_balance_def)
    have cred: "credited_total s2 = credited_total s + a \<and> distinct (map ?key (t_payments s2))"
      using 1(2)
    proof
      assume n: "get_payment s (prov, ext) = None \<and> a = amt \<and> s2 = s\<lparr>t_payments := t_payments s @ [\<lparr>pay_id = next_id s,
         pay_internal_uuid = None, pay_provider = prov, pay_external_id = ext, pay_user_id = Some uid,
         pay_amount = amt, pay_currency = env_pay_currency e, pay_status = ''succeeded'',
         pay_created_at = env_now e\<rparr>], t_seq := next_id s\<rparr>"
      then have "(prov, ext) \<notin> ?key ` set (t_payments s)" by (simp add: get_payment_def find_by_None_iff)
      with n ok show ?thesis by (simp add: credited_total_def payments_ok_def)
    next
      assume "\<exists>p. get_payment s (prov, ext) = Some p \<and> pay_status p \<notin> set [''succeeded'', ''paid'', ''completed''] \<and>
        a = pay_amount p \<and> s2 = put_payment (p\<lparr>pay_status := ''succeeded''\<rparr>) s"
      then obtain p where p: "get_payment s (prov, ext) = Some p" "?f p = 0" "a = pay_amount p"
        "s2 = put_payment (p\<lparr>pay_status := ''succeeded''\<rparr>) s" by auto
      have k: "?key p = (prov, ext)" using p(1) by (rule payments.lookup_key)
      have d: "distinct (map ?key (t_payments s))" using ok by (simp add: payments_ok_def)
      have "find_by ?key (?key (p\<lparr>pay_status := ''succeeded''\<rparr>)) (t_payments s) = Some p"
        using p(1) k by (simp add: get_payment_def)
      from sum_put_by [OF d this, of ?f] p(2) have
        "sum_list (map ?f (t_payments s2)) = sum_list (map ?f (t_payments s)) + a"
        by (simp add: p(3,4) put_payment_def)
      then show ?thesis using d by (simp add: credited_as_sum p(4) put_payment_def keys_put)
    qed
    have "payments_ok s1"
      using ok cred users by (simp add: payments_ok_def users_ok_def 1(3) add_operation_def put_user_def keys_put)
    moreover have "credited_total s1 = credited_total s2"
      by (simp add: 1(3) credited_total_def add_operation_def put_user_def)
    ultimately show ?thesis using bal cred
      by (simp add: credited(5) safe_create_task_def payments_ok_def users_ok_def total_balance_def credited_total_def)
  qed
qed

lemma requests_keep_ledger:
  assumes "payments_ok s"
  shows "payments_ok (fold (\<lambda>(k, r) s. snd (credit_request k r s)) reqs s) \<and>
    total_balance (fold (\<lambda>(k, r) s. snd (credit_request k r s)) reqs s) -
      credited_total (fold (\<lambda>(k, r) s. snd (credit_request k r s)) reqs s) = total_balance s - credited_total s"
  using assms
proof (induction reqs arbitrary: s)
  case (Cons q reqs)
  obtain k r where q: "q = (k, r)" by (cases q)
  obtain b m s1 where run: "run_topup (fst r) [''succeeded'', ''paid'', ''completed''] (fst (snd r)) (snd (snd r))
      (fst k) (snd k) s = ((b, m), s1)" by (metis prod.collapse)
  from topup_keeps_ledger [OF Cons.prems run] Cons.IH [of s1] show ?case
    by (simp add: q credit_request_topup topup_request_def run)
qed simp

theorem topup_ledger:
  assumes "payments_ok s" "s' = fold (\<lambda>(k, r) s. snd (credit_request k r s)) reqs s"
  shows "payments_ok s' \<and> total_balance s' - total_balance s = credited_total s' - credited_total s"
  using requests_keep_ledger [OF assms(1), of reqs] by (simp add: assms(2))

lemma topup_ledger_witness:
  "total_balance (fold (\<lambda>(k, r) s. snd (credit_request k r s))
      [((''platega'', ''p1''), (sample_env, 1, 700)), ((''platega'', ''p1''), (sample_env, 2, 900))] sample_shop)
    - total_balance sample_shop = 700"
proof -
  let ?s = "fold (\<lambda>(k, r) s. snd (credit_request k r s))
      [((''platega'', ''p1''), (sample_env, 1, 700)), ((''platega'', ''p1''), (sample_env, 2, 900))] sample_shop"
  have "credited_total ?s - credited_total sample_shop = 700" "payments_ok sample_shop" by code_simp+
  with topup_ledger [OF _ refl] show ?thesis by metis
qed

subsubsection \<open>The ledger a top-up implements\<close>

text \<open>
  The abstract ledger: the balances, and for every payment key its amount and whether it was credited.
  \<open>ledger_credit\<close> is what a top-up promises.
\<close>

type_synonym ledger = "(int \<rightharpoonup> int) \<times> (string \<times> string \<rightharpoonup> int \<times> bool)"

definition ledger_of :: "shop \<Rightarrow> ledger" where
  "ledger_of s = (\<lambda>k. map_option u_balance (get_user s k),
     \<lambda>k. map_option (\<lambda>p. (pay_amount p, pay_status p \<in> {''succeeded'', ''paid'', ''completed''})) (get_payment s k))"

definition ledger_credit :: "int \<Rightarrow> int \<Rightarrow> string \<times> string \<Rightarrow> ledger \<Rightarrow> bool \<times> ledger" where
  "ledger_credit uid amt key = (\<lambda>(B, P).
     case (P key, B uid) of
       (Some (a, True), _) \<Rightarrow> (False, (B, P))
     | (_, None) \<Rightarrow> (False, (B, P))
     | (q, Some b) \<Rightarrow>
         (let a = (case q of None \<Rightarrow> amt | Some (a, _) \<Rightarrow> a) in (True, (B(uid \<mapsto> b + a), P(key \<mapsto> (a, True))))))"

lemma ledger_of_frame:
  "t_users s' = t_users s \<Longrightarrow> t_payments s' = t_payments s \<Longrightarrow> ledger_of s' = ledger_of s"
  by (simp add: ledger_of_def get_user_def get_payment_def)

lemma check_put_user:
  assumes "check_violation s = None" "get_user s (u_id u) = Some u" "0 \<le> a"
  shows "check_violation (put_user (u\<lparr>u_balance := u_balance u + a\<rparr>) s) = None"
proof -
  have "u \<in> set (t_users s)" using assms(2) by (auto simp: get_user_def dest: find_by_Some_mem)
  with assms(1) have "user_check u" by (simp add: check_violation_None list_all_iff)
  with assms(3) have "user_check (u\<lparr>u_balance := u_balance u + a\<rparr>)" by (simp add: user_check_def)
  then have "list_all user_check (put_by u_id (u\<lparr>u_balance := u_balance u + a\<rparr>) (t_users s))"
    using assms(1) set_put [of u_id "u\<lparr>u_balance := u_balance u + a\<rparr>" "t_users s"]
    by (auto simp: check_violation_None list_all_iff)
  with assms(1) show ?thesis by (simp add: check_violation_None put_user_def)
qed

lemma topup_body_ledger:
  assumes "topup_body e [''succeeded'', ''paid'', ''completed''] uid amt prov ext s = Inr ((), s')"
  shows "ledger_credit uid amt (prov, ext) (ledger_of s) = (True, ledger_of s')"
  using assms
proof (rule topup_body_Inr, goal_cases)
  case (1 u a s2)
  have users: "t_users s2 = t_users s" using 1(2) by (auto simp: put_payment_def)
  have uid: "u_id u = uid" using 1(1) by (rule users.lookup_key)
  have B: "(\<lambda>k. map_option u_balance (get_user s' k)) =
      (\<lambda>k. map_option u_balance (get_user s k))(uid \<mapsto> u_balance u + a)"
    using 1(1) uid users
    by (auto simp: 1(3) fun_eq_iff get_user_def add_operation_def put_user_def find_put)
  have P: "(\<lambda>k. map_option (\<lambda>p. (pay_amount p, pay_status p \<in> {''succeeded'', ''paid'', ''completed''})) (get_payment s' k)) =
      (\<lambda>k. map_option (\<lambda>p. (pay_amount p, pay_status p \<in> {''succeeded'', ''paid'', ''completed''})) (get_payment s k))
        ((prov, ext) \<mapsto> (a, True))"
    using 1(2)
    by (auto simp: 1(3) fun_eq_iff get_payment_def put_payment_def add_operation_def put_user_def find_by_append
        find_put dest: find_by_Some_key split: option.split)
  show ?thesis
    using 1(1,2) unfolding ledger_of_def B P
    by (auto simp: ledger_credit_def Let_def)
qed

text \<open>Under the hypotheses the only way to fail is the one the ledger has.\<close>

lemma topup_body_fails:
  assumes "topup_body e [''succeeded'', ''paid'', ''completed''] uid amt prov ext s = Inl err"
  shows "ledger_credit uid amt (prov, ext) (ledger_of s) = (False, ledger_of s)"
  using assms
  by (auto simp: topup_body_def ledger_credit_def ledger_of_def get_user_def put_payment_def
      split: option.splits if_splits)

text \<open>C12: A top-up implements the abstract ledger: with non-negative amounts on a consistent database
  it fails exactly when the key was credited or the user is unknown and then changes nothing, and
  otherwise adds the recorded (or requested) amount to that user's balance and marks the key
  credited.\<close>
theorem topup_refines_ledger:
  assumes "check_violation s = None" "0 \<le> amt" "\<forall>p \<in> set (t_payments s). 0 \<le> pay_amount p"
    and "process_payment_topup e uid amt prov ext s = ((b, m), s')"
  shows "ledger_credit uid amt (prov, ext) (ledger_of s) = (b, ledger_of s')"
  using assms(4) [unfolded process_payment_topup_def]
proof (cases rule: run_topup_cases)
  case (credited s1)
  with topup_body_ledger [OF credited(3)] show ?thesis
    using ledger_of_frame [of s' s1] by (simp add: safe_create_task_def)
next
  case refused
  have "\<exists>err. topup_body e [''succeeded'', ''paid'', ''completed''] uid amt prov ext s = Inl err"
  proof (rule ccontr)
    assume "\<not> ?thesis"
    then obtain s1 where r: "topup_body e [''succeeded'', ''paid'', ''completed''] uid amt prov ext s = Inr ((), s1)"
      by (cases "topup_body e [''succeeded'', ''paid'', ''completed''] uid amt prov ext s") auto
    then have "check_violation s1 = None"
    proof (rule topup_body_Inr, goal_cases)
      case (1 u a s2)
      have "0 \<le> a" using 1(2) assms(2,3) by (auto simp: get_payment_def dest: find_by_Some_mem)
      moreover have "check_violation s2 = None"
        using 1(2) assms(1) by (auto simp: put_payment_def check_violation_None)
      moreover have "get_user s2 (u_id u) = Some u"
        using 1(1,2) users.lookup_key [OF 1(1)] by (auto simp: put_payment_def get_user_def)
      ultimately show ?thesis
        using check_put_user [of s2 u a] by (simp add: 1(3) add_operation_def check_violation_None)
    qed
    with r assms(4) refused(1) show False
      by (simp add: process_payment_topup_def run_topup_def run_session_def commit_def)
  qed
  with refused topup_body_fails show ?thesis
    using ledger_of_frame [of s' s] by (auto simp: log_audit_def)
qed

lemma topup_refines_ledger_witness:
  "ledger_credit 1 700 (''platega'', ''p1'') (ledger_of sample_shop) =
     (True, ledger_of (snd (process_payment_topup sample_env 1 700 ''platega'' ''p1'' sample_shop)))"
proof -
  obtain m s' where r: "process_payment_topup sample_env 1 700 ''platega'' ''p1'' sample_shop = ((True, m), s')"
    using sample_topup by blast
  have "check_violation sample_shop = None" "\<forall>p \<in> set (t_payments sample_shop). 0 \<le> pay_amount p"
    by (code_simp, simp add: sample_shop_def empty_shop_def)
  from topup_refines_ledger [OF this(1) _ this(2) r] r show ?thesis by simp
qed

subsubsection \<open>The webhook\<close>

lemma webhook_Inr:
  assumes "platega_webhook e body mh sh s = Inr ((code, msg), s')"
  obtains (ignored) "s' = s" "(code, msg) \<noteq> (200, ''ok'')"
    | (credited) gw b p uid ev ok m where "get_gateway_by_code s ''platega'' = Some gw" "pg_enabled gw" "body = Some b"
      "verify_webhook_headers (gateway_config_from_json (pg_config_json gw)) mh sh = Inr True"
      "parse_webhook_body e b = Inr ev" "we_status ev = ''CONFIRMED''"
      "get_payment s (''platega'', we_external_id ev) = Some p" "pay_user_id p = Some uid" "uid \<noteq> 0"
      "process_payment_topup e uid (pay_amount p) ''platega'' (we_external_id ev) s = ((ok, m), s')"
      "(code, msg) = (if \<not> ok \<and> m \<noteq> ''already_processed'' then (500, m) else (200, ''ok''))"
proof -
  from assms consider (early) "s' = s" "(code, msg) \<noteq> (200, ''ok'')"
    | (late) gw b where "get_gateway_by_code s ''platega'' = Some gw" "pg_enabled gw" "body = Some b"
      "finalize_platega_webhook e (gateway_config_from_json (pg_config_json gw)) b mh sh s = Inr ((code, msg), s')"
    by (auto simp: platega_webhook_def split: option.splits if_splits)
  then show ?thesis
  proof cases
    case early
    then show ?thesis by (rule ignored)
  next
    case late
    note fin = late(4)
    from fin obtain ok0 where v: "verify_webhook_headers (gateway_config_from_json (pg_config_json gw)) mh sh = Inr ok0"
      by (auto simp: finalize_platega_webhook_def tx_simps)
    show ?thesis
    proof (cases ok0)
      case False
      with fin v have "s' = s" "code = 401" by (simp_all add: finalize_platega_webhook_def)
      then show ?thesis by (intro ignored) auto
    next
      case True
      with fin v obtain ev where ev: "parse_webhook_body e b = Inr ev"
        by (auto simp: finalize_platega_webhook_def tx_simps)
      note fin' = fin [unfolded finalize_platega_webhook_def v tx_bind_Inr, simplified True, simplified, unfolded ev tx_bind_Inr]
      show ?thesis
      proof (cases "we_status ev = ''CONFIRMED''")
        case False
        with fin' show ?thesis by (intro ignored) auto
      next
        case conf: True
        show ?thesis
        proof (cases "get_payment s (''platega'', we_external_id ev)")
          case None
          with fin' conf show ?thesis by (intro ignored) auto
        next
          case (Some p)
          show ?thesis
          proof (cases "truthy_id (pay_user_id p)")
            case False
            with fin' conf Some show ?thesis by (intro ignored) auto
          next
            case tr: True
            then obtain uid where u: "pay_user_id p = Some uid" "uid \<noteq> 0" by (auto simp: truthy_id_def)
            obtain ok m s1 where r: "process_payment_topup e uid (pay_amount p) ''platega'' (we_external_id ev) s = ((ok, m), s1)"
              by (metis prod.collapse)
            from fin' conf Some tr u r have "s1 = s'"
              "(code, msg) = (if \<not> ok \<and> m \<noteq> ''already_processed'' then (500, m) else (200, ''ok''))"
              by (auto split: if_splits)
            with credited [OF late(1-3) v [unfolded True [THEN eqTrueI]]] ev conf Some u r True show ?thesis
              by simp
          qed
        qed
      qed
    qed
  qed
qed

lemma topup_body_recorded:
  assumes "topup_body e pr uid amt prov ext s = Inr ((), s')" "get_payment s (prov, ext) = Some p"
  shows "\<exists>u. get_user s uid = Some u \<and> s' = add_operation uid (pay_amount p) (env_now e)
    (put_user (u\<lparr>u_balance := u_balance u + pay_amount p\<rparr>) (put_payment (p\<lparr>pay_status := ''succeeded''\<rparr>) s))"
  using assms by (elim topup_body_Inr) auto

text \<open>C13: The payment webhook changes a balance only for an authenticated CONFIRMED event of a
  recorded, not yet credited payment, and then credits exactly the recorded amount to the recorded
  user.\<close>
theorem webhook_credits_confirmed_only:
  assumes "platega_webhook e body mh sh s = Inr ((code, msg), s')" "t_users s' \<noteq> t_users s"
  shows "code = 200 \<and> msg = ''ok'' \<and> (\<exists>gw b ev p uid. get_gateway_by_code s ''platega'' = Some gw \<and> pg_enabled gw \<and>
    body = Some b \<and> verify_webhook_headers (gateway_config_from_json (pg_config_json gw)) mh sh = Inr True \<and>
    parse_webhook_body e b = Inr ev \<and> we_status ev = ''CONFIRMED'' \<and>
    get_payment s (''platega'', we_external_id ev) = Some p \<and> \<not> payment_settled [''succeeded'', ''paid'', ''completed''] s (''platega'', we_external_id ev) \<and>
    pay_user_id p = Some uid \<and> (\<forall>k. balance_of s' k = balance_of s k + (if k = uid then pay_amount p else 0)))"
  using assms(1)
proof (cases rule: webhook_Inr)
  case ignored
  with assms(2) show ?thesis by simp
next
  case (credited gw b p uid ev ok m)
  from credited(10) [unfolded process_payment_topup_def] show ?thesis
  proof (cases rule: run_topup_cases)
    case refused
    with assms(2) show ?thesis by (auto simp: log_audit_def)
  next
    case cr: (credited s1)
    have "\<not> payment_settled [''succeeded'', ''paid'', ''completed''] s (''platega'', we_external_id ev)"
      using cr(3) by (auto simp: payment_settled_def topup_body_def)
    moreover have "balance_of s' k = balance_of s k + (if k = uid then pay_amount p else 0)" for k
    proof -
      from topup_body_recorded [OF cr(3) credited(7)] obtain u where b: "get_user s uid = Some u"
        "s1 = add_operation uid (pay_amount p) (env_now e) (put_user (u\<lparr>u_balance := u_balance u + pay_amount p\<rparr>)
          (put_payment (p\<lparr>pay_status := ''succeeded''\<rparr>) s))" by blast
      let ?s2 = "put_payment (p\<lparr>pay_status := ''succeeded''\<rparr>) s"
      have us: "t_users ?s2 = t_users s" by (simp add: put_payment_def)
      have "balance_of s' k = balance_of (put_user (u\<lparr>u_balance := u_balance u + pay_amount p\<rparr>) ?s2) k"
        by (rule balance_of_users) (simp add: cr(5) b(2) safe_create_task_def add_operation_def)
      also have "\<dots> = balance_of ?s2 k + (if k = uid then pay_amount p else 0)"
        using b(1) us users.lookup_key [OF b(1)] by (auto simp: balance_of_def get_user_def put_user_def find_put split: option.split)
      finally show ?thesis using balance_of_users [OF us] by simp
    qed
    moreover have "code = 200" "msg = ''ok''" using credited(11) cr(1) by simp_all
    ultimately show ?thesis using credited by blast
  qed
qed

text \<open>A shop with the Platega gateway and one pending payment.\<close>

definition sample_pay_shop :: shop where
  "sample_pay_shop = sample_shop\<lparr>t_gateways := [\<lparr>pg_id = 31, pg_code = ''platega'', pg_enabled = True,
       pg_config_json = Some (JObj [(''merchant_id'', JStr ''m''), (''api_secret'', JStr ''k'')])\<rparr>],
     t_instruments := [\<lparr>pi_id = 32, pi_code = ''card_mir'', pi_title = ''card'', pi_enabled = True, pi_sort_order = 10,
       pi_currency = ''RUB'', pi_gateway_id = 31\<rparr>],
     t_payments := [\<lparr>pay_id = 33, pay_internal_uuid = Some ''u'', pay_provider = ''platega'', pay_external_id = ''p1'',
       pay_user_id = Some 1, pay_amount = 700, pay_currency = ''RUB'', pay_status = ''pending'', pay_created_at = 900\<rparr>]\<rparr>"

definition sample_event :: json where
  "sample_event = JObj [(''id'', JStr ''p1''), (''status'', JStr ''confirmed'')]"

lemma sample_webhook:
  "\<exists>s'. platega_webhook sample_env (Some sample_event) (Some ''m'') (Some ''k'') sample_pay_shop = Inr ((200, ''ok''), s') \<and>
    balance_of s' 1 = 5700"
proof -
  have "map_sum id (\<lambda>((c, m), s'). (c, m, balance_of s' 1)) (platega_webhook sample_env (Some sample_event) (Some ''m'') (Some ''k'') sample_pay_shop)
      = Inr (200, ''ok'', 5700)" by code_simp
  then show ?thesis
    by (cases "platega_webhook sample_env (Some sample_event) (Some ''m'') (Some ''k'') sample_pay_shop") auto
qed

lemma webhook_credits_confirmed_only_witness:
  "\<exists>s'. platega_webhook sample_env (Some sample_event) (Some ''m'') (Some ''k'') sample_pay_shop = Inr ((200, ''ok''), s') \<and>
    verify_webhook_headers (JObj [(''merchant_id'', JStr ''m''), (''api_secret'', JStr ''k'')]) (Some ''m'') (Some ''k'') = Inr True"
proof -
  obtain s' where r: "platega_webhook sample_env (Some sample_event) (Some ''m'') (Some ''k'') sample_pay_shop = Inr ((200, ''ok''), s')"
    and b: "balance_of s' 1 = 5700" using sample_webhook by blast
  have "balance_of sample_pay_shop 1 = 5000" by code_simp
  with b have "t_users s' \<noteq> t_users sample_pay_shop" using balance_of_users [of s' sample_pay_shop 1] by auto
  from webhook_credits_confirmed_only [OF r this] obtain gw where
    g: "get_gateway_by_code sample_pay_shop ''platega'' = Some gw"
    "verify_webhook_headers (gateway_config_from_json (pg_config_json gw)) (Some ''m'') (Some ''k'') = Inr True" by blast
  have "pg_config_json gw = Some (JObj [(''merchant_id'', JStr ''m''), (''api_secret'', JStr ''k'')])"
    using g(1) by (auto simp: get_gateway_by_code_def sample_pay_shop_def)
  with g(2) r show ?thesis by (simp add: gateway_config_from_json_def)
qed

theorem webhook_replay:
  assumes "platega_webhook e body mh sh s = Inr ((200, ''ok''), s1)"
  shows "platega_webhook e body mh sh s1 = Inr ((200, ''ok''), s1)"
  using assms
proof (cases rule: webhook_Inr)
  case ignored
  then show ?thesis using assms by simp
next
  case (credited gw b p uid ev ok m)
  have key: "pay_provider p = ''platega''" "pay_external_id p = we_external_id ev"
    using payments.lookup_key [OF credited(7)] by simp_all
  from credited(10) [unfolded process_payment_topup_def] show ?thesis
  proof (cases rule: run_topup_cases)
    case refused
    with credited have "s1 = s \<or> m = ''payment_error''"
      by (auto simp: process_payment_topup_def run_topup_def split: sum.splits exn.splits)
    moreover have "m = ''already_processed''" using credited(11) refused(1) by (auto split: if_splits)
    ultimately show ?thesis using assms by auto
  next
    case cr: (credited s2)
    from topup_body_recorded [OF cr(3) credited(7)] have c: "t_gateways s2 = t_gateways s"
      "get_payment s2 (''platega'', we_external_id ev) = Some (p\<lparr>pay_status := ''succeeded''\<rparr>)"
      using credited(7) key by (auto simp: put_payment_def put_user_def add_operation_def get_payment_def find_put)
    have s1: "get_gateway_by_code s1 ''platega'' = Some gw"
      "get_payment s1 (''platega'', we_external_id ev) = Some (p\<lparr>pay_status := ''succeeded''\<rparr>)"
      using c credited(1) by (simp_all add: cr(5) safe_create_task_def get_gateway_by_code_def get_payment_def)
    have "process_payment_topup e uid (pay_amount p) ''platega'' (we_external_id ev) s1 = ((False, ''already_processed''), s1)"
      using s1(2) by (simp add: process_payment_topup_def run_topup_def topup_body_def run_session_def)
    with credited s1 show ?thesis
      by (simp add: platega_webhook_def finalize_platega_webhook_def truthy_id_def)
  qed
qed

lemma webhook_replay_witness:
  "\<exists>s1. platega_webhook sample_env (Some sample_event) (Some ''m'') (Some ''k'') sample_pay_shop = Inr ((200, ''ok''), s1) \<and>
    platega_webhook sample_env (Some sample_event) (Some ''m'') (Some ''k'') s1 = Inr ((200, ''ok''), s1)"
proof -
  obtain s1 where r: "platega_webhook sample_env (Some sample_event) (Some ''m'') (Some ''k'') sample_pay_shop = Inr ((200, ''ok''), s1)"
    using sample_webhook by blast
  from webhook_replay [OF r] r show ?thesis by blast
qed

end
