(* ===== verification/Topups.thy ===== *)
theory Topups
  imports Payments
begin

text \<open>
  The payment clients of \<open>bot/misc/services/payment.py\<close> (Stars and fiat invoices, the Crypto Pay API
  behind its circuit breaker), the top-up handlers of \<open>bot/handlers/user/balance_and_payment.py\<close>,
  and the recovery sweep of \<open>bot/misc/services/recovery.py\<close>.  A handler's answer to the user is the key
  of the text it sends.
\<close>

subsection \<open>Invoices\<close>

definition currency_to_stars :: "int \<Rightarrow> rat \<Rightarrow> int" where
  "currency_to_stars amount_rub rate = (if rate \<le> 0 then 0 else \<lceil>of_int amount_rub * rate\<rceil>)"

definition minor_units_for :: "string \<Rightarrow> int" where
  "minor_units_for currency = (if upper currency \<in> {''JPY'', ''KRW''} then 1 else 100)"

text \<open>
  The amount of an invoice payload: 0 when there is none or it is not a number.  A payload that is a
  number, a boolean or null has no \<open>in\<close>.
\<close>

definition payload_amount :: "json \<Rightarrow> int result" where
  "payload_amount payload =
     (case payload of
        JObj kvs \<Rightarrow>
          (case map_of kvs ''amount'' of
             Some v \<Rightarrow> Inr (case json_int v of Inr n \<Rightarrow> n | Inl _ \<Rightarrow> 0)
           | None \<Rightarrow> (case map_of kvs ''amount_rub'' of
               Some v \<Rightarrow> Inr (case json_int v of Inr n \<Rightarrow> n | Inl _ \<Rightarrow> 0)
             | None \<Rightarrow> Inr 0))
      | JArr _ \<Rightarrow> Inr 0
      | JStr _ \<Rightarrow> Inr 0
      | _ \<Rightarrow> Inl (OtherError ''TypeError''))"

text \<open>An invoice handed to Telegram: its currency, the price label's amount, and the payload.\<close>

record invoice =
  inv_chat :: int
  inv_currency :: string
  inv_amount :: int
  inv_payload :: json

definition send_stars_invoice :: "int \<Rightarrow> int \<Rightarrow> rat \<Rightarrow> invoice result" where
  "send_stars_invoice chat_id amount rate =
     (let stars = currency_to_stars amount rate
      in if stars \<le> 0 then Inl (OtherError ''stars_not_configured'')
         else Inr \<lparr>inv_chat = chat_id, inv_currency = ''XTR'', inv_amount = stars,
                   inv_payload = JObj [(''op'', JStr ''topup_balance_stars''), (''amount_rub'', JNum amount),
                                       (''stars'', JNum stars)]\<rparr>)"

definition send_fiat_invoice :: "env \<Rightarrow> int \<Rightarrow> int \<Rightarrow> string \<Rightarrow> invoice result" where
  "send_fiat_invoice e chat_id amount provider_token =
     (if provider_token = [] then Inl (OtherError ''telegram_provider_token_not_set'')
      else (let currency = upper (if env_pay_currency e = [] then ''RUB'' else env_pay_currency e)
            in Inr \<lparr>inv_chat = chat_id, inv_currency = currency, inv_amount = amount * minor_units_for currency,
                    inv_payload = JObj [(''type'', JStr ''balance_topup''), (''amount'', JNum amount)]\<rparr>))"

subsection \<open>The circuit breaker\<close>

record circuit_breaker =
  failure_threshold :: int
  recovery_timeout :: int
  failure_count :: int
  last_failure_time :: int
  state_open :: bool

definition new_breaker :: "int \<Rightarrow> int \<Rightarrow> circuit_breaker" where
  "new_breaker threshold timeout = \<lparr>failure_threshold = threshold, recovery_timeout = timeout,
     failure_count = 0, last_failure_time = 0, state_open = False\<rparr>"

text \<open>The property \<open>is_open\<close> closes the breaker when the timeout has passed.\<close>

definition is_open :: "int \<Rightarrow> circuit_breaker \<Rightarrow> bool \<times> circuit_breaker" where
  "is_open now b =
     (if state_open b
      then (if recovery_timeout b < now - last_failure_time b
            then (False, b\<lparr>state_open := False, failure_count := 0\<rparr>)
            else (True, b))
      else (False, b))"

definition record_success :: "circuit_breaker \<Rightarrow> circuit_breaker" where
  "record_success b = b\<lparr>failure_count := 0, state_open := False\<rparr>"

definition record_failure :: "int \<Rightarrow> circuit_breaker \<Rightarrow> circuit_breaker" where
  "record_failure now b =
     (let b1 = b\<lparr>failure_count := failure_count b + 1, last_failure_time := now\<rparr>
      in if failure_threshold b1 \<le> failure_count b1 then b1\<lparr>state_open := True\<rparr> else b1)"

subsection \<open>Crypto Pay\<close>

definition crypto_api :: "string option \<Rightarrow> string result" where
  "crypto_api token =
     (let t = strip (case token of None \<Rightarrow> [] | Some t \<Rightarrow> t)
      in if t = [] then Inl (OtherError ''cryptopay_api_token_not_set'') else Inr t)"

text \<open>The code and the name of an API error; anything that is not a dict raises.\<close>

definition api_error :: "env \<Rightarrow> json \<Rightarrow> exn" where
  "api_error e data =
     (case (case data of JObj kvs \<Rightarrow> (case map_of kvs ''error'' of None \<Rightarrow> JObj [] | Some v \<Rightarrow> v) | _ \<Rightarrow> JNull) of
        JObj kvs \<Rightarrow>
          CryptoPayAPIError (case dict_get kvs ''code'' of JNum n \<Rightarrow> n | _ \<Rightarrow> 0)
            (case map_of kvs ''name'' of None \<Rightarrow> ''UNKNOWN_ERROR'' | Some v \<Rightarrow> py_str (env_repr e) v)
      | _ \<Rightarrow> OtherError ''AttributeError'')"

definition crypto_request ::
    "env \<Rightarrow> string \<Rightarrow> json \<Rightarrow> circuit_breaker \<Rightarrow> json result \<times> circuit_breaker" where
  "crypto_request e api_method params b =
     (let (blocked, b1) = is_open (env_now e) b
      in if blocked then (Inl (CryptoPayAPIError 503 ''SERVICE_UNAVAILABLE''), b1)
         else case reply_json (env_http e (if starts_with ''get'' api_method then ''GET'' else ''POST'')
                                (''https://pay.crypt.bot/api/'' @ api_method) params) of
           Inl err \<Rightarrow> (Inl err, record_failure (env_now e) b1)
         | Inr (status, data) \<Rightarrow>
             if 400 \<le> status then (Inl (OtherError ''ClientResponseError''), record_failure (env_now e) b1)
             else case json_get ''ok'' data of
               Inl err \<Rightarrow> (Inl err, b1)
             | Inr ok \<Rightarrow> if \<not> truthy ok then (Inl (api_error e data), b1) else (Inr data, record_success b1))"

definition create_invoice ::
    "env \<Rightarrow> rat \<Rightarrow> int \<Rightarrow> string \<Rightarrow> string \<Rightarrow> string \<Rightarrow> circuit_breaker \<Rightarrow> json result \<times> circuit_breaker" where
  "create_invoice e amount expires_in currency accepted_assets payload b =
     (let params = JObj ([(''currency_type'', JStr ''fiat''), (''fiat'', JStr currency),
                          (''amount'', JStr (env_repr e (JFloat amount))), (''accepted_assets'', JStr accepted_assets),
                          (''expires_in'', JNum expires_in)] @
                         (if payload = [] then [] else [(''payload'', JStr payload)]));
          (r, b1) = crypto_request e ''createInvoice'' params b
      in (tx_bind r (\<lambda>data. tx_bind (json_get ''result'' data) (\<lambda>x. Inr (json_or x (JObj [])))), b1))"

definition get_invoice :: "env \<Rightarrow> json \<Rightarrow> circuit_breaker \<Rightarrow> json result \<times> circuit_breaker" where
  "get_invoice e invoice_id b =
     (let (r, b1) = crypto_request e ''getInvoices'' (JObj [(''invoice_ids'', invoice_id)]) b
      in (tx_bind r (\<lambda>data.
            tx_bind (case data of JObj kvs \<Rightarrow> Inr (case map_of kvs ''result'' of None \<Rightarrow> JObj [] | Some v \<Rightarrow> v)
                     | _ \<Rightarrow> Inl (OtherError ''AttributeError'')) (\<lambda>res.
            tx_bind (json_get ''items'' res) (\<lambda>items.
              if \<not> truthy items then Inr (JObj [])
              else case items of JArr (i # _) \<Rightarrow> Inr i | _ \<Rightarrow> Inl (OtherError ''KeyError'')))), b1))"

subsection \<open>Asking for a top-up\<close>

definition instrument_code_from_callback :: "string \<Rightarrow> string option" where
  "instrument_code_from_callback data =
     (if starts_with ''pay_inst_'' data then Some (drop 9 data)
      else if data = ''pay_cryptopay'' then Some ''cryptopay''
      else if data = ''pay_stars'' then Some ''stars''
      else if data = ''pay_fiat'' then Some ''telegram_fiat''
      else None)"

text \<open>\<open>PaymentRequest\<close> (\<open>validators.py\<close>) on an amount in kopecks.\<close>

definition payment_request_ok :: "int \<Rightarrow> string \<Rightarrow> string \<Rightarrow> bool" where
  "payment_request_ok amount_cents currency provider \<longleftrightarrow>
     0 < amount_cents \<and> amount_cents \<le> 10000000 \<and> py_len currency = 3 \<and>
     provider \<in> {''telegram'', ''stars'', ''cryptopay'', ''fiat''}"

datatype topup_reply =
    Alert string
  | Summary "string option" string
  | SentInvoice invoice

text \<open>
  \<open>process_replenish_balance\<close>: \<open>data\<close> is the callback, \<open>amount_cents\<close> the amount kept in the dialogue,
  \<open>ttl\<close> the life time of an invoice.  Anything raised outside the inner handlers ends in
  \<open>errors.something_wrong\<close>.  The summary carries the payment link and the invoice to check later.
\<close>

definition invoice_via_gateway ::
    "env \<Rightarrow> string \<Rightarrow> string \<Rightarrow> int \<Rightarrow> int \<Rightarrow> int \<Rightarrow> string option \<Rightarrow> payment_instrument \<Rightarrow> payment_gateway
     \<Rightarrow> circuit_breaker \<Rightarrow> shop \<Rightarrow> (topup_reply \<times> circuit_breaker \<times> shop) result" where
  "invoice_via_gateway e uuid description ttl user_id amount_cents username i gw b s =
     (let amount_rub = (if amount_cents < 0 then - ((- amount_cents) div 100) else amount_cents div 100)
      in if pg_code gw = ''platega'' then
           (case create_topup_via_instrument e uuid description i gw user_id amount_cents username s of
              Inl _ \<Rightarrow> Inr (Alert ''payments.fiat.create_fail'', b,
                 log_audit ''platega_invoice_fail'' ''ERROR'' (Some user_id) (Some ''Payment'') None s)
            | Inr (created, s1) \<Rightarrow> Inr (Summary (cp_payment_url created) (cp_external_id created), b, s1))
         else if pg_code gw = ''cryptopay'' then
           (case tx_bind (cryptopay_api_token gw) crypto_api of
              Inl _ \<Rightarrow> Inr (Alert ''payments.crypto.create_fail'', b,
                 log_audit ''cryptopay_invoice_fail'' ''ERROR'' (Some user_id) (Some ''Payment'') None s)
            | Inr _ \<Rightarrow>
                (let (r, b1) = create_invoice e (of_int amount_cents / 100) ttl (env_pay_currency e)
                                 ''TON,USDT,BTC,ETH'' (show_int user_id) b
                 in case r of
                      Inl (CryptoPayAPIError c n) \<Rightarrow> Inr (Alert ''payments.crypto.api_error'', b1,
                        log_audit ''cryptopay_error'' ''ERROR'' (Some user_id) (Some ''Payment'') None s)
                    | Inl _ \<Rightarrow> Inr (Alert ''payments.crypto.create_fail'', b1,
                        log_audit ''cryptopay_invoice_fail'' ''ERROR'' (Some user_id) (Some ''Payment'') None s)
                    | Inr issued \<Rightarrow>
                        (case tx_bind (json_get ''mini_app_invoice_url'' issued) (\<lambda>url.
                           tx_bind (json_get ''invoice_id'' issued) (\<lambda>inv_id.
                           tx_bind (create_pending_payment e ''cryptopay'' (py_str (env_repr e) inv_id) user_id
                                      amount_cents (env_pay_currency e) None s) (\<lambda>(_, s1).
                             Inr (Summary (if url = JNull then None else Some (py_str (env_repr e) url))
                                    (py_str (env_repr e) inv_id), s1)))) of
                           Inl _ \<Rightarrow> Inr (Alert ''errors.something_wrong'', b1, s)
                         | Inr (reply, s1) \<Rightarrow> Inr (reply, b1, s1))))
         else if pg_code gw = ''stars'' then
           (if 0 < stars_per_value gw
            then (case send_stars_invoice user_id amount_rub (stars_per_value gw) of
                    Inl _ \<Rightarrow> Inr (Alert ''payments.stars.create_fail'', b,
                      log_audit ''stars_invoice_fail'' ''ERROR'' (Some user_id) (Some ''Payment'') None s)
                  | Inr issued \<Rightarrow> Inr (SentInvoice issued, b, s))
            else Inr (Alert ''payments.not_configured'', b, s))
         else if pg_code gw = ''telegram_fiat'' then
           tx_bind (telegram_provider_token gw) (\<lambda>token.
             case token of
               None \<Rightarrow> Inr (Alert ''payments.not_configured'', b, s)
             | Some t \<Rightarrow>
                 (case send_fiat_invoice e user_id amount_rub t of
                    Inl _ \<Rightarrow> Inr (Alert ''payments.fiat.create_fail'', b,
                      log_audit ''fiat_invoice_fail'' ''ERROR'' (Some user_id) (Some ''Payment'') None s)
                  | Inr issued \<Rightarrow> Inr (SentInvoice issued, b, s)))
         else Inr (Alert [], b, s))"

definition process_replenish_balance ::
    "env \<Rightarrow> string \<Rightarrow> string \<Rightarrow> int \<Rightarrow> string \<Rightarrow> int \<Rightarrow> int option \<Rightarrow> string option \<Rightarrow> circuit_breaker \<Rightarrow> shop
     \<Rightarrow> (topup_reply \<times> circuit_breaker \<times> shop) result" where
  "process_replenish_balance e uuid description ttl data user_id amount_cents username b s =
     (case amount_cents of
        None \<Rightarrow> Inr (Alert ''payments.session_expired'', b, s)
      | Some cents \<Rightarrow>
     (case Option.bind (instrument_code_from_callback data) (get_instrument_by_code s) of
        None \<Rightarrow> Inr (Alert ''payments.not_configured'', b, s)
      | Some i \<Rightarrow>
     if \<not> pi_enabled i then Inr (Alert ''payments.not_configured'', b, s)
     else
     (case gateway_of s i of
        None \<Rightarrow> Inl (OtherError ''AttributeError'')
      | Some gw \<Rightarrow>
     tx_bind (gateway_is_configured gw) (\<lambda>ok.
     if \<not> ok then Inr (Alert ''payments.not_configured'', b, s)
     else if \<not> payment_request_ok cents (env_pay_currency e) (pg_code gw)
     then Inr (Alert ''errors.something_wrong'', b, s)
     else (case invoice_via_gateway e uuid description ttl user_id cents username i gw b s of
             Inr r \<Rightarrow> Inr r
           | Inl _ \<Rightarrow> Inr (Alert ''errors.something_wrong'', b, s))))))"

subsection \<open>Checking an invoice\<close>

text \<open>
  The notification \<open>_notify_referrer_bonus\<close> would send after a top-up: the referrer and the amount.
\<close>

definition notify_referrer_bonus :: "env \<Rightarrow> shop \<Rightarrow> int \<Rightarrow> int \<Rightarrow> (int \<times> int) option" where
  "notify_referrer_bonus e s user_id amount_cents =
     (case Option.bind (get_user s user_id) u_referral_id of
        None \<Rightarrow> None
      | Some r \<Rightarrow>
          if r = 0 \<or> env_referral_percent e = 0 then None
          else (let bonus = amount_cents * min (max (env_referral_percent e) 0) 99 div 100
                in if 0 < bonus then Some (r, bonus) else None))"

text \<open>
  \<open>Decimal(str(x)).quantize(Decimal("0.01"))\<close>, rounding half to even, then kopecks.
\<close>

definition quantized_cents :: "env \<Rightarrow> json \<Rightarrow> int result" where
  "quantized_cents e j =
     tx_bind (decimal_of_string (py_str (env_repr e) j)) (\<lambda>d.
       rub_to_cents \<lparr>mantissa = to_integral_value (dec_value d * 100), exponent = - 2\<rparr>)"

text \<open>
  \<open>checking_payment\<close>: the dialogue keeps the kind of payment, the invoice id and the amount asked for.
  The answer is the key of the text and, for a credited payment, its amount.
\<close>

definition check_cryptopay ::
    "env \<Rightarrow> int \<Rightarrow> json \<Rightarrow> circuit_breaker \<Rightarrow> shop
     \<Rightarrow> ((string \<times> int option) \<times> circuit_breaker \<times> shop) result" where
  "check_cryptopay e user_id invoice_id b s =
     (let no_answer = (\<lambda>key. ((key, None)));
          failed = (\<lambda>action s. log_audit action ''ERROR'' (Some user_id) (Some ''Payment'') None s)
      in
      if \<not> truthy invoice_id then Inr (no_answer ''payments.invoice_not_found'', b, s)
      else
      (case (case Option.bind (get_instrument_by_code s ''cryptopay'') (gateway_of s) of
               None \<Rightarrow> Inr None | Some gw \<Rightarrow> cryptopay_api_token gw) of
         Inl _ \<Rightarrow> Inr (no_answer ''payments.crypto.check_fail'', b, failed ''cryptopay_get_fail'' s)
       | Inr None \<Rightarrow> Inr (no_answer ''payments.not_configured'', b, s)
       | Inr (Some token) \<Rightarrow>
      (let (r, b1) = get_invoice e invoice_id b
       in case r of
            Inl (CryptoPayAPIError _ _) \<Rightarrow>
              Inr (no_answer ''payments.crypto.api_error'', b1, failed ''cryptopay_check_error'' s)
          | Inl _ \<Rightarrow> Inr (no_answer ''payments.crypto.check_fail'', b1, failed ''cryptopay_get_fail'' s)
          | Inr info \<Rightarrow>
              tx_bind (json_get ''status'' info) (\<lambda>status.
              if status = JStr ''paid'' then
                tx_bind (case info of JObj kvs \<Rightarrow> quantized_cents e (case map_of kvs ''amount'' of None \<Rightarrow> JStr ''0'' | Some v \<Rightarrow> v)
                         | _ \<Rightarrow> Inl (OtherError ''AttributeError'')) (\<lambda>cents.
                if cents \<le> 0 then Inr (no_answer ''payments.unable_determine_amount'', b1, s)
                else (let ((success, msg), s1) = process_payment_topup e user_id cents ''cryptopay''
                            (py_str (env_repr e) invoice_id) s
                      in Inr (if success then (''payments.topped_simple'', Some cents)
                              else (if msg = ''already_processed'' then ''payments.already_processed''
                                    else ''errors.general_error'', None),
                              b1,
                              if success then log_audit ''balance_replenish'' ''INFO'' (Some user_id) (Some ''Payment'') None s1
                              else s1)))
              else if status = JStr ''active'' then Inr (no_answer ''payments.not_paid_yet'', b1, s)
              else Inr (no_answer ''payments.expired'', b1, s)))))"

definition check_platega ::
    "env \<Rightarrow> int \<Rightarrow> json \<Rightarrow> int option \<Rightarrow> shop \<Rightarrow> ((string \<times> int option) \<times> shop) result" where
  "check_platega e user_id invoice_id amount_cents s =
     (if \<not> truthy invoice_id then Inr ((''payments.invoice_not_found'', None), s)
      else case Option.bind (get_instrument_by_code s ''card_mir'') (gateway_of s) of
        None \<Rightarrow> Inr ((''payments.not_configured'', None), s)
      | Some gw \<Rightarrow>
         (let ext = py_str (env_repr e) invoice_id
          in case platega_fetch_status e (gateway_config_from_json (pg_config_json gw)) ext of
               Inl _ \<Rightarrow> Inr ((''payments.crypto.check_fail'', None),
                 log_audit ''platega_check_error'' ''ERROR'' (Some user_id) (Some ''Payment'') None s)
             | Inr info \<Rightarrow>
                 if \<not> ps_paid info then Inr ((''payments.not_paid_yet'', None), s)
                 else (let pending_amount = (case get_payment s (''platega'', ext) of
                             Some p \<Rightarrow> Some (pay_amount p) | None \<Rightarrow> amount_cents)
                       in if \<not> truthy_id pending_amount then Inr ((''payments.unable_determine_amount'', None), s)
                          else (let ((success, msg), s1) = process_payment_topup e user_id (the pending_amount)
                                      ''platega'' ext s
                                in Inr (if \<not> success \<and> msg \<noteq> ''already_processed''
                                        then (''errors.general_error'', None)
                                        else (''payments.topped_simple'', pending_amount), s1)))))"

definition checking_payment ::
    "env \<Rightarrow> int \<Rightarrow> string \<Rightarrow> json \<Rightarrow> int option \<Rightarrow> circuit_breaker \<Rightarrow> shop
     \<Rightarrow> ((string \<times> int option) \<times> circuit_breaker \<times> shop) result" where
  "checking_payment e user_id payment_type invoice_id amount_cents b s =
     (if payment_type = [] then Inr ((''payments.no_active_invoice'', None), b, s)
      else if payment_type = ''cryptopay'' then check_cryptopay e user_id invoice_id b s
      else if payment_type = ''platega''
      then tx_bind (check_platega e user_id invoice_id amount_cents s) (\<lambda>(r, s1). Inr (r, b, s1))
      else Inr (([], None), b, s))"

subsection \<open>Payments inside Telegram\<close>

text \<open>The answer to a pre-checkout query: \<open>None\<close> accepts; a payload that is not JSON is \<open>None\<close>.\<close>

definition pre_checkout_handler :: "env \<Rightarrow> json option \<Rightarrow> string option result" where
  "pre_checkout_handler e payload =
     (case payload of
        None \<Rightarrow> Inr (Some ''Invalid payload'')
      | Some p \<Rightarrow> tx_bind (payload_amount p) (\<lambda>amount.
          Inr (if amount \<le> 0 then Some ''Invalid amount''
               else if amount < env_min_amount e then Some ''Amount below minimum''
               else if env_max_amount e < amount then Some ''Amount exceeds maximum''
               else None)))"

record successful_payment =
  sp_currency :: string
  sp_total_amount :: int
  sp_payload :: json
  sp_raw_payload :: string
  sp_charge_id :: string
  sp_provider_charge_id :: string

definition round_half_up :: "rat \<Rightarrow> int" where
  "round_half_up x = (if x < 0 then - \<lfloor>- x + 1 / 2\<rfloor> else \<lfloor>x + 1 / 2\<rfloor>)"

text \<open>
  The amount in whole units: from the payload, or by reversing the conversion.  An absent or broken
  payload is the empty object.
\<close>

definition paid_amount :: "env \<Rightarrow> shop \<Rightarrow> successful_payment \<Rightarrow> int option result" where
  "paid_amount e s sp =
     tx_bind (payload_amount (sp_payload sp)) (\<lambda>amount.
       if 0 < amount then Inr (Some amount)
       else if sp_currency sp = ''XTR'' then
         (let r0 = (case Option.bind (get_instrument_by_code s ''stars'') (gateway_of s) of
                      None \<Rightarrow> 0 | Some gw \<Rightarrow> stars_per_value gw);
              rate = (if r0 \<le> 0 then env_stars_per_value e else r0)
          in Inr (if rate \<le> 0 then None else Some (round_half_up (of_int (sp_total_amount sp) / rate))))
       else (let m = minor_units_for (upper (sp_currency sp)); t = sp_total_amount sp
             in Inr (Some (if t < 0 then - (- t div m) else t div m))))"

definition payment_key :: "env \<Rightarrow> int \<Rightarrow> successful_payment \<Rightarrow> string \<times> string" where
  "payment_key e user_id sp =
     (let provider = (if sp_currency sp = ''XTR'' then ''stars'' else ''telegram'');
          charge = (if sp_charge_id sp \<noteq> [] then sp_charge_id sp else sp_provider_charge_id sp)
      in (provider, if charge \<noteq> [] then charge
           else provider @ '':fallback:'' @ take 32 (env_sha256 e
             (provider @ ''|'' @ show_int user_id @ ''|'' @ sp_currency sp @ ''|'' @ show_int (sp_total_amount sp) @
              ''|'' @ sp_raw_payload sp))))"

definition successful_payment_handler ::
    "env \<Rightarrow> int \<Rightarrow> successful_payment \<Rightarrow> shop \<Rightarrow> ((string \<times> int option) \<times> shop) result" where
  "successful_payment_handler e user_id sp s =
     tx_bind (paid_amount e s sp) (\<lambda>amount.
       case amount of
         None \<Rightarrow> Inr ((''payments.unable_determine_amount'', None), s)
       | Some a \<Rightarrow>
           if a \<le> 0 then Inr ((''payments.unable_determine_amount'', None), s)
           else
           (let (provider, external_id) = payment_key e user_id sp
            in tx_bind (rub_to_cents (dec_of_int a)) (\<lambda>amount_cents.
               let ((success, msg), s1) = process_payment_with_referral e user_id amount_cents provider external_id s
               in Inr (if success
                       then ((''payments.topped_with_suffix'', Some amount_cents),
                             log_audit ''balance_replenish'' ''INFO'' (Some user_id) (Some ''Payment'') None s1)
                       else ((if msg = ''already_processed'' then ''payments.already_processed''
                              else ''payments.processing_error'', None), s1)))))"

subsection \<open>Recovery\<close>

text \<open>Stale payments: pending for over an hour at a gateway that can be asked.\<close>

definition stale_payments :: "env \<Rightarrow> shop \<Rightarrow> payment list" where
  "stale_payments e s = filter (\<lambda>p. pay_status p = ''pending'' \<and> pay_created_at p < env_now e - 3600 \<and>
     pay_provider p \<in> {''cryptopay'', ''platega''}) (t_payments s)"

definition mark_payment_failed :: "int \<Rightarrow> shop \<Rightarrow> shop" where
  "mark_payment_failed k s =
     s\<lparr>t_payments := map (\<lambda>p. if pay_id p = k then p\<lparr>pay_status := ''failed''\<rparr> else p) (t_payments s)\<rparr>"

text \<open>
  Anything raised while a payment is checked is logged and swallowed.  A payment whose user is gone
  is credited to nobody: the transaction fails.
\<close>

definition recover_topup :: "env \<Rightarrow> payment \<Rightarrow> shop \<Rightarrow> shop" where
  "recover_topup e p s =
     (case pay_user_id p of
        None \<Rightarrow> log_audit ''payment_failed'' ''WARNING'' None (Some ''Payment'') None s
      | Some u \<Rightarrow> snd (process_payment_topup e u (pay_amount p) (pay_provider p) (pay_external_id p) s))"

definition check_and_process_payment ::
    "env \<Rightarrow> payment \<Rightarrow> circuit_breaker \<times> shop \<Rightarrow> circuit_breaker \<times> shop" where
  "check_and_process_payment e p = (\<lambda>(b, s).
     if pay_provider p = ''cryptopay'' then
       (case get_configured_gateway s ''cryptopay'' of
          Inr (Some gw) \<Rightarrow>
            (case tx_bind (cryptopay_api_token gw) crypto_api of
               Inl _ \<Rightarrow> (b, s)
             | Inr _ \<Rightarrow>
                (let (r, b1) = get_invoice e (JStr (pay_external_id p)) b
                 in case tx_bind r (json_get ''status'') of
                      Inl _ \<Rightarrow> (b1, s)
                    | Inr st \<Rightarrow>
                        if st = JStr ''paid'' then (b1, recover_topup e p s)
                        else if st \<in> {JStr ''expired'', JStr ''failed''} then (b1, mark_payment_failed (pay_id p) s)
                        else (b1, s)))
        | _ \<Rightarrow> (b, s))
     else if pay_provider p = ''platega'' then
       (case get_gateway_by_code s ''platega'' of
          None \<Rightarrow> (b, s)
        | Some gw \<Rightarrow>
            (case platega_fetch_status e (gateway_config_from_json (pg_config_json gw)) (pay_external_id p) of
               Inl _ \<Rightarrow> (b, s)
             | Inr info \<Rightarrow>
                 if ps_paid info then (b, recover_topup e p s)
                 else if ps_status info \<in> {''CANCELED'', ''CHARGEBACKED'', ''NOT_FOUND''}
                 then (b, mark_payment_failed (pay_id p) s)
                 else (b, s)))
     else (b, s))"

definition recover_pending_payments :: "env \<Rightarrow> circuit_breaker \<times> shop \<Rightarrow> circuit_breaker \<times> shop" where
  "recover_pending_payments e bs = fold (check_and_process_payment e) (stale_payments e (snd bs)) bs"

text \<open>The retention sweep of \<open>cleanup.py\<close> on the payments table; \<open>days\<close> is \<open>PAYMENTS_RETENTION_DAYS\<close>.\<close>

definition cleanup_payments :: "env \<Rightarrow> int \<Rightarrow> shop \<Rightarrow> shop" where
  "cleanup_payments e days s =
     (if 0 < days
      then s\<lparr>t_payments := filter (\<lambda>p. \<not> (pay_status p \<in> {''pending'', ''failed''} \<and>
             pay_created_at p < env_now e - days * 86400)) (t_payments s)\<rparr>
      else s)"

subsection \<open>Properties\<close>

subsubsection \<open>The circuit breaker\<close>

fun failures :: "int list \<Rightarrow> circuit_breaker \<Rightarrow> circuit_breaker" where
  "failures [] b = b"
| "failures (t # ts) b = failures ts (record_failure t b)"

lemma failures_count:
  "failure_count (failures ts b) = failure_count b + int (length ts)"
  "ts \<noteq> [] \<Longrightarrow> last_failure_time (failures ts b) = last ts"
  "failure_threshold (failures ts b) = failure_threshold b"
  "recovery_timeout (failures ts b) = recovery_timeout b"
  by (induction ts b rule: failures.induct) (auto simp: record_failure_def Let_def)

lemma failures_open:
  "state_open (failures ts b) \<longleftrightarrow> state_open b \<or> ts \<noteq> [] \<and> failure_threshold b \<le> failure_count b + int (length ts)"
  by (induction ts b rule: failures.induct) (auto simp: record_failure_def Let_def)

text \<open>C14: From a closed breaker, once as many consecutive failures as the threshold have been recorded
  every request is rejected without contacting the service until the recovery timeout has passed;
  with fewer failures requests go through.\<close>
theorem breaker_opens_and_blocks:
  assumes "ts \<noteq> []" "\<not> state_open b" "failure_count b = 0"
    and "env_now e \<le> last ts + recovery_timeout b"
  shows "if failure_threshold b \<le> int (length ts)
    then crypto_request (e\<lparr>env_http := http\<rparr>) meth params (failures ts b) =
      (Inl (CryptoPayAPIError 503 ''SERVICE_UNAVAILABLE''), failures ts b)
    else \<not> fst (is_open (env_now e) (failures ts b))"
  using assms
  by (simp add: crypto_request_def is_open_def failures_count failures_open)

lemma breaker_opens_and_blocks_witness:
  "crypto_request (sample_env\<lparr>env_http := \<lambda>m u b. HttpTimeout\<rparr>) ''getInvoices'' JNull (failures [951, 952, 953, 954, 955] (new_breaker 5 60)) =
     (Inl (CryptoPayAPIError 503 ''SERVICE_UNAVAILABLE''), failures [951, 952, 953, 954, 955] (new_breaker 5 60))"
  using breaker_opens_and_blocks [of "[951, 952, 953, 954, 955]" "new_breaker 5 60" sample_env "\<lambda>m u b. HttpTimeout" "''getInvoices''" JNull]
  by (simp add: new_breaker_def sample_env_def)

subsubsection \<open>Amounts\<close>

theorem stars_cover_amount:
  assumes "0 < rate"
  shows "of_int amount * rate \<le> of_int (currency_to_stars amount rate) \<and>
    of_int (currency_to_stars amount rate) < of_int amount * rate + 1 \<and>
    (2 \<le> rate \<longrightarrow> 0 \<le> amount \<longrightarrow> round_half_up (of_int (currency_to_stars amount rate) / rate) = amount)"
proof -
  let ?n = "currency_to_stars amount rate"
  have n: "?n = \<lceil>of_int amount * rate\<rceil>" using assms by (simp add: currency_to_stars_def)
  have lo: "of_int amount * rate \<le> of_int ?n" by (simp add: n)
  have hi: "of_int ?n < of_int amount * rate + 1" unfolding n by linarith
  have "round_half_up (of_int ?n / rate) = amount" if r: "2 \<le> rate" and a: "0 \<le> amount"
  proof -
    have "of_int amount \<le> of_int ?n / rate" using lo assms by (simp add: pos_le_divide_eq)
    moreover have "of_int ?n / rate < of_int amount + 1 / 2"
    proof -
      have "of_int amount * rate + 1 \<le> (of_int amount + 1 / 2) * rate" using r by (simp add: field_simps)
      with hi have "of_int ?n < (of_int amount + 1 / 2) * rate" by linarith
      then show ?thesis using assms by (simp add: pos_divide_less_eq)
    qed
    ultimately have "\<lfloor>of_int ?n / rate + 1 / 2\<rfloor> = amount" and "0 \<le> of_int ?n / rate"
      using a by (simp_all add: floor_eq_iff)
    then show ?thesis by (simp add: round_half_up_def not_less)
  qed
  with lo hi show ?thesis by blast
qed

lemma stars_cover_amount_witness:
  "currency_to_stars 150 (5 / 2) = 375 \<and> round_half_up (of_int (currency_to_stars 150 (5 / 2)) / (5 / 2)) = 150"
proof -
  have "currency_to_stars 150 (5 / 2) = 375" by (simp add: currency_to_stars_def)
  with stars_cover_amount [of "5 / 2" 150] show ?thesis by simp
qed

subsubsection \<open>What a top-up request can reach\<close>

theorem platega_topup_refused:
  assumes "pg_code gw \<in> {''platega'', ''telegram_fiat'', ''heleket''}"
    and "Option.bind (instrument_code_from_callback data) (get_instrument_by_code s) = Some i" "pi_enabled i"
    and "gateway_of s i = Some gw" "gateway_is_configured gw = Inr True"
  shows "process_replenish_balance e uuid descr ttl data uid (Some cents) uname b s =
    Inr (Alert ''errors.something_wrong'', b, s)"
  using assms by (auto simp: process_replenish_balance_def payment_request_ok_def)

lemma platega_topup_refused_witness:
  "process_replenish_balance sample_env ''u'' ''d'' 1800 ''pay_inst_card_mir'' 1 (Some 10000) None (new_breaker 5 60) sample_pay_shop =
     Inr (Alert ''errors.something_wrong'', new_breaker 5 60, sample_pay_shop)"
proof -
  let ?gw = "hd (t_gateways sample_pay_shop)"
  let ?i = "hd (t_instruments sample_pay_shop)"
  have "pg_code ?gw \<in> {''platega'', ''telegram_fiat'', ''heleket''}" "pi_enabled ?i"
    "Option.bind (instrument_code_from_callback ''pay_inst_card_mir'') (get_instrument_by_code sample_pay_shop) = Some ?i"
    "gateway_of sample_pay_shop ?i = Some ?gw"
    by (simp_all add: sample_pay_shop_def instrument_code_from_callback_def starts_with_def get_instrument_by_code_def gateway_of_def)
  moreover have "gateway_is_configured ?gw = Inr True" by code_simp
  ultimately show ?thesis by (intro platega_topup_refused)
qed

subsubsection \<open>Recovery\<close>

lemma recover_topup_ledger:
  assumes "payments_ok s"
  shows "payments_ok (recover_topup e p s) \<and>
    total_balance (recover_topup e p s) - credited_total (recover_topup e p s) = total_balance s - credited_total s"
proof (cases "pay_user_id p")
  case None
  with assms show ?thesis
    by (simp add: recover_topup_def log_audit_def payments_ok_def users_ok_def total_balance_def credited_total_def)
next
  case (Some u)
  obtain b m s1 where "process_payment_topup e u (pay_amount p) (pay_provider p) (pay_external_id p) s = ((b, m), s1)"
    by (metis prod.collapse)
  with topup_keeps_ledger [OF assms, of e u "pay_amount p" "pay_provider p" "pay_external_id p" b m s1] Some
  show ?thesis by (simp add: recover_topup_def process_payment_topup_def)
qed

end
