(* ===== verification/Catalog.thy ===== *)
theory Catalog
  imports Promos Stock
begin

text \<open>
  The catalogue as its administrators change it: the operations on products, stock values,
  categories, restock subscriptions and reviews of \<open>bot/database/methods/create.py\<close>,
  \<open>update.py\<close> and \<open>delete.py\<close>, and \<open>replace_item_stock_and_meta\<close> of \<open>transactions.py\<close>.  Foreign keys
  are evaluated by the statement that breaks them, with the \<open>ondelete\<close> action of the model.
\<close>

subsection \<open>Lookups by name\<close>

definition category_by_name :: "shop \<Rightarrow> string \<Rightarrow> category option" where
  "category_by_name s n = find_by c_name n (t_categories s)"

definition get_category :: "shop \<Rightarrow> int \<Rightarrow> category option" where
  "get_category s k = find_by c_id k (t_categories s)"

definition put_category :: "category \<Rightarrow> shop \<Rightarrow> shop" where
  "put_category r s = s\<lparr>t_categories := put_by c_id r (t_categories s)\<rparr>"

interpretation categories: row_table get_category put_category c_id
  by unfold_locales
    (auto simp: get_category_def put_category_def find_put put_put dest: find_by_Some_key)

text \<open>An id selected by name, as the code tests it: \<open>if not item_id\<close>.\<close>

definition scalar_id :: "int option \<Rightarrow> int option" where
  "scalar_id x = (if truthy_id x then x else None)"

definition goods_id_by_name :: "shop \<Rightarrow> string \<Rightarrow> int option" where
  "goods_id_by_name s n = scalar_id (map_option g_id (goods_by_name s n))"

definition category_id_by_name :: "shop \<Rightarrow> string \<Rightarrow> int option" where
  "category_id_by_name s n = scalar_id (map_option c_id (category_by_name s n))"

subsection \<open>Stock values\<close>

text \<open>The loop of \<open>normalize_values\<close> over \<open>seen\<close>, \<open>normalized\<close> and the two counters.\<close>

fun normalize_loop ::
    "string list \<Rightarrow> string set \<Rightarrow> string list \<Rightarrow> nat \<Rightarrow> nat \<Rightarrow> string list \<times> nat \<times> nat" where
  "normalize_loop [] seen normalized dup invalid = (normalized, dup, invalid)"
| "normalize_loop (v # vs) seen normalized dup invalid =
     (let v_norm = strip v
      in if v_norm = [] then normalize_loop vs seen normalized dup (invalid + 1)
         else if v_norm \<in> seen then normalize_loop vs seen normalized (dup + 1) invalid
         else normalize_loop vs (insert v_norm seen) (normalized @ [v_norm]) dup invalid)"

definition normalize_values :: "string list \<Rightarrow> string list \<times> nat \<times> nat" where
  "normalize_values values = normalize_loop values {} [] 0 0"

definition value_of_item :: "int \<Rightarrow> string \<Rightarrow> item_value \<Rightarrow> bool" where
  "value_of_item item_id v r \<longleftrightarrow> iv_item_id r = item_id \<and> iv_value r = Some v"

definition add_value_row :: "int \<Rightarrow> bool \<Rightarrow> string \<Rightarrow> shop \<Rightarrow> shop" where
  "add_value_row item_id is_infinity v s =
     s\<lparr>t_item_values := t_item_values s @
         [\<lparr>iv_id = next_id s, iv_item_id = item_id, iv_value = Some v, iv_is_infinity = is_infinity,
            iv_status = AVAILABLE, iv_reserved_order_id = None\<rparr>],
       t_seq := next_id s\<rparr>"

definition add_value_body :: "string \<Rightarrow> string \<Rightarrow> bool \<Rightarrow> shop \<Rightarrow> (bool \<times> shop) result" where
  "add_value_body item_name value_norm is_infinity s =
     (case goods_id_by_name s item_name of
        None \<Rightarrow> Inr (False, s)
      | Some item_id \<Rightarrow>
          if list_ex (value_of_item item_id value_norm) (t_item_values s) then Inr (False, s)
          else Inr (True, add_value_row item_id is_infinity value_norm s))"

definition add_values_to_item :: "string \<Rightarrow> string \<Rightarrow> bool \<Rightarrow> shop \<Rightarrow> (bool \<times> shop) result" where
  "add_values_to_item item_name value is_infinity s =
     (let value_norm = strip value
      in if value_norm = [] then Inr (False, s)
         else case run_session (add_value_body item_name value_norm is_infinity) s of
                Inl (IntegrityError m) \<Rightarrow> Inr (False, s)
              | Inl err \<Rightarrow> Inl err
              | Inr (inserted, s1) \<Rightarrow>
                  Inr (inserted, if inserted then safe_create_task (InvalidateItemCache item_name None) s1 else s1))"

definition bulk_body :: "string \<Rightarrow> string list \<Rightarrow> bool \<Rightarrow> shop \<Rightarrow> ((nat \<times> nat) option \<times> shop) result" where
  "bulk_body item_name normalized is_infinity s =
     (case goods_id_by_name s item_name of
        None \<Rightarrow> Inr (None, s)
      | Some item_id \<Rightarrow>
          (let to_insert = filter (\<lambda>v. \<not> list_ex (value_of_item item_id v) (t_item_values s)) normalized
           in Inr (Some (length to_insert, length normalized - length to_insert),
                fold (add_value_row item_id is_infinity) to_insert s)))"

text \<open>The fallback of the bulk insert: one value at a time.\<close>

fun add_one_by_one ::
    "string \<Rightarrow> bool \<Rightarrow> string list \<Rightarrow> nat \<Rightarrow> nat \<Rightarrow> shop \<Rightarrow> ((nat \<times> nat) \<times> shop) result" where
  "add_one_by_one item_name is_infinity [] added skipped s = Inr ((added, skipped), s)"
| "add_one_by_one item_name is_infinity (v # vs) added skipped s =
     tx_bind (add_values_to_item item_name v is_infinity s) (\<lambda>(ok, s1).
       if ok then add_one_by_one item_name is_infinity vs (added + 1) skipped s1
       else add_one_by_one item_name is_infinity vs added (skipped + 1) s1)"

definition add_values_bulk ::
    "string \<Rightarrow> string list \<Rightarrow> bool \<Rightarrow> shop \<Rightarrow> ((nat \<times> nat \<times> nat \<times> nat) \<times> shop) result" where
  "add_values_bulk item_name values is_infinity s =
     (let (all_values, batch_dup, invalid) = normalize_values values;
          normalized = (if is_infinity then take 1 all_values else all_values)
      in if normalized = [] then Inr ((0, 0, batch_dup, invalid), s)
         else case run_session (bulk_body item_name normalized is_infinity) s of
                Inl (IntegrityError m) \<Rightarrow>
                  tx_bind (add_one_by_one item_name is_infinity normalized 0 0 s) (\<lambda>((added, db_dup), s1).
                    Inr ((added, db_dup, batch_dup, invalid), s1))
              | Inl err \<Rightarrow> Inl err
              | Inr (None, s1) \<Rightarrow> Inr ((0, 0, batch_dup, invalid), s1)
              | Inr (Some (added, db_dup), s1) \<Rightarrow>
                  Inr ((added, db_dup, batch_dup, invalid),
                    if 0 < added then safe_create_task (InvalidateItemCache item_name None) s1 else s1))"

definition delete_item_from_position :: "int \<Rightarrow> shop \<Rightarrow> (unit \<times> shop) result" where
  "delete_item_from_position item_id =
     run_session (\<lambda>s. Inr ((), s\<lparr>t_item_values := filter (\<lambda>v. iv_id v \<noteq> item_id) (t_item_values s)\<rparr>))"

subsection \<open>Products\<close>

definition create_item ::
    "string \<Rightarrow> string \<Rightarrow> decimal \<Rightarrow> string \<Rightarrow> fulfillment_type \<Rightarrow> bool \<Rightarrow> shop \<Rightarrow> (unit \<times> shop) result" where
  "create_item item_name item_description item_price category_name fulfillment_type allows_gift s =
     tx_bind (rub_to_cents item_price) (\<lambda>price_cents.
     tx_bind (run_session (\<lambda>s.
        if goods_by_name s item_name \<noteq> None then Inr (False, s)
        else case category_id_by_name s category_name of
               None \<Rightarrow> Inr (False, s)
             | Some cat \<Rightarrow> Inr (True, s\<lparr>t_goods := t_goods s @
                 [\<lparr>g_id = next_id s, g_name = item_name, g_price = price_cents, g_description = item_description,
                    g_category_id = cat, g_fulfillment_type = fulfillment_type, g_allows_gift = allows_gift,
                    g_sale_percent = None, g_sale_until = None\<rparr>], t_seq := next_id s\<rparr>)) s) (\<lambda>(created, s1).
     Inr ((), if created
              then safe_create_task (InvalidateCategoryCache category_name) (safe_create_task InvalidateStatsCache s1)
              else s1)))"

text \<open>Purchase history keeps the name of the product, so a rename carries over.\<close>

definition rename_bought :: "string \<Rightarrow> string \<Rightarrow> shop \<Rightarrow> shop" where
  "rename_bought old_name new_name s =
     s\<lparr>t_bought := map (\<lambda>b. if bg_item_name b = old_name then b\<lparr>bg_item_name := new_name\<rparr> else b) (t_bought s)\<rparr>"

definition update_item_body ::
    "string \<Rightarrow> string \<Rightarrow> string \<Rightarrow> int \<Rightarrow> string \<Rightarrow> shop \<Rightarrow> ((string + string list \<times> string option) \<times> shop) result" where
  "update_item_body item_name new_name description price_cents category s =
     (case goods_by_name s item_name of
        None \<Rightarrow> Inr (Inl ''position_invalid'', s)
      | Some g \<Rightarrow>
     (case category_id_by_name s category of
        None \<Rightarrow> Inr (Inl ''position_invalid'', s)
      | Some cat_id \<Rightarrow>
         (let old_category = (if cat_id \<noteq> g_category_id g
                              then map_option c_name (get_category s (g_category_id g)) else None);
              g1 = g\<lparr>g_description := description, g_price := price_cents, g_category_id := cat_id\<rparr>
          in if new_name = item_name then Inr (Inr ([item_name], old_category), put_goods g1 s)
             else if goods_by_name s new_name \<noteq> None then Inr (Inl ''position_exists'', s)
             else Inr (Inr ([item_name, new_name], old_category),
                    rename_bought item_name new_name (put_goods (g1\<lparr>g_name := new_name\<rparr>) s)))))"

definition update_item ::
    "string \<Rightarrow> string \<Rightarrow> string \<Rightarrow> decimal \<Rightarrow> string \<Rightarrow> shop \<Rightarrow> ((bool \<times> string option) \<times> shop) result" where
  "update_item item_name new_name description price category s =
     tx_bind (rub_to_cents price) (\<lambda>price_cents.
       case run_session (update_item_body item_name new_name description price_cents category) s of
         Inl (IntegrityError m) \<Rightarrow> Inr ((False, Some ''db_error''), s)
       | Inl err \<Rightarrow> Inl err
       | Inr (Inl code, s1) \<Rightarrow> Inr ((False, Some code), s1)
       | Inr (Inr (to_invalidate, old_category), s1) \<Rightarrow>
           (let s2 = fold (\<lambda>name. safe_create_task (InvalidateItemCache name (Some category))) to_invalidate s1
            in Inr ((True, None),
                 if truthy_str old_category then safe_create_task (InvalidateCategoryCache (the old_category)) s2
                 else s2)))"

definition set_item_sale :: "string \<Rightarrow> rat option \<Rightarrow> int option \<Rightarrow> shop \<Rightarrow> (bool \<times> shop) result" where
  "set_item_sale item_name sale_percent sale_until s =
     tx_bind (run_session (\<lambda>s. case goods_by_name s item_name of
         None \<Rightarrow> Inr (False, s)
       | Some g \<Rightarrow> Inr (True, put_goods (g\<lparr>g_sale_percent := sale_percent, g_sale_until := sale_until\<rparr>) s)) s)
     (\<lambda>(found, s1). Inr (found, if found then safe_create_task (InvalidateItemCache item_name None) s1 else s1))"

text \<open>
  \<open>DELETE FROM goods\<close>: an order of the product forbids it, its stock, cart lines, reviews,
  subscriptions and provider links go with it, and a promo code bound to it loses the binding.
\<close>

definition delete_goods_rows :: "(goods \<Rightarrow> bool) \<Rightarrow> shop \<Rightarrow> shop result" where
  "delete_goods_rows del s =
     (let ids = map g_id (filter del (t_goods s)); gone = (\<lambda>k. k \<in> set ids)
      in if list_ex (\<lambda>x. gone (o_goods_id x)) (t_orders s) then Inl (IntegrityError ''orders_goods_id_fkey'')
         else Inr (s\<lparr>t_goods := filter (\<lambda>g. \<not> del g) (t_goods s),
              t_item_values := filter (\<lambda>v. \<not> gone (iv_item_id v)) (t_item_values s),
              t_cart := filter (\<lambda>c. \<not> gone (ci_item_id c)) (t_cart s),
              t_reviews := filter (\<lambda>r. \<not> gone (rv_item_id r)) (t_reviews s),
              t_subs := filter (\<lambda>r. \<not> gone (ss_item_id r)) (t_subs s),
              t_links := filter (\<lambda>l. \<not> gone (gpl_goods_id l)) (t_links s),
              t_promos := map (\<lambda>p. if list_ex (\<lambda>k. pc_item_id p = Some k) ids then p\<lparr>pc_item_id := None\<rparr> else p)
                (t_promos s)\<rparr>))"

definition delete_item_body :: "string \<Rightarrow> shop \<Rightarrow> (string option \<times> shop) result" where
  "delete_item_body item_name s =
     (case goods_by_name s item_name of
        None \<Rightarrow> Inr (None, s)
      | Some item \<Rightarrow>
         (let category_name = map_option c_name (get_category s (g_category_id item));
              s1 = s\<lparr>t_item_values := filter (\<lambda>v. iv_item_id v \<noteq> g_id item) (t_item_values s)\<rparr>
          in tx_bind (delete_goods_rows (\<lambda>g. g_id g = g_id item) s1) (\<lambda>s2. Inr (category_name, s2))))"

definition delete_item :: "string \<Rightarrow> shop \<Rightarrow> (unit \<times> shop) result" where
  "delete_item item_name s =
     tx_bind (run_session (delete_item_body item_name) s) (\<lambda>(category_name, s1).
       let s2 = safe_create_task (InvalidateItemCache item_name None) s1
       in Inr ((), if truthy_str category_name
                   then safe_create_task (InvalidateCategoryCache (the category_name)) s2 else s2))"

definition replace_body ::
    "string \<Rightarrow> string \<Rightarrow> string \<Rightarrow> decimal \<Rightarrow> string \<Rightarrow> string list \<Rightarrow> bool \<Rightarrow> shop
     \<Rightarrow> ((nat \<times> string option) \<times> shop) result" where
  "replace_body old_name new_name description price category_name normalized is_infinity s =
     (case goods_by_name s old_name of
        None \<Rightarrow> Inl (Abort ''position_invalid'')
      | Some g \<Rightarrow>
     (case category_id_by_name s category_name of
        None \<Rightarrow> Inl (Abort ''position_invalid'')
      | Some category_id \<Rightarrow>
          if new_name \<noteq> old_name \<and> goods_id_by_name s new_name \<noteq> None then Inl (Abort ''position_exists'')
          else
            (let old_category_name = map_option c_name (get_category s (g_category_id g));
                 s1 = s\<lparr>t_item_values := filter (\<lambda>v. iv_item_id v \<noteq> g_id g) (t_item_values s)\<rparr>;
                 to_insert = (if is_infinity then take 1 normalized else normalized);
                 s2 = fold (add_value_row (g_id g) is_infinity) to_insert s1
             in tx_bind (rub_to_cents price) (\<lambda>price_cents.
                  let s3 = put_goods (g\<lparr>g_name := new_name, g_description := description, g_price := price_cents,
                        g_category_id := category_id\<rparr>) s2
                  in Inr ((length to_insert, old_category_name),
                       if new_name \<noteq> old_name then rename_bought old_name new_name s3 else s3)))))"

definition replace_item_stock_and_meta ::
    "string \<Rightarrow> string \<Rightarrow> string \<Rightarrow> decimal \<Rightarrow> string \<Rightarrow> string list \<Rightarrow> bool \<Rightarrow> shop
     \<Rightarrow> (bool \<times> string option \<times> nat) \<times> shop" where
  "replace_item_stock_and_meta old_name new_name description price category_name values is_infinity s =
     (let (normalized, _, _) = normalize_values values
      in case run_session (replace_body old_name new_name description price category_name normalized is_infinity) s of
           Inl (Abort c) \<Rightarrow> ((False, Some c, 0), s)
         | Inl _ \<Rightarrow> ((False, Some ''db_error'', 0),
             log_audit ''replace_item_stock_failed'' ''WARNING'' None (Some ''Item'') (Some old_name) s)
         | Inr ((added, old_category), s1) \<Rightarrow>
             ((True, None, added),
              safe_create_task InvalidateStatsCache
                (fold (\<lambda>cat. safe_create_task (InvalidateCategoryCache cat))
                  (remdups (category_name # (case old_category of None \<Rightarrow> [] | Some c \<Rightarrow> [c])))
                  (fold (\<lambda>name. safe_create_task (InvalidateItemCache name None)) (remdups [old_name, new_name]) s1))))"

subsection \<open>Categories\<close>

definition create_category :: "string \<Rightarrow> shop \<Rightarrow> (unit \<times> shop) result" where
  "create_category category_name s =
     tx_bind (run_session (\<lambda>s.
        if category_by_name s category_name \<noteq> None then Inr (False, s)
        else Inr (True, s\<lparr>t_categories := t_categories s @ [\<lparr>c_id = next_id s, c_name = category_name\<rparr>],
               t_seq := next_id s\<rparr>)) s) (\<lambda>(created, s1).
     Inr ((), if created
              then safe_create_task (InvalidateCategoryCache category_name) (safe_create_task InvalidateStatsCache s1)
              else s1))"

definition update_category :: "string \<Rightarrow> string \<Rightarrow> shop \<Rightarrow> (unit \<times> shop) result" where
  "update_category category_name new_name s =
     tx_bind (run_session (\<lambda>s. case category_by_name s category_name of
         None \<Rightarrow> Inl (ValueError ''Category not found'')
       | Some c \<Rightarrow>
           if list_ex (\<lambda>d. c_name d = new_name \<and> c_id d \<noteq> c_id c) (t_categories s)
           then Inl (IntegrityError ''categories_name_key'')
           else Inr ((), put_category (c\<lparr>c_name := new_name\<rparr>) s)) s) (\<lambda>(_, s1).
     let s2 = safe_create_task (InvalidateCategoryCache category_name) s1
     in Inr ((), if new_name \<noteq> category_name then safe_create_task (InvalidateCategoryCache new_name) s2 else s2))"

text \<open>Deleting a category cascades to its products; a promo code bound to it loses the binding.\<close>

definition delete_category_body :: "string \<Rightarrow> shop \<Rightarrow> (string list option \<times> shop) result" where
  "delete_category_body category_name s =
     (case category_by_name s category_name of
        None \<Rightarrow> Inr (None, s)
      | Some cat \<Rightarrow>
         (let item_names = map g_name (filter (\<lambda>g. g_category_id g = c_id cat) (t_goods s));
              s1 = (if item_names = [] then s
                    else log_audit ''cascade_delete'' ''INFO'' None (Some ''Category'') (Some category_name) s)
          in tx_bind (delete_goods_rows (\<lambda>g. g_category_id g = c_id cat) s1) (\<lambda>s2.
               Inr (Some item_names, s2\<lparr>t_categories := filter (\<lambda>c. c_id c \<noteq> c_id cat) (t_categories s2),
                 t_promos := map (\<lambda>p. if pc_category_id p = Some (c_id cat) then p\<lparr>pc_category_id := None\<rparr> else p)
                   (t_promos s2)\<rparr>))))"

definition delete_category :: "string \<Rightarrow> shop \<Rightarrow> (unit \<times> shop) result" where
  "delete_category category_name s =
     tx_bind (run_session (delete_category_body category_name) s) (\<lambda>(item_names, s1).
       Inr ((), case item_names of None \<Rightarrow> s1
         | Some names \<Rightarrow> fold (\<lambda>name. safe_create_task (InvalidateItemCache name None)) names
             (safe_create_task (InvalidateCategoryCache category_name) s1)))"

subsection \<open>Restock subscriptions and reviews\<close>

definition subscribe_to_stock :: "int \<Rightarrow> string \<Rightarrow> shop \<Rightarrow> ((bool \<times> string) \<times> shop) result" where
  "subscribe_to_stock user_id item_name s =
     (case run_session (\<lambda>s. case goods_id_by_name s item_name of
           None \<Rightarrow> Inr ((False, ''item_not_found''), s)
         | Some item_id \<Rightarrow>
             if list_ex (\<lambda>r. ss_user_id r = user_id \<and> ss_item_id r = item_id) (t_subs s)
             then Inr ((True, ''already_subscribed''), s)
             else if get_user s user_id = None then Inl (IntegrityError ''stock_subscriptions_user_id_fkey'')
             else Inr ((True, ''subscribed''), s\<lparr>t_subs := t_subs s @
                    [\<lparr>ss_id = next_id s, ss_user_id = user_id, ss_item_id = item_id\<rparr>], t_seq := next_id s\<rparr>)) s of
        Inl (IntegrityError m) \<Rightarrow> Inr ((True, ''already_subscribed''), s)
      | r \<Rightarrow> r)"

definition unsubscribe_from_stock :: "int \<Rightarrow> string \<Rightarrow> shop \<Rightarrow> (bool \<times> shop) result" where
  "unsubscribe_from_stock user_id item_name =
     run_session (\<lambda>s. case goods_id_by_name s item_name of
         None \<Rightarrow> Inr (False, s)
       | Some item_id \<Rightarrow>
          (let hit = (\<lambda>r. ss_user_id r = user_id \<and> ss_item_id r = item_id)
           in Inr (list_ex hit (t_subs s), s\<lparr>t_subs := filter (\<lambda>r. \<not> hit r) (t_subs s)\<rparr>)))"

definition is_subscribed_to_stock :: "shop \<Rightarrow> int \<Rightarrow> string \<Rightarrow> bool" where
  "is_subscribed_to_stock s user_id item_name =
     list_ex (\<lambda>r. ss_user_id r = user_id \<and>
        list_ex (\<lambda>g. g_id g = ss_item_id r \<and> g_name g = item_name) (t_goods s)) (t_subs s)"

definition pop_stock_subscribers :: "string \<Rightarrow> shop \<Rightarrow> (int list \<times> shop) result" where
  "pop_stock_subscribers item_name =
     run_session (\<lambda>s. case goods_id_by_name s item_name of
         None \<Rightarrow> Inr ([], s)
       | Some item_id \<Rightarrow>
          (let rows = filter (\<lambda>r. ss_item_id r = item_id) (t_subs s)
           in Inr (map ss_user_id rows,
                s\<lparr>t_subs := filter (\<lambda>r. ss_id r \<notin> set (map ss_id rows)) (t_subs s)\<rparr>)))"

definition create_review :: "int \<Rightarrow> string \<Rightarrow> int \<Rightarrow> string option \<Rightarrow> shop \<Rightarrow> (int option \<times> shop) result" where
  "create_review user_id item_name rating body s =
     (if \<not> (1 \<le> rating \<and> rating \<le> 5) then Inr (None, s)
      else if item_name = [] then Inr (None, s)
      else run_session (\<lambda>s. case goods_id_by_name s item_name of
          None \<Rightarrow> Inr (None, s)
        | Some item_id \<Rightarrow>
            if list_ex (\<lambda>r. rv_user_id r = user_id \<and> rv_item_id r = item_id) (t_reviews s) then Inr (None, s)
            else if get_user s user_id = None then Inl (IntegrityError ''reviews_user_id_fkey'')
            else Inr (Some (next_id s), s\<lparr>t_reviews := t_reviews s @
                   [\<lparr>rv_id = next_id s, rv_user_id = user_id, rv_item_id = item_id, rv_rating = rating,
                      rv_text = body\<rparr>], t_seq := next_id s\<rparr>)) s)"

definition delete_review :: "int \<Rightarrow> shop \<Rightarrow> (bool \<times> shop) result" where
  "delete_review review_id =
     run_session (\<lambda>s. Inr (list_ex (\<lambda>r. rv_id r = review_id) (t_reviews s),
       s\<lparr>t_reviews := filter (\<lambda>r. rv_id r \<noteq> review_id) (t_reviews s)\<rparr>))"

definition has_purchased_item :: "shop \<Rightarrow> int \<Rightarrow> string \<Rightarrow> bool" where
  "has_purchased_item s user_id item_name =
     list_ex (\<lambda>b. bg_buyer_id b = Some user_id \<and> bg_item_name b = item_name) (t_bought s)"

definition get_user_review :: "shop \<Rightarrow> int \<Rightarrow> string \<Rightarrow> review option" where
  "get_user_review s user_id item_name =
     List.find (\<lambda>r. rv_user_id r = user_id \<and>
        list_ex (\<lambda>g. g_id g = rv_item_id r \<and> g_name g = item_name) (t_goods s)) (t_reviews s)"

subsection \<open>What the screens read of the stock\<close>

definition select_item_values_amount :: "shop \<Rightarrow> string \<Rightarrow> nat" where
  "select_item_values_amount s item_name =
     length (filter (\<lambda>v. stock_unit_available_clause v \<and>
        list_ex (\<lambda>g. g_id g = iv_item_id v \<and> g_name g = item_name) (t_goods s)) (t_item_values s))"

definition check_value :: "shop \<Rightarrow> string \<Rightarrow> bool" where
  "check_value s item_name =
     list_ex (\<lambda>v. iv_is_infinity v \<and>
        list_ex (\<lambda>g. g_id g = iv_item_id v \<and> g_name g = item_name) (t_goods s)) (t_item_values s)"


subsection \<open>Normalizing a batch\<close>

text \<open>The reference: trim, drop the blanks, keep the first of equal values.\<close>

definition nonblank :: "string list \<Rightarrow> string list" where
  "nonblank vs = filter (\<lambda>v. v \<noteq> []) (map strip vs)"

definition keep_first :: "'a list \<Rightarrow> 'a list" where
  "keep_first xs = rev (remdups (rev xs))"

lemma keep_first_snoc: "keep_first (xs @ [x]) = (if x \<in> set xs then keep_first xs else keep_first xs @ [x])"
  by (simp add: keep_first_def)

lemma set_keep_first [simp]: "set (keep_first xs) = set xs"
  by (simp add: keep_first_def)

lemma distinct_keep_first [simp]: "distinct (keep_first xs)"
  by (simp add: keep_first_def)

lemma keep_first_distinct: "distinct xs \<Longrightarrow> keep_first xs = xs"
  by (simp add: keep_first_def distinct_remdups_id)

lemma length_keep_first_le: "length (keep_first xs) \<le> length xs"
  using length_remdups_leq [of "rev xs"] by (simp add: keep_first_def)

lemma nonblank_append: "nonblank (xs @ ys) = nonblank xs @ nonblank ys"
  by (simp add: nonblank_def)

lemma length_nonblank_le: "length (nonblank vs) \<le> length vs"
  using length_filter_le [of "\<lambda>v. v \<noteq> []" "map strip vs"] by (simp add: nonblank_def)

lemma normalize_loop_spec:
  "normalize_loop vs (set (nonblank done_vs)) (keep_first (nonblank done_vs))
     (length (nonblank done_vs) - length (keep_first (nonblank done_vs)))
     (length done_vs - length (nonblank done_vs)) =
   (let all_vs = nonblank (done_vs @ vs)
    in (keep_first all_vs, length all_vs - length (keep_first all_vs), length (done_vs @ vs) - length all_vs))"
proof (induction vs arbitrary: done_vs)
  case (Cons v vs)
  let ?d = "done_vs @ [v]"
  have step: "nonblank ?d = (if strip v = [] then nonblank done_vs else nonblank done_vs @ [strip v])"
    by (simp add: nonblank_def)
  have len: "length (nonblank done_vs) \<le> length done_vs"
    "length (keep_first (nonblank done_vs)) \<le> length (nonblank done_vs)"
    by (simp_all add: length_nonblank_le length_keep_first_le)
  have "normalize_loop (v # vs) (set (nonblank done_vs)) (keep_first (nonblank done_vs))
     (length (nonblank done_vs) - length (keep_first (nonblank done_vs)))
     (length done_vs - length (nonblank done_vs)) =
    normalize_loop vs (set (nonblank ?d)) (keep_first (nonblank ?d))
     (length (nonblank ?d) - length (keep_first (nonblank ?d))) (length ?d - length (nonblank ?d))"
    using len by (auto simp: step keep_first_snoc Let_def Suc_diff_le insert_absorb)
  then show ?case using Cons.IH [of ?d] by simp
qed (simp add: Let_def)

lemma dropWhile_idem: "dropWhile P (dropWhile P xs) = dropWhile P xs"
  by (induction xs) auto

lemma dropWhile_hd: "xs \<noteq> [] \<Longrightarrow> \<not> P (hd xs) \<Longrightarrow> dropWhile P xs = xs"
  by (cases xs) auto

lemma strip_idem [simp]: "strip (strip s) = strip s"
proof -
  let ?l = "dropWhile is_space s" and ?r = "dropWhile is_space (rev (dropWhile is_space s))"
  have "dropWhile is_space (rev ?r) = rev ?r"
  proof (cases "?r = []")
    case False
    have "\<exists>pre. rev ?l = pre @ ?r" by (metis takeWhile_dropWhile_id)
    then obtain pre where "rev ?l = pre @ ?r" ..
    then have l: "?l = rev ?r @ rev pre" by (metis rev_append rev_rev_ident)
    have r: "rev ?r \<noteq> []" using False by simp
    with l have "?l \<noteq> []" "hd ?l = hd (rev ?r)" by (metis append_is_Nil_conv, metis hd_append2)
    with hd_dropWhile [of is_space s] have "\<not> is_space (hd (rev ?r))" by metis
    then show ?thesis by (rule dropWhile_hd [OF r])
  next
    case True
    show ?thesis by (simp only: True rev.simps(1) dropWhile.simps(1))
  qed
  then show ?thesis
    by (simp add: strip_def rstrip_by_def lstrip_by_def dropWhile_idem)
qed

text \<open>The rows a batch adds, numbered from the counter on.\<close>

fun value_rows :: "int \<Rightarrow> int \<Rightarrow> bool \<Rightarrow> string list \<Rightarrow> item_value list" where
  "value_rows k i b [] = []"
| "value_rows k i b (v # vs) =
     \<lparr>iv_id = k + 1, iv_item_id = i, iv_value = Some v, iv_is_infinity = b, iv_status = AVAILABLE,
       iv_reserved_order_id = None\<rparr> # value_rows (k + 1) i b vs"

lemma fold_add_value_row:
  "fold (add_value_row i b) vs s =
     s\<lparr>t_item_values := t_item_values s @ value_rows (t_seq s) i b vs, t_seq := t_seq s + int (length vs)\<rparr>"
  by (induction vs arbitrary: s) (simp_all add: add_value_row_def next_id_def)

lemma fold_create_task:
  "fold (\<lambda>x. safe_create_task (f x)) xs s = s\<lparr>t_tasks := t_tasks s @ map f xs\<rparr>"
  by (induction xs arbitrary: s) (simp_all add: safe_create_task_def)

lemma value_rows_values [simp]: "map iv_value (value_rows k i b vs) = map Some vs"
  by (induction vs arbitrary: k) auto

lemma length_value_rows [simp]: "length (value_rows k i b vs) = length vs"
  by (induction vs arbitrary: k) auto

lemma value_rows_member:
  "r \<in> set (value_rows k i b vs) \<Longrightarrow>
     iv_item_id r = i \<and> iv_is_infinity r = b \<and> iv_status r = AVAILABLE \<and> iv_reserved_order_id r = None \<and>
     k < iv_id r \<and> iv_id r \<le> k + int (length vs)"
  by (induction vs arbitrary: k) fastforce+

lemma value_rows_distinct: "distinct (map iv_id (value_rows k i b vs))"
  by (induction vs arbitrary: k) (fastforce dest: value_rows_member)+

lemma value_rows_filter:
  "filter (\<lambda>v. iv_item_id v = j) (value_rows k i b vs) = (if j = i then value_rows k i b vs else [])"
  by (induction vs arbitrary: k) auto

subsection \<open>Properties\<close>

definition stock_of :: "shop \<Rightarrow> int \<Rightarrow> item_value list" where
  "stock_of s k = filter (\<lambda>v. iv_item_id v = k) (t_item_values s)"

text \<open>Some row other than an order or a purchase refers to the product.\<close>

definition refers_to :: "shop \<Rightarrow> int \<Rightarrow> bool" where
  "refers_to s k \<longleftrightarrow> stock_of s k \<noteq> [] \<or> list_ex (\<lambda>c. ci_item_id c = k) (t_cart s) \<or>
     list_ex (\<lambda>r. rv_item_id r = k) (t_reviews s) \<or> list_ex (\<lambda>r. ss_item_id r = k) (t_subs s) \<or>
     list_ex (\<lambda>l. gpl_goods_id l = k) (t_links s) \<or> list_ex (\<lambda>p. pc_item_id p = Some k) (t_promos s)"

lemma normalize_values_keep_first:
  "normalize_values vs = (keep_first (nonblank vs), length (nonblank vs) - length (keep_first (nonblank vs)),
      length vs - length (nonblank vs))"
proof -
  have "nonblank [] = []" "keep_first ([] :: string list) = []" by (simp_all add: nonblank_def keep_first_def)
  then show ?thesis using normalize_loop_spec [of vs "[]"] by (simp add: normalize_values_def Let_def)
qed

theorem normalize_values_reference:
  "normalize_values vs = (keep_first (nonblank vs), length (nonblank vs) - length (keep_first (nonblank vs)),
      length vs - length (nonblank vs)) \<and>
   normalize_values (fst (normalize_values vs)) = (fst (normalize_values vs), 0, 0)"
proof -
  have "nonblank (keep_first (nonblank vs)) = keep_first (nonblank vs)"
  proof -
    let ?k = "keep_first (nonblank vs)"
    have "map strip ?k = ?k" by (rule map_idI) (auto simp: nonblank_def)
    moreover have "filter (\<lambda>v. v \<noteq> []) ?k = ?k" by (rule filter_True) (auto simp: nonblank_def)
    ultimately show ?thesis unfolding nonblank_def [of ?k] by simp
  qed
  then show ?thesis by (simp add: normalize_values_keep_first keep_first_distinct)
qed

lemma replace_body_Inr:
  assumes "replace_body old new d price cat vs endless s = Inr ((n, oc), s')"
  obtains g cid cents where "goods_by_name s old = Some g" "category_id_by_name s cat = Some cid"
    "new \<noteq> old \<longrightarrow> goods_id_by_name s new = None" "rub_to_cents price = Inr cents"
    "n = length (if endless then take 1 vs else vs)"
    "s' = (if new \<noteq> old then rename_bought old new else id)
       (put_goods (g\<lparr>g_name := new, g_description := d, g_price := cents, g_category_id := cid\<rparr>)
        (s\<lparr>t_item_values := filter (\<lambda>v. iv_item_id v \<noteq> g_id g) (t_item_values s) @
             value_rows (t_seq s) (g_id g) endless (if endless then take 1 vs else vs),
           t_seq := t_seq s + int n\<rparr>))"
proof -
  let ?vs = "if endless then take 1 vs else vs"
  obtain g where g: "goods_by_name s old = Some g"
    using assms by (cases "goods_by_name s old") (simp_all add: replace_body_def)
  obtain cid where cid: "category_id_by_name s cat = Some cid"
    using assms g by (cases "category_id_by_name s cat") (simp_all add: replace_body_def)
  have "\<not> (new \<noteq> old \<and> goods_id_by_name s new \<noteq> None)"
  proof
    assume "new \<noteq> old \<and> goods_id_by_name s new \<noteq> None"
    with assms g cid show False by (simp add: replace_body_def)
  qed
  then have new: "new \<noteq> old \<longrightarrow> goods_id_by_name s new = None" by blast
  have no_clash: "(new \<noteq> old \<and> goods_id_by_name s new \<noteq> None) = False" using new by auto
  obtain cents where cents: "rub_to_cents price = Inr cents"
    using assms g cid new by (cases "rub_to_cents price") (simp_all only: replace_body_def Let_def option.case no_clash if_False tx_bind_Inl sum.distinct)
  have "n = length ?vs"
    "s' = (if new \<noteq> old then rename_bought old new else id)
       (put_goods (g\<lparr>g_name := new, g_description := d, g_price := cents, g_category_id := cid\<rparr>)
        (s\<lparr>t_item_values := filter (\<lambda>v. iv_item_id v \<noteq> g_id g) (t_item_values s) @
             value_rows (t_seq s) (g_id g) endless ?vs, t_seq := t_seq s + int n\<rparr>))"
    using assms by (simp_all only: replace_body_def Let_def fold_add_value_row g cid cents option.case no_clash if_False tx_bind_Inr) auto
  then show thesis by (rule that [OF g cid new cents])
qed

text \<open>What a replacement leaves of the stock, as a function of the product.\<close>

lemma stock_of_replaced:
  "stock_of (s\<lparr>t_item_values := filter (\<lambda>v. iv_item_id v \<noteq> i) (t_item_values s) @ value_rows k i b vs, t_seq := q\<rparr>) =
     (stock_of s)(i := value_rows k i b vs)"
  by (rule ext) (auto simp: stock_of_def value_rows_filter filter_empty_conv intro!: filter_cong)

lemma stock_of_frame [simp]:
  "stock_of (safe_create_task t s) = stock_of s" "stock_of (put_goods g s) = stock_of s"
  "stock_of (rename_bought a b s) = stock_of s" "stock_of (s\<lparr>t_tasks := ts\<rparr>) = stock_of s"
  by (simp_all add: stock_of_def safe_create_task_def put_goods_def rename_bought_def fun_eq_iff)

theorem replace_stock_exact:
  assumes "replace_item_stock_and_meta old new d price cat vs endless s = ((ok, err, n), s')"
  defines "kept \<equiv> (if endless then take 1 (keep_first (nonblank vs)) else keep_first (nonblank vs))"
  shows "if ok
    then \<exists>g rows. goods_by_name s old = Some g \<and> stock_of s' = (stock_of s)(g_id g := rows) \<and>
      map iv_value rows = map Some kept \<and>
      list_all (\<lambda>v. iv_status v = AVAILABLE \<and> iv_is_infinity v = endless \<and> iv_reserved_order_id v = None) rows \<and>
      n = length kept \<and> (new = old \<or> goods_id_by_name s new = None) \<and>
      map bg_item_name (t_bought s') = map (\<lambda>b. if b = old then new else b) (map bg_item_name (t_bought s)) \<and>
      t_users s' = t_users s \<and> t_orders s' = t_orders s \<and> t_cart s' = t_cart s
    else n = 0 \<and> s'\<lparr>t_audit := t_audit s\<rparr> = s"
proof -
  note kept = normalize_values_keep_first [of vs]
  let ?body = "replace_body old new d price cat (keep_first (nonblank vs)) endless"
  show ?thesis
  proof (cases "run_session ?body s")
    case (Inl err)
    with assms(1) show ?thesis
      by (cases err) (auto simp: replace_item_stock_and_meta_def kept log_audit_def)
  next
    case (Inr r)
    then obtain m oc s1 where r: "r = ((m, oc), s1)" by (metis surj_pair)
    with Inr have "?body s = Inr ((m, oc), s1)" by (simp add: run_session_Inr)
    then obtain g cid cents where g: "goods_by_name s old = Some g"
      and new: "new \<noteq> old \<longrightarrow> goods_id_by_name s new = None" and m: "m = length kept"
      and s1: "s1 = (if new \<noteq> old then rename_bought old new else id)
       (put_goods (g\<lparr>g_name := new, g_description := d, g_price := cents, g_category_id := cid\<rparr>)
        (s\<lparr>t_item_values := filter (\<lambda>v. iv_item_id v \<noteq> g_id g) (t_item_values s) @
             value_rows (t_seq s) (g_id g) endless kept, t_seq := t_seq s + int m\<rparr>))"
      unfolding kept_def by (rule replace_body_Inr) (blast intro: that)
    from assms(1) have ok: "ok" "n = m" and s': "\<exists>ts. s' = s1\<lparr>t_tasks := ts\<rparr>"
      by (auto simp: replace_item_stock_and_meta_def kept Inr r fold_create_task safe_create_task_def)
    have "stock_of s' = (stock_of s)(g_id g := value_rows (t_seq s) (g_id g) endless kept)"
      using s' by (auto simp: s1 stock_of_replaced)
    moreover have "map bg_item_name (t_bought s') = map (\<lambda>b. if b = old then new else b) (map bg_item_name (t_bought s))"
      "t_users s' = t_users s" "t_orders s' = t_orders s" "t_cart s' = t_cart s"
      using s' by (auto simp: s1 rename_bought_def put_goods_def)
    moreover have "list_all (\<lambda>v. iv_status v = AVAILABLE \<and> iv_is_infinity v = endless \<and> iv_reserved_order_id v = None)
        (value_rows (t_seq s) (g_id g) endless kept)"
      by (auto simp: list_all_iff dest: value_rows_member)
    ultimately show ?thesis using ok g new m by auto
  qed
qed


text \<open>Deleting the rows of one product.\<close>

definition without_goods :: "int \<Rightarrow> shop \<Rightarrow> shop" where
  "without_goods i s = s\<lparr>t_goods := filter (\<lambda>g. g_id g \<noteq> i) (t_goods s),
     t_item_values := filter (\<lambda>v. iv_item_id v \<noteq> i) (t_item_values s),
     t_cart := filter (\<lambda>c. ci_item_id c \<noteq> i) (t_cart s),
     t_reviews := filter (\<lambda>r. rv_item_id r \<noteq> i) (t_reviews s),
     t_subs := filter (\<lambda>r. ss_item_id r \<noteq> i) (t_subs s),
     t_links := filter (\<lambda>l. gpl_goods_id l \<noteq> i) (t_links s),
     t_promos := map (\<lambda>p. if pc_item_id p = Some i then p\<lparr>pc_item_id := None\<rparr> else p) (t_promos s)\<rparr>"

lemma delete_goods_one:
  assumes "g \<in> set (t_goods s)"
  shows "delete_goods_rows (\<lambda>x. g_id x = g_id g) s =
    (if list_ex (\<lambda>x. o_goods_id x = g_id g) (t_orders s) then Inl (IntegrityError ''orders_goods_id_fkey'')
     else Inr (without_goods (g_id g) s))"
proof -
  let ?ids = "map g_id (filter (\<lambda>x. g_id x = g_id g) (t_goods s))"
  have ids: "set ?ids = {g_id g}" using assms by auto
  have ex: "list_ex P ?ids = P (g_id g)" for P
    unfolding list_ex_iff ids by simp
  show ?thesis unfolding delete_goods_rows_def Let_def ids ex by (simp add: without_goods_def)
qed

lemma list_all_filter: "list_all P xs \<Longrightarrow> list_all P (filter Q xs)"
  by (auto simp: list_all_iff)

lemma without_goods_checks: "check_violation s = None \<Longrightarrow> check_violation (without_goods i s) = None"
  unfolding check_violation_None without_goods_def by (auto simp: list_all_iff promo_check_def)

lemma without_goods_gone: "get_goods (without_goods i s) i = None" "\<not> refers_to (without_goods i s) i"
  by (auto simp: without_goods_def get_goods_def find_by_None_iff refers_to_def stock_of_def list_ex_iff)

lemma unbound_promo_rejected:
  "pc_scope p = ItemScope \<Longrightarrow> pc_item_id p = None \<Longrightarrow>
     promo_rule_error r now (Some p) uid goods False used tot \<noteq> None"
  by (simp add: promo_rule_error_def)

text \<open>C19: Deleting a product that any order refers to always ends in an integrity error, which nothing
  catches; otherwise the product goes together with everything that refers to it, users, purchases
  and orders stay as they are, and a promo code limited to that product is left with no product
  and can never discount a purchase again.\<close>
theorem delete_item_outcome:
  assumes "check_violation s = None" "goods_by_name s name = Some g"
  shows "if list_ex (\<lambda>x. o_goods_id x = g_id g) (t_orders s)
    then delete_item name s = Inl (IntegrityError ''orders_goods_id_fkey'')
    else \<exists>s'. delete_item name s = Inr ((), s') \<and> get_goods s' (g_id g) = None \<and> \<not> refers_to s' (g_id g) \<and>
      t_users s' = t_users s \<and> t_bought s' = t_bought s \<and> t_orders s' = t_orders s \<and>
      (\<forall>p \<in> set (t_promos s). pc_item_id p = Some (g_id g) \<and> pc_scope p = ItemScope \<longrightarrow>
         p\<lparr>pc_item_id := None\<rparr> \<in> set (t_promos s') \<and>
         (\<forall>r now uid goods used tot.
            promo_rule_error r now (Some (p\<lparr>pc_item_id := None\<rparr>)) uid goods False used tot \<noteq> None))"
proof -
  let ?s0 = "s\<lparr>t_item_values := filter (\<lambda>v. iv_item_id v \<noteq> g_id g) (t_item_values s)\<rparr>"
  let ?c = "map_option c_name (get_category s (g_category_id g))"
  have g: "g \<in> set (t_goods ?s0)" using assms(2) by (auto simp: goods_by_name_def dest: find_by_Some_mem)
  have body: "delete_item_body name s = (if list_ex (\<lambda>x. o_goods_id x = g_id g) (t_orders s)
      then Inl (IntegrityError ''orders_goods_id_fkey'') else Inr (?c, without_goods (g_id g) ?s0))"
    by (simp add: delete_item_body_def assms(2) Let_def delete_goods_one [OF g])
  have eq: "without_goods (g_id g) ?s0 = without_goods (g_id g) s"
    by (simp add: without_goods_def)
  show ?thesis
  proof (cases "list_ex (\<lambda>x. o_goods_id x = g_id g) (t_orders s)")
    case True
    then show ?thesis by (simp add: delete_item_def body run_session_Inl_body)
  next
    case False
    with without_goods_checks [OF assms(1)]
    have "run_session (delete_item_body name) s = Inr (?c, without_goods (g_id g) s)"
      by (simp add: run_session_Inr body eq)
    then obtain ts where "delete_item name s = Inr ((), (without_goods (g_id g) s)\<lparr>t_tasks := ts\<rparr>)"
      by (cases "truthy_str ?c") (simp_all add: delete_item_def Let_def safe_create_task_def)
    moreover have "p\<lparr>pc_item_id := None\<rparr> \<in> set (t_promos (without_goods (g_id g) s))"
      if "p \<in> set (t_promos s)" "pc_item_id p = Some (g_id g)" for p
      using that by (force simp: without_goods_def)
    moreover have "t_users (without_goods k s) = t_users s" "t_bought (without_goods k s) = t_bought s"
      "t_orders (without_goods k s) = t_orders s" for k
      by (simp_all add: without_goods_def)
    moreover have "get_goods (x\<lparr>t_tasks := ts\<rparr>) k = get_goods x k" "refers_to (x\<lparr>t_tasks := ts\<rparr>) k = refers_to x k" for x k
      by (simp_all add: get_goods_def refers_to_def)
    ultimately show ?thesis using False without_goods_gone [of "g_id g" s] unbound_promo_rejected by simp
  qed
qed

definition sample_catalog :: shop where
  "sample_catalog = sample_shop\<lparr>t_categories := [\<lparr>c_id = 7, c_name = ''games''\<rparr>],
     t_promos := [sample_promo\<lparr>pc_scope := ItemScope, pc_category_id := None, pc_item_id := Some 3\<rparr>]\<rparr>"

lemma delete_item_outcome_witness:
  "\<exists>s'. delete_item ''key'' sample_catalog = Inr ((), s') \<and> get_goods s' 3 = None \<and> \<not> refers_to s' 3"
proof -
  let ?g = "sample_goods 3 ''key'' 1999 FulfillStock"
  have "check_violation sample_catalog = None" by code_simp
  moreover have "goods_by_name sample_catalog ''key'' = Some ?g" by code_simp
  moreover have "t_orders sample_catalog = []" "g_id ?g = 3" by code_simp+
  ultimately show ?thesis using delete_item_outcome [of sample_catalog "''key''" ?g] by auto
qed

lemma replace_stock_exact_witness:
  "\<exists>s' rows. replace_item_stock_and_meta ''key'' ''key2'' ''d'' \<lparr>mantissa = 20, exponent = 0\<rparr> ''games''
       ['' a'', ''b'', ''a''] False sample_catalog = ((True, None, 2), s') \<and>
     stock_of s' = (stock_of sample_catalog)(3 := rows) \<and> map iv_value rows = [Some ''a'', Some ''b'']"
proof -
  let ?r = "replace_item_stock_and_meta ''key'' ''key2'' ''d'' \<lparr>mantissa = 20, exponent = 0\<rparr> ''games''
       ['' a'', ''b'', ''a''] False sample_catalog"
  have f: "fst ?r = (True, None, 2)" by code_simp
  have k: "keep_first (nonblank ['' a'', ''b'', ''a'']) = [''a'', ''b'']" by code_simp
  have g: "map_option g_id (goods_by_name sample_catalog ''key'') = Some 3" by code_simp
  from f obtain s' where r: "?r = ((True, None, 2), s')" by (cases ?r) auto
  have "\<exists>rows. stock_of s' = (stock_of sample_catalog)(3 := rows) \<and> map iv_value rows = [Some ''a'', Some ''b'']"
    using replace_stock_exact [OF r] k g by auto
  then obtain rows where "stock_of s' = (stock_of sample_catalog)(3 := rows) \<and> map iv_value rows = [Some ''a'', Some ''b'']" ..
  with r show ?thesis by (intro exI [of _ s'] exI [of _ rows]) simp
qed

end
