(* ===== verification/Cart.thy ===== *)
theory Cart
  imports Catalog Purchases
begin

text \<open>
  The shopping cart: \<open>add_to_cart\<close> (\<open>create.py\<close>), the quantity and promo steps (\<open>update.py\<close>), removal
  (\<open>delete.py\<close>), the queries (\<open>read.py\<close>) and the handlers of \<open>bot/handlers/user/cart.py\<close> with the
  total they display.  A handler returns the key of the text it answers with; \<open>None\<close> is the silent
  \<open>call.answer()\<close>.
\<close>

subsection \<open>Changing the cart\<close>

definition CART_MAX_ITEMS :: nat where "CART_MAX_ITEMS = 10"
definition CART_MAX_QTY_PER_ITEM :: int where "CART_MAX_QTY_PER_ITEM = 99"

definition cart_line_of :: "shop \<Rightarrow> int \<Rightarrow> int \<Rightarrow> cart_item option" where
  "cart_line_of s user_id item_id = List.find (\<lambda>c. ci_user_id c = user_id \<and> ci_item_id c = item_id) (t_cart s)"

definition add_to_cart_body ::
    "int \<Rightarrow> string \<Rightarrow> string option \<Rightarrow> int \<Rightarrow> shop \<Rightarrow> ((bool \<times> string) \<times> shop) result" where
  "add_to_cart_body user_id item_name promo_code quantity s =
     (case goods_id_by_name s item_name of
        None \<Rightarrow> Inr ((False, ''item_not_found''), s)
      | Some item_id \<Rightarrow>
         (case cart_line_of s user_id item_id of
            Some existing \<Rightarrow>
              if CART_MAX_QTY_PER_ITEM < ci_quantity existing + quantity then Inr ((False, ''cart_qty_max''), s)
              else Inr ((True, ''success''), put_cart_item
                (existing\<lparr>ci_quantity := ci_quantity existing + quantity,
                   ci_promo_code := if truthy_str promo_code then promo_code else ci_promo_code existing\<rparr>) s)
          | None \<Rightarrow>
              if CART_MAX_ITEMS \<le> length (filter (\<lambda>c. ci_user_id c = user_id) (t_cart s))
              then Inr ((False, ''cart_full''), s)
              else if get_user s user_id = None then Inl (IntegrityError ''cart_items_user_id_fkey'')
              else Inr ((True, ''success''), s\<lparr>t_cart := t_cart s @
                     [\<lparr>ci_id = next_id s, ci_user_id = user_id, ci_item_id = item_id, ci_promo_code = promo_code,
                        ci_quantity = quantity\<rparr>], t_seq := next_id s\<rparr>)))"

definition add_to_cart_once ::
    "int \<Rightarrow> string \<Rightarrow> string option \<Rightarrow> int \<Rightarrow> shop \<Rightarrow> ((bool \<times> string) \<times> shop) result" where
  "add_to_cart_once user_id item_name promo_code quantity =
     run_session (add_to_cart_body user_id item_name promo_code quantity)"

definition add_to_cart ::
    "int \<Rightarrow> string \<Rightarrow> string option \<Rightarrow> int \<Rightarrow> shop \<Rightarrow> ((bool \<times> string) \<times> shop) result" where
  "add_to_cart user_id item_name promo_code quantity s =
     (if quantity < 1 then Inr ((False, ''invalid_quantity''), s)
      else case add_to_cart_once user_id item_name promo_code quantity s of
             Inl (IntegrityError m) \<Rightarrow>
               (case add_to_cart_once user_id item_name promo_code quantity s of
                  Inl (IntegrityError m') \<Rightarrow> Inr ((False, ''cart_conflict''), s)
                | r \<Rightarrow> r)
           | r \<Rightarrow> r)"

text \<open>The cart line with the given id, if it belongs to the user.\<close>

definition own_cart_item :: "shop \<Rightarrow> int \<Rightarrow> int \<Rightarrow> cart_item option" where
  "own_cart_item s cart_item_id user_id =
     List.find (\<lambda>c. ci_id c = cart_item_id \<and> ci_user_id c = user_id) (t_cart s)"

definition set_cart_item_quantity ::
    "int \<Rightarrow> int \<Rightarrow> int \<Rightarrow> shop \<Rightarrow> ((bool \<times> string \<times> int) \<times> shop) result" where
  "set_cart_item_quantity cart_item_id user_id delta =
     run_session (\<lambda>s. case own_cart_item s cart_item_id user_id of
         None \<Rightarrow> Inr ((False, ''item_not_found'', 0), s)
       | Some row \<Rightarrow>
          (let new_qty = ci_quantity row + delta
           in if new_qty \<le> 0
              then Inr ((True, ''removed'', 0), s\<lparr>t_cart := filter (\<lambda>c. ci_id c \<noteq> ci_id row) (t_cart s)\<rparr>)
              else if CART_MAX_QTY_PER_ITEM < new_qty then Inr ((False, ''cart_qty_max'', ci_quantity row), s)
              else Inr ((True, ''success'', new_qty), put_cart_item (row\<lparr>ci_quantity := new_qty\<rparr>) s)))"

definition clear_cart_item_promo :: "int \<Rightarrow> int \<Rightarrow> shop \<Rightarrow> (bool \<times> shop) result" where
  "clear_cart_item_promo cart_item_id user_id =
     run_session (\<lambda>s.
       let hit = (\<lambda>c. ci_id c = cart_item_id \<and> ci_user_id c = user_id)
       in Inr (list_ex hit (t_cart s),
            s\<lparr>t_cart := map (\<lambda>c. if hit c then c\<lparr>ci_promo_code := None\<rparr> else c) (t_cart s)\<rparr>))"

definition remove_from_cart :: "int \<Rightarrow> int option \<Rightarrow> shop \<Rightarrow> (bool \<times> shop) result" where
  "remove_from_cart cart_item_id user_id =
     run_session (\<lambda>s.
       let hit = (\<lambda>c. ci_id c = cart_item_id \<and> (case user_id of None \<Rightarrow> True | Some u \<Rightarrow> ci_user_id c = u))
       in Inr (list_ex hit (t_cart s), s\<lparr>t_cart := filter (\<lambda>c. \<not> hit c) (t_cart s)\<rparr>))"

definition clear_cart :: "int \<Rightarrow> shop \<Rightarrow> (nat \<times> shop) result" where
  "clear_cart user_id =
     run_session (\<lambda>s.
       Inr (length (filter (\<lambda>c. ci_user_id c = user_id) (t_cart s)),
         s\<lparr>t_cart := filter (\<lambda>c. ci_user_id c \<noteq> user_id) (t_cart s)\<rparr>))"

subsection \<open>Reading the cart\<close>

text \<open>
  The lines with the current name of their product, the most recently added first; a line whose
  product is gone does not join.
\<close>

definition cart_line_row :: "shop \<Rightarrow> cart_item \<Rightarrow> cart_line option" where
  "cart_line_row s c = map_option (\<lambda>g. \<lparr>cl_id = ci_id c, cl_item_name = g_name g,
     cl_promo_code = ci_promo_code c, cl_quantity = ci_quantity c\<rparr>) (get_goods s (ci_item_id c))"

definition get_cart_items :: "shop \<Rightarrow> int \<Rightarrow> cart_line list" where
  "get_cart_items s user_id =
     List.map_filter (cart_line_row s) (rev (filter (\<lambda>c. ci_user_id c = user_id) (t_cart s)))"

definition get_cart_count :: "shop \<Rightarrow> int \<Rightarrow> int" where
  "get_cart_count s user_id = sum_list (map ci_quantity (filter (\<lambda>c. ci_user_id c = user_id) (t_cart s)))"

definition get_items_info :: "shop \<Rightarrow> string list \<Rightarrow> string \<Rightarrow> goods option" where
  "get_items_info s names n = (if n \<in> set names then goods_by_name s n else None)"

subsection \<open>The total the cart shows\<close>

record view_line =
  vl_id :: int
  vl_line_total :: int
  vl_discounted :: "int option"
  vl_on_sale :: bool
  vl_original :: int
  vl_promo :: "promo_code option"
  vl_qty :: int
  vl_unit_price :: int

text \<open>The first loop of \<open>_cart_view_data\<close>; \<open>eligible\<close> is \<open>promo is not None\<close>.\<close>

definition view_line_of ::
    "env \<Rightarrow> (string \<Rightarrow> goods option) \<Rightarrow> (int \<times> bool \<times> string \<times> promo_code option) list \<Rightarrow> cart_line \<Rightarrow> view_line option" where
  "view_line_of e info_map promo_results item =
     map_option (\<lambda>info.
       let (base_price, on_sale, original) = effective_price info (env_now e);
           promo = (case map_of promo_results (cl_id item) of
                      Some (True, _, p) \<Rightarrow> p | _ \<Rightarrow> None)
       in \<lparr>vl_id = cl_id item, vl_line_total = base_price * cl_quantity item, vl_discounted = None,
           vl_on_sale = on_sale, vl_original = original, vl_promo = promo, vl_qty = cl_quantity item,
           vl_unit_price = base_price\<rparr>) (info_map (cl_item_name item))"

definition view_has_promo :: "int \<Rightarrow> view_line \<Rightarrow> bool" where
  "view_has_promo pid v \<longleftrightarrow> map_option pc_id (vl_promo v) = Some pid"

definition view_less :: "view_line \<Rightarrow> view_line \<Rightarrow> bool" where
  "view_less a b \<longleftrightarrow> vl_line_total a < vl_line_total b \<or>
     vl_line_total a = vl_line_total b \<and> vl_id b < vl_id a"

fun best_view :: "view_line \<Rightarrow> view_line list \<Rightarrow> view_line" where
  "best_view b [] = b"
| "best_view b (l # ls) = best_view (if view_less b l then l else b) ls"

text \<open>The second loop: the code is spent on its dearest line.\<close>

definition spend_promo :: "int \<Rightarrow> view_line list \<Rightarrow> view_line list" where
  "spend_promo pid vs =
     (case filter (view_has_promo pid) vs of
        [] \<Rightarrow> vs
      | v # rest \<Rightarrow>
         (let best = best_view v rest;
              discounted = (case vl_promo best of None \<Rightarrow> vl_line_total best
                | Some p \<Rightarrow> apply_promo_discount (vl_unit_price best) (pc_discount_type p) (pc_discount_value p) (vl_qty best))
          in map (\<lambda>x. if vl_id x = vl_id best
                       then x\<lparr>vl_discounted := Some discounted, vl_line_total := discounted\<rparr> else x) vs))"

definition view_promo_ids :: "view_line list \<Rightarrow> int list" where
  "view_promo_ids vs = keep_first (List.map_filter (\<lambda>v. map_option pc_id (vl_promo v)) vs)"

definition cart_view_lines :: "env \<Rightarrow> shop \<Rightarrow> int \<Rightarrow> view_line list" where
  "cart_view_lines e s user_id =
     (let items = get_cart_items s user_id;
          info_map = get_items_info s (map cl_item_name items);
          promo_results = validate_promos_for_cart e s user_id items
            (\<lambda>n. map_option (\<lambda>g. (g_id g, g_category_id g, g_price g)) (info_map n));
          vs = List.map_filter (view_line_of e info_map promo_results) items
      in fold spend_promo (view_promo_ids vs) vs)"

definition cart_view_total :: "env \<Rightarrow> shop \<Rightarrow> int \<Rightarrow> int" where
  "cart_view_total e s user_id = sum_list (map vl_line_total (cart_view_lines e s user_id))"

text \<open>Which text a line of the rendered cart uses.\<close>

definition view_line_text :: "cart_line \<Rightarrow> view_line option \<Rightarrow> string" where
  "view_line_text item ld =
     (case ld of None \<Rightarrow> ''cart.item''
      | Some v \<Rightarrow>
          if vl_discounted v \<noteq> None then ''cart.item_promo''
          else if vl_promo v \<noteq> None then ''cart.item_promo_elsewhere''
          else if truthy_str (cl_promo_code item) then ''cart.item_promo_invalid''
          else if vl_on_sale v then ''cart.item_sale'' else ''cart.item'')"

subsection \<open>Handlers\<close>

text \<open>
  The handlers of the cart screen.  The number after the first colon of a callback is its line id;
  a callback that does not parse is refused before the database is touched.
\<close>

definition callback_int :: "nat \<Rightarrow> string \<Rightarrow> int option" where
  "callback_int i cb =
     (let parts = split_on (CHR '':'') cb
      in if length parts \<le> i then None
         else case parse_int (parts ! i) of Inl _ \<Rightarrow> None | Inr n \<Rightarrow> Some n)"

definition add_to_cart_handler ::
    "int \<Rightarrow> string option \<Rightarrow> string option \<Rightarrow> shop \<Rightarrow> (string option \<times> shop) result" where
  "add_to_cart_handler user_id csrf_item applied_promo s =
     (if \<not> truthy_str csrf_item then Inr (Some ''cart.item_not_found'', s)
      else tx_bind (add_to_cart user_id (the csrf_item) applied_promo 1 s) (\<lambda>((success, msg), s1).
        Inr (Some (if success then ''cart.added''
           else if msg = ''cart_full'' then ''cart.full''
           else if msg = ''item_not_found'' then ''cart.item_not_found''
           else if msg = ''cart_qty_max'' then ''cart.qty_max''
           else if msg = ''cart_conflict'' \<or> msg = ''invalid_quantity'' then ''errors.something_wrong''
           else msg), s1)))"

definition cart_qty_handler :: "string \<Rightarrow> int \<Rightarrow> shop \<Rightarrow> (string option \<times> shop) result" where
  "cart_qty_handler cb user_id s =
     (case (callback_int 1 cb, callback_int 2 cb) of
        (Some cart_item_id, Some delta) \<Rightarrow>
          tx_bind (set_cart_item_quantity cart_item_id user_id delta s) (\<lambda>((ok, code, _), s1).
            Inr (if \<not> ok then Some (if code = ''item_not_found'' then ''cart.item_not_found''
                                     else if code = ''cart_qty_max'' then ''cart.qty_max'' else code)
                 else if code = ''removed'' then Some ''cart.removed'' else None, s1))
      | _ \<Rightarrow> Inr (Some ''errors.invalid_data'', s))"

definition remove_cart_item_handler :: "string \<Rightarrow> int \<Rightarrow> shop \<Rightarrow> (string option \<times> shop) result" where
  "remove_cart_item_handler cb user_id s =
     (case callback_int 1 cb of
        None \<Rightarrow> Inr (Some ''errors.invalid_data'', s)
      | Some cart_item_id \<Rightarrow>
          tx_bind (remove_from_cart cart_item_id (Some user_id) s) (\<lambda>(removed, s1).
            Inr (Some (if removed then ''cart.removed'' else ''cart.item_not_found''), s1)))"

definition cart_remove_promo_handler :: "string \<Rightarrow> int \<Rightarrow> shop \<Rightarrow> (string option \<times> shop) result" where
  "cart_remove_promo_handler cb user_id s =
     (case callback_int 1 cb of
        None \<Rightarrow> Inr (Some ''errors.invalid_data'', s)
      | Some cart_item_id \<Rightarrow>
          tx_bind (clear_cart_item_promo cart_item_id user_id s) (\<lambda>(cleared, s1).
            Inr (Some (if cleared then ''promo.removed'' else ''cart.item_not_found''), s1)))"

definition clear_cart_handler :: "int \<Rightarrow> shop \<Rightarrow> (string option \<times> shop) result" where
  "clear_cart_handler user_id s = tx_bind (clear_cart user_id s) (\<lambda>(_, s1). Inr (Some ''cart.cleared'', s1))"

text \<open>Asking for confirmation remembers the total that is shown; confirming passes it on.\<close>

definition cart_checkout_handler :: "env \<Rightarrow> int \<Rightarrow> shop \<Rightarrow> int \<times> int" where
  "cart_checkout_handler e user_id s =
     (sum_list (map cl_quantity (get_cart_items s user_id)), cart_view_total e s user_id)"

definition checkout_reason :: "string \<Rightarrow> string" where
  "checkout_reason msg =
     (if msg = ''user_not_found'' then ''User not found''
      else if msg = ''cart_empty'' then ''cart.empty''
      else if msg = ''cart_items_unavailable'' then ''cart.items_unavailable''
      else if msg = ''out_of_stock'' then ''cart.out_of_stock''
      else if msg = ''insufficient_funds'' then ''shop.insufficient_funds''
      else if msg = ''transaction_error'' then ''errors.something_wrong''
      else if msg = ''price_changed'' then ''cart.price_changed''
      else msg)"

definition cart_checkout_confirm_handler ::
    "env \<Rightarrow> int \<Rightarrow> int option \<Rightarrow> shop \<Rightarrow> (string + receipt_row list) \<times> shop" where
  "cart_checkout_confirm_handler e user_id cart_expected_total s =
     (case checkout_cart_transaction e user_id cart_expected_total s of
        ((False, msg, _), s1) \<Rightarrow> (Inl (checkout_reason msg), s1)
      | ((True, _, results), s1) \<Rightarrow>
          (Inr (case results of None \<Rightarrow> [] | Some rs \<Rightarrow> rs),
           log_audit ''cart_checkout'' ''INFO'' (Some user_id) (Some ''Cart'') None s1))"

subsection \<open>The receipt\<close>

definition RECEIPT_MAX_BUTTONS :: nat where "RECEIPT_MAX_BUTTONS = 10"

text \<open>
  The buttons of the receipt: the name, its number among the shown units of the same product when
  there are several, and the row it opens.
\<close>

fun receipt_buttons :: "(string \<Rightarrow> nat) \<Rightarrow> (string \<Rightarrow> nat) \<Rightarrow> receipt_row list \<Rightarrow> (string \<times> nat option \<times> int) list" where
  "receipt_buttons per_name shown [] = []"
| "receipt_buttons per_name shown (r # rs) =
     (let name = rr_item_name r; shown' = shown(name := shown name + 1)
      in (name, if per_name name = 1 then None else Some (shown' name), rr_bought_id r)
         # receipt_buttons per_name shown' rs)"

definition receipt_keyboard :: "receipt_row list \<Rightarrow> (string \<times> nat option \<times> int) list \<times> bool" where
  "receipt_keyboard results =
     (receipt_buttons (\<lambda>n. length (filter (\<lambda>r. rr_item_name r = n) results)) (\<lambda>_. 0)
        (take RECEIPT_MAX_BUTTONS results),
      RECEIPT_MAX_BUTTONS < length results)"

subsection \<open>Limits\<close>

text \<open>
  The shape of the cart table: one line per user and product, between one and 99 units on a line, at
  most ten lines per user.
\<close>

definition cart_ok :: "shop \<Rightarrow> bool" where
  "cart_ok s \<longleftrightarrow> distinct (map ci_id (t_cart s)) \<and>
     distinct (map (\<lambda>c. (ci_user_id c, ci_item_id c)) (t_cart s)) \<and>
     (\<forall>c \<in> set (t_cart s). 1 \<le> ci_quantity c \<and> ci_quantity c \<le> CART_MAX_QTY_PER_ITEM \<and> ci_id c \<le> t_seq s) \<and>
     (\<forall>u. length (cart_of s u) \<le> CART_MAX_ITEMS)"

datatype cart_op =
    AddToCart int string "string option" int
  | SetQuantity int int int
  | ClearPromo int int
  | RemoveLine int int
  | ClearCart int

definition cart_op_result :: "cart_op \<Rightarrow> shop \<Rightarrow> (unit \<times> shop) result" where
  "cart_op_result c s = (case c of
     AddToCart u n p q \<Rightarrow> tx_bind (add_to_cart u n p q s) (\<lambda>(_, s1). Inr ((), s1))
   | SetQuantity k u d \<Rightarrow> tx_bind (set_cart_item_quantity k u d s) (\<lambda>(_, s1). Inr ((), s1))
   | ClearPromo k u \<Rightarrow> tx_bind (clear_cart_item_promo k u s) (\<lambda>(_, s1). Inr ((), s1))
   | RemoveLine k u \<Rightarrow> tx_bind (remove_from_cart k (Some u) s) (\<lambda>(_, s1). Inr ((), s1))
   | ClearCart u \<Rightarrow> tx_bind (clear_cart u s) (\<lambda>(_, s1). Inr ((), s1)))"

text \<open>A request that raises leaves the shop as it was.\<close>

definition run_cart_op :: "cart_op \<Rightarrow> shop \<Rightarrow> shop" where
  "run_cart_op c s = (case cart_op_result c s of Inl _ \<Rightarrow> s | Inr (_, s1) \<Rightarrow> s1)"

fun cart_op_user :: "cart_op \<Rightarrow> int" where
  "cart_op_user (AddToCart u n p q) = u"
| "cart_op_user (SetQuantity k u d) = u"
| "cart_op_user (ClearPromo k u) = u"
| "cart_op_user (RemoveLine k u) = u"
| "cart_op_user (ClearCart u) = u"

lemma cart_ok_filter: "cart_ok s \<Longrightarrow> cart_ok (s\<lparr>t_cart := filter P (t_cart s)\<rparr>)"
proof -
  assume ok: "cart_ok s"
  have "cart_of (s\<lparr>t_cart := filter P (t_cart s)\<rparr>) u = filter P (cart_of s u)" for u
    by (simp add: cart_of_def conj_commute)
  then have "length (cart_of (s\<lparr>t_cart := filter P (t_cart s)\<rparr>) u) \<le> length (cart_of s u)" for u
    by simp
  with ok show ?thesis
    by (auto simp: cart_ok_def distinct_map_filter intro: order_trans)
qed

text \<open>Rewriting one's own line, and nothing but its quantity and code.\<close>

lemma cart_ok_put:
  assumes "cart_ok s" "c \<in> set (t_cart s)" "ci_id d = ci_id c" "ci_user_id d = ci_user_id c"
    "ci_item_id d = ci_item_id c" "1 \<le> ci_quantity d" "ci_quantity d \<le> CART_MAX_QTY_PER_ITEM"
  shows "cart_ok (put_cart_item d s)"
    and "u \<noteq> ci_user_id c \<Longrightarrow> cart_of (put_cart_item d s) u = cart_of s u"
proof -
  have same: "x = c" if "x \<in> set (t_cart s)" "ci_id x = ci_id d" for x
    using that assms(1-3) by (auto simp: cart_ok_def distinct_map inj_on_def)
  have users: "map f (put_by ci_id d (t_cart s)) = map f (t_cart s)"
    if "f d = f c" for f :: "cart_item \<Rightarrow> 'a"
    using same that by (auto simp: put_by_def)
  have "length (cart_of (put_cart_item d s) v) = length (cart_of s v)" for v
    using arg_cong [OF users [of ci_user_id, OF assms(4)], of "\<lambda>us. length (filter (\<lambda>u. u = v) us)"]
    by (simp add: cart_of_def put_cart_item_def filter_map comp_def)
  moreover have "1 \<le> ci_quantity x \<and> ci_quantity x \<le> CART_MAX_QTY_PER_ITEM \<and> ci_id x \<le> t_seq s"
    if "x \<in> set (put_by ci_id d (t_cart s))" for x
  proof -
    have "x \<in> set (t_cart s) \<or> x = d" using that set_put by fastforce
    with assms show ?thesis by (auto simp: cart_ok_def)
  qed
  ultimately show "cart_ok (put_cart_item d s)"
    using assms(1) users [of ci_id] users [of "\<lambda>c. (ci_user_id c, ci_item_id c)"] assms(3-5)
    by (simp add: cart_ok_def put_cart_item_def)
  show "u \<noteq> ci_user_id c \<Longrightarrow> cart_of (put_cart_item d s) u = cart_of s u"
  proof -
    assume u: "u \<noteq> ci_user_id c"
    have "filter (\<lambda>x. ci_user_id x = u) (put_by ci_id d xs) = filter (\<lambda>x. ci_user_id x = u) xs"
      if "set xs \<subseteq> set (t_cart s)" for xs
      using that same u assms(4) by (induction xs) auto
    then show ?thesis by (simp add: cart_of_def put_cart_item_def)
  qed
qed


lemma cart_line_of_mem:
  "cart_line_of s u i = Some c \<Longrightarrow> c \<in> set (t_cart s) \<and> ci_user_id c = u \<and> ci_item_id c = i"
  by (auto simp: cart_line_of_def find_Some_iff) 

lemma cart_line_of_none:
  "cart_line_of s u i = None \<Longrightarrow> (u, i) \<notin> (\<lambda>c. (ci_user_id c, ci_item_id c)) ` set (t_cart s)"
  by (auto simp: cart_line_of_def find_None_iff)

lemma cart_ok_add:
  assumes "cart_ok s" "cart_line_of s u i = None" "1 \<le> q" "q \<le> CART_MAX_QTY_PER_ITEM"
    and "length (cart_of s u) < CART_MAX_ITEMS"
  shows "cart_ok (s\<lparr>t_cart := t_cart s @ [\<lparr>ci_id = next_id s, ci_user_id = u, ci_item_id = i, ci_promo_code = p,
      ci_quantity = q\<rparr>], t_seq := next_id s\<rparr>)"
proof -
  have "next_id s \<notin> ci_id ` set (t_cart s)" using assms(1) by (fastforce simp: cart_ok_def next_id_def)
  with assms cart_line_of_none [OF assms(2)] show ?thesis
    by (auto simp: cart_ok_def next_id_def cart_of_def)
qed

text \<open>A line added to the cart is within the limit because a request asks for few units.\<close>

lemma cart_op_ok:
  assumes ok: "cart_ok s" and r: "cart_op_result c s = Inr ((), s')"
    and q: "\<And>u n p q. c = AddToCart u n p q \<Longrightarrow> q \<le> CART_MAX_QTY_PER_ITEM"
  shows "cart_ok s' \<and> (\<forall>u. u \<noteq> cart_op_user c \<longrightarrow> cart_of s' u = cart_of s u)"
proof (cases c)
  case (AddToCart u n p q)
  with r obtain x where "add_to_cart u n p q s = Inr (x, s')" by (auto simp: cart_op_result_def tx_simps)
  then have "s' = s \<or> 1 \<le> q \<and> add_to_cart_body u n p q s = Inr (x, s')"
    by (auto simp: add_to_cart_def add_to_cart_once_def run_session_Inr split: if_splits sum.splits exn.splits)
  then show ?thesis
  proof
    assume "s' = s"
    with ok show ?thesis by simp
  next
    assume b: "1 \<le> q \<and> add_to_cart_body u n p q s = Inr (x, s')"
    show ?thesis
    proof (cases "s' = s")
      case False
      with b obtain i where i: "goods_id_by_name s n = Some i"
        by (auto simp: add_to_cart_body_def split: option.splits)
      show ?thesis
      proof (cases "cart_line_of s u i")
        case None
        with b i False have "length (cart_of s u) < CART_MAX_ITEMS"
          "s' = s\<lparr>t_cart := t_cart s @ [\<lparr>ci_id = next_id s, ci_user_id = u, ci_item_id = i, ci_promo_code = p,
             ci_quantity = q\<rparr>], t_seq := next_id s\<rparr>"
          by (auto simp: add_to_cart_body_def cart_of_def split: if_splits)
        with cart_ok_add [OF ok None] b q [OF AddToCart] AddToCart show ?thesis
          by (auto simp: cart_of_def)
      next
        case (Some e)
        let ?d = "e\<lparr>ci_quantity := ci_quantity e + q,
          ci_promo_code := if truthy_str p then p else ci_promo_code e\<rparr>"
        have e: "e \<in> set (t_cart s)" "ci_user_id e = u" using cart_line_of_mem [OF Some] by auto
        then have "1 \<le> ci_quantity e" using ok by (simp add: cart_ok_def)
        moreover have "ci_quantity e + q \<le> CART_MAX_QTY_PER_ITEM" "s' = put_cart_item ?d s"
          using b i Some False by (auto simp: add_to_cart_body_def split: if_splits)
        ultimately show ?thesis
          using cart_ok_put [OF ok e(1), of ?d] b e(2) AddToCart by auto
      qed
    qed (use ok in simp)
  qed
next
  case (SetQuantity k u d)
  with r obtain x where r': "set_cart_item_quantity k u d s = Inr (x, s')" by (auto simp: cart_op_result_def tx_simps)
  show ?thesis
  proof (cases "own_cart_item s k u")
    case None
    with r' ok show ?thesis by (auto simp: set_cart_item_quantity_def run_session_Inr)
  next
    case (Some e)
    then have e: "e \<in> set (t_cart s)" "ci_user_id e = u" by (auto simp: own_cart_item_def find_Some_iff)
    have same: "x = e" if "x \<in> set (t_cart s)" "ci_id x = ci_id e" for x
      using that e ok by (auto simp: cart_ok_def distinct_map inj_on_def)
    have other: "cart_of (s\<lparr>t_cart := filter (\<lambda>c. ci_id c \<noteq> ci_id e) (t_cart s)\<rparr>) v = cart_of s v" if "v \<noteq> u" for v
      using same e that by (auto simp: cart_of_def intro!: filter_cong)
    note run = r' [unfolded set_cart_item_quantity_def run_session_Inr Some option.case Let_def]
    show ?thesis
    proof (cases "ci_quantity e + d \<le> 0")
      case True
      with run have "s' = s\<lparr>t_cart := filter (\<lambda>c. ci_id c \<noteq> ci_id e) (t_cart s)\<rparr>" by simp
      with other show ?thesis by (simp add: SetQuantity cart_ok_filter [OF ok])
    next
      case pos: False
      show ?thesis
      proof (cases "CART_MAX_QTY_PER_ITEM < ci_quantity e + d")
        case True
        with run pos ok show ?thesis by simp
      next
        case False
        let ?d = "e\<lparr>ci_quantity := ci_quantity e + d\<rparr>"
        from run pos False have s': "s' = put_cart_item ?d s" by simp
        have "cart_ok (put_cart_item ?d s)" by (rule cart_ok_put(1) [OF ok e(1)]) (use pos False in simp_all)
        moreover have "cart_of (put_cart_item ?d s) v = cart_of s v" if "v \<noteq> u" for v
          by (rule cart_ok_put(2) [OF ok e(1)]) (use pos False that e(2) in simp_all)
        ultimately show ?thesis by (simp add: SetQuantity s')
      qed
    qed
  qed
next
  case (ClearPromo k u)
  define f :: "cart_item \<Rightarrow> cart_item" where "f = (\<lambda>c. if ci_id c = k \<and> ci_user_id c = u then c\<lparr>ci_promo_code := None\<rparr> else c)"
  from ClearPromo r have s': "s' = s\<lparr>t_cart := map f (t_cart s)\<rparr>"
    by (auto simp: cart_op_result_def clear_cart_item_promo_def tx_simps Let_def f_def)
  have f: "ci_id (f c) = ci_id c" "ci_user_id (f c) = ci_user_id c" "ci_item_id (f c) = ci_item_id c"
    "ci_quantity (f c) = ci_quantity c" "ci_user_id c \<noteq> u \<Longrightarrow> f c = c" for c
    by (auto simp: f_def)
  have "length (filter (\<lambda>c. ci_user_id c = v) (map f xs)) = length (filter (\<lambda>c. ci_user_id c = v) xs)" for v xs
    by (induction xs) (auto simp: f)
  then have "cart_ok s'" using ok by (simp add: cart_ok_def s' cart_of_def comp_def f del: filter_map)
  moreover have "filter (\<lambda>c. ci_user_id c = v) (map f xs) = filter (\<lambda>c. ci_user_id c = v) xs" if "v \<noteq> u" for v xs
    using that by (induction xs) (auto simp: f)
  ultimately show ?thesis by (simp add: ClearPromo s' cart_of_def)
next
  case (RemoveLine k u)
  with r have "s' = s\<lparr>t_cart := filter (\<lambda>c. \<not> (ci_id c = k \<and> ci_user_id c = u)) (t_cart s)\<rparr>"
    by (auto simp: cart_op_result_def remove_from_cart_def tx_simps Let_def)
  with cart_ok_filter [OF ok] RemoveLine show ?thesis by (auto simp: cart_of_def intro!: filter_cong)
next
  case (ClearCart u)
  with r have "s' = s\<lparr>t_cart := filter (\<lambda>c. ci_user_id c \<noteq> u) (t_cart s)\<rparr>"
    by (auto simp: cart_op_result_def clear_cart_def tx_simps)
  with cart_ok_filter [OF ok] ClearCart show ?thesis by (auto simp: cart_of_def intro!: filter_cong)
qed


fun small_request :: "cart_op \<Rightarrow> bool" where
  "small_request (AddToCart u n p q) = (q \<le> CART_MAX_QTY_PER_ITEM)"
| "small_request _ = True"

lemma run_cart_op_ok:
  assumes "cart_ok s" "small_request c"
  shows "cart_ok (run_cart_op c s) \<and> (\<forall>u. u \<noteq> cart_op_user c \<longrightarrow> cart_of (run_cart_op c s) u = cart_of s u)"
proof (cases "cart_op_result c s")
  case (Inl e)
  with assms show ?thesis by (simp add: run_cart_op_def)
next
  case (Inr x)
  then have "cart_op_result c s = Inr ((), snd x)" by (cases x) simp
  from cart_op_ok [OF assms(1) this] assms(2) Inr show ?thesis by (cases c) (auto simp: run_cart_op_def split: prod.splits)
qed

text \<open>C9: Over any sequence of cart operations of registered users that add at most 99 units at a time,
  every product has at most one line per user, every line holds between one and 99 units, no user
  has more than ten lines, and nobody's cart is changed by another user's operation.\<close>
theorem cart_limits_kept:
  assumes "cart_ok s" "list_all small_request ops"
  shows "cart_ok (fold run_cart_op ops s) \<and>
    (\<forall>u. u \<notin> cart_op_user ` set ops \<longrightarrow> cart_of (fold run_cart_op ops s) u = cart_of s u)"
  using assms
proof (induction ops arbitrary: s)
  case (Cons c ops)
  then have "cart_ok (run_cart_op c s)" "\<And>u. u \<noteq> cart_op_user c \<Longrightarrow> cart_of (run_cart_op c s) u = cart_of s u"
    using run_cart_op_ok [of s c] by auto
  with Cons show ?case by simp
qed simp

lemma cart_limits_kept_witness:
  "cart_ok (fold run_cart_op [AddToCart 1 ''key'' None 1, AddToCart 1 ''api'' None 99, SetQuantity 13 1 (-3)] sample_shop) \<and>
   map ci_quantity (cart_of (fold run_cart_op
     [AddToCart 1 ''key'' None 1, AddToCart 1 ''api'' None 99, SetQuantity 13 1 (-3)] sample_shop) 1) = [99]"
proof -
  let ?ops = "[AddToCart 1 ''key'' None 1, AddToCart 1 ''api'' None 99, SetQuantity 13 1 (-3)]"
  have "cart_ok sample_shop"
    by (simp add: cart_ok_def sample_shop_def empty_shop_def sample_cart_item_def cart_of_def CART_MAX_ITEMS_def
        CART_MAX_QTY_PER_ITEM_def)
  moreover have "list_all small_request ?ops" by code_simp
  ultimately have "cart_ok (fold run_cart_op ?ops sample_shop)" using cart_limits_kept by blast
  moreover have "map ci_quantity (cart_of (fold run_cart_op ?ops sample_shop) 1) = [99]" by code_simp
  ultimately show ?thesis by blast
qed

text \<open>The limit of 99 units is not checked when a line is new.\<close>

lemma large_new_line:
  "fst (the (case add_to_cart 1 ''api'' None 100 sample_shop of Inr r \<Rightarrow> Some r | Inl _ \<Rightarrow> None)) = (True, ''success'')"
  by code_simp

subsection \<open>The total shown and the total charged\<close>

text \<open>A line of the view and a line of the checkout that stand for the same cart row.\<close>

definition same_line :: "int set \<Rightarrow> view_line \<Rightarrow> purchase_line \<Rightarrow> bool" where
  "same_line D v l \<longleftrightarrow> vl_id v = pl_cart_id l \<and> vl_line_total v = pl_line_price l \<and> vl_qty v = pl_qty l \<and>
     vl_unit_price v = pl_unit_price l \<and>
     (pl_promo l = vl_promo v \<or> pl_promo l = None \<and> (\<exists>p. vl_promo v = Some p \<and> pc_id p \<in> D))"

lemma same_line_promo:
  "same_line D v l \<Longrightarrow> pid \<notin> D \<Longrightarrow> view_has_promo pid v \<longleftrightarrow> has_promo pid l"
  by (cases "vl_promo v") (auto simp: same_line_def view_has_promo_def has_promo_def)

lemma same_line_less: "same_line D v l \<Longrightarrow> same_line D v' l' \<Longrightarrow> view_less v v' \<longleftrightarrow> line_less l l'"
  by (simp add: same_line_def view_less_def line_less_def)

lemma list_all2_filter_same:
  "list_all2 R xs ys \<Longrightarrow> (\<And>x y. R x y \<Longrightarrow> P x = Q y) \<Longrightarrow> list_all2 R (filter P xs) (filter Q ys)"
  by (induction xs ys rule: list_all2_induct) auto

lemma best_same:
  "list_all2 (same_line D) vs ls \<Longrightarrow> same_line D v l \<Longrightarrow> same_line D (best_view v vs) (best_line l ls)"
  by (induction vs ls arbitrary: v l rule: list_all2_induct) (simp_all add: same_line_less)

lemma spend_promo_same:
  assumes r: "list_all2 (same_line D) vs ls" and D: "pc_id p \<notin> D"
    and c: "\<And>l q. l \<in> set ls \<Longrightarrow> pl_promo l = Some q \<Longrightarrow> pc_id q = pc_id p \<Longrightarrow> q = p"
    and d: "distinct (map pl_cart_id ls)"
  shows "list_all2 (same_line (insert (pc_id p) D)) (spend_promo (pc_id p) vs) (apply_promo_to_cart p ls)"
proof -
  have f: "list_all2 (same_line D) (filter (view_has_promo (pc_id p)) vs) (filter (has_promo (pc_id p)) ls)"
    by (rule list_all2_filter_same [OF r]) (rule same_line_promo [OF _ D])
  have weaken: "same_line D v l \<Longrightarrow> same_line (insert (pc_id p) D) v l" for v l by (auto simp: same_line_def)
  show ?thesis
  proof (cases "filter (has_promo (pc_id p)) ls")
    case Nil
    with f have "filter (view_has_promo (pc_id p)) vs = []" by simp
    with Nil r weaken show ?thesis
      by (simp add: spend_promo_def apply_promo_to_cart_def) (rule list_all2_mono)
  next
    case (Cons l rest)
    then obtain v vrest where v: "filter (view_has_promo (pc_id p)) vs = v # vrest"
      and vl: "same_line D v l" "list_all2 (same_line D) vrest rest"
      using f by (cases "filter (view_has_promo (pc_id p)) vs") auto
    let ?bv = "best_view v vrest" and ?bl = "best_line l rest"
    have b: "same_line D ?bv ?bl" using best_same vl by blast
    have "?bl \<in> set (filter (has_promo (pc_id p)) ls)" using best_line_mem [of l rest] Cons by auto
    then have bl: "?bl \<in> set ls" "pl_promo ?bl = Some p" using c by (auto simp: has_promo_def)
    then have bv: "vl_promo ?bv = Some p" using b by (auto simp: same_line_def)
    define disc where "disc = apply_promo_discount (pl_unit_price ?bl) (pc_discount_type p) (pc_discount_value p) (pl_qty ?bl)"
    have disc: "apply_promo_discount (vl_unit_price ?bv) (pc_discount_type p) (pc_discount_value p) (vl_qty ?bv) = disc"
      using b by (simp add: same_line_def disc_def)
    have uniq: "y = ?bl" if "y \<in> set ls" "pl_cart_id y = pl_cart_id ?bl" for y
      using that bl(1) d by (auto simp: distinct_map inj_on_def)
    define f :: "view_line \<Rightarrow> view_line" where "f = (\<lambda>x. if vl_id x = vl_id ?bv then x\<lparr>vl_discounted := Some disc, vl_line_total := disc\<rparr> else x)"
    define g :: "purchase_line \<Rightarrow> purchase_line" where "g = (\<lambda>y. if \<not> has_promo (pc_id p) y then y
        else if pl_cart_id y = pl_cart_id ?bl then y\<lparr>pl_line_price := disc\<rparr> else y\<lparr>pl_promo := None\<rparr>)"
    have "spend_promo (pc_id p) vs = map f vs"
      by (simp add: spend_promo_def v Let_def bv disc f_def)
    moreover have "apply_promo_to_cart p ls = map g ls"
      unfolding apply_promo_to_cart_def Cons list.case Let_def g_def
    proof (rule map_cong [OF refl], goal_cases)
      case (1 y)
      show ?case using uniq [OF 1] by (auto simp: disc_def)
    qed
    moreover have "same_line (insert (pc_id p) D) (f x) (g y)" if xy: "same_line D x y" and y: "y \<in> set ls" for x y
    proof (cases "pl_cart_id y = pl_cart_id ?bl")
      case True
      with uniq y bl have "has_promo (pc_id p) y" by (auto simp: has_promo_def)
      with True xy b show ?thesis by (auto simp: same_line_def f_def g_def)
    next
      case False
      with xy b have "vl_id x \<noteq> vl_id ?bv" by (simp add: same_line_def)
      with False xy show ?thesis by (auto simp: same_line_def has_promo_def f_def g_def)
    qed
    ultimately show ?thesis
      using r by (simp add: list_all2_conv_all_nth)
  qed
qed


lemma apply_promo_shape:
  "map pl_cart_id (apply_promo_to_cart p ls) = map pl_cart_id ls"
  "l' \<in> set (apply_promo_to_cart p ls) \<Longrightarrow> pl_promo l' = Some q \<Longrightarrow> \<exists>l \<in> set ls. pl_promo l = Some q"
  by (auto simp: apply_promo_to_cart_def Let_def split: list.splits if_splits)

lemma spend_all_same:
  assumes "list_all2 (same_line D) vs ls" "distinct (map pl_cart_id ls)" "distinct (map pc_id ps)"
    and "pc_id ` set ps \<inter> D = {}"
    and "\<And>l q p. l \<in> set ls \<Longrightarrow> pl_promo l = Some q \<Longrightarrow> p \<in> set ps \<Longrightarrow> pc_id q = pc_id p \<Longrightarrow> q = p"
  shows "map vl_line_total (fold spend_promo (map pc_id ps) vs) = map pl_line_price (fold apply_promo_to_cart ps ls)"
  using assms
proof (induction ps arbitrary: D vs ls)
  case Nil
  then show ?case by (induction vs ls rule: list_all2_induct) (auto simp: same_line_def)
next
  case (Cons p ps)
  have "list_all2 (same_line (insert (pc_id p) D)) (spend_promo (pc_id p) vs) (apply_promo_to_cart p ls)"
    using Cons.prems by (intro spend_promo_same) auto
  then have "map vl_line_total (fold spend_promo (map pc_id ps) (spend_promo (pc_id p) vs)) =
      map pl_line_price (fold apply_promo_to_cart ps (apply_promo_to_cart p ls))"
  proof (rule Cons.IH)
    show "distinct (map pl_cart_id (apply_promo_to_cart p ls))" using Cons.prems(2) by (simp add: apply_promo_shape)
    show "distinct (map pc_id ps)" "pc_id ` set ps \<inter> insert (pc_id p) D = {}" using Cons.prems(3,4) by auto
    show "q = r" if "l \<in> set (apply_promo_to_cart p ls)" "pl_promo l = Some q" "r \<in> set ps" "pc_id q = pc_id r" for l q r
      using apply_promo_shape(2) [OF that(1,2)] Cons.prems(5) that(3,4) by auto
  qed
  then show ?case by simp
qed

lemma keep_first_Cons: "keep_first (x # xs) = x # filter (\<lambda>y. y \<noteq> x) (keep_first xs)"
proof (induction xs rule: rev_induct)
  case Nil
  show ?case by (simp add: keep_first_def)
next
  case (snoc y xs)
  have "keep_first (x # xs @ [y]) = (if y \<in> set (x # xs) then keep_first (x # xs) else keep_first (x # xs) @ [y])"
    using keep_first_snoc [of "x # xs" y] by simp
  with snoc show ?case by (auto simp: keep_first_snoc)
qed

lemma distinct_promos_keep_first:
  "map pc_id (distinct_promos ls) = keep_first (List.map_filter (\<lambda>l. map_option pc_id (pl_promo l)) ls)"
proof (induction ls)
  case Nil
  show ?case by (simp add: keep_first_def List.map_filter_def)
next
  case (Cons l ls)
  show ?case
  proof (cases "pl_promo l")
    case None
    with Cons show ?thesis by (simp add: List.map_filter_simps)
  next
    case (Some p)
    have "map pc_id (filter (\<lambda>q. pc_id q \<noteq> pc_id p) (distinct_promos ls)) =
        filter (\<lambda>k. k \<noteq> pc_id p) (map pc_id (distinct_promos ls))" by (simp add: filter_map comp_def)
    with Some Cons show ?thesis by (simp add: keep_first_Cons List.map_filter_simps)
  qed
qed

text \<open>The discounted total does not depend on the order of the lines.\<close>

lemma discount_cart_rev:
  assumes "consistent_promos ls" "distinct (map pl_cart_id ls)"
  shows "cart_total (discount_cart (rev ls)) = cart_total (discount_cart ls)"
proof -
  have "consistent_promos (rev ls)" "distinct (map pl_cart_id (rev ls))"
    using assms by (simp_all add: consistent_promos_def rev_map [symmetric])
  then have "discount_cart (rev ls) = map (settled_line (rev ls)) (rev ls)" by (rule discount_cart_settles)
  moreover have d: "dearest_with (rev ls) = dearest_with ls" by (simp add: dearest_with_def fun_eq_iff)
  have "settled_line (rev ls) = settled_line ls" by (simp only: settled_line_def [abs_def] d)
  ultimately show ?thesis
    by (simp add: cart_total_def discount_cart_settles [OF assms] rev_map [symmetric] sum_list_rev)
qed

lemma view_matches_lines:
  assumes r: "list_all2 (same_line {}) vs (rev ls)" and c: "consistent_promos ls" "distinct (map pl_cart_id ls)"
  shows "sum_list (map vl_line_total (fold spend_promo (view_promo_ids vs) vs)) = cart_total (discount_cart ls)"
proof -
  have "List.map_filter (\<lambda>v. map_option pc_id (vl_promo v)) us = List.map_filter (\<lambda>l. map_option pc_id (pl_promo l)) ms"
    if "list_all2 (same_line {}) us ms" for us ms
    using that by (induction us ms rule: list_all2_induct)
      (auto simp: List.map_filter_simps same_line_def split: option.splits)
  from this [OF r] have ids: "view_promo_ids vs = map pc_id (distinct_promos (rev ls))"
    by (simp add: view_promo_ids_def distinct_promos_keep_first)
  have "map vl_line_total (fold spend_promo (view_promo_ids vs) vs) = map pl_line_price (discount_cart (rev ls))"
    unfolding ids discount_cart_def
  proof (rule spend_all_same [OF r])
    show "distinct (map pl_cart_id (rev ls))" using c(2) by (simp add: rev_map [symmetric])
    show "distinct (map pc_id (distinct_promos (rev ls)))" by (rule distinct_promos_ids)
    show "pc_id ` set (distinct_promos (rev ls)) \<inter> {} = {}" by simp
    show "q = p" if "l \<in> set (rev ls)" "pl_promo l = Some q" "p \<in> set (distinct_promos (rev ls))" "pc_id q = pc_id p" for l q p
    proof -
      note t = that
      obtain l' where "l' \<in> set ls" "pl_promo l' = Some p" using distinct_promos_mem [OF t(3)] by auto
      with c(1) t show ?thesis unfolding consistent_promos_def by (metis set_rev)
    qed
  qed
  then show ?thesis using discount_cart_rev [OF c] by (simp add: cart_total_def)
qed

text \<open>A line of the checkout, and the cart row and product it comes from.\<close>

definition resolved_from :: "env \<Rightarrow> shop \<Rightarrow> int \<Rightarrow> cart_item \<Rightarrow> purchase_line \<Rightarrow> bool" where
  "resolved_from e s uid c l \<longleftrightarrow> (\<exists>g. get_goods s (ci_item_id c) = Some g \<and> pl_cart_id l = ci_id c \<and>
     pl_qty l = ci_quantity c \<and> pl_unit_price l = fst (effective_price g (env_now e)) \<and>
     pl_line_price l = fst (effective_price g (env_now e)) * ci_quantity c \<and>
     pl_promo l = line_promo e s uid g (ci_promo_code c) (pl_line_price l))"

lemma promo_rule_error_frame:
  "promo_rule_error s now p uid g rb (Some b) t = promo_rule_error s' now p uid g rb (Some b) t"
  by (simp add: promo_rule_error_def split: option.split)

lemma line_promo_frame:
  "t_promos s' = t_promos s \<Longrightarrow> t_promo_usages s' = t_promo_usages s \<Longrightarrow>
     line_promo e s' uid g code t = line_promo e s uid g code t"
  by (simp add: line_promo_def promo_by_code_def count_promo_usages_for_user_def Let_def
      promo_rule_error_frame [of s' _ _ _ _ _ _ _ s] split: option.split)

lemma resolve_cart_lines:
  "resolve_cart e uid cs s = Inr ((ls, []), s') \<Longrightarrow> list_all2 (resolved_from e s uid) cs ls"
proof (induction cs arbitrary: s ls)
  case (Cons c cs)
  from Cons.prems show ?case
  proof (cases rule: resolve_cart_Cons)
    case (line g vs s1 ls')
    from consume_stock_units_frame [OF line(2)] obtain P where
      s1: "s1 = s\<lparr>t_item_values := filter P (t_item_values s)\<rparr>" by blast
    have same: "line_promo e s1 = line_promo e s" "get_goods s1 = get_goods s"
      by (auto simp: fun_eq_iff get_goods_def s1 intro!: line_promo_frame)
    have "list_all2 (resolved_from e s1 uid) cs ls'" by (rule Cons.IH [OF line(3)])
    then show ?thesis using line(1) by (simp add: line(4) resolved_from_def [abs_def] same)
  qed simp
qed simp

text \<open>
  What the view and the checkout disagree on: the minimum order of a code is compared with the list
  price in one and with the sale price in the other.  They agree on lines where these are the same
  or the code has no minimum.
\<close>

definition min_order_agrees :: "env \<Rightarrow> shop \<Rightarrow> cart_item \<Rightarrow> bool" where
  "min_order_agrees e s c \<longleftrightarrow>
     (case (get_goods s (ci_item_id c), promo_by_code s (upper (the (ci_promo_code c)))) of
        (Some g, Some p) \<Rightarrow> pc_min_order_cents p \<le> 0 \<or> fst (effective_price g (env_now e)) = g_price g
      | _ \<Rightarrow> True)"

definition view_promo :: "env \<Rightarrow> shop \<Rightarrow> int \<Rightarrow> (string \<Rightarrow> item_info option) \<Rightarrow> cart_line \<Rightarrow> promo_code option" where
  "view_promo e s uid info row =
     (case map_of (validate_promos_for_cart e s uid [row] info) (cl_id row) of Some (True, _, p) \<Rightarrow> p | _ \<Rightarrow> None)"

lemma validate_promos_line:
  assumes "distinct (map cl_id lines)" "row \<in> set lines"
  shows "map_of (validate_promos_for_cart e s uid lines info) (cl_id row) =
    map_of (validate_promos_for_cart e s uid [row] info) (cl_id row)"
proof -
  have other: "cl_id l \<noteq> cl_id row \<Longrightarrow> map_of (validate_promos_for_cart e s uid [l] info) (cl_id row) = None" for l
    by (auto simp: validate_promos_for_cart_def Let_def split: option.splits)
  have cons: "validate_promos_for_cart e s uid (l # ls) info =
      validate_promos_for_cart e s uid [l] info @ validate_promos_for_cart e s uid ls info" for l ls
    by (simp add: validate_promos_for_cart_def Let_def)
  have none: "map_of (validate_promos_for_cart e s uid ls info) k = None" if "k \<notin> cl_id ` set ls" for ls k
    using that
  proof (induction ls)
    case Nil
    show ?case by (simp add: validate_promos_for_cart_def)
  next
    case (Cons l ls)
    then have "map_of (validate_promos_for_cart e s uid [l] info) k = None"
      by (auto simp: validate_promos_for_cart_def Let_def split: option.splits)
    with Cons show ?case by (simp add: cons [of l ls] map_add_def)
  qed
  show ?thesis using assms
  proof (induction lines)
    case (Cons l ls)
    show ?case
    proof (cases "l = row")
      case True
      with Cons.prems have "map_of (validate_promos_for_cart e s uid ls info) (cl_id row) = None" by (intro none) auto
      then show ?thesis
        unfolding True cons [of row ls] map_of_append map_add_def by (simp split: option.split)
    next
      case False
      with Cons.prems have "cl_id l \<noteq> cl_id row" "distinct (map cl_id ls)" "row \<in> set ls" by auto
      with Cons.IH other [of l] show ?thesis
        unfolding cons [of l ls] map_of_append map_add_def by (simp split: option.split)
    qed
  qed simp
qed

lemma promo_rule_error_total:
  assumes "pc_min_order_cents p \<le> 0 \<or> t = t'"
  shows "promo_rule_error s now (Some p) uid g rb used (Some t) = promo_rule_error s now (Some p) uid g rb used (Some t')"
proof (cases "t = t'")
  case False
  with assms have "\<not> 0 < pc_min_order_cents p" by simp
  then show ?thesis by (simp add: promo_rule_error_def)
qed simp

lemma view_promo_line_promo:
  assumes g: "get_goods s (ci_item_id c) = Some g" and row: "cart_line_row s c = Some row"
    and info: "info (g_name g) = Some (g_id g, g_category_id g, g_price g)"
    and q: "0 < ci_quantity c" and m: "min_order_agrees e s c"
  shows "view_promo e s uid info row =
    line_promo e s uid g (ci_promo_code c) (fst (effective_price g (env_now e)) * ci_quantity c)"
proof -
  have l: "cl_id row = ci_id c" "cl_item_name row = g_name g" "cl_promo_code row = ci_promo_code c"
    "cl_quantity row = ci_quantity c"
    using row g by (auto simp: cart_line_row_def)
  show ?thesis
  proof (cases "ci_promo_code c = None \<or> ci_promo_code c = Some []")
    case True
    then show ?thesis by (auto simp: view_promo_def validate_promos_for_cart_def l line_promo_def)
  next
    case False
    show ?thesis
    proof (cases "promo_by_code s (upper (the (ci_promo_code c)))")
      case None
      with False info show ?thesis
        by (auto simp: view_promo_def validate_promos_for_cart_def l line_promo_def promo_rule_error_def Let_def)
    next
      case (Some p)
      let ?err = "\<lambda>t. promo_rule_error s (env_now e) (Some p) uid (Some (g_id g, g_category_id g)) False
        (Some (max_per_user p \<le> count_promo_usages_for_user s (pc_id p) uid)) (Some t)"
      have "pc_min_order_cents p \<le> 0 \<or> g_price g * ci_quantity c = fst (effective_price g (env_now e)) * ci_quantity c"
        using m g Some by (auto simp: min_order_agrees_def)
      note err = promo_rule_error_total [OF this]
      have "view_promo e s uid info row = (if ?err (g_price g * ci_quantity c) = None then Some p else None)"
        using False Some info q
        by (simp add: view_promo_def validate_promos_for_cart_def l Let_def split: option.split)
      moreover have "line_promo e s uid g (ci_promo_code c) (fst (effective_price g (env_now e)) * ci_quantity c) =
          (if ?err (fst (effective_price g (env_now e)) * ci_quantity c) = None then Some p else None)"
        using False Some by (simp add: line_promo_def goods_key_def Let_def)
      ultimately show ?thesis by (simp add: err)
    qed
  qed
qed

lemma map_filter_all2:
  assumes "list_all2 R xs ys" "\<And>x y. x \<in> set xs \<Longrightarrow> R x y \<Longrightarrow> \<exists>z. f x = Some z \<and> S z y"
  shows "list_all2 S (List.map_filter f xs) ys"
  using assms
proof (induction xs ys rule: list_all2_induct)
  case Nil
  show ?case by (simp add: List.map_filter_simps)
next
  case (Cons x xs y ys)
  then obtain z where "f x = Some z" "S z y" by auto
  with Cons show ?case by (simp add: List.map_filter_simps)
qed

lemma map_filter_Some:
  "(\<And>x. x \<in> set xs \<Longrightarrow> f x = Some (g x)) \<Longrightarrow> List.map_filter f xs = map g xs"
  by (induction xs) (simp_all add: List.map_filter_simps)

lemma cart_line_row_Some:
  assumes "cart_line_row s c = Some r"
  shows "cl_id r = ci_id c" "cl_promo_code r = ci_promo_code c" "cl_quantity r = ci_quantity c"
    "get_goods s (ci_item_id c) = Some g \<Longrightarrow> cl_item_name r = g_name g"
  using assms by (auto simp: cart_line_row_def)

lemma view_lines_same:
  assumes names: "distinct (map g_name (t_goods s))"
    and ids: "distinct (map ci_id (t_cart s))"
    and ls: "list_all2 (resolved_from e s uid) (cart_of s uid) ls"
    and q: "\<forall>c \<in> set (cart_of s uid). 0 < ci_quantity c"
    and m: "\<forall>c \<in> set (cart_of s uid). min_order_agrees e s c"
  defines "items \<equiv> get_cart_items s uid"
  defines "info \<equiv> get_items_info s (map cl_item_name items)"
  defines "results \<equiv> validate_promos_for_cart e s uid items (\<lambda>n. map_option (\<lambda>g. (g_id g, g_category_id g, g_price g)) (info n))"
  shows "list_all2 (same_line {}) (List.map_filter (view_line_of e info results) items) (rev ls)"
proof -
  define row where "row c = the (cart_line_row s c)" for c
  have rows: "cart_line_row s c = Some (row c)" if "c \<in> set (cart_of s uid)" for c
  proof -
    from ls that obtain l where "resolved_from e s uid c l" by (metis list_all2_conv_all_nth in_set_conv_nth)
    then show ?thesis by (auto simp: resolved_from_def row_def cart_line_row_def)
  qed
  have items: "items = map row (rev (cart_of s uid))"
    unfolding items_def get_cart_items_def cart_of_def [symmetric] by (rule map_filter_Some) (simp add: rows)
  have "cl_id (row c) = ci_id c" if "c \<in> set (cart_of s uid)" for c
    by (rule cart_line_row_Some [OF rows [OF that]])
  then have "map cl_id items = map ci_id (rev (cart_of s uid))" by (simp add: items rev_map)
  moreover have "distinct (map ci_id (cart_of s uid))" using ids by (simp add: cart_of_def distinct_map_filter)
  ultimately have d: "distinct (map cl_id items)" by (simp add: rev_map [symmetric])
  have "\<exists>v. view_line_of e info results (row c) = Some v \<and> same_line {} v l"
    if c: "c \<in> set (cart_of s uid)" and l: "resolved_from e s uid c l" for c l
  proof -
    from l obtain g where g: "get_goods s (ci_item_id c) = Some g" and l: "pl_cart_id l = ci_id c"
      "pl_qty l = ci_quantity c" "pl_unit_price l = fst (effective_price g (env_now e))"
      "pl_line_price l = fst (effective_price g (env_now e)) * ci_quantity c"
      "pl_promo l = line_promo e s uid g (ci_promo_code c) (pl_line_price l)"
      by (auto simp: resolved_from_def)
    have r: "cl_id (row c) = ci_id c" "cl_item_name (row c) = g_name g" "cl_quantity (row c) = ci_quantity c"
      using cart_line_row_Some [OF rows [OF c]] g by simp_all
    have mem: "row c \<in> set items" using c by (simp add: items)
    have "g \<in> set (t_goods s)" using g by (auto simp: get_goods_def dest: find_by_Some_mem)
    then have "goods_by_name s (g_name g) = Some g" unfolding goods_by_name_def by (rule find_by_distinct [OF names])
    moreover have "g_name g \<in> set (map cl_item_name items)" using mem r(2) by force
    ultimately have i: "info (g_name g) = Some g" by (simp add: info_def get_items_info_def)
    have "(case map_of results (cl_id (row c)) of Some (True, _, p) \<Rightarrow> p | _ \<Rightarrow> None) =
        view_promo e s uid (\<lambda>n. map_option (\<lambda>g. (g_id g, g_category_id g, g_price g)) (info n)) (row c)"
      unfolding results_def view_promo_def validate_promos_line [OF d mem] ..
    also have "\<dots> = pl_promo l"
      unfolding l(4,5)
      by (rule view_promo_line_promo [OF g rows [OF c]]) (use i q m c in auto)
    finally show ?thesis
      by (simp add: view_line_of_def r i same_line_def l(1-4) Let_def case_prod_unfold)
  qed
  moreover have "list_all2 (resolved_from e s uid) (rev (cart_of s uid)) (rev ls)" using ls by simp
  ultimately have "list_all2 (same_line {}) (List.map_filter (\<lambda>c. view_line_of e info results (row c)) (rev (cart_of s uid))) (rev ls)"
    by (intro map_filter_all2 [where R = "resolved_from e s uid"]) auto
  moreover have "List.map_filter f (map g xs) = List.map_filter (\<lambda>x. f (g x)) xs" for f :: "cart_line \<Rightarrow> view_line option" and g :: "cart_item \<Rightarrow> cart_line" and xs
    by (simp add: List.map_filter_def filter_map comp_def)
  ultimately show ?thesis by (simp add: items)
qed

lemma insert_bought_Inl: "insert_bought e name buyer oid vps s = Inl err \<Longrightarrow> \<exists>m. err = IntegrityError m"
  by (induction vps arbitrary: s) (auto simp: Let_def tx_simps split: option.splits if_splits)

lemma deliver_cart_Inl: "deliver_cart e uid ps s = Inl err \<Longrightarrow> \<exists>m. err = IntegrityError m"
  by (induction ps arbitrary: s) (auto simp: tx_simps dest: insert_bought_Inl)

lemma record_cart_promos_Inl: "record_cart_promos uid ps s = Inl (Abort c) \<Longrightarrow> c = ''transaction_error''"
  by (induction ps arbitrary: s) (auto split: sum.splits exn.splits dest: record_promo_usage_Inl)

text \<open>
  A line with something on sale stays live while the lines of other products are served, so the
  checkout drops no line of a cart of live lines.
\<close>

lemma consume_elsewhere:
  assumes "consume_stock_units g q s = Inr (vs, s1)" "distinct_values s" "gid \<noteq> g_id g"
  shows "finite_available s1 gid = finite_available s gid \<and> infinite_row s1 gid = infinite_row s gid"
proof (cases "0 < q \<and> g_fulfillment_type g = FulfillStock \<and> infinite_row s (g_id g) = None")
  case False
  with assms(1) have "s1 = s"
    by (cases "g_fulfillment_type g") (auto simp: consume_stock_units_def split: if_splits option.splits)
  then show ?thesis by simp
next
  case True
  let ?us = "next_units s (g_id g) (nat q)"
  have s1: "s1 = s\<lparr>t_item_values := without_ids (map iv_id ?us) (t_item_values s)\<rparr>"
    using consume_stock_units_finite [OF assms(2)] True assms(1) by (auto split: if_splits)
  have keep: "iv_id v \<notin> iv_id ` set ?us" if "v \<in> set (t_item_values s)" "iv_item_id v = gid" for v
  proof
    assume "iv_id v \<in> iv_id ` set ?us"
    then obtain u where u: "u \<in> set ?us" "iv_id v = iv_id u" by auto
    then have "u \<in> set (finite_available s (g_id g))" using next_units_subset by fast
    then have "u \<in> set (t_item_values s)" "iv_item_id u = g_id g" by (simp_all add: finite_available_mem)
    moreover have "u = v" using calculation(1) that(1) u(2) assms(2) by (auto simp: distinct_values_def distinct_map inj_on_def)
    ultimately show False using that(2) assms(3) by simp
  qed
  have f: "filter P (without_ids (map iv_id ?us) (t_item_values s)) = filter P (t_item_values s)"
    if "\<And>v. P v \<Longrightarrow> iv_item_id v = gid" for P
    using that keep by (auto simp: without_ids_def intro!: filter_cong)
  have "List.find P xs = (case filter P xs of [] \<Rightarrow> None | v # _ \<Rightarrow> Some v)" for P and xs :: "item_value list"
    by (induction xs) auto
  then show ?thesis
    using f [of "\<lambda>v. iv_item_id v = gid \<and> \<not> iv_is_infinity v \<and> iv_status v = AVAILABLE"]
      f [of "\<lambda>v. iv_item_id v = gid \<and> iv_is_infinity v"]
    by (simp add: finite_available_def infinite_row_def s1)
qed

lemma resolve_cart_live:
  assumes "resolve_cart e uid cs s = Inr ((ls, rm), s')" "distinct_values s" "distinct (map ci_item_id cs)"
    "\<forall>c \<in> set cs. \<not> dead_line s c"
  shows "rm = []"
  using assms
proof (induction cs arbitrary: s ls rm)
  case (Cons c cs)
  from Cons.prems(4) obtain g where g: "get_goods s (ci_item_id c) = Some g"
    "\<not> (infinite_row s (g_id g) = None \<and> count_finite_available_units s (g_id g) = 0)"
    by (auto simp: dead_line_def split: option.splits)
  then obtain vs s1 ls' where u: "consume_stock_units g (ci_quantity c) s = Inr (vs, s1)"
    and r: "resolve_cart e uid cs s1 = Inr ((ls', rm), s')"
    using Cons.prems(1) by (auto simp: tx_simps abort_on_line_error_def Let_def split: sum.splits exn.splits simp del: de_Morgan_conj)
  have id: "g_id g = ci_item_id c" using g(1) by (auto simp: get_goods_def dest: find_by_Some_key)
  have goods: "get_goods s1 = get_goods s"
    using consume_stock_units_frame [OF u] by (auto simp: get_goods_def fun_eq_iff)
  have "\<not> dead_line s1 d" if d: "d \<in> set cs" for d
  proof -
    have "ci_item_id c \<notin> ci_item_id ` set cs" using Cons.prems(3) by simp
    then have "ci_item_id d \<noteq> g_id g" using d id by (metis imageI)
    note same = consume_elsewhere [OF u Cons.prems(2) this]
    have "\<not> dead_line s d" using Cons.prems(4) d by simp
    then obtain h where h: "get_goods s (ci_item_id d) = Some h"
      "\<not> (infinite_row s (g_id h) = None \<and> count_finite_available_units s (g_id h) = 0)"
      by (auto simp: dead_line_def split: option.splits)
    have "g_id h = ci_item_id d" using h(1) by (auto simp: get_goods_def dest: find_by_Some_key)
    with h same show ?thesis by (simp add: dead_line_def count_finite_available_units_def goods)
  qed
  moreover have "distinct_values s1" by (rule consume_distinct [OF u Cons.prems(2)])
  ultimately show ?case using Cons.IH [OF r] Cons.prems(3) by simp
qed simp

lemma resolve_cart_Inl: "resolve_cart e uid cs s = Inl (Abort c) \<Longrightarrow> c = ''out_of_stock'' \<or> c = ''api_fulfillment''"
proof (induction cs arbitrary: s)
  case (Cons ci cs)
  have claim: "claim_units rs a = Inl x \<Longrightarrow> x = StockAllocationError ''out_of_stock''" for rs a x
    by (induction rs arbitrary: a) (auto simp: Let_def tx_simps split: if_splits)
  have "x = StockAllocationError ''out_of_stock'' \<or> x = StockAllocationError ''api_fulfillment''"
    if "consume_stock_units g q s = Inl x" for g q x
    using that by (auto simp: consume_stock_units_def Let_def split: if_splits option.splits dest: claim)
  then have "c = ''out_of_stock'' \<or> c = ''api_fulfillment''"
    if "abort_on_line_error (consume_stock_units g q s) = Inl (Abort c)" for g q
    using that by (fastforce simp: abort_on_line_error_def split: sum.splits exn.splits)
  with Cons show ?case
    by (auto simp: tx_simps Let_def split: option.splits if_splits simp del: de_Morgan_conj)
qed simp

lemma view_total_resolved:
  assumes "resolve_cart e uid (cart_of s uid) s = Inr ((ls, []), s')"
    and "distinct (map g_name (t_goods s))" "distinct (map pc_id (t_promos s))" "distinct (map ci_id (t_cart s))"
    and "\<forall>c \<in> set (cart_of s uid). 0 < ci_quantity c"
    and "\<forall>c \<in> set (cart_of s uid). min_order_agrees e s c"
  shows "cart_view_total e s uid = cart_total (discount_cart ls)"
proof -
  note lines = resolve_cart_lines [OF assms(1)]
  have promo: "p \<in> set (t_promos s)" if "resolved_from e s uid c l" "pl_promo l = Some p" for c l p
    using that by (auto simp: resolved_from_def line_promo_def promo_by_code_def Let_def
        split: if_splits option.splits dest!: find_by_Some_mem)
  have "consistent_promos ls"
    unfolding consistent_promos_def
  proof (intro ballI allI impI)
    fix l l' p q
    assume a: "l \<in> set ls" "l' \<in> set ls" "pl_promo l = Some p" "pl_promo l' = Some q" "pc_id p = pc_id q"
    from lines a(1,2) obtain c c' where "resolved_from e s uid c l" "resolved_from e s uid c' l'"
      by (metis list_all2_conv_all_nth in_set_conv_nth)
    with promo a(3,4) have "p \<in> set (t_promos s)" "q \<in> set (t_promos s)" by auto
    with assms(3) a(5) show "p = q" by (auto simp: distinct_map inj_on_def)
  qed
  moreover have "map pl_cart_id ls = map ci_id (cart_of s uid)"
    using lines by (induction rule: list_all2_induct) (auto simp: resolved_from_def)
  then have "distinct (map pl_cart_id ls)" using assms(4) by (simp add: cart_of_def distinct_map_filter)
  ultimately show ?thesis
    using view_matches_lines view_lines_same [OF assms(2,4) lines assms(5,6)]
    by (simp add: cart_view_total_def cart_view_lines_def Let_def)
qed



text \<open>
  A sold-out line is part of the shown total but is dropped by the checkout, which then aborts and
  restores the line: the cart cannot be bought until the user removes it.
\<close>

definition sold_out_cart_shop :: shop where
  "sold_out_cart_shop = sample_shop\<lparr>t_goods := t_goods sample_shop @ [sample_goods 21 ''gone'' 500 FulfillStock],
     t_cart := [sample_cart_item 13 1 3 1 None, sample_cart_item 14 1 21 1 None], t_seq := 30\<rparr>"

lemma sold_out_line_blocks_checkout:
  "cart_view_total sample_env sold_out_cart_shop 1 = 2499"
  "fst (checkout_cart_transaction sample_env 1 (Some 2499) sold_out_cart_shop) = (False, ''price_changed'', None)"
  "t_cart (snd (checkout_cart_transaction sample_env 1 (Some 2499) sold_out_cart_shop)) = t_cart sold_out_cart_shop"
  by code_simp+

end
