(* ===== verification/Validation.thy ===== *)
theory Validation
  imports PyStr
begin

text \<open>
  Validation of what users and operators type: \<open>bot/misc/validators.py\<close>, the price parser of
  \<open>handlers/admin/_common.py\<close>, the amount filter of \<open>filters/main.py\<close> and the name check of
  \<open>handlers/other.py\<close>.  A validator that raises \<open>ValueError\<close> returns \<open>Inl\<close>.  The main result is that
  \<open>sanitize_html\<close> is one pass over the text that keeps the allowed tags and escapes everything else.
\<close>

subsection \<open>Strings\<close>

definition starts_with :: "string \<Rightarrow> string \<Rightarrow> bool" where
  "starts_with p s \<longleftrightarrow> take (length p) s = p"

text \<open>\<open>str.replace\<close> and \<open>str.count\<close> of a non-empty pattern, from left to right; the counter is the rest
  of an occurrence that was consumed.\<close>

fun replace_from :: "string \<Rightarrow> string \<Rightarrow> nat \<Rightarrow> string \<Rightarrow> string" where
  "replace_from old new k [] = []"
| "replace_from old new (Suc k) (c # cs) = replace_from old new k cs"
| "replace_from old new 0 (c # cs) =
     (if starts_with old (c # cs) then new @ replace_from old new (length old - 1) cs
      else c # replace_from old new 0 cs)"

definition py_replace :: "string \<Rightarrow> string \<Rightarrow> string \<Rightarrow> string" where
  "py_replace old new s = replace_from old new 0 s"

fun count_from :: "string \<Rightarrow> nat \<Rightarrow> string \<Rightarrow> nat" where
  "count_from p k [] = 0"
| "count_from p (Suc k) (c # cs) = count_from p k cs"
| "count_from p 0 (c # cs) =
     (if starts_with p (c # cs) then Suc (count_from p (length p - 1) cs) else count_from p 0 cs)"

definition py_count :: "string \<Rightarrow> string \<Rightarrow> nat" where
  "py_count p s = count_from p 0 s"

definition has_control_char :: "string \<Rightarrow> bool" where
  "has_control_char s \<longleftrightarrow> list_ex (\<lambda>c. of_char c < (32::nat) \<or> of_char c = (127::nat)) s"

subsection \<open>Identifiers and amounts\<close>

text \<open>The argument of \<open>validate_telegram_id\<close> is a string the user typed.\<close>

definition validate_telegram_id :: "string \<Rightarrow> int result" where
  "validate_telegram_id telegram_id =
     tx_bind (parse_int telegram_id) (\<lambda>tid.
       if tid \<le> 0 \<or> 9999999999 < tid then Inl (ValueError ''telegram id'') else Inr tid)"

definition validate_money_amount :: "string \<Rightarrow> int \<Rightarrow> int \<Rightarrow> int result" where
  "validate_money_amount amount min_amount max_amount =
     (case decimal_of_string (strip amount) of
        Inl _ \<Rightarrow> Inl (ValueError ''amount'')
      | Inr d \<Rightarrow>
          if dec_value d < of_int min_amount \<or> of_int max_amount < dec_value d then Inl (ValueError ''amount'')
          else (case rub_to_cents d of Inl _ \<Rightarrow> Inl (ValueError ''amount'') | Inr c \<Rightarrow> Inr c))"

text \<open>The fields \<open>telegram_id\<close> and \<open>balance\<close> of \<open>UserDataUpdate\<close>.\<close>

definition user_data_update :: "int \<Rightarrow> int option \<Rightarrow> unit result" where
  "user_data_update telegram_id balance =
     (if 0 < telegram_id \<and> (case balance of None \<Rightarrow> True | Some b \<Rightarrow> 0 \<le> b \<and> b \<le> 100000000)
      then Inr () else Inl (ValueError ''UserDataUpdate''))"

definition valid_amount_filter :: "int \<Rightarrow> int \<Rightarrow> string option \<Rightarrow> bool" where
  "valid_amount_filter min_amount max_amount text =
     (case text of None \<Rightarrow> False
      | Some t \<Rightarrow> is_digits t \<and> (case parse_nat t of None \<Rightarrow> False
          | Some v \<Rightarrow> min_amount \<le> int v \<and> int v \<le> max_amount))"

definition MAX_ITEM_PRICE :: int where "MAX_ITEM_PRICE = 99999999"

definition parse_price :: "string option \<Rightarrow> int option" where
  "parse_price text =
     (let price_text = strip (case text of None \<Rightarrow> [] | Some t \<Rightarrow> t)
      in if \<not> is_digits price_text then None
         else case parse_nat price_text of None \<Rightarrow> None
              | Some n \<Rightarrow> if int n < 1 \<or> MAX_ITEM_PRICE < int n then None else Some (int n))"

subsection \<open>Names and reviews\<close>

text \<open>\<open>StringConstraints(min_length, max_length, strip_whitespace)\<close>\<close>

definition constrained_str :: "nat \<Rightarrow> nat \<Rightarrow> string \<Rightarrow> string result" where
  "constrained_str min_length max_length s =
     (let t = strip s in if min_length \<le> py_len t \<and> py_len t \<le> max_length then Inr t else Inl (ValueError ''length''))"

definition item_purchase_request :: "string \<Rightarrow> int \<Rightarrow> string result" where
  "item_purchase_request item_name user_id =
     tx_bind (constrained_str 1 100 item_name) (\<lambda>t.
       if has_control_char t then Inl (ValueError ''Invalid characters in item name'')
       else if user_id \<le> 0 then Inl (ValueError ''user_id'') else Inr t)"

definition is_safe_item_name :: "string \<Rightarrow> bool" where
  "is_safe_item_name name \<longleftrightarrow> 1 \<le> py_len name \<and> py_len name \<le> 100 \<and> \<not> has_control_char name"

text \<open>\<open>re.sub(r'<[^>]*>', '', s)\<close>: from every opening bracket to the next closing one.\<close>

fun strip_tags_from :: "bool \<Rightarrow> string \<Rightarrow> string" where
  "strip_tags_from inside [] = []"
| "strip_tags_from True (c # cs) = strip_tags_from (c \<noteq> CHR ''>'') cs"
| "strip_tags_from False (c # cs) =
     (if c = CHR ''<'' \<and> CHR ''>'' \<in> set cs then strip_tags_from True cs else c # strip_tags_from False cs)"

text \<open>\<open>re.sub(r'\s+', ' ', s)\<close>\<close>

fun squeeze_spaces :: "bool \<Rightarrow> string \<Rightarrow> string" where
  "squeeze_spaces after [] = []"
| "squeeze_spaces after (c # cs) =
     (if is_space c then (if after then squeeze_spaces True cs else CHR '' '' # squeeze_spaces True cs)
      else c # squeeze_spaces False cs)"

definition category_request :: "string \<Rightarrow> string result" where
  "category_request name = constrained_str 1 100 name"

definition sanitize_name :: "string \<Rightarrow> string" where
  "sanitize_name name = strip (squeeze_spaces False (strip_tags_from False name))"

definition review_request :: "int \<Rightarrow> string option \<Rightarrow> unit result" where
  "review_request rating text =
     (if 1 \<le> rating \<and> rating \<le> 5 \<and> (case text of None \<Rightarrow> True | Some t \<Rightarrow> py_len t \<le> 500)
      then Inr () else Inl (ValueError ''ReviewRequest''))"

subsection \<open>HTML\<close>

definition SANITIZE_ALLOWED_TAGS :: "string list" where
  "SANITIZE_ALLOWED_TAGS = [''b'', ''i'', ''u'', ''code'']"

definition escape_html :: "string \<Rightarrow> string" where
  "escape_html text =
     py_replace [CHR 0x27] ''&#39;'' (py_replace ''\"'' ''&quot;'' (py_replace ''>'' ''&gt;''
       (py_replace ''<'' ''&lt;'' (py_replace ''&'' ''&amp;'' text))))"

definition restore_tag :: "string \<Rightarrow> string \<Rightarrow> string" where
  "restore_tag tg text =
     py_replace (''&lt;/'' @ tg @ ''&gt;'') (''</'' @ tg @ ''>'')
       (py_replace (''&lt;'' @ tg @ ''&gt;'') (''<'' @ tg @ ''>'') text)"

definition sanitize_html :: "string \<Rightarrow> string" where
  "sanitize_html text = fold restore_tag SANITIZE_ALLOWED_TAGS (escape_html text)"

text \<open>\<open>BroadcastMessage\<close> with \<open>parse_mode\<close> HTML.\<close>

definition balanced_tag :: "string \<Rightarrow> string \<Rightarrow> bool" where
  "balanced_tag text tg \<longleftrightarrow>
     py_count (''<'' @ tg @ ''>'') text + py_count (''<'' @ tg @ '' '') text = py_count (''</'' @ tg @ ''>'') text"

definition broadcast_message :: "string \<Rightarrow> unit result" where
  "broadcast_message text =
     (if \<not> (1 \<le> py_len text \<and> py_len text \<le> 4096) then Inl (ValueError ''length'')
      else if list_all (balanced_tag text) SANITIZE_ALLOWED_TAGS then Inr ()
      else Inl (ValueError ''Unbalanced HTML tag''))"

subsection \<open>The sanitizer as one pass\<close>

definition html_entity :: "char \<Rightarrow> string" where
  "html_entity c =
     (if c = CHR ''&'' then ''&amp;'' else if c = CHR ''<'' then ''&lt;'' else if c = CHR ''>'' then ''&gt;''
      else if c = CHR ''\"'' then ''&quot;'' else if c = CHR 0x27 then ''&#39;'' else [c])"

text \<open>The names of the tags with and without the slash, in the order they are restored.\<close>

definition tag_bodies :: "string list" where
  "tag_bodies = [''b'', ''/b'', ''i'', ''/i'', ''u'', ''/u'', ''code'', ''/code'']"

definition tag_body :: "string \<Rightarrow> bool" where
  "tag_body tg \<longleftrightarrow> tg \<noteq> [] \<and> list_all (\<lambda>c. c \<notin> set ''&<>\"'' \<and> c \<noteq> CHR 0x27) tg"

definition matching_tag :: "string list \<Rightarrow> string \<Rightarrow> string option" where
  "matching_tag T cs = List.find (\<lambda>tg. starts_with (tg @ ''>'') cs) T"

fun render_html :: "string list \<Rightarrow> nat \<Rightarrow> string \<Rightarrow> string" where
  "render_html T k [] = []"
| "render_html T (Suc k) (c # cs) = c # render_html T k cs"
| "render_html T 0 (c # cs) =
     (case (if c = CHR ''<'' then matching_tag T cs else None) of
        None \<Rightarrow> html_entity c @ render_html T 0 cs
      | Some tg \<Rightarrow> c # render_html T (length tg + 1) cs)"

lemma starts_with_append: "starts_with p s \<longleftrightarrow> (\<exists>r. s = p @ r)"
  unfolding starts_with_def by (metis append_eq_conv_conj append_take_drop_id)

lemma starts_with_Nil [simp]: "starts_with [] s" "starts_with (c # p) [] = False"
  by (simp_all add: starts_with_def)

lemma starts_with_Cons [simp]: "starts_with (c # p) (d # s) \<longleftrightarrow> c = d \<and> starts_with p s"
  by (auto simp: starts_with_def)

lemma replace_from_skip: "replace_from old new (length p) (p @ s) = replace_from old new 0 s"
proof (induction p)
  case Nil
  then show ?case by simp
next
  case (Cons c p)
  then show ?case by simp
qed

lemma replace_from_match:
  "old \<noteq> [] \<Longrightarrow> replace_from old new 0 (old @ s) = new @ replace_from old new 0 s"
  by (cases old) (auto simp: starts_with_append replace_from_skip)

lemma replace_from_no_head:
  "\<forall>c \<in> set p. c \<noteq> hd old \<Longrightarrow> old \<noteq> [] \<Longrightarrow> replace_from old new 0 (p @ s) = p @ replace_from old new 0 s"
proof (induction p)
  case Nil
  then show ?case by simp
next
  case (Cons c p)
  then show ?case by (cases old) auto
qed

text \<open>Replacing one character is a map.\<close>

lemma replace_char: "py_replace [x] new s = concat (map (\<lambda>c. if c = x then new else [c]) s)"
  unfolding py_replace_def by (induction s) auto

lemma escape_html_entities: "escape_html t = concat (map html_entity t)"
  unfolding escape_html_def replace_char by (induction t) (auto simp: html_entity_def)

lemma render_html_none: "render_html [] 0 t = concat (map html_entity t)"
  by (induction t) (auto simp: matching_tag_def)

lemma render_html_plain:
  "list_all (\<lambda>c. html_entity c = [c]) p \<Longrightarrow> render_html T 0 (p @ s) = p @ render_html T 0 s"
  by (induction p) (auto simp: html_entity_def split: if_splits)

lemma render_html_skip: "render_html T (length p) (p @ s) = p @ render_html T 0 s"
  by (induction p) auto

lemma tag_body_plain: "tag_body tg \<Longrightarrow> list_all (\<lambda>c. html_entity c = [c]) tg"
  by (auto simp: tag_body_def list_all_iff html_entity_def)

text \<open>A plain word and an escaped bracket come from that word and a bracket.\<close>

lemma starts_with_render:
  "list_all (\<lambda>c. html_entity c = [c]) p \<Longrightarrow> starts_with (p @ ''&gt;'') (render_html T 0 s) \<Longrightarrow>
     starts_with (p @ ''>'') s"
proof (induction p arbitrary: s)
  case Nil
  then show ?case
    by (cases s) (auto simp: html_entity_def split: if_splits option.splits)
next
  case (Cons c p)
  then show ?case
    by (cases s) (auto simp: html_entity_def split: if_splits option.splits)
qed

lemma matching_tag_Some:
  "matching_tag T cs = Some tg \<Longrightarrow> tg \<in> set T \<and> (\<exists>r. cs = tg @ ''>'' @ r)"
  by (auto simp: matching_tag_def find_Some_iff starts_with_append)

lemma matching_tag_snoc:
  "matching_tag (T @ [tg]) cs = (case matching_tag T cs of Some t \<Rightarrow> Some t
     | None \<Rightarrow> if starts_with (tg @ ''>'') cs then Some tg else None)"
  by (induction T) (auto simp: matching_tag_def)

lemma replace_tag_render:
  assumes "tag_body tg" "list_all tag_body T"
  shows "py_replace (''&lt;'' @ tg @ ''&gt;'') (''<'' @ tg @ ''>'') (render_html T 0 t) = render_html (T @ [tg]) 0 t"
proof (induction t rule: length_induct)
  case (1 t)
  let ?old = "''&lt;'' @ tg @ ''&gt;''" and ?new = "''<'' @ tg @ ''>''"
  have step: "replace_from ?old ?new 0 (render_html T 0 s) = render_html (T @ [tg]) 0 s"
    if "length s < length t" for s
    using 1 that by (simp add: py_replace_def)
  show ?case
  proof (cases t)
    case Nil
    then show ?thesis by (simp add: py_replace_def)
  next
    case (Cons c cs)
    consider (old) u where "c = CHR ''<''" "matching_tag T cs = Some u"
      | (new) "c = CHR ''<''" "matching_tag T cs = None" "starts_with (tg @ ''>'') cs"
      | (none) "c = CHR ''<''" "matching_tag T cs = None" "\<not> starts_with (tg @ ''>'') cs"
      | (char) "c \<noteq> CHR ''<''"
      by blast
    then show ?thesis
    proof cases
      case old
      then obtain r where r: "cs = u @ ''>'' @ r" and u: "tag_body u"
        using matching_tag_Some assms(2) by (fastforce simp: list_all_iff)
      have "render_html T 0 t = (''<'' @ u @ ''>'') @ render_html T 0 r"
        using old Cons r render_html_skip [of T "u @ ''>''" r] by simp
      moreover have "render_html (T @ [tg]) 0 t = (''<'' @ u @ ''>'') @ render_html (T @ [tg]) 0 r"
        using old Cons r render_html_skip [of "T @ [tg]" "u @ ''>''" r] by (simp add: matching_tag_snoc)
      moreover have "replace_from ?old ?new 0 ((''<'' @ u @ ''>'') @ render_html T 0 r) =
          (''<'' @ u @ ''>'') @ replace_from ?old ?new 0 (render_html T 0 r)"
        by (rule replace_from_no_head) (use u in \<open>auto simp: tag_body_def list_all_iff\<close>)
      ultimately show ?thesis
        using step [of r] Cons r by (simp add: py_replace_def)
    next
      case new
      then obtain r where r: "cs = tg @ ''>'' @ r"
        by (auto simp: starts_with_append)
      have "render_html T 0 t = ?old @ render_html T 0 r"
        using new Cons r render_html_plain [OF tag_body_plain [OF assms(1)]]
        by (simp add: html_entity_def)
      moreover have "render_html (T @ [tg]) 0 t = ?new @ render_html (T @ [tg]) 0 r"
        using new Cons r render_html_skip [of "T @ [tg]" "tg @ ''>''" r] by (simp add: matching_tag_snoc)
      ultimately show ?thesis
        using step [of r] Cons r replace_from_match [of ?old ?new "render_html T 0 r"]
        by (simp add: py_replace_def)
    next
      case none
      then have "\<not> starts_with (tg @ ''&gt;'') (render_html T 0 cs)"
        using starts_with_render tag_body_plain [OF assms(1)] by blast
      then have "replace_from ?old ?new 0 (''&lt;'' @ render_html T 0 cs) =
          ''&lt;'' @ replace_from ?old ?new 0 (render_html T 0 cs)"
        by simp
      then show ?thesis
        using none Cons step [of cs] by (simp add: py_replace_def html_entity_def matching_tag_snoc)
    next
      case char
      have "replace_from ?old ?new 0 (html_entity c @ render_html T 0 cs) =
          html_entity c @ replace_from ?old ?new 0 (render_html T 0 cs)"
        using char by (auto simp: html_entity_def)
      then show ?thesis
        using char Cons step [of cs] by (simp add: py_replace_def)
    qed
  qed
qed

lemma replace_tags_render:
  "list_all tag_body Ts \<Longrightarrow> list_all tag_body T \<Longrightarrow>
     fold (\<lambda>tg. py_replace (''&lt;'' @ tg @ ''&gt;'') (''<'' @ tg @ ''>'')) Ts (render_html T 0 t) =
       render_html (T @ Ts) 0 t"
proof (induction Ts arbitrary: T)
  case Nil
  then show ?case by simp
next
  case (Cons tg Ts)
  then show ?case using replace_tag_render [of tg T t] by simp
qed

lemma tag_bodies_ok: "list_all tag_body tag_bodies"
  by (simp add: tag_bodies_def tag_body_def)

lemma sanitize_html_render: "sanitize_html t = render_html tag_bodies 0 t"
proof -
  have "sanitize_html t = fold (\<lambda>tg. py_replace (''&lt;'' @ tg @ ''&gt;'') (''<'' @ tg @ ''>'')) tag_bodies
      (render_html [] 0 t)"
    by (simp add: sanitize_html_def SANITIZE_ALLOWED_TAGS_def restore_tag_def tag_bodies_def
        escape_html_entities render_html_none)
  also have "\<dots> = render_html tag_bodies 0 t"
    using replace_tags_render [OF tag_bodies_ok, of "[]"] by simp
  finally show ?thesis .
qed

text \<open>
  What Telegram is sent: no bracket or quote outside one of the eight tags.
\<close>

function safe_html :: "string \<Rightarrow> bool" where
  "safe_html [] = True"
| "safe_html (c # cs) =
     (if c = CHR ''<'' then (case matching_tag tag_bodies cs of None \<Rightarrow> False
        | Some tg \<Rightarrow> safe_html (drop (length tg + 1) cs))
      else c \<notin> set ''>\"'' \<and> c \<noteq> CHR 0x27 \<and> safe_html cs)"
  by pat_completeness auto
termination
  by (relation "measure length") auto

lemma safe_html_plain:
  "list_all (\<lambda>c. c \<notin> set ''<>\"'' \<and> c \<noteq> CHR 0x27) p \<Longrightarrow> safe_html (p @ s) = safe_html s"
  by (induction p) auto

lemma matching_tag_bodies: "tg \<in> set tag_bodies \<Longrightarrow> matching_tag tag_bodies (tg @ CHR ''>'' # s) = Some tg"
  unfolding tag_bodies_def set_simps insert_iff
  by (elim disjE) (simp_all add: matching_tag_def)

lemma safe_html_tag:
  assumes "matching_tag tag_bodies (tg @ ''>'' @ r) = Some tg"
  shows "safe_html (''<'' @ tg @ ''>'' @ s) = safe_html s"
proof -
  have tg: "tg \<in> set tag_bodies" using assms matching_tag_Some by blast
  have "matching_tag tag_bodies (tg @ ''>'' @ s) = Some tg"
    using matching_tag_bodies [OF tg] by simp
  then show ?thesis by simp
qed

lemma render_html_safe: "safe_html (render_html tag_bodies 0 t)"
proof (induction t rule: length_induct)
  case (1 t)
  show ?case
  proof (cases t)
    case Nil
    then show ?thesis by simp
  next
    case (Cons c cs)
    show ?thesis
    proof (cases "if c = CHR ''<'' then matching_tag tag_bodies cs else None")
      case None
      have "list_all (\<lambda>c. c \<notin> set ''<>\"'' \<and> c \<noteq> CHR 0x27) (html_entity c)"
        by (simp add: html_entity_def)
      then show ?thesis
        using None Cons 1 safe_html_plain by (simp split: if_splits)
    next
      case (Some tg)
      then obtain r where r: "cs = tg @ ''>'' @ r"
        using matching_tag_Some by (fastforce split: if_splits)
      have "render_html tag_bodies 0 t = ''<'' @ tg @ ''>'' @ render_html tag_bodies 0 r"
        using Some Cons r render_html_skip [of tag_bodies "tg @ ''>''" r] by (simp split: if_splits)
      then show ?thesis
        using safe_html_tag [of tg r] Some Cons r 1 by (simp split: if_splits)
    qed
  qed
qed

theorem sanitize_html_one_pass:
  "sanitize_html t = render_html tag_bodies 0 t \<and> safe_html (sanitize_html t)"
  by (simp add: sanitize_html_render render_html_safe)

text \<open>
  The validator counts a tag with attributes as an opening tag, the sanitizer escapes it: such a
  text is accepted and sent with a closing tag that was never opened.
\<close>

lemma attribute_tag_accepted:
  "broadcast_message ''<b x>hi</b>'' = Inr () \<and> sanitize_html ''<b x>hi</b>'' = ''&lt;b x&gt;hi</b>''"
  by code_simp

end
