(* ===== verification/Access.thy ===== *)
theory Access
  imports Promos Validation
begin

text \<open>
  Users, roles and permissions: seeding of the built-in roles (\<open>Role.insert_roles\<close>), the role and
  account operations of \<open>bot/database/methods\<close>, registration (\<open>handlers/user/main.py\<close>), role
  management (\<open>handlers/admin/role_management.py\<close>), blocking and balance changes by an operator
  (\<open>user_management.py\<close>), the filters and the authentication middleware.  A role whose name changed in
  the session is still found under its old name by a query: sessions do not autoflush.
\<close>

subsection \<open>Roles\<close>

definition BUILTIN_ROLE_NAMES :: "string list" where
  "BUILTIN_ROLE_NAMES = [''USER'', ''ADMIN'', ''SUPERADMIN'', ''OPERATOR'', ''MANAGER'']"

definition is_superadmin_role :: "string option \<Rightarrow> bool" where
  "is_superadmin_role name \<longleftrightarrow> name = Some ''SUPERADMIN'' \<or> name = Some ''OWNER''"

definition builtin_roles :: "(string \<times> 32 word list) list" where
  "builtin_roles =
     [(''USER'', [USE]),
      (''OPERATOR'', [USE, USERS_MANAGE, ORDERS_MANAGE, TICKETS_MANAGE, STATS_VIEW]),
      (''MANAGER'', [USE, CATALOG_MANAGE, PROMO_MANAGE, PROVIDERS_MANAGE, STATS_VIEW]),
      (''ADMIN'', [USE, BROADCAST, SETTINGS_MANAGE, USERS_MANAGE, CATALOG_MANAGE, STATS_VIEW, BALANCE_MANAGE,
         PROMO_MANAGE, ORDERS_MANAGE, PROVIDERS_MANAGE, PAYMENTS_CONFIG]),
      (''SUPERADMIN'', ALL_BITS)]"

definition role_by_name :: "shop \<Rightarrow> string \<Rightarrow> role option" where
  "role_by_name s n = find_by r_name n (t_roles s)"

text \<open>\<open>reset_permissions\<close> and \<open>add_permission\<close> for each bit.\<close>

definition perms_of_bits :: "32 word list \<Rightarrow> 32 word" where
  "perms_of_bits bits = fold (\<lambda>b p. p OR b) bits 0"

text \<open>
  One round of the seeding loop: the query sees the table as it was when the session began
  (\<open>stored\<close>), the change is made to the pending rows.
\<close>

definition seed_role :: "role list \<Rightarrow> string \<times> 32 word list \<Rightarrow> shop \<Rightarrow> shop" where
  "seed_role stored nb s =
     (let (n, bits) = nb; perms = perms_of_bits bits
      in case find_by r_name n stored of
           None \<Rightarrow> s\<lparr>t_roles := t_roles s @ [\<lparr>r_id = next_id s, r_name = n, r_default = (n = ''USER''),
               r_permissions = perms\<rparr>], t_seq := next_id s\<rparr>
         | Some r \<Rightarrow> put_role (r\<lparr>r_permissions := perms, r_default := (n = ''USER'')\<rparr>) s)"

definition insert_roles :: "shop \<Rightarrow> (unit \<times> shop) result" where
  "insert_roles =
     run_session (\<lambda>s.
       let stored = t_roles s;
           s1 = (case find_by r_name ''OWNER'' stored of None \<Rightarrow> s
                 | Some legacy \<Rightarrow> put_role (legacy\<lparr>r_name := ''SUPERADMIN''\<rparr>) s);
           s2 = fold (seed_role stored) builtin_roles s1
       in if distinct (map r_name (t_roles s2)) then Inr ((), s2) else Inl (IntegrityError ''roles_name_key''))"

definition create_role :: "string \<Rightarrow> 32 word \<Rightarrow> shop \<Rightarrow> (int option \<times> shop) result" where
  "create_role name permissions =
     run_session (\<lambda>s. if role_by_name s name \<noteq> None then Inr (None, s)
       else Inr (Some (next_id s), s\<lparr>t_roles := t_roles s @ [\<lparr>r_id = next_id s, r_name = name, r_default = False,
              r_permissions = permissions\<rparr>], t_seq := next_id s\<rparr>))"

definition update_role :: "int \<Rightarrow> string \<Rightarrow> 32 word \<Rightarrow> shop \<Rightarrow> ((bool \<times> string option) \<times> shop) result" where
  "update_role role_id name permissions =
     run_session (\<lambda>s. case get_role s role_id of
         None \<Rightarrow> Inr ((False, Some ''Role not found''), s)
       | Some r \<Rightarrow>
           if r_name r \<noteq> name \<and> role_by_name s name \<noteq> None
           then Inr ((False, Some ''Role name already exists''), s)
           else Inr ((True, None), put_role (r\<lparr>r_name := name, r_permissions := permissions\<rparr>) s))"

definition count_users_with_role :: "shop \<Rightarrow> int \<Rightarrow> nat" where
  "count_users_with_role s role_id = length (filter (\<lambda>u. u_role_id u = Some role_id) (t_users s))"

definition delete_role :: "int \<Rightarrow> shop \<Rightarrow> ((bool \<times> string option) \<times> shop) result" where
  "delete_role role_id =
     run_session (\<lambda>s. case get_role s role_id of
         None \<Rightarrow> Inr ((False, Some ''Role not found''), s)
       | Some r \<Rightarrow>
           if r_default r then Inr ((False, Some ''Cannot delete the default role''), s)
           else if r_name r \<in> set BUILTIN_ROLE_NAMES then Inr ((False, Some ''Cannot delete built-in roles''), s)
           else if 0 < count_users_with_role s role_id
           then Inr ((False, Some (''Role has '' @ show_nat (count_users_with_role s role_id) @ '' users assigned'')), s)
           else Inr ((True, None), s\<lparr>t_roles := filter (\<lambda>x. r_id x \<noteq> role_id) (t_roles s)\<rparr>))"

definition set_role :: "int \<Rightarrow> int \<Rightarrow> shop \<Rightarrow> (unit \<times> shop) result" where
  "set_role telegram_id role s =
     tx_bind (run_session (\<lambda>s. case get_user s telegram_id of
         None \<Rightarrow> Inr ((), s)
       | Some u \<Rightarrow> if get_role s role = None then Inl (IntegrityError ''users_role_id_fkey'')
           else Inr ((), put_user (u\<lparr>u_role_id := Some role\<rparr>) s)) s)
     (\<lambda>(_, s1). Inr ((), safe_create_task (InvalidateUserCache telegram_id) s1))"

text \<open>The role of a user; the permission mask is 0 for an unknown user and for a user without a role.\<close>

definition role_of_user :: "shop \<Rightarrow> int \<Rightarrow> role option" where
  "role_of_user s telegram_id = Option.bind (get_user s telegram_id) (\<lambda>u. Option.bind (u_role_id u) (get_role s))"

definition check_role :: "shop \<Rightarrow> int \<Rightarrow> 32 word" where
  "check_role s telegram_id = (case role_of_user s telegram_id of None \<Rightarrow> 0 | Some r \<Rightarrow> r_permissions r)"

definition get_all_roles :: "shop \<Rightarrow> role list" where
  "get_all_roles s = order_by_key (\<lambda>r. uint (r_permissions r)) (t_roles s)"

definition get_roles_with_max_perms :: "shop \<Rightarrow> 32 word \<Rightarrow> role list" where
  "get_roles_with_max_perms s max_perms = filter (\<lambda>r. is_subset (r_permissions r) max_perms) (get_all_roles s)"

definition select_max_role_id :: "shop \<Rightarrow> int option" where
  "select_max_role_id s =
     (case order_by_key (\<lambda>r. - uint (r_permissions r)) (t_roles s) of [] \<Rightarrow> None | r # _ \<Rightarrow> Some (r_id r))"

subsection \<open>Accounts\<close>

text \<open>A lost race or a broken foreign key is swallowed: the flush is rolled back and nothing is raised.\<close>

definition create_user :: "int \<Rightarrow> int \<Rightarrow> int option \<Rightarrow> int option \<Rightarrow> shop \<Rightarrow> (unit \<times> shop) result" where
  "create_user telegram_id registration_date referral_id role s =
     (if get_user s telegram_id \<noteq> None then Inr ((), s)
      else case run_session (\<lambda>s.
          if role \<noteq> None \<and> get_role s (the role) = None then Inl (IntegrityError ''users_role_id_fkey'')
          else if referral_id \<noteq> None \<and> get_user s (the referral_id) = None
          then Inl (IntegrityError ''users_referral_id_fkey'')
          else Inr ((), s\<lparr>t_users := t_users s @ [\<lparr>u_id = telegram_id, u_role_id = role, u_balance = 0,
                 u_referral_id = referral_id, u_registration_date = registration_date, u_is_blocked = False\<rparr>]\<rparr>)) s of
        Inl (IntegrityError m) \<Rightarrow> Inr ((), s)
      | r \<Rightarrow> r)"

definition set_user_blocked :: "int \<Rightarrow> bool \<Rightarrow> shop \<Rightarrow> (bool \<times> shop) result" where
  "set_user_blocked telegram_id blocked s =
     tx_bind (run_session (\<lambda>s. case get_user s telegram_id of
         None \<Rightarrow> Inr (False, s)
       | Some u \<Rightarrow> Inr (True, put_user (u\<lparr>u_is_blocked := blocked\<rparr>) s)) s)
     (\<lambda>(ok, s1). Inr (ok, if ok then safe_create_task (InvalidateUserCache telegram_id) s1 else s1))"

definition is_user_blocked :: "shop \<Rightarrow> int \<Rightarrow> bool" where
  "is_user_blocked s telegram_id = (case get_user s telegram_id of None \<Rightarrow> False | Some u \<Rightarrow> u_is_blocked u)"

definition admin_balance_change :: "env \<Rightarrow> int \<Rightarrow> int \<Rightarrow> shop \<Rightarrow> (bool \<times> string) \<times> shop" where
  "admin_balance_change e telegram_id amount s =
     (case run_session (\<lambda>s. case get_user s telegram_id of
           None \<Rightarrow> Inl (Abort ''user_not_found'')
         | Some u \<Rightarrow>
             if amount < 0 \<and> u_balance u < \<bar>amount\<bar> then Inl (Abort ''insufficient_funds'')
             else Inr ((), add_operation telegram_id amount (env_now e)
                    (put_user (u\<lparr>u_balance := u_balance u + amount\<rparr>) s))) s of
        Inl (Abort c) \<Rightarrow> ((False, c), s)
      | Inl _ \<Rightarrow> ((False, ''balance_change_error''),
          log_audit ''admin_balance_change_failed'' ''WARNING'' (Some telegram_id) (Some ''User'') None s)
      | Inr (_, s1) \<Rightarrow> ((True, ''success''),
          safe_create_task InvalidateStatsCache (safe_create_task (InvalidateUserCache telegram_id) s1)))"

text \<open>
  A code outside the table would be a \<open>KeyError\<close>, which the catch-all turns into
  \<open>errors.something_wrong\<close>.
\<close>

definition REDEEM_PROMO_ERRORS :: "string \<Rightarrow> string option" where
  "REDEEM_PROMO_ERRORS err =
     (if err = ''wrong_type'' then Some ''promo.not_balance_type''
      else if err = ''max_uses'' then Some ''promo.max_uses_reached''
      else if err \<in> {''not_found'', ''inactive'', ''expired'', ''already_used''} then Some (''promo.'' @ err)
      else None)"

definition redeem_abort :: "string \<Rightarrow> exn" where
  "redeem_abort err = (case REDEEM_PROMO_ERRORS err of None \<Rightarrow> OtherError ''KeyError'' | Some c \<Rightarrow> Abort c)"

definition redeem_body :: "env \<Rightarrow> string \<Rightarrow> int \<Rightarrow> shop \<Rightarrow> (int \<times> shop) result" where
  "redeem_body e code user_id s =
     (case get_user s user_id of
        None \<Rightarrow> Inl (Abort ''promo.not_found'')
      | Some u \<Rightarrow>
         (let promo = promo_by_code s (upper code)
          in case promo_rule_error s (env_now e) promo user_id None True None None of
               Some err \<Rightarrow> Inl (redeem_abort err)
             | None \<Rightarrow>
                (case promo of None \<Rightarrow> Inl (OtherError ''AttributeError'')
                 | Some p \<Rightarrow>
                    (let amount = pc_discount_value p;
                         s1 = put_user (u\<lparr>u_balance := u_balance u + amount\<rparr>) s
                     in case record_promo_usage p user_id None s1 of
                          Inl (PromoUsageLimitError c) \<Rightarrow> Inl (redeem_abort c)
                        | Inl err \<Rightarrow> Inl err
                        | Inr (_, s2) \<Rightarrow> Inr (amount, add_operation user_id amount (env_now e) s2)))))"

definition redeem_balance_promo :: "env \<Rightarrow> string \<Rightarrow> int \<Rightarrow> shop \<Rightarrow> (bool \<times> string \<times> int option) \<times> shop" where
  "redeem_balance_promo e code user_id s =
     (case run_session (redeem_body e code user_id) s of
        Inl (Abort c) \<Rightarrow> ((False, c, None), s)
      | Inl _ \<Rightarrow> ((False, ''errors.something_wrong'', None),
          log_audit ''promo_redeem_failed'' ''WARNING'' (Some user_id) (Some ''PromoCode'') (Some code) s)
      | Inr (amount, s1) \<Rightarrow> ((True, '''', Some amount),
          safe_create_task InvalidateStatsCache (safe_create_task (InvalidateUserCache user_id) s1)))"

subsection \<open>Role cache and blocked users\<close>

text \<open>
  The live \<open>AuthenticationMiddleware\<close> (\<open>middleware/security.py\<close>): the set of blocked users and
  whether it was loaded, the in-process role cache with the time of each entry, the maintenance switch,
  and the shared \<open>auth:role:*\<close> keys, which are there only while the cache manager is healthy.
\<close>

record auth =
  au_blocked_users :: "int set"
  au_blocked_loaded :: bool
  au_admin_cache :: "int \<Rightarrow> (32 word \<times> int) option"
  au_shared :: "(int \<Rightarrow> 32 word option) option"
  au_maintenance :: bool

definition ROLE_CACHE_TTL :: int where "ROLE_CACHE_TTL = 300"
definition NEGATIVE_ROLE_TTL :: int where "NEGATIVE_ROLE_TTL = 30"

definition shared_role :: "auth \<Rightarrow> int \<Rightarrow> 32 word option" where
  "shared_role au user_id = Option.bind (au_shared au) (\<lambda>m. m user_id)"

definition live_entry :: "int \<Rightarrow> auth \<Rightarrow> int \<Rightarrow> 32 word option" where
  "live_entry now au user_id =
     (case au_admin_cache au user_id of None \<Rightarrow> None
      | Some (role, timestamp) \<Rightarrow>
          if now - timestamp < (if role \<noteq> 0 then ROLE_CACHE_TTL else NEGATIVE_ROLE_TTL) then Some role else None)"

definition resolve_role_cached :: "int \<Rightarrow> shop \<Rightarrow> int \<Rightarrow> auth \<Rightarrow> 32 word \<times> auth" where
  "resolve_role_cached now s user_id au =
     (case live_entry now au user_id of Some role \<Rightarrow> (role, au)
      | None \<Rightarrow>
          (case shared_role au user_id of
             Some role \<Rightarrow> (role, au\<lparr>au_admin_cache := (au_admin_cache au)(user_id \<mapsto> (role, now))\<rparr>)
           | None \<Rightarrow>
              (let role = check_role s user_id
               in (role, au\<lparr>au_admin_cache := (au_admin_cache au)(user_id \<mapsto> (role, now)),
                     au_shared := (if role \<noteq> 0 then map_option (\<lambda>m. m(user_id \<mapsto> role)) (au_shared au)
                                   else au_shared au)\<rparr>))))"

text \<open>\<open>invalidate_auth_caches\<close>; \<open>DropRoleCache\<close> is the scheduled delete of the shared key.\<close>

definition invalidate_auth_caches :: "int \<Rightarrow> bool option \<Rightarrow> auth \<times> shop \<Rightarrow> auth \<times> shop" where
  "invalidate_auth_caches user_id blocked as =
     (let (au, s) = as
      in (au\<lparr>au_admin_cache := (au_admin_cache au)(user_id := None),
             au_blocked_users := (case blocked of None \<Rightarrow> au_blocked_users au
               | Some True \<Rightarrow> insert user_id (au_blocked_users au)
               | Some False \<Rightarrow> au_blocked_users au - {user_id})\<rparr>,
          safe_create_task (DropRoleCache user_id) s))"

definition flush_all_role_caches :: "auth \<Rightarrow> auth" where
  "flush_all_role_caches au = au\<lparr>au_admin_cache := \<lambda>_. None, au_shared := map_option (\<lambda>_. \<lambda>_. None) (au_shared au)\<rparr>"

definition clear_role_auth_caches :: "auth \<times> shop \<Rightarrow> auth \<times> shop" where
  "clear_role_auth_caches as =
     ((fst as)\<lparr>au_admin_cache := \<lambda>_. None\<rparr>, safe_create_task FlushRoleCaches (snd as))"

text \<open>What the scheduled invalidations do to the role caches once they run.\<close>

definition drop_shared_role :: "int \<Rightarrow> auth \<Rightarrow> auth" where
  "drop_shared_role user_id au = au\<lparr>au_shared := map_option (\<lambda>m. m(user_id := None)) (au_shared au)\<rparr>"

definition run_auth_task :: "bg_task \<Rightarrow> auth \<Rightarrow> auth" where
  "run_auth_task t au =
     (case t of
        InvalidateUserCache u \<Rightarrow>
          (let au1 = drop_shared_role u au in au1\<lparr>au_admin_cache := (au_admin_cache au1)(u := None)\<rparr>)
      | DropRoleCache u \<Rightarrow> drop_shared_role u au
      | FlushRoleCaches \<Rightarrow> au\<lparr>au_shared := map_option (\<lambda>_. \<lambda>_. None) (au_shared au)\<rparr>
      | _ \<Rightarrow> au)"

definition get_blocked_user_ids :: "shop \<Rightarrow> int list" where
  "get_blocked_user_ids s = map u_id (filter u_is_blocked (t_users s))"

definition load_blocked_set :: "shop \<Rightarrow> auth \<Rightarrow> auth" where
  "load_blocked_set s au = au\<lparr>au_blocked_users := set (get_blocked_user_ids s), au_blocked_loaded := True\<rparr>"

definition mw_block_user :: "int \<Rightarrow> auth \<times> shop \<Rightarrow> (bool \<times> auth \<times> shop) result" where
  "mw_block_user user_id as =
     tx_bind (set_user_blocked user_id True (snd as)) (\<lambda>(success, s1).
       Inr (success,
         (if success then (fst as)\<lparr>au_blocked_users := insert user_id (au_blocked_users (fst as))\<rparr> else fst as),
         (if success then log_audit ''block_user'' ''INFO'' (Some user_id) (Some ''User'')
            (Some (show_int user_id)) s1 else s1)))"

definition mw_unblock_user :: "int \<Rightarrow> auth \<times> shop \<Rightarrow> (bool \<times> auth \<times> shop) result" where
  "mw_unblock_user user_id as =
     tx_bind (set_user_blocked user_id False (snd as)) (\<lambda>(success, s1).
       Inr (success,
         (if success then (fst as)\<lparr>au_blocked_users := au_blocked_users (fst as) - {user_id}\<rparr> else fst as),
         (if success then log_audit ''unblock_user'' ''INFO'' (Some user_id) (Some ''User'')
            (Some (show_int user_id)) s1 else s1)))"

subsection \<open>Middleware\<close>

text \<open>
  An update: a message or a callback with its data, the sender, and the age of the message a callback
  belongs to (\<open>None\<close> when the message carries no date).  A middleware either hands the update on or
  refuses it, with the key of the alert it shows.
\<close>

record update =
  ev_is_callback :: bool
  ev_user :: "int option"
  ev_is_bot :: bool
  ev_data :: "string option"
  ev_message_age :: "int option"

datatype verdict = HandOn | Refuse "string option"

fun contains :: "string \<Rightarrow> string \<Rightarrow> bool" where
  "contains p [] = (p = [])"
| "contains p (c # cs) = (starts_with p (c # cs) \<or> contains p cs)"

definition check_suspicious_patterns :: "string \<Rightarrow> bool" where
  "check_suspicious_patterns text \<longleftrightarrow>
     text \<noteq> [] \<and> (4096 < py_len text \<or>
       list_ex (\<lambda>p. contains p (lower text)) [''<script'', ''javascript:'', ''onerror='', ''onclick=''])"

definition critical_actions :: "string list" where
  "critical_actions = [''buy_'', ''pay_'', ''delete_'', ''admin'', ''fill-user-balance'', ''deduct-user-balance'',
     ''role_mgmt'', ''role_new'', ''role_d'', ''asr_'']"

definition replay_protected_actions :: "string list" where
  "replay_protected_actions = [''buy_'', ''pay_'', ''fill-user-balance'', ''deduct-user-balance'']"

definition is_critical_action :: "string option \<Rightarrow> bool" where
  "is_critical_action d \<longleftrightarrow> truthy_str d \<and> list_ex (\<lambda>a. starts_with a (the d)) critical_actions"

definition is_replay_protected :: "string option \<Rightarrow> bool" where
  "is_replay_protected d \<longleftrightarrow> truthy_str d \<and> list_ex (\<lambda>a. starts_with a (the d)) replay_protected_actions"

definition security_middleware :: "update \<Rightarrow> shop \<Rightarrow> verdict \<times> shop" where
  "security_middleware ev s =
     (let s1 = (if ev_is_callback ev \<and> is_critical_action (ev_data ev)
                then log_audit ''critical_action'' ''INFO'' (ev_user ev) None None s else s)
      in if ev_is_callback ev \<and> is_replay_protected (ev_data ev) \<and>
            (case ev_message_age ev of None \<Rightarrow> False | Some a \<Rightarrow> 3600 < a)
         then (Refuse (Some ''middleware.security.session_outdated''), s1)
         else if ev_is_callback ev \<and> truthy_str (ev_data ev) \<and> check_suspicious_patterns (the (ev_data ev))
         then (Refuse (Some ''middleware.security.invalid_data''),
               log_audit ''suspicious_callback'' ''WARNING'' (ev_user ev) None None s1)
         else (HandOn,
               if \<not> ev_is_callback ev \<and> truthy_str (ev_data ev) \<and> check_suspicious_patterns (the (ev_data ev))
               then log_audit ''suspicious_message'' ''WARNING'' (ev_user ev) None None s1 else s1))"

definition admin_callback :: "string option \<Rightarrow> bool" where
  "admin_callback d \<longleftrightarrow> truthy_str d \<and> list_ex (\<lambda>a. starts_with a (the d)) [''admin'', ''console'', ''send_message'']"

text \<open>\<open>AuthenticationMiddleware.__call__\<close>; loading the blocked users from the database succeeds.\<close>

definition auth_middleware :: "int \<Rightarrow> update \<Rightarrow> auth \<times> shop \<Rightarrow> verdict \<times> auth \<times> shop" where
  "auth_middleware now ev as =
     (case ev_user ev of
        None \<Rightarrow> (HandOn, as)
      | Some uid \<Rightarrow>
         (let s = snd as; au = (if au_blocked_loaded (fst as) then fst as else load_blocked_set s (fst as))
          in if uid \<in> au_blocked_users au
             then (Refuse (if ev_is_callback ev then Some ''middleware.security.blocked'' else None), au, s)
             else if ev_is_bot ev
             then (Refuse None, au, log_audit ''bot_interaction'' ''WARNING'' (Some uid) None None s)
             else (let (role, au1) = (if au_maintenance au then resolve_role_cached now s uid au else (USE, au))
                   in if au_maintenance au \<and> \<not> has_any_admin_perm role
                      then (Refuse (Some ''maintenance.active''), au1, s)
                      else if ev_is_callback ev \<and> admin_callback (ev_data ev)
                      then (let (role2, au2) = resolve_role_cached now s uid au1
                            in if has_any_admin_perm role2 then (HandOn, au2, s)
                               else (Refuse (Some ''middleware.security.not_admin''), au2,
                                 log_audit ''unauthorized_admin_access'' ''WARNING'' (Some uid) None None s))
                      else (HandOn, au1, s))))"

definition has_permission_filter :: "int \<Rightarrow> 32 word \<Rightarrow> int \<Rightarrow> auth \<times> shop \<Rightarrow> bool \<times> auth" where
  "has_permission_filter now permission user_id as =
     (let (p, au) = resolve_role_cached now (snd as) user_id (fst as) in (p AND permission = permission, au))"

definition has_any_permission_filter :: "int \<Rightarrow> 32 word \<Rightarrow> int \<Rightarrow> auth \<times> shop \<Rightarrow> bool \<times> auth" where
  "has_any_permission_filter now permissions user_id as =
     (let (p, au) = resolve_role_cached now (snd as) user_id (fst as) in (p AND permissions \<noteq> 0, au))"

definition toggle_maintenance_handler :: "int \<Rightarrow> auth \<times> shop \<Rightarrow> string \<times> auth \<times> shop" where
  "toggle_maintenance_handler user_id as =
     (let au = (fst as)\<lparr>au_maintenance := \<not> au_maintenance (fst as)\<rparr>
      in (if au_maintenance au then ''admin.maintenance.enabled'' else ''admin.maintenance.disabled'', au,
          log_audit ''toggle_maintenance'' ''INFO'' (Some user_id) None None (snd as)))"

subsection \<open>Role management\<close>

text \<open>
  The callbacks of \<open>handlers/admin/role_management.py\<close>.  \<open>caller_perms\<close> is what
  \<open>check_role_cached\<close> answered for the caller, \<open>cached_user\<close> what \<open>check_user_cached\<close> answers.
  The dialogue keeps a draft; the caller's permissions in it are those of the moment it was opened.
\<close>

record role_draft =
  rd_edit :: "int option"
  rd_name :: string
  rd_perms :: "32 word"
  rd_caller_perms :: "32 word"

definition parse_after :: "nat \<Rightarrow> string \<Rightarrow> int option" where
  "parse_after k cb = (case parse_int (drop k cb) of Inl _ \<Rightarrow> None | Inr n \<Rightarrow> Some n)"

definition manageable_role :: "shop \<Rightarrow> 32 word \<Rightarrow> int \<Rightarrow> role option" where
  "manageable_role s caller_perms role_id =
     (case get_role s role_id of None \<Rightarrow> None
      | Some r \<Rightarrow> if is_subset (r_permissions r) caller_perms then Some r else None)"

definition role_management_list :: "shop \<Rightarrow> 32 word \<Rightarrow> role list" where
  "role_management_list s caller_perms = filter (\<lambda>r. is_subset (r_permissions r) caller_perms) (get_all_roles s)"

text \<open>The role, its number of users, and whether the delete button is offered.\<close>

definition role_view_handler :: "string \<Rightarrow> 32 word \<Rightarrow> shop \<Rightarrow> string + role \<times> nat \<times> bool" where
  "role_view_handler cb caller_perms s =
     (case parse_after 7 cb of None \<Rightarrow> Inl ''errors.invalid_data''
      | Some role_id \<Rightarrow>
         (case manageable_role s caller_perms role_id of
            None \<Rightarrow> Inl ''admin.roles.perm_denied''
          | Some r \<Rightarrow> Inr (r, count_users_with_role s role_id,
              \<not> r_default r \<and> r_name r \<notin> set BUILTIN_ROLE_NAMES \<and> count_users_with_role s role_id = 0)))"

definition role_name_ok :: "string \<Rightarrow> bool" where
  "role_name_ok name \<longleftrightarrow> name \<noteq> [] \<and> py_len name \<le> 64"

definition role_create_name :: "string \<Rightarrow> 32 word \<Rightarrow> string + role_draft" where
  "role_create_name text caller_perms =
     (let name = upper (strip text)
      in if \<not> role_name_ok name then Inl ''admin.roles.name_invalid''
         else Inr \<lparr>rd_edit = None, rd_name = name, rd_perms = 0, rd_caller_perms = caller_perms\<rparr>)"

definition role_edit_start :: "string \<Rightarrow> 32 word \<Rightarrow> shop \<Rightarrow> string + role_draft" where
  "role_edit_start cb caller_perms s =
     (case parse_after 7 cb of None \<Rightarrow> Inl ''errors.invalid_data''
      | Some role_id \<Rightarrow>
         (case manageable_role s caller_perms role_id of
            None \<Rightarrow> Inl ''admin.roles.perm_denied''
          | Some r \<Rightarrow> Inr \<lparr>rd_edit = Some role_id, rd_name = r_name r, rd_perms = r_permissions r,
              rd_caller_perms = caller_perms\<rparr>))"

definition role_edit_name :: "string \<Rightarrow> role_draft \<Rightarrow> string + role_draft" where
  "role_edit_name text d =
     (let t = strip text
      in if t = ''/skip'' then Inr d
         else if \<not> role_name_ok (upper t) then Inl ''admin.roles.name_invalid''
         else Inr (d\<lparr>rd_name := upper t\<rparr>))"

text \<open>\<open>int\<close> of the callback is unbounded; a negative number is never part of the caller's mask.\<close>

definition toggle_perm :: "string \<Rightarrow> role_draft \<Rightarrow> string option \<times> role_draft" where
  "toggle_perm cb d =
     (case parse_after 5 cb of None \<Rightarrow> (None, d)
      | Some b \<Rightarrow>
          if b AND uint (rd_caller_perms d) \<noteq> b then (Some ''admin.roles.perm_denied'', d)
          else (None, d\<lparr>rd_perms := rd_perms d XOR word_of_int b\<rparr>))"

definition perms_done :: "int \<Rightarrow> role_draft \<Rightarrow> auth \<times> shop \<Rightarrow> (string \<times> auth \<times> shop) result" where
  "perms_done caller d as =
     (if \<not> is_subset (rd_perms d) (rd_caller_perms d) then Inr (''admin.roles.perm_denied'', as)
      else case rd_edit d of
        None \<Rightarrow>
          tx_bind (create_role (rd_name d) (rd_perms d) (snd as)) (\<lambda>(role_id, s1). Inr (case role_id of
              None \<Rightarrow> (''admin.roles.name_exists'', fst as, s1)
            | Some k \<Rightarrow> (''admin.roles.created'', fst as,
                log_audit ''create_role'' ''INFO'' (Some caller) (Some ''Role'') (Some (show_int k)) s1)))
      | Some role_id \<Rightarrow>
          tx_bind (update_role role_id (rd_name d) (rd_perms d) (snd as)) (\<lambda>((success, err), s1). Inr (
            if success then (''admin.roles.updated'', flush_all_role_caches (fst as),
                log_audit ''update_role'' ''INFO'' (Some caller) (Some ''Role'') (Some (show_int role_id)) s1)
            else (if err = Some ''Role name already exists'' then ''admin.roles.name_exists'' else the err,
                fst as, s1))))"

definition role_delete_confirm :: "int \<Rightarrow> 32 word \<Rightarrow> string \<Rightarrow> shop \<Rightarrow> (string \<times> shop) result" where
  "role_delete_confirm caller caller_perms cb s =
     (case parse_after 8 cb of None \<Rightarrow> Inr (''errors.invalid_data'', s)
      | Some role_id \<Rightarrow>
         (case manageable_role s caller_perms role_id of
            None \<Rightarrow> Inr (''admin.roles.perm_denied'', s)
          | Some r \<Rightarrow>
             tx_bind (delete_role role_id s) (\<lambda>((success, _), s1). Inr (
               if success then (''admin.roles.deleted'',
                 log_audit ''delete_role'' ''INFO'' (Some caller) (Some ''Role'') (Some (show_int role_id)) s1)
               else (''admin.roles.delete_fail'', s1)))))"

text \<open>\<open>check_role_name_by_id\<close>: \<open>scalar_one\<close> raises when there is no such role.\<close>

definition check_role_name_by_id :: "shop \<Rightarrow> int option \<Rightarrow> string result" where
  "check_role_name_by_id s role_id =
     (case Option.bind role_id (get_role s) of None \<Rightarrow> Inl NoResultFound | Some r \<Rightarrow> Inr (r_name r))"

definition assign_role_list ::
    "string \<Rightarrow> 32 word \<Rightarrow> (int \<Rightarrow> user option) \<Rightarrow> shop \<Rightarrow> (string + (role \<times> bool) list) result" where
  "assign_role_list cb caller_perms cached_user s =
     (case parse_after 9 cb of None \<Rightarrow> Inr (Inl ''errors.invalid_data'')
      | Some target_id \<Rightarrow>
         (case cached_user target_id of None \<Rightarrow> Inr (Inl ''admin.users.not_found'')
          | Some u \<Rightarrow>
             tx_bind (check_role_name_by_id s (u_role_id u)) (\<lambda>n. Inr (
               if is_superadmin_role (Some n) then Inl ''admin.users.cannot_change_owner''
               else Inr (map (\<lambda>r. (r, Some (r_id r) = u_role_id u)) (get_roles_with_max_perms s caller_perms))))))"

text \<open>The filter of the callback leaves only two numbers; \<open>role_id\<close> and \<open>target_id\<close> are those.\<close>

definition assign_role_confirm ::
    "int \<Rightarrow> 32 word \<Rightarrow> (int \<Rightarrow> user option) \<Rightarrow> int \<Rightarrow> int \<Rightarrow> auth \<times> shop \<Rightarrow> (string \<times> auth \<times> shop) result" where
  "assign_role_confirm caller caller_perms cached_user role_id target_id as =
     (case manageable_role (snd as) caller_perms role_id of
        None \<Rightarrow> Inr (''admin.roles.perm_denied'', as)
      | Some r \<Rightarrow>
         (case cached_user target_id of None \<Rightarrow> Inr (''admin.users.not_found'', as)
          | Some u \<Rightarrow>
             tx_bind (check_role_name_by_id (snd as) (u_role_id u)) (\<lambda>n.
               if is_superadmin_role (Some n) then Inr (''admin.users.cannot_change_owner'', as)
               else tx_bind (set_role target_id role_id (snd as)) (\<lambda>(_, s1).
                 let (au2, s2) = invalidate_auth_caches target_id None (fst as, s1)
                 in Inr (''admin.roles.assigned'', au2,
                      log_audit ''assign_role'' ''INFO'' (Some caller) (Some ''User'') (Some (show_int target_id)) s2)))))"

subsection \<open>Operator actions on an account\<close>

definition process_replenish_user_balance :: "env \<Rightarrow> int \<Rightarrow> string \<Rightarrow> int \<Rightarrow> shop \<Rightarrow> string \<times> shop" where
  "process_replenish_user_balance e caller text user_id s =
     (case tx_bind (validate_money_amount (strip text) (env_min_amount e) (env_max_amount e))
             (\<lambda>amount. tx_bind (user_data_update user_id (Some amount)) (\<lambda>_. Inr amount)) of
        Inl _ \<Rightarrow> (''payments.replenish_invalid'', s)
      | Inr amount \<Rightarrow>
          (case admin_balance_change e user_id amount s of
             ((False, _), s1) \<Rightarrow> (''errors.something_wrong'', s1)
           | ((True, _), s1) \<Rightarrow> (''admin.users.balance.topped'',
               log_audit ''balance_topup'' ''INFO'' (Some caller) (Some ''User'') (Some (show_int user_id)) s1)))"

definition process_deduct_user_balance :: "env \<Rightarrow> int \<Rightarrow> string \<Rightarrow> int \<Rightarrow> shop \<Rightarrow> string \<times> shop" where
  "process_deduct_user_balance e caller text user_id s =
     (case validate_money_amount (strip text) (env_min_amount e) (env_max_amount e) of
        Inl _ \<Rightarrow> (''payments.deduct_invalid'', s)
      | Inr amount \<Rightarrow>
          (case admin_balance_change e user_id (- amount) s of
             ((False, msg), s1) \<Rightarrow> (if msg = ''insufficient_funds'' then ''admin.users.balance.insufficient''
                else ''errors.something_wrong'', s1)
           | ((True, _), s1) \<Rightarrow> (''admin.users.balance.deducted'',
               log_audit ''balance_deduct'' ''INFO'' (Some caller) (Some ''User'') (Some (show_int user_id)) s1)))"

definition block_user_handler ::
    "int \<Rightarrow> string \<Rightarrow> (int \<Rightarrow> user option) \<Rightarrow> auth \<times> shop \<Rightarrow> (string \<times> auth \<times> shop) result" where
  "block_user_handler caller cb cached_user as =
     (case parse_after 11 cb of None \<Rightarrow> Inr (''errors.invalid_data'', as)
      | Some user_id \<Rightarrow>
         (case cached_user user_id of None \<Rightarrow> Inr (''admin.users.not_found'', as)
          | Some u \<Rightarrow>
             tx_bind (check_role_name_by_id (snd as) (u_role_id u)) (\<lambda>n.
               if is_superadmin_role (Some n) then Inr (''admin.users.cannot_block_owner'', as)
               else tx_bind (mw_block_user user_id as) (\<lambda>(success, au1, s1). Inr (
                 if \<not> success then (''errors.something_wrong'', au1, s1)
                 else (''admin.users.blocked.success'', au1,
                   log_audit ''block_user'' ''INFO'' (Some caller) (Some ''User'') (Some (show_int user_id)) s1))))))"

definition unblock_user_handler :: "int \<Rightarrow> string \<Rightarrow> auth \<times> shop \<Rightarrow> (string \<times> auth \<times> shop) result" where
  "unblock_user_handler caller cb as =
     (case parse_after 13 cb of None \<Rightarrow> Inr (''errors.invalid_data'', as)
      | Some user_id \<Rightarrow>
         tx_bind (mw_unblock_user user_id as) (\<lambda>(success, au1, s1). Inr (
           if \<not> success then (''errors.something_wrong'', au1, s1)
           else (''admin.users.unblocked.success'', au1,
             log_audit ''unblock_user'' ''INFO'' (Some caller) (Some ''User'') (Some (show_int user_id)) s1))))"

subsection \<open>Registration\<close>

text \<open>\<open>_ensure_user\<close>: the cached row is what \<open>check_user_cached\<close> answered.\<close>

definition ensure_user :: "env \<Rightarrow> int \<Rightarrow> user option \<Rightarrow> shop \<Rightarrow> (user option \<times> shop) result" where
  "ensure_user e user_id cached s =
     (if cached \<noteq> None then Inr (cached, s)
      else tx_bind (create_user user_id (env_now e) None (Some 1) s) (\<lambda>(_, s1). Inr (get_user s1 user_id, s1)))"

text \<open>
  \<open>/start\<close>: the second word of the message is the inviter's id.  \<open>subscribed\<close> is the channel check:
  no channel, or the check could not be made, does not block.
\<close>

definition start_payload :: "string \<Rightarrow> string option" where
  "start_payload text =
     (let rest = dropWhile (\<lambda>c. \<not> is_space c) (lstrip_by is_space text); p = strip rest
      in if lstrip_by is_space rest = [] then None else Some p)"

definition start_referrer :: "shop \<Rightarrow> int \<Rightarrow> string \<Rightarrow> int option" where
  "start_referrer s user_id text =
     (case start_payload text of None \<Rightarrow> None
      | Some p \<Rightarrow>
          if is_digits p \<and> p \<noteq> show_int user_id
          then (case parse_nat p of None \<Rightarrow> None
                | Some n \<Rightarrow> if get_user s (int n) \<noteq> None then Some (int n) else None)
          else None)"

definition start :: "env \<Rightarrow> int \<Rightarrow> int \<Rightarrow> string \<Rightarrow> bool option \<Rightarrow> auth \<times> shop \<Rightarrow> (string \<times> auth \<times> shop) result" where
  "start e owner_id user_id text subscribed as =
     (let (role_data, au) = resolve_role_cached (env_now e) (snd as) user_id (fst as); s = snd as
      in tx_bind
        (if role_data \<noteq> 0 then Inr (au, s)
         else tx_bind (create_user user_id (env_now e) (start_referrer s user_id text)
                  (if user_id = owner_id then select_max_role_id s else Some 1) s) (\<lambda>(_, s1).
              let (au1, s2) = invalidate_auth_caches user_id None
                     (run_auth_task (InvalidateUserCache user_id) au, s1)
              in Inr (snd (resolve_role_cached (env_now e) s2 user_id au1), s2)))
        (\<lambda>as1. Inr (if subscribed = Some False then ''subscribe.prompt'' else ''menu.title'', as1)))"

end
