(* ===== verification/Access_Safety.thy ===== *)
theory Access_Safety
  imports Access
begin

text \<open>
  What the access model guarantees: seeding is idempotent and refuses a legacy owner role, role
  operations never escalate, a blocked user stays out whatever else happens, a newly assigned role takes
  effect once the scheduled invalidations ran, and balance changes and redeemed codes are exact.
\<close>

subsection \<open>Seeding the roles\<close>

definition roles_ok :: "shop \<Rightarrow> bool" where
  "roles_ok s \<longleftrightarrow> distinct (map r_id (t_roles s)) \<and> distinct (map r_name (t_roles s)) \<and>
     (\<forall>r \<in> set (t_roles s). r_id r \<le> t_seq s)"

text \<open>What seeding makes of the role with a built-in name.\<close>

definition seeded :: "string \<times> 32 word list \<Rightarrow> role \<Rightarrow> bool" where
  "seeded nb r \<longleftrightarrow> r_name r = fst nb \<and> r_permissions r = perms_of_bits (snd nb) \<and> r_default r = (fst nb = ''USER'')"

definition only_roles_changed :: "shop \<Rightarrow> shop \<Rightarrow> bool" where
  "only_roles_changed s s' \<longleftrightarrow> s'\<lparr>t_roles := t_roles s, t_seq := t_seq s\<rparr> = s"

lemma only_roles_changed_refl [simp]: "only_roles_changed s s"
  by (simp add: only_roles_changed_def)

lemma only_roles_changed_trans:
  "only_roles_changed a b \<Longrightarrow> only_roles_changed b c \<Longrightarrow> only_roles_changed a c"
  by (cases a, cases b, cases c) (auto simp: only_roles_changed_def)

lemma find_by_name_unique:
  assumes "distinct (map r_id rows)" "find_by r_name n rows = Some r"
  shows "find_by r_id (r_id r) rows = Some r"
  using assms find_by_Some_mem find_by_distinct by fastforce

lemma find_by_put_same_key:
  assumes "distinct (map r_id rows)" "find_by r_id (r_id r) rows = Some r0" "r_name r = r_name r0"
  shows "find_by r_name n (put_by r_id r rows) = (if find_by r_name n rows = Some r0 then Some r else find_by r_name n rows)"
  using assms
  by (induction rows) (auto simp: put_absent image_iff dest: find_by_Some_mem find_by_Some_key)

lemma names_put:
  assumes "distinct (map r_id rows)" "find_by r_id (r_id r) rows = Some r0" "r_name r = r_name r0"
  shows "map r_name (put_by r_id r rows) = map r_name rows"
  using assms by (induction rows) (auto simp: put_absent image_iff)

lemma seed_role_step:
  assumes ok: "roles_ok s" and stored: "find_by r_name (fst nb) stored = find_by r_name (fst nb) (t_roles s)"
  defines "s' \<equiv> seed_role stored nb s"
  shows "roles_ok s' \<and> only_roles_changed s s' \<and>
    (\<exists>r. role_by_name s' (fst nb) = Some r \<and> seeded nb r) \<and>
    (\<forall>n. n \<noteq> fst nb \<longrightarrow> role_by_name s' n = role_by_name s n) \<and>
    ((\<exists>r. role_by_name s (fst nb) = Some r \<and> seeded nb r) \<longrightarrow> s' = s)"
proof (cases nb)
  case (Pair n bits)
  show ?thesis
  proof (cases "find_by r_name n (t_roles s)")
    case None
    then have "n \<notin> r_name ` set (t_roles s)" by (simp add: find_by_None_iff)
    moreover have "next_id s \<notin> r_id ` set (t_roles s)"
      using ok by (auto simp: roles_ok_def next_id_def)
    ultimately show ?thesis
      using ok stored None Pair
      by (auto simp: s'_def seed_role_def roles_ok_def role_by_name_def only_roles_changed_def seeded_def
          find_by_append next_id_def split: option.split)
  next
    case (Some r)
    let ?r = "r\<lparr>r_permissions := perms_of_bits bits, r_default := n = ''USER''\<rparr>"
    have ids: "distinct (map r_id (t_roles s))" using ok by (simp add: roles_ok_def)
    have r0: "find_by r_id (r_id ?r) (t_roles s) = Some r"
      using find_by_name_unique [OF ids Some] by simp
    have name: "r_name r = n" using find_by_Some_key [OF Some] .
    have s': "s' = put_role ?r s"
      using Some stored Pair by (simp add: s'_def seed_role_def)
    have keep: "find_by r_name m (put_by r_id ?r (t_roles s)) =
        (if m = n then Some ?r else find_by r_name m (t_roles s))" for m
      using find_by_put_same_key [OF ids r0, of m] Some name find_by_Some_key
      by (fastforce split: if_splits)
    have same: "s' = s" if "seeded nb r"
    proof -
      have "?r = r" using that Pair by (simp add: seeded_def)
      then show ?thesis using s' put_same_row [OF ids, of r] r0 by (simp add: put_role_def)
    qed
    have "roles_ok s'"
      using ok s' names_put [OF ids r0] keys_put [of r_id ?r "t_roles s"]
        set_put [of r_id ?r "t_roles s"] find_by_Some_mem [OF Some]
      by (auto simp: roles_ok_def put_role_def)
    then show ?thesis
      using keep s' same name Pair Some
      by (auto simp: role_by_name_def put_role_def only_roles_changed_def seeded_def)
  qed
qed

lemma seed_roles:
  assumes "roles_ok s" "distinct (map fst nbs)"
    and "\<forall>nb \<in> set nbs. find_by r_name (fst nb) stored = find_by r_name (fst nb) (t_roles s)"
  defines "s' \<equiv> fold (seed_role stored) nbs s"
  shows "roles_ok s' \<and> only_roles_changed s s' \<and>
    (\<forall>nb \<in> set nbs. \<exists>r. role_by_name s' (fst nb) = Some r \<and> seeded nb r) \<and>
    (\<forall>n. n \<notin> fst ` set nbs \<longrightarrow> role_by_name s' n = role_by_name s n) \<and>
    ((\<forall>nb \<in> set nbs. \<exists>r. role_by_name s (fst nb) = Some r \<and> seeded nb r) \<longrightarrow> s' = s)"
  using assms(1-3) unfolding s'_def
proof (induction nbs arbitrary: s)
  case Nil
  then show ?case by simp
next
  case (Cons nb nbs)
  let ?s1 = "seed_role stored nb s"
  note step = seed_role_step [OF Cons.prems(1), of nb stored, OF bspec [OF Cons.prems(3)], simplified]
  have others: "role_by_name ?s1 n = role_by_name s n" if "n \<noteq> fst nb" for n
    using step that by blast
  have "find_by r_name (fst x) stored = find_by r_name (fst x) (t_roles ?s1)" if "x \<in> set nbs" for x
  proof -
    have "fst x \<noteq> fst nb" using Cons.prems(2) that by (auto simp: image_iff)
    then show ?thesis using others [of "fst x"] Cons.prems(3) that by (simp add: role_by_name_def)
  qed
  then have IH: "roles_ok (fold (seed_role stored) nbs ?s1) \<and> only_roles_changed ?s1 (fold (seed_role stored) nbs ?s1) \<and>
    (\<forall>nb \<in> set nbs. \<exists>r. role_by_name (fold (seed_role stored) nbs ?s1) (fst nb) = Some r \<and> seeded nb r) \<and>
    (\<forall>n. n \<notin> fst ` set nbs \<longrightarrow> role_by_name (fold (seed_role stored) nbs ?s1) n = role_by_name ?s1 n) \<and>
    ((\<forall>nb \<in> set nbs. \<exists>r. role_by_name ?s1 (fst nb) = Some r \<and> seeded nb r) \<longrightarrow>
       fold (seed_role stored) nbs ?s1 = ?s1)"
    using Cons.IH [of ?s1] Cons.prems(2) step by simp
  then show ?case
    using step Cons.prems(2) by (auto intro: only_roles_changed_trans)
qed

lemma roles_ok_row: "roles_ok s \<Longrightarrow> r \<in> set (t_roles s) \<Longrightarrow> r' \<in> set (t_roles s) \<Longrightarrow> r_id r = r_id r' \<Longrightarrow> r = r'"
  by (auto simp: roles_ok_def distinct_map inj_on_def)

lemma roles_after_seed:
  "t_roles (seed_role stored nb s) = (case find_by r_name (fst nb) stored of
     None \<Rightarrow> t_roles s @ [\<lparr>r_id = next_id s, r_name = fst nb, r_default = (fst nb = ''USER''),
       r_permissions = perms_of_bits (snd nb)\<rparr>]
   | Some r \<Rightarrow> put_by r_id (r\<lparr>r_permissions := perms_of_bits (snd nb), r_default := (fst nb = ''USER'')\<rparr>) (t_roles s))"
  "t_seq s \<le> t_seq (seed_role stored nb s)"
  by (simp_all add: seed_role_def put_role_def next_id_def Let_def split_beta split: option.split)

lemma put_other_mem: "x \<in> set rows \<Longrightarrow> key r \<noteq> key x \<Longrightarrow> x \<in> set (put_by key r rows)"
  by (induction rows) auto

lemma put_new_mem: "z \<in> set rows \<Longrightarrow> key z = key r \<Longrightarrow> r \<in> set (put_by key r rows)"
  by (induction rows) auto

lemma put_key_set: "key ` set (put_by key r rows) = key ` set rows"
  using keys_put [of key r rows] by (metis set_map)

lemma seed_keeps_row:
  assumes "x \<in> set (t_roles s)" "\<forall>r. find_by r_name (fst nb) stored = Some r \<longrightarrow> r_id r \<noteq> r_id x"
  shows "x \<in> set (t_roles (seed_role stored nb s))"
  using assms by (auto simp: roles_after_seed put_other_mem split: option.split)

lemma seed_keeps_ids:
  "r_id ` set (t_roles s) \<subseteq> r_id ` set (t_roles (seed_role stored nb s)) \<and> t_seq s \<le> t_seq (seed_role stored nb s)"
  by (auto simp: roles_after_seed put_key_set split: option.split)

lemma seed_fold_keeps:
  assumes "x \<in> set (t_roles s)" "\<forall>nb \<in> set nbs. \<forall>r. find_by r_name (fst nb) stored = Some r \<longrightarrow> r_id r \<noteq> r_id x"
  shows "x \<in> set (t_roles (fold (seed_role stored) nbs s)) \<and>
    r_id ` set (t_roles s) \<subseteq> r_id ` set (t_roles (fold (seed_role stored) nbs s)) \<and>
    t_seq s \<le> t_seq (fold (seed_role stored) nbs s)"
  using assms
proof (induction nbs arbitrary: s)
  case Nil
  then show ?case by simp
next
  case (Cons nb nbs)
  then have "x \<in> set (t_roles (seed_role stored nb s))"
    using seed_keeps_row by simp
  then show ?case
    using Cons.IH [of "seed_role stored nb s"] Cons.prems(2) seed_keeps_ids [of s stored nb] by force
qed

text \<open>Seeding adds a row with the built-in name beside a row that was only just renamed to it.\<close>

lemma seed_beside:
  assumes "x \<in> set (t_roles s)" "r_id x \<le> t_seq s"
    and "\<forall>r. find_by r_name n stored = Some r \<longrightarrow> r_id r \<noteq> r_id x \<and> r_id r \<in> r_id ` set (t_roles s)"
  shows "\<exists>y \<in> set (t_roles (seed_role stored (n, bits) s)). r_name y = n \<and> r_id y \<noteq> r_id x"
proof (cases "find_by r_name n stored")
  case None
  then show ?thesis using assms(2) by (auto simp: seed_role_def next_id_def)
next
  case (Some r)
  then obtain z where "z \<in> set (t_roles s)" "r_id z = r_id r" using assms(3) by auto
  then show ?thesis
    using Some assms(3) find_by_Some_key [OF Some]
      put_new_mem [of z "t_roles s" r_id "r\<lparr>r_permissions := perms_of_bits bits, r_default := (n = ''USER'')\<rparr>"]
    by (intro bexI [of _ "r\<lparr>r_permissions := perms_of_bits bits, r_default := (n = ''USER'')\<rparr>"])
      (auto simp: roles_after_seed)
qed

lemma distinct_names_unique:
  "distinct (map r_name rows) \<Longrightarrow> x \<in> set rows \<Longrightarrow> y \<in> set rows \<Longrightarrow> r_name x = r_name y \<Longrightarrow> x = y"
  by (auto simp: distinct_map inj_on_def)

lemma legacy_owner_clash:
  assumes ok: "roles_ok s" and legacy: "role_by_name s ''OWNER'' = Some r"
  shows "insert_roles s = Inl (IntegrityError ''roles_name_key'')"
proof -
  let ?x = "r\<lparr>r_name := ''SUPERADMIN''\<rparr>" and ?st = "t_roles s"
  let ?s1 = "put_role ?x s"
  let ?front = "butlast builtin_roles"
  let ?s2 = "fold (seed_role ?st) ?front ?s1"
  have mem: "r \<in> set ?st" and name: "r_name r = ''OWNER''"
    using legacy find_by_Some_mem find_by_Some_key by (fastforce simp: role_by_name_def)+
  have other: "r_id r' \<noteq> r_id ?x" if "find_by r_name (fst nb) ?st = Some r'" "nb \<in> set builtin_roles" for r' nb
  proof -
    have "r_name r' \<noteq> ''OWNER''" using that find_by_Some_key by (fastforce simp: builtin_roles_def)
    then have "r \<noteq> r'" using name by auto
    then show ?thesis using roles_ok_row [OF ok mem find_by_Some_mem [OF that(1)]] by auto
  qed
  have x1: "?x \<in> set (t_roles ?s1)" using mem by (force simp: put_role_def put_by_def)
  have ids1: "r_id ` set (t_roles ?s1) = r_id ` set ?st"
    using keys_put [of r_id ?x ?st] by (simp add: put_role_def flip: set_map)
  have seq1: "t_seq ?s1 = t_seq s" by (simp add: put_role_def)
  have front: "?x \<in> set (t_roles ?s2) \<and> r_id ` set (t_roles ?s1) \<subseteq> r_id ` set (t_roles ?s2) \<and> t_seq ?s1 \<le> t_seq ?s2"
    by (rule seed_fold_keeps [OF x1]) (use other in \<open>auto dest: in_set_butlastD\<close>)
  have super: "(''SUPERADMIN'', ALL_BITS) \<in> set builtin_roles" by (simp add: builtin_roles_def)
  have beside: "\<exists>y \<in> set (t_roles (seed_role ?st (''SUPERADMIN'', ALL_BITS) ?s2)). r_name y = ''SUPERADMIN'' \<and> r_id y \<noteq> r_id ?x"
  proof (rule seed_beside)
    show "r_id ?x \<le> t_seq ?s2" using front seq1 ok mem by (auto simp: roles_ok_def)
    show "\<forall>r'. find_by r_name ''SUPERADMIN'' ?st = Some r' \<longrightarrow> r_id r' \<noteq> r_id ?x \<and> r_id r' \<in> r_id ` set (t_roles ?s2)"
      using other [of "(''SUPERADMIN'', ALL_BITS)"] super front ids1 find_by_Some_mem by fastforce
  qed (use front in simp)
  moreover have "?x \<in> set (t_roles (seed_role ?st (''SUPERADMIN'', ALL_BITS) ?s2))"
    by (rule seed_keeps_row) (use front other [of "(''SUPERADMIN'', ALL_BITS)"] super in auto)
  moreover have "fold (seed_role ?st) builtin_roles ?s1 = seed_role ?st (''SUPERADMIN'', ALL_BITS) ?s2"
    by (simp add: builtin_roles_def)
  ultimately have "\<not> distinct (map r_name (t_roles (fold (seed_role ?st) builtin_roles ?s1)))"
    by (auto dest: distinct_names_unique [where x = ?x])
  then show ?thesis
    using legacy by (simp add: insert_roles_def run_session_def role_by_name_def Let_def)
qed

lemma check_only_roles: "only_roles_changed s s' \<Longrightarrow> check_violation s' = check_violation s"
  by (cases s, cases s') (auto simp: only_roles_changed_def check_violation_def)

lemma insert_roles_fresh:
  assumes ok: "roles_ok s" and check: "check_violation s = None" and none: "role_by_name s ''OWNER'' = None"
  defines "s' \<equiv> fold (seed_role (t_roles s)) builtin_roles s"
  shows "insert_roles s = Inr ((), s') \<and> roles_ok s' \<and> only_roles_changed s s' \<and>
    (\<forall>nb \<in> set builtin_roles. \<exists>r. role_by_name s' (fst nb) = Some r \<and> seeded nb r) \<and>
    (\<forall>n. n \<notin> fst ` set builtin_roles \<longrightarrow> role_by_name s' n = role_by_name s n) \<and>
    ((\<forall>nb \<in> set builtin_roles. \<exists>r. role_by_name s (fst nb) = Some r \<and> seeded nb r) \<longrightarrow> s' = s)"
proof -
  have "distinct (map fst builtin_roles)" by (simp add: builtin_roles_def)
  note seed = seed_roles [OF ok this, of "t_roles s", simplified, folded s'_def]
  have "insert_roles s = Inr ((), s')"
    using none seed check check_only_roles [of s s']
    by (simp add: insert_roles_def run_session_def role_by_name_def Let_def s'_def commit_def roles_ok_def)
  then show ?thesis using seed by simp
qed

theorem insert_roles_outcome:
  assumes "roles_ok s" "check_violation s = None"
  shows "if role_by_name s ''OWNER'' \<noteq> None then insert_roles s = Inl (IntegrityError ''roles_name_key'')
    else \<exists>s'. insert_roles s = Inr ((), s') \<and> roles_ok s' \<and> only_roles_changed s s' \<and>
      (\<forall>nb \<in> set builtin_roles. \<exists>r. role_by_name s' (fst nb) = Some r \<and> seeded nb r) \<and>
      (\<forall>n. n \<notin> fst ` set builtin_roles \<longrightarrow> role_by_name s' n = role_by_name s n) \<and>
      insert_roles s' = Inr ((), s')"
proof (cases "role_by_name s ''OWNER''")
  case (Some r)
  then show ?thesis using legacy_owner_clash assms(1) by simp
next
  case None
  let ?s' = "fold (seed_role (t_roles s)) builtin_roles s"
  note first = insert_roles_fresh [OF assms None]
  have "role_by_name ?s' ''OWNER'' = None"
    using first None by (simp add: builtin_roles_def)
  moreover have "check_violation ?s' = None"
    using first assms(2) check_only_roles by metis
  ultimately have "insert_roles ?s' = Inr ((), ?s')"
    using insert_roles_fresh [of ?s'] first by simp
  then show ?thesis using first None by auto
qed

subsection \<open>No escalation\<close>

text \<open>
  The three ways an administrator changes permissions, each with the permissions the caller had:
  finishing a role dialogue, deleting a role, assigning a role.
\<close>

datatype role_op =
    PermsDone int role_draft
  | DeleteRole int "32 word" string
  | AssignRole int "32 word" "int \<Rightarrow> user option" int int

fun role_op_perms :: "role_op \<Rightarrow> 32 word" where
  "role_op_perms (PermsDone caller d) = rd_caller_perms d"
| "role_op_perms (DeleteRole caller p cb) = p"
| "role_op_perms (AssignRole caller p cu r t) = p"

text \<open>An operation that raises leaves everything as it was.\<close>

fun run_role_op :: "role_op \<Rightarrow> auth \<times> shop \<Rightarrow> auth \<times> shop" where
  "run_role_op (PermsDone caller d) as = (case perms_done caller d as of Inl _ \<Rightarrow> as | Inr (_, as1) \<Rightarrow> as1)"
| "run_role_op (DeleteRole caller p cb) as =
     (case role_delete_confirm caller p cb (snd as) of Inl _ \<Rightarrow> as | Inr (_, s1) \<Rightarrow> (fst as, s1))"
| "run_role_op (AssignRole caller p cu r t) as =
     (case assign_role_confirm caller p cu r t as of Inl _ \<Rightarrow> as | Inr (_, as1) \<Rightarrow> as1)"

definition given_by :: "role_op list \<Rightarrow> 32 word" where
  "given_by ops = fold (\<lambda>op p. p OR role_op_perms op) ops 0"

definition user_roles_exist :: "shop \<Rightarrow> bool" where
  "user_roles_exist s \<longleftrightarrow>
     list_all (\<lambda>u. case u_role_id u of None \<Rightarrow> True | Some k \<Rightarrow> get_role s k \<noteq> None) (t_users s)"

lemma user_roles_exist_iff:
  "user_roles_exist s \<longleftrightarrow>
     (\<forall>u \<in> set (t_users s). \<forall>k. u_role_id u = Some k \<longrightarrow> (\<exists>r. get_role s k = Some r))"
  by (fastforce simp: user_roles_exist_def list_all_iff split: option.splits)

lemma is_subset_bit: "is_subset a b \<longleftrightarrow> (\<forall>n. bit a n \<longrightarrow> bit b n)"
proof -
  have "bit a n \<Longrightarrow> n < 32" for n using bit_imp_le_length [of a n] by simp
  then show ?thesis unfolding is_subset_def bit_eq_iff by (auto simp: bit_simps)
qed

lemma is_subset_refl [simp]: "is_subset a a" and is_subset_zero [simp]: "is_subset 0 a"
  by (simp_all add: is_subset_bit)

lemma is_subset_or [simp]: "is_subset a (a OR b)" "is_subset b (a OR b)"
  by (simp_all add: is_subset_bit bit_simps)

lemma is_subset_trans: "is_subset a b \<Longrightarrow> is_subset b c \<Longrightarrow> is_subset a c"
  by (simp add: is_subset_bit)

lemma is_subset_or_mono: "is_subset a b \<Longrightarrow> is_subset a (c OR b)"
  by (simp add: is_subset_bit bit_simps)

lemma check_role_cases:
  "check_role s u = (case get_user s u of None \<Rightarrow> 0
     | Some v \<Rightarrow> (case u_role_id v of None \<Rightarrow> 0
        | Some k \<Rightarrow> (case get_role s k of None \<Rightarrow> 0 | Some r \<Rightarrow> r_permissions r)))"
  by (simp add: check_role_def role_of_user_def split: option.split)

lemma check_role_frame:
  "t_users s' = t_users s \<Longrightarrow> t_roles s' = t_roles s \<Longrightarrow> check_role s' u = check_role s u"
  by (simp add: check_role_def role_of_user_def get_user_def get_role_def [abs_def])

lemma user_roles_exist_frame:
  "t_users s' = t_users s \<Longrightarrow> t_roles s' = t_roles s \<Longrightarrow> user_roles_exist s' = user_roles_exist s"
  by (simp add: user_roles_exist_iff get_role_def)

lemma user_role_exists:
  "user_roles_exist s \<Longrightarrow> get_user s k = Some u \<Longrightarrow> u_role_id u = Some r \<Longrightarrow> get_role s r \<noteq> None"
  using find_by_Some_mem by (fastforce simp: user_roles_exist_iff get_user_def)

text \<open>What one of the three does to the permissions of a user whose role exists.\<close>

definition escalates :: "32 word \<Rightarrow> shop \<Rightarrow> shop \<Rightarrow> bool" where
  "escalates p s s' \<longleftrightarrow> user_roles_exist s \<and>
     \<not> (user_roles_exist s' \<and> (\<forall>u. is_subset (check_role s' u) (check_role s u OR p)))"

lemma not_escalates_frame:
  "t_users s' = t_users s \<Longrightarrow> t_roles s' = t_roles s \<Longrightarrow> \<not> escalates p s s'"
  by (simp add: escalates_def check_role_frame [of s' s] user_roles_exist_frame [of s' s])

lemma escalates_cong:
  "t_users s2 = t_users s1 \<Longrightarrow> t_roles s2 = t_roles s1 \<Longrightarrow> escalates p s s2 = escalates p s s1"
  by (simp add: escalates_def check_role_frame [of s2 s1] user_roles_exist_frame [of s2 s1])

lemma not_escalates_log [simp]: "escalates p s (log_audit a l u t i s') = escalates p s s'"
  by (rule escalates_cong) (simp_all add: log_audit_def)

lemma not_escalates_task [simp]: "escalates p s (safe_create_task t s') = escalates p s s'"
  by (rule escalates_cong) (simp_all add: safe_create_task_def)

lemma create_role_no_escalation:
  assumes "create_role n perms s = Inr (res, s')"
  shows "\<not> escalates p s s'"
proof (cases "role_by_name s n")
  case None
  let ?r = "\<lparr>r_id = next_id s, r_name = n, r_default = False, r_permissions = perms\<rparr>"
  have s': "s' = s\<lparr>t_roles := t_roles s @ [?r], t_seq := next_id s\<rparr>"
    using assms None by (simp add: create_role_def tx_simps)
  have old: "get_role s' k = Some r" if "get_role s k = Some r" for k r
    using that s' by (simp add: get_role_def find_by_append)
  have "check_role s' u = check_role s u" if "user_roles_exist s" for u
  proof -
    note exist = that
    have users: "get_user s' u = get_user s u" using s' by (simp add: get_user_def)
    show ?thesis
    proof (cases "Option.bind (get_user s u) u_role_id")
      case None
      then show ?thesis by (auto simp: check_role_cases users split: option.splits)
    next
      case (Some k)
      then obtain v r where "get_user s u = Some v" "u_role_id v = Some k" "get_role s k = Some r"
        using user_role_exists [OF exist] by (fastforce split: bind_splits)
      then show ?thesis by (simp add: check_role_cases users old)
    qed
  qed
  moreover have "user_roles_exist s'" if "user_roles_exist s"
    using that old s' unfolding user_roles_exist_iff by simp blast
  ultimately show ?thesis by (simp add: escalates_def)
next
  case (Some r)
  then have "s' = s" using assms by (auto simp: create_role_def tx_simps)
  then show ?thesis by (simp add: not_escalates_frame)
qed

lemma update_role_no_escalation:
  assumes "update_role k n perms s = Inr (res, s')" "is_subset perms p"
  shows "\<not> escalates p s s'"
proof -
  consider "s' = s" | r where "get_role s k = Some r" "s' = put_role (r\<lparr>r_name := n, r_permissions := perms\<rparr>) s"
    using assms(1) unfolding update_role_def run_session_Inr
    by (simp split: option.splits if_splits)
  then show ?thesis
  proof cases
    case 1
    then show ?thesis by (simp add: not_escalates_frame)
  next
    case 2
    have key: "r_id r = k" using roles.lookup_key [OF 2(1)] .
    have get: "get_role s' j = (if j = k then Some (r\<lparr>r_name := n, r_permissions := perms\<rparr>) else get_role s j)" for j
      using 2 key by (simp add: roles.lookup_store)
    have users: "t_users s' = t_users s" using 2 by (simp add: put_role_def)
    have "user_roles_exist s'" if "user_roles_exist s"
      using that users unfolding user_roles_exist_iff get by auto
    moreover have "is_subset (check_role s' u) (check_role s u OR p)" for u
      using users get assms(2) 2(1)
      by (simp add: check_role_cases get_user_def is_subset_or_mono split: option.split)
    ultimately show ?thesis by (simp add: escalates_def)
  qed
qed

lemma delete_role_no_escalation:
  assumes "delete_role k s = Inr (res, s')"
  shows "\<not> escalates p s s'"
proof -
  have "s' = s \<or> count_users_with_role s k = 0 \<and> s' = s\<lparr>t_roles := filter (\<lambda>x. r_id x \<noteq> k) (t_roles s)\<rparr>"
    using assms unfolding delete_role_def run_session_Inr
    by (simp del: show_nat.simps split: option.splits if_splits)
  then show ?thesis
  proof (elim disjE conjE)
    assume "s' = s"
    then show ?thesis by (simp add: not_escalates_frame)
  next
    assume 2: "count_users_with_role s k = 0" "s' = s\<lparr>t_roles := filter (\<lambda>x. r_id x \<noteq> k) (t_roles s)\<rparr>"
    have unused: "u_role_id u \<noteq> Some k" if "u \<in> set (t_users s)" for u
      using 2(1) that by (auto simp: count_users_with_role_def filter_empty_conv)
    have find: "find_by r_id j (filter (\<lambda>x. r_id x \<noteq> k) rs) = (if j = k then None else find_by r_id j rs)" for j and rs :: "role list"
      by (induction rs) auto
    have get: "get_role s' j = (if j = k then None else get_role s j)" for j
      using 2(2) find by (simp add: get_role_def)
    have tab: "t_users s' = t_users s" using 2(2) by simp
    have "user_roles_exist s'" if "user_roles_exist s"
      unfolding user_roles_exist_iff
    proof (intro ballI allI impI)
      fix u j
      assume u: "u \<in> set (t_users s')" "u_role_id u = Some j"
      then have "u \<in> set (t_users s)" "j \<noteq> k" using tab unused by auto
      then show "\<exists>r. get_role s' j = Some r"
        using u that get [of j] by (simp add: user_roles_exist_iff)
    qed
    moreover have "check_role s' u = check_role s u" for u
    proof -
      have users: "get_user s' u = get_user s u" using tab by (simp add: get_user_def)
      have "u_role_id v \<noteq> Some k" if "get_user s u = Some v" for v
        using that unused find_by_Some_mem by (fastforce simp: get_user_def)
      then show ?thesis by (auto simp: check_role_cases users get split: option.split)
    qed
    ultimately show ?thesis by (simp add: escalates_def)
  qed
qed

lemma set_role_no_escalation:
  assumes "set_role t k s = Inr (res, s')" "get_role s k = Some r" "is_subset (r_permissions r) p"
  shows "\<not> escalates p s s'"
proof -
  consider "s' = safe_create_task (InvalidateUserCache t) s"
    | u where "get_user s t = Some u"
        "s' = safe_create_task (InvalidateUserCache t) (put_user (u\<lparr>u_role_id := Some k\<rparr>) s)"
    using assms(1,2) by (auto simp: set_role_def tx_simps split: option.splits if_splits)
  then show ?thesis
  proof cases
    case 1
    then show ?thesis by (simp add: not_escalates_frame)
  next
    case 2
    let ?s1 = "put_user (u\<lparr>u_role_id := Some k\<rparr>) s"
    have key: "u_id u = t" using users.lookup_key [OF 2(1)] .
    have get: "get_user ?s1 j = (if j = t then Some (u\<lparr>u_role_id := Some k\<rparr>) else get_user s j)" for j
      using 2(1) key by (simp add: users.lookup_store)
    have roles: "get_role ?s1 j = get_role s j" for j by (simp add: get_role_def put_user_def)
    have "user_roles_exist ?s1" if "user_roles_exist s"
      using that set_put [of u_id "u\<lparr>u_role_id := Some k\<rparr>" "t_users s"] assms(2)
      unfolding user_roles_exist_iff roles by (auto simp: put_user_def dest!: subsetD)
    moreover have "is_subset (check_role ?s1 j) (check_role s j OR p)" for j
      using get roles assms(2,3)
      by (simp add: check_role_cases is_subset_or_mono split: option.split)
    ultimately have "\<not> escalates p s ?s1" by (simp add: escalates_def)
    then show ?thesis using 2(2) by simp
  qed
qed

lemma manageable_role_Some:
  "manageable_role s p k = Some r \<Longrightarrow> get_role s k = Some r \<and> is_subset (r_permissions r) p"
  by (auto simp: manageable_role_def split: option.splits if_splits)

lemma run_role_op_safe: "\<not> escalates (role_op_perms op) (snd as) (snd (run_role_op op as))"
proof (cases op)
  case (PermsDone caller d)
  then show ?thesis
    using create_role_no_escalation update_role_no_escalation not_escalates_frame
    by (fastforce simp: perms_done_def tx_bind_def split: sum.splits option.splits if_splits)
next
  case (DeleteRole caller p cb)
  then show ?thesis
    using delete_role_no_escalation not_escalates_frame
    by (fastforce simp: role_delete_confirm_def tx_bind_def split: sum.splits option.splits if_splits)
next
  case (AssignRole caller p cu k t)
  then show ?thesis
    using set_role_no_escalation manageable_role_Some not_escalates_frame
    by (fastforce simp: assign_role_confirm_def invalidate_auth_caches_def tx_bind_def
        split: sum.splits option.splits if_splits)
qed

lemma given_by_acc: "fold (\<lambda>op p. p OR role_op_perms op) ops a = a OR given_by ops"
proof (induction ops arbitrary: a)
  case Nil
  then show ?case by (simp add: given_by_def)
next
  case (Cons op ops)
  show ?case
    using Cons [of "a OR role_op_perms op"] Cons [of "role_op_perms op"]
    by (simp add: given_by_def or.assoc)
qed

text \<open>C23: Over any sequence of role edits, role deletions and role assignments, successful or refused,
  no user ends up with a permission bit that he did not have before and that none of the acting
  administrators held; and no user is left with a role that does not exist.\<close>
theorem role_ops_no_escalation:
  assumes "user_roles_exist (snd as)"
  shows "user_roles_exist (snd (fold run_role_op ops as)) \<and>
    (\<forall>u. is_subset (check_role (snd (fold run_role_op ops as)) u) (check_role (snd as) u OR given_by ops))"
  using assms
proof (induction ops arbitrary: as)
  case Nil
  then show ?case by (simp add: given_by_def)
next
  case (Cons op ops)
  let ?as1 = "run_role_op op as"
  have step: "user_roles_exist (snd ?as1)" "\<And>u. is_subset (check_role (snd ?as1) u) (check_role (snd as) u OR role_op_perms op)"
    using run_role_op_safe [of op as] Cons.prems by (auto simp: escalates_def)
  have "given_by (op # ops) = role_op_perms op OR given_by ops"
    using given_by_acc [of ops "role_op_perms op"] by (simp add: given_by_def)
  then show ?case
    using Cons.IH [OF step(1)] step(2) by (auto simp: is_subset_bit bit_simps)
qed

subsection \<open>Blocked users stay out\<close>

text \<open>
  \<open>UserAdmin.after_model_change\<close> of the web panel: the row as SQLAdmin saved it, the audit entry, and
  the invalidation with the new block state.
\<close>

definition panel_user_saved :: "user \<Rightarrow> auth \<times> shop \<Rightarrow> auth \<times> shop" where
  "panel_user_saved u as =
     (let s1 = log_audit ''sqladmin_update'' ''INFO'' None (Some ''User'') None (put_user u (snd as))
      in invalidate_auth_caches (u_id u) (Some (u_is_blocked u))
           (fst as, safe_create_task (InvalidateUserCache (u_id u)) s1))"

text \<open>What can change the block state or the role caches while the bot runs.\<close>

datatype auth_op =
    BlockUser int
  | UnblockUser int
  | PanelSaved user
  | HandleUpdate int update
  | ToggleMaintenance int
  | RunTask bg_task
  | RegisterUser env int int string
  | ChangeRoles role_op

fun run_auth_op :: "auth_op \<Rightarrow> auth \<times> shop \<Rightarrow> auth \<times> shop" where
  "run_auth_op (BlockUser u) as = (case mw_block_user u as of Inl _ \<Rightarrow> as | Inr (_, as1) \<Rightarrow> as1)"
| "run_auth_op (UnblockUser u) as = (case mw_unblock_user u as of Inl _ \<Rightarrow> as | Inr (_, as1) \<Rightarrow> as1)"
| "run_auth_op (PanelSaved u) as = (if get_user (snd as) (u_id u) = None then as else panel_user_saved u as)"
| "run_auth_op (HandleUpdate now ev) as = snd (auth_middleware now ev as)"
| "run_auth_op (ToggleMaintenance u) as = snd (toggle_maintenance_handler u as)"
| "run_auth_op (RunTask t) as = (run_auth_task t (fst as), snd as)"
| "run_auth_op (RegisterUser e owner u text) as =
     (case start e owner u text None as of Inl _ \<Rightarrow> as | Inr (_, as1) \<Rightarrow> as1)"
| "run_auth_op (ChangeRoles op) as = run_role_op op as"

definition blocked_in_sync :: "auth \<times> shop \<Rightarrow> bool" where
  "blocked_in_sync as \<longleftrightarrow> distinct (map u_id (t_users (snd as))) \<and>
     (au_blocked_loaded (fst as) \<longrightarrow> au_blocked_users (fst as) = set (get_blocked_user_ids (snd as)))"

lemma is_user_blocked_iff:
  assumes "distinct (map u_id (t_users s))"
  shows "is_user_blocked s k \<longleftrightarrow> k \<in> set (get_blocked_user_ids s)"
proof -
  have "(case find_by u_id k us of None \<Rightarrow> False | Some u \<Rightarrow> u_is_blocked u) \<longleftrightarrow> k \<in> u_id ` {u \<in> set us. u_is_blocked u}"
    if "distinct (map u_id us)" for us :: "user list"
    using that by (induction us) (auto simp: find_by_None_iff image_iff split: option.split)
  then show ?thesis using assms by (simp add: is_user_blocked_def get_blocked_user_ids_def get_user_def)
qed

lemma blocked_ids_zip:
  "get_blocked_user_ids s = map fst (filter snd (zip (map u_id (t_users s)) (map u_is_blocked (t_users s))))"
proof -
  have "map u_id (filter u_is_blocked us) = map fst (filter snd (zip (map u_id us) (map u_is_blocked us)))" for us
    by (induction us) auto
  then show ?thesis by (simp add: get_blocked_user_ids_def)
qed

lemma blocked_ids_cong:
  "map u_id (t_users s') = map u_id (t_users s) \<Longrightarrow> map u_is_blocked (t_users s') = map u_is_blocked (t_users s) \<Longrightarrow>
     get_blocked_user_ids s' = get_blocked_user_ids s"
  by (simp only: blocked_ids_zip)

lemma blocked_ids_put:
  assumes "distinct (map u_id us)" "find_by u_id (u_id v) us \<noteq> None"
  shows "set (map u_id (filter u_is_blocked (put_by u_id v us))) =
    (if u_is_blocked v then insert (u_id v) (set (map u_id (filter u_is_blocked us)))
     else set (map u_id (filter u_is_blocked us)) - {u_id v})"
  using assms
proof (induction us)
  case Nil
  then show ?case by simp
next
  case (Cons x us)
  show ?case
  proof (cases "u_id x = u_id v")
    case True
    then have "u_id v \<notin> u_id ` set us" using Cons.prems(1) by auto
    then have "put_by u_id v us = us" and "\<forall>y \<in> set us. u_id y \<noteq> u_id v"
      using put_absent [of u_id v us] by (auto simp: image_iff)
    then show ?thesis using True by auto
  next
    case False
    then show ?thesis using Cons by (auto split: if_splits)
  qed
qed

lemma blocked_frame:
  assumes "blocked_in_sync (au, s)" "au_blocked_users au' = au_blocked_users au"
    and "au_blocked_loaded au' = au_blocked_loaded au"
    and "map u_id (t_users s') = map u_id (t_users s)" "map u_is_blocked (t_users s') = map u_is_blocked (t_users s)"
  shows "blocked_in_sync (au', s')"
  using assms blocked_ids_cong [of s' s] by (simp add: blocked_in_sync_def)

text \<open>Writing a user row together with the matching change of the set keeps both in step.\<close>

lemma in_sync_put:
  assumes "blocked_in_sync (au, s)" "get_user s (u_id v) = Some u"
    and "au_blocked_loaded au' = au_blocked_loaded au" "t_users s' = put_by u_id v (t_users s)"
    and "au_blocked_users au' = (if u_is_blocked v then insert (u_id v) (au_blocked_users au)
                                 else au_blocked_users au - {u_id v})"
  shows "blocked_in_sync (au', s')"
  using assms blocked_ids_put [of "t_users s" v] keys_put [of u_id v "t_users s"]
  by (simp add: blocked_in_sync_def get_blocked_user_ids_def get_user_def del: set_map)

lemma resolve_keeps_blocked:
  "au_blocked_users (snd (resolve_role_cached now s u au)) = au_blocked_users au \<and>
   au_blocked_loaded (snd (resolve_role_cached now s u au)) = au_blocked_loaded au"
  by (simp add: resolve_role_cached_def Let_def split: option.split)

lemma set_user_blocked_Inr:
  assumes "set_user_blocked k b s = Inr (ok, s')"
  shows "(\<not> ok \<and> s' = s \<and> get_user s k = None) \<or>
    (ok \<and> (\<exists>u. get_user s k = Some u \<and> t_users s' = put_by u_id (u\<lparr>u_is_blocked := b\<rparr>) (t_users s)))"
  using assms by (auto simp: set_user_blocked_def tx_simps put_user_def safe_create_task_def split: option.splits)

lemma create_user_users:
  assumes "create_user k t r role s = Inr (x, s')"
  shows "t_users s' = t_users s \<or>
    (get_user s k = None \<and> (\<exists>u. t_users s' = t_users s @ [u] \<and> u_id u = k \<and> \<not> u_is_blocked u))"
  using assms
  by (auto simp: create_user_def tx_simps split: if_splits sum.splits exn.splits)

lemma in_sync_blocked:
  "blocked_in_sync (au, s) \<Longrightarrow> au_blocked_loaded au \<Longrightarrow> k \<in> au_blocked_users au \<longleftrightarrow> is_user_blocked s k"
  by (simp add: blocked_in_sync_def is_user_blocked_iff)

lemma auth_middleware_state:
  assumes "auth_middleware now ev (au, s) = (v, au', s')"
  shows "t_users s' = t_users s \<and>
    ((au_blocked_users au' = au_blocked_users au \<and> au_blocked_loaded au' = au_blocked_loaded au) \<or>
     (au_blocked_users au' = set (get_blocked_user_ids s) \<and> au_blocked_loaded au'))"
proof (cases "ev_user ev")
  case None
  then show ?thesis using assms by (simp add: auth_middleware_def)
next
  case (Some uid)
  let ?au = "if au_blocked_loaded au then au else load_blocked_set s au"
  have "t_users s' = t_users s \<and> au_blocked_users au' = au_blocked_users ?au \<and> au_blocked_loaded au'"
    using assms Some resolve_keeps_blocked
    by (auto simp: auth_middleware_def Let_def split_beta load_blocked_set_def log_audit_def
        split: if_splits)
  then show ?thesis by (auto simp: load_blocked_set_def split: if_splits)
qed

lemma in_sync_cong:
  assumes "blocked_in_sync (au, s)" "au_blocked_users au' = au_blocked_users au"
    and "au_blocked_loaded au' = au_blocked_loaded au" "t_users s' = t_users s"
  shows "blocked_in_sync (au', s')"
  using assms by (auto intro: blocked_frame)

lemma in_sync_block:
  assumes "blocked_in_sync (au, s)" "set_user_blocked k b s = Inr (ok, s')"
  shows "blocked_in_sync (if ok then au\<lparr>au_blocked_users := (if b then insert k (au_blocked_users au)
      else au_blocked_users au - {k})\<rparr> else au, s')"
  using set_user_blocked_Inr [OF assms(2)]
proof (elim disjE conjE exE)
  assume "\<not> ok" "s' = s"
  then show ?thesis using assms(1) by simp
next
  fix u
  assume ok: "ok" and u: "get_user s k = Some u" and s': "t_users s' = put_by u_id (u\<lparr>u_is_blocked := b\<rparr>) (t_users s)"
  have "u_id u = k" using users.lookup_key [OF u] .
  then show ?thesis
    using in_sync_put [OF assms(1), of "u\<lparr>u_is_blocked := b\<rparr>" u] u s' ok by (cases b) simp_all
qed

lemma set_role_blocked_flags:
  assumes "users_ok s" "get_user s (u_id v) = Some u" "u_is_blocked v = u_is_blocked u"
  shows "map u_id (put_by u_id v (t_users s)) = map u_id (t_users s) \<and>
    map u_is_blocked (put_by u_id v (t_users s)) = map u_is_blocked (t_users s)"
proof -
  have "map u_is_blocked (put_by u_id v us) = map u_is_blocked us"
    if "distinct (map u_id us)" "find_by u_id (u_id v) us = Some u" "u_is_blocked v = u_is_blocked u" for us
    using that
  proof (induction us)
    case Nil
    then show ?case by simp
  next
    case (Cons x us)
    then show ?case by (cases "u_id x = u_id v") (auto simp: put_absent image_iff)
  qed
  then show ?thesis using assms keys_put by (auto simp: users_ok_def get_user_def)
qed

text \<open>No role operation touches the block state.\<close>

definition same_blocks :: "auth \<times> shop \<Rightarrow> auth \<times> shop \<Rightarrow> bool" where
  "same_blocks as as' \<longleftrightarrow> au_blocked_users (fst as') = au_blocked_users (fst as) \<and>
     au_blocked_loaded (fst as') = au_blocked_loaded (fst as) \<and>
     (users_ok (snd as) \<longrightarrow> map u_id (t_users (snd as')) = map u_id (t_users (snd as)) \<and>
        map u_is_blocked (t_users (snd as')) = map u_is_blocked (t_users (snd as)))"

lemma same_blocks_users:
  "au_blocked_users au' = au_blocked_users au \<Longrightarrow> au_blocked_loaded au' = au_blocked_loaded au \<Longrightarrow>
     t_users s' = t_users s \<Longrightarrow> same_blocks (au, s) (au', s')"
  by (simp add: same_blocks_def)

lemma role_row_users:
  "create_role n p s = Inr (r, s') \<Longrightarrow> t_users s' = t_users s"
  "update_role k n p s = Inr (r', s') \<Longrightarrow> t_users s' = t_users s"
  by (auto simp: create_role_def update_role_def tx_simps put_role_def split: option.splits if_splits)

lemma delete_role_users:
  assumes "delete_role k s = Inr (r, s')"
  shows "t_users s' = t_users s"
proof -
  have "\<exists>rs. s' = s\<lparr>t_roles := rs\<rparr>"
  proof (cases "s' = s")
    case True
    then show ?thesis by (metis shop.surjective shop.update_convs(1))
  next
    case False
    then show ?thesis
      using assms unfolding delete_role_def run_session_Inr
      by (simp del: show_nat.simps split: option.splits if_splits) metis
  qed
  then show ?thesis by auto
qed

lemma perms_done_blocks: "perms_done c d (au, s) = Inr (x, au', s') \<Longrightarrow> same_blocks (au, s) (au', s')"
  by (rule same_blocks_users)
    (auto simp: perms_done_def tx_simps log_audit_def flush_all_role_caches_def
      dest!: role_row_users split: option.splits if_splits)

lemma role_delete_blocks: "role_delete_confirm c p cb s = Inr (x, s') \<Longrightarrow> same_blocks (au, s) (au, s')"
  by (rule same_blocks_users)
    (auto simp: role_delete_confirm_def tx_simps log_audit_def dest!: delete_role_users
      split: option.splits if_splits)

lemma assign_role_blocks:
  assumes "assign_role_confirm c p cu k t (au, s) = Inr (x, au', s')"
  shows "same_blocks (au, s) (au', s')"
proof -
  consider "au' = au" "s' = s"
    | y s1 where "set_role t k s = Inr (y, s1)" "t_users s' = t_users s1"
        "au_blocked_users au' = au_blocked_users au" "au_blocked_loaded au' = au_blocked_loaded au"
    using assms
    by (auto simp: assign_role_confirm_def tx_simps invalidate_auth_caches_def log_audit_def safe_create_task_def
        Let_def split: option.splits if_splits)
  then show ?thesis
  proof cases
    case 1
    then show ?thesis by (simp add: same_blocks_def)
  next
    case 2
    have "t_users s1 = t_users s \<or>
        (\<exists>u. get_user s t = Some u \<and> t_users s1 = put_by u_id (u\<lparr>u_role_id := Some k\<rparr>) (t_users s))"
      using 2(1) by (auto simp: set_role_def tx_simps safe_create_task_def put_user_def split: option.splits if_splits)
    then show ?thesis
    proof (elim disjE exE conjE)
      assume "t_users s1 = t_users s"
      then show ?thesis using 2 by (simp add: same_blocks_def)
    next
      fix u
      assume u: "get_user s t = Some u" "t_users s1 = put_by u_id (u\<lparr>u_role_id := Some k\<rparr>) (t_users s)"
      then show ?thesis
        using 2 set_role_blocked_flags [of s "u\<lparr>u_role_id := Some k\<rparr>" u] users.lookup_key [OF u(1)]
        by (simp add: same_blocks_def)
    qed
  qed
qed

lemma run_role_op_blocks: "same_blocks as (run_role_op op as)"
proof (cases as)
  case (Pair au s)
  have refl: "same_blocks as as" by (simp add: same_blocks_def)
  show ?thesis
  proof (cases op)
    case (PermsDone c d)
    then show ?thesis using refl perms_done_blocks Pair by (auto split: sum.split)
  next
    case (DeleteRole c p cb)
    then show ?thesis using refl role_delete_blocks Pair by (auto split: sum.split)
  next
    case (AssignRole c p cu k t)
    then show ?thesis using refl assign_role_blocks Pair by (auto split: sum.split)
  qed
qed

lemma in_sync_same_blocks: "blocked_in_sync as \<Longrightarrow> same_blocks as as' \<Longrightarrow> blocked_in_sync as'"
  using blocked_ids_cong [of "snd as'" "snd as"]
  by (cases as, cases as') (auto simp: same_blocks_def users_ok_def blocked_in_sync_def)

lemma start_in_sync:
  assumes "blocked_in_sync (au, s)" "start e owner k text sub (au, s) = Inr (x, au', s')"
  shows "blocked_in_sync (au', s')"
proof -
  let ?au = "snd (resolve_role_cached (env_now e) s k au)"
  have au1: "blocked_in_sync (?au, s)"
    using in_sync_cong [OF assms(1)] resolve_keeps_blocked by blast
  have run: "au_blocked_users (run_auth_task (InvalidateUserCache k) a) = au_blocked_users a \<and>
      au_blocked_loaded (run_auth_task (InvalidateUserCache k) a) = au_blocked_loaded a" for a
    by (simp add: run_auth_task_def drop_shared_role_def Let_def)
  have inv: "au_blocked_users (fst (invalidate_auth_caches k None (a, t))) = au_blocked_users a \<and>
      au_blocked_loaded (fst (invalidate_auth_caches k None (a, t))) = au_blocked_loaded a \<and>
      t_users (snd (invalidate_auth_caches k None (a, t))) = t_users t" for a t
    by (simp add: invalidate_auth_caches_def safe_create_task_def)
  consider "au' = ?au" "s' = s"
    | y s1 r where "create_user k (env_now e) r (if k = owner then select_max_role_id s else Some 1) s = Inr (y, s1)"
        "t_users s' = t_users s1" "au_blocked_users au' = au_blocked_users ?au"
        "au_blocked_loaded au' = au_blocked_loaded ?au"
  proof (cases "fst (resolve_role_cached (env_now e) s k au) = 0")
    case False
    then have "tx_bind (Inr (?au, s)) (\<lambda>as1. Inr (if sub = Some False then ''subscribe.prompt'' else ''menu.title'', as1)) =
        Inr (x, au', s')"
      using assms(2) by (simp only: start_def split_beta Let_def fst_conv snd_conv if_True not_False_eq_True simp_thms)
    then have "?au = au' \<and> s = s'" unfolding tx_bind_Inr sum.inject prod.inject by blast
    then show ?thesis using that(1) [OF sym sym] by blast
  next
    case True
    let ?inv = "\<lambda>s1. invalidate_auth_caches k None (run_auth_task (InvalidateUserCache k) ?au, s1)"
    obtain y s1 where c: "create_user k (env_now e) (start_referrer s k text)
          (if k = owner then select_max_role_id s else Some 1) s = Inr (y, s1)"
      and fin: "au' = snd (resolve_role_cached (env_now e) (snd (?inv s1)) k (fst (?inv s1)))" "s' = snd (?inv s1)"
      using assms(2) True by (fastforce simp: start_def split_beta Let_def tx_bind_eq_Inr)
    show ?thesis
      by (rule that(2) [OF c]) (simp_all add: fin resolve_keeps_blocked inv run)
  qed
  then show ?thesis
  proof cases
    case 1
    then show ?thesis using au1 by simp
  next
    case 2
    show ?thesis
      using create_user_users [OF 2(1)]
    proof (elim disjE conjE exE)
      assume "t_users s1 = t_users s"
      then show ?thesis using in_sync_cong [OF au1, of au' s'] 2 by simp
    next
      fix u
      assume u: "get_user s k = None" "t_users s1 = t_users s @ [u]" "u_id u = k" "\<not> u_is_blocked u"
      then have "u_id u \<notin> u_id ` set (t_users s)" by (simp add: get_user_def find_by_None_iff)
      then show ?thesis
        using au1 u 2 by (auto simp: blocked_in_sync_def get_blocked_user_ids_def)
    qed
  qed
qed

lemma run_auth_op_in_sync: "blocked_in_sync as \<Longrightarrow> blocked_in_sync (run_auth_op op as)"
proof -
  assume sync: "blocked_in_sync as"
  obtain au s where as: "as = (au, s)" by (cases as)
  have block: "blocked_in_sync (au', s')" if "set_user_blocked k b s = Inr (ok, s1)" "t_users s' = t_users s1"
    "au' = (if ok then au\<lparr>au_blocked_users := (if b then insert k (au_blocked_users au)
        else au_blocked_users au - {k})\<rparr> else au)" for k b ok s1 au' s'
    using in_sync_block [OF sync [unfolded as] that(1)] that(2,3) by (auto intro: in_sync_cong)
  show ?thesis
  proof (cases op)
    case (BlockUser k)
    then show ?thesis
      using sync as block [of k True]
      by (auto simp: mw_block_user_def tx_bind_def log_audit_def split: sum.splits)
  next
    case (UnblockUser k)
    then show ?thesis
      using sync as block [of k False]
      by (auto simp: mw_unblock_user_def tx_bind_def log_audit_def split: sum.splits)
  next
    case (PanelSaved u)
    show ?thesis
    proof (cases "get_user s (u_id u)")
      case None
      then show ?thesis using PanelSaved sync as by simp
    next
      case (Some u0)
      then show ?thesis
        using PanelSaved as in_sync_put [OF sync [unfolded as], of u u0]
        by (cases "u_is_blocked u")
          (simp_all add: panel_user_saved_def invalidate_auth_caches_def safe_create_task_def log_audit_def put_user_def)
    qed
  next
    case (HandleUpdate now ev)
    obtain v au' s' where res: "auth_middleware now ev (au, s) = (v, au', s')"
      by (metis prod_cases3)
    have "blocked_in_sync (au', s')"
      using auth_middleware_state [OF res] sync as
      by (auto simp: blocked_in_sync_def get_blocked_user_ids_def)
    then show ?thesis using HandleUpdate as res by simp
  next
    case (ToggleMaintenance k)
    then show ?thesis
      using sync as by (auto simp: toggle_maintenance_handler_def log_audit_def Let_def intro: in_sync_cong)
  next
    case (RunTask t)
    then show ?thesis
      using sync as in_sync_cong [OF sync [unfolded as], of "run_auth_task t au" s]
      by (cases t) (simp_all add: run_auth_task_def drop_shared_role_def Let_def)
  next
    case (RegisterUser e owner k msg)
    then show ?thesis
      using sync as start_in_sync by (auto split: sum.split)
  next
    case (ChangeRoles rop)
    then show ?thesis using sync run_role_op_blocks in_sync_same_blocks by auto
  qed
qed

text \<open>The verdict on an update of a person, as the block state decides it.\<close>

lemma auth_middleware_blocked:
  assumes "blocked_in_sync (au, s)" "ev_user ev = Some uid"
  shows "fst (auth_middleware now ev (au, s)) =
      Refuse (if ev_is_callback ev then Some ''middleware.security.blocked'' else None) \<longleftrightarrow>
    is_user_blocked s uid \<or> (\<not> ev_is_callback ev \<and> ev_is_bot ev)"
proof -
  let ?au = "if au_blocked_loaded au then au else load_blocked_set s au"
  have sync: "blocked_in_sync (?au, s)" and loaded: "au_blocked_loaded ?au"
    using assms(1) by (auto simp: blocked_in_sync_def load_blocked_set_def)
  note iff = in_sync_blocked [OF sync loaded, of uid]
  show ?thesis
    using assms(2) iff by (auto simp: auth_middleware_def Let_def split_beta)
qed

text \<open>C24: Whatever sequence of blocks, unblocks, panel edits, registrations, role changes, background
  tasks and handled updates happens, the middleware's set of blocked users stays equal to the
  blocked rows of the database, and a button press is answered as blocked exactly when its sender
  is blocked.\<close>
theorem blocked_users_stay_out:
  assumes "blocked_in_sync as" "ev_user ev = Some uid" "ev_is_callback ev"
    and as': "as' = fold run_auth_op ops as"
  shows "blocked_in_sync as' \<and>
    (fst (auth_middleware now ev as') = Refuse (Some ''middleware.security.blocked'') \<longleftrightarrow>
       is_user_blocked (snd as') uid)"
proof -
  have "blocked_in_sync as'"
    unfolding as' using assms(1)
    by (induction ops arbitrary: as) (auto simp: run_auth_op_in_sync)
  then show ?thesis
    using auth_middleware_blocked [of "fst as'" "snd as'" ev uid now] assms(2,3) by simp
qed

subsection \<open>A new role takes effect\<close>

text \<open>C25: After a role was assigned and the scheduled cache invalidations ran, the next permission
  lookup of that user, at any later time, answers the permissions of the new role, which the
  assigning administrator held.\<close>
theorem assigned_role_takes_effect:
  assumes "assign_role_confirm caller p cu role_id t as = Inr (''admin.roles.assigned'', as')"
    and "get_user (snd as) t \<noteq> None"
  defines "scheduled \<equiv> drop (length (t_tasks (snd as))) (t_tasks (snd as'))"
  shows "\<exists>r. get_role (snd as) role_id = Some r \<and> is_subset (r_permissions r) p \<and>
    role_of_user (snd as') t = Some r \<and>
    fst (resolve_role_cached now (snd as') t (fold run_auth_task scheduled (fst as'))) = r_permissions r"
proof -
  obtain au s where as: "as = (au, s)" by (cases as)
  obtain au' s' where as': "as' = (au', s')" by (cases as')
  obtain r u n where r: "manageable_role s p role_id = Some r"
    and u: "cu t = Some u" and n: "check_role_name_by_id s (u_role_id u) = Inr n" "\<not> is_superadmin_role (Some n)"
    using assms(1) as by (auto simp: assign_role_confirm_def tx_simps split: option.splits if_splits)
  obtain row where row: "get_user s t = Some row" using assms(2) as by auto
  note role = manageable_role_Some [OF r]
  let ?row = "row\<lparr>u_role_id := Some role_id\<rparr>"
  have key: "u_id row = t" using users.lookup_key [OF row] .
  have res: "au' = fst (invalidate_auth_caches t None (au, s))"
    "s' = log_audit ''assign_role'' ''INFO'' (Some caller) (Some ''User'') (Some (show_int t))
        (safe_create_task (DropRoleCache t) (safe_create_task (InvalidateUserCache t) (put_user ?row s)))"
    using assms(1) r u n role row as as'
    by (auto simp: assign_role_confirm_def tx_simps set_role_def run_session_def commit_def invalidate_auth_caches_def
        Let_def split: option.splits if_splits)
  have sched: "scheduled = [InvalidateUserCache t, DropRoleCache t]"
    by (simp add: scheduled_def as as' res log_audit_def safe_create_task_def put_user_def)
  have tables: "t_users s' = put_by u_id ?row (t_users s)" "t_roles s' = t_roles s"
    by (simp_all add: res log_audit_def safe_create_task_def put_user_def)
  have "get_user s' t = Some ?row"
    using row key users.lookup_store [of ?row s t] tables by (simp add: get_user_def put_user_def)
  then have of_user: "role_of_user s' t = Some r"
    using role tables by (simp add: role_of_user_def get_role_def)
  have none: "live_entry now (fold run_auth_task scheduled au') t = None"
    "shared_role (fold run_auth_task scheduled au') t = None"
    by (auto simp: sched run_auth_task_def drop_shared_role_def live_entry_def shared_role_def Let_def
        split: bind_splits)
  have "fst (resolve_role_cached now s' t (fold run_auth_task scheduled au')) = check_role s' t"
    by (simp add: resolve_role_cached_def none Let_def)
  then show ?thesis using role of_user as as' by (simp add: check_role_def)
qed

subsection \<open>Balance changes\<close>

lemma admin_balance_change_effect:
  assumes "admin_balance_change e k a s = ((ok, code), s')"
  shows "if ok then (\<exists>u. get_user s k = Some u \<and> t_users s' = put_by u_id (u\<lparr>u_balance := u_balance u + a\<rparr>) (t_users s) \<and>
        0 \<le> u_balance u + a)
    else t_users s' = t_users s"
proof (cases "get_user s k")
  case None
  then show ?thesis using assms by (simp add: admin_balance_change_def run_session_def)
next
  case (Some u)
  let ?s1 = "add_operation k a (env_now e) (put_user (u\<lparr>u_balance := u_balance u + a\<rparr>) s)"
  show ?thesis
  proof (cases "a < 0 \<and> u_balance u < \<bar>a\<bar>")
    case True
    then have "((False, ''insufficient_funds''), s) = ((ok, code), s')"
      using assms Some by (elim conjE) (simp add: admin_balance_change_def run_session_def abs_of_neg)
    then show ?thesis by auto
  next
    case False
    show ?thesis
    proof (cases "check_violation ?s1")
      case None
      then have "0 \<le> u_balance u + a"
        using Some users.lookup_key [OF Some] put_new_mem [of u "t_users s" u_id "u\<lparr>u_balance := u_balance u + a\<rparr>"]
          find_by_Some_mem [of u_id k "t_users s" u]
        by (auto simp: check_violation_None add_operation_def put_user_def get_user_def list_all_iff user_check_def)
      then show ?thesis
        using assms Some False None
        by (auto simp: admin_balance_change_def run_session_def commit_def add_operation_def put_user_def
            safe_create_task_def)
    next
      case (Some c)
      then show ?thesis
        using assms \<open>get_user s k = Some u\<close> False
        by (auto simp: admin_balance_change_def run_session_def commit_def log_audit_def)
    qed
  qed
qed

lemma balance_of_row:
  assumes "get_user s k = Some u" "t_users s' = put_by u_id (u\<lparr>u_balance := b\<rparr>) (t_users s)"
  shows "balance_of s' j = (if j = k then b else balance_of s j)"
proof -
  have "balance_of s' j = balance_of (put_user (u\<lparr>u_balance := b\<rparr>) s) j"
    using assms(2) by (simp add: balance_of_def get_user_def put_user_def)
  then show ?thesis
    using balance_of_put [of s "u\<lparr>u_balance := b\<rparr>" j] assms(1) users.lookup_key [OF assms(1)] by simp
qed

theorem operator_balance_exact:
  assumes "process_deduct_user_balance e caller msg k s = (reply, s')"
  shows "if reply = ''admin.users.balance.deducted''
    then \<exists>a. validate_money_amount (strip msg) (env_min_amount e) (env_max_amount e) = Inr a \<and>
      balance_of s' k = balance_of s k - a \<and> 0 \<le> balance_of s' k \<and> (\<forall>j. j \<noteq> k \<longrightarrow> balance_of s' j = balance_of s j)
    else t_users s' = t_users s"
proof (cases "validate_money_amount (strip msg) (env_min_amount e) (env_max_amount e)")
  case (Inl x)
  then show ?thesis using assms by (auto simp: process_deduct_user_balance_def)
next
  case (Inr a)
  obtain ok code s1 where r: "admin_balance_change e k (- a) s = ((ok, code), s1)" by (metis prod_cases3 prod.collapse)
  note eff = admin_balance_change_effect [OF r]
  show ?thesis
  proof (cases ok)
    case True
    then obtain u where u: "get_user s k = Some u" "t_users s1 = put_by u_id (u\<lparr>u_balance := u_balance u - a\<rparr>) (t_users s)"
      "0 \<le> u_balance u - a" using eff by auto
    have s': "reply = ''admin.users.balance.deducted''" "t_users s' = t_users s1"
      using assms Inr r True by (auto simp: process_deduct_user_balance_def log_audit_def)
    have "balance_of s' j = (if j = k then u_balance u - a else balance_of s j)" for j
      using balance_of_row [OF u(1), of s' "u_balance u - a"] u(2) s'(2) by simp
    then show ?thesis using Inr s' u by (simp add: balance_of_def [of s])
  next
    case False
    then show ?thesis using assms Inr r eff by (auto simp: process_deduct_user_balance_def split: if_splits)
  qed
qed

lemma redeem_body_Inr:
  assumes "redeem_body e code k s = Inr (amount, s')"
  shows "\<exists>u p. get_user s k = Some u \<and> promo_by_code s (upper code) = Some p \<and> pc_discount_type p = ''balance'' \<and>
    amount = pc_discount_value p \<and> t_users s' = put_by u_id (u\<lparr>u_balance := u_balance u + amount\<rparr>) (t_users s) \<and>
    count_promo_usages_for_user s (pc_id p) k < max_per_user p \<and>
    count_promo_usages_for_user s' (pc_id p) k = count_promo_usages_for_user s (pc_id p) k + 1"
proof -
  obtain u where u: "get_user s k = Some u" using assms by (auto simp: redeem_body_def split: option.splits)
  obtain p where p: "promo_by_code s (upper code) = Some p"
    and rule: "promo_rule_error s (env_now e) (Some p) k None True None None = None"
    using assms u by (auto simp: redeem_body_def Let_def split: option.splits)
  let ?s1 = "put_user (u\<lparr>u_balance := u_balance u + pc_discount_value p\<rparr>) s"
  obtain s2 where s2: "record_promo_usage p k None ?s1 = Inr ((), s2)"
    and r: "amount = pc_discount_value p" "s' = add_operation k amount (env_now e) s2"
    using assms u p rule by (auto simp: redeem_body_def Let_def split: option.splits sum.splits exn.splits)
  have "pc_discount_type p = ''balance''" using rule by (auto simp: promo_rule_error_def split: if_splits)
  moreover have "\<not> max_per_user p \<le> count_promo_usages_for_user ?s1 (pc_id p) k"
    and s2_def: "t_promo_usages s2 = t_promo_usages s @ [\<lparr>pu_id = next_id ?s1, pu_promo_id = pc_id p, pu_user_id = k, pu_order_id = None\<rparr>]"
      "t_users s2 = t_users ?s1"
    using s2 by (auto simp: record_promo_usage_def Let_def put_promo_def put_user_def next_id_def split: if_splits)
  ultimately show ?thesis
    using u p r by (auto simp: count_promo_usages_for_user_def add_operation_def put_user_def)
qed

text \<open>C26: Redeeming a balance code credits exactly its value to the redeeming user, counts one more
  use, and is possible only while the user is below the per-user cap; a refused code changes
  nothing but the audit log.\<close>
theorem redeem_promo_exact:
  assumes "redeem_balance_promo e code k s = ((ok, err, amount), s')"
  shows "if ok
    then \<exists>p. promo_by_code s (upper code) = Some p \<and> pc_discount_type p = ''balance'' \<and>
      amount = Some (pc_discount_value p) \<and>
      (\<forall>j. balance_of s' j = balance_of s j + (if j = k then pc_discount_value p else 0)) \<and>
      count_promo_usages_for_user s (pc_id p) k < max_per_user p \<and>
      count_promo_usages_for_user s' (pc_id p) k = count_promo_usages_for_user s (pc_id p) k + 1
    else amount = None \<and> s'\<lparr>t_audit := t_audit s\<rparr> = s"
proof (cases "run_session (redeem_body e code k) s")
  case (Inl x)
  then show ?thesis using assms by (cases x) (auto simp: redeem_balance_promo_def log_audit_def)
next
  case (Inr r)
  obtain a s1 where r: "r = (a, s1)" by (cases r)
  then have body: "redeem_body e code k s = Inr (a, s1)" using Inr by (simp add: run_session_Inr)
  have res: "ok" "amount = Some a" "t_users s' = t_users s1" "t_promo_usages s' = t_promo_usages s1"
    using assms Inr r by (auto simp: redeem_balance_promo_def safe_create_task_def)
  obtain u p where u: "get_user s k = Some u" and p: "promo_by_code s (upper code) = Some p" "pc_discount_type p = ''balance''"
    "a = pc_discount_value p" "count_promo_usages_for_user s (pc_id p) k < max_per_user p"
    "count_promo_usages_for_user s1 (pc_id p) k = count_promo_usages_for_user s (pc_id p) k + 1"
    and tab: "t_users s1 = put_by u_id (u\<lparr>u_balance := u_balance u + a\<rparr>) (t_users s)"
    using redeem_body_Inr [OF body] by blast
  have "balance_of s' j = balance_of s j + (if j = k then pc_discount_value p else 0)" for j
    using balance_of_row [OF u, of s' "u_balance u + a" j] tab res(3) p(3) u by (simp add: balance_of_def [of s])
  then show ?thesis
    using res p by (auto simp: count_promo_usages_for_user_def)
qed

subsection \<open>Concrete accounts\<close>

definition sample_role :: "int \<Rightarrow> string \<Rightarrow> 32 word \<Rightarrow> role" where
  "sample_role k n p = \<lparr>r_id = k, r_name = n, r_default = (k = 1), r_permissions = p\<rparr>"

definition sample_auth :: auth where
  "sample_auth = \<lparr>au_blocked_users = {}, au_blocked_loaded = True, au_admin_cache = (\<lambda>_. None),
     au_shared = Some (\<lambda>_. None), au_maintenance = False\<rparr>"

text \<open>Users 1 and 2 of the sample shop; user 3 administers roles.\<close>

definition sample_accounts :: shop where
  "sample_accounts = sample_shop\<lparr>
     t_users := [sample_user 1 5000 (Some 2), sample_user 2 0 None, (sample_user 3 0 None)\<lparr>u_role_id := Some 15\<rparr>],
     t_roles := [sample_role 1 ''USER'' 1, sample_role 14 ''HELPER'' 9, sample_role 15 ''ADMIN'' 41],
     t_promos := [sample_promo\<lparr>pc_code := ''GIFT'', pc_discount_type := ''balance'', pc_category_id := None,
       pc_scope := GlobalScope\<rparr>]\<rparr>"

definition sample_callback :: "int \<Rightarrow> update" where
  "sample_callback k = \<lparr>ev_is_callback = True, ev_user = Some k, ev_is_bot = False, ev_data = Some ''shop'',
     ev_message_age = None\<rparr>"

lemmas sample_access =
  sample_accounts_def sample_shop_def empty_shop_def sample_role_def sample_user_def sample_auth_def sample_promo_def

lemma insert_roles_outcome_witness:
  "insert_roles (sample_accounts\<lparr>t_roles := [sample_role 1 ''USER'' 1, sample_role 14 ''OWNER'' 9]\<rparr>) =
     Inl (IntegrityError ''roles_name_key'') \<and>
   (\<exists>s'. insert_roles sample_accounts = Inr ((), s') \<and> insert_roles s' = Inr ((), s'))"
proof -
  let ?old = "sample_accounts\<lparr>t_roles := [sample_role 1 ''USER'' 1, sample_role 14 ''OWNER'' 9]\<rparr>"
  have "roles_ok ?old" "check_violation ?old = None" "role_by_name ?old ''OWNER'' \<noteq> None"
    "roles_ok sample_accounts" "check_violation sample_accounts = None" "role_by_name sample_accounts ''OWNER'' = None"
    by code_simp+
  then show ?thesis
    using insert_roles_outcome [of ?old] insert_roles_outcome [of sample_accounts] by auto
qed

lemma role_ops_no_escalation_witness:
  "let as' = fold run_role_op [PermsDone 3 \<lparr>rd_edit = Some 14, rd_name = ''HELPER'', rd_perms = 41, rd_caller_perms = 41\<rparr>,
       AssignRole 3 41 (get_user sample_accounts) 14 1] (sample_auth, sample_accounts)
   in check_role (snd as') 1 = 41 \<and> is_subset (check_role (snd as') 1) (check_role sample_accounts 1 OR 41)"
proof -
  let ?ops = "[PermsDone 3 \<lparr>rd_edit = Some 14, rd_name = ''HELPER'', rd_perms = 41, rd_caller_perms = 41\<rparr>,
       AssignRole 3 41 (get_user sample_accounts) 14 1]"
  have exist: "user_roles_exist (snd (sample_auth, sample_accounts))" by code_simp
  have "check_role (snd (fold run_role_op ?ops (sample_auth, sample_accounts))) 1 = 41" "given_by ?ops = 41"
    by code_simp+
  then show ?thesis
    using role_ops_no_escalation [OF exist, of ?ops] unfolding Let_def snd_conv by auto
qed

lemma blocked_users_stay_out_witness:
  "let as' = fold run_auth_op [BlockUser 1, RunTask (InvalidateUserCache 1), BlockUser 2, UnblockUser 2] (sample_auth, sample_accounts)
   in fst (auth_middleware 1000 (sample_callback 1) as') = Refuse (Some ''middleware.security.blocked'') \<and>
      fst (auth_middleware 1000 (sample_callback 2) as') \<noteq> Refuse (Some ''middleware.security.blocked'')"
proof -
  let ?ops = "[BlockUser 1, RunTask (InvalidateUserCache 1), BlockUser 2, UnblockUser 2]"
  let ?as = "(sample_auth, sample_accounts)"
  have sync: "blocked_in_sync ?as"
    by (simp add: blocked_in_sync_def sample_access get_blocked_user_ids_def)
  have "is_user_blocked (snd (fold run_auth_op ?ops ?as)) 1" "\<not> is_user_blocked (snd (fold run_auth_op ?ops ?as)) 2"
    by code_simp+
  then show ?thesis
    using blocked_users_stay_out [OF sync _ _ refl, of "sample_callback 1" 1 ?ops 1000]
      blocked_users_stay_out [OF sync _ _ refl, of "sample_callback 2" 2 ?ops 1000]
    by (simp add: Let_def sample_callback_def)
qed

lemma assigned_role_takes_effect_witness:
  "\<exists>as'. assign_role_confirm 3 41 (get_user sample_accounts) 14 1 (sample_auth, sample_accounts) =
      Inr (''admin.roles.assigned'', as') \<and>
    fst (resolve_role_cached 1000 (snd as') 1 (fold run_auth_task
      (drop (length (t_tasks sample_accounts)) (t_tasks (snd as'))) (fst as'))) = 9"
proof -
  let ?r = "assign_role_confirm 3 41 (get_user sample_accounts) 14 1 (sample_auth, sample_accounts)"
  have ok: "(case ?r of Inl _ \<Rightarrow> '''' | Inr (m, _) \<Rightarrow> m) = ''admin.roles.assigned''" "get_user sample_accounts 1 \<noteq> None"
    "map_option r_permissions (get_role sample_accounts 14) = Some 9"
    by code_simp+
  then obtain as' where r: "?r = Inr (''admin.roles.assigned'', as')" by (auto split: sum.splits)
  show ?thesis
    using assigned_role_takes_effect [OF r, of 1000] ok r by auto
qed

lemma operator_balance_exact_witness:
  "balance_of (snd (process_deduct_user_balance sample_env 3 ''30.50'' 1 sample_accounts)) 1 = 1950 \<and>
   fst (process_deduct_user_balance sample_env 3 ''60'' 1 sample_accounts) = ''admin.users.balance.insufficient''"
proof -
  obtain reply s' where r: "process_deduct_user_balance sample_env 3 ''30.50'' 1 sample_accounts = (reply, s')"
    by (metis surj_pair)
  have "fst (process_deduct_user_balance sample_env 3 ''30.50'' 1 sample_accounts) = ''admin.users.balance.deducted''"
    "validate_money_amount (strip ''30.50'') (env_min_amount sample_env) (env_max_amount sample_env) = Inr 3050"
    "balance_of sample_accounts 1 = 5000"
    "fst (process_deduct_user_balance sample_env 3 ''60'' 1 sample_accounts) = ''admin.users.balance.insufficient''"
    by code_simp+
  then show ?thesis using operator_balance_exact [OF r] r by auto
qed

lemma redeem_promo_exact_witness:
  "balance_of (snd (redeem_balance_promo sample_env ''gift'' 1 sample_accounts)) 1 = 5025 \<and>
   fst (redeem_balance_promo sample_env ''gift'' 1 (snd (redeem_balance_promo sample_env ''gift'' 1 sample_accounts))) =
     (False, ''promo.already_used'', None)"
proof -
  obtain ok err amount s' where r: "redeem_balance_promo sample_env ''gift'' 1 sample_accounts = ((ok, err, amount), s')"
    by (metis prod_cases3 surj_pair)
  have "fst (redeem_balance_promo sample_env ''gift'' 1 sample_accounts) = (True, '''', Some 25)"
    "fst (redeem_balance_promo sample_env ''gift'' 1 (snd (redeem_balance_promo sample_env ''gift'' 1 sample_accounts))) =
     (False, ''promo.already_used'', None)"
    "balance_of sample_accounts 1 = 5000"
    by code_simp+
  then show ?thesis using redeem_promo_exact [OF r] r by auto
qed

end
