(* ===== verification/Support.thy ===== *)
theory Support
  imports Access
begin

text \<open>
  Support tickets: \<open>database/methods/support.py\<close> and the handlers \<open>handlers/user/support.py\<close> and
  \<open>handlers/admin/support.py\<close>.  A handler returns the key of its answer.  The callbacks are given
  with their data; the ticket of a dialogue is the number its start stored.  The last sections are
  the step relation of a ticket and what holds in every state reachable by it.
\<close>

subsection \<open>Tickets and messages\<close>

definition MAX_BODY_LEN :: nat where "MAX_BODY_LEN = 4000"

definition trim_body :: "string option \<Rightarrow> string result" where
  "trim_body body =
     (let text = strip (case body of None \<Rightarrow> [] | Some b \<Rightarrow> b)
      in if text = [] then Inl (SupportError ''support.empty_message'')
         else if MAX_BODY_LEN < py_len text then Inl (SupportError ''support.message_too_long'')
         else Inr text)"

text \<open>\<open>ORDER BY id DESC LIMIT 1\<close>\<close>

definition get_active_ticket_for_user :: "shop \<Rightarrow> int \<Rightarrow> support_ticket option" where
  "get_active_ticket_for_user s user_id =
     (case rev (order_by_key st_id (filter (\<lambda>t. st_user_id t = user_id \<and> st_status t \<in> set active_statuses) (t_tickets s)))
      of [] \<Rightarrow> None | t # _ \<Rightarrow> Some t)"

definition get_ticket_for_user :: "shop \<Rightarrow> int \<Rightarrow> int \<Rightarrow> support_ticket option" where
  "get_ticket_for_user s ticket_id user_id =
     List.find (\<lambda>t. st_id t = ticket_id \<and> st_user_id t = user_id) (t_tickets s)"

definition own_order :: "shop \<Rightarrow> int \<Rightarrow> int \<Rightarrow> order option" where
  "own_order s order_id user_id = List.find (\<lambda>x. o_id x = order_id \<and> o_user_id x = user_id) (t_orders s)"

definition add_message :: "env \<Rightarrow> int \<Rightarrow> author_role \<Rightarrow> int \<Rightarrow> string \<Rightarrow> shop \<Rightarrow> support_message \<times> shop" where
  "add_message e ticket_id author_role author body s =
     (let msg = \<lparr>sm_id = next_id s, sm_ticket_id = ticket_id, sm_author_role = author_role,
        sm_author_user_id = Some author, sm_body = body, sm_created_at = env_now e\<rparr>
      in (msg, s\<lparr>t_messages := t_messages s @ [msg], t_seq := next_id s\<rparr>))"

definition create_ticket ::
    "env \<Rightarrow> int \<Rightarrow> string option \<Rightarrow> int option \<Rightarrow> shop \<Rightarrow> (support_ticket \<times> shop) result" where
  "create_ticket e user_id body linked_order_id s =
     (if get_active_ticket_for_user s user_id \<noteq> None then Inl (SupportError ''support.active_ticket_exists'')
      else if (case linked_order_id of None \<Rightarrow> False | Some k \<Rightarrow> own_order s k user_id = None)
      then Inl (SupportError ''support.order_not_found'')
      else tx_bind (trim_body body) (\<lambda>text.
        if get_user s user_id = None then Inl (IntegrityError ''support_tickets_user_id_fkey'')
        else (let ticket = \<lparr>st_id = next_id s, st_user_id = user_id, st_status = TicketOpen,
                    st_linked_order_id = linked_order_id, st_created_at = env_now e, st_updated_at = env_now e\<rparr>;
                  s1 = s\<lparr>t_tickets := t_tickets s @ [ticket], t_seq := next_id s\<rparr>
              in Inr (ticket, snd (add_message e (st_id ticket) AuthorUser user_id text s1)))))"

definition add_user_message ::
    "env \<Rightarrow> int \<Rightarrow> int \<Rightarrow> string option \<Rightarrow> shop \<Rightarrow> (support_message \<times> shop) result" where
  "add_user_message e ticket_id user_id body s =
     (case get_ticket_for_user s ticket_id user_id of
        None \<Rightarrow> Inl (SupportError ''support.not_found'')
      | Some ticket \<Rightarrow>
          if st_status ticket = TicketClosed then Inl (SupportError ''support.ticket_closed'')
          else tx_bind (trim_body body) (\<lambda>text.
            Inr (add_message e (st_id ticket) AuthorUser user_id text
              (put_ticket (ticket\<lparr>st_status := TicketOpen, st_updated_at := env_now e\<rparr>) s))))"

definition close_ticket_by_user :: "env \<Rightarrow> int \<Rightarrow> int \<Rightarrow> shop \<Rightarrow> (support_ticket \<times> shop) result" where
  "close_ticket_by_user e ticket_id user_id s =
     (case get_ticket_for_user s ticket_id user_id of
        None \<Rightarrow> Inl (SupportError ''support.not_found'')
      | Some ticket \<Rightarrow> (let ticket1 = ticket\<lparr>st_status := TicketClosed, st_updated_at := env_now e\<rparr>
          in Inr (ticket1, put_ticket ticket1 s)))"

text \<open>\<open>onupdate\<close> stamps the row when the flush really updates it.\<close>

definition link_order_to_ticket ::
    "env \<Rightarrow> int \<Rightarrow> int \<Rightarrow> int \<Rightarrow> shop \<Rightarrow> (support_ticket \<times> shop) result" where
  "link_order_to_ticket e ticket_id user_id order_id s =
     (case get_ticket_for_user s ticket_id user_id of
        None \<Rightarrow> Inl (SupportError ''support.not_found'')
      | Some ticket \<Rightarrow>
          if st_status ticket = TicketClosed then Inl (SupportError ''support.ticket_closed'')
          else if own_order s order_id user_id = None then Inl (SupportError ''support.order_not_found'')
          else if st_linked_order_id ticket = Some order_id then Inr (ticket, s)
          else (let ticket1 = ticket\<lparr>st_linked_order_id := Some order_id, st_updated_at := env_now e\<rparr>
                in Inr (ticket1, put_ticket ticket1 s)))"

definition status_of_text :: "string \<Rightarrow> ticket_status option" where
  "status_of_text st = map_of [(''open'', TicketOpen), (''pending'', TicketPending), (''closed'', TicketClosed)] st"

text \<open>\<open>ORDER BY updated_at DESC\<close>; a status filter that is empty is no filter.\<close>

definition list_tickets_for_staff :: "shop \<Rightarrow> string option \<Rightarrow> nat \<Rightarrow> nat \<Rightarrow> support_ticket list" where
  "list_tickets_for_staff s status limit offset =
     (let q = order_by_key (\<lambda>t. - st_updated_at t) (t_tickets s);
          q1 = (if truthy_str status then filter (\<lambda>t. status_of_text (the status) = Some (st_status t)) q else q)
      in take limit (drop offset q1))"

definition get_ticket_for_staff :: "shop \<Rightarrow> int \<Rightarrow> support_ticket option" where
  "get_ticket_for_staff s ticket_id = get_ticket s ticket_id"

definition ticket_messages :: "shop \<Rightarrow> int \<Rightarrow> support_message list" where
  "ticket_messages s ticket_id =
     order_by_key sm_created_at (filter (\<lambda>m. sm_ticket_id m = ticket_id) (t_messages s))"

definition staff_reply :: "env \<Rightarrow> int \<Rightarrow> int \<Rightarrow> string option \<Rightarrow> shop \<Rightarrow> (support_message \<times> shop) result" where
  "staff_reply e ticket_id staff_user_id body s =
     (case get_ticket_for_staff s ticket_id of
        None \<Rightarrow> Inl (SupportError ''support.not_found'')
      | Some ticket \<Rightarrow>
          if st_status ticket = TicketClosed then Inl (SupportError ''support.ticket_closed'')
          else tx_bind (trim_body body) (\<lambda>text.
            Inr (add_message e (st_id ticket) AuthorStaff staff_user_id text
              (put_ticket (ticket\<lparr>st_status := TicketPending, st_updated_at := env_now e\<rparr>) s))))"

definition set_ticket_status_staff ::
    "env \<Rightarrow> int \<Rightarrow> string \<Rightarrow> shop \<Rightarrow> (support_ticket \<times> shop) result" where
  "set_ticket_status_staff e ticket_id status s =
     (case status_of_text status of
        None \<Rightarrow> Inl (SupportError ''support.invalid_status'')
      | Some st \<Rightarrow>
         (case get_ticket_for_staff s ticket_id of
            None \<Rightarrow> Inl (SupportError ''support.not_found'')
          | Some ticket \<Rightarrow> (let ticket1 = ticket\<lparr>st_status := st, st_updated_at := env_now e\<rparr>
              in Inr (ticket1, put_ticket ticket1 s))))"

definition get_order_summary_for_ticket :: "shop \<Rightarrow> int option \<Rightarrow> (int \<times> order_status \<times> int \<times> int) option" where
  "get_order_summary_for_ticket s order_id =
     map_option (\<lambda>x. (o_id x, o_status x, o_total_cents x, o_user_id x)) (Option.bind order_id (get_order s))"

subsection \<open>Handlers of the user\<close>

text \<open>A \<open>SupportError\<close> is answered with its code and the session is rolled back; anything else escapes.\<close>

definition support_answer ::
    "(shop \<Rightarrow> ('a \<times> shop) result) \<Rightarrow> ('a \<Rightarrow> shop \<Rightarrow> 'b) \<Rightarrow> (string \<Rightarrow> 'b) \<Rightarrow> shop \<Rightarrow> 'b result" where
  "support_answer body ok refused s =
     (case run_session body s of
        Inl (SupportError code) \<Rightarrow> Inr (refused code)
      | Inl err \<Rightarrow> Inl err
      | Inr (a, s1) \<Rightarrow> Inr (ok a s1))"

text \<open>The number after the last underscore of the callback.\<close>

definition last_number :: "string \<Rightarrow> int option" where
  "last_number cb = (case parse_int (last (split_on CHR ''_'' cb)) of Inl _ \<Rightarrow> None | Inr n \<Rightarrow> Some n)"

definition format_history ::
    "shop \<Rightarrow> support_ticket \<Rightarrow> (int \<times> ticket_status \<times> int option) \<times> (string \<times> string \<times> int) list" where
  "format_history s ticket =
     ((st_id ticket, st_status ticket, if truthy_id (st_linked_order_id ticket) then st_linked_order_id ticket else None),
      map (\<lambda>m. (if sm_author_role m = AuthorUser then ''support.role.user'' else ''support.role.staff'',
             escape_html (sm_body m), sm_created_at m)) (ticket_messages s (st_id ticket)))"

definition support_home ::
    "int \<Rightarrow> shop \<Rightarrow> ((int \<times> ticket_status \<times> int option) \<times> (string \<times> string \<times> int) list) option" where
  "support_home user_id s =
     (case get_active_ticket_for_user s user_id of
        None \<Rightarrow> None
      | Some active \<Rightarrow> map_option (format_history s) (get_ticket_for_user s (st_id active) user_id))"

definition support_new_body :: "env \<Rightarrow> int \<Rightarrow> string option \<Rightarrow> shop \<Rightarrow> (string \<times> shop) result" where
  "support_new_body e user_id text s =
     support_answer (create_ticket e user_id text None) (\<lambda>_ s1. (''support.created'', s1)) (\<lambda>c. (c, s)) s"

text \<open>The start of a reply, or of linking an order: the ticket number kept by the dialogue.\<close>

definition support_reply_start :: "string \<Rightarrow> string + int" where
  "support_reply_start cb = (case last_number cb of None \<Rightarrow> Inl ''errors.invalid_data'' | Some n \<Rightarrow> Inr n)"

definition support_reply_message ::
    "env \<Rightarrow> int \<Rightarrow> int option \<Rightarrow> string option \<Rightarrow> shop \<Rightarrow> (string option \<times> shop) result" where
  "support_reply_message e user_id ticket_id text s =
     (if \<not> truthy_id ticket_id then Inr (None, s)
      else support_answer (add_user_message e (the ticket_id) user_id text)
             (\<lambda>_ s1. (Some ''support.message_sent'', s1)) (\<lambda>c. (Some c, s)) s)"

definition support_close :: "env \<Rightarrow> int \<Rightarrow> string \<Rightarrow> shop \<Rightarrow> (string \<times> shop) result" where
  "support_close e user_id cb s =
     (case last_number cb of None \<Rightarrow> Inr (''errors.invalid_data'', s)
      | Some ticket_id \<Rightarrow> support_answer (close_ticket_by_user e ticket_id user_id)
             (\<lambda>_ s1. (''support.closed'', s1)) (\<lambda>c. (c, s)) s)"

definition support_link_start :: "string \<Rightarrow> string + int" where
  "support_link_start cb = (case last_number cb of None \<Rightarrow> Inl ''errors.invalid_data'' | Some n \<Rightarrow> Inr n)"

definition support_link_order ::
    "env \<Rightarrow> int \<Rightarrow> int option \<Rightarrow> string \<Rightarrow> shop \<Rightarrow> (string option \<times> shop) result" where
  "support_link_order e user_id ticket_id text s =
     (if \<not> truthy_id ticket_id then Inr (None, s)
      else if \<not> is_digits (strip text) then Inr (Some ''support.invalid_order_id'', s)
      else tx_bind (parse_int (strip text)) (\<lambda>order_id.
        support_answer (link_order_to_ticket e (the ticket_id) user_id order_id)
          (\<lambda>_ s1. (Some ''support.order_linked'', s1)) (\<lambda>c. (Some c, s)) s))"

subsection \<open>Handlers of the staff\<close>

definition staff_ticket_buttons :: "support_ticket \<Rightarrow> string list" where
  "staff_ticket_buttons ticket =
     [''admin.support.btn.reply'',
      if st_status ticket \<noteq> TicketClosed then ''admin.support.btn.close'' else ''admin.support.btn.reopen'',
      ''btn.back'']"

definition staff_ticket_text ::
    "shop \<Rightarrow> support_ticket \<Rightarrow> (int \<times> int \<times> ticket_status) \<times> (int \<times> order_status \<times> int) option \<times> (string \<times> string \<times> int) list" where
  "staff_ticket_text s ticket =
     ((st_id ticket, st_user_id ticket, st_status ticket),
      map_option (\<lambda>(k, st, total, _). (k, st, total)) (get_order_summary_for_ticket s (st_linked_order_id ticket)),
      snd (format_history s ticket))"

definition support_ticket_list :: "shop \<Rightarrow> (int \<times> ticket_status \<times> int) list" where
  "support_ticket_list s =
     map (\<lambda>t. (st_id t, st_status t, st_user_id t)) (list_tickets_for_staff s None 25 0)"

definition support_ticket_view :: "string \<Rightarrow> shop \<Rightarrow> string + support_ticket \<times> string list" where
  "support_ticket_view cb s =
     (case last_number cb of None \<Rightarrow> Inl ''errors.invalid_data''
      | Some ticket_id \<Rightarrow>
         (case get_ticket_for_staff s ticket_id of None \<Rightarrow> Inl ''support.not_found''
          | Some ticket \<Rightarrow> Inr (ticket, staff_ticket_buttons ticket)))"

text \<open>\<open>^support_st_(open|pending|closed)_(\d+)$\<close>; the dollar also matches before a final newline.\<close>

definition status_callback :: "string \<Rightarrow> (string \<times> string) option" where
  "status_callback cb =
     List.find (\<lambda>(st, rest). starts_with (''support_st_'' @ st @ ''_'') cb \<and>
         (is_digits rest \<or> rest \<noteq> [] \<and> last rest = CHR 0x0A \<and> is_digits (butlast rest)))
       (map (\<lambda>st. (st, drop (length (''support_st_'' @ st @ ''_'')) cb)) [''open'', ''pending'', ''closed''])"

definition support_set_status :: "env \<Rightarrow> int \<Rightarrow> string \<times> string \<Rightarrow> shop \<Rightarrow> (string \<times> shop) result" where
  "support_set_status e caller parts s =
     tx_bind (parse_int (snd parts)) (\<lambda>ticket_id.
       support_answer (set_ticket_status_staff e ticket_id (fst parts))
         (\<lambda>_ s1. (''admin.support.status_updated'',
            log_audit ''support_status'' ''INFO'' (Some caller) (Some ''SupportTicket'') (Some (show_int ticket_id)) s1))
         (\<lambda>c. (c, s)) s)"

text \<open>The answer, the user who is told with the escaped text, and the state.\<close>

definition support_staff_reply_message ::
    "env \<Rightarrow> int \<Rightarrow> int option \<Rightarrow> string option \<Rightarrow> shop \<Rightarrow> (string option \<times> (int \<times> string) option \<times> shop) result" where
  "support_staff_reply_message e staff_id ticket_id text s =
     (if \<not> truthy_id ticket_id then Inr (None, None, s)
      else support_answer
        (\<lambda>s. tx_bind (staff_reply e (the ticket_id) staff_id text s) (\<lambda>(msg, s1).
           case get_ticket_for_staff s1 (the ticket_id) of
             None \<Rightarrow> Inl (OtherError ''AttributeError'') | Some ticket \<Rightarrow> Inr ((msg, ticket), s1)))
        (\<lambda>(msg, ticket) s1. (Some ''admin.support.reply_sent'', Some (st_user_id ticket, escape_html (sm_body msg)),
           log_audit ''support_reply'' ''INFO'' (Some staff_id) (Some ''SupportTicket'') (Some (show_int (the ticket_id))) s1))
        (\<lambda>c. (Some c, None, s)) s)"

text \<open>A staff callback is handled only for a caller who holds the permission.\<close>

definition support_status_event ::
    "env \<Rightarrow> int \<Rightarrow> string \<Rightarrow> auth \<times> shop \<Rightarrow> (string option \<times> auth \<times> shop) result" where
  "support_status_event e caller cb as =
     (case status_callback cb of
        None \<Rightarrow> Inr (None, as)
      | Some parts \<Rightarrow>
         (let (ok, au) = has_permission_filter (env_now e) TICKETS_MANAGE caller as
          in if \<not> ok then Inr (None, au, snd as)
             else tx_bind (support_set_status e caller parts (snd as)) (\<lambda>(c, s1). Inr (Some c, au, s1))))"

definition support_staff_reply_event ::
    "env \<Rightarrow> int \<Rightarrow> int option \<Rightarrow> string option \<Rightarrow> auth \<times> shop \<Rightarrow> (string option \<times> (int \<times> string) option \<times> auth \<times> shop) result" where
  "support_staff_reply_event e staff_id ticket_id text as =
     (let (ok, au) = has_permission_filter (env_now e) TICKETS_MANAGE staff_id as
      in if \<not> ok then Inr (None, None, au, snd as)
         else tx_bind (support_staff_reply_message e staff_id ticket_id text (snd as))
                (\<lambda>(c, n, s1). Inr (c, n, au, s1)))"

subsection \<open>The life of a ticket\<close>

text \<open>
  One handled update, by the user or by the staff.  \<open>reopen\<close> says whether the staff may set a closed
  ticket to another status.
\<close>

definition reopening :: "string \<Rightarrow> shop \<Rightarrow> bool" where
  "reopening cb s =
     (case status_callback cb of None \<Rightarrow> False
      | Some (st, rest) \<Rightarrow> st \<noteq> ''closed'' \<and>
         (case parse_int rest of Inl _ \<Rightarrow> False
          | Inr n \<Rightarrow> (case get_ticket s n of None \<Rightarrow> False | Some t \<Rightarrow> st_status t = TicketClosed)))"

inductive support_step :: "bool \<Rightarrow> env \<Rightarrow> shop \<Rightarrow> shop \<Rightarrow> bool" for reopen e where
  new_ticket: "support_new_body e u words s = Inr (c, s') \<Longrightarrow> support_step reopen e s s'"
| user_message: "support_reply_message e u tid words s = Inr (a, s') \<Longrightarrow> support_step reopen e s s'"
| user_close: "support_close e u cb s = Inr (c, s') \<Longrightarrow> support_step reopen e s s'"
| user_link: "support_link_order e u tid digits s = Inr (a, s') \<Longrightarrow> support_step reopen e s s'"
| staff_message: "support_staff_reply_event e u tid words (au, s) = Inr (a, n, au', s') \<Longrightarrow> support_step reopen e s s'"
| staff_status: "support_status_event e u cb (au, s) = Inr (a, au', s') \<Longrightarrow> reopen \<or> \<not> reopening cb s \<Longrightarrow>
    support_step reopen e s s'"

inductive support_reach :: "bool \<Rightarrow> shop \<Rightarrow> shop \<Rightarrow> bool" for reopen where
  start: "support_reach reopen s s"
| more: "support_reach reopen s s' \<Longrightarrow> support_step reopen e s' s'' \<Longrightarrow> support_reach reopen s s''"

text \<open>What the handlers may do to the tables, with no handler in sight.\<close>

definition active_of :: "shop \<Rightarrow> int \<Rightarrow> support_ticket list" where
  "active_of s u = filter (\<lambda>t. st_user_id t = u \<and> st_status t \<in> set active_statuses) (t_tickets s)"

inductive ticket_effect :: "bool \<Rightarrow> shop \<Rightarrow> shop \<Rightarrow> bool" for reopen where
  unchanged: "t_tickets s' = t_tickets s \<Longrightarrow> t_messages s' = t_messages s \<Longrightarrow> t_seq s' = t_seq s \<Longrightarrow>
    ticket_effect reopen s s'"
| opened: "active_of s (st_user_id t) = [] \<Longrightarrow> st_id t = t_seq s + 1 \<Longrightarrow> st_status t = TicketOpen \<Longrightarrow>
    sm_id m = t_seq s + 2 \<Longrightarrow> sm_ticket_id m = st_id t \<Longrightarrow> t_tickets s' = t_tickets s @ [t] \<Longrightarrow>
    t_messages s' = t_messages s @ [m] \<Longrightarrow> t_seq s' = t_seq s + 2 \<Longrightarrow> ticket_effect reopen s s'"
| spoken: "t \<in> set (t_tickets s) \<Longrightarrow> st_status t \<noteq> TicketClosed \<Longrightarrow> st_id t1 = st_id t \<Longrightarrow>
    st_user_id t1 = st_user_id t \<Longrightarrow> st_status t1 \<in> set active_statuses \<Longrightarrow>
    sm_id m = t_seq s + 1 \<Longrightarrow> sm_ticket_id m = st_id t \<Longrightarrow> t_tickets s' = put_by st_id t1 (t_tickets s) \<Longrightarrow>
    t_messages s' = t_messages s @ [m] \<Longrightarrow> t_seq s' = t_seq s + 1 \<Longrightarrow> ticket_effect reopen s s'"
| updated: "t \<in> set (t_tickets s) \<Longrightarrow> st_id t1 = st_id t \<Longrightarrow> st_user_id t1 = st_user_id t \<Longrightarrow>
    st_status t1 \<in> set (TicketClosed # active_statuses) \<Longrightarrow>
    st_status t = TicketClosed \<Longrightarrow> reopen \<or> st_status t1 = TicketClosed \<Longrightarrow>
    t1 = t\<lparr>st_status := st_status t1, st_updated_at := st_updated_at t1\<rparr> \<Longrightarrow>
    t_tickets s' = put_by st_id t1 (t_tickets s) \<Longrightarrow> t_messages s' = t_messages s \<Longrightarrow> t_seq s' = t_seq s \<Longrightarrow>
    ticket_effect reopen s s'"
| moved: "t \<in> set (t_tickets s) \<Longrightarrow> st_id t1 = st_id t \<Longrightarrow> st_user_id t1 = st_user_id t \<Longrightarrow>
    st_status t1 \<in> set (TicketClosed # active_statuses) \<Longrightarrow> st_status t \<noteq> TicketClosed \<Longrightarrow>
    t_tickets s' = put_by st_id t1 (t_tickets s) \<Longrightarrow> t_messages s' = t_messages s \<Longrightarrow> t_seq s' = t_seq s \<Longrightarrow>
    ticket_effect reopen s s'"

lemma support_answer_Inr:
  "support_answer body ok refused s = Inr r \<longleftrightarrow>
     (\<exists>c. run_session body s = Inl (SupportError c) \<and> r = refused c) \<or>
     (\<exists>a s1. run_session body s = Inr (a, s1) \<and> r = ok a s1)"
proof (cases "run_session body s")
  case (Inl err)
  then show ?thesis by (cases err) (auto simp: support_answer_def)
next
  case (Inr x)
  then show ?thesis by (cases x) (auto simp: support_answer_def)
qed

lemma get_active_None: "get_active_ticket_for_user s u = None \<longleftrightarrow> active_of s u = []"
proof -
  have "length (rev (order_by_key st_id (active_of s u))) = length (active_of s u)" by simp
  then show ?thesis
    unfolding get_active_ticket_for_user_def active_of_def [symmetric]
    by (cases "rev (order_by_key st_id (active_of s u))"; cases "active_of s u") simp_all
qed

lemma own_ticket_mem:
  assumes "get_ticket_for_user s tid u = Some t"
  shows "t \<in> set (t_tickets s)" "st_id t = tid" "st_user_id t = u"
  using assms by (auto simp: get_ticket_for_user_def find_Some_iff)

lemma get_ticket_mem:
  assumes "get_ticket s tid = Some t"
  shows "t \<in> set (t_tickets s)" "st_id t = tid"
  using assms find_by_Some_mem find_by_Some_key by (fastforce simp: get_ticket_def)+

lemma active_status_simps: "TicketOpen \<in> set active_statuses" "TicketPending \<in> set active_statuses"
    "TicketClosed \<notin> set active_statuses"
  by (simp_all add: active_statuses_def)

text \<open>One lemma per operation.\<close>

lemma create_ticket_effect:
  assumes "create_ticket e u body lo s = Inr (t, s')"
  shows "ticket_effect r s s'"
  using assms
  by (auto simp: create_ticket_def tx_simps Let_def add_message_def next_id_def get_active_None
      split: if_splits intro!: ticket_effect.opened)

lemma message_effect:
  assumes "t \<in> set (t_tickets s)" "st_status t \<noteq> TicketClosed" "st \<in> set active_statuses"
    "add_message e (st_id t) role author text (put_ticket (t\<lparr>st_status := st, st_updated_at := now\<rparr>) s) = (msg, s')"
  shows "ticket_effect r s s'"
  using assms(4) assms(1-3)
  by (intro ticket_effect.spoken [of t s "t\<lparr>st_status := st, st_updated_at := now\<rparr>" msg s' r])
    (auto simp: add_message_def put_ticket_def next_id_def Let_def)

lemma add_user_message_effect:
  "add_user_message e tid u body s = Inr (msg, s') \<Longrightarrow> ticket_effect r s s'"
  by (auto simp: add_user_message_def tx_simps active_status_simps split: option.splits if_splits
      dest: own_ticket_mem(1) intro!: message_effect)

lemma staff_reply_effect:
  "staff_reply e tid u body s = Inr (msg, s') \<Longrightarrow> ticket_effect r s s'"
  by (auto simp: staff_reply_def get_ticket_for_staff_def tx_simps active_status_simps split: option.splits if_splits
      dest: get_ticket_mem(1) intro!: message_effect)

lemma update_effect:
  assumes "t \<in> set (t_tickets s)" "st \<in> set (TicketClosed # active_statuses)"
    "st_status t = TicketClosed \<Longrightarrow> r \<or> st = TicketClosed"
  shows "ticket_effect r s (put_ticket (t\<lparr>st_status := st, st_updated_at := now\<rparr>) s)"
proof (cases "st_status t = TicketClosed")
  case True
  then show ?thesis using assms
    by (intro ticket_effect.updated [of t s "t\<lparr>st_status := st, st_updated_at := now\<rparr>"]) (auto simp: put_ticket_def)
next
  case False
  then show ?thesis using assms
    by (intro ticket_effect.moved [of t s "t\<lparr>st_status := st, st_updated_at := now\<rparr>"]) (auto simp: put_ticket_def)
qed

lemma close_effect: "close_ticket_by_user e tid u s = Inr (t, s') \<Longrightarrow> ticket_effect r s s'"
  by (auto simp: close_ticket_by_user_def Let_def split: option.splits dest: own_ticket_mem(1)
      intro!: update_effect)

lemma link_effect:
  assumes "list_all ticket_check (t_tickets s)" "link_order_to_ticket e tid u oid s = Inr (t, s')"
  shows "ticket_effect r s s'"
proof -
  obtain t0 where t0: "get_ticket_for_user s tid u = Some t0" "st_status t0 \<noteq> TicketClosed"
    and s': "s' = s \<or> s' = put_ticket (t0\<lparr>st_linked_order_id := Some oid, st_updated_at := env_now e\<rparr>) s"
    using assms(2) by (auto simp: link_order_to_ticket_def Let_def split: option.splits if_splits)
  have "t0 \<in> set (t_tickets s)" by (rule own_ticket_mem(1) [OF t0(1)])
  then have "st_status t0 \<in> set (TicketClosed # active_statuses)"
    using assms(1) by (auto simp: list_all_iff ticket_check_def active_statuses_def)
  then have "ticket_effect r s (put_ticket (t0\<lparr>st_linked_order_id := Some oid, st_updated_at := env_now e\<rparr>) s)"
    using t0(2) \<open>t0 \<in> set (t_tickets s)\<close>
    by (intro ticket_effect.moved [of t0 s "t0\<lparr>st_linked_order_id := Some oid, st_updated_at := env_now e\<rparr>"])
      (auto simp: put_ticket_def)
  moreover have "ticket_effect r s s" by (rule ticket_effect.unchanged) simp_all
  ultimately show ?thesis using s' by auto
qed

lemma status_of_text_known: "status_of_text x = Some st \<Longrightarrow> st \<in> set (TicketClosed # active_statuses)"
  by (auto simp: status_of_text_def active_statuses_def split: if_splits)

lemma set_status_effect:
  assumes "set_ticket_status_staff e tid st s = Inr (t, s')"
    "r \<or> st = ''closed'' \<or> (\<forall>t0. get_ticket s tid = Some t0 \<longrightarrow> st_status t0 \<noteq> TicketClosed)"
  shows "ticket_effect r s s'"
  using assms
  by (auto simp: set_ticket_status_staff_def get_ticket_for_staff_def Let_def status_of_text_def active_statuses_def
      split: option.splits if_splits dest: get_ticket_mem(1) intro!: update_effect)

subsection \<open>Every handler step is an allowed effect\<close>

lemma ticket_effect_tables:
  assumes "ticket_effect r s s1" "t_tickets s2 = t_tickets s1" "t_messages s2 = t_messages s1" "t_seq s2 = t_seq s1"
  shows "ticket_effect r s s2"
  using assms by (cases rule: ticket_effect.cases) (auto intro: ticket_effect.intros)

lemma log_audit_tickets [simp]:
  "t_tickets (log_audit a l u rt rid s) = t_tickets s" "t_messages (log_audit a l u rt rid s) = t_messages s"
  "t_seq (log_audit a l u rt rid s) = t_seq s"
  by (simp_all add: log_audit_def)

lemma same_effect: "ticket_effect r s s"
  by (rule ticket_effect.unchanged) simp_all

lemma staff_msg_effect:
  assumes "support_staff_reply_message e u tid words s = Inr (a, n, s')"
  shows "ticket_effect r s s'"
  using assms
  by (auto simp: support_staff_reply_message_def support_answer_Inr tx_simps same_effect
      split: if_splits option.splits
      intro: ticket_effect_tables [OF staff_reply_effect])

theorem support_step_effect:
  assumes "list_all ticket_check (t_tickets s)" "support_step reopen e s s'"
  shows "ticket_effect reopen s s'"
  using assms(2)
proof (cases rule: support_step.cases)
  case (new_ticket u words c)
  then show ?thesis
    by (auto simp: support_new_body_def support_answer_Inr tx_simps same_effect dest: create_ticket_effect)
next
  case (user_message u tid words a)
  then show ?thesis
    by (auto simp: support_reply_message_def support_answer_Inr tx_simps same_effect split: if_splits
        dest: add_user_message_effect)
next
  case (user_close u cb c)
  then show ?thesis
    by (auto simp: support_close_def support_answer_Inr tx_simps same_effect split: option.splits
        dest: close_effect)
next
  case (user_link u tid digits a)
  then show ?thesis
    by (auto simp: support_link_order_def support_answer_Inr tx_simps same_effect split: if_splits
        dest: link_effect [OF assms(1)])
next
  case (staff_message u tid words au a n au')
  then show ?thesis
    by (auto simp: support_staff_reply_event_def Let_def tx_simps same_effect split: if_splits prod.splits
        dest: staff_msg_effect)
next
  case (staff_status u cb au a au')
  show ?thesis
  proof (cases "s' = s")
    case False
    then obtain st rest tid t s1 where p: "status_callback cb = Some (st, rest)" "parse_int rest = Inr tid"
        "set_ticket_status_staff e tid st s = Inr (t, s1)"
      and s': "t_tickets s' = t_tickets s1" "t_messages s' = t_messages s1" "t_seq s' = t_seq s1"
      using staff_status(1)
      by (auto simp: support_status_event_def support_set_status_def support_answer_Inr Let_def tx_simps
          split: option.splits if_splits prod.splits)
    have "ticket_effect reopen s s1"
      using p staff_status(2) by (intro set_status_effect [OF p(3)]) (auto simp: reopening_def split: option.splits)
    then show ?thesis using s' by (rule ticket_effect_tables)
  qed (simp add: same_effect)
qed

subsection \<open>One active ticket\<close>

definition tickets_wf :: "shop \<Rightarrow> bool" where
  "tickets_wf s \<longleftrightarrow> distinct (map st_id (t_tickets s)) \<and> list_all ticket_check (t_tickets s) \<and>
     list_all (\<lambda>t. st_id t \<le> t_seq s) (t_tickets s) \<and>
     distinct (map sm_id (t_messages s)) \<and>
     list_all (\<lambda>m. sm_id m \<le> t_seq s \<and> sm_ticket_id m \<in> st_id ` set (t_tickets s)) (t_messages s) \<and>
     (\<forall>u. length (active_of s u) \<le> 1)"

definition messages_of :: "shop \<Rightarrow> int \<Rightarrow> support_message list" where
  "messages_of s tid = filter (\<lambda>m. sm_ticket_id m = tid) (t_messages s)"

text \<open>Rewriting a row that does not newly satisfy a filter adds nothing to it.\<close>

lemma length_filter_put:
  assumes "distinct (map key rows)" "r \<in> set rows" "key r1 = key r" "P r1 \<Longrightarrow> P r"
  shows "length (filter P (put_by key r1 rows)) \<le> length (filter P rows)"
  using assms
proof (induction rows)
  case (Cons x rows)
  show ?case
  proof (cases "key x = key r")
    case True
    then have "key r1 \<notin> key ` set rows" using Cons.prems(1,3) by auto
    moreover have "x = r" using True Cons.prems(1,2) by (auto simp: image_iff)
    ultimately show ?thesis using Cons.prems(3,4) by (simp add: put_absent)
  next
    case False
    then show ?thesis using Cons by auto
  qed
qed simp

lemma keys_set_put: "key ` set (put_by key r rows) = key ` set rows"
  by (metis keys_put list.set_map)

lemma wf_put:
  assumes wf: "tickets_wf s" and t: "t \<in> set (t_tickets s)" "st_id t1 = st_id t" "st_user_id t1 = st_user_id t"
      "st_status t1 \<in> set (TicketClosed # active_statuses)"
      "st_status t1 \<noteq> TicketClosed \<Longrightarrow> st_status t \<noteq> TicketClosed"
    and s': "t_tickets s' = put_by st_id t1 (t_tickets s)" "t_seq s \<le> t_seq s'"
  shows "distinct (map st_id (t_tickets s')) \<and> list_all ticket_check (t_tickets s') \<and>
    list_all (\<lambda>t. st_id t \<le> t_seq s') (t_tickets s') \<and> (\<forall>u. length (active_of s' u) \<le> 1)"
proof (intro conjI allI)
  have d: "distinct (map st_id (t_tickets s))" using wf by (simp add: tickets_wf_def)
  then show "distinct (map st_id (t_tickets s'))" by (simp add: s' keys_put)
  have "ticket_check t1" using t(4) by (auto simp: ticket_check_def active_statuses_def)
  then show "list_all ticket_check (t_tickets s')"
    using wf set_put [of st_id t1 "t_tickets s"] by (auto simp: s' tickets_wf_def list_all_iff)
  show "list_all (\<lambda>t. st_id t \<le> t_seq s') (t_tickets s')"
    unfolding list_all_iff
  proof (rule ballI)
    fix x assume "x \<in> set (t_tickets s')"
    then have "x = t1 \<or> x \<in> set (t_tickets s)" using set_put [of st_id t1 "t_tickets s"] by (auto simp: s')
    then have "st_id x \<le> t_seq s" using wf t(1,2) by (auto simp: tickets_wf_def list_all_iff)
    then show "st_id x \<le> t_seq s'" using s'(2) by linarith
  qed
  fix u
  have st: "ticket_check t" using wf t(1) by (simp add: tickets_wf_def list_all_iff)
  have "length (active_of s' u) \<le> length (active_of s u)"
    unfolding active_of_def s'
    by (rule length_filter_put [OF d t(1,2)])
      (use t(3,5) st in \<open>auto simp: active_statuses_def ticket_check_def\<close>)
  also have "\<dots> \<le> 1" using wf by (simp add: tickets_wf_def)
  finally show "length (active_of s' u) \<le> 1" .
qed

lemma effect_keeps_wf:
  assumes "ticket_effect False s s'" "tickets_wf s"
  shows "tickets_wf s'"
  using assms(1)
proof (cases rule: ticket_effect.cases)
  case unchanged
  then show ?thesis using assms(2) by (simp add: tickets_wf_def active_of_def)
next
  case (opened t m)
  have n: "active_of s' u = active_of s u @ (if st_user_id t = u then [t] else [])" for u
    using opened by (simp add: active_of_def active_statuses_def)
  have "t_seq s + 1 \<notin> st_id ` set (t_tickets s)" "t_seq s + 2 \<notin> sm_id ` set (t_messages s)"
    using assms(2) by (auto simp: tickets_wf_def list_all_iff)
  then show ?thesis using assms(2) opened n
    by (auto simp: tickets_wf_def list_all_iff ticket_check_def)
next
  case (spoken t t1 m)
  have "t_seq s + 1 \<notin> sm_id ` set (t_messages s)" using assms(2) by (auto simp: tickets_wf_def list_all_iff)
  moreover have "distinct (map st_id (t_tickets s')) \<and> list_all ticket_check (t_tickets s') \<and>
    list_all (\<lambda>t. st_id t \<le> t_seq s') (t_tickets s') \<and> (\<forall>u. length (active_of s' u) \<le> 1)"
    by (rule wf_put [OF assms(2) spoken(1,3,4)]) (use spoken in auto)
  ultimately show ?thesis using assms(2) spoken
    by (auto simp: tickets_wf_def list_all_iff keys_set_put)
next
  case (updated t t1)
  have "distinct (map st_id (t_tickets s')) \<and> list_all ticket_check (t_tickets s') \<and>
    list_all (\<lambda>t. st_id t \<le> t_seq s') (t_tickets s') \<and> (\<forall>u. length (active_of s' u) \<le> 1)"
    by (rule wf_put [OF assms(2) updated(1-4)]) (use updated in auto)
  then show ?thesis using assms(2) updated by (auto simp: tickets_wf_def list_all_iff keys_set_put)
next
  case (moved t t1)
  have "distinct (map st_id (t_tickets s')) \<and> list_all ticket_check (t_tickets s') \<and>
    list_all (\<lambda>t. st_id t \<le> t_seq s') (t_tickets s') \<and> (\<forall>u. length (active_of s' u) \<le> 1)"
    by (rule wf_put [OF assms(2) moved(1-4)]) (use moved in auto)
  then show ?thesis using assms(2) moved by (auto simp: tickets_wf_def list_all_iff keys_set_put)
qed

text \<open>Closed tickets are frozen: only the time stamp of the row can change, and nobody speaks in them.\<close>

definition frozen :: "int \<Rightarrow> shop \<Rightarrow> shop \<Rightarrow> bool" where
  "frozen tid s s' \<longleftrightarrow> messages_of s' tid = messages_of s tid \<and>
     (case get_ticket s tid of None \<Rightarrow> False
      | Some t \<Rightarrow> (\<exists>now. get_ticket s' tid = Some (t\<lparr>st_updated_at := now\<rparr>)))"

lemma frozen_refl: "get_ticket s tid = Some t \<Longrightarrow> frozen tid s s"
  by (simp add: frozen_def, rule exI [of _ "st_updated_at t"]) simp

lemma frozen_trans: "frozen tid s s1 \<Longrightarrow> frozen tid s1 s2 \<Longrightarrow> frozen tid s s2"
  by (auto simp: frozen_def split: option.splits)

lemma ticket_row:
  assumes "tickets_wf s" "t \<in> set (t_tickets s)"
  shows "get_ticket s (st_id t) = Some t"
  using assms find_by_distinct [of st_id "t_tickets s" t] by (simp add: get_ticket_def tickets_wf_def)

lemma effect_freezes_closed:
  assumes "ticket_effect False s s'" and wf: "tickets_wf s"
    and g: "get_ticket s tid = Some t0" and closed: "st_status t0 = TicketClosed"
  shows "frozen tid s s'"
proof -
  have other: "get_ticket s' tid = Some t0" if "t_tickets s' = put_by st_id t1 (t_tickets s)"
      "t \<in> set (t_tickets s)" "st_id t1 = st_id t" "st_status t \<noteq> TicketClosed" for t t1
  proof -
    have "tid \<noteq> st_id t1" using that ticket_row [OF wf that(2)] g closed by auto
    then show ?thesis using g that(1) by (simp add: get_ticket_def find_put)
  qed
  have same: "\<exists>now. get_ticket s' tid = Some (t0\<lparr>st_updated_at := now\<rparr>)" if "get_ticket s' tid = Some t0"
    using that by (intro exI [of _ "st_updated_at t0"]) simp
  show ?thesis
    using assms(1)
  proof (cases rule: ticket_effect.cases)
    case unchanged
    then show ?thesis using g same by (simp add: frozen_def messages_of_def get_ticket_def)
  next
    case (opened t m)
    have "tid \<le> t_seq s"
      using get_ticket_mem [OF g] wf by (auto simp: tickets_wf_def list_all_iff)
    then have "sm_ticket_id m \<noteq> tid" using opened by simp
    moreover have "get_ticket s' tid = Some t0"
      using g opened by (simp add: get_ticket_def find_by_append)
    ultimately show ?thesis using g opened same by (simp add: frozen_def messages_of_def)
  next
    case (spoken t t1 m)
    have "sm_ticket_id m \<noteq> tid" using ticket_row [OF wf spoken(1)] g closed spoken by auto
    moreover have "get_ticket s' tid = Some t0" by (rule other [OF spoken(8,1,3,2)])
    ultimately show ?thesis using g spoken same by (simp add: frozen_def messages_of_def)
  next
    case (updated t t1)
    have "get_ticket s' tid = Some (if st_id t = tid then t1 else t0)"
      using g updated by (auto simp: get_ticket_def find_put)
    moreover have "t = t0" if "st_id t = tid" using ticket_row [OF wf updated(1)] g that by simp
    moreover have "t1 = t\<lparr>st_updated_at := st_updated_at t1\<rparr>"
      using updated by (metis (no_types, lifting) support_ticket.surjective support_ticket.update_convs(3))
    ultimately have "\<exists>now. get_ticket s' tid = Some (t0\<lparr>st_updated_at := now\<rparr>)"
      using same by (cases "st_id t = tid") auto
    then show ?thesis using g updated by (simp add: frozen_def messages_of_def)
  next
    case (moved t t1)
    have "get_ticket s' tid = Some t0" by (rule other [OF moved(6,1,2,5)])
    then show ?thesis using g moved same by (simp add: frozen_def messages_of_def)
  qed
qed

text \<open>
  As long as the staff reopens no closed ticket, every user has at most one active ticket, and a
  ticket that was closed stays closed with the conversation it had.
\<close>

text \<open>C27: Whatever sequence of support events of users and staff is handled, in which no closed ticket
  is reopened by the staff, ticket and message ids stay unique, every message belongs to a ticket,
  every user has at most one active ticket, and a closed ticket keeps its owner, status, linked
  order and messages for good; only its time stamp may be renewed, by closing it again.\<close>
theorem tickets_stay_well_formed:
  assumes "support_reach False s s'" "tickets_wf s"
  shows "tickets_wf s' \<and>
    (\<forall>tid. (case get_ticket s tid of None \<Rightarrow> False | Some t \<Rightarrow> st_status t = TicketClosed) \<longrightarrow> frozen tid s s')"
  using assms
proof (induction rule: support_reach.induct)
  case (start s)
  then show ?case by (auto intro: frozen_refl split: option.splits)
next
  case (more s s' e s'')
  then have wf: "tickets_wf s'" by blast
  then have eff: "ticket_effect False s' s''"
    using more.hyps(2) support_step_effect by (simp add: tickets_wf_def)
  show ?case
  proof (intro conjI allI impI)
    show "tickets_wf s''" using eff wf by (rule effect_keeps_wf)
    fix tid
    assume c: "case get_ticket s tid of None \<Rightarrow> False | Some t \<Rightarrow> st_status t = TicketClosed"
    then have f: "frozen tid s s'" using more by blast
    with c obtain t' where "get_ticket s' tid = Some t'" "st_status t' = TicketClosed"
      by (auto simp: frozen_def split: option.splits)
    with eff wf have "frozen tid s' s''" by (intro effect_freezes_closed)
    with f show "frozen tid s s''" by (rule frozen_trans)
  qed
qed

subsection \<open>Concrete runs\<close>

definition sample_ticket_shop :: shop where
  "sample_ticket_shop = sample_shop\<lparr>
     t_tickets := [\<lparr>st_id = 14, st_user_id = 1, st_status = TicketClosed, st_linked_order_id = None,
        st_created_at = 100, st_updated_at = 200\<rparr>],
     t_messages := [\<lparr>sm_id = 15, sm_ticket_id = 14, sm_author_role = AuthorUser, sm_author_user_id = Some 1,
        sm_body = ''hello'', sm_created_at = 100\<rparr>]\<rparr>"

definition new_ticket_shop :: shop where
  "new_ticket_shop = (case support_new_body sample_env 1 (Some '' broken key '') sample_ticket_shop of Inr (_, s) \<Rightarrow> s | Inl _ \<Rightarrow> empty_shop)"

lemma new_ticket_shop: "support_new_body sample_env 1 (Some '' broken key '') sample_ticket_shop = Inr (''support.created'', new_ticket_shop)"
  by code_simp

lemma sample_tickets_wf: "tickets_wf sample_ticket_shop"
  by (simp add: tickets_wf_def sample_ticket_shop_def sample_shop_def empty_shop_def ticket_check_def active_of_def
      active_statuses_def)

lemma tickets_stay_well_formed_witness:
  "tickets_wf new_ticket_shop \<and> frozen 14 sample_ticket_shop new_ticket_shop \<and>
   map st_status (t_tickets new_ticket_shop) = [TicketClosed, TicketOpen]"
proof -
  have "support_reach False sample_ticket_shop new_ticket_shop"
    by (rule support_reach.more [OF support_reach.start support_step.new_ticket [OF new_ticket_shop]])
  from tickets_stay_well_formed [OF this sample_tickets_wf]
  have "tickets_wf new_ticket_shop \<and> frozen 14 sample_ticket_shop new_ticket_shop"
    by (simp add: sample_ticket_shop_def get_ticket_def)
  moreover have "map st_status (t_tickets new_ticket_shop) = [TicketClosed, TicketOpen]" by code_simp
  ultimately show ?thesis by blast
qed

text \<open>The staff can reopen the old ticket while the user has a new one: two active tickets.\<close>

lemma reopening_gives_two_active:
  "\<exists>s'. support_set_status sample_env 2 (''open'', ''14'') new_ticket_shop = Inr (''admin.support.status_updated'', s') \<and>
    length (active_of s' 1) = 2"
  by (rule exI [of _ "case support_set_status sample_env 2 (''open'', ''14'') new_ticket_shop of Inr (_, s) \<Rightarrow> s | Inl _ \<Rightarrow> empty_shop"])
    code_simp

end
