(* ===== verification/Books.thy ===== *)
theory Books
  imports Purchases Topups Cart Access_Safety Support
begin

text \<open>
  The books of the shop, across its components: whatever purchases, checkouts, top-ups, webhooks,
  refunds, worker passes, promo codes, operator corrections, registrations, cart and support events
  follow each other, the balances of all users together are what the rows of the database account for.
\<close>

subsection \<open>What the rows account for\<close>

text \<open>An order has been paid from a balance once it left \<open>CREATED\<close>, unless it expired.\<close>

definition paid_total :: "order \<Rightarrow> int" where
  "paid_total x = (if o_status x \<in> set paid_or_settled then o_total_cents x else 0)"

text \<open>The cart checkout writes purchase rows without an order.\<close>

definition cart_sale :: "bought_goods \<Rightarrow> int" where
  "cart_sale b = (if bg_order_id b = None then bg_price b else 0)"

definition recorded_income :: "shop \<Rightarrow> int" where
  "recorded_income s = sum_list (map op_value (t_operations s)) + sum_list (map re_amount (t_earnings s))"

definition recorded_sales :: "shop \<Rightarrow> int" where
  "recorded_sales s = sum_list (map paid_total (t_orders s)) + sum_list (map cart_sale (t_bought s))"

text \<open>What the balances hold beyond what the rows account for.\<close>

definition unexplained :: "shop \<Rightarrow> int" where
  "unexplained s = total_balance s - recorded_income s + recorded_sales s"

definition referrers_exist :: "shop \<Rightarrow> bool" where
  "referrers_exist s \<longleftrightarrow> (\<forall>r \<in> set (t_earnings s). get_user s (re_referrer_id r) \<noteq> None)"

definition books_ok :: "shop \<Rightarrow> bool" where
  "books_ok s \<longleftrightarrow> users_ok s \<and> orders_ok s \<and> earnings_ok s \<and> referrers_exist s"

text \<open>A step that moves \<open>d\<close> kopecks without a row that accounts for them.\<close>

definition moves :: "int \<Rightarrow> shop \<Rightarrow> shop \<Rightarrow> bool" where
  "moves d s s' \<longleftrightarrow> (books_ok s \<longrightarrow> books_ok s' \<and> unexplained s' = unexplained s + d)"

lemma moves_refl [simp]: "moves 0 s s"
  by (simp add: moves_def)

lemma moves_trans: "moves a s s1 \<Longrightarrow> moves b s1 s2 \<Longrightarrow> d = a + b \<Longrightarrow> moves d s s2"
  by (simp add: moves_def)

lemma moves_ok: "moves d s s' \<Longrightarrow> books_ok s \<Longrightarrow> books_ok s'"
  by (simp add: moves_def)

lemma moves_when: "(books_ok s \<Longrightarrow> moves d s s') \<Longrightarrow> moves d s s'"
  by (auto simp: moves_def)

lemma user_exists_iff: "get_user s k \<noteq> None \<longleftrightarrow> k \<in> set (map u_id (t_users s))"
  using find_by_None_iff [of u_id k "t_users s"] by (auto simp: get_user_def)

lemma books_ok_frame:
  assumes "books_ok s" "map u_id (t_users s') = map u_id (t_users s)" "t_orders s' = t_orders s"
    "t_history s' = t_history s" "t_earnings s' = t_earnings s" "t_seq s \<le> t_seq s'"
  shows "books_ok s'"
  using assms(1) orders_ok_frame [of s s'] earnings_ok_seq [of s s'] assms(2-)
  unfolding books_ok_def users_ok_def referrers_exist_def user_exists_iff by simp

text \<open>The other tables do not matter.\<close>

lemma moves_frame:
  assumes "t_users s' = t_users s" "t_orders s' = t_orders s" "t_history s' = t_history s" "t_bought s' = t_bought s"
    "t_operations s' = t_operations s" "t_earnings s' = t_earnings s" "t_seq s \<le> t_seq s'"
  shows "moves 0 s s'"
  using books_ok_frame [of s s'] assms
  by (simp add: moves_def unexplained_def total_balance_def recorded_income_def recorded_sales_def)

lemma moves_put_user:
  assumes "get_user s (u_id v) = Some u"
  shows "moves (u_balance v - u_balance u) s (put_user v s)"
proof (rule moves_when)
  assume ok: "books_ok s"
  have "books_ok (put_user v s)"
    by (rule books_ok_frame [OF ok]) (simp_all add: put_user_def keys_put)
  moreover have "total_balance (put_user v s) = total_balance s - u_balance u + u_balance v"
    using total_balance_put [of s v u] ok assms by (simp add: books_ok_def)
  ultimately show "moves (u_balance v - u_balance u) s (put_user v s)"
    by (simp add: moves_def unexplained_def) (simp add: put_user_def recorded_income_def recorded_sales_def)
qed

lemma moves_add_operation: "moves (- a) s (add_operation k a t s)"
  using books_ok_frame [of s "add_operation k a t s"]
  by (simp add: moves_def unexplained_def add_operation_def next_id_def total_balance_def recorded_income_def recorded_sales_def)

text \<open>A credit with its operation row is accounted for.\<close>

lemma moves_credit:
  assumes "get_user s k = Some u"
  shows "moves 0 s (add_operation k a t (put_user (u\<lparr>u_balance := u_balance u + a\<rparr>) s))"
proof -
  have "u_id u = k" using assms by (rule users.lookup_key)
  then have "moves a s (put_user (u\<lparr>u_balance := u_balance u + a\<rparr>) s)"
    using moves_put_user [of s "u\<lparr>u_balance := u_balance u + a\<rparr>" u] assms by simp
  then show ?thesis by (rule moves_trans [OF _ moves_add_operation]) simp
qed

lemma moves_bought:
  assumes "t_seq s \<le> n"
  shows "moves (sum_list (map cart_sale rows)) s (s\<lparr>t_bought := t_bought s @ rows, t_seq := n\<rparr>)"
  using books_ok_frame [of s "s\<lparr>t_bought := t_bought s @ rows, t_seq := n\<rparr>"] assms
  by (simp add: moves_def unexplained_def total_balance_def recorded_income_def recorded_sales_def)

lemma cart_sale_of_order: "\<forall>b \<in> set rows. bg_order_id b = Some k \<Longrightarrow> sum_list (map cart_sale rows) = 0"
  by (induction rows) (auto simp: cart_sale_def)

lemma cart_sale_of_cart: "\<forall>b \<in> set rows. bg_order_id b = None \<Longrightarrow> sum_list (map cart_sale rows) = sum_list (map bg_price rows)"
  by (induction rows) (auto simp: cart_sale_def)

subsection \<open>Orders\<close>

lemma sum_paid_put:
  assumes "orders_ok s" "get_order s (o_id y) = Some r"
  shows "sum_list (map paid_total (put_by o_id y (t_orders s))) = sum_list (map paid_total (t_orders s)) - paid_total r + paid_total y"
  using sum_put_by [of o_id "t_orders s" y r paid_total] assms by (simp add: orders_ok_def get_order_def)

lemma moves_history:
  assumes "get_order s (o_id y) = Some r" "can_transition (o_status r) (o_status y)"
    and "t_orders s4 = t_orders s" "t_history s4 = t_history s" "t_seq s \<le> t_seq s4" "moves d s s4"
  shows "moves (d + paid_total y - paid_total r) s (append_history y (Some (o_status r)) (o_status y) a s4)"
proof (rule moves_when)
  let ?s = "append_history y (Some (o_status r)) (o_status y) a s4"
  assume ok: "books_ok s"
  then have ok4: "books_ok s4" "unexplained s4 = unexplained s + d" using assms(6) by (simp_all add: moves_def)
  have "orders_ok ?s"
    by (rule orders_ok_append_history [OF _ assms(1) refl assms(2) refl assms(3-5)]) (use ok in \<open>simp add: books_ok_def\<close>)
  moreover have "earnings_ok ?s \<and> users_ok ?s \<and> referrers_exist ?s"
    using ok4(1) earnings_ok_seq [of s4 ?s] by (simp add: books_ok_def users_ok_def referrers_exist_def get_user_def)
  moreover have "recorded_sales ?s = recorded_sales s4 - paid_total r + paid_total y"
    using sum_paid_put [of s4 y r] ok4(1) assms(1,3) by (simp add: recorded_sales_def books_ok_def get_order_def)
  ultimately show "moves (d + paid_total y - paid_total r) s ?s"
    using ok4 by (simp add: moves_def books_ok_def unexplained_def total_balance_def recorded_income_def)
qed

lemma moves_put_order:
  assumes "get_order s (o_id y) = Some r" "o_status y = o_status r"
  shows "moves (paid_total y - paid_total r) s (put_order y s)"
proof (rule moves_when)
  assume ok: "books_ok s"
  have d: "distinct (map o_id (t_orders s))" using ok by (simp add: books_ok_def orders_ok_def)
  have r: "r \<in> set (t_orders s)" "o_id r = o_id y"
    using assms(1) by (auto simp: get_order_def dest: find_by_Some_mem find_by_Some_key)
  have "orders_ok (put_order y s)"
    unfolding orders_ok_def
  proof (intro conjI ballI)
    fix z assume "z \<in> set (t_orders (put_order y s))"
    then have z: "z = y \<or> z \<in> set (t_orders s)" using mem_put_by [OF d] by (auto simp: put_order_def)
    then show "o_id z \<le> t_seq (put_order y s)" using ok r by (auto simp: books_ok_def orders_ok_def put_order_def)
    show "history_path None (history_of (put_order y s) (o_id z)) (Some (o_status z))"
      using z ok r assms(2) by (auto simp: books_ok_def orders_ok_def put_order_def history_of_def)
  qed (use ok in \<open>auto simp: books_ok_def orders_ok_def put_order_def keys_put\<close>)
  moreover have "earnings_ok (put_order y s) \<and> users_ok (put_order y s) \<and> referrers_exist (put_order y s)"
    using ok earnings_ok_seq [of s "put_order y s"]
    by (simp add: books_ok_def users_ok_def referrers_exist_def get_user_def put_order_def)
  moreover have "recorded_sales (put_order y s) = recorded_sales s - paid_total r + paid_total y"
    using sum_paid_put [of s y r] ok assms(1) by (simp add: recorded_sales_def books_ok_def put_order_def)
  ultimately show "moves (paid_total y - paid_total r) s (put_order y s)"
    by (simp add: moves_def books_ok_def unexplained_def) (simp add: put_order_def total_balance_def recorded_income_def)
qed

lemma moves_create_order:
  assumes "create_order_with_snapshot e u g q p d c fe rf dt ex pv xt gf s = Inr (x, s')"
  shows "moves 0 s s'"
proof (rule moves_when)
  assume ok: "books_ok s"
  from assms obtain "unit" where x: "o_status x = CREATED"
    "s' = append_history x None CREATED (Some u) (s\<lparr>t_orders := t_orders s @ [x], t_seq := t_seq s + 1\<rparr>)"
    "o_id x = t_seq s + 1"
    by (rule create_order_Inr)
  have "orders_ok s'" using create_order_ok(1) [OF assms] ok by (simp add: books_ok_def)
  moreover have "earnings_ok s' \<and> users_ok s' \<and> referrers_exist s'"
    using ok earnings_ok_seq [of s s'] by (simp add: x(2) books_ok_def users_ok_def referrers_exist_def get_user_def)
  moreover have "put_by o_id x (t_orders s @ [x]) = t_orders s @ [x]"
  proof -
    have "o_id x \<notin> o_id ` set (t_orders s)" using ok x(3) by (fastforce simp: books_ok_def orders_ok_def)
    then have "\<forall>r \<in> set (t_orders s). o_id r \<noteq> o_id x" by (auto simp: image_iff)
    then show ?thesis by (simp add: put_by_def map_idI)
  qed
  ultimately show "moves 0 s s'"
    by (simp add: moves_def books_ok_def unexplained_def total_balance_def recorded_income_def recorded_sales_def x(1,2)
        paid_total_def paid_or_settled_def)
qed

subsection \<open>Referral bonuses and transitions\<close>

lemma moves_credit_referral:
  assumes "credit_referral_for_order e x s = Inr ((a, y), s')" "o_id x \<le> t_seq s"
  shows "moves 0 s s'"
  using assms(1)
proof (cases rule: credit_referral_cases)
  case none
  then show ?thesis by simp
next
  case (paid r row)
  have tabs: "t_users s' = t_users (put_user (r\<lparr>u_balance := u_balance r + a\<rparr>) s)" "t_earnings s' = t_earnings s @ [row]"
    by (subst paid(11), simp add: put_user_def)+
  note same = credit_referral_tables [OF assms(1)] and keys = credit_referral_keys [OF assms(1)]
  have rid: "u_id r = re_referrer_id row" using paid(1) by (rule users.lookup_key)
  show ?thesis
  proof (rule moves_when)
    assume ok: "books_ok s"
    have mem: "re_referrer_id row \<in> set (map u_id (t_users s))"
      using user_exists_iff [of s "re_referrer_id row"] paid(1) by simp
    have "total_balance s' = total_balance s + a"
      using total_balance_put [of s "r\<lparr>u_balance := u_balance r + a\<rparr>" r] ok paid(1) rid tabs(1)
      by (simp add: books_ok_def total_balance_def)
    moreover have "orders_ok s'" using ok orders_ok_frame [OF _ same(1-3)] by (simp add: books_ok_def)
    moreover have "referrers_exist s' \<and> users_ok s' \<and> earnings_ok s'"
      using ok keys assms(2) mem unfolding books_ok_def referrers_exist_def users_ok_def user_exists_iff tabs(2)
      by auto
    ultimately show "moves 0 s s'"
      using same(1,4,9) tabs(2) paid(5)
      by (simp add: moves_def books_ok_def unexplained_def recorded_income_def recorded_sales_def)
  qed
qed

lemma sum_without:
  fixes f :: "'r \<Rightarrow> int"
  assumes "distinct (map key rows)" "r \<in> set rows"
  shows "sum_list (map f (filter (\<lambda>x. key x \<noteq> key r) rows)) = sum_list (map f rows) - f r"
  using assms
proof (induction rows)
  case (Cons x rows)
  show ?case
  proof (cases "x = r")
    case True
    then have "filter (\<lambda>x. key x \<noteq> key r) rows = rows" using Cons.prems by (fastforce simp: filter_id_conv image_iff)
    then show ?thesis using True by simp
  next
    case False
    then have "r \<in> set rows" "key x \<noteq> key r" using Cons.prems by auto
    then show ?thesis using Cons by simp
  qed
qed simp

lemma moves_reverse_referral:
  assumes "reverse_referral_for_order x s = ((b, y), s')"
  shows "moves 0 s s'"
proof (cases "earning_of_order s (o_id x)")
  case None
  then show ?thesis using assms by (simp add: reverse_none)
next
  case (Some r)
  then have r: "r \<in> set (t_earnings s)" by (auto simp: earning_of_order_def find_Some_iff)
  show ?thesis
  proof (rule moves_when)
    assume ok: "books_ok s"
    then obtain u where u: "get_user s (re_referrer_id r) = Some u" using r by (auto simp: books_ok_def referrers_exist_def)
    have uid: "u_id u = re_referrer_id r" using u by (rule users.lookup_key)
    let ?s1 = "put_user (u\<lparr>u_balance := u_balance u - re_amount r\<rparr>) s"
    have s': "t_users s' = t_users ?s1" "t_earnings s' = filter (\<lambda>q. re_id q \<noteq> re_id r) (t_earnings s)"
      "t_orders s' = t_orders s" "t_history s' = t_history s" "t_bought s' = t_bought s" "t_operations s' = t_operations s"
      "t_seq s' = t_seq s"
      using assms Some u by (auto simp: reverse_referral_for_order_def Let_def put_user_def safe_create_task_def)
    have "total_balance s' = total_balance s - re_amount r"
      using total_balance_put [of s "u\<lparr>u_balance := u_balance u - re_amount r\<rparr>" u] ok u uid s'(1)
      by (simp add: books_ok_def total_balance_def)
    moreover have "sum_list (map re_amount (t_earnings s')) = sum_list (map re_amount (t_earnings s)) - re_amount r"
      using sum_without [of re_id "t_earnings s" r re_amount] ok r by (simp add: s'(2) books_ok_def earnings_ok_def)
    moreover have "earnings_ok s'"
      using ok by (auto simp: books_ok_def earnings_ok_def s'(2,7) distinct_map_filter split: option.splits)
    then have "books_ok s'"
      using ok orders_ok_frame [of s s'] s'(3,4,7)
      unfolding books_ok_def users_ok_def referrers_exist_def user_exists_iff s'(1,2)
      by (simp add: put_user_def keys_put)
    ultimately show "moves 0 s s'"
      by (simp add: moves_def unexplained_def recorded_income_def recorded_sales_def s')
  qed
qed

lemma moves_transition:
  assumes "transition_order e x t a s = Inr (y, s')" "get_order s (o_id x) = Some r"
    "o_status r = o_status x"
  shows "moves (paid_total y - paid_total r) s s'"
proof -
  have ct: "can_transition (o_status x) t" "o_status y = t" "same_snapshot x y"
    using transition_order_Inr [OF assms(1)] by metis+
  have oid: "o_id y = o_id x" using ct(3) by (simp add: same_snapshot_def)
  have rest: "moves (paid_total y - paid_total r) s s'"
    if "s' = append_history y (Some (o_status x)) t a s4" "t_orders s4 = t_orders s" "t_history s4 = t_history s"
      "t_seq s \<le> t_seq s4" "moves 0 s s4" for s4
    using moves_history [OF _ _ that(2-5), of y r a] assms(2,3) ct oid that(1) by simp
  have "t \<in> set known_statuses" using ct(1) by (rule can_transition_known)
  then consider "t = CREATED" | "t = PROCESSING" | "t = COMPLETED" | "t = FAILED" | "t = EXPIRED" | "t = REFUNDED"
    by (auto simp: known_statuses_def)
  then show ?thesis
  proof cases
    case 1
    with ct show ?thesis by (cases "o_status x") auto
  next
    case 2
    with ct have "o_status x = CREATED" by (cases "o_status x") auto
    with 2 assms(1) show ?thesis by (intro rest [of s]) (auto simp: transition_processing)
  next
    case 3
    with ct have xs: "o_status x = PROCESSING" by (cases "o_status x") auto
    from assms(1) [unfolded 3 transition_completed [OF xs]] obtain am z s1 where
      cr: "credit_referral_for_order e (x\<lparr>o_status := COMPLETED\<rparr>) s = Inr ((am, z), s1)"
      and y: "y = mark_completed e z" "s' = append_history (mark_completed e z) (Some PROCESSING) COMPLETED a s1"
      by (auto simp: tx_simps)
    show ?thesis
    proof (rule moves_when)
      assume ok: "books_ok s"
      have "r \<in> set (t_orders s)" "o_id r = o_id x"
        using assms(2) by (auto simp: get_order_def dest: find_by_Some_mem find_by_Some_key)
      with ok have "o_id x \<le> t_seq s" by (auto simp: books_ok_def orders_ok_def)
      with moves_credit_referral [OF cr] have "moves 0 s s1" by simp
      then show "moves (paid_total y - paid_total r) s s'"
        using 3 xs y credit_referral_tables(1-3) [OF cr] by (intro rest [of s1]) auto
    qed
  next
    case 4
    with ct have "o_status x = PROCESSING" by (cases "o_status x") auto
    with 4 assms(1) show ?thesis
      by (intro rest [of "snd (release_stock_reservations (o_id x) s)"] moves_frame) (auto simp: transition_failed)
  next
    case 5
    with ct have "o_status x = CREATED \<or> o_status x = PROCESSING" by (cases "o_status x") auto
    with 5 ct assms(1) show ?thesis
      by (intro rest [of "snd (release_stock_reservations (o_id x) s)"] moves_frame) (auto simp: transition_expired)
  next
    case 6
    with ct have xs: "o_status x = COMPLETED \<or> o_status x = FAILED" by (cases "o_status x") auto
    obtain b z s1 where rv: "reverse_referral_for_order (x\<lparr>o_status := REFUNDED\<rparr>) s = ((b, z), s1)"
      by (metis surj_pair)
    from assms(1) [unfolded 6 transition_refunded [OF xs rv]] have y: "y = z"
      "s' = append_history z (Some (o_status x)) REFUNDED a s1" by auto
    have "t_orders s1 = t_orders s" "t_history s1 = t_history s" "t_seq s \<le> t_seq s1"
      using reverse_referral_effect(2) [OF rv] by auto
    then show ?thesis using 6 y moves_reverse_referral [OF rv] by (intro rest [of s1]) auto
  qed
qed

text \<open>The order object a component holds: its stored row has the same status and total.\<close>

definition in_hand :: "shop \<Rightarrow> order \<Rightarrow> bool" where
  "in_hand s x \<longleftrightarrow> (\<exists>r. get_order s (o_id x) = Some r \<and> o_status r = o_status x \<and> o_total_cents r = o_total_cents x)"

lemma in_hand_get: "get_order s k = Some x \<Longrightarrow> in_hand s x"
  using orders.lookup_key by (auto simp: in_hand_def)

lemma in_hand_sync: "in_hand s x \<Longrightarrow> in_sync s x"
  by (auto simp: in_hand_def in_sync_def)

lemma in_hand_frame: "in_hand s x \<Longrightarrow> t_orders s' = t_orders s \<Longrightarrow> in_hand s' x"
  by (simp add: in_hand_def get_order_def)

lemma in_hand_same:
  "in_hand s x \<Longrightarrow> o_id y = o_id x \<Longrightarrow> o_status y = o_status x \<Longrightarrow> o_total_cents y = o_total_cents x \<Longrightarrow> in_hand s y"
  by (simp add: in_hand_def)

lemma moves_next_status:
  assumes "transition_order e x t a s = Inr (y, s')" "in_hand s x"
  shows "moves (paid_total y - paid_total x) s s'" "in_hand s' y"
proof -
  obtain r where r: "get_order s (o_id x) = Some r" "o_status r = o_status x" "o_total_cents r = o_total_cents x"
    using assms(2) by (auto simp: in_hand_def)
  then have "paid_total r = paid_total x" by (simp add: paid_total_def)
  with moves_transition [OF assms(1) r(1,2)] show "moves (paid_total y - paid_total x) s s'" by simp
  have "get_order s' (o_id x) = Some y" by (rule transition_get [OF assms(1) in_hand_sync [OF assms(2)]])
  then show "in_hand s' y" by (rule in_hand_get)
qed

text \<open>Between two statuses of a paid order nothing moves.\<close>

lemma moves_paid_status:
  assumes "transition_order e x t a s = Inr (y, s')" "in_hand s x" "o_status x \<in> set paid_or_settled" "t \<in> set paid_or_settled"
  shows "moves 0 s s' \<and> in_hand s' y \<and> o_status y = t \<and> same_snapshot x y"
proof -
  note y = transition_order_result [OF assms(1)]
  then have "paid_total y = paid_total x" using assms(3,4) by (simp add: paid_total_def same_snapshot_def)
  with moves_next_status [OF assms(1,2)] y show ?thesis by simp
qed

lemma moves_update_order:
  assumes "in_hand s x" "o_id y = o_id x" "o_status y = o_status x" "o_total_cents y = o_total_cents x"
  shows "moves 0 s (put_order y s)" "in_hand (put_order y s) y"
proof -
  obtain r where r: "get_order s (o_id y) = Some r" "o_status y = o_status r" "o_total_cents y = o_total_cents r"
    using assms by (auto simp: in_hand_def)
  have "paid_total y - paid_total r = 0" using r by (simp add: paid_total_def)
  with moves_put_order [OF r(1,2)] show "moves 0 s (put_order y s)" by simp
  show "in_hand (put_order y s) y" using r by (auto simp: in_hand_def put_order_def get_order_def find_put)
qed

subsection \<open>Purchases\<close>

lemma moves_begin_paid:
  assumes "begin_paid_order e u g q p d gift c s = Inr (y, s')" "get_user s (u_id u) = Some u" "books_ok s"
  shows "moves 0 s s' \<and> in_hand s' y \<and> o_status y = PROCESSING"
proof -
  from assms(1) obtain x s1 where x: "create_order_with_snapshot e (u_id u) (g_id g) q (dec_div_100 p) d c 0 0
       (resolve_delivery_type g gift) None None None gift s = Inr (x, s1)"
    "o_status x = CREATED" "y = start_processing e x"
    "s' = append_history y (Some CREATED) PROCESSING (Some (u_id u))
       (put_user (u\<lparr>u_balance := u_balance u - max 0 (p * q - d)\<rparr>) s1)"
    by (rule begin_paid_order_Inr)
  let ?s2 = "put_user (u\<lparr>u_balance := u_balance u - max 0 (p * q - d)\<rparr>) s1"
  from x(1) obtain "unit" where un: "rub_to_cents (dec_div_100 p) = Inr unit" "o_total_cents x = max 0 (unit * q - d)"
    "s1 = append_history x None CREATED (Some (u_id u)) (s\<lparr>t_orders := t_orders s @ [x], t_seq := t_seq s + 1\<rparr>)"
    by (rule create_order_Inr)
  have tot: "o_total_cents y = max 0 (p * q - d)"
    using un(2) rub_to_cents_div_100_Inr [OF un(1)] by (simp add: x(3) start_processing_def)
  have y: "o_id y = o_id x" "o_status y = PROCESSING" by (simp_all add: x(3) start_processing_def)
  have g1: "get_order s1 (o_id x) = Some x" using create_order_ok(2) [OF x(1)] assms(3) by (simp add: books_ok_def)
  have u1: "get_user s1 (u_id u) = Some u" using assms(2) by (simp add: un(3) get_user_def)
  have pay: "moves (- max 0 (p * q - d)) s1 ?s2" using moves_put_user [of s1 "u\<lparr>u_balance := u_balance u - max 0 (p * q - d)\<rparr>" u] u1 by simp
  have "moves (- max 0 (p * q - d) + paid_total y - paid_total x) s1
      (append_history y (Some (o_status x)) (o_status y) (Some (u_id u)) ?s2)"
    by (rule moves_history [OF _ _ _ _ _ pay]) (simp_all add: y g1 x(2) put_user_def)
  moreover have "paid_total y = max 0 (p * q - d)" "paid_total x = 0"
    by (simp_all add: paid_total_def y tot x(2) paid_or_settled_def)
  ultimately have "moves 0 s1 s'" by (simp add: x(2,4) y)
  with moves_create_order [OF x(1)] have "moves 0 s s'" by (rule moves_trans) simp
  moreover have "get_order s' (o_id y) = Some y"
    using g1 y(1) by (simp add: x(4) get_order_def find_put put_user_def)
  ultimately show ?thesis using y(2) in_hand_get by blast
qed

lemma moves_record_units:
  assumes "record_bought_units e x g vps s = Inr (rows, s')"
  shows "moves 0 s s'" "t_orders s' = t_orders s"
proof -
  note s' = record_bought_units_Inr(1) [OF assms]
  have "sum_list (map cart_sale rows) = 0"
    by (rule cart_sale_of_order) (use record_bought_units_Inr(4) [OF assms] in blast)
  then show "moves 0 s s'" using moves_bought [of s "t_seq s + int (length vps)" rows] by (simp add: s')
  show "t_orders s' = t_orders s" by (simp add: s')
qed

lemma moves_complete_stock:
  assumes "complete_stock_order e x g vs s = Inr ((rows, y), s')" "in_hand s x"
  shows "moves 0 s s' \<and> in_hand s' y"
proof (cases "o_status x = COMPLETED")
  case True
  then show ?thesis using assms by (simp add: complete_stock_order_def)
next
  case False
  with assms(1) obtain s1 where x: "o_status x = PROCESSING"
    and r: "record_bought_units e x g (zip vs (split_amount (o_total_cents x) (int (length vs)))) s = Inr (rows, s1)"
    and t: "transition_order e x COMPLETED (Some (o_user_id x)) s1 = Inr (y, s')"
    by (auto simp: complete_stock_order_def Let_def tx_simps split: if_splits)
  have "moves 0 s1 s' \<and> in_hand s' y \<and> o_status y = COMPLETED \<and> same_snapshot x y"
    by (rule moves_paid_status [OF t in_hand_frame [OF assms(2) moves_record_units(2) [OF r]]])
      (simp_all add: x paid_or_settled_def)
  with moves_trans [OF moves_record_units(1) [OF r]] show ?thesis by simp
qed

lemma moves_consume: "consume_stock_units g q s = Inr (vs, s') \<Longrightarrow> moves 0 s s' \<and> t_orders s' = t_orders s \<and> t_users s' = t_users s"
  by (drule consume_stock_units_frame) (auto intro: moves_frame)

lemma moves_buy_line:
  assumes "buy_line e u g price d gift c s = Inr ((rows, y, api), s')" "get_user s (u_id u) = Some u" "books_ok s"
  shows "moves 0 s s'"
proof (cases "g_fulfillment_type g = FulfillApi")
  case True
  with assms(1) obtain x s1 where b: "begin_paid_order e u g 1 price d gift c s = Inr (x, s1)"
    and l: "purchase_api_line x g s1 = Inr (y, s')" by (auto simp: buy_line_def tx_simps)
  note B = moves_begin_paid [OF b assms(2,3)]
  from l obtain z where "s' = put_order z s1" "o_id z = o_id x" "o_status z = o_status x" "o_total_cents z = o_total_cents x"
    by (auto simp: purchase_api_line_def Let_def split: option.splits)
  then have "moves 0 s1 s'" using moves_update_order(1) [of s1 x z] B by simp
  with moves_trans [of 0 s s1] B show ?thesis by simp
next
  case False
  with assms(1) obtain vs sA x sB where c: "consume_stock_units g 1 s = Inr (vs, sA)"
    and b: "begin_paid_order e u g 1 price d gift 0 sA = Inr (x, sB)"
    and l: "purchase_stock_line e x g 1 (Some vs) sB = Inr ((rows, y), s')"
    by (auto simp: buy_line_def tx_simps)
  note C = moves_consume [OF c]
  have "books_ok sA" using C assms(3) moves_ok by blast
  with moves_begin_paid [OF b] C assms(2) have B: "moves 0 sA sB" "in_hand sB x" by (auto simp: get_user_def)
  have L: "moves 0 sB s'"
  proof (cases vs)
    case Nil
    with l obtain ws sC where w: "consume_stock_units g 1 sB = Inr (ws, sC)" "complete_stock_order e x g ws sC = Inr ((rows, y), s')"
      by (auto simp: purchase_stock_line_def tx_simps)
    note W = moves_consume [OF w(1)]
    have "moves 0 sC s'" using moves_complete_stock [OF w(2)] in_hand_frame [OF B(2)] W by blast
    with W moves_trans [of 0 sB sC] show ?thesis by simp
  next
    case (Cons v ws)
    with l moves_complete_stock B(2) show ?thesis by (simp add: purchase_stock_line_def)
  qed
  from moves_trans [OF _ B(1)] C have "moves 0 s sB" by simp
  from moves_trans [OF this L] show ?thesis by simp
qed

lemma moves_record_promo: "record_promo_usage p uid oid s = Inr (r, s') \<Longrightarrow> moves 0 s s'"
  by (rule moves_frame) (simp_all add: record_promo_frame)

lemma moves_buy_body:
  assumes "buy_body e uid name code gift s = Inr (r, s')"
  shows "moves 0 s s'"
proof (rule moves_when)
  assume ok: "books_ok s"
  from assms obtain u g fp applied info price d cost rows x api s1 where u: "get_user s uid = Some u"
    and l: "buy_line e u g price d gift cost s = Inr ((rows, x, api), s1)"
    and p: "buy_record_promo uid applied x s1 = Inr ((), s')"
    by (auto simp: buy_body_def Let_def tx_simps split: option.splits prod.splits)
  have "u_id u = uid" using u by (rule users.lookup_key)
  with u have "moves 0 s s1" using moves_buy_line [OF l _ ok] by simp
  moreover have "moves 0 s1 s'" using buy_record_promo_Inr [OF p] moves_record_promo by auto
  ultimately show "moves 0 s s'" by (rule moves_trans) simp
qed

subsection \<open>Refunds and delivery\<close>

lemma transition_other:
  assumes "transition_order e x t a s = Inr (y, s')" "k \<noteq> o_id x"
  shows "get_order s' k = get_order s k"
proof -
  from assms(1) obtain s4 where "same_snapshot x y" "s' = append_history y (Some (o_status x)) t a s4"
    "t_orders s4 = t_orders s" by (rule transition_order_Inr)
  with assms(2) show ?thesis by (simp add: get_order_def find_put same_snapshot_def)
qed

lemma moves_fail_and_refund:
  assumes "fail_and_refund e x s = Inr (y, s')" "in_hand s x" "o_status x = PROCESSING"
  shows "moves 0 s s'" "k \<noteq> o_id x \<Longrightarrow> get_order s' k = get_order s k"
proof -
  from assms(1) obtain z s1 where f: "transition_order e x FAILED (Some (o_user_id x)) s = Inr (z, s1)"
    and r: "refund_failed_order e z (Some (o_user_id z)) s1 = Inr (y, s')"
    by (auto simp: fail_and_refund_def tx_simps)
  have F: "moves 0 s s1 \<and> in_hand s1 z \<and> o_status z = FAILED \<and> same_snapshot x z"
    by (rule moves_paid_status [OF f assms(2)]) (simp_all add: assms(3) paid_or_settled_def)
  then obtain s2 where c: "credit_refund e z s1 = Inr ((), s2)"
    and t: "transition_order e z REFUNDED (Some (o_user_id z)) s2 = Inr (y, s')"
    using r by (auto simp: refund_failed_order_def tx_simps)
  from c obtain u where u: "get_user s1 (o_user_id z) = Some u" "s2 = add_operation (o_user_id z) (o_total_cents z) (env_now e)
       (put_user (u\<lparr>u_balance := u_balance u + o_total_cents z\<rparr>) s1)" by (rule credit_refund_Inr)
  have C: "moves 0 s1 s2" unfolding u(2) by (rule moves_credit [OF u(1)])
  have o2: "t_orders s2 = t_orders s1" by (simp add: u(2) add_operation_def put_user_def)
  have "in_hand s2 z" using F o2 in_hand_frame by blast
  then have "moves 0 s2 s'"
    using moves_paid_status [OF t] F by (simp add: paid_or_settled_def)
  with C have "moves 0 s1 s'" by (rule moves_trans) simp
  with F show "moves 0 s s'" using moves_trans [of 0 s s1] by simp
  show "get_order s' k = get_order s k" if "k \<noteq> o_id x"
  proof -
    have "k \<noteq> o_id z" using that F by (simp add: same_snapshot_def)
    then show ?thesis using transition_other [OF t] transition_other [OF f that] get_order_frame [OF o2] by simp
  qed
qed

lemma moves_deliver_external:
  assumes "deliver_external e x g r s = Inr (st, s')" "in_hand s x" "o_status x = PROCESSING"
  shows "moves 0 s s'"
proof (cases "st = TickCompleted")
  case True
  with assms(1) obtain vs ps rows s1 y where rec: "record_bought_units e x g (zip vs ps) s = Inr (rows, s1)"
    and t: "transition_order e x COMPLETED (Some (o_user_id x)) s1 = Inr (y, s')"
    by (auto simp: deliver_external_def Let_def tx_simps split: if_splits)
  have "in_hand s1 x" using assms(2) moves_record_units(2) [OF rec] by (rule in_hand_frame)
  then have "moves 0 s1 s'" using moves_paid_status [OF t] assms(3) by (simp add: paid_or_settled_def)
  with moves_trans [OF moves_record_units(1) [OF rec]] show ?thesis by simp
next
  case False
  with assms(1) have "s' = put_order x s" by (auto simp: deliver_external_def Let_def tx_simps split: if_splits)
  then show ?thesis using moves_update_order(1) [OF assms(2)] by simp
qed

lemma in_hand_stored:
  assumes "in_hand s x" "o_id y = o_id x" "o_status y = o_status x" "o_total_cents y = o_total_cents x"
  shows "in_hand s y"
  using assms by (simp add: in_hand_def)

lemma moves_fulfill:
  assumes "fulfill_processing_order e oid link s = Inr (st, s')"
  shows "moves 0 s s'"
proof -
  from assms obtain x where x: "get_order s oid = Some x"
    by (auto simp: fulfill_processing_order_def split: option.splits)
  have hand: "in_hand s x" using x by (rule in_hand_get)
  note def = assms [unfolded fulfill_processing_order_def x option.case]
  consider (noop) "s' = s"
    | (delivered) y where "transition_order e x COMPLETED (Some (o_user_id x)) s = Inr (y, s')" "o_status x = PROCESSING"
    | (refunded) z y where "fail_and_refund e z s = Inr (y, s')" "o_status z = PROCESSING" "in_hand s z"
    | (retry) z where "s' = put_order z s" "in_hand s z"
    | (external) z g r where "deliver_external e z g r s = Inr (st, s')" "o_status z = PROCESSING" "in_hand s z"
  proof (cases "o_status x = PROCESSING")
    case False
    then show ?thesis using def noop by simp
  next
    case p: True
    show ?thesis
    proof (cases "bought_of_order s (o_id x) = []")
      case False
      then show ?thesis using def p delivered by (auto simp: tx_simps)
    next
      case True
      note def1 = def [unfolded p True]
      from def1 obtain g where g: "get_goods s (o_goods_id x) = Some g" by (auto split: option.splits if_splits)
      show ?thesis
      proof (cases "link_for_order s x g link")
        case None
        then show ?thesis using def1 g refunded [of x] p hand by (auto simp: tx_simps split: if_splits)
      next
        case (Some l)
        with def1 g obtain pr where pr: "get_provider s (gpl_provider_id l) = Some pr" by (auto split: option.splits if_splits)
        note def2 = def1 [unfolded g Some pr option.case]
        show ?thesis
        proof (cases "create_external_order e x l pr")
          case (Inl err)
          let ?x1 = "x\<lparr>o_fulfillment_attempt_count := o_fulfillment_attempt_count x + 1\<rparr>"
          have "in_hand s ?x1" using in_hand_same [OF hand, of ?x1] by simp
          then show ?thesis
            using def2 Inl refunded [of x] refunded [of ?x1] retry [of ?x1] p hand
            by (cases err) (auto simp: tx_simps Let_def split: if_splits)
        next
          case (Inr q)
          obtain r z where q: "q = (r, z)" by fastforce
          note same = create_external_order_same [OF Inr [unfolded q]]
          have "in_hand s z" using in_hand_same [OF hand, of z] same by (simp add: same_snapshot_def)
          then show ?thesis using def2 Inr q external [of z g r] same p by (auto split: if_splits)
        qed
      qed
    qed
  qed
  then show ?thesis
  proof cases
    case delivered
    then show ?thesis using moves_paid_status [OF delivered(1) hand] by (simp add: paid_or_settled_def)
  next
    case refunded
    then show ?thesis by (intro moves_fail_and_refund(1))
  next
    case retry
    then show ?thesis using moves_update_order(1) [of s z z] by simp
  next
    case external
    then show ?thesis by (intro moves_deliver_external)
  qed simp
qed

lemma moves_manual_refund:
  assumes "manual_refund_order e oid w s = Inr ((y, b), s')"
  shows "moves 0 s s'"
proof -
  from assms obtain x where x: "get_order s oid = Some x" by (auto simp: manual_refund_order_def split: option.splits)
  show ?thesis
  proof (cases "o_status x = REFUNDED")
    case True
    then show ?thesis using assms x by (simp add: manual_refund_order_def)
  next
    case False
    with assms x obtain u z s4 where st: "o_status x = COMPLETED \<or> o_status x = FAILED"
      and u: "get_user s (o_user_id x) = Some u"
      and t: "transition_order e x REFUNDED (Some w) (log_audit ''order_refund'' ''INFO'' (Some w) (Some ''Order'')
          (Some (show_int (o_id x))) (add_operation (o_user_id x) (o_total_cents x) (env_now e)
            (put_user (u\<lparr>u_balance := u_balance u + o_total_cents x\<rparr>) s))) = Inr (z, s4)"
      and s': "s' = safe_create_task (InvalidateUserCache (o_user_id z)) s4"
      by (auto simp: manual_refund_order_def Let_def tx_simps split: option.splits if_splits)
    let ?s2 = "add_operation (o_user_id x) (o_total_cents x) (env_now e) (put_user (u\<lparr>u_balance := u_balance u + o_total_cents x\<rparr>) s)"
    let ?s3 = "log_audit ''order_refund'' ''INFO'' (Some w) (Some ''Order'') (Some (show_int (o_id x))) ?s2"
    have "moves 0 ?s2 ?s3" by (rule moves_frame) (simp_all add: log_audit_def)
    with moves_credit [OF u] have A: "moves 0 s ?s3" by (rule moves_trans) simp
    have "in_hand ?s3 x" using in_hand_frame [OF in_hand_get [OF x]] by (simp add: log_audit_def add_operation_def put_user_def)
    then have "moves 0 ?s3 s4" using moves_paid_status [OF t] st by (auto simp: paid_or_settled_def)
    with A have "moves 0 s s4" by (rule moves_trans) simp
    moreover have "moves 0 s4 s'" by (rule moves_frame) (simp_all add: s' safe_create_task_def)
    ultimately show ?thesis by (rule moves_trans) simp
  qed
qed

lemma moves_expire:
  assumes "transition_order e x EXPIRED a s = Inr (y, s')" "in_hand s x" "o_status x = CREATED"
  shows "moves 0 s s'"
proof -
  have "paid_total y = 0" "paid_total x = 0"
    using transition_order_result [OF assms(1)] assms(3) by (simp_all add: paid_total_def paid_or_settled_def)
  with moves_next_status(1) [OF assms(1,2)] show ?thesis by simp
qed

lemma moves_cancel: "user_cancel_order e oid uid s = Inr (y, s') \<Longrightarrow> moves 0 s s'"
  by (auto simp: user_cancel_order_def split: option.splits if_splits intro: moves_expire in_hand_get)

text \<open>A sweep over distinct orders, each step of which leaves the other orders alone.\<close>

lemma moves_sweep:
  assumes step: "\<And>x s s'. f x s = Inr s' \<Longrightarrow> in_hand s x \<Longrightarrow> P x \<Longrightarrow>
      moves 0 s s' \<and> (\<forall>k. k \<noteq> o_id x \<longrightarrow> get_order s' k = get_order s k)"
  shows "fold_tx f rows s = Inr s' \<Longrightarrow> \<forall>x \<in> set rows. in_hand s x \<and> P x \<Longrightarrow> distinct (map o_id rows) \<Longrightarrow> moves 0 s s'"
proof (induction rows arbitrary: s)
  case (Cons x rows)
  then obtain s1 where s1: "f x s = Inr s1" "fold_tx f rows s1 = Inr s'" by (auto simp: tx_simps)
  with step Cons.prems have S: "moves 0 s s1" "\<forall>k. k \<noteq> o_id x \<longrightarrow> get_order s1 k = get_order s k" by auto
  have "in_hand s1 z \<and> P z" if "z \<in> set rows" for z
  proof -
    have "o_id z \<in> o_id ` set rows" using that by simp
    then have "o_id z \<noteq> o_id x" using Cons.prems(3) by (metis distinct.simps(2) list.simps(9) set_map)
    then show ?thesis using that Cons.prems(2) S(2) by (simp add: in_hand_def)
  qed
  with Cons.IH [OF s1(2)] Cons.prems(3) have "moves 0 s1 s'" by simp
  with S(1) show ?case by (rule moves_trans) simp
qed simp

lemma order_in_hand: "orders_ok s \<Longrightarrow> x \<in> set (t_orders s) \<Longrightarrow> in_hand s x"
  using find_by_distinct [of o_id "t_orders s" x] by (auto simp: in_hand_def get_order_def orders_ok_def)

lemma distinct_page: "distinct (map key rows) \<Longrightarrow> distinct (map key (take n (order_by_key key (filter P rows))))"
proof -
  assume "distinct (map key rows)"
  then have "distinct (map key (order_by_key key (filter P rows)))"
    by (auto simp: distinct_map order_by_key_def intro: inj_on_subset)
  then show ?thesis by (simp flip: take_map)
qed

lemma moves_expire_due:
  assumes "expire_due_created_orders e n s = Inr (k, s')"
  shows "moves 0 s s'"
proof (rule moves_when)
  assume ok: "books_ok s"
  let ?rows = "due_created_orders (env_now e) n s"
  have "distinct (map o_id (t_orders s))" using ok by (simp add: books_ok_def orders_ok_def)
  then have "distinct (map o_id ?rows)" unfolding due_created_orders_def by (rule distinct_page)
  moreover have "set ?rows \<subseteq> {x \<in> set (t_orders s). o_status x = CREATED}"
    by (auto simp: due_created_orders_def order_by_key_def dest!: in_set_takeD)
  ultimately have rows: "set ?rows \<subseteq> {x \<in> set (t_orders s). o_status x = CREATED}" "distinct (map o_id ?rows)" by blast+
  have "fold_tx (\<lambda>x s. tx_bind (transition_order e x EXPIRED None s) (\<lambda>(_, s'). Inr s')) ?rows s = Inr s'"
    using assms by (auto simp: expire_due_created_orders_def Let_def tx_simps)
  then show "moves 0 s s'"
    by (rule moves_sweep [where P = "\<lambda>x. o_status x = CREATED", rotated])
      (use rows ok moves_expire transition_other in \<open>auto simp: books_ok_def tx_simps intro: order_in_hand\<close>)
qed

lemma moves_fail_hung:
  assumes "fold_tx (\<lambda>x s. tx_bind (fail_and_refund e x s) (\<lambda>(_, s1). Inr s1)) (hung_orders e s) s = Inr s'"
  shows "moves 0 s s'"
proof (rule moves_when)
  assume ok: "books_ok s"
  have rows: "set (hung_orders e s) \<subseteq> {x \<in> set (t_orders s). o_status x = PROCESSING}" "distinct (map o_id (hung_orders e s))"
    using ok by (auto simp: hung_orders_def Let_def books_ok_def orders_ok_def distinct_map_filter
        dest!: in_set_takeD intro!: distinct_take simp flip: take_map)
  from assms show "moves 0 s s'"
    by (rule moves_sweep [where P = "\<lambda>x. o_status x = PROCESSING", rotated])
      (use rows ok moves_fail_and_refund in \<open>auto simp: books_ok_def tx_simps intro: order_in_hand\<close>)
qed

subsection \<open>The cart, top-ups, promo codes and corrections\<close>

lemma moves_checkout_body:
  assumes body: "checkout_body e uid expect s = Inr ((ok, msg, rc), s')"
    and qty: "\<forall>c \<in> set (t_cart s). 0 < ci_quantity c"
  shows "moves 0 s s'"
proof (cases ok)
  case False
  then show ?thesis using checkout_body_False [of e uid expect s msg rc s'] body by (auto intro: moves_frame)
next
  case True
  from body obtain u where u: "get_user s uid = Some u" by (auto simp: checkout_body_def split: option.splits)
  let ?cs = "cart_of s uid"
  from body u obtain ls rm s1 where r: "resolve_cart e uid ?cs s = Inr ((ls, rm), s1)" and ne: "?cs \<noteq> []"
    by (auto simp: checkout_body_def Let_def cart_of_def [symmetric] tx_simps)
  let ?ps = "discount_cart ls" and ?s2 = "s1\<lparr>t_cart := filter (\<lambda>ci. ci_id ci \<notin> set rm) (t_cart s1)\<rparr>"
  note body' = body [unfolded checkout_body_def u option.case Let_def cart_of_def [symmetric]]
  from body' ne r True obtain rows s3 s4 where
    d: "deliver_cart e uid ?ps ?s2 = Inr (rows, s3)" and
    p: "record_cart_promos uid (distinct_promos ls) s3 = Inr ((), s4)" and
    s': "s' = put_user (u\<lparr>u_balance := u_balance u - cart_total ?ps\<rparr>) s4
           \<lparr>t_cart := filter (\<lambda>ci. ci_user_id ci \<noteq> uid) (t_cart s4)\<rparr>"
    by (auto simp: tx_simps put_user_def split: if_splits)
  have "\<forall>c \<in> set ?cs. 0 < ci_quantity c" using qty by (simp add: cart_of_def)
  from resolve_cart_frame [OF r this] obtain P where lo: "list_all line_ok ?ps"
    and s1: "s1 = s\<lparr>t_item_values := filter P (t_item_values s)\<rparr>" by (auto simp: discount_cart_line_ok)
  note D = deliver_cart_Inr [OF d lo]
  have "moves 0 s ?s2" by (rule moves_frame) (simp_all add: s1)
  moreover have "moves (cart_total ?ps) ?s2 s3"
    using moves_bought [of ?s2 "t_seq ?s2 + int (length rows)" rows] cart_sale_of_cart [of rows] D by simp
  ultimately have A: "moves (cart_total ?ps) s s3" by (rule moves_trans) simp
  have "moves 0 s3 s4" using record_cart_promos_frame [OF p] by (intro moves_frame) simp_all
  with A have B: "moves (cart_total ?ps) s s4" by (rule moves_trans) simp
  have "t_users s4 = t_users s" using record_cart_promos_frame [OF p] D by (simp add: s1)
  then have "get_user s4 (u_id u) = Some u" using u users.lookup_key [OF u] by (simp add: get_user_def)
  then have "moves (- cart_total ?ps) s4 (put_user (u\<lparr>u_balance := u_balance u - cart_total ?ps\<rparr>) s4)"
    using moves_put_user [of s4 "u\<lparr>u_balance := u_balance u - cart_total ?ps\<rparr>" u] by simp
  with B have C: "moves 0 s (put_user (u\<lparr>u_balance := u_balance u - cart_total ?ps\<rparr>) s4)" by (rule moves_trans) simp
  have "moves 0 (put_user (u\<lparr>u_balance := u_balance u - cart_total ?ps\<rparr>) s4) s'" by (rule moves_frame) (simp_all add: s')
  with C show ?thesis by (rule moves_trans) simp
qed

lemma moves_topup_body: "topup_body e pr uid amt prov ext s = Inr ((), s') \<Longrightarrow> moves 0 s s'"
proof (rule topup_body_Inr, assumption, goal_cases)
  case (1 u a s1)
  have "moves 0 s s1" "t_users s1 = t_users s"
    using 1(3) by (auto intro!: moves_frame simp: put_payment_def next_id_def)
  then show ?case
    using moves_trans [of 0 s s1 0 s'] moves_credit [of s1 uid u a "env_now e"] 1(2,4) by (simp add: get_user_def)
qed

lemma moves_redeem_body:
  assumes "redeem_body e code uid s = Inr (amount, s')"
  shows "moves 0 s s'"
proof -
  from assms obtain u p s2 where u: "get_user s uid = Some u" and a: "amount = pc_discount_value p"
    and r: "record_promo_usage p uid None (put_user (u\<lparr>u_balance := u_balance u + amount\<rparr>) s) = Inr ((), s2)"
    and s': "s' = add_operation uid amount (env_now e) s2"
    by (auto simp: redeem_body_def Let_def split: option.splits sum.splits exn.splits)
  let ?s1 = "put_user (u\<lparr>u_balance := u_balance u + amount\<rparr>) s"
  have "moves amount s ?s1" using moves_put_user [of s "u\<lparr>u_balance := u_balance u + amount\<rparr>" u] u users.lookup_key [OF u] by simp
  then have "moves amount s s2" by (rule moves_trans [OF _ moves_record_promo [OF r]]) simp
  then show ?thesis unfolding s' by (rule moves_trans [OF _ moves_add_operation]) simp
qed

lemma moves_new_user:
  assumes "get_user s (u_id u) = None" "u_balance u = 0"
  shows "moves 0 s (s\<lparr>t_users := t_users s @ [u]\<rparr>)"
proof (rule moves_when)
  let ?s = "s\<lparr>t_users := t_users s @ [u]\<rparr>"
  assume ok: "books_ok s"
  have "users_ok ?s" using ok user_exists_iff [of s "u_id u"] assms(1) by (auto simp: books_ok_def users_ok_def)
  moreover have "referrers_exist ?s" using ok unfolding books_ok_def referrers_exist_def user_exists_iff by auto
  moreover have "orders_ok ?s \<and> earnings_ok ?s"
    using ok orders_ok_frame [of s ?s] earnings_ok_seq [of s ?s] by (simp add: books_ok_def)
  ultimately show "moves 0 s ?s"
    using assms(2) by (simp add: moves_def books_ok_def unexplained_def total_balance_def recorded_income_def recorded_sales_def)
qed

subsection \<open>Steps of the running shop\<close>

text \<open>A committed state also satisfies the CHECK constraints.\<close>

definition shop_wf :: "shop \<Rightarrow> bool" where
  "shop_wf s \<longleftrightarrow> books_ok s \<and> check_violation s = None"

definition kept :: "shop \<Rightarrow> shop \<Rightarrow> bool" where
  "kept s s' \<longleftrightarrow> (shop_wf s \<longrightarrow> shop_wf s' \<and> unexplained s' = unexplained s)"

lemma kept_refl [simp]: "kept s s"
  by (simp add: kept_def)

lemma kept_trans: "kept s s1 \<Longrightarrow> kept s1 s2 \<Longrightarrow> kept s s2"
  by (simp add: kept_def)

lemma kept_when: "(shop_wf s \<Longrightarrow> kept s s') \<Longrightarrow> kept s s'"
  by (auto simp: kept_def)

lemma check_frame:
  "t_users s' = t_users s \<Longrightarrow> t_earnings s' = t_earnings s \<Longrightarrow> t_promos s' = t_promos s \<Longrightarrow> t_cart s' = t_cart s \<Longrightarrow>
   t_reviews s' = t_reviews s \<Longrightarrow> t_orders s' = t_orders s \<Longrightarrow> t_tickets s' = t_tickets s \<Longrightarrow>
     check_violation s' = check_violation s"
  by (simp add: check_violation_def)

lemma kept_commit: "check_violation s' = None \<Longrightarrow> moves 0 s s' \<Longrightarrow> kept s s'"
  by (simp add: kept_def shop_wf_def moves_def)

lemma kept_session: "run_session body s = Inr (r, s') \<Longrightarrow> (body s = Inr (r, s') \<Longrightarrow> moves 0 s s') \<Longrightarrow> kept s s'"
  by (auto simp: run_session_Inr intro: kept_commit)

lemma kept_frame: "moves 0 s s' \<Longrightarrow> check_violation s' = check_violation s \<Longrightarrow> kept s s'"
  by (simp add: kept_def shop_wf_def moves_def)

lemma kept_audit: "kept s s1 \<Longrightarrow> kept s (log_audit a l u rt rid s1)"
  by (erule kept_trans, rule kept_frame)
    (auto intro!: moves_frame check_frame simp: log_audit_def)

lemma kept_task: "kept s s1 \<Longrightarrow> kept s (safe_create_task t s1)"
  by (erule kept_trans, rule kept_frame)
    (auto intro!: moves_frame check_frame simp: safe_create_task_def)

lemma kept_payments: "kept s (s\<lparr>t_payments := ps\<rparr>)"
  by (rule kept_frame) (auto intro!: moves_frame check_frame)

lemmas kept_rules = kept_refl kept_audit kept_task

lemma kept_buy_loop: "buy_loop n e uid name code gift s = (r, s') \<Longrightarrow> kept s s'"
proof (induction n)
  case (Suc n)
  show ?case
  proof (cases "run_session (buy_body (e\<lparr>env_attempt := 2 - n\<rparr>) uid name code gift) s")
    case (Inl err)
    then show ?thesis using Suc by (auto simp: Let_def intro: kept_rules split: exn.splits if_splits)
  next
    case (Inr q)
    obtain d api s1 where q: "q = ((d, api), s1)" by (metis surj_pair)
    have "kept s s1" by (rule kept_session [OF Inr [unfolded q] moves_buy_body])
    then show ?thesis using Suc.prems Inr q by (auto simp: Let_def intro!: kept_rules split: option.splits)
  qed
qed simp

lemma kept_checkout_loop: "checkout_loop n e uid expect s = (r, s') \<Longrightarrow> kept s s'"
proof (induction n)
  case (Suc n)
  show ?case
  proof (rule kept_when)
    assume "shop_wf s"
    then have qty: "\<forall>c \<in> set (t_cart s). 0 < ci_quantity c"
      by (simp add: shop_wf_def check_violation_None list_all_iff)
    show "kept s s'"
    proof (cases "run_session (checkout_body (e\<lparr>env_attempt := 2 - n\<rparr>) uid expect) s")
      case (Inl err)
      then show ?thesis using Suc by (auto simp: Let_def intro: kept_rules split: exn.splits if_splits)
    next
      case (Inr q)
      obtain ok code rc s1 where q: "q = ((ok, code, rc), s1)" by (metis surj_pair)
      have k: "kept s s1" by (rule kept_session [OF Inr [unfolded q] moves_checkout_body [OF _ qty]])
      have "kept s (fold (\<lambda>name. safe_create_task (InvalidateItemCache name None)) names a)" if "kept s a" for names a
        using that by (induction names arbitrary: a) (auto intro: kept_task)
      then show ?thesis using Suc.prems Inr q k by (auto simp: Let_def intro!: kept_rules split: if_splits)
    qed
  qed
qed simp

lemma kept_topup:
  assumes "run_topup e pr uid amt prov ext s = (r, s')"
  shows "kept s s'"
proof -
  obtain b m where "run_topup e pr uid amt prov ext s = ((b, m), s')" using assms by (cases r) auto
  then show ?thesis
  proof (cases rule: run_topup_cases)
    case refused
    then show ?thesis by (auto intro: kept_rules)
  next
    case (credited s1)
    then show ?thesis using kept_commit [OF credited(4) moves_topup_body [OF credited(3)]] by (auto intro!: kept_rules)
  qed
qed

lemma kept_webhook:
  assumes "platega_webhook e b m h s = Inr (r, s')"
  shows "kept s s'"
proof -
  have "s' = s \<or> (\<exists>u a k. s' = snd (process_payment_topup e u a ''platega'' k s))"
    using assms unfolding platega_webhook_def finalize_platega_webhook_def Let_def split_beta
    by (auto simp: tx_simps split: option.splits if_splits)
  moreover have "kept s (snd (process_payment_topup e u a ''platega'' k s))" for u a k
    using kept_topup [of e _ u a _ k s "fst (process_payment_topup e u a ''platega'' k s)"
        "snd (process_payment_topup e u a ''platega'' k s)"] by (simp add: process_payment_topup_def)
  ultimately show ?thesis by auto
qed

lemma kept_recover: "kept s (snd (fold (check_and_process_payment e) ps (b, s)))"
proof (induction ps arbitrary: b s)
  case (Cons p ps)
  have "kept s (snd (run_topup e pr u a k x s))" for pr u a k x
    using kept_topup [of e pr u a k x s "fst (run_topup e pr u a k x s)" "snd (run_topup e pr u a k x s)"] by simp
  then have r: "kept s (recover_topup e p s)"
    by (auto simp: recover_topup_def process_payment_topup_def split: option.splits intro: kept_rules)
  obtain b1 s1 where c: "check_and_process_payment e p (b, s) = (b1, s1)" by fastforce
  have "s1 = s \<or> s1 = recover_topup e p s \<or> s1 = mark_payment_failed (pay_id p) s"
    using c by (auto simp: check_and_process_payment_def Let_def split: sum.splits option.splits prod.splits if_splits)
  with r kept_payments [of s] have "kept s s1" by (auto simp: mark_payment_failed_def)
  then show ?case using Cons.IH [of s1 b1] c by (auto intro: kept_trans)
qed simp

lemma kept_notify:
  assumes "notify_order_delivery deliver e oid s = Inr (r, s')"
  shows "kept s s'"
proof -
  from assms consider "s' = s"
    | x q where "get_order s oid = Some x" "run_session (\<lambda>s. Inr ((), put_order (x\<lparr>o_delivery_notified_at := q\<rparr>) s)) s = Inr ((), s')"
    by (auto simp: notify_order_delivery_def Let_def tx_simps split: option.splits list.splits if_splits)
  then show ?thesis
  proof cases
    case (2 x q)
    have "moves 0 s (put_order (x\<lparr>o_delivery_notified_at := q\<rparr>) s)"
      by (rule moves_update_order(1) [OF in_hand_get [OF 2(1)]]) simp_all
    then show ?thesis using kept_session [OF 2(2)] by auto
  qed simp
qed

lemma kept_fulfill: "fulfill_processing_order_by_id e oid s = Inr (st, s') \<Longrightarrow> kept s s'"
  unfolding fulfill_processing_order_by_id_def by (erule kept_session) (rule moves_fulfill)

lemma kept_tick_orders: "kept s (snd (tick_orders deliver e oids s))"
proof (induction oids arbitrary: s)
  case (Cons oid oids)
  show ?case
  proof (cases "fulfill_processing_order_by_id e oid s")
    case (Inr q)
    obtain st s1 where q: "q = (st, s1)" by fastforce
    have k: "kept s s1" using Inr q kept_fulfill by simp
    show ?thesis
    proof (cases "notify_order_delivery deliver e oid s1")
      case (Inl err)
      then show ?thesis using k Cons.IH [of s1] Inr q by (auto intro: kept_trans)
    next
      case (Inr p)
      obtain b sent s2 where p: "p = ((b, sent), s2)" by (metis surj_pair)
      then have "kept s s2" using k Inr kept_notify by (blast intro: kept_trans)
      then show ?thesis
        using k Cons.IH [of s1] Cons.IH [of s2] \<open>fulfill_processing_order_by_id e oid s = Inr q\<close> q Inr p
        by (auto simp: Let_def split_beta intro: kept_trans)
    qed
  qed simp
qed simp

lemma kept_worker: "kept s (snd (worker_tick deliver e s))"
proof (cases "run_session (expire_due_created_orders e (env_expire_batch e)) s")
  case (Inr q)
  obtain n s1 where q: "q = (n, s1)" by fastforce
  have k1: "kept s s1" using kept_session [OF Inr [unfolded q]] moves_expire_due by blast
  show ?thesis
  proof (cases "fail_hung_processing e s1")
    case (Inl err)
    then show ?thesis using k1 Inr q by (simp add: worker_tick_def)
  next
    case (Inr p)
    obtain s2 where p: "p = ((), s2)" by (cases p) auto
    have "kept s1 s2"
      using Inr [unfolded p fail_hung_processing_def] by (rule kept_session) (auto simp: tx_simps intro: moves_fail_hung)
    then show ?thesis
      using k1 kept_tick_orders [of s2] \<open>run_session _ s = Inr q\<close> Inr q p
      by (auto simp: worker_tick_def intro: kept_trans)
  qed
qed (simp add: worker_tick_def)

lemma kept_redeem:
  assumes "redeem_balance_promo e code uid s = (r, s')"
  shows "kept s s'"
proof (cases "run_session (redeem_body e code uid) s")
  case (Inl err)
  then show ?thesis using assms by (cases err) (auto simp: redeem_balance_promo_def intro: kept_rules)
next
  case (Inr q)
  obtain a s1 where q: "q = (a, s1)" by fastforce
  have "kept s s1" using kept_session [OF Inr [unfolded q]] moves_redeem_body by blast
  then show ?thesis using assms Inr q by (auto simp: redeem_balance_promo_def intro: kept_rules)
qed

lemma kept_correction:
  assumes "admin_balance_change e uid a s = (r, s')"
  shows "kept s s'"
proof -
  let ?body = "\<lambda>s. case get_user s uid of
           None \<Rightarrow> Inl (Abort ''user_not_found'')
         | Some u \<Rightarrow>
             if a < 0 \<and> u_balance u < \<bar>a\<bar> then Inl (Abort ''insufficient_funds'')
             else Inr ((), add_operation uid a (env_now e) (put_user (u\<lparr>u_balance := u_balance u + a\<rparr>) s))"
  show ?thesis
  proof (cases "run_session ?body s")
    case (Inl err)
    then show ?thesis using assms by (cases err) (auto simp: admin_balance_change_def intro: kept_rules)
  next
    case (Inr q)
    obtain s1 where q: "q = ((), s1)" by (cases q) auto
    have "kept s s1"
      using Inr [unfolded q] by (rule kept_session) (auto intro: moves_credit split: option.splits if_splits)
    then show ?thesis using assms Inr q by (auto simp: admin_balance_change_def intro!: kept_rules)
  qed
qed

lemma kept_register:
  assumes "create_user k d ref role s = Inr (r, s')"
  shows "kept s s'"
proof -
  let ?body = "\<lambda>s. if role \<noteq> None \<and> get_role s (the role) = None then Inl (IntegrityError ''users_role_id_fkey'')
          else if ref \<noteq> None \<and> get_user s (the ref) = None then Inl (IntegrityError ''users_referral_id_fkey'')
          else Inr ((), s\<lparr>t_users := t_users s @ [\<lparr>u_id = k, u_role_id = role, u_balance = 0,
                 u_referral_id = ref, u_registration_date = d, u_is_blocked = False\<rparr>]\<rparr>)"
  show ?thesis
  proof (cases "get_user s k")
    case None
    show ?thesis
    proof (cases "run_session ?body s")
      case (Inl err)
      then show ?thesis using assms None by (cases err) (auto simp: create_user_def)
    next
      case (Inr q)
      obtain s1 where q: "q = ((), s1)" by (cases q) auto
      have "kept s s1"
        using Inr [unfolded q] by (rule kept_session) (use None in \<open>auto intro: moves_new_user split: if_splits\<close>)
      then show ?thesis using assms None Inr q by (simp add: create_user_def)
    qed
  qed (use assms in \<open>simp add: create_user_def\<close>)
qed

lemma moves_user_row:
  "get_user s k = Some u \<Longrightarrow> u_id v = u_id u \<Longrightarrow> u_balance v = u_balance u \<Longrightarrow> moves 0 s (put_user v s)"
  using moves_put_user [of s v u] users.lookup_key [of s k u] by simp

lemma kept_set_role:
  assumes "set_role k role s = Inr (r, s')"
  shows "kept s s'"
proof -
  from assms obtain s1 where s1: "run_session (\<lambda>s. case get_user s k of None \<Rightarrow> Inr ((), s)
       | Some u \<Rightarrow> if get_role s role = None then Inl (IntegrityError ''users_role_id_fkey'')
           else Inr ((), put_user (u\<lparr>u_role_id := Some role\<rparr>) s)) s = Inr ((), s1)"
    and s': "s' = safe_create_task (InvalidateUserCache k) s1"
    unfolding set_role_def by (auto simp only: tx_bind_eq_Inr split: prod.splits)
  have "kept s s1" using s1
    by (rule kept_session) (auto intro: moves_user_row split: option.splits if_splits)
  then show ?thesis unfolding s' by (rule kept_task)
qed

lemma kept_block:
  assumes "set_user_blocked k b s = Inr (r, s')"
  shows "kept s s'"
proof -
  from assms obtain ok s1 where s1: "run_session (\<lambda>s. case get_user s k of None \<Rightarrow> Inr (False, s)
       | Some u \<Rightarrow> Inr (True, put_user (u\<lparr>u_is_blocked := b\<rparr>) s)) s = Inr (ok, s1)"
    and s': "s' = (if ok then safe_create_task (InvalidateUserCache k) s1 else s1)"
    unfolding set_user_blocked_def by (auto simp only: tx_bind_eq_Inr split: prod.splits)
  have "kept s s1" using s1
    by (rule kept_session) (auto intro: moves_user_row split: option.splits if_splits)
  then show ?thesis unfolding s' by (auto intro: kept_rules)
qed

text \<open>Changes to the other tables; a rename also rewrites the names in the purchase rows.\<close>

definition quiet :: "shop \<Rightarrow> shop \<Rightarrow> bool" where
  "quiet s s' \<longleftrightarrow> t_users s' = t_users s \<and> t_orders s' = t_orders s \<and> t_history s' = t_history s \<and>
     map cart_sale (t_bought s') = map cart_sale (t_bought s) \<and> t_operations s' = t_operations s \<and>
     t_earnings s' = t_earnings s \<and> t_seq s \<le> t_seq s'"

lemma quiet_moves: "quiet s s' \<Longrightarrow> moves 0 s s'"
  using books_ok_frame [of s s']
  by (simp add: quiet_def moves_def unexplained_def total_balance_def recorded_income_def recorded_sales_def)

lemma quiet_refl [simp]: "quiet s s"
  by (simp add: quiet_def)

lemma quiet_trans [trans]: "quiet s s1 \<Longrightarrow> quiet s1 s2 \<Longrightarrow> quiet s s2"
  by (simp add: quiet_def)

lemma quiet_fold: "(\<And>x s. quiet s (f x s)) \<Longrightarrow> quiet s (fold f xs s)"
  by (induction xs arbitrary: s) (auto intro: quiet_trans)

lemma quiet_values: "quiet s (fold (add_value_row k b) vs s)"
  by (rule quiet_fold) (simp add: quiet_def add_value_row_def next_id_def)

lemma quiet_rename: "quiet s (rename_bought a b s)"
  by (auto simp: quiet_def rename_bought_def cart_sale_def)

lemma kept_quiet: "run_session body s = Inr (r, s') \<Longrightarrow> (body s = Inr (r, s') \<Longrightarrow> quiet s s') \<Longrightarrow> kept s s'"
  by (erule kept_session) (auto intro: quiet_moves)

lemma kept_fold_tasks: "kept s s1 \<Longrightarrow> kept s (fold (\<lambda>x. safe_create_task (f x)) xs s1)"
  by (induction xs arbitrary: s1) (auto intro: kept_task)

lemmas row_changes = quiet_def put_goods_def put_category_def put_promo_def put_cart_item_def next_id_def

lemmas session_splits = option.splits sum.splits exn.splits prod.splits if_split_asm

text \<open>An operation that is a session followed by scheduled tasks.\<close>

lemma kept_add_value:
  assumes "add_values_to_item n v b s = Inr (r, s')"
  shows "kept s s'"
proof -
  have "kept s s1" if "run_session (add_value_body n (strip v) b) s = Inr (p, s1)" for p s1
    using that by (rule kept_quiet) (auto simp: add_value_body_def add_value_row_def row_changes split: session_splits)
  then show ?thesis using assms by (auto simp: add_values_to_item_def Let_def intro!: kept_rules split: session_splits)
qed

lemma kept_add_one_by_one: "add_one_by_one n b vs x y s = Inr (r, s') \<Longrightarrow> kept s s'"
proof (induction vs arbitrary: x y s)
  case (Cons v vs)
  then obtain ok s1 where "add_values_to_item n v b s = Inr (ok, s1)"
    "add_one_by_one n b vs (if ok then x + 1 else x) (if ok then y else y + 1) s1 = Inr (r, s')"
    by (auto simp: tx_simps split: if_splits)
  with kept_add_value Cons.IH show ?case by (blast intro: kept_trans)
qed simp

lemma kept_bulk:
  assumes "add_values_bulk n vs b s = Inr (r, s')"
  shows "kept s s'"
proof -
  obtain all dup bad where nv: "normalize_values vs = (all, dup, bad)" by (metis surj_pair)
  let ?w = "if b then take 1 all else all"
  show ?thesis
  proof (cases "run_session (bulk_body n ?w b) s")
    case (Inl err)
    then show ?thesis using assms nv kept_add_one_by_one
      by (auto simp: add_values_bulk_def Let_def tx_simps intro: kept_refl split: if_splits exn.splits)
  next
    case (Inr p)
    obtain x s1 where p: "p = (x, s1)" by fastforce
    have "kept s s1" using Inr unfolding p
      by (rule kept_quiet) (auto simp: bulk_body_def Let_def quiet_values split: option.splits)
    then show ?thesis using assms nv Inr p
      by (auto simp: add_values_bulk_def Let_def intro!: kept_rules split: if_splits option.splits)
  qed
qed

lemma kept_update_item:
  assumes "update_item n n' d p c s = Inr (r, s')"
  shows "kept s s'"
proof -
  obtain cents where cents: "rub_to_cents p = Inr cents" using assms by (auto simp: update_item_def tx_simps)
  show ?thesis
  proof (cases "run_session (update_item_body n n' d cents c) s")
    case (Inl err)
    then show ?thesis using assms cents by (cases err) (auto simp: update_item_def)
  next
    case (Inr q)
    obtain x s1 where q: "q = (x, s1)" by fastforce
    have g: "quiet s (put_goods g s)" for g by (simp add: row_changes)
    have "kept s s1"
      using Inr [unfolded q]
    proof (rule kept_quiet)
      assume "update_item_body n n' d cents c s = Inr (x, s1)"
      then have "s1 = s \<or> (\<exists>g. s1 = put_goods g s \<or> s1 = rename_bought n n' (put_goods g s))"
        by (auto simp: update_item_body_def Let_def split: option.splits if_splits)
      with g show "quiet s s1" by (auto intro: quiet_trans [OF _ quiet_rename])
    qed
    then show ?thesis using assms cents Inr q
      by (cases x) (auto simp: update_item_def Let_def intro!: kept_rules kept_fold_tasks split: if_splits)
  qed
qed

lemma kept_sale: "set_item_sale n p u s = Inr (r, s') \<Longrightarrow> kept s s'"
  unfolding set_item_sale_def tx_bind_eq_Inr
  by (auto intro!: kept_rules; erule kept_quiet; auto simp: row_changes split: option.splits)

lemma kept_create_item: "create_item n d p c f g s = Inr (r, s') \<Longrightarrow> kept s s'"
  unfolding create_item_def tx_bind_eq_Inr
  by (auto simp: tx_bind_eq_Inr intro!: kept_rules; erule kept_quiet; auto simp: row_changes split: session_splits)

lemma quiet_delete_goods: "delete_goods_rows del s = Inr s' \<Longrightarrow> quiet s s'"
  by (auto simp: delete_goods_rows_def Let_def quiet_def split: if_splits)

lemma kept_delete_item:
  assumes "delete_item n s = Inr (r, s')"
  shows "kept s s'"
proof -
  from assms obtain c s1 where s1: "run_session (delete_item_body n) s = Inr (c, s1)"
    and s': "s' = (if truthy_str c then safe_create_task (InvalidateCategoryCache (the c)) (safe_create_task (InvalidateItemCache n None) s1)
                   else safe_create_task (InvalidateItemCache n None) s1)"
    unfolding delete_item_def tx_bind_eq_Inr by (auto simp: Let_def)
  have "kept s s1" using s1
  proof (rule kept_quiet)
    assume "delete_item_body n s = Inr (c, s1)"
    then have "s1 = s \<or> (\<exists>P del. delete_goods_rows del (s\<lparr>t_item_values := filter P (t_item_values s)\<rparr>) = Inr s1)"
      by (auto simp: delete_item_body_def Let_def tx_bind_eq_Inr split: option.splits)
    then show "quiet s s1" by (auto dest!: quiet_delete_goods simp: quiet_def)
  qed
  then show ?thesis unfolding s' by (auto intro!: kept_rules)
qed

lemma kept_delete_category:
  assumes "delete_category n s = Inr (r, s')"
  shows "kept s s'"
proof -
  from assms obtain ns s1 where s1: "run_session (delete_category_body n) s = Inr (ns, s1)"
    and s': "s' = (case ns of None \<Rightarrow> s1
         | Some names \<Rightarrow> fold (\<lambda>name. safe_create_task (InvalidateItemCache name None)) names
             (safe_create_task (InvalidateCategoryCache n) s1))"
    unfolding delete_category_def tx_bind_eq_Inr by auto
  have "kept s s1" using s1
  proof (rule kept_quiet)
    assume body: "delete_category_body n s = Inr (ns, s1)"
    show "quiet s s1"
    proof (cases "category_by_name s n")
      case None
      then show ?thesis using body by (simp add: delete_category_body_def)
    next
      case (Some cat)
      let ?names = "map g_name (filter (\<lambda>g. g_category_id g = c_id cat) (t_goods s))"
      let ?s0 = "if ?names = [] then s else log_audit ''cascade_delete'' ''INFO'' None (Some ''Category'') (Some n) s"
      let ?rows = "delete_goods_rows (\<lambda>g. g_category_id g = c_id cat) ?s0"
      let ?k = "\<lambda>s2. Inr (Some ?names, s2\<lparr>t_categories := filter (\<lambda>c. c_id c \<noteq> c_id cat) (t_categories s2),
                 t_promos := map (\<lambda>p. if pc_category_id p = Some (c_id cat) then p\<lparr>pc_category_id := None\<rparr> else p)
                   (t_promos s2)\<rparr>)"
      have "tx_bind ?rows ?k = Inr (ns, s1)"
        using body Some by (simp only: delete_category_body_def Let_def option.case)
      then obtain s2 where d: "?rows = Inr s2" and k: "?k s2 = Inr (ns, s1)"
        unfolding tx_bind_eq_Inr by blast
      have "quiet s ?s0" by (simp add: quiet_def log_audit_def)
      also note quiet_delete_goods [OF d]
      finally show ?thesis using k by (auto simp: quiet_def)
    qed
  qed
  then show ?thesis unfolding s' by (auto intro!: kept_rules kept_fold_tasks split: option.split)
qed

lemma kept_categories:
  "create_category n s = Inr (r, s') \<Longrightarrow> kept s s'"
  "update_category n m s = Inr (r, s') \<Longrightarrow> kept s s'"
  unfolding create_category_def update_category_def tx_bind_eq_Inr Let_def
  by (auto intro!: kept_rules; erule kept_quiet; auto simp: row_changes split: session_splits)+

lemma kept_promo_codes:
  "create_promo_code c t v m x ca it mo mu s = Inr (i, s') \<Longrightarrow> kept s s'"
  "toggle_promo_code k s = Inr (b, s') \<Longrightarrow> kept s s'"
  "delete_promo_code k s = Inr (d, s') \<Longrightarrow> kept s s'"
  unfolding create_promo_code_def toggle_promo_code_def delete_promo_code_def
  subgoal by (auto simp: tx_bind_eq_Inr split: if_splits; erule kept_quiet; auto simp: row_changes split: session_splits)
  subgoal by (erule kept_quiet) (auto simp: row_changes split: session_splits)
  subgoal by (erule kept_quiet) (auto simp: row_changes split: session_splits)
  done

lemma kept_reviews:
  "subscribe_to_stock u n s = Inr (a, s') \<Longrightarrow> kept s s'"
  "unsubscribe_from_stock u n s = Inr (b, s') \<Longrightarrow> kept s s'"
  "pop_stock_subscribers n s = Inr (c, s') \<Longrightarrow> kept s s'"
  "create_review u n k t s = Inr (i, s') \<Longrightarrow> kept s s'"
  "delete_review j s = Inr (d, s') \<Longrightarrow> kept s s'"
  unfolding subscribe_to_stock_def unsubscribe_from_stock_def pop_stock_subscribers_def create_review_def delete_review_def
  subgoal by (auto split: if_splits sum.splits exn.splits; erule kept_quiet; auto simp: row_changes Let_def split: session_splits)
  subgoal by (erule kept_quiet) (auto simp: row_changes Let_def split: session_splits)
  subgoal by (erule kept_quiet) (auto simp: row_changes Let_def split: session_splits)
  subgoal by (auto split: if_splits; erule kept_quiet; auto simp: row_changes Let_def split: session_splits)
  subgoal by (erule kept_quiet) (auto simp: row_changes)
  done

lemma kept_cart_op: "kept s (run_cart_op c s)"
proof (cases "cart_op_result c s")
  case (Inr q)
  obtain s1 where q: "q = ((), s1)" by (cases q) auto
  have add: "kept s s1" if "add_to_cart_once u n p k s = Inr (x, s1)" for u n p k x
    using that unfolding add_to_cart_once_def
    by (rule kept_quiet) (auto simp: add_to_cart_body_def row_changes split: session_splits)
  have "kept s s1"
    using Inr [unfolded q cart_op_result_def]
  proof (cases c)
    case (AddToCart u n p k)
    then show ?thesis using Inr q add
      by (auto simp: cart_op_result_def add_to_cart_def tx_bind_eq_Inr split: if_splits sum.splits exn.splits)
  next
    case (SetQuantity k u d)
    then have "\<exists>x. set_cart_item_quantity k u d s = Inr (x, s1)" using Inr q by (auto simp: cart_op_result_def tx_bind_eq_Inr)
    then show ?thesis unfolding set_cart_item_quantity_def
      by (elim exE, elim kept_quiet) (auto simp: row_changes Let_def split: session_splits)
  next
    case (ClearPromo k u)
    then have "\<exists>x. clear_cart_item_promo k u s = Inr (x, s1)" using Inr q by (auto simp: cart_op_result_def tx_bind_eq_Inr)
    then show ?thesis unfolding clear_cart_item_promo_def by (elim exE, elim kept_quiet) (auto simp: row_changes Let_def)
  next
    case (RemoveLine k u)
    then have "\<exists>x. remove_from_cart k (Some u) s = Inr (x, s1)" using Inr q by (auto simp: cart_op_result_def tx_bind_eq_Inr)
    then show ?thesis unfolding remove_from_cart_def by (elim exE, elim kept_quiet) (auto simp: row_changes Let_def)
  next
    case (ClearCart u)
    then have "\<exists>x. clear_cart u s = Inr (x, s1)" using Inr q by (auto simp: cart_op_result_def tx_bind_eq_Inr)
    then show ?thesis unfolding clear_cart_def by (elim exE, elim kept_quiet) (auto simp: row_changes)
  qed
  then show ?thesis by (simp add: run_cart_op_def Inr q)
qed (simp add: run_cart_op_def)

lemma kept_replace:
  "kept s (snd (replace_item_stock_and_meta n n' d p c vs b s))"
proof -
  obtain all dup bad where nv: "normalize_values vs = (all, dup, bad)" by (metis surj_pair)
  show ?thesis
  proof (cases "run_session (replace_body n n' d p c all b) s")
    case (Inl err)
    then show ?thesis using nv by (cases err) (auto simp: replace_item_stock_and_meta_def intro: kept_rules)
  next
    case (Inr q)
    obtain a o' s1 where q: "q = ((a, o'), s1)" by (metis surj_pair)
    have "kept s s1"
      using Inr [unfolded q]
    proof (rule kept_quiet)
      assume "replace_body n n' d p c all b s = Inr ((a, o'), s1)"
      then obtain P k ws g where "s1 = put_goods g (fold (add_value_row k b) ws (s\<lparr>t_item_values := filter P (t_item_values s)\<rparr>)) \<or>
          s1 = rename_bought n n' (put_goods g (fold (add_value_row k b) ws (s\<lparr>t_item_values := filter P (t_item_values s)\<rparr>)))"
        by (auto simp: replace_body_def Let_def tx_bind_eq_Inr split: option.splits if_splits)
      moreover have "quiet s (put_goods g (fold (add_value_row k b) ws (s\<lparr>t_item_values := filter P (t_item_values s)\<rparr>)))"
        using quiet_values [of "s\<lparr>t_item_values := filter P (t_item_values s)\<rparr>" k b ws] by (simp add: quiet_def put_goods_def)
      ultimately show "quiet s s1" by (auto intro: quiet_trans [OF _ quiet_rename])
    qed
    then show ?thesis using nv Inr q
      by (auto simp: replace_item_stock_and_meta_def Let_def intro!: kept_rules kept_fold_tasks)
  qed
qed

lemma kept_roles:
  "create_role n p s = Inr (a, s') \<Longrightarrow> kept s s'"
  "update_role k n p s = Inr (b, s') \<Longrightarrow> kept s s'"
  "delete_role k s = Inr (c, s') \<Longrightarrow> kept s s'"
  unfolding create_role_def update_role_def delete_role_def
  subgoal by (erule kept_quiet) (auto simp: row_changes split: if_splits)
  subgoal by (erule kept_quiet) (auto simp: row_changes put_role_def split: option.splits if_splits)
  subgoal by (erule kept_quiet) (auto simp: row_changes split: option.splits if_splits)
  done

lemma guarded_result: "(if P then Inr (a, s1) else Inl err) = Inr (r, s') \<Longrightarrow> s' = s1"
  by (simp split: if_splits)

lemma kept_insert_roles: "insert_roles s = Inr (r, s') \<Longrightarrow> kept s s'"
proof -
  have quiet_seed: "quiet s (fold (seed_role stored) bs s)" for stored bs s
    by (rule quiet_fold) (auto simp: seed_role_def Let_def row_changes put_role_def split: option.split prod.split)
  assume "insert_roles s = Inr (r, s')"
  then show ?thesis unfolding insert_roles_def
  proof (rule kept_quiet)
    let ?s1 = "case find_by r_name ''OWNER'' (t_roles s) of None \<Rightarrow> s
                 | Some legacy \<Rightarrow> put_role (legacy\<lparr>r_name := ''SUPERADMIN''\<rparr>) s"
    let ?s2 = "fold (seed_role (t_roles s)) builtin_roles ?s1"
    assume "(let stored = t_roles s;
           s1 = (case find_by r_name ''OWNER'' stored of None \<Rightarrow> s
                 | Some legacy \<Rightarrow> put_role (legacy\<lparr>r_name := ''SUPERADMIN''\<rparr>) s);
           s2 = fold (seed_role stored) builtin_roles s1
       in if distinct (map r_name (t_roles s2)) then Inr ((), s2) else Inl (IntegrityError ''roles_name_key'')) = Inr (r, s')"
    then have "s' = ?s2"
      unfolding Let_def by (rule guarded_result)
    moreover have "quiet s ?s1"
      by (simp add: quiet_def put_role_def split: option.split)
    ultimately show "quiet s s'" using quiet_trans [OF _ quiet_seed] by (simp only:)
  qed
qed

lemma kept_pending: "create_pending_payment e p k u a c i s = Inr (r, s') \<Longrightarrow> kept s s'"
  unfolding create_pending_payment_def by (erule kept_quiet) (auto simp: row_changes split: if_splits)

lemma kept_answer:
  "support_answer body ok refused s = Inr q \<Longrightarrow> (\<And>r s1. body s = Inr (r, s1) \<Longrightarrow> quiet s s1) \<Longrightarrow>
     (\<exists>c. q = refused c) \<or> (\<exists>a s1. q = ok a s1 \<and> kept s s1)"
  unfolding support_answer_Inr
  by (elim disjE exE conjE, blast, rule disjI2, intro exI conjI, assumption, erule kept_quiet) simp

lemma quiet_support:
  "create_ticket e u w r s = Inr (a, s1) \<Longrightarrow> quiet s s1"
  "add_user_message e k u w s = Inr (b, s1) \<Longrightarrow> quiet s s1"
  "close_ticket_by_user e k u s = Inr (c, s1) \<Longrightarrow> quiet s s1"
  "link_order_to_ticket e k u i s = Inr (c, s1) \<Longrightarrow> quiet s s1"
  "staff_reply e k u w s = Inr (b, s1) \<Longrightarrow> quiet s s1"
  "set_ticket_status_staff e k st s = Inr (c, s1) \<Longrightarrow> quiet s s1"
  unfolding create_ticket_def add_user_message_def close_ticket_by_user_def link_order_to_ticket_def staff_reply_def
    set_ticket_status_staff_def
  subgoal by (auto simp: row_changes Let_def add_message_def tx_bind_eq_Inr split: if_splits option.splits)
  subgoal by (auto simp: row_changes Let_def add_message_def put_ticket_def tx_bind_eq_Inr split: option.splits if_splits)
  subgoal by (auto simp: quiet_def Let_def put_ticket_def split: option.splits)
  subgoal by (auto simp: quiet_def Let_def put_ticket_def split: option.splits if_splits)
  subgoal by (auto simp: row_changes Let_def add_message_def put_ticket_def tx_bind_eq_Inr split: option.splits if_splits)
  subgoal by (auto simp: quiet_def Let_def put_ticket_def split: option.splits)
  done

subsection \<open>Runs of the whole shop\<close>

text \<open>
  One committed (or refused) operation of any component.  The environment of a step, that is the clock,
  the provider's replies, the configured percentages, and the inputs of its handler are arbitrary.
\<close>

inductive shop_step :: "shop \<Rightarrow> shop \<Rightarrow> bool" where
  bought: "buy_item_transaction e uid name code gift s = (r, s') \<Longrightarrow> shop_step s s'"
| checked_out: "checkout_cart_transaction e uid expect s = (rc, s') \<Longrightarrow> shop_step s s'"
| topped_up: "process_payment_topup e uid amt prov ext s = (rt, s') \<Longrightarrow> shop_step s s'"
| telegram_paid: "process_payment_with_referral e uid amt prov ext s = (rt, s') \<Longrightarrow> shop_step s s'"
| requested: "create_pending_payment e prov ext uid amt cur iu s = Inr (ru, s') \<Longrightarrow> shop_step s s'"
| webhook: "platega_webhook e wb wm wh s = Inr (rw, s') \<Longrightarrow> shop_step s s'"
| recovered: "recover_pending_payments e (cb, s) = (cb', s') \<Longrightarrow> shop_step s s'"
| cleaned: "shop_step s (cleanup_payments e days s)"
| refunded: "run_session (manual_refund_order e oid uid) s = Inr (rm, s') \<Longrightarrow> shop_step s s'"
| cancelled: "run_session (user_cancel_order e oid uid) s = Inr (rx, s') \<Longrightarrow> shop_step s s'"
| worked: "worker_tick deliver e s = (rk, s') \<Longrightarrow> shop_step s s'"
| fulfilled: "fulfill_processing_order_by_id e oid s = Inr (rf, s') \<Longrightarrow> shop_step s s'"
| redeemed: "redeem_balance_promo e pcode uid s = (rd, s') \<Longrightarrow> shop_step s s'"
| corrected: "admin_balance_change e uid amt s = (ra, s') \<Longrightarrow> shop_step s s'"
| registered: "create_user uid date ref role s = Inr (ru, s') \<Longrightarrow> shop_step s s'"
| blocked: "set_user_blocked uid b s = Inr (rb, s') \<Longrightarrow> shop_step s s'"
| role_assigned: "set_role uid rid s = Inr (ru, s') \<Longrightarrow> shop_step s s'"
| role_created: "create_role name perms s = Inr (ri, s') \<Longrightarrow> shop_step s s'"
| role_updated: "update_role rid name perms s = Inr (rr, s') \<Longrightarrow> shop_step s s'"
| role_deleted: "delete_role rid s = Inr (rr, s') \<Longrightarrow> shop_step s s'"
| seeded: "insert_roles s = Inr (ru, s') \<Longrightarrow> shop_step s s'"
| cart: "shop_step s (run_cart_op c s)"
| stocked: "add_values_bulk name vs b s = Inr (rv, s') \<Longrightarrow> shop_step s s'"
| stocked_one: "add_values_to_item name v b s = Inr (rb, s') \<Longrightarrow> shop_step s s'"
| restocked: "replace_item_stock_and_meta name name' d price cat vs b s = (rp, s') \<Longrightarrow> shop_step s s'"
| item_created: "create_item name d price cat ft gifts s = Inr (ru, s') \<Longrightarrow> shop_step s s'"
| item_updated: "update_item name name' d price cat s = Inr (rr, s') \<Longrightarrow> shop_step s s'"
| item_on_sale: "set_item_sale name pct till s = Inr (rb, s') \<Longrightarrow> shop_step s s'"
| item_deleted: "delete_item name s = Inr (ru, s') \<Longrightarrow> shop_step s s'"
| category_created: "create_category cat s = Inr (ru, s') \<Longrightarrow> shop_step s s'"
| category_renamed: "update_category cat cat' s = Inr (ru, s') \<Longrightarrow> shop_step s s'"
| category_deleted: "delete_category cat s = Inr (ru, s') \<Longrightarrow> shop_step s s'"
| promo_created: "create_promo_code pcode dt dv maxu till pcat item mo mu s = Inr (ri, s') \<Longrightarrow> shop_step s s'"
| promo_toggled: "toggle_promo_code pid s = Inr (ro, s') \<Longrightarrow> shop_step s s'"
| promo_deleted: "delete_promo_code pid s = Inr (rb, s') \<Longrightarrow> shop_step s s'"
| subscribed: "subscribe_to_stock uid name s = Inr (ra, s') \<Longrightarrow> shop_step s s'"
| unsubscribed: "unsubscribe_from_stock uid name s = Inr (rb, s') \<Longrightarrow> shop_step s s'"
| subscribers_told: "pop_stock_subscribers name s = Inr (rl, s') \<Longrightarrow> shop_step s s'"
| reviewed: "create_review uid name stars words s = Inr (ri, s') \<Longrightarrow> shop_step s s'"
| review_deleted: "delete_review rid s = Inr (rb, s') \<Longrightarrow> shop_step s s'"
| ticket: "support_step reopen e s s' \<Longrightarrow> shop_step s s'"

inductive shop_reach :: "shop \<Rightarrow> shop \<Rightarrow> bool" where
  opened: "shop_reach s s"
| next_step: "shop_reach s s' \<Longrightarrow> shop_step s' s'' \<Longrightarrow> shop_reach s s''"

text \<open>Each support event is a session that only touches tickets and messages.\<close>

lemma kept_support_user:
  "support_new_body e u w s = Inr (a, s') \<Longrightarrow> kept s s'"
  "support_reply_message e u tid w s = Inr (b, s') \<Longrightarrow> kept s s'"
  "support_close e u cb s = Inr (a, s') \<Longrightarrow> kept s s'"
  "support_link_order e u tid digits s = Inr (b, s') \<Longrightarrow> kept s s'"
  unfolding support_new_body_def support_reply_message_def support_close_def support_link_order_def
  subgoal by (drule kept_answer, erule quiet_support(1)) auto
  subgoal by (split if_split_asm, simp, drule kept_answer, erule quiet_support(2)) auto
  subgoal by (split option.split_asm, simp, drule kept_answer, erule quiet_support(3)) auto
  subgoal
    by (split if_split_asm, simp, split if_split_asm, simp, unfold tx_bind_eq_Inr, elim exE conjE, drule kept_answer,
        erule quiet_support(4)) auto
  done

lemma kept_support_staff:
  "support_staff_reply_message e staff tid w s = Inr (a, n, s') \<Longrightarrow> kept s s'"
  "support_set_status e caller parts s = Inr (c, s') \<Longrightarrow> kept s s'"
  unfolding support_staff_reply_message_def support_set_status_def
  subgoal
    by (split if_split_asm, simp, drule kept_answer)
      (auto simp: tx_bind_eq_Inr intro: quiet_support(5) kept_audit split: option.splits)
  subgoal
    by (unfold tx_bind_eq_Inr, elim exE conjE, drule kept_answer, erule quiet_support(6)) (auto intro: kept_audit)
  done

lemma kept_support:
  assumes "support_step reopen e s s'"
  shows "kept s s'"
  using assms
  by (cases rule: support_step.cases)
    (auto dest: kept_support_user kept_support_staff
      simp: support_staff_reply_event_def support_status_event_def Let_def tx_bind_eq_Inr
      split: prod.splits if_splits option.splits)


lemma kept_step:
  assumes "shop_step s s'"
  shows "kept s s'"
  using assms
proof (cases rule: shop_step.cases)
  case (bought e uid name code gift r)
  then show ?thesis by (simp add: buy_item_transaction_def kept_buy_loop)
next
  case (checked_out e uid expect rc)
  then show ?thesis by (simp add: checkout_cart_transaction_def kept_checkout_loop)
next
  case (topped_up e uid amt prov ext rt)
  then show ?thesis by (simp add: process_payment_topup_def kept_topup)
next
  case (telegram_paid e uid amt prov ext rt)
  then show ?thesis by (simp add: process_payment_with_referral_def kept_topup)
next
  case (recovered e cb cb')
  then show ?thesis using kept_recover [of s e "stale_payments e s" cb] by (simp add: recover_pending_payments_def)
next
  case (cleaned e days)
  then show ?thesis by (simp add: cleanup_payments_def kept_payments)
next
  case (refunded e oid uid rm)
  then show ?thesis by (cases rm) (auto elim!: kept_session intro: moves_manual_refund)
next
  case (cancelled e oid uid rx)
  then show ?thesis by (rule kept_session) (rule moves_cancel)
next
  case (worked deliver e rk)
  then show ?thesis using kept_worker [of s deliver e] by simp
next
  case (restocked name name' d price cat vs b rp)
  then show ?thesis using kept_replace [of s name name' d price cat vs b] by simp
next
  case (cart c)
  then show ?thesis by (simp add: kept_cart_op)
qed (erule kept_pending kept_webhook kept_fulfill kept_redeem kept_correction kept_register kept_block kept_set_role
  kept_roles kept_insert_roles kept_bulk kept_add_value kept_create_item kept_update_item kept_sale kept_delete_item
  kept_categories kept_delete_category kept_promo_codes kept_reviews kept_support)+

lemma kept_reach: "shop_reach s s' \<Longrightarrow> kept s s'"
  by (induction rule: shop_reach.induct) (auto intro: kept_trans kept_step)

text \<open>C1: The books of the shop balance: whatever sequence of purchases, checkouts, top-ups, webhooks,
  recoveries, refunds, cancellations, worker passes, balance codes, operator corrections,
  registrations, role, cart, catalogue, promo, review and support operations runs, under any clock
  and any replies of the payment and fulfilment services, the balances of all users together are
  the opening difference plus the recorded operations and referral bonuses less the paid orders
  and cart sales, and no balance is negative.\<close>
theorem books_balance:
  assumes "shop_reach s0 s" "shop_wf s0"
  shows "total_balance s = unexplained s0 + recorded_income s - recorded_sales s \<and>
    list_all (\<lambda>u. 0 \<le> u_balance u) (t_users s)"
proof -
  have "shop_wf s" "unexplained s = unexplained s0" using kept_reach [OF assms(1)] assms(2) by (simp_all add: kept_def)
  then show ?thesis by (simp add: shop_wf_def unexplained_def check_violation_None list_all_iff user_check_def)
qed

text \<open>C2: The tables stay well-formed under the same operations: user ids, order ids and bonus ids are
  unique, every id is below the counter, the history of every order is a legal path to its status,
  every bonus has an existing referrer, and every CHECK constraint of the schema holds.\<close>
theorem tables_stay_typed:
  assumes "shop_reach s0 s" "shop_wf s0"
  shows "users_ok s \<and> orders_ok s \<and> earnings_ok s \<and> referrers_exist s \<and> check_violation s = None"
  using kept_reach [OF assms(1)] assms(2) by (simp add: kept_def shop_wf_def books_ok_def)

definition sample_run :: shop where
  "sample_run = snd (process_payment_topup sample_env 1 700 ''platega'' ''p1''
     (snd (buy_item_transaction sample_env 1 ''key'' (Some ''sale'') None sample_shop)))"

lemma sample_run_reached: "shop_reach sample_shop sample_run"
  unfolding sample_run_def
  by (rule shop_reach.next_step [OF shop_reach.next_step [OF shop_reach.opened bought] topped_up]) (rule prod.collapse [symmetric])+

lemma sample_wf: "shop_wf sample_shop"
proof -
  have "check_violation sample_shop = None" "distinct (map u_id (t_users sample_shop))" by code_simp+
  moreover have "t_orders sample_shop = []" "t_history sample_shop = []" "t_earnings sample_shop = []"
    by (simp_all add: sample_shop_def empty_shop_def)
  ultimately show ?thesis
    by (simp add: shop_wf_def books_ok_def users_ok_def orders_ok_def earnings_ok_def referrers_exist_def)
qed

theorem books_balance_witness: "total_balance sample_run = 5000 + 700 + 149 - 1499"
proof -
  have "unexplained sample_shop = 5000" "recorded_income sample_run = 849" "recorded_sales sample_run = 1499" by code_simp+
  then show ?thesis using books_balance [OF sample_run_reached sample_wf] by simp
qed

theorem tables_stay_typed_witness: "orders_ok sample_run \<and> t_orders sample_run \<noteq> []"
proof -
  have "t_orders sample_run \<noteq> []" by code_simp
  then show ?thesis using tables_stay_typed [OF sample_run_reached sample_wf] by simp
qed

end
