(* ===== verification/Rate_Limit.thy ===== *)
theory Rate_Limit
  imports Access
begin

text \<open>
  The rate limiter of \<open>middleware/rate_limit.py\<close>: the in-process \<open>RateLimiter\<close>, the classification of
  updates and the middleware.  Times are the values of \<open>time.time()\<close>, exact rationals; one check
  reads the clock once.  A \<open>defaultdict\<close> entry that is empty is the same as no entry.  The limiter
  that lives in Redis is modelled in \<open>Redis_Limit\<close>.
  The sliding windows are analysed once, for the list of time stamps of one user, and then used for
  the global limit and for every action limit.
\<close>

subsection \<open>Configuration and state\<close>

record rate_config =
  rc_global_limit :: nat
  rc_global_window :: rat
  rc_action_limits :: "string \<Rightarrow> (nat \<times> rat) option"
  rc_ban_duration :: rat
  rc_admin_bypass :: bool

definition default_rate_config :: rate_config where
  "default_rate_config = \<lparr>rc_global_limit = 30, rc_global_window = 60,
     rc_action_limits = map_of [(''payment'', (10, 60)), (''shop_view'', (60, 60)), (''buy_item'', (5, 60)),
       (''search'', (10, 60)), (''top_up'', (5, 300)), (''command'', (20, 60))],
     rc_ban_duration = 300, rc_admin_bypass = True\<rparr>"

record limiter =
  lm_user_requests :: "int \<Rightarrow> rat list"
  lm_user_actions :: "string \<Rightarrow> int \<Rightarrow> rat list"
  lm_banned_users :: "int \<Rightarrow> rat option"

definition new_limiter :: limiter where
  "new_limiter = \<lparr>lm_user_requests = (\<lambda>_. []), lm_user_actions = (\<lambda>_ _. []), lm_banned_users = (\<lambda>_. None)\<rparr>"

subsection \<open>Checks\<close>

definition clean_old_requests :: "rat \<Rightarrow> rat list \<Rightarrow> rat \<Rightarrow> rat list" where
  "clean_old_requests now requests window = filter (\<lambda>t. now - t < window) requests"

definition is_banned :: "rate_config \<Rightarrow> rat \<Rightarrow> int \<Rightarrow> limiter \<Rightarrow> bool \<times> limiter" where
  "is_banned cfg now user_id lm =
     (case lm_banned_users lm user_id of None \<Rightarrow> (False, lm)
      | Some ban_time \<Rightarrow>
          if rc_ban_duration cfg < now - ban_time
          then (False, lm\<lparr>lm_banned_users := (lm_banned_users lm)(user_id := None)\<rparr>) else (True, lm))"

definition ban_user :: "rat \<Rightarrow> int \<Rightarrow> limiter \<Rightarrow> limiter" where
  "ban_user now user_id lm = lm\<lparr>lm_banned_users := (lm_banned_users lm)(user_id \<mapsto> now)\<rparr>"

definition check_global_limit :: "rate_config \<Rightarrow> rat \<Rightarrow> int \<Rightarrow> limiter \<Rightarrow> bool \<times> limiter" where
  "check_global_limit cfg now user_id lm =
     (let kept = clean_old_requests now (lm_user_requests lm user_id) (rc_global_window cfg)
      in if rc_global_limit cfg \<le> length kept
         then (False, lm\<lparr>lm_user_requests := (lm_user_requests lm)(user_id := kept)\<rparr>)
         else (True, lm\<lparr>lm_user_requests := (lm_user_requests lm)(user_id := kept @ [now])\<rparr>))"

definition put_action :: "string \<Rightarrow> int \<Rightarrow> rat list \<Rightarrow> limiter \<Rightarrow> limiter" where
  "put_action action user_id ts lm =
     lm\<lparr>lm_user_actions := (lm_user_actions lm)(action := (lm_user_actions lm action)(user_id := ts))\<rparr>"

definition check_action_limit :: "rate_config \<Rightarrow> rat \<Rightarrow> int \<Rightarrow> string \<Rightarrow> limiter \<Rightarrow> bool \<times> limiter" where
  "check_action_limit cfg now user_id action lm =
     (case rc_action_limits cfg action of None \<Rightarrow> (True, lm)
      | Some (limit, window) \<Rightarrow>
         (let kept = clean_old_requests now (lm_user_actions lm action user_id) window
          in if limit \<le> length kept then (False, put_action action user_id kept lm)
             else (True, put_action action user_id (kept @ [now]) lm)))"

text \<open>\<open>int(x)\<close> of a float truncates towards zero; \<open>min\<close> of an empty list raises.\<close>

definition py_trunc :: "rat \<Rightarrow> int" where
  "py_trunc x = (if x < 0 then \<lceil>x\<rceil> else \<lfloor>x\<rfloor>)"

definition oldest :: "rat list \<Rightarrow> rat result" where
  "oldest ts = (if ts = [] then Inl (ValueError ''min'') else Inr (Min (set ts)))"

definition get_wait_time :: "rate_config \<Rightarrow> rat \<Rightarrow> int \<Rightarrow> string option \<Rightarrow> limiter \<Rightarrow> (int \<times> limiter) result" where
  "get_wait_time cfg now user_id action lm =
     (let (banned, lm1) = is_banned cfg now user_id lm
      in if banned
         then Inr (py_trunc (rc_ban_duration cfg - (now - the (lm_banned_users lm1 user_id))), lm1)
         else (let global_reqs = lm_user_requests lm1 user_id;
                   global = (if rc_global_limit cfg \<le> length global_reqs
                     then tx_bind (oldest global_reqs) (\<lambda>t. Inr (py_trunc (rc_global_window cfg - (now - t)), lm1))
                     else Inr (0, lm1))
               in case (case action of None \<Rightarrow> None | Some a \<Rightarrow>
                           if a = [] then None else map_option (\<lambda>l. (a, l)) (rc_action_limits cfg a)) of
                    None \<Rightarrow> global
                  | Some (a, limit, window) \<Rightarrow>
                      if limit \<le> length (lm_user_actions lm1 a user_id)
                      then tx_bind (oldest (lm_user_actions lm1 a user_id)) (\<lambda>t.
                             Inr (py_trunc (window - (now - t)), lm1))
                      else global))"

datatype rate_verdict = ALLOWED | BANNED | GLOBAL_EXCEEDED | ACTION_EXCEEDED

text \<open>\<open>RateLimiter.check\<close>: the verdict, the seconds to wait, and the limiter afterwards.\<close>

definition check_rate ::
    "rate_config \<Rightarrow> rat \<Rightarrow> int \<Rightarrow> string \<Rightarrow> bool \<Rightarrow> limiter \<Rightarrow> (rate_verdict \<times> rat \<times> limiter) result" where
  "check_rate cfg now user_id action bypass lm =
     (let (banned, lm1) = is_banned cfg now user_id lm
      in if banned
         then tx_bind (get_wait_time cfg now user_id None lm1) (\<lambda>(w, lm2). Inr (BANNED, of_int w, lm2))
         else if bypass then Inr (ALLOWED, 0, lm1)
         else (let (ok, lm2) = check_global_limit cfg now user_id lm1
               in if \<not> ok then Inr (GLOBAL_EXCEEDED, rc_ban_duration cfg, ban_user now user_id lm2)
                  else (let (ok2, lm3) = check_action_limit cfg now user_id action lm2
                        in if \<not> ok2
                           then tx_bind (get_wait_time cfg now user_id (Some action) lm3)
                                  (\<lambda>(w, lm4). Inr (ACTION_EXCEEDED, of_int w, lm4))
                           else Inr (ALLOWED, 0, lm3))))"

subsection \<open>Middleware\<close>

definition action_mapping :: "(string \<times> string) list" where
  "action_mapping =
     [(''replenish_balance'', ''top_up''), (''pay_'', ''payment''), (''cart_checkout_confirm'', ''buy_item''),
      (''add_to_cart'', ''buy_item''), (''buy_item'', ''buy_item''), (''shop_search'', ''search''),
      (''shop'', ''shop_view''), (''cat:'', ''shop_view''), (''itm:'', ''shop_view''), (''sitm:'', ''shop_view''),
      (''categories-page_'', ''shop_view''), (''gp_'', ''shop_view''), (''sp_'', ''shop_view''),
      (''bought-item:'', ''shop_view''), (''bought-goods-page_'', ''shop_view''),
      (''earning_detail:'', ''shop_view''), (''check'', ''shop_view'')]"

text \<open>\<open>searching\<close>: the dialogue of the sender waits for a search query.\<close>

definition get_action_from_event :: "update \<Rightarrow> bool \<Rightarrow> string" where
  "get_action_from_event ev searching =
     (let text = (case ev_data ev of None \<Rightarrow> [] | Some t \<Rightarrow> t)
      in if ev_is_callback ev
         then (case List.find (\<lambda>(p, a). starts_with p text) action_mapping of
                 Some (p, a) \<Rightarrow> a | None \<Rightarrow> ''default'')
         else if searching then ''search''
         else if starts_with ''/start'' text then ''shop_view''
         else if starts_with ''/'' text then ''command'' else ''default'')"

definition check_admin_bypass :: "rate_config \<Rightarrow> int \<Rightarrow> int \<Rightarrow> auth \<times> shop \<Rightarrow> bool \<times> auth" where
  "check_admin_bypass cfg now user_id as =
     (if \<not> rc_admin_bypass cfg then (False, fst as)
      else (let (role, au) = resolve_role_cached now (snd as) user_id (fst as)
            in (has_any_admin_perm role, au)))"

definition rate_message :: "rate_verdict \<Rightarrow> string option" where
  "rate_message v = (case v of ALLOWED \<Rightarrow> None | BANNED \<Rightarrow> Some ''middleware.ban''
     | GLOBAL_EXCEEDED \<Rightarrow> Some ''middleware.above_limits'' | ACTION_EXCEEDED \<Rightarrow> Some ''middleware.waiting'')"

text \<open>\<open>RateLimitMiddleware.__call__\<close> with the in-process limiter; the auth clock counts whole seconds.\<close>

definition rate_limit_middleware ::
    "rate_config \<Rightarrow> rat \<Rightarrow> update \<Rightarrow> bool \<Rightarrow> limiter \<times> auth \<times> shop \<Rightarrow> (verdict \<times> limiter \<times> auth \<times> shop) result" where
  "rate_limit_middleware cfg now ev searching st =
     (let (lm, as) = st
      in case ev_user ev of None \<Rightarrow> Inr (HandOn, st)
         | Some user_id \<Rightarrow>
             (let (bypass, au) = check_admin_bypass cfg \<lfloor>now\<rfloor> user_id as
              in tx_bind (check_rate cfg now user_id (get_action_from_event ev searching) bypass lm)
                   (\<lambda>(v, _, lm1). Inr (case rate_message v of None \<Rightarrow> HandOn | Some m \<Rightarrow> Refuse (Some m),
                      lm1, au, snd as))))"

subsection \<open>Sliding windows\<close>

text \<open>How many of the time stamps lie in the window that ends at \<open>t\<close>.\<close>

definition in_window :: "rat \<Rightarrow> rat \<Rightarrow> rat list \<Rightarrow> nat" where
  "in_window w t ts = length (filter (\<lambda>x. t - w < x \<and> x \<le> t) ts)"

text \<open>
  The admitted requests \<open>A\<close> respect the limit in every window, and whatever of them can still matter
  is among the stored time stamps.
\<close>

definition window_inv :: "nat \<Rightarrow> rat \<Rightarrow> rat \<Rightarrow> rat list \<Rightarrow> rat list \<Rightarrow> bool" where
  "window_inv limit w latest A stored \<longleftrightarrow>
     (\<forall>t. in_window w t A \<le> limit) \<and>
     (\<forall>now \<ge> latest. length (clean_old_requests now A w) \<le> length (clean_old_requests now stored w))"

lemma clean_clean: "now \<le> n \<Longrightarrow> clean_old_requests n (clean_old_requests now ts w) w = clean_old_requests n ts w"
  by (auto simp: clean_old_requests_def intro: filter_cong)

lemma clean_append [simp]: "clean_old_requests n (xs @ ys) w = clean_old_requests n xs w @ clean_old_requests n ys w"
  by (simp add: clean_old_requests_def)

lemma in_window_append: "in_window w t (xs @ ys) = in_window w t xs + in_window w t ys"
  by (simp add: in_window_def)

lemma in_window_le_clean: "now \<le> t \<Longrightarrow> in_window w t ts \<le> length (clean_old_requests now ts w)"
  unfolding in_window_def clean_old_requests_def by (induction ts) auto

lemma window_inv_empty: "window_inv limit w latest [] []"
  by (simp add: window_inv_def in_window_def)

lemma window_inv_later: "window_inv limit w latest A st \<Longrightarrow> latest \<le> now \<Longrightarrow> window_inv limit w now A st"
  by (auto simp: window_inv_def)

lemma window_inv_clean:
  "window_inv limit w latest A st \<Longrightarrow> latest \<le> now \<Longrightarrow> window_inv limit w now A (clean_old_requests now st w)"
  by (auto simp: window_inv_def clean_clean)

lemma window_inv_extra: "window_inv limit w now A st \<Longrightarrow> window_inv limit w now A (st @ [now])"
  by (force simp: window_inv_def)

lemma window_inv_admit:
  assumes "window_inv limit w latest A st" "latest \<le> now" "length (clean_old_requests now st w) < limit"
  shows "window_inv limit w now (A @ [now]) (clean_old_requests now st w @ [now])"
  unfolding window_inv_def
proof (intro conjI allI impI)
  fix t
  show "in_window w t (A @ [now]) \<le> limit"
  proof (cases "now \<le> t")
    case True
    have "in_window w t A \<le> length (clean_old_requests now A w)"
      using True by (rule in_window_le_clean)
    also have "\<dots> \<le> length (clean_old_requests now st w)"
      using assms(1,2) by (simp add: window_inv_def)
    also have "\<dots> < limit" by (rule assms(3))
    finally show ?thesis by (simp add: in_window_append) (simp add: in_window_def)
  next
    case False
    then have "in_window w t [now] = 0" by (simp add: in_window_def)
    then show ?thesis using assms(1) by (simp add: in_window_append window_inv_def)
  qed
next
  fix n
  assume "now \<le> n"
  then show "length (clean_old_requests n (A @ [now]) w) \<le> length (clean_old_requests n (clean_old_requests now st w @ [now]) w)"
    using assms(1,2) by (auto simp: window_inv_def clean_clean)
qed

subsection \<open>The limits hold\<close>

text \<open>A request: its time, the user, the action, and whether the admin bypass applies.\<close>

record rate_request =
  rq_time :: rat
  rq_user :: int
  rq_action :: string
  rq_bypass :: bool

type_synonym rate_log = "(rate_request \<times> rate_verdict) list"

definition rate_step :: "rate_config \<Rightarrow> rate_request \<Rightarrow> rate_log \<times> limiter \<Rightarrow> (rate_log \<times> limiter) result" where
  "rate_step cfg r st =
     tx_bind (check_rate cfg (rq_time r) (rq_user r) (rq_action r) (rq_bypass r) (snd st))
       (\<lambda>(v, _, lm). Inr (fst st @ [(r, v)], lm))"

text \<open>The times of the admitted requests of a user, of one action or of all.\<close>

definition admitted :: "int \<Rightarrow> string option \<Rightarrow> rate_log \<Rightarrow> rat list" where
  "admitted u a lg = map (\<lambda>(r, v). rq_time r)
     (filter (\<lambda>(r, v). v = ALLOWED \<and> \<not> rq_bypass r \<and> rq_user r = u \<and> (a = None \<or> a = Some (rq_action r))) lg)"

definition positive_limits :: "rate_config \<Rightarrow> bool" where
  "positive_limits cfg \<longleftrightarrow> 0 < rc_global_limit cfg \<and>
     (\<forall>a limit w. rc_action_limits cfg a = Some (limit, w) \<longrightarrow> 0 < limit)"

definition limiter_inv :: "rate_config \<Rightarrow> rat \<Rightarrow> rate_log \<times> limiter \<Rightarrow> bool" where
  "limiter_inv cfg latest st \<longleftrightarrow>
     (\<forall>u. window_inv (rc_global_limit cfg) (rc_global_window cfg) latest (admitted u None (fst st))
            (lm_user_requests (snd st) u)) \<and>
     (\<forall>a limit w u. rc_action_limits cfg a = Some (limit, w) \<longrightarrow>
        window_inv limit w latest (admitted u (Some a) (fst st)) (lm_user_actions (snd st) a u))"

lemma oldest_Inr: "0 < n \<Longrightarrow> n \<le> length ts \<Longrightarrow> oldest ts = Inr (Min (set ts))"
  by (auto simp: oldest_def)

lemma get_wait_time_Inr:
  assumes "positive_limits cfg"
  shows "\<exists>w. get_wait_time cfg now u a lm = Inr (w, snd (is_banned cfg now u lm))"
proof -
  obtain b lm1 where b: "is_banned cfg now u lm = (b, lm1)" by fastforce
  have g: "0 < rc_global_limit cfg" using assms by (simp add: positive_limits_def)
  have p: "0 < limit" if "rc_action_limits cfg c = Some (limit, w)" for c limit w
    using assms that by (auto simp: positive_limits_def)
  show ?thesis
  proof (cases "b \<or> a = None \<or> a = Some [] \<or> rc_action_limits cfg (the a) = None")
    case True
    then show ?thesis using b g oldest_Inr [of "rc_global_limit cfg" "lm_user_requests lm1 u"]
      by (cases a) (auto simp: get_wait_time_def Let_def tx_bind_def)
  next
    case False
    then obtain c limit w where c: "a = Some c" "c \<noteq> []" "rc_action_limits cfg c = Some (limit, w)" "\<not> b"
      by (cases a; cases "rc_action_limits cfg (the a)") auto
    then show ?thesis using b g p [OF c(3)] oldest_Inr [of "rc_global_limit cfg" "lm_user_requests lm1 u"]
        oldest_Inr [of limit "lm_user_actions lm1 c u"]
      by (auto simp: get_wait_time_def Let_def tx_bind_def)
  qed
qed

lemma check_rate_cases:
  assumes "positive_limits cfg"
  obtains (banned) w lm' where "check_rate cfg now u a byp lm = Inr (BANNED, w, lm')" "lm' = snd (is_banned cfg now u lm)"
  | (bypassed) w lm' where "byp" "check_rate cfg now u a byp lm = Inr (ALLOWED, w, lm')"
      "lm' = snd (is_banned cfg now u lm)"
  | (global) w lm' where "check_rate cfg now u a byp lm = Inr (GLOBAL_EXCEEDED, w, lm')"
      "lm_user_requests lm' = (lm_user_requests lm)
         (u := clean_old_requests now (lm_user_requests lm u) (rc_global_window cfg))"
      "lm_user_actions lm' = lm_user_actions lm" "lm_banned_users lm' u = Some now"
  | (action) w lm' limit win where "check_rate cfg now u a byp lm = Inr (ACTION_EXCEEDED, w, lm')"
      "lm_user_requests lm' = (lm_user_requests lm)
         (u := clean_old_requests now (lm_user_requests lm u) (rc_global_window cfg) @ [now])"
      "rc_action_limits cfg a = Some (limit, win)"
      "lm_user_actions lm' = (lm_user_actions lm)(a := (lm_user_actions lm a)
         (u := clean_old_requests now (lm_user_actions lm a u) win))"
  | (allowed) w lm' where "\<not> byp" "check_rate cfg now u a byp lm = Inr (ALLOWED, w, lm')"
      "length (clean_old_requests now (lm_user_requests lm u) (rc_global_window cfg)) < rc_global_limit cfg"
      "lm_user_requests lm' = (lm_user_requests lm)
         (u := clean_old_requests now (lm_user_requests lm u) (rc_global_window cfg) @ [now])"
      "(rc_action_limits cfg a = None \<and> lm_user_actions lm' = lm_user_actions lm) \<or>
       (\<exists>limit win. rc_action_limits cfg a = Some (limit, win) \<and>
          length (clean_old_requests now (lm_user_actions lm a u) win) < limit \<and>
          lm_user_actions lm' = (lm_user_actions lm)(a := (lm_user_actions lm a)
            (u := clean_old_requests now (lm_user_actions lm a u) win @ [now])))"
proof -
  obtain b lm1 where b: "is_banned cfg now u lm = (b, lm1)" by fastforce
  have eq: "lm_user_requests lm1 = lm_user_requests lm" "lm_user_actions lm1 = lm_user_actions lm"
    using b by (auto simp: is_banned_def split: option.splits if_splits)
  have again: "snd (is_banned cfg now u lm1) = lm1" if b
    using b that by (auto simp: is_banned_def split: option.splits if_splits)
  show thesis
  proof (cases "b \<or> byp")
    case True
    then show thesis
      using b again get_wait_time_Inr [OF assms, of now u None lm1] banned bypassed
      by (cases b) (auto simp: check_rate_def tx_bind_def)
  next
    case False
    note F = False
    obtain ok lm2 where ok: "check_global_limit cfg now u lm1 = (ok, lm2)" by fastforce
    show thesis
    proof (cases ok)
      case False
      then show thesis using b F ok eq global [of "rc_ban_duration cfg" "ban_user now u lm2"]
        by (auto simp: check_rate_def check_global_limit_def ban_user_def Let_def split: if_splits)
    next
      case True
      obtain ok2 lm3 where ok2: "check_action_limit cfg now u a lm2 = (ok2, lm3)" by fastforce
      have l2: "lm_user_requests lm2 = (lm_user_requests lm)
            (u := clean_old_requests now (lm_user_requests lm u) (rc_global_window cfg) @ [now])"
          "lm_user_actions lm2 = lm_user_actions lm"
          "length (clean_old_requests now (lm_user_requests lm u) (rc_global_window cfg)) < rc_global_limit cfg"
        using ok True eq by (auto simp: check_global_limit_def Let_def split: if_splits)
      show thesis
      proof (cases ok2)
        case False
        obtain w where w: "get_wait_time cfg now u (Some a) lm3 = Inr (w, snd (is_banned cfg now u lm3))"
          using get_wait_time_Inr [OF assms] by blast
        have "lm_user_requests (snd (is_banned cfg now u lm3)) = lm_user_requests lm3"
          "lm_user_actions (snd (is_banned cfg now u lm3)) = lm_user_actions lm3"
          by (auto simp: is_banned_def split: option.splits)
        then show thesis using False True ok2 ok b F l2 w action [of "of_int w" "snd (is_banned cfg now u lm3)"]
          by (auto simp: check_rate_def check_action_limit_def put_action_def Let_def tx_bind_def
              split: option.splits if_splits)
      next
        case True
        then show thesis using \<open>ok\<close> ok2 ok b F l2 allowed [of 0 lm3]
          by (auto simp: check_rate_def check_action_limit_def put_action_def Let_def
              split: option.splits if_splits)
      qed
    qed
  qed
qed

lemma admitted_snoc:
  "admitted u a (lg @ [(r, v)]) = admitted u a lg @
     (if v = ALLOWED \<and> \<not> rq_bypass r \<and> rq_user r = u \<and> (a = None \<or> a = Some (rq_action r)) then [rq_time r] else [])"
  by (auto simp: admitted_def)

lemma is_banned_windows:
  "lm_user_requests (snd (is_banned cfg now u lm)) = lm_user_requests lm"
  "lm_user_actions (snd (is_banned cfg now u lm)) = lm_user_actions lm"
  by (auto simp: is_banned_def split: option.splits)

lemma limiter_inv_empty: "limiter_inv cfg latest ([], new_limiter)"
  by (simp add: limiter_inv_def new_limiter_def admitted_def window_inv_empty)

text \<open>One request keeps every window within its limit, whatever the verdict.\<close>

lemma rate_step_inv:
  assumes pos: "positive_limits cfg" and inv: "limiter_inv cfg latest (lg, lm)" and le: "latest \<le> rq_time r"
  obtains lg' lm' where "rate_step cfg r (lg, lm) = Inr (lg', lm')" "limiter_inv cfg (rq_time r) (lg', lm')"
proof -
  define now where "now = rq_time r"
  define u where "u = rq_user r"
  define act where "act = rq_action r"
  have g: "window_inv (rc_global_limit cfg) (rc_global_window cfg) latest (admitted x None lg) (lm_user_requests lm x)"
    and a: "rc_action_limits cfg b = Some (limit, w) \<Longrightarrow>
      window_inv limit w latest (admitted x (Some b) lg) (lm_user_actions lm b x)" for x b limit w
    using inv by (auto simp: limiter_inv_def)
  have g': "window_inv (rc_global_limit cfg) (rc_global_window cfg) now (admitted x None lg) (lm_user_requests lm x)"
    and a': "rc_action_limits cfg b = Some (limit, w) \<Longrightarrow>
      window_inv limit w now (admitted x (Some b) lg) (lm_user_actions lm b x)" for x b limit w
    using g a le window_inv_later unfolding now_def by blast+
  show thesis
    using pos
  proof (cases rule: check_rate_cases [where now = now and u = u and a = act and byp = "rq_bypass r" and lm = lm])
    case (banned w lm')
    then show thesis using g' a' by (intro that [of "lg @ [(r, BANNED)]" lm'])
        (auto simp: rate_step_def limiter_inv_def admitted_snoc is_banned_windows now_def u_def act_def)
  next
    case (bypassed w lm')
    then show thesis using g' a' by (intro that [of "lg @ [(r, ALLOWED)]" lm'])
        (auto simp: rate_step_def limiter_inv_def admitted_snoc is_banned_windows now_def u_def act_def)
  next
    case (global w lm')
    then show thesis using g' a' window_inv_clean [OF g]  le by (intro that [of "lg @ [(r, GLOBAL_EXCEEDED)]" lm'])
        (auto simp: rate_step_def limiter_inv_def admitted_snoc now_def u_def act_def)
  next
    case (action w lm' limit win)
    then show thesis using g' a' window_inv_extra [OF window_inv_clean [OF g]] window_inv_clean [OF a] le
      by (intro that [of "lg @ [(r, ACTION_EXCEEDED)]" lm'])
        (auto simp: rate_step_def limiter_inv_def admitted_snoc now_def u_def act_def)
  next
    case (allowed w lm')
    then show thesis using g' a' window_inv_admit [OF g] window_inv_admit [OF a] le
      by (intro that [of "lg @ [(r, ALLOWED)]" lm'])
        (auto simp: rate_step_def limiter_inv_def admitted_snoc now_def u_def act_def)
  qed
qed

lemma rate_steps_inv:
  assumes "positive_limits cfg" "limiter_inv cfg latest st" "sorted (map rq_time reqs)"
    "reqs \<noteq> [] \<Longrightarrow> latest \<le> rq_time (hd reqs)"
  shows "\<exists>st' l. fold_tx (rate_step cfg) reqs st = Inr st' \<and> limiter_inv cfg l st'"
  using assms
proof (induction reqs arbitrary: latest st)
  case Nil
  then show ?case by auto
next
  case (Cons r reqs)
  obtain lg' lm' where s: "rate_step cfg r st = Inr (lg', lm')" "limiter_inv cfg (rq_time r) (lg', lm')"
    using rate_step_inv [OF Cons.prems(1), of latest "fst st" "snd st" r] Cons.prems by auto
  have "reqs \<noteq> [] \<Longrightarrow> rq_time r \<le> rq_time (hd reqs)" using Cons.prems(3) by (cases reqs) auto
  then show ?case using Cons.IH [OF Cons.prems(1) s(2)] Cons.prems(3) s(1) by (simp add: tx_bind_def)
qed

text \<open>Whatever requests come, no window holds more admitted ones than its limit.\<close>

theorem rate_limits_hold:
  assumes "positive_limits cfg" "sorted (map rq_time reqs)"
  shows "\<exists>lg lm. fold_tx (rate_step cfg) reqs ([], new_limiter) = Inr (lg, lm) \<and>
    (\<forall>u t. in_window (rc_global_window cfg) t (admitted u None lg) \<le> rc_global_limit cfg) \<and>
    (\<forall>u t a. case rc_action_limits cfg a of None \<Rightarrow> True
       | Some (limit, w) \<Rightarrow> in_window w t (admitted u (Some a) lg) \<le> limit)"
proof -
  obtain lg lm l where run: "fold_tx (rate_step cfg) reqs ([], new_limiter) = Inr (lg, lm)"
    and inv: "limiter_inv cfg l (lg, lm)"
    using rate_steps_inv [OF assms(1) limiter_inv_empty assms(2), of "rq_time (hd reqs)"] by auto
  show ?thesis using run inv
    by (auto simp: limiter_inv_def window_inv_def split: option.split)
qed

subsection \<open>Bans\<close>

text \<open>
  A user who overruns the global limit at \<open>t0\<close> is refused at every check up to \<open>ban_duration\<close> later,
  an admin too, and every refusal names the seconds that are left.
\<close>

lemma py_trunc_nonneg: "0 \<le> x \<Longrightarrow> 0 \<le> py_trunc x \<and> of_int (py_trunc x) \<le> x"
  by (simp add: py_trunc_def)

lemma check_rate_banned:
  assumes "lm_banned_users lm u = Some t0" "now - t0 \<le> rc_ban_duration cfg"
  shows "check_rate cfg now u a byp lm = Inr (BANNED, of_int (py_trunc (rc_ban_duration cfg - (now - t0))), lm)"
  using assms by (auto simp: check_rate_def is_banned_def get_wait_time_def Let_def tx_bind_def)

lemma is_banned_other: "lm_banned_users lm u = Some t0 \<Longrightarrow> u' \<noteq> u \<Longrightarrow>
    lm_banned_users (snd (is_banned cfg now u' lm)) u = Some t0"
  by (auto simp: is_banned_def split: option.splits)

lemma check_global_banned: "lm_banned_users (snd (check_global_limit cfg now u lm)) = lm_banned_users lm"
  by (simp add: check_global_limit_def Let_def)

lemma check_action_banned: "lm_banned_users (snd (check_action_limit cfg now u a lm)) = lm_banned_users lm"
  by (simp add: check_action_limit_def put_action_def Let_def split: option.split)

lemma get_wait_time_keeps:
  "get_wait_time cfg now u a lm = Inr (w, lm') \<Longrightarrow> lm' = snd (is_banned cfg now u lm)"
  by (auto simp: get_wait_time_def Let_def tx_bind_def split: option.splits if_splits sum.splits prod.splits)

lemma check_rate_keeps_ban:
  assumes run: "check_rate cfg now u' a byp lm = Inr (v, w, lm')" and ban: "lm_banned_users lm u = Some t0" and ne: "u' \<noteq> u"
  shows "lm_banned_users lm' u = Some t0"
proof -
  obtain b lm1 where b: "is_banned cfg now u' lm = (b, lm1)" by fastforce
  obtain ok lm2 where ok: "check_global_limit cfg now u' lm1 = (ok, lm2)" by fastforce
  obtain ok2 lm3 where ok2: "check_action_limit cfg now u' a lm2 = (ok2, lm3)" by fastforce
  have 1: "lm_banned_users lm1 u = Some t0" using is_banned_other [OF ban ne, of cfg now] b by simp
  then have 2: "lm_banned_users lm2 u = Some t0" using check_global_banned [of cfg now u' lm1] ok by simp
  then have 3: "lm_banned_users lm3 u = Some t0" using check_action_banned [of cfg now u' a lm2] ok2 by simp
  consider "lm' = lm1" | "lm' = ban_user now u' lm2" | "lm' = lm3"
    | "lm' = snd (is_banned cfg now u' lm1)" | "lm' = snd (is_banned cfg now u' lm3)"
    using run b ok ok2
    by (auto simp: check_rate_def tx_bind_def dest!: get_wait_time_keeps split: if_splits sum.splits)
  then show ?thesis
    using 1 2 3 ne is_banned_other [OF 1 ne] is_banned_other [OF 3 ne] by cases (auto simp: ban_user_def)
qed

lemma rate_steps_banned:
  assumes "positive_limits cfg" "lm_banned_users (snd st) u = Some t0"
    "list_all (\<lambda>r. rq_time r - t0 \<le> rc_ban_duration cfg) reqs"
  shows "\<exists>lg lm. fold_tx (rate_step cfg) reqs st = Inr (fst st @ lg, lm) \<and> map fst lg = reqs \<and>
    list_all (\<lambda>(r, v). rq_user r \<noteq> u \<or> v = BANNED) lg"
  using assms
proof (induction reqs arbitrary: st)
  case Nil
  show ?case by (rule exI [of _ "[]"], rule exI [of _ "snd st"]) simp
next
  case (Cons r reqs)
  obtain v w lm' where c: "check_rate cfg (rq_time r) (rq_user r) (rq_action r) (rq_bypass r) (snd st) = Inr (v, w, lm')"
    using Cons.prems(1)
    by (cases rule: check_rate_cases [where now = "rq_time r" and u = "rq_user r" and a = "rq_action r"
            and byp = "rq_bypass r" and lm = "snd st"]) auto
  have v: "lm_banned_users lm' u = Some t0 \<and> (rq_user r \<noteq> u \<or> v = BANNED)"
  proof (cases "rq_user r = u")
    case True
    then show ?thesis using c check_rate_banned [OF Cons.prems(2), of "rq_time r" cfg] Cons.prems(2,3) by simp
  qed (use check_rate_keeps_ban [OF c Cons.prems(2)] in auto)
  have s: "rate_step cfg r st = Inr (fst st @ [(r, v)], lm')" using c by (simp add: rate_step_def tx_bind_def)
  obtain lg lm where "fold_tx (rate_step cfg) reqs (fst st @ [(r, v)], lm') = Inr ((fst st @ [(r, v)]) @ lg, lm)"
    "map fst lg = reqs" "list_all (\<lambda>(r, v). rq_user r \<noteq> u \<or> v = BANNED) lg"
    using Cons.IH [of "(fst st @ [(r, v)], lm')"] Cons.prems v by auto
  then show ?case using s v by (intro exI [of _ "(r, v) # lg"] exI [of _ lm]) (simp add: tx_bind_def)
qed

theorem ban_holds:
  assumes "positive_limits cfg" "check_rate cfg t0 u a byp lm = Inr (GLOBAL_EXCEEDED, w, lm')"
    "list_all (\<lambda>r. rq_time r - t0 \<le> rc_ban_duration cfg) reqs"
  shows "\<exists>lg lm2. fold_tx (rate_step cfg) reqs ([], lm') = Inr (lg, lm2) \<and> map fst lg = reqs \<and>
    list_all (\<lambda>(r, v). rq_user r \<noteq> u \<or> v = BANNED) lg"
proof -
  have "lm_banned_users lm' u = Some t0"
    using assms(1) by (cases rule: check_rate_cases [where now = t0 and u = u and a = a and byp = byp and lm = lm])
      (use assms(2) in auto)
  then show ?thesis using rate_steps_banned [OF assms(1), of "([], lm')" u t0 reqs] assms(3) by simp
qed

subsection \<open>Concrete runs\<close>

definition sample_limits :: rate_config where
  "sample_limits = \<lparr>rc_global_limit = 2, rc_global_window = 10, rc_action_limits = (\<lambda>a. if a = ''top_up'' then Some (1, 20) else None),
     rc_ban_duration = 30, rc_admin_bypass = True\<rparr>"

definition sample_requests :: "rate_request list" where
  "sample_requests =
     [\<lparr>rq_time = 0, rq_user = 7, rq_action = ''top_up'', rq_bypass = False\<rparr>,
      \<lparr>rq_time = 5, rq_user = 7, rq_action = ''top_up'', rq_bypass = False\<rparr>,
      \<lparr>rq_time = 11, rq_user = 7, rq_action = ''default'', rq_bypass = False\<rparr>,
      \<lparr>rq_time = 12, rq_user = 7, rq_action = ''default'', rq_bypass = False\<rparr>,
      \<lparr>rq_time = 42, rq_user = 7, rq_action = ''default'', rq_bypass = True\<rparr>]"

lemma sample_limits_positive: "positive_limits sample_limits"
  by (simp add: positive_limits_def sample_limits_def)

lemma sample_requests_verdicts:
  "map_sum id (\<lambda>(lg, lm). map snd lg) (fold_tx (rate_step sample_limits) sample_requests ([], new_limiter)) =
     Inr [ALLOWED, ACTION_EXCEEDED, ALLOWED, GLOBAL_EXCEEDED, BANNED]"
  by (simp add: sample_requests_def sample_limits_def rate_step_def check_rate_def is_banned_def new_limiter_def
      check_global_limit_def check_action_limit_def put_action_def clean_old_requests_def ban_user_def
      get_wait_time_def oldest_def tx_bind_def py_trunc_def Let_def)

lemma rate_limits_hold_witness:
  "\<exists>lg lm. fold_tx (rate_step sample_limits) sample_requests ([], new_limiter) = Inr (lg, lm) \<and>
    in_window 10 11 (admitted 7 None lg) \<le> 2 \<and> in_window 20 11 (admitted 7 (Some ''top_up'') lg) \<le> 1"
proof -
  have "sorted (map rq_time sample_requests)" by (simp add: sample_requests_def)
  from rate_limits_hold [OF sample_limits_positive this] obtain lg lm where
    run: "fold_tx (rate_step sample_limits) sample_requests ([], new_limiter) = Inr (lg, lm)"
    and g: "\<forall>u t. in_window (rc_global_window sample_limits) t (admitted u None lg) \<le> rc_global_limit sample_limits"
    and a: "\<forall>u t a. case rc_action_limits sample_limits a of None \<Rightarrow> True
       | Some (limit, w) \<Rightarrow> in_window w t (admitted u (Some a) lg) \<le> limit" by blast
  show ?thesis using run g [rule_format, of 11 7] a [rule_format, of 11 7 "''top_up''"]
    by (intro exI [of _ lg] exI [of _ lm]) (simp add: sample_limits_def)
qed

lemma ban_holds_witness:
  "\<exists>lg lm2. fold_tx (rate_step sample_limits)
      [\<lparr>rq_time = 31, rq_user = 7, rq_action = ''default'', rq_bypass = True\<rparr>]
      ([], ban_user 1 7 (new_limiter\<lparr>lm_user_requests := (\<lambda>_. [])(7 := [0, 1])\<rparr>)) = Inr (lg, lm2) \<and>
    map snd lg = [BANNED]"
proof -
  have "check_rate sample_limits 1 7 ''default'' False (new_limiter\<lparr>lm_user_requests := (\<lambda>_. [])(7 := [0, 1])\<rparr>) =
      Inr (GLOBAL_EXCEEDED, 30, ban_user 1 7 (new_limiter\<lparr>lm_user_requests := (\<lambda>_. [])(7 := [0, 1])\<rparr>))"
    by (simp add: check_rate_def is_banned_def new_limiter_def check_global_limit_def clean_old_requests_def
        sample_limits_def ban_user_def)
  from ban_holds [OF sample_limits_positive this,
      of "[\<lparr>rq_time = 31, rq_user = 7, rq_action = ''default'', rq_bypass = True\<rparr>]"]
  show ?thesis by (force simp: sample_limits_def)
qed

end
