(* ===== verification/Redis_Limit.thy ===== *)
theory Redis_Limit
  imports Rate_Limit
begin

text \<open>
  The limiter that processes share through Redis: \<open>RedisRateLimiter\<close> of \<open>middleware/rate_limit.py\<close> with its two Lua
  scripts, and the middleware on top of whichever limiter answers.  A sorted set is the list of its
  scores (its members are unique) with the millisecond at which the key expires; Redis reads the same
  clock in whole milliseconds and forgets a key once that millisecond has passed.  A command is
  answered, refused before it runs, or run without the reply coming back; in the last two cases
  the in-process limiter decides.
\<close>

subsection \<open>The store\<close>

type_synonym sorted_set = "(rat list \<times> int) option"

record rate_store =
  rs_ban :: "int \<Rightarrow> int option"
  rs_global :: "int \<Rightarrow> sorted_set"
  rs_action :: "string \<Rightarrow> int \<Rightarrow> sorted_set"

definition new_store :: rate_store where
  "new_store = \<lparr>rs_ban = (\<lambda>_. None), rs_global = (\<lambda>_. None), rs_action = (\<lambda>_ _. None)\<rparr>"

definition millis :: "rat \<Rightarrow> int" where
  "millis t = \<lfloor>1000 * t\<rfloor>"

text \<open>\<open>PTTL\<close>: the milliseconds that are left, or -2 for no key.\<close>

definition pttl :: "rat \<Rightarrow> int option \<Rightarrow> int" where
  "pttl now k = (case k of None \<Rightarrow> -2 | Some expires \<Rightarrow> if expires < millis now then -2 else expires - millis now)"

definition scores :: "rat \<Rightarrow> sorted_set \<Rightarrow> rat list" where
  "scores now z = (case z of None \<Rightarrow> [] | Some (ts, expires) \<Rightarrow> if expires < millis now then [] else ts)"

text \<open>\<open>ZREMRANGEBYSCORE key 0 (now - window)\<close>; an empty set is no key.\<close>

definition trim :: "rat \<Rightarrow> rat \<Rightarrow> sorted_set \<Rightarrow> sorted_set" where
  "trim now window z =
     (let kept = filter (\<lambda>t. \<not> (0 \<le> t \<and> t \<le> now - window)) (scores now z)
      in if kept = [] then None else Some (kept, snd (the z)))"

definition record_request :: "rat \<Rightarrow> rat \<Rightarrow> sorted_set \<Rightarrow> sorted_set" where
  "record_request now window z = Some (scores now z @ [now], millis now + \<lfloor>window * 1000\<rfloor>)"

text \<open>\<open>_ALLOW_LUA\<close>: trim the window, check the count, record the request.\<close>

definition allow_script :: "rat \<Rightarrow> rat \<Rightarrow> nat \<Rightarrow> sorted_set \<Rightarrow> bool \<times> sorted_set" where
  "allow_script now window limit z =
     (let z1 = trim now window z
      in if limit \<le> length (scores now z1) then (False, z1) else (True, record_request now window z1))"

text \<open>The wait after an exceeded action limit: until the oldest request leaves the window.\<close>

definition script_wait :: "rat \<Rightarrow> rat \<Rightarrow> rat list \<Rightarrow> int" where
  "script_wait now window ts = (if ts = [] then 0 else max 0 \<lceil>window - (now - Min (set ts))\<rceil>)"

text \<open>\<open>_CHECK_LUA\<close>: the ban, the bypass, both windows and the automatic ban in one go.\<close>

definition check_script ::
    "rate_config \<Rightarrow> rat \<Rightarrow> int \<Rightarrow> string \<Rightarrow> bool \<Rightarrow> rate_store \<Rightarrow> rate_verdict \<times> int \<times> rate_store" where
  "check_script cfg now user_id action bypass rs =
     (let ban_ms = pttl now (rs_ban rs user_id)
      in if 0 < ban_ms then (BANNED, \<lceil>of_int ban_ms / (1000 :: rat)\<rceil>, rs)
         else if bypass then (ALLOWED, 0, rs)
         else (let (ok, g) = allow_script now (rc_global_window cfg) (rc_global_limit cfg) (rs_global rs user_id);
                   rs1 = rs\<lparr>rs_global := (rs_global rs)(user_id := g)\<rparr>
               in if \<not> ok
                  then (GLOBAL_EXCEEDED, py_trunc (rc_ban_duration cfg),
                        rs1\<lparr>rs_ban := (rs_ban rs1)(user_id \<mapsto> millis now + \<lfloor>rc_ban_duration cfg * 1000\<rfloor>)\<rparr>)
                  else (case rc_action_limits cfg action of None \<Rightarrow> (ALLOWED, 0, rs1)
                        | Some (limit, window) \<Rightarrow>
                           (let (ok2, a) = allow_script now window limit (rs_action rs1 action user_id);
                                rs2 = rs1\<lparr>rs_action := (rs_action rs1)(action := (rs_action rs1 action)(user_id := a))\<rparr>
                            in if ok2 then (ALLOWED, 0, rs2) else (ACTION_EXCEEDED, script_wait now window (scores now a), rs2)))))"

subsection \<open>The methods, with the in-process limiter behind them\<close>

datatype redis_reply = Answered | NotRun | ReplyLost

type_synonym rate_state = "rate_store \<times> limiter"

definition redis_check ::
    "rate_config \<Rightarrow> rat \<Rightarrow> int \<Rightarrow> string \<Rightarrow> bool \<Rightarrow> redis_reply \<Rightarrow> rate_state \<Rightarrow> (rate_verdict \<times> rat \<times> rate_state) result" where
  "redis_check cfg now user_id action bypass reply st =
     (let (v, wait, rs1) = check_script cfg now user_id action bypass (fst st)
      in case reply of
           Answered \<Rightarrow> Inr (v, of_int wait, rs1, snd st)
         | _ \<Rightarrow> tx_bind (check_rate cfg now user_id action bypass (snd st)) (\<lambda>(v, wait, lm).
                  Inr (v, wait, if reply = ReplyLost then rs1 else fst st, lm)))"

definition redis_is_banned :: "rate_config \<Rightarrow> rat \<Rightarrow> int \<Rightarrow> redis_reply \<Rightarrow> rate_state \<Rightarrow> bool \<times> rate_state" where
  "redis_is_banned cfg now user_id reply st =
     (if reply = Answered then (pttl now (rs_ban (fst st) user_id) \<noteq> -2, st)
      else (let (b, lm) = is_banned cfg now user_id (snd st) in (b, fst st, lm)))"

definition redis_ban_user :: "rate_config \<Rightarrow> rat \<Rightarrow> int \<Rightarrow> redis_reply \<Rightarrow> rate_state \<Rightarrow> rate_state" where
  "redis_ban_user cfg now user_id reply st =
     (let rs1 = (fst st)\<lparr>rs_ban := (rs_ban (fst st))(user_id \<mapsto> millis now + \<lfloor>rc_ban_duration cfg * 1000\<rfloor>)\<rparr>
      in (if reply = NotRun then fst st else rs1, if reply = Answered then snd st else ban_user now user_id (snd st)))"

definition redis_check_global_limit :: "rate_config \<Rightarrow> rat \<Rightarrow> int \<Rightarrow> redis_reply \<Rightarrow> rate_state \<Rightarrow> bool \<times> rate_state" where
  "redis_check_global_limit cfg now user_id reply st =
     (let (ok, g) = allow_script now (rc_global_window cfg) (rc_global_limit cfg) (rs_global (fst st) user_id);
          rs1 = (fst st)\<lparr>rs_global := (rs_global (fst st))(user_id := g)\<rparr>;
          (ok2, lm) = check_global_limit cfg now user_id (snd st)
      in if reply = Answered then (ok, rs1, snd st) else (ok2, if reply = ReplyLost then rs1 else fst st, lm))"

definition redis_check_action_limit ::
    "rate_config \<Rightarrow> rat \<Rightarrow> int \<Rightarrow> string \<Rightarrow> redis_reply \<Rightarrow> rate_state \<Rightarrow> bool \<times> rate_state" where
  "redis_check_action_limit cfg now user_id action reply st =
     (case rc_action_limits cfg action of None \<Rightarrow> (True, st)
      | Some (limit, window) \<Rightarrow>
         (let (ok, a) = allow_script now window limit (rs_action (fst st) action user_id);
              rs1 = (fst st)\<lparr>rs_action := (rs_action (fst st))(action := (rs_action (fst st) action)(user_id := a))\<rparr>;
              (ok2, lm) = check_action_limit cfg now user_id action (snd st)
          in if reply = Answered then (ok, rs1, snd st) else (ok2, if reply = ReplyLost then rs1 else fst st, lm)))"

text \<open>\<open>TTL\<close> rounds to seconds.  The oldest stored request decides, whether or not a limit is reached.\<close>

definition redis_get_wait_time ::
    "rate_config \<Rightarrow> rat \<Rightarrow> int \<Rightarrow> string option \<Rightarrow> redis_reply \<Rightarrow> rate_state \<Rightarrow> (int \<times> rate_state) result" where
  "redis_get_wait_time cfg now user_id action reply st =
     (if reply \<noteq> Answered
      then tx_bind (get_wait_time cfg now user_id action (snd st)) (\<lambda>(w, lm). Inr (w, fst st, lm))
      else (let ban_ms = pttl now (rs_ban (fst st) user_id); ban_ttl = (if ban_ms = -2 then -2 else (ban_ms + 500) div 1000);
                (window, z) = (case (case action of None \<Rightarrow> None | Some a \<Rightarrow> if a = [] then None
                                  else map_option (\<lambda>(_, w). (w, rs_action (fst st) a user_id)) (rc_action_limits cfg a)) of
                    Some p \<Rightarrow> p | None \<Rightarrow> (rc_global_window cfg, rs_global (fst st) user_id));
                ts = scores now z
            in Inr (if 0 < ban_ttl then ban_ttl else if ts = [] then 0 else max 0 (py_trunc (window - (now - Min (set ts)))), st)))"

text \<open>\<open>RateLimitMiddleware.__call__\<close>: Redis is asked when the cache says it is healthy.\<close>

definition backend_check ::
    "rate_config \<Rightarrow> rat \<Rightarrow> int \<Rightarrow> string \<Rightarrow> bool \<Rightarrow> redis_reply option \<Rightarrow> rate_state \<Rightarrow> (rate_verdict \<times> rat \<times> rate_state) result" where
  "backend_check cfg now user_id action bypass backend st =
     (case backend of Some reply \<Rightarrow> redis_check cfg now user_id action bypass reply st
      | None \<Rightarrow> tx_bind (check_rate cfg now user_id action bypass (snd st)) (\<lambda>(v, wait, lm). Inr (v, wait, fst st, lm)))"

definition shared_rate_middleware ::
    "rate_config \<Rightarrow> rat \<Rightarrow> update \<Rightarrow> bool \<Rightarrow> redis_reply option \<Rightarrow> rate_state \<times> auth \<times> shop \<Rightarrow>
     (verdict \<times> rate_state \<times> auth \<times> shop) result" where
  "shared_rate_middleware cfg now ev searching backend st =
     (let (rst, as) = st
      in case ev_user ev of None \<Rightarrow> Inr (HandOn, st)
         | Some user_id \<Rightarrow>
             (let (bypass, au) = check_admin_bypass cfg \<lfloor>now\<rfloor> user_id as
              in tx_bind (backend_check cfg now user_id (get_action_from_event ev searching) bypass backend rst)
                   (\<lambda>(v, _, rst1). Inr (case rate_message v of None \<Rightarrow> HandOn | Some m \<Rightarrow> Refuse (Some m),
                      rst1, au, snd as))))"

subsection \<open>A sorted set as a list of time stamps\<close>

definition stored :: "sorted_set \<Rightarrow> rat list" where
  "stored z = (case z of None \<Rightarrow> [] | Some (ts, _) \<Rightarrow> ts)"

definition whole_millis :: "rat \<Rightarrow> bool" where
  "whole_millis w \<longleftrightarrow> of_int \<lfloor>w * 1000\<rfloor> = w * 1000"

text \<open>No stored request outlives its key.\<close>

definition entry_ok :: "rat \<Rightarrow> rat \<Rightarrow> sorted_set \<Rightarrow> bool" where
  "entry_ok w latest z \<longleftrightarrow>
     (case z of None \<Rightarrow> True
      | Some (ts, expires) \<Rightarrow> \<forall>t \<in> set ts. 0 \<le> t \<and> t \<le> latest \<and> millis t + \<lfloor>w * 1000\<rfloor> \<le> expires)"

lemma expired_is_old:
  assumes "whole_millis w" "millis t + \<lfloor>w * 1000\<rfloor> \<le> expires" "expires < millis now"
  shows "w < now - t"
proof -
  have "millis t + \<lfloor>w * 1000\<rfloor> + 1 \<le> millis now" using assms(2,3) by linarith
  then have "of_int (millis t) + of_int \<lfloor>w * 1000\<rfloor> + 1 \<le> (of_int (millis now) :: rat)"
    by (metis of_int_1 of_int_add of_int_le_iff)
  moreover have "of_int (millis now) \<le> 1000 * now" "1000 * t < of_int (millis t) + 1"
    by (simp_all add: millis_def) linarith
  ultimately show ?thesis using assms(1) unfolding whole_millis_def by linarith
qed

lemma trim_stored:
  assumes "entry_ok w latest z" "whole_millis w"
  shows "stored (trim now w z) = clean_old_requests now (stored z) w" "entry_ok w latest (trim now w z)"
    "scores now (trim now w z) = stored (trim now w z)"
proof -
  have all: "stored (trim now w z) = clean_old_requests now (stored z) w \<and> entry_ok w latest (trim now w z) \<and>
      scores now (trim now w z) = stored (trim now w z)"
  proof (cases z)
    case None
    then show ?thesis by (simp add: trim_def scores_def stored_def clean_old_requests_def entry_ok_def)
  next
    case (Some p)
    obtain ts ex where p: "p = (ts, ex)" by fastforce
    have ok: "\<forall>t \<in> set ts. 0 \<le> t \<and> t \<le> latest \<and> millis t + \<lfloor>w * 1000\<rfloor> \<le> ex"
      using assms(1) Some p by (simp add: entry_ok_def)
    have eq: "filter (\<lambda>t. \<not> (0 \<le> t \<and> t \<le> now - w)) ts = clean_old_requests now ts w"
      unfolding clean_old_requests_def using ok by (intro filter_cong) auto
    show ?thesis
    proof (cases "ex < millis now")
      case True
      have "clean_old_requests now ts w = []"
        using ok expired_is_old [OF assms(2) _ True] by (fastforce simp: clean_old_requests_def filter_empty_conv)
      then show ?thesis using Some p True by (simp add: trim_def scores_def stored_def entry_ok_def)
    next
      case False
      have "set (clean_old_requests now ts w) \<subseteq> set ts" by (auto simp: clean_old_requests_def)
      then show ?thesis using Some p False ok eq
        by (auto simp: trim_def scores_def stored_def entry_ok_def Let_def simp del: filter_True)
    qed
  qed
  then show "stored (trim now w z) = clean_old_requests now (stored z) w" "entry_ok w latest (trim now w z)"
    "scores now (trim now w z) = stored (trim now w z)" by blast+
qed

text \<open>The script is the step of the in-process limiter.\<close>

lemma allow_script_stored:
  assumes "allow_script now w limit z = (ok, z')" "entry_ok w latest z" "whole_millis w" "latest \<le> now" "0 \<le> now"
  shows "ok \<longleftrightarrow> length (clean_old_requests now (stored z) w) < limit"
    and "stored z' = (if ok then clean_old_requests now (stored z) w @ [now] else clean_old_requests now (stored z) w)"
    and "entry_ok w now z'"
proof -
  note t = trim_stored [OF assms(2,3), of now]
  have "entry_ok w now (trim now w z)" using t(2) assms(4) by (fastforce simp: entry_ok_def split: option.splits)
  moreover have "millis t \<le> millis now" if "t \<le> now" for t using that by (simp add: millis_def floor_mono)
  ultimately show "entry_ok w now z'"
    using assms(1,4,5) t by (auto simp: allow_script_def Let_def record_request_def entry_ok_def stored_def split: if_splits option.splits)
  show "ok \<longleftrightarrow> length (clean_old_requests now (stored z) w) < limit"
    "stored z' = (if ok then clean_old_requests now (stored z) w @ [now] else clean_old_requests now (stored z) w)"
    using assms(1) t by (auto simp: allow_script_def Let_def record_request_def stored_def split: if_splits)
qed

subsection \<open>The limits hold over both limiters\<close>

definition whole_windows :: "rate_config \<Rightarrow> bool" where
  "whole_windows cfg \<longleftrightarrow> whole_millis (rc_global_window cfg) \<and>
     (\<forall>a limit w. rc_action_limits cfg a = Some (limit, w) \<longrightarrow> whole_millis w)"

definition store_inv :: "rate_config \<Rightarrow> rat \<Rightarrow> rate_log \<times> rate_store \<Rightarrow> bool" where
  "store_inv cfg latest st \<longleftrightarrow>
     (\<forall>u. window_inv (rc_global_limit cfg) (rc_global_window cfg) latest (admitted u None (fst st)) (stored (rs_global (snd st) u)) \<and>
        entry_ok (rc_global_window cfg) latest (rs_global (snd st) u)) \<and>
     (\<forall>a limit w u. rc_action_limits cfg a = Some (limit, w) \<longrightarrow>
        window_inv limit w latest (admitted u (Some a) (fst st)) (stored (rs_action (snd st) a u)) \<and>
        entry_ok w latest (rs_action (snd st) a u))"

lemma entry_ok_later: "entry_ok w latest z \<Longrightarrow> latest \<le> now \<Longrightarrow> entry_ok w now z"
  by (fastforce simp: entry_ok_def split: option.splits)

lemma store_inv_new: "store_inv cfg latest ([], new_store)"
  by (simp add: store_inv_def new_store_def admitted_def window_inv_empty stored_def entry_ok_def)

lemma store_inv_later: "store_inv cfg latest st \<Longrightarrow> latest \<le> now \<Longrightarrow> store_inv cfg now st"
  unfolding store_inv_def by (meson entry_ok_later window_inv_later)

lemma limiter_inv_later: "limiter_inv cfg latest st \<Longrightarrow> latest \<le> now \<Longrightarrow> limiter_inv cfg now st"
  unfolding limiter_inv_def by (meson window_inv_later)

lemma window_inv_prefix:
  assumes "window_inv limit w latest (A @ B) st"
  shows "window_inv limit w latest A st"
  unfolding window_inv_def
proof (intro conjI allI impI)
  fix t
  have "in_window w t A \<le> in_window w t (A @ B)" by (simp add: in_window_append)
  also have "\<dots> \<le> limit" using assms by (simp add: window_inv_def)
  finally show "in_window w t A \<le> limit" .
next
  fix now
  assume "latest \<le> now"
  then have "length (clean_old_requests now (A @ B) w) \<le> length (clean_old_requests now st w)"
    using assms unfolding window_inv_def by blast
  then show "length (clean_old_requests now A w) \<le> length (clean_old_requests now st w)" by simp
qed

lemma admitted_append: "admitted u a (lg @ lg') = admitted u a lg @ admitted u a lg'"
  by (simp add: admitted_def)

lemma store_inv_prefix: "store_inv cfg latest (lg @ lg', rs) \<Longrightarrow> store_inv cfg latest (lg, rs)"
  unfolding store_inv_def fst_conv snd_conv admitted_append by (meson window_inv_prefix)

text \<open>One run of the script.\<close>

lemma check_script_inv:
  assumes inv: "store_inv cfg latest (lg, rs)" and whole: "whole_windows cfg"
    and le: "latest \<le> rq_time r" "0 \<le> rq_time r"
    and run: "check_script cfg (rq_time r) (rq_user r) (rq_action r) (rq_bypass r) rs = (v, wait, rs')"
  shows "store_inv cfg (rq_time r) (lg @ [(r, v)], rs')"
proof -
  define now where "now = rq_time r"
  define u where "u = rq_user r"
  define act where "act = rq_action r"
  obtain ok g where g: "allow_script now (rc_global_window cfg) (rc_global_limit cfg) (rs_global rs u) = (ok, g)" by fastforce
  have wg: "whole_millis (rc_global_window cfg)"
    and wa: "rc_action_limits cfg b = Some (limit, w) \<Longrightarrow> whole_millis w" for b limit w
    using whole by (auto simp: whole_windows_def)
  have later: "store_inv cfg now (lg, rs)" using store_inv_later [OF inv] le by (simp add: now_def)
  have gi: "window_inv (rc_global_limit cfg) (rc_global_window cfg) now (admitted x None lg) (stored (rs_global rs x))"
    "entry_ok (rc_global_window cfg) now (rs_global rs x)" for x
    using later by (auto simp: store_inv_def)
  have ai: "window_inv limit w now (admitted x (Some b) lg) (stored (rs_action rs b x))" "entry_ok w now (rs_action rs b x)"
    if "rc_action_limits cfg b = Some (limit, w)" for b limit w x
    using later that by (auto simp: store_inv_def)
  have now: "0 \<le> now" using le(2) by (simp add: now_def)
  note gs = allow_script_stored [OF g gi(2) wg order_refl now]
  have g_kept: "window_inv (rc_global_limit cfg) (rc_global_window cfg) now (admitted u None lg) (stored g)"
    if "\<not> ok" using gs(2) that window_inv_clean [OF gi(1) order_refl] by simp
  have g_new: "window_inv (rc_global_limit cfg) (rc_global_window cfg) now (admitted u None lg @ [now]) (stored g)"
    if ok using gs(1,2) that window_inv_admit [OF gi(1) order_refl] by simp
  show ?thesis
  proof (cases "0 < pttl now (rs_ban rs u) \<or> rq_bypass r")
    case True
    then have "rs' = rs" "v = ALLOWED \<longrightarrow> rq_bypass r"
      using run by (auto simp: check_script_def Let_def now_def u_def split: if_splits)
    then show ?thesis using later by (auto simp: store_inv_def admitted_snoc now_def)
  next
    case False
    note active = False
    show ?thesis
    proof (cases ok)
      case False
      then have "v = GLOBAL_EXCEEDED" "rs_action rs' = rs_action rs" "rs_global rs' = (rs_global rs)(u := g)"
        using run active g by (auto simp: check_script_def Let_def now_def u_def)
      then show ?thesis using later g_kept [OF False] gs(3) by (auto simp: store_inv_def admitted_snoc now_def)
    next
      case True
      show ?thesis
      proof (cases "rc_action_limits cfg act")
        case None
        then have "v = ALLOWED" "rs_action rs' = rs_action rs" "rs_global rs' = (rs_global rs)(u := g)"
          using run active g True by (auto simp: check_script_def Let_def now_def u_def act_def)
        then show ?thesis using later g_new [OF True] gs(3) None active
          by (auto simp: store_inv_def admitted_snoc now_def u_def act_def)
      next
        case (Some p)
        obtain limit w where p: "rc_action_limits cfg act = Some (limit, w)" using Some by (cases p) auto
        obtain ok2 a where a: "allow_script now w limit (rs_action rs act u) = (ok2, a)" by fastforce
        note as = allow_script_stored [OF a ai(2) [OF p] wa [OF p] order_refl now]
        have rs': "rs_action rs' = (rs_action rs)(act := (rs_action rs act)(u := a))" "rs_global rs' = (rs_global rs)(u := g)"
          "v = (if ok2 then ALLOWED else ACTION_EXCEEDED)"
          using run active g True a p by (auto simp: check_script_def Let_def now_def u_def act_def split: if_splits)
        have a_log: "window_inv limit w now (admitted u (Some act) lg @ (if ok2 then [now] else [])) (stored a)"
          using as(1,2) window_inv_clean [OF ai(1) [OF p] order_refl] window_inv_admit [OF ai(1) [OF p] order_refl]
          by (cases ok2) simp_all
        have g_log: "window_inv (rc_global_limit cfg) (rc_global_window cfg) now
            (admitted u None lg @ (if ok2 then [now] else [])) (stored g)"
          using g_new [OF True] window_inv_prefix by (cases ok2) auto
        have mine: "admitted u None (lg @ [(r, v)]) = admitted u None lg @ (if ok2 then [now] else [])"
          "admitted u (Some act) (lg @ [(r, v)]) = admitted u (Some act) lg @ (if ok2 then [now] else [])"
          using active by (auto simp: admitted_snoc rs'(3) now_def u_def act_def)
        have other: "admitted x b (lg @ [(r, v)]) = admitted x b lg" if "x \<noteq> u \<or> (b \<noteq> None \<and> b \<noteq> Some act)" for x b
          using that by (auto simp: admitted_snoc u_def act_def)
        have global: "window_inv (rc_global_limit cfg) (rc_global_window cfg) now (admitted x None (lg @ [(r, v)])) (stored (rs_global rs' x)) \<and>
            entry_ok (rc_global_window cfg) now (rs_global rs' x)" for x
          using g_log gs(3) gi [of x] by (cases "x = u") (simp_all add: rs'(1,2) mine other)
        have action: "window_inv limit' w' now (admitted x (Some b) (lg @ [(r, v)])) (stored (rs_action rs' b x)) \<and>
            entry_ok w' now (rs_action rs' b x)" if b: "rc_action_limits cfg b = Some (limit', w')" for b limit' w' x
          using a_log as(3) ai [OF b, of x] b p by (cases "x = u \<and> b = act") (auto simp: rs'(1,2) mine other)
        show ?thesis using global action by (simp add: store_inv_def now_def)
      qed
    qed
  qed
qed

text \<open>A sequence of requests, each with what Redis does; the log says who decided.\<close>

type_synonym shared_log = "((rate_request \<times> rate_verdict) \<times> redis_reply) list"

definition shared_step ::
    "rate_config \<Rightarrow> rate_request \<times> redis_reply \<Rightarrow> shared_log \<times> rate_state \<Rightarrow> (shared_log \<times> rate_state) result" where
  "shared_step cfg rq st =
     (let (r, reply) = rq
      in tx_bind (redis_check cfg (rq_time r) (rq_user r) (rq_action r) (rq_bypass r) reply (snd st))
           (\<lambda>(v, _, rst). Inr (fst st @ [((r, v), reply)], rst)))"

definition decided_by :: "bool \<Rightarrow> shared_log \<Rightarrow> rate_log" where
  "decided_by redis lg = map fst (filter (\<lambda>x. (snd x = Answered) = redis) lg)"

definition shared_inv :: "rate_config \<Rightarrow> rat \<Rightarrow> shared_log \<times> rate_state \<Rightarrow> bool" where
  "shared_inv cfg latest st \<longleftrightarrow>
     store_inv cfg latest (decided_by True (fst st), fst (snd st)) \<and> limiter_inv cfg latest (decided_by False (fst st), snd (snd st))"

lemma decided_by_snoc:
  "decided_by redis (lg @ [(x, reply)]) = decided_by redis lg @ (if (reply = Answered) = redis then [x] else [])"
  by (simp add: decided_by_def)

lemma shared_step_inv:
  assumes pos: "positive_limits cfg" and whole: "whole_windows cfg" and inv: "shared_inv cfg latest (lg, rs, lm)"
    and le: "latest \<le> rq_time r" "0 \<le> rq_time r"
  obtains lg' rst where "shared_step cfg (r, reply) (lg, rs, lm) = Inr (lg', rst)" "shared_inv cfg (rq_time r) (lg', rst)"
proof -
  obtain v wait rs1 where script: "check_script cfg (rq_time r) (rq_user r) (rq_action r) (rq_bypass r) rs = (v, wait, rs1)"
    by (cases "check_script cfg (rq_time r) (rq_user r) (rq_action r) (rq_bypass r) rs")
  have redis: "store_inv cfg (rq_time r) (decided_by True lg @ [(r, v)], rs1)"
    using check_script_inv [OF _ whole le script] inv by (simp add: shared_inv_def)
  have lost: "store_inv cfg (rq_time r) (decided_by True lg, rs1)" using redis by (rule store_inv_prefix)
  have idle: "store_inv cfg (rq_time r) (decided_by True lg, rs)" "limiter_inv cfg (rq_time r) (decided_by False lg, lm)"
    using inv store_inv_later limiter_inv_later le(1) by (auto simp: shared_inv_def)
  have "limiter_inv cfg latest (decided_by False lg, lm)" using inv by (simp add: shared_inv_def)
  then obtain mem lm' where "rate_step cfg r (decided_by False lg, lm) = Inr (mem, lm')" "limiter_inv cfg (rq_time r) (mem, lm')"
    using rate_step_inv [OF pos _ le(1)] by metis
  then obtain v2 wait2 where memory: "check_rate cfg (rq_time r) (rq_user r) (rq_action r) (rq_bypass r) lm = Inr (v2, wait2, lm')"
    "limiter_inv cfg (rq_time r) (decided_by False lg @ [(r, v2)], lm')"
    by (auto simp: rate_step_def tx_bind_eq_Inr)
  show thesis
  proof (cases reply)
    case Answered
    then show thesis using that [of "lg @ [((r, v), Answered)]" "(rs1, lm)"] redis idle
      by (simp add: shared_step_def redis_check_def script tx_simps shared_inv_def decided_by_snoc)
  next
    case NotRun
    then show thesis using that [of "lg @ [((r, v2), NotRun)]" "(rs, lm')"] memory idle
      by (simp add: shared_step_def redis_check_def script tx_simps shared_inv_def decided_by_snoc)
  next
    case ReplyLost
    then show thesis using that [of "lg @ [((r, v2), ReplyLost)]" "(rs1, lm')"] memory lost
      by (simp add: shared_step_def redis_check_def script tx_simps shared_inv_def decided_by_snoc)
  qed
qed

lemma shared_steps_inv:
  assumes "positive_limits cfg" "whole_windows cfg" "shared_inv cfg latest st" "0 \<le> latest"
    "sorted (latest # map (rq_time \<circ> fst) reqs)"
  shows "\<exists>st' l. fold_tx (shared_step cfg) reqs st = Inr st' \<and> shared_inv cfg l st'"
  using assms(3-5)
proof (induction reqs arbitrary: latest st)
  case Nil
  then show ?case by auto
next
  case (Cons rq reqs)
  obtain r reply lg rs lm where eq: "rq = (r, reply)" "st = (lg, rs, lm)" by (metis prod.exhaust)
  obtain lg' rst where s: "shared_step cfg rq st = Inr (lg', rst)" "shared_inv cfg (rq_time r) (lg', rst)"
    using shared_step_inv [OF assms(1,2), of latest lg rs lm r reply] Cons.prems eq by auto
  have "0 \<le> rq_time r" "sorted (rq_time r # map (rq_time \<circ> fst) reqs)" using Cons.prems eq by (auto simp: comp_def)
  from Cons.IH [OF s(2) this] show ?case using s(1) by (simp add: tx_bind_def)
qed

lemma admitted_split:
  "in_window w t (admitted u a (map fst lg)) =
     in_window w t (admitted u a (decided_by True lg)) + in_window w t (admitted u a (decided_by False lg))"
proof (induction lg)
  case Nil
  then show ?case by (simp add: decided_by_def admitted_def in_window_def)
next
  case (Cons x lg)
  have all: "admitted u a (map fst (x # lg)) = admitted u a [fst x] @ admitted u a (map fst lg)"
    using admitted_append [of u a "[fst x]" "map fst lg"] by simp
  have part: "admitted u a (decided_by redis (x # lg)) =
      (if (snd x = Answered) = redis then admitted u a [fst x] else []) @ admitted u a (decided_by redis lg)" for redis
    using admitted_append [of u a "[fst x]" "decided_by redis lg"] by (simp add: decided_by_def)
  show ?case unfolding all part in_window_append Cons by (simp add: in_window_def)
qed

text \<open>C39: With positive limits, windows of whole seconds and times that are not negative, over any
  sequence of updates with non-decreasing times, of whatever users and actions, and whatever
  commands of Redis fail before or after they ran, the limiter never fails; of the requests that
  no admin bypass applies to, in every sliding window Redis lets at most the global limit of a
  user's and at most the limit of each action through, and together with the in-process limiter
  that stands in for it never more than twice as many.\<close>
theorem shared_limits_hold:
  assumes "positive_limits cfg" "whole_windows cfg" "sorted (map (rq_time \<circ> fst) reqs)" "\<forall>rq \<in> set reqs. 0 \<le> rq_time (fst rq)"
  shows "\<exists>lg rst. fold_tx (shared_step cfg) reqs ([], new_store, new_limiter) = Inr (lg, rst) \<and>
    (\<forall>u t. in_window (rc_global_window cfg) t (admitted u None (decided_by True lg)) \<le> rc_global_limit cfg \<and>
       in_window (rc_global_window cfg) t (admitted u None (map fst lg)) \<le> 2 * rc_global_limit cfg) \<and>
    (\<forall>u t a. case rc_action_limits cfg a of None \<Rightarrow> True
       | Some (limit, w) \<Rightarrow> in_window w t (admitted u (Some a) (decided_by True lg)) \<le> limit \<and>
           in_window w t (admitted u (Some a) (map fst lg)) \<le> 2 * limit)"
proof -
  have start: "shared_inv cfg 0 ([], new_store, new_limiter)"
    by (simp add: shared_inv_def decided_by_def store_inv_new limiter_inv_empty)
  have "sorted (0 # map (rq_time \<circ> fst) reqs)" using assms(3,4) by simp
  from shared_steps_inv [OF assms(1,2) start order_refl this] obtain st l
    where st: "fold_tx (shared_step cfg) reqs ([], new_store, new_limiter) = Inr st" "shared_inv cfg l st" by blast
  obtain lg rst where lg: "st = (lg, rst)" by (cases st)
  have g: "in_window (rc_global_window cfg) t (admitted u None (decided_by redis lg)) \<le> rc_global_limit cfg" for u t redis
    using st(2) by (cases redis) (simp_all add: lg shared_inv_def store_inv_def limiter_inv_def window_inv_def)
  have a: "in_window w t (admitted u (Some b) (decided_by redis lg)) \<le> limit"
    if "rc_action_limits cfg b = Some (limit, w)" for u t redis b limit w
    using st(2) that by (cases redis) (simp_all add: lg shared_inv_def store_inv_def limiter_inv_def window_inv_def)
  have "case rc_action_limits cfg b of None \<Rightarrow> True
     | Some (limit, w) \<Rightarrow> in_window w t (admitted u (Some b) (decided_by True lg)) \<le> limit \<and>
         in_window w t (admitted u (Some b) (map fst lg)) \<le> 2 * limit" for u t b
    using a [of b _ _ t u True] a [of b _ _ t u False]
    by (fastforce simp: admitted_split mult_2 intro: add_mono split: option.split)
  moreover have "in_window (rc_global_window cfg) t (admitted u None (map fst lg)) \<le> 2 * rc_global_limit cfg" for u t
    using g [of t u True] g [of t u False] by (simp add: admitted_split)
  ultimately show ?thesis using st(1) lg g [of _ _ True] by blast
qed

subsection \<open>Both limiters decide alike\<close>

text \<open>
  The store of Redis and the in-process limiter that have seen the same requests.  A ban ends in Redis
  with the millisecond in which the ban duration is over, in the process only after it.
\<close>

definition window_agrees :: "rat \<Rightarrow> rat \<Rightarrow> sorted_set \<Rightarrow> rat list \<Rightarrow> bool" where
  "window_agrees w latest z ts \<longleftrightarrow> entry_ok w latest z \<and>
     (\<forall>n \<ge> latest. clean_old_requests n (stored z) w = clean_old_requests n ts w)"

definition ban_agrees :: "rate_config \<Rightarrow> rat set \<Rightarrow> rat \<Rightarrow> int option \<Rightarrow> rat option \<Rightarrow> bool" where
  "ban_agrees cfg past latest k ban \<longleftrightarrow>
     (case ban of
        Some t \<Rightarrow> t \<in> past \<and> k = Some (millis t + \<lfloor>rc_ban_duration cfg * 1000\<rfloor>)
      | None \<Rightarrow> (case k of None \<Rightarrow> True | Some expires \<Rightarrow> expires \<le> millis latest))"

definition agree :: "rate_config \<Rightarrow> rat set \<Rightarrow> rat \<Rightarrow> rate_store \<Rightarrow> limiter \<Rightarrow> bool" where
  "agree cfg past latest rs lm \<longleftrightarrow>
     (\<forall>u. window_agrees (rc_global_window cfg) latest (rs_global rs u) (lm_user_requests lm u)) \<and>
     (\<forall>a limit w u. rc_action_limits cfg a = Some (limit, w) \<longrightarrow>
        window_agrees w latest (rs_action rs a u) (lm_user_actions lm a u)) \<and>
     (\<forall>u. ban_agrees cfg past latest (rs_ban rs u) (lm_banned_users lm u))"

lemma window_agrees_later: "window_agrees w latest z ts \<Longrightarrow> latest \<le> now \<Longrightarrow> window_agrees w now z ts"
  unfolding window_agrees_def by (meson entry_ok_later order_trans)

lemma ban_agrees_later: "ban_agrees cfg past latest k b \<Longrightarrow> latest \<le> now \<Longrightarrow> past \<subseteq> past' \<Longrightarrow> ban_agrees cfg past' now k b"
  using floor_mono [of "1000 * latest" "1000 * now"]
  by (auto simp: ban_agrees_def millis_def split: option.splits)

lemma agree_later: "agree cfg past latest rs lm \<Longrightarrow> latest \<le> now \<Longrightarrow> past \<subseteq> past' \<Longrightarrow> agree cfg past' now rs lm"
  unfolding agree_def by (meson window_agrees_later ban_agrees_later)

lemma agree_new: "agree cfg past latest new_store new_limiter"
  by (simp add: agree_def window_agrees_def ban_agrees_def new_store_def new_limiter_def stored_def entry_ok_def)

text \<open>Who is banned, for times in whole milliseconds that do not hit the end of a ban.\<close>

lemma millis_exact: "whole_millis x \<Longrightarrow> of_int (millis x) = 1000 * x"
  unfolding whole_millis_def millis_def by (simp add: mult.commute)

lemma ban_ends:
  assumes "whole_millis b" "whole_millis d" "whole_millis now"
  shows "millis now < millis b + \<lfloor>d * 1000\<rfloor> \<longleftrightarrow> now - b < d"
proof -
  have "millis now < millis b + \<lfloor>d * 1000\<rfloor> \<longleftrightarrow> (of_int (millis now) :: rat) < of_int (millis b) + of_int \<lfloor>d * 1000\<rfloor>"
    by (metis of_int_add of_int_less_iff)
  also have "\<dots> \<longleftrightarrow> 1000 * now < 1000 * b + d * 1000"
    using assms by (simp only: millis_exact) (simp only: whole_millis_def)
  also have "\<dots> \<longleftrightarrow> now - b < d" by linarith
  finally show ?thesis .
qed

lemma ban_agrees_now:
  assumes ag: "ban_agrees cfg past now (rs_ban rs u) (lm_banned_users lm u)" and ban: "whole_millis (rc_ban_duration cfg)"
    and times: "whole_millis now" "\<forall>b \<in> past. whole_millis b \<and> now - b \<noteq> rc_ban_duration cfg"
  obtains (banned) "0 < pttl now (rs_ban rs u)" "is_banned cfg now u lm = (True, lm)"
  | (free) "\<not> 0 < pttl now (rs_ban rs u)" "is_banned cfg now u lm = (False, lm\<lparr>lm_banned_users := (lm_banned_users lm)(u := None)\<rparr>)"
      "ban_agrees cfg past now (rs_ban rs u) None"
proof (cases "lm_banned_users lm u")
  case None
  have none: "lm\<lparr>lm_banned_users := (lm_banned_users lm)(u := None)\<rparr> = lm" using None by (simp add: fun_upd_idem)
  show thesis using ag None free unfolding none
    by (auto simp: ban_agrees_def is_banned_def pttl_def split: option.splits)
next
  case (Some b)
  then have b: "b \<in> past" "rs_ban rs u = Some (millis b + \<lfloor>rc_ban_duration cfg * 1000\<rfloor>)" using ag by (simp_all add: ban_agrees_def)
  have ends: "millis now < millis b + \<lfloor>rc_ban_duration cfg * 1000\<rfloor> \<longleftrightarrow> now - b < rc_ban_duration cfg"
    using ban_ends times b(1) ban by blast
  show thesis
  proof (cases "now - b < rc_ban_duration cfg")
    case True
    then show thesis using banned ends b(2) Some by (simp add: is_banned_def pttl_def)
  next
    case False
    then have "rc_ban_duration cfg < now - b" using times(2) b(1) by fastforce
    then show thesis using free ends b(2) Some False by (auto simp: is_banned_def pttl_def ban_agrees_def)
  qed
qed

text \<open>A window of the script and one of the process move together.\<close>

lemma window_agrees_step:
  assumes run: "allow_script now w limit z = (ok, z')" and ag: "window_agrees w now z ts" and w: "whole_millis w" "0 \<le> now"
  shows "ok \<longleftrightarrow> \<not> limit \<le> length (clean_old_requests now ts w)"
    and "ok \<Longrightarrow> window_agrees w now z' (clean_old_requests now ts w @ [now])"
    and "\<not> ok \<Longrightarrow> window_agrees w now z' (clean_old_requests now ts w)"
proof -
  have eq: "clean_old_requests now (stored z) w = clean_old_requests now ts w" and ok: "entry_ok w now z"
    using ag by (auto simp: window_agrees_def)
  note s = allow_script_stored [OF run ok w(1) order_refl w(2), unfolded eq]
  show "ok \<longleftrightarrow> \<not> limit \<le> length (clean_old_requests now ts w)" using s(1) by (simp add: not_le)
  show "ok \<Longrightarrow> window_agrees w now z' (clean_old_requests now ts w @ [now])"
    "\<not> ok \<Longrightarrow> window_agrees w now z' (clean_old_requests now ts w)"
    using s(2,3) by (simp_all add: window_agrees_def)
qed

lemma agree_step:
  assumes pos: "positive_limits cfg" and whole: "whole_windows cfg" "whole_millis (rc_ban_duration cfg)"
    and ag: "agree cfg past now rs lm" and now: "0 \<le> now" "whole_millis now"
    and past: "\<forall>b \<in> past. whole_millis b \<and> now - b \<noteq> rc_ban_duration cfg"
  obtains v w lm' wait rs' where "check_rate cfg now u a byp lm = Inr (v, w, lm')"
    "check_script cfg now u a byp rs = (v, wait, rs')" "agree cfg (insert now past) now rs' lm'"
proof -
  have wg: "whole_millis (rc_global_window cfg)"
    and wa: "rc_action_limits cfg b = Some (limit, w) \<Longrightarrow> whole_millis w" for b limit w
    using whole(1) by (auto simp: whole_windows_def)
  have g: "window_agrees (rc_global_window cfg) now (rs_global rs x) (lm_user_requests lm x)"
    and act: "rc_action_limits cfg b = Some (limit, w) \<Longrightarrow> window_agrees w now (rs_action rs b x) (lm_user_actions lm b x)"
    and bans: "ban_agrees cfg past now (rs_ban rs x) (lm_banned_users lm x)" for x b limit w
    using ag by (auto simp: agree_def)
  have bans': "ban_agrees cfg (insert now past) now (rs_ban rs x) (lm_banned_users lm x)" for x
    using ban_agrees_later [OF bans order_refl subset_insertI] .
  show thesis
  proof (cases rule: ban_agrees_now [OF bans whole(2) now(2) past, of u])
    case 1
    obtain w where "get_wait_time cfg now u None lm = Inr (w, lm)"
      using get_wait_time_Inr [OF pos, of now u None lm] 1 by auto
    then show thesis using that [of BANNED "of_int w" lm] 1 agree_later [OF ag order_refl subset_insertI]
      by (simp add: check_rate_def check_script_def tx_simps Let_def)
  next
    case 2
    let ?lm = "lm\<lparr>lm_banned_users := (lm_banned_users lm)(u := None)\<rparr>"
    have free: "ban_agrees cfg (insert now past) now (rs_ban rs u) None"
      by (rule ban_agrees_later [OF 2(3) order_refl subset_insertI])
    show thesis
    proof (cases byp)
      case True
      have "agree cfg (insert now past) now rs ?lm"
        using g act bans' free by (simp add: agree_def)
      then show thesis using that [of ALLOWED 0 ?lm] 2 True by (simp add: check_rate_def check_script_def Let_def)
    next
      case False
      note byp = False
      obtain ok z where z: "allow_script now (rc_global_window cfg) (rc_global_limit cfg) (rs_global rs u) = (ok, z)" by fastforce
      note zs = window_agrees_step [OF z g wg now(1)]
      let ?kept = "clean_old_requests now (lm_user_requests lm u) (rc_global_window cfg)"
      show thesis
      proof (cases ok)
        case False
        have "check_rate cfg now u a byp lm = Inr (GLOBAL_EXCEEDED, rc_ban_duration cfg,
            ban_user now u (?lm\<lparr>lm_user_requests := (lm_user_requests lm)(u := ?kept)\<rparr>))"
          using 2 byp zs(1) False by (simp add: check_rate_def check_global_limit_def Let_def)
        moreover have "check_script cfg now u a byp rs = (GLOBAL_EXCEEDED, py_trunc (rc_ban_duration cfg),
            rs\<lparr>rs_global := (rs_global rs)(u := z), rs_ban := (rs_ban rs)(u \<mapsto> millis now + \<lfloor>rc_ban_duration cfg * 1000\<rfloor>)\<rparr>)"
          using 2 byp z False by (simp add: check_script_def Let_def)
        moreover have "agree cfg (insert now past) now
            (rs\<lparr>rs_global := (rs_global rs)(u := z), rs_ban := (rs_ban rs)(u \<mapsto> millis now + \<lfloor>rc_ban_duration cfg * 1000\<rfloor>)\<rparr>)
            (ban_user now u (?lm\<lparr>lm_user_requests := (lm_user_requests lm)(u := ?kept)\<rparr>))"
          using g act bans' zs(3) [OF False] by (auto simp: agree_def ban_user_def) (simp add: ban_agrees_def)
        ultimately show thesis by (rule that)
      next
        case True
        let ?lm2 = "?lm\<lparr>lm_user_requests := (lm_user_requests lm)(u := ?kept @ [now])\<rparr>"
        let ?rs2 = "rs\<lparr>rs_global := (rs_global rs)(u := z)\<rparr>"
        have ag2: "agree cfg (insert now past) now ?rs2 ?lm2"
          using g act bans' free zs(2) [OF True] by (simp add: agree_def)
        show thesis
        proof (cases "rc_action_limits cfg a")
          case None
          have "check_rate cfg now u a byp lm = Inr (ALLOWED, 0, ?lm2)"
            using 2 byp zs(1) True None by (simp add: check_rate_def check_global_limit_def check_action_limit_def Let_def)
          moreover have "check_script cfg now u a byp rs = (ALLOWED, 0, ?rs2)"
            using 2 byp z True None by (simp add: check_script_def Let_def)
          ultimately show thesis using ag2 by (rule that)
        next
          case (Some p)
          obtain limit win where p: "rc_action_limits cfg a = Some (limit, win)" using Some by (cases p) auto
          obtain ok2 y where y: "allow_script now win limit (rs_action rs a u) = (ok2, y)" by fastforce
          note ys = window_agrees_step [OF y act [OF p] wa [OF p] now(1)]
          let ?acts = "clean_old_requests now (lm_user_actions lm a u) win"
          let ?ts = "if ok2 then ?acts @ [now] else ?acts"
          have rs3: "check_script cfg now u a byp rs = (if ok2 then ALLOWED else ACTION_EXCEEDED,
              if ok2 then 0 else script_wait now win (scores now y),
              ?rs2\<lparr>rs_action := (rs_action rs)(a := (rs_action rs a)(u := y))\<rparr>)"
            using 2 byp z True p y by (simp add: check_script_def Let_def)
          have ag3: "agree cfg (insert now past) now (?rs2\<lparr>rs_action := (rs_action rs)(a := (rs_action rs a)(u := y))\<rparr>)
              (put_action a u ?ts ?lm2)"
            using ag2 ys(2,3) p by (auto simp: agree_def put_action_def)
          obtain w where w: "get_wait_time cfg now u (Some a) (put_action a u ?acts ?lm2) = Inr (w, put_action a u ?acts ?lm2)"
            using get_wait_time_Inr [OF pos, of now u "Some a" "put_action a u ?acts ?lm2"]
            by (auto simp: is_banned_def put_action_def)
          have "check_rate cfg now u a byp lm = Inr (if ok2 then ALLOWED else ACTION_EXCEEDED, if ok2 then 0 else of_int w,
              put_action a u ?ts ?lm2)"
            using 2 byp zs(1) True p ys(1) w
            by (simp add: check_rate_def check_global_limit_def check_action_limit_def Let_def tx_simps)
          then show thesis using rs3 ag3 by (rule that)
        qed
      qed
    qed
  qed
qed

definition apart :: "rate_config \<Rightarrow> rat set \<Rightarrow> bool" where
  "apart cfg ts \<longleftrightarrow> (\<forall>t \<in> ts. 0 \<le> t \<and> whole_millis t \<and> (\<forall>t' \<in> ts. t' - t \<noteq> rc_ban_duration cfg))"

lemma agree_steps:
  assumes "positive_limits cfg" "whole_windows cfg" "whole_millis (rc_ban_duration cfg)"
    and "agree cfg past latest rs lm" "apart cfg (past \<union> rq_time ` set reqs)" "sorted (latest # map rq_time reqs)"
  shows "\<exists>lg' lm' rs'. fold_tx (rate_step cfg) reqs (lg, lm) = Inr (lg @ lg', lm') \<and>
    fold_tx (shared_step cfg) (map (\<lambda>r. (r, Answered)) reqs) (slg, rs, m) = Inr (slg @ map (\<lambda>x. (x, Answered)) lg', rs', m)"
  using assms(4-6)
proof (induction reqs arbitrary: past latest rs lm lg slg)
  case Nil
  then show ?case by (intro exI [of _ "[]"]) simp
next
  case (Cons r reqs)
  have "agree cfg past (rq_time r) rs lm" using agree_later [OF Cons.prems(1) _ subset_refl] Cons.prems(3) by simp
  moreover have "0 \<le> rq_time r" "whole_millis (rq_time r)"
    "\<forall>b \<in> past. whole_millis b \<and> rq_time r - b \<noteq> rc_ban_duration cfg"
    using Cons.prems(2) by (auto simp: apart_def)
  ultimately obtain v w lm1 wait rs1 where step: "check_rate cfg (rq_time r) (rq_user r) (rq_action r) (rq_bypass r) lm = Inr (v, w, lm1)"
    "check_script cfg (rq_time r) (rq_user r) (rq_action r) (rq_bypass r) rs = (v, wait, rs1)"
    "agree cfg (insert (rq_time r) past) (rq_time r) rs1 lm1"
    by (rule agree_step [OF assms(1-3)])
  have "apart cfg (insert (rq_time r) past \<union> rq_time ` set reqs)" "sorted (rq_time r # map rq_time reqs)"
    using Cons.prems(2,3) by (simp_all add: insert_commute)
  from Cons.IH [OF step(3) this, of "lg @ [(r, v)]" "slg @ [((r, v), Answered)]"]
  obtain lg' lm' rs' where "fold_tx (rate_step cfg) reqs (lg @ [(r, v)], lm1) = Inr ((lg @ [(r, v)]) @ lg', lm')"
    "fold_tx (shared_step cfg) (map (\<lambda>r. (r, Answered)) reqs) (slg @ [((r, v), Answered)], rs1, m) =
      Inr ((slg @ [((r, v), Answered)]) @ map (\<lambda>x. (x, Answered)) lg', rs', m)" by blast
  moreover have "rate_step cfg r (lg, lm) = Inr (lg @ [(r, v)], lm1)"
    "shared_step cfg (r, Answered) (slg, rs, m) = Inr (slg @ [((r, v), Answered)], rs1, m)"
    using step(1,2) by (simp_all add: rate_step_def shared_step_def redis_check_def tx_simps)
  ultimately show ?case by (intro exI [of _ "(r, v) # lg'"]) (simp add: tx_simps)
qed

text \<open>C40: For requests at whole milliseconds of which no two are exactly the duration of a ban apart,
  the script in Redis and the in-process limiter give the same verdict to every request.\<close>
theorem redis_decides_alike:
  assumes "positive_limits cfg" "whole_windows cfg" "whole_millis (rc_ban_duration cfg)"
    and "sorted (map rq_time reqs)" "apart cfg (rq_time ` set reqs)"
  shows "\<exists>lg lm rs. fold_tx (rate_step cfg) reqs ([], new_limiter) = Inr (lg, lm) \<and>
    fold_tx (shared_step cfg) (map (\<lambda>r. (r, Answered)) reqs) ([], new_store, new_limiter) =
      Inr (map (\<lambda>x. (x, Answered)) lg, rs, new_limiter)"
proof -
  have "sorted (0 # map rq_time reqs)" using assms(4,5) by (auto simp: apart_def)
  then show ?thesis
    using agree_steps [OF assms(1-3) agree_new, of "{}" reqs 0 "[]" "[]" new_limiter] assms(5) by auto
qed

subsection \<open>Concrete runs\<close>

text \<open>Thirty seconds after the ban: still refused in the process, free again in Redis.\<close>

lemma ban_ends_differently:
  "map_sum id (\<lambda>(lg, _). map snd lg) (fold_tx (rate_step sample_limits)
     (map (\<lambda>t. \<lparr>rq_time = t, rq_user = 7, rq_action = ''default'', rq_bypass = False\<rparr>) [0, 0, 0, 30]) ([], new_limiter)) =
     Inr [ALLOWED, ALLOWED, GLOBAL_EXCEEDED, BANNED]"
  "map_sum id (\<lambda>(lg, _). map (snd \<circ> fst) lg) (fold_tx (shared_step sample_limits)
     (map (\<lambda>t. (\<lparr>rq_time = t, rq_user = 7, rq_action = ''default'', rq_bypass = False\<rparr>, Answered)) [0, 0, 0, 30])
     ([], new_store, new_limiter)) = Inr [ALLOWED, ALLOWED, GLOBAL_EXCEEDED, ALLOWED]"
  by code_simp+

lemma sample_limits_whole: "whole_windows sample_limits" "whole_millis (rc_ban_duration sample_limits)"
proof -
  have "whole_millis 10" "whole_millis 20" "whole_millis 30" by code_simp+
  then show "whole_windows sample_limits" "whole_millis (rc_ban_duration sample_limits)"
    by (simp_all add: whole_windows_def sample_limits_def)
qed

lemma shared_limits_hold_witness:
  "\<exists>lg rst. fold_tx (shared_step sample_limits) (zip sample_requests [Answered, NotRun, ReplyLost, Answered, NotRun])
      ([], new_store, new_limiter) = Inr (lg, rst) \<and>
    in_window 10 11 (admitted 7 None (map fst lg)) \<le> 4 \<and> in_window 20 5 (admitted 7 (Some ''top_up'') (decided_by True lg)) \<le> 1"
proof -
  let ?reqs = "zip sample_requests [Answered, NotRun, ReplyLost, Answered, NotRun]"
  have sorted: "sorted (map (rq_time \<circ> fst) ?reqs)" "\<forall>rq \<in> set ?reqs. 0 \<le> rq_time (fst rq)"
    by (simp_all add: sample_requests_def)
  from shared_limits_hold [OF sample_limits_positive sample_limits_whole(1) sorted] obtain lg rst where
    run: "fold_tx (shared_step sample_limits) ?reqs ([], new_store, new_limiter) = Inr (lg, rst)"
    and g: "\<forall>u t. in_window (rc_global_window sample_limits) t (admitted u None (decided_by True lg)) \<le> rc_global_limit sample_limits \<and>
       in_window (rc_global_window sample_limits) t (admitted u None (map fst lg)) \<le> 2 * rc_global_limit sample_limits"
    and a: "\<forall>u t a. case rc_action_limits sample_limits a of None \<Rightarrow> True
       | Some (limit, w) \<Rightarrow> in_window w t (admitted u (Some a) (decided_by True lg)) \<le> limit \<and>
           in_window w t (admitted u (Some a) (map fst lg)) \<le> 2 * limit" by blast
  show ?thesis using run g [rule_format, of 11 7] a [rule_format, of 5 7 "''top_up''"]
    by (intro exI [of _ lg] exI [of _ rst]) (simp add: sample_limits_def)
qed

lemma redis_decides_alike_witness:
  "map_sum id (\<lambda>(lg, _). map (snd \<circ> fst) lg) (fold_tx (shared_step sample_limits)
     (map (\<lambda>r. (r, Answered)) (take 4 sample_requests)) ([], new_store, new_limiter)) =
     Inr [ALLOWED, ACTION_EXCEEDED, ALLOWED, GLOBAL_EXCEEDED]"
proof -
  have "whole_millis 0" "whole_millis 5" "whole_millis 11" "whole_millis 12" by code_simp+
  then have "apart sample_limits (rq_time ` set (take 4 sample_requests))"
    by (auto simp: apart_def sample_requests_def sample_limits_def)
  moreover have "sorted (map rq_time (take 4 sample_requests))" by (simp add: sample_requests_def)
  ultimately obtain lg lm rs where run: "fold_tx (rate_step sample_limits) (take 4 sample_requests) ([], new_limiter) = Inr (lg, lm)"
    "fold_tx (shared_step sample_limits) (map (\<lambda>r. (r, Answered)) (take 4 sample_requests)) ([], new_store, new_limiter) =
      Inr (map (\<lambda>x. (x, Answered)) lg, rs, new_limiter)"
    using redis_decides_alike [OF sample_limits_positive sample_limits_whole] by metis
  have "map_sum id (\<lambda>(lg, lm). map snd lg) (fold_tx (rate_step sample_limits) (take 4 sample_requests) ([], new_limiter)) =
     Inr [ALLOWED, ACTION_EXCEEDED, ALLOWED, GLOBAL_EXCEEDED]" by code_simp
  then show ?thesis unfolding run by (simp add: comp_def)
qed

end
