(* ===== verification/Listing.thy ===== *)
theory Listing
  imports Catalog Access "HOL-Library.Multiset" "HOL-Library.List_Lexorder" "HOL-Library.Char_ord"
begin

text \<open>
  Paginated lists: the queries of \<open>database/methods/lazy_queries.py\<close>, \<open>misc/lazy_paginator.py\<close>, the
  navigation row of \<open>keyboards/inline.py\<close> and the user's order list, order card and operation history
  (\<open>handlers/user/orders.py\<close>, \<open>handlers/user/main.py\<close>).  A query of a page is \<open>sql_page\<close> of the ordered
  selection; its \<open>count_only\<close> form is a separate computation.  Names are ordered by code points.
  Rows without a creation column are ordered by id, in which they are created.
  The contract of a paginated source (locale \<open>page_source\<close>) is that every page is a slice of one list.
  The count that decides how many pages there are comes from a cache and may be old; what follows for
  the paginator with any count is proved once and used for every query.
\<close>

subsection \<open>OFFSET and LIMIT\<close>

definition sql_page :: "int \<Rightarrow> int \<Rightarrow> 'a list \<Rightarrow> 'a list result" where
  "sql_page offset limit rows =
     (if offset < 0 then Inl (OtherError ''InvalidRowCountInResultOffsetClause'')
      else if limit < 0 then Inl (OtherError ''InvalidRowCountInLimitClause'')
      else Inr (take (nat limit) (drop (nat offset) rows)))"

text \<open>
  \<open>_cached_count\<close>: a count that the cache still holds is answered as it is, otherwise the computed one,
  which is stored for a minute.  The queries below answer the count; that it is stored as well matters to
  later renders only, which are proved for any cache.
\<close>

definition cached_count :: "string \<Rightarrow> int \<Rightarrow> shop \<Rightarrow> int \<times> shop" where
  "cached_count cache_key computed s =
     (case t_counts s of None \<Rightarrow> (computed, s)
      | Some m \<Rightarrow>
         (case map_of m cache_key of Some n \<Rightarrow> (n, s)
          | None \<Rightarrow> (computed, s\<lparr>t_counts := Some (AList.update cache_key computed m)\<rparr>)))"

definition count_rows :: "'a list \<Rightarrow> int" where
  "count_rows rows = int (length rows)"

subsection \<open>The queries\<close>

definition categories_rows :: "shop \<Rightarrow> string list" where
  "categories_rows s = order_by_key id (map c_name (t_categories s))"

definition query_categories :: "shop \<Rightarrow> int \<Rightarrow> int \<Rightarrow> string list result" where
  "query_categories s offset limit = sql_page offset limit (categories_rows s)"

definition count_categories :: "shop \<Rightarrow> int" where
  "count_categories s = fst (cached_count ''categories:count'' (count_rows (t_categories s)) s)"

text \<open>\<open>cat\<close> is what \<open>check_category_cached\<close> answered for the name.\<close>

definition query_items_in_category :: "shop \<Rightarrow> category option \<Rightarrow> int \<Rightarrow> int \<Rightarrow> string list result" where
  "query_items_in_category s cat offset limit =
     (case cat of None \<Rightarrow> Inr []
      | Some c \<Rightarrow> sql_page offset limit (order_by_key id (map g_name (filter (\<lambda>g. g_category_id g = c_id c) (t_goods s)))))"

definition count_items_in_category :: "shop \<Rightarrow> string \<Rightarrow> category option \<Rightarrow> int" where
  "count_items_in_category s category_name cat =
     (case cat of None \<Rightarrow> 0
      | Some c \<Rightarrow> fst (cached_count (''category_items:'' @ category_name @ '':count'')
          (count_rows (filter (\<lambda>g. g_category_id g = c_id c) (t_goods s))) s))"

text \<open>
  \<open>LIKE\<close> with backslash as escape; \<open>ILIKE\<close> ignores case.  A pattern that ends in a lone escape
  character matches nothing here (the server rejects it); the patterns built below never do.
\<close>

fun like :: "string \<Rightarrow> string \<Rightarrow> bool" where
  "like [] t = (t = [])"
| "like (p # ps) t =
     (if p = CHR ''%'' then like ps t \<or> (case t of [] \<Rightarrow> False | _ # ts \<Rightarrow> like (p # ps) ts)
      else if p = CHR 0x5C
      then (case ps of [] \<Rightarrow> False | q # qs \<Rightarrow> (case t of [] \<Rightarrow> False | x # ts \<Rightarrow> x = q \<and> like qs ts))
      else (case t of [] \<Rightarrow> False | x # ts \<Rightarrow> (p = CHR ''_'' \<or> x = p) \<and> like ps ts))"

definition ilike :: "string \<Rightarrow> string \<Rightarrow> bool" where
  "ilike pattern text = like (lower pattern) (lower text)"

definition search_pattern :: "string \<Rightarrow> string" where
  "search_pattern q =
     ''%'' @ py_replace ''_'' (CHR 0x5C # ''_'') (py_replace ''%'' (CHR 0x5C # ''%'')
       (py_replace [CHR 0x5C] [CHR 0x5C, CHR 0x5C] q)) @ ''%''"

definition search_hits :: "shop \<Rightarrow> string \<Rightarrow> string list" where
  "search_hits s q = map g_name (filter (\<lambda>g. ilike (search_pattern q) (g_name g) \<or> ilike (search_pattern q) (g_description g)) (t_goods s))"

definition query_goods_search :: "shop \<Rightarrow> string option \<Rightarrow> int \<Rightarrow> int \<Rightarrow> string list result" where
  "query_goods_search s query offset limit =
     (let q = strip (case query of None \<Rightarrow> [] | Some t \<Rightarrow> t)
      in if q = [] then Inr [] else sql_page offset limit (order_by_key id (search_hits s q)))"

definition count_goods_search :: "shop \<Rightarrow> string option \<Rightarrow> int" where
  "count_goods_search s query =
     (let q = strip (case query of None \<Rightarrow> [] | Some t \<Rightarrow> t) in if q = [] then 0 else count_rows (search_hits s q))"

record order_row =
  orow_id :: int
  orow_status :: order_status
  orow_goods_name :: string
  orow_total_cents :: int
  orow_created_at :: int

definition order_row_of :: "shop \<Rightarrow> order \<Rightarrow> order_row option" where
  "order_row_of s x = map_option (\<lambda>g. \<lparr>orow_id = o_id x, orow_status = o_status x, orow_goods_name = g_name g,
     orow_total_cents = o_total_cents x, orow_created_at = o_created_at x\<rparr>) (get_goods s (o_goods_id x))"

definition user_orders_rows :: "shop \<Rightarrow> int \<Rightarrow> order_row list" where
  "user_orders_rows s user_id = order_by_key (\<lambda>r. - orow_id r)
     (List.map_filter (order_row_of s) (filter (\<lambda>x. o_user_id x = user_id) (t_orders s)))"

definition query_user_orders :: "shop \<Rightarrow> int \<Rightarrow> int \<Rightarrow> int \<Rightarrow> order_row list result" where
  "query_user_orders s user_id offset limit = sql_page offset limit (user_orders_rows s user_id)"

definition count_user_orders :: "shop \<Rightarrow> int \<Rightarrow> int" where
  "count_user_orders s user_id =
     fst (cached_count (''count:orders:'' @ show_int user_id) (count_rows (filter (\<lambda>x. o_user_id x = user_id) (t_orders s))) s)"

definition bought_of :: "shop \<Rightarrow> int \<Rightarrow> bought_goods list" where
  "bought_of s user_id = filter (\<lambda>b. bg_buyer_id b = Some user_id) (t_bought s)"

definition query_user_bought_items :: "shop \<Rightarrow> int \<Rightarrow> int \<Rightarrow> int \<Rightarrow> bought_goods list result" where
  "query_user_bought_items s user_id offset limit = sql_page offset limit
     (order_by_key (\<lambda>b. - bg_datetime b) (order_by_key (\<lambda>b. - bg_id b) (bought_of s user_id)))"

definition count_user_bought_items :: "shop \<Rightarrow> int \<Rightarrow> int" where
  "count_user_bought_items s user_id =
     fst (cached_count (''count:bought:'' @ show_int user_id) (count_rows (bought_of s user_id)) s)"

definition query_all_users :: "shop \<Rightarrow> int \<Rightarrow> int \<Rightarrow> int list result" where
  "query_all_users s offset limit = sql_page offset limit (order_by_key id (map u_id (t_users s)))"

definition count_all_users :: "shop \<Rightarrow> int" where
  "count_all_users s = fst (cached_count ''count:users'' (count_rows (t_users s)) s)"

text \<open>The page lists every unit of the position; the count is that of the units on sale.\<close>

definition query_items_in_position :: "shop \<Rightarrow> string \<Rightarrow> int \<Rightarrow> int \<Rightarrow> int list result" where
  "query_items_in_position s item_name offset limit =
     (case goods_id_by_name s item_name of None \<Rightarrow> Inr []
      | Some item_id \<Rightarrow> sql_page offset limit (order_by_key id (map iv_id (filter (\<lambda>v. iv_item_id v = item_id) (t_item_values s)))))"

definition count_items_in_position :: "shop \<Rightarrow> string \<Rightarrow> int" where
  "count_items_in_position s item_name =
     fst (cached_count (''count:stock:'' @ item_name)
       (case goods_id_by_name s item_name of None \<Rightarrow> 0
        | Some item_id \<Rightarrow> count_rows (filter (\<lambda>v. iv_item_id v = item_id \<and> stock_unit_available_clause v) (t_item_values s))) s)"

text \<open>An invited user with what he earned the inviter; the left join gives 0 where nothing was earned.\<close>

definition earned_from :: "shop \<Rightarrow> int \<Rightarrow> int \<Rightarrow> int" where
  "earned_from s user_id referral_id =
     sum_list (map re_amount (filter (\<lambda>r. re_referrer_id r = user_id \<and> re_referral_id r = referral_id) (t_earnings s)))"

definition referrals_of :: "shop \<Rightarrow> int \<Rightarrow> user list" where
  "referrals_of s user_id = filter (\<lambda>u. u_referral_id u = Some user_id) (t_users s)"

definition query_user_referrals :: "shop \<Rightarrow> int \<Rightarrow> int \<Rightarrow> int \<Rightarrow> (int \<times> int \<times> int) list result" where
  "query_user_referrals s user_id offset limit = sql_page offset limit
     (order_by_key (\<lambda>(_, _, total). - total) (order_by_key fst
       (map (\<lambda>u. (u_id u, u_registration_date u, earned_from s user_id (u_id u))) (referrals_of s user_id))))"

definition count_user_referrals :: "shop \<Rightarrow> int \<Rightarrow> int" where
  "count_user_referrals s user_id =
     fst (cached_count (''count:refs:'' @ show_int user_id) (count_rows (referrals_of s user_id)) s)"

definition newest_earnings :: "referral_earning list \<Rightarrow> referral_earning list" where
  "newest_earnings rows = order_by_key (\<lambda>r. - re_created_at r) (order_by_key (\<lambda>r. - re_id r) rows)"

definition earnings_from :: "shop \<Rightarrow> int \<Rightarrow> int \<Rightarrow> referral_earning list" where
  "earnings_from s referrer_id referral_id =
     filter (\<lambda>r. re_referrer_id r = referrer_id \<and> re_referral_id r = referral_id) (t_earnings s)"

definition query_referral_earnings_from_user :: "shop \<Rightarrow> int \<Rightarrow> int \<Rightarrow> int \<Rightarrow> int \<Rightarrow> referral_earning list result" where
  "query_referral_earnings_from_user s referrer_id referral_id offset limit =
     sql_page offset limit (newest_earnings (earnings_from s referrer_id referral_id))"

definition count_referral_earnings_from_user :: "shop \<Rightarrow> int \<Rightarrow> int \<Rightarrow> int" where
  "count_referral_earnings_from_user s referrer_id referral_id =
     fst (cached_count (''count:earn:'' @ show_int referrer_id @ CHR '':'' # show_int referral_id)
       (count_rows (earnings_from s referrer_id referral_id)) s)"

definition earnings_of :: "shop \<Rightarrow> int \<Rightarrow> referral_earning list" where
  "earnings_of s referrer_id = filter (\<lambda>r. re_referrer_id r = referrer_id) (t_earnings s)"

definition query_all_referral_earnings :: "shop \<Rightarrow> int \<Rightarrow> int \<Rightarrow> int \<Rightarrow> referral_earning list result" where
  "query_all_referral_earnings s referrer_id offset limit = sql_page offset limit (newest_earnings (earnings_of s referrer_id))"

definition count_all_referral_earnings :: "shop \<Rightarrow> int \<Rightarrow> int" where
  "count_all_referral_earnings s referrer_id =
     fst (cached_count (''count:earn:'' @ show_int referrer_id) (count_rows (earnings_of s referrer_id)) s)"

text \<open>A promo code, and whether the category or product it is bound to is gone.\<close>

definition dangling :: "promo_code \<Rightarrow> bool" where
  "dangling p \<longleftrightarrow> (pc_scope p = CategoryScope \<and> pc_category_id p = None) \<or> (pc_scope p = ItemScope \<and> pc_item_id p = None)"

definition query_promo_codes :: "shop \<Rightarrow> int \<Rightarrow> int \<Rightarrow> (promo_code \<times> bool) list result" where
  "query_promo_codes s offset limit =
     sql_page offset limit (map (\<lambda>p. (p, dangling p)) (order_by_key (\<lambda>p. - pc_id p) (t_promos s)))"

definition count_promo_codes :: "shop \<Rightarrow> int" where
  "count_promo_codes s = fst (cached_count ''count:promos'' (count_rows (t_promos s)) s)"

record history_row =
  hr_id :: int
  hr_type :: string
  hr_amount :: int
  hr_date :: int

definition history_topups :: "shop \<Rightarrow> int \<Rightarrow> history_row list" where
  "history_topups s user_id = map (\<lambda>x. \<lparr>hr_id = op_id x, hr_type = ''topup'', hr_amount = op_value x, hr_date = op_time x\<rparr>)
     (filter (\<lambda>x. op_user_id x = Some user_id \<and> 0 < op_value x) (t_operations s))"

definition history_purchases :: "shop \<Rightarrow> int \<Rightarrow> history_row list" where
  "history_purchases s user_id =
     map (\<lambda>b. \<lparr>hr_id = bg_id b, hr_type = ''purchase'', hr_amount = - bg_price b, hr_date = bg_datetime b\<rparr>) (bought_of s user_id)"

definition history_referrals :: "shop \<Rightarrow> int \<Rightarrow> history_row list" where
  "history_referrals s user_id =
     map (\<lambda>r. \<lparr>hr_id = re_id r, hr_type = ''referral'', hr_amount = re_amount r, hr_date = re_created_at r\<rparr>) (earnings_of s user_id)"

text \<open>\<open>UNION ALL\<close>, \<open>ORDER BY date DESC, type, id DESC\<close>.\<close>

definition query_user_operations_history :: "shop \<Rightarrow> int \<Rightarrow> int \<Rightarrow> int \<Rightarrow> history_row list result" where
  "query_user_operations_history s user_id offset limit = sql_page offset limit
     (order_by_key (\<lambda>r. - hr_date r) (order_by_key hr_type (order_by_key (\<lambda>r. - hr_id r)
       (history_topups s user_id @ history_purchases s user_id @ history_referrals s user_id))))"

definition count_user_operations_history :: "shop \<Rightarrow> int \<Rightarrow> int" where
  "count_user_operations_history s user_id =
     fst (cached_count (''count:ops:'' @ show_int user_id)
       (count_rows (filter (\<lambda>x. op_user_id x = Some user_id \<and> 0 < op_value x) (t_operations s))
        + count_rows (bought_of s user_id) + count_rows (earnings_of s user_id)) s)"

definition reviews_of :: "shop \<Rightarrow> string \<Rightarrow> review list" where
  "reviews_of s item_name =
     filter (\<lambda>r. case get_goods s (rv_item_id r) of None \<Rightarrow> False | Some g \<Rightarrow> g_name g = item_name) (t_reviews s)"

definition query_item_reviews :: "shop \<Rightarrow> string \<Rightarrow> int \<Rightarrow> int \<Rightarrow> review list result" where
  "query_item_reviews s item_name offset limit = sql_page offset limit (order_by_key (\<lambda>r. - rv_id r) (reviews_of s item_name))"

definition count_item_reviews :: "shop \<Rightarrow> string \<Rightarrow> int" where
  "count_item_reviews s item_name =
     fst (cached_count (''count:reviews:'' @ item_name) (count_rows (reviews_of s item_name)) s)"

subsection \<open>The paginator\<close>

text \<open>\<open>LazyPaginator\<close>; the dictionary of cached pages keeps its keys in insertion order.\<close>

record 'a paginator =
  pgn_per_page :: int
  pgn_cache_pages :: nat
  pgn_cache :: "(int \<times> 'a list) list"
  pgn_total :: "int option"
  pgn_current :: int

definition new_paginator :: "int \<Rightarrow> 'a paginator" where
  "new_paginator per_page = \<lparr>pgn_per_page = per_page, pgn_cache_pages = 3, pgn_cache = [], pgn_total = None, pgn_current = 0\<rparr>"

definition get_total_count :: "int \<Rightarrow> 'a paginator \<Rightarrow> int \<times> 'a paginator" where
  "get_total_count counted p =
     (case pgn_total p of Some n \<Rightarrow> (n, p) | None \<Rightarrow> (counted, p\<lparr>pgn_total := Some counted\<rparr>))"

text \<open>The loop over the keys that were cached when it started.\<close>

fun evict_pages :: "int list \<Rightarrow> nat \<Rightarrow> int list \<Rightarrow> (int \<times> 'a) list \<Rightarrow> (int \<times> 'a) list" where
  "evict_pages keep n [] d = d"
| "evict_pages keep n (k # ks) d =
     evict_pages keep n ks (if k \<notin> set keep \<and> n < length d then filter (\<lambda>(k', _). k' \<noteq> k) d else d)"

definition get_page :: "(int \<Rightarrow> int \<Rightarrow> 'a list result) \<Rightarrow> int \<Rightarrow> 'a paginator \<Rightarrow> ('a list \<times> 'a paginator) result" where
  "get_page query page p =
     (let p1 = p\<lparr>pgn_current := page\<rparr>
      in case map_of (pgn_cache p1) page of
           Some items \<Rightarrow> Inr (items, p1)
         | None \<Rightarrow>
             tx_bind (query (page * pgn_per_page p1) (pgn_per_page p1)) (\<lambda>items.
               let d = pgn_cache p1 @ [(page, items)];
                   d1 = (if pgn_cache_pages p1 < length d
                         then evict_pages [page - 1, page, page + 1] (pgn_cache_pages p1) (map fst d) d else d)
               in Inr (items, p1\<lparr>pgn_cache := d1\<rparr>)))"

definition get_total_pages :: "int \<Rightarrow> 'a paginator \<Rightarrow> int \<times> 'a paginator" where
  "get_total_pages counted p =
     (let (total, p1) = get_total_count counted p in (max 1 ((total + pgn_per_page p1 - 1) div pgn_per_page p1), p1))"

definition clear_cache :: "'a paginator \<Rightarrow> 'a paginator" where
  "clear_cache p = p\<lparr>pgn_cache := [], pgn_total := None\<rparr>"

text \<open>The row of page buttons: the pages behind the two arrows, and the label; no row for one page.\<close>

definition nav_row :: "int \<Rightarrow> int \<Rightarrow> (int option \<times> (int \<times> int) \<times> int option) option" where
  "nav_row page total_pages =
     (if 1 < total_pages
      then Some (if 0 < page then Some (page - 1) else None, (page + 1, total_pages),
                 if page < total_pages - 1 then Some (page + 1) else None)
      else None)"

definition lazy_paginated_keyboard ::
    "(int \<Rightarrow> int \<Rightarrow> 'a list result) \<Rightarrow> int \<Rightarrow> int \<Rightarrow> 'a paginator \<Rightarrow>
     (('a list \<times> (int option \<times> (int \<times> int) \<times> int option) option) \<times> 'a paginator) result" where
  "lazy_paginated_keyboard query counted page p =
     tx_bind (get_page query page p) (\<lambda>(items, p1).
       let (total_pages, p2) = get_total_pages counted p1 in Inr ((items, nav_row page total_pages), p2))"

subsection \<open>The user's orders and operations\<close>

text \<open>The first page of the orders, if there is any order; further pages; the card of an order.\<close>

definition my_orders_handler ::
    "shop \<Rightarrow> int \<Rightarrow> (string + order_row list \<times> (int option \<times> (int \<times> int) \<times> int option) option) result" where
  "my_orders_handler s user_id =
     tx_bind (get_page (query_user_orders s user_id) 0 (new_paginator 8)) (\<lambda>(items, p).
       if items = [] then Inr (Inl ''shop.orders.empty'')
       else tx_bind (lazy_paginated_keyboard (query_user_orders s user_id) (count_user_orders s user_id) 0 p)
              (\<lambda>(kb, _). Inr (Inr kb)))"

definition my_orders_page_handler ::
    "shop \<Rightarrow> int \<Rightarrow> string \<Rightarrow> (string + order_row list \<times> (int option \<times> (int \<times> int) \<times> int option) option) result" where
  "my_orders_page_handler s user_id cb =
     (case parse_after 12 cb of None \<Rightarrow> Inr (Inl ''errors.invalid_data'')
      | Some page \<Rightarrow>
          tx_bind (lazy_paginated_keyboard (query_user_orders s user_id) (count_user_orders s user_id) page (new_paginator 8))
            (\<lambda>(kb, _). Inr (Inr kb)))"

record order_card =
  oc_order :: order
  oc_goods_name :: string
  oc_note :: "string option"
  oc_delivery :: "int option"

definition order_detail_handler :: "shop \<Rightarrow> int \<Rightarrow> string \<Rightarrow> string + order_card" where
  "order_detail_handler s user_id cb =
     (case parse_after 9 cb of None \<Rightarrow> Inl ''errors.invalid_data''
      | Some order_id \<Rightarrow>
         (case List.find (\<lambda>x. o_id x = order_id \<and> o_user_id x = user_id \<and> get_goods s (o_goods_id x) \<noteq> None) (t_orders s) of
            None \<Rightarrow> Inl ''shop.orders.not_found''
          | Some x \<Rightarrow>
             (let bought = (if o_status x = COMPLETED then List.find (\<lambda>b. bg_order_id b = Some (o_id x)) (t_bought s) else None)
              in Inr \<lparr>oc_order = x, oc_goods_name = g_name (the (get_goods s (o_goods_id x))),
                   oc_note = (if bought \<noteq> None then Some ''shop.orders.detail_delivered''
                     else if o_status x \<in> {PROCESSING, CREATED} then Some ''shop.orders.detail_pending''
                     else if o_status x = FAILED then Some ''shop.orders.detail_failed''
                     else if o_status x = REFUNDED then Some ''shop.orders.detail_refunded''
                     else if o_status x = EXPIRED then Some ''shop.orders.detail_expired'' else None),
                   oc_delivery = map_option bg_id bought\<rparr>)))"

definition history_key :: "string \<Rightarrow> string option" where
  "history_key t = map_of [(''topup'', ''history.topup''), (''purchase'', ''history.purchase''), (''referral'', ''history.referral'')] t"

text \<open>\<open>_show_operations_page\<close>: the amounts are shown as they are stored, in kopecks.\<close>

definition show_operations_page ::
    "shop \<Rightarrow> int \<Rightarrow> int \<Rightarrow> (string + (string option \<times> int \<times> int) list \<times> int option \<times> (int \<times> int) option \<times> int option) result" where
  "show_operations_page s user_id page =
     tx_bind (get_page (query_user_operations_history s user_id) page (new_paginator 10)) (\<lambda>(items, p).
       let (total_pages, _) = get_total_pages (count_user_operations_history s user_id) p
       in if items = [] then Inr (Inl ''history.empty'')
          else Inr (Inr (map (\<lambda>r. (history_key (hr_type r), hr_amount r, hr_date r)) items,
                 if 0 < page then Some (page - 1) else None,
                 if 1 < total_pages then Some (page + 1, total_pages) else None,
                 if page < total_pages - 1 then Some (page + 1) else None)))"

definition navigate_operations ::
    "shop \<Rightarrow> int \<Rightarrow> string \<Rightarrow> (string + (string option \<times> int \<times> int) list \<times> int option \<times> (int \<times> int) option \<times> int option) result" where
  "navigate_operations s user_id cb =
     (case parse_int (hd (tl (split_on CHR ''_'' cb))) of Inl _ \<Rightarrow> Inr (Inl ''errors.pagination_invalid'')
      | Inr page \<Rightarrow> show_operations_page s user_id page)"

subsection \<open>The contract of a paginated source\<close>

text \<open>
  A reader who starts at the first page and keeps pressing the arrow of the navigation row; the arrow
  is missing on the last page.
\<close>

definition total_pages_of :: "int \<Rightarrow> int \<Rightarrow> int" where
  "total_pages_of per pages = max 1 ((pages + per - 1) div per)"

function read_on :: "(int \<Rightarrow> 'a list result) \<Rightarrow> int \<Rightarrow> int \<Rightarrow> 'a list result" where
  "read_on page_of total_pages page =
     tx_bind (page_of page) (\<lambda>items.
       case nav_row page total_pages of
         Some (_, _, Some next_page) \<Rightarrow>
           (if next_page < total_pages \<and> page < next_page
            then tx_bind (read_on page_of total_pages next_page) (\<lambda>rest. Inr (items @ rest)) else Inr items)
       | _ \<Rightarrow> Inr items)"
  by pat_completeness auto

termination
  by (relation "measure (\<lambda>(_, total_pages, page). nat (total_pages - page))") auto

declare read_on.simps [simp del]

text \<open>The guard of the recursion always holds: the arrow leads to the next page, and never past the last.\<close>

lemma nav_next:
  "nav_row page pages = Some (a, b, Some n) \<Longrightarrow> n = page + 1 \<and> n < pages \<and> page < n"
  by (auto simp: nav_row_def split: if_splits)

lemma read_on_step:
  "read_on f pages page = tx_bind (f page) (\<lambda>items.
     if page + 1 < pages \<and> 1 < pages then tx_bind (read_on f pages (page + 1)) (\<lambda>rest. Inr (items @ rest)) else Inr items)"
  by (subst read_on.simps) (auto simp: nav_row_def intro!: arg_cong [where f = "tx_bind (f page)"] ext)

lemma take_drop_append: "take k xs @ take m (drop k xs) = take (k + m) xs"
  by (simp add: take_add)

locale page_source =
  fixes query :: "int \<Rightarrow> int \<Rightarrow> 'a list result" and rows :: "'a list"
  assumes query_page: "0 \<le> offset \<Longrightarrow> 0 \<le> limit \<Longrightarrow> query offset limit = Inr (take (nat limit) (drop (nat offset) rows))"
begin

lemma read_from:
  assumes "0 < per" "0 \<le> page" "page < total_pages_of per counted"
  shows "read_on (\<lambda>p. query (p * per) per) (total_pages_of per counted) page =
    Inr (take (nat ((total_pages_of per counted - page) * per)) (drop (nat (page * per)) rows))"
  using assms(2,3)
proof (induction "nat (total_pages_of per counted - page)" arbitrary: page rule: less_induct)
  case less
  let ?t = "total_pages_of per counted"
  have q: "query (page * per) per = Inr (take (nat per) (drop (nat (page * per)) rows))"
    using query_page less.prems assms(1) by simp
  show ?case
  proof (cases "page + 1 < ?t")
    case True
    have e: "nat ((page + 1) * per) = nat per + nat (page * per)"
      using less.prems assms(1) by (simp add: distrib_right nat_add_distrib)
    have "0 \<le> (?t - (page + 1)) * per" using True assms(1) by (intro mult_nonneg_nonneg) simp_all
    moreover have "(?t - page) * per = per + (?t - (page + 1)) * per" by (simp add: algebra_simps)
    ultimately have l: "nat ((?t - page) * per) = nat per + nat ((?t - (page + 1)) * per)"
      using assms(1) by (simp add: nat_add_distrib)
    have "read_on (\<lambda>p. query (p * per) per) ?t (page + 1) =
        Inr (take (nat ((?t - (page + 1)) * per)) (drop (nat ((page + 1) * per)) rows))"
      using True less.prems by (intro less.hyps) auto
    moreover have "1 < ?t" using True less.prems by simp
    ultimately have "read_on (\<lambda>p. query (p * per) per) ?t page =
        Inr (take (nat per) (drop (nat (page * per)) rows) @
          take (nat ((?t - (page + 1)) * per)) (drop (nat per) (drop (nat (page * per)) rows)))"
      using True q e by (subst read_on_step) (simp add: tx_bind_def)
    then show ?thesis unfolding l by (simp only: take_drop_append)
  next
    case False
    then have "?t - page = 1" using less.prems by simp
    then show ?thesis using False q by (subst read_on_step) (simp add: tx_bind_def)
  qed
qed

text \<open>
  Reading on from the first page gives the first rows, in order, as many as the counted pages hold; all of
  them when there are not more rows than were counted.
\<close>

lemma read_counted:
  assumes "0 < per"
  shows "read_on (\<lambda>p. query (p * per) per) (total_pages_of per counted) 0 = Inr (take (nat (total_pages_of per counted * per)) rows)"
proof -
  have "0 < total_pages_of per counted" by (simp add: total_pages_of_def)
  from read_from [OF assms _ this] show ?thesis by simp
qed

lemma counted_pages:
  assumes "0 < per"
  shows "counted \<le> total_pages_of per counted * per"
proof -
  have "counted + per - 1 = (counted + per - 1) div per * per + (counted + per - 1) mod per" by simp
  moreover have "(counted + per - 1) mod per < per" using assms by simp
  moreover have "(counted + per - 1) div per * per \<le> total_pages_of per counted * per"
    using assms by (intro mult_right_mono) (simp_all add: total_pages_of_def)
  ultimately show ?thesis by linarith
qed

lemma read_all:
  assumes "0 < per" "int (length rows) \<le> counted"
  shows "read_on (\<lambda>p. query (p * per) per) (total_pages_of per counted) 0 = Inr rows"
proof -
  have "int (length rows) \<le> total_pages_of per counted * per" using counted_pages [OF assms(1), of counted] assms(2) by simp
  then have "length rows \<le> nat (total_pages_of per counted * per)" by simp
  then show ?thesis using read_counted [OF assms(1), of counted] by simp
qed

end

text \<open>Every page of a paginator, cached or not, is the page the query gives.\<close>

definition cache_ok :: "(int \<Rightarrow> int \<Rightarrow> 'a list result) \<Rightarrow> 'a paginator \<Rightarrow> bool" where
  "cache_ok query p \<longleftrightarrow> distinct (map fst (pgn_cache p)) \<and>
     (\<forall>(page, items) \<in> set (pgn_cache p). query (page * pgn_per_page p) (pgn_per_page p) = Inr items) \<and>
     length (pgn_cache p) \<le> max 3 (pgn_cache_pages p)"

lemma evict_pages_subset: "set (evict_pages keep n ks d) \<subseteq> set d"
  by (induction keep n ks d rule: evict_pages.induct) (auto split: if_splits)

lemma distinct_fst_filter: "distinct (map fst d) \<Longrightarrow> distinct (map fst (filter P d))"
  by (induction d) auto

lemma evict_pages_distinct: "distinct (map fst d) \<Longrightarrow> distinct (map fst (evict_pages keep n ks d))"
  by (induction keep n ks d rule: evict_pages.induct) (auto simp: distinct_fst_filter)

lemma evict_pages_bound:
  assumes "distinct (map fst d)" "fst ` set d \<subseteq> set ks \<union> set keep" 
  shows "length (evict_pages keep n ks d) \<le> max (length keep) n"
  using assms
proof (induction keep n ks d rule: evict_pages.induct)
  case (1 keep n d)
  have "length d = card (fst ` set d)" using 1(1) by (metis distinct_card length_map set_map)
  also have "\<dots> \<le> card (set keep)" using 1(2) by (intro card_mono) auto
  also have "\<dots> \<le> length keep" by (rule card_length)
  finally show ?case by simp
next
  case (2 keep n k ks d)
  show ?case
  proof (cases "k \<notin> set keep \<and> n < length d")
    case True
    have "distinct (map fst (filter (\<lambda>(k', _). k' \<noteq> k) d))" by (rule distinct_fst_filter [OF 2(2)])
    moreover have "fst ` set (filter (\<lambda>(k', _). k' \<noteq> k) d) \<subseteq> set ks \<union> set keep" using 2(3) by auto
    ultimately show ?thesis using 2(1) True by simp
  next
    case False
    show ?thesis
    proof (cases "k \<in> set keep")
      case True
      then have "fst ` set d \<subseteq> set ks \<union> set keep" using 2(3) by auto
      then show ?thesis using 2 False by auto
    next
      case f: False
      have "length (evict_pages keep n ks d) \<le> length d"
        using evict_pages_subset [of keep n ks d] 2(2) evict_pages_distinct [OF 2(2), of keep n ks]
        by (metis (no_types, lifting) List.finite_set card_mono distinct_card distinct_map)
      also have "\<dots> \<le> n" using f False by simp
      finally show ?thesis using False by (auto intro: max.coboundedI2)
    qed
  qed
qed

lemma get_page_query:
  assumes ok: "cache_ok query p" and per: "pgn_per_page p = per"
  shows "tx_bind (get_page query page p) (\<lambda>(items, _). Inr items) = query (page * per) per"
    and "get_page query page p = Inr (items, p') \<Longrightarrow> cache_ok query p' \<and> pgn_per_page p' = per"
proof -
  show "tx_bind (get_page query page p) (\<lambda>(items, _). Inr items) = query (page * per) per"
    using assms by (auto simp: get_page_def Let_def cache_ok_def tx_bind_def dest!: map_of_SomeD split: option.split sum.split)
  assume g: "get_page query page p = Inr (items, p')"
  show "cache_ok query p' \<and> pgn_per_page p' = per"
  proof (cases "map_of (pgn_cache p) page")
    case None
    let ?d = "pgn_cache p @ [(page, items)]"
    have q: "query (page * per) per = Inr items" and p': "p' = p\<lparr>pgn_current := page, pgn_cache :=
        (if pgn_cache_pages p < length ?d then evict_pages [page - 1, page, page + 1] (pgn_cache_pages p) (map fst ?d) ?d
         else ?d)\<rparr>"
      using g None per by (auto simp: get_page_def Let_def tx_simps)
    have "page \<notin> fst ` set (pgn_cache p)" using None by (simp add: map_of_eq_None_iff)
    then have d: "distinct (map fst ?d)" using ok by (auto simp: cache_ok_def)
    have all: "\<forall>(page, items) \<in> set ?d. query (page * per) per = Inr items"
      using ok q per by (auto simp: cache_ok_def)
    have b: "length (evict_pages [page - 1, page, page + 1] (pgn_cache_pages p) (map fst ?d) ?d) \<le> max 3 (pgn_cache_pages p)"
    proof -
      have "fst ` set ?d \<subseteq> set (map fst ?d) \<union> set [page - 1, page, page + 1]" by auto
      from evict_pages_bound [OF d this, of "pgn_cache_pages p"] show ?thesis by (simp add: numeral_3_eq_3)
    qed
    show ?thesis
      using d all b per evict_pages_subset [of "[page - 1, page, page + 1]" "pgn_cache_pages p" "map fst ?d" ?d]
        evict_pages_distinct [OF d, of "[page - 1, page, page + 1]" "pgn_cache_pages p" "map fst ?d"]
      by (auto simp: p' cache_ok_def)
  qed (use g ok per in \<open>auto simp: get_page_def Let_def cache_ok_def\<close>)
qed

subsection \<open>Every row is listed once\<close>

text \<open>Every render makes a new paginator; the reader follows the arrow until it is missing.\<close>

definition read_list :: "(int \<Rightarrow> int \<Rightarrow> 'a list result) \<Rightarrow> int \<Rightarrow> int \<Rightarrow> 'a list result" where
  "read_list query counted per =
     read_on (\<lambda>p. tx_bind (get_page query p (new_paginator per)) (\<lambda>(items, _). Inr items))
       (fst (get_total_pages counted (new_paginator per :: 'a paginator))) 0"

lemma new_paginator_ok: "cache_ok query (new_paginator per)"
  by (simp add: cache_ok_def new_paginator_def)

lemma read_list_eq:
  fixes query :: "int \<Rightarrow> int \<Rightarrow> 'a list result"
  shows "read_list query counted per = read_on (\<lambda>p. query (p * per) per) (total_pages_of per counted) 0"
proof -
  have "fst (get_total_pages counted (new_paginator per :: 'a paginator)) = total_pages_of per counted"
    by (simp add: get_total_pages_def get_total_count_def new_paginator_def total_pages_of_def)
  moreover have "tx_bind (get_page query p (new_paginator per)) (\<lambda>(items, _). Inr items) = query (p * per) per" for p
    by (rule get_page_query(1) [OF new_paginator_ok]) (simp add: new_paginator_def)
  ultimately show ?thesis by (simp add: read_list_def)
qed

text \<open>
  The rows read are the first ones of the selection in some fixed order, as many as the counted pages hold,
  and all of them unless the count is behind.
\<close>

definition listed_once :: "(int \<Rightarrow> int \<Rightarrow> 'a list result) \<Rightarrow> int \<Rightarrow> int \<Rightarrow> 'a list \<Rightarrow> bool" where
  "listed_once query counted per selection \<longleftrightarrow> (\<exists>rows. mset rows = mset selection \<and>
     read_list query counted per = Inr (take (nat (total_pages_of per counted * per)) rows) \<and>
     (int (length selection) \<le> counted \<longrightarrow> read_list query counted per = Inr rows))"

context page_source
begin

lemma listed_once_rows:
  assumes "0 < per" "mset rows = mset selection"
  shows "listed_once query counted per selection"
proof -
  have "length rows = length selection" by (rule mset_eq_length [OF assms(2)])
  then show ?thesis
    using read_counted [OF assms(1), of counted] read_all [OF assms(1), of counted] assms(2)
    unfolding listed_once_def read_list_eq by (intro exI [of _ rows]) simp
qed

end

lemma mset_order_by_key [simp]: "mset (order_by_key key rows) = mset rows"
  by (simp add: order_by_key_def)

text \<open>Every unit of a product, on sale or not.\<close>

definition units_of :: "shop \<Rightarrow> string \<Rightarrow> item_value list" where
  "units_of s n = (case goods_id_by_name s n of None \<Rightarrow> []
     | Some item_id \<Rightarrow> filter (\<lambda>v. iv_item_id v = item_id) (t_item_values s))"

lemma sql_page_source:
  assumes "\<And>offset limit. 0 \<le> offset \<Longrightarrow> 0 \<le> limit \<Longrightarrow> query offset limit = sql_page offset limit rows"
  shows "page_source query rows"
  using assms by unfold_locales (simp add: sql_page_def)

interpretation category_pages: page_source "query_categories s" "categories_rows s" for s
  by (rule sql_page_source) (simp add: query_categories_def)

interpretation item_pages: page_source "query_items_in_category s cat"
    "case cat of None \<Rightarrow> [] | Some c \<Rightarrow> order_by_key id (map g_name (filter (\<lambda>g. g_category_id g = c_id c) (t_goods s)))" for s cat
  by unfold_locales (auto simp: query_items_in_category_def sql_page_def split: option.split)

interpretation search_pages: page_source "query_goods_search s q"
    "let t = strip (case q of None \<Rightarrow> [] | Some t \<Rightarrow> t) in if t = [] then [] else order_by_key id (search_hits s t)" for s q
  by unfold_locales (simp add: query_goods_search_def sql_page_def Let_def)

interpretation order_pages: page_source "query_user_orders s u" "user_orders_rows s u" for s u
  by (rule sql_page_source) (simp add: query_user_orders_def)

interpretation bought_pages: page_source "query_user_bought_items s u"
    "order_by_key (\<lambda>b. - bg_datetime b) (order_by_key (\<lambda>b. - bg_id b) (bought_of s u))" for s u
  by (rule sql_page_source) (simp add: query_user_bought_items_def)

interpretation user_pages: page_source "query_all_users s" "order_by_key id (map u_id (t_users s))" for s
  by (rule sql_page_source) (simp add: query_all_users_def)

interpretation unit_pages: page_source "query_items_in_position s n" "order_by_key id (map iv_id (units_of s n))" for s n
  by unfold_locales (auto simp: query_items_in_position_def units_of_def order_by_key_def sql_page_def split: option.split)

interpretation referral_pages: page_source "query_user_referrals s u"
    "order_by_key (\<lambda>(_, _, total). - total) (order_by_key fst
       (map (\<lambda>r. (u_id r, u_registration_date r, earned_from s u (u_id r))) (referrals_of s u)))" for s u
  by (rule sql_page_source) (simp add: query_user_referrals_def)

interpretation earning_from_pages: page_source "query_referral_earnings_from_user s u v"
    "newest_earnings (earnings_from s u v)" for s u v
  by (rule sql_page_source) (simp add: query_referral_earnings_from_user_def)

interpretation earning_pages: page_source "query_all_referral_earnings s u" "newest_earnings (earnings_of s u)" for s u
  by (rule sql_page_source) (simp add: query_all_referral_earnings_def)

interpretation promo_pages: page_source "query_promo_codes s"
    "map (\<lambda>p. (p, dangling p)) (order_by_key (\<lambda>p. - pc_id p) (t_promos s))" for s
  by (rule sql_page_source) (simp add: query_promo_codes_def)

interpretation history_pages: page_source "query_user_operations_history s u"
    "order_by_key (\<lambda>r. - hr_date r) (order_by_key hr_type (order_by_key (\<lambda>r. - hr_id r)
       (history_topups s u @ history_purchases s u @ history_referrals s u)))" for s u
  by (rule sql_page_source) (simp add: query_user_operations_history_def)

interpretation review_pages: page_source "query_item_reviews s n"
    "order_by_key (\<lambda>r. - rv_id r) (reviews_of s n)" for s n
  by (rule sql_page_source) (simp add: query_item_reviews_def)

text \<open>An order joins its product, which a foreign key keeps in the table.\<close>

definition orders_have_goods :: "shop \<Rightarrow> bool" where
  "orders_have_goods s \<longleftrightarrow> list_all (\<lambda>x. get_goods s (o_goods_id x) \<noteq> None) (t_orders s)"

lemma map_filter_all: "list_all (\<lambda>x. f x \<noteq> None) xs \<Longrightarrow> List.map_filter f xs = map (\<lambda>x. the (f x)) xs"
  by (induction xs) (auto simp: List.map_filter_simps)

lemma user_orders_ids:
  assumes "orders_have_goods s"
  shows "mset (map orow_id (user_orders_rows s u)) = mset (map o_id (filter (\<lambda>x. o_user_id x = u) (t_orders s)))"
proof -
  let ?mine = "filter (\<lambda>x. o_user_id x = u) (t_orders s)"
  have "list_all (\<lambda>x. order_row_of s x \<noteq> None) ?mine"
    using assms by (auto simp: orders_have_goods_def list_all_iff order_row_of_def)
  then have mf: "List.map_filter (order_row_of s) ?mine = map (\<lambda>x. the (order_row_of s x)) ?mine" by (rule map_filter_all)
  have id: "orow_id (the (order_row_of s x)) = o_id x" if "x \<in> set ?mine" for x
    using that assms by (auto simp: orders_have_goods_def list_all_iff order_row_of_def)
  have "mset (map orow_id (user_orders_rows s u)) = mset (map orow_id (map (\<lambda>x. the (order_row_of s x)) ?mine))"
    unfolding user_orders_rows_def mf by (simp add: multiset.map_comp)
  also have "map orow_id (map (\<lambda>x. the (order_row_of s x)) ?mine) = map o_id ?mine" using id by simp
  finally show ?thesis .
qed

text \<open>The walk over the pages shows exactly the selected rows, each of them once, whatever the page size.\<close>


subsection \<open>Searching\<close>

lemma py_replace_char: "py_replace [c] new s = concat (map (\<lambda>x. if x = c then new else [x]) s)"
  unfolding py_replace_def by (induction s) (auto simp: starts_with_def)

definition escape_char :: "char \<Rightarrow> string" where
  "escape_char x = (if x \<in> {CHR ''%'', CHR ''_'', CHR 0x5C} then [CHR 0x5C, x] else [x])"

lemma search_pattern_eq: "search_pattern q = ''%'' @ concat (map escape_char q) @ ''%''"
proof -
  have "concat (map (\<lambda>x. if x = CHR ''_'' then CHR 0x5C # ''_'' else [x])
      (concat (map (\<lambda>x. if x = CHR ''%'' then CHR 0x5C # ''%'' else [x])
        (concat (map (\<lambda>x. if x = CHR 0x5C then [CHR 0x5C, CHR 0x5C] else [x]) q))))) = concat (map escape_char q)"
    by (induction q) (auto simp: escape_char_def)
  then show ?thesis by (simp add: search_pattern_def py_replace_char)
qed

lemma lower_append: "lower (xs @ ys) = lower xs @ lower ys"
  by (simp add: lower_def)

lemma lower_Cons: "lower (x # xs) = char_lower x # lower xs"
  by (simp add: lower_def)

lemma shifted_letter:
  assumes "65 \<le> (of_char x :: nat)" "of_char x \<le> (90 :: nat)" "of_char c < (97 :: nat)"
  shows "char_of (of_char x + 32 :: nat) \<noteq> c"
proof
  assume "char_of (of_char x + 32 :: nat) = c"
  then have "of_char (char_of (of_char x + 32 :: nat)) = (of_char c :: nat)" by simp
  then show False using assms by simp
qed

lemma lower_escaped: "lower (concat (map escape_char q)) = concat (map escape_char (lower q))"
proof (induction q)
  case (Cons x q)
  have "lower (escape_char x) = escape_char (char_lower x)"
    by (auto simp: escape_char_def lower_def char_lower_def Let_def shifted_letter)
  with Cons show ?case by (simp add: lower_append lower_def)
qed (simp add: lower_def)

lemma like_percent_all: "like ''%'' t"
  by (induction t) auto

lemma like_escaped: "like (concat (map escape_char q) @ ps) t \<longleftrightarrow> (\<exists>rest. t = q @ rest \<and> like ps rest)"
proof (induction q arbitrary: t)
  case (Cons x q)
  then show ?case by (cases t) (auto simp: escape_char_def)
qed simp

lemma like_percent: "like (CHR ''%'' # ps) t \<longleftrightarrow> (\<exists>a b. t = a @ b \<and> like ps b)"
proof (induction t)
  case Nil
  then show ?case by auto
next
  case (Cons x t)
  show ?case
  proof
    assume "like (CHR ''%'' # ps) (x # t)"
    then have "like ps (x # t) \<or> like (CHR ''%'' # ps) t" by simp
    then show "\<exists>a b. x # t = a @ b \<and> like ps b"
      using Cons by (metis append_Cons append_Nil)
  next
    assume "\<exists>a b. x # t = a @ b \<and> like ps b"
    then obtain a b where ab: "x # t = a @ b" "like ps b" by blast
    show "like (CHR ''%'' # ps) (x # t)" using ab Cons by (cases a) auto
  qed
qed

lemma starts_with_rest: "starts_with p t \<longleftrightarrow> (\<exists>rest. t = p @ rest)"
  by (auto simp: starts_with_def intro: exI [of _ "drop (length p) t"]) (metis append_take_drop_id)

lemma contains_append: "contains p t \<longleftrightarrow> (\<exists>a b. t = a @ p @ b)"
proof (induction t)
  case (Cons x t)
  show ?case
    using Cons by (auto simp: starts_with_rest Cons_eq_append_conv)
qed simp

text \<open>
  The search finds the products whose name or description contains the trimmed query, in any case of
  letters; percent signs, underscores and backslashes in it stand for themselves.
\<close>

theorem search_finds_substrings:
  "ilike (search_pattern q) t \<longleftrightarrow> contains (lower q) (lower t)"
proof -
  have "lower (search_pattern q) = CHR ''%'' # concat (map escape_char (lower q)) @ ''%''"
    by (simp add: search_pattern_eq lower_append lower_escaped lower_Cons) (simp add: char_lower_def lower_def)
  then show ?thesis
    by (auto simp: ilike_def like_percent like_escaped contains_append simp del: like.simps(2))
qed

subsection \<open>Concrete lists\<close>


text \<open>A count that the cache still holds hides the users who came since.\<close>

lemma old_count_hides_rows:
  "read_list (query_all_users (sample_shop\<lparr>t_counts := Some [(''count:users'', 1)]\<rparr>))
     (count_all_users (sample_shop\<lparr>t_counts := Some [(''count:users'', 1)]\<rparr>)) 1 = Inr [1]"
proof -
  let ?s = "sample_shop\<lparr>t_counts := Some [(''count:users'', 1)]\<rparr>"
  have c: "count_all_users ?s = 1" by code_simp
  have q: "query_all_users ?s 0 1 = Inr [1]" by code_simp
  show ?thesis unfolding c read_list_eq
    by (subst read_on_step) (simp add: total_pages_of_def q)
qed

text \<open>
  The list of a position's units counts only those on sale but pages over all of them: with one unit
  reserved, the last units are never reached.
\<close>

definition reserved_unit_shop :: shop where
  "reserved_unit_shop = sample_shop\<lparr>t_item_values :=
     [(sample_value 4 3 ''k1'')\<lparr>iv_status := RESERVED\<rparr>, sample_value 5 3 ''k2'', sample_value 8 3 ''k3'']\<rparr>"

lemma position_list_misses_units:
  "read_list (query_items_in_position reserved_unit_shop ''key'') (count_items_in_position reserved_unit_shop ''key'') 2 = Inr [4, 5]"
proof -
  have c: "count_items_in_position reserved_unit_shop ''key'' = 2" by code_simp
  have q: "query_items_in_position reserved_unit_shop ''key'' 0 2 = Inr [4, 5]" by code_simp
  show ?thesis unfolding c read_list_eq
    by (subst read_on_step) (simp add: total_pages_of_def q)
qed

end
