(* ===== verification/Cache.thy ===== *)
theory Cache
  imports Listing
begin

text \<open>
  The cache: \<open>CacheManager\<close> and \<open>single_flight\<close> of \<open>misc/caching/cache.py\<close>, the invalidation helpers of
  \<open>database/methods/read.py\<close> and the periodic sweeps of \<open>misc/caching/cache_scheduler.py\<close>.  Redis is
  outside the source: it holds texts under keys, and every command consumes one outcome of a plan:
  it is served, it is lost on the way (with or without its effect), or it raises something else.
  Entries may expire at any time.  The patterns of the source are literal texts and stars.
\<close>

subsection \<open>Redis\<close>

datatype outcome = Served | Unreachable bool | Raised

text \<open>
  The commands that delete or search for keys to delete have a plan of their own (\<open>rd_drops\<close>); as both plans
  are arbitrary, so is the order of the outcomes over all commands.
\<close>

record redis =
  rd_data :: "(string \<times> string) list"
  rd_plan :: "outcome list"
  rd_drops :: "outcome list"

definition next_outcome :: "redis \<Rightarrow> outcome \<times> redis" where
  "next_outcome r = (case rd_plan r of [] \<Rightarrow> (Served, r) | x # xs \<Rightarrow> (x, r\<lparr>rd_plan := xs\<rparr>))"

definition next_drop :: "redis \<Rightarrow> outcome \<times> redis" where
  "next_drop r = (case rd_drops r of [] \<Rightarrow> (Served, r) | x # xs \<Rightarrow> (x, r\<lparr>rd_drops := xs\<rparr>))"

text \<open>A command that changes the data: whether its effect took place, and how the call ended.\<close>

definition apply_outcome ::
    "((string \<times> string) list \<Rightarrow> (string \<times> string) list) \<Rightarrow> outcome \<Rightarrow> redis \<Rightarrow> redis" where
  "apply_outcome f x r =
     (case x of Served \<Rightarrow> r\<lparr>rd_data := f (rd_data r)\<rparr>
      | Unreachable applied \<Rightarrow> if applied then r\<lparr>rd_data := f (rd_data r)\<rparr> else r
      | Raised \<Rightarrow> r)"

definition redis_set :: "((string \<times> string) list \<Rightarrow> (string \<times> string) list) \<Rightarrow> redis \<Rightarrow> outcome \<times> redis" where
  "redis_set f r = (let (x, r1) = next_outcome r in (x, apply_outcome f x r1))"

definition redis_drop :: "((string \<times> string) list \<Rightarrow> (string \<times> string) list) \<Rightarrow> redis \<Rightarrow> outcome \<times> redis" where
  "redis_drop f r = (let (x, r1) = next_drop r in (x, apply_outcome f x r1))"

fun glob :: "string \<Rightarrow> string \<Rightarrow> bool" where
  "glob [] t = (t = [])"
| "glob (p # ps) t =
     (if p = CHR ''*'' then glob ps t \<or> (case t of [] \<Rightarrow> False | _ # ts \<Rightarrow> glob (p # ps) ts)
      else (case t of [] \<Rightarrow> False | x # ts \<Rightarrow> x = p \<and> glob ps ts))"

subsection \<open>The manager\<close>

record cache_manager =
  cm_redis :: redis
  cm_hits :: nat
  cm_misses :: nat
  cm_healthy :: bool
  cm_pending_deletes :: "string list"
  cm_pending_patterns :: "string list"
  cm_pending_overflow :: bool

definition PENDING_CAP :: nat where "PENDING_CAP = 5000"

definition KNOWN_PREFIXES :: "string list" where
  "KNOWN_PREFIXES = [''user:'', ''auth:role:'', ''category:'', ''category_items:'', ''item_info:'', ''item_values:'',
     ''item_infinite:'', ''avg_rating:'', ''user_count:'', ''admin_count:'', ''count:'', ''stats:'']"

definition init_cache_manager :: "redis \<Rightarrow> cache_manager" where
  "init_cache_manager r = \<lparr>cm_redis = r, cm_hits = 0, cm_misses = 0, cm_healthy = True, cm_pending_deletes = [],
     cm_pending_patterns = [], cm_pending_overflow = False\<rparr>"

text \<open>A set of keys is a list without repetitions.\<close>

definition defer_delete :: "string \<Rightarrow> cache_manager \<Rightarrow> cache_manager" where
  "defer_delete key c =
     (if PENDING_CAP \<le> length (cm_pending_deletes c) then c\<lparr>cm_pending_overflow := True\<rparr>
      else c\<lparr>cm_pending_deletes := List.insert key (cm_pending_deletes c)\<rparr>)"

definition defer_pattern :: "string \<Rightarrow> cache_manager \<Rightarrow> cache_manager" where
  "defer_pattern pattern c =
     (if PENDING_CAP \<le> length (cm_pending_patterns c) then c\<lparr>cm_pending_overflow := True\<rparr>
      else c\<lparr>cm_pending_patterns := List.insert pattern (cm_pending_patterns c)\<rparr>)"

text \<open>\<open>get\<close>; \<open>decode\<close> parses the stored JSON text.\<close>

definition cache_get :: "(string \<Rightarrow> 'v option) \<Rightarrow> string \<Rightarrow> cache_manager \<Rightarrow> 'v option \<times> cache_manager" where
  "cache_get decode key c =
     (if \<not> cm_healthy c then (None, c\<lparr>cm_misses := cm_misses c + 1\<rparr>)
      else (let (x, r) = next_outcome (cm_redis c); c1 = c\<lparr>cm_redis := r\<rparr>
            in case x of
                 Served \<Rightarrow> (case map_of (rd_data r) key of
                     None \<Rightarrow> (None, c1\<lparr>cm_misses := cm_misses c + 1\<rparr>)
                   | Some t \<Rightarrow> (decode t, c1\<lparr>cm_hits := cm_hits c + 1\<rparr>))
               | Unreachable _ \<Rightarrow> (None, c1\<lparr>cm_healthy := False\<rparr>)
               | Raised \<Rightarrow> (None, c1)))"

definition cache_set :: "string \<Rightarrow> string \<Rightarrow> cache_manager \<Rightarrow> bool \<times> cache_manager" where
  "cache_set key serialized c =
     (if \<not> cm_healthy c then (False, c)
      else (let (x, r) = redis_set (AList.update key serialized) (cm_redis c); c1 = c\<lparr>cm_redis := r\<rparr>
            in case x of Served \<Rightarrow> (True, c1) | Unreachable _ \<Rightarrow> (False, c1\<lparr>cm_healthy := False\<rparr>)
               | Raised \<Rightarrow> (False, c1)))"

definition without_keys :: "string list \<Rightarrow> (string \<times> string) list \<Rightarrow> (string \<times> string) list" where
  "without_keys keys d = filter (\<lambda>(k, _). k \<notin> set keys) d"

definition cache_delete :: "string \<Rightarrow> cache_manager \<Rightarrow> bool \<times> cache_manager" where
  "cache_delete key c =
     (if \<not> cm_healthy c then (False, defer_delete key c)
      else (let (x, r) = redis_drop (without_keys [key]) (cm_redis c); c1 = c\<lparr>cm_redis := r\<rparr>
            in case x of Served \<Rightarrow> (True, c1) | Unreachable _ \<Rightarrow> (False, defer_delete key (c1\<lparr>cm_healthy := False\<rparr>))
               | Raised \<Rightarrow> (False, c1)))"

definition cache_delete_many :: "string list \<Rightarrow> cache_manager \<Rightarrow> bool \<times> cache_manager" where
  "cache_delete_many keys c =
     (if keys = [] then (True, c)
      else if \<not> cm_healthy c then (False, fold defer_delete keys c)
      else (let (x, r) = redis_drop (without_keys keys) (cm_redis c); c1 = c\<lparr>cm_redis := r\<rparr>
            in case x of Served \<Rightarrow> (True, c1)
               | Unreachable _ \<Rightarrow> (False, fold defer_delete keys (c1\<lparr>cm_healthy := False\<rparr>))
               | Raised \<Rightarrow> (False, c1)))"

text \<open>The scan, and the deletion of the keys it found, if any.\<close>

definition without_pattern :: "string \<Rightarrow> (string \<times> string) list \<Rightarrow> (string \<times> string) list" where
  "without_pattern pattern d = filter (\<lambda>(k, _). \<not> glob pattern k) d"

definition invalidate_pattern :: "string \<Rightarrow> cache_manager \<Rightarrow> cache_manager" where
  "invalidate_pattern pattern c =
     (if \<not> cm_healthy c then defer_pattern pattern c
      else (let (x, r) = next_drop (cm_redis c); c1 = c\<lparr>cm_redis := r\<rparr>
            in case x of
                 Unreachable _ \<Rightarrow> defer_pattern pattern (c1\<lparr>cm_healthy := False\<rparr>)
               | Raised \<Rightarrow> c1
               | Served \<Rightarrow>
                  (if \<not> list_ex (\<lambda>(k, _). glob pattern k) (rd_data r) then c1
                   else (let (y, r2) = redis_drop (without_pattern pattern) r; c2 = c\<lparr>cm_redis := r2\<rparr>
                         in case y of Served \<Rightarrow> c2 | Raised \<Rightarrow> c2
                            | Unreachable _ \<Rightarrow> defer_pattern pattern (c2\<lparr>cm_healthy := False\<rparr>)))))"

definition replay_pending :: "cache_manager \<Rightarrow> cache_manager" where
  "replay_pending c =
     (if cm_pending_overflow c
      then fold (\<lambda>prefix. invalidate_pattern (prefix @ ''*'')) KNOWN_PREFIXES
             (c\<lparr>cm_pending_overflow := False, cm_pending_deletes := [], cm_pending_patterns := []\<rparr>)
      else fold invalidate_pattern (cm_pending_patterns c)
             (snd (cache_delete_many (cm_pending_deletes c) (c\<lparr>cm_pending_deletes := [], cm_pending_patterns := []\<rparr>))))"

definition check_health :: "cache_manager \<Rightarrow> bool \<times> cache_manager" where
  "check_health c =
     (let (x, r) = next_outcome (cm_redis c); c1 = c\<lparr>cm_redis := r\<rparr>
      in case x of
           Served \<Rightarrow> (True, if \<not> cm_healthy c \<or> cm_pending_deletes c \<noteq> [] \<or> cm_pending_patterns c \<noteq> [] \<or> cm_pending_overflow c
                             then replay_pending (c1\<lparr>cm_healthy := True\<rparr>) else c1)
         | _ \<Rightarrow> (False, c1\<lparr>cm_healthy := False\<rparr>))"

text \<open>
  \<open>single_flight\<close> for a caller who meets no other: look up, compute, store.  \<open>compute\<close> gives the result
  and its JSON text (\<open>None\<close> for a result that is not stored).
\<close>

definition single_flight ::
    "(string \<Rightarrow> 'v option) \<Rightarrow> string \<Rightarrow> 'v \<times> string option \<Rightarrow> cache_manager \<Rightarrow> 'v \<times> cache_manager" where
  "single_flight decode key computed c =
     (let (hit, c1) = cache_get decode key c
      in case hit of Some v \<Rightarrow> (v, c1)
         | None \<Rightarrow>
            (let (hit2, c2) = cache_get decode key c1
             in case hit2 of Some v \<Rightarrow> (v, c2)
                | None \<Rightarrow> (fst computed, case snd computed of None \<Rightarrow> c2 | Some t \<Rightarrow> snd (cache_set key t c2))))"

subsection \<open>Invalidation\<close>

definition user_cache_keys :: "int \<Rightarrow> string list" where
  "user_cache_keys user_id = map (\<lambda>p. p @ show_int user_id) [''user:'', ''auth:role:'', ''count:bought:'', ''count:ops:'']"

definition item_cache_keys :: "string \<Rightarrow> string option \<Rightarrow> string list" where
  "item_cache_keys item_name category_name =
     map (\<lambda>p. p @ item_name) [''item_info:'', ''item_values:'', ''item_infinite:'', ''avg_rating:'', ''count:reviews:'', ''count:stock:'']
     @ (if truthy_str category_name
        then [''category:'' @ the category_name, ''category_items:'' @ the category_name @ '':count''] else [])"

definition category_cache_keys :: "string \<Rightarrow> string list" where
  "category_cache_keys category_name =
     [''category:'' @ category_name, ''categories:count'', ''category_items:'' @ category_name @ '':count'']"

text \<open>\<open>today_local\<close> and \<open>today_utc\<close> are the ISO dates of the two clocks.\<close>

definition stats_cache_keys :: "string \<Rightarrow> string \<Rightarrow> string list" where
  "stats_cache_keys today_local today_utc =
     [''stats:daily:'' @ today_local, ''stats:daily:'' @ today_utc, ''user_count:'', ''admin_count:'']"

definition rating_cache_keys :: "string \<Rightarrow> string list" where
  "rating_cache_keys item_name = [''avg_rating:'' @ item_name, ''count:reviews:'' @ item_name]"

text \<open>What a scheduled task of the shop does to the cache.\<close>

definition run_cache_task :: "string \<Rightarrow> string \<Rightarrow> bg_task \<Rightarrow> cache_manager \<Rightarrow> cache_manager" where
  "run_cache_task today_local today_utc t c =
     (case t of
        InvalidateUserCache u \<Rightarrow> snd (cache_delete_many (user_cache_keys u) c)
      | InvalidateItemCache n cat \<Rightarrow> snd (cache_delete_many (item_cache_keys n cat) c)
      | InvalidateCategoryCache n \<Rightarrow> snd (cache_delete_many (category_cache_keys n) c)
      | InvalidateStatsCache \<Rightarrow> snd (cache_delete_many (stats_cache_keys today_local today_utc) c)
      | DropRoleCache u \<Rightarrow> snd (cache_delete (''auth:role:'' @ show_int u) c)
      | FlushRoleCaches \<Rightarrow> invalidate_pattern ''auth:role:*'' c
      | _ \<Rightarrow> c)"

text \<open>One round of the hourly and of the daily sweep.\<close>

definition hourly_sweep :: "cache_manager \<Rightarrow> cache_manager" where
  "hourly_sweep c =
     snd (cache_delete ''admin_count:'' (snd (cache_delete ''user_count:'' (invalidate_pattern ''stats:*'' c))))"

definition CATALOG_PREFIXES :: "string list" where
  "CATALOG_PREFIXES = [''item_info:'', ''item_values:'', ''item_infinite:'', ''avg_rating:'', ''category:'', ''category_items:'']"

definition daily_sweep :: "cache_manager \<Rightarrow> cache_manager" where
  "daily_sweep c = fold (\<lambda>prefix. invalidate_pattern (prefix @ ''*'')) CATALOG_PREFIXES c"

text \<open>Seconds until the next three o'clock, of a moment given as seconds of its day.\<close>

definition cleanup_wait :: "rat \<Rightarrow> rat" where
  "cleanup_wait second_of_day =
     (if 3 * 3600 \<le> second_of_day then 3 * 3600 + 24 * 3600 - second_of_day else 3 * 3600 - second_of_day)"

subsection \<open>What may be served\<close>

text \<open>
  The contract, over everything that happens to the cache: readers look up, compute and store
  (\<open>single_flight\<close> in its steps: its lock only keeps readers of one key from computing at once),
  transactions change the value of a key, helpers invalidate, the health check runs, entries expire.
  \<open>cw_current k\<close> is the text that computing \<open>k\<close> gives now; \<open>cw_flight\<close> holds what readers have computed and
  not yet stored.  \<open>cw_fresh k\<close> are the texts computed since the last invalidation of \<open>k\<close>, or held by a reader
  at that moment; \<open>cw_settled k\<close>: every change of \<open>k\<close> was followed by an invalidation at which no reader held
  an older text.
\<close>

record cache_world =
  cw_cache :: cache_manager
  cw_current :: "string \<Rightarrow> string"
  cw_flight :: "(int \<times> string \<times> string) list"
  cw_fresh :: "string \<Rightarrow> string set"
  cw_settled :: "string \<Rightarrow> bool"

datatype cache_op =
    CacheGet string
  | CacheCompute int string
  | CacheStore int
  | CacheGiveUp int
  | CacheChange string string
  | CacheDelete string
  | CacheDeleteMany "string list"
  | CachePattern string
  | CacheHealth
  | CacheExpire string

definition with_cache :: "(cache_manager \<Rightarrow> cache_manager) \<Rightarrow> cache_world \<Rightarrow> cache_world" where
  "with_cache f w = w\<lparr>cw_cache := f (cw_cache w)\<rparr>"

definition held :: "cache_world \<Rightarrow> string \<Rightarrow> string list" where
  "held w k = [t. (_, k', t) \<leftarrow> cw_flight w, k' = k]"

definition invalidated :: "(string \<Rightarrow> bool) \<Rightarrow> cache_world \<Rightarrow> cache_world" where
  "invalidated gone w = w\<lparr>
     cw_fresh := \<lambda>k. if gone k then set (held w k) else cw_fresh w k,
     cw_settled := \<lambda>k. if gone k then list_all (\<lambda>t. t = cw_current w k) (held w k) else cw_settled w k\<rparr>"

definition landed :: "int \<Rightarrow> cache_world \<Rightarrow> cache_world" where
  "landed i w = w\<lparr>cw_flight := filter (\<lambda>f. fst f \<noteq> i) (cw_flight w)\<rparr>"

fun cache_step :: "cache_op \<Rightarrow> cache_world \<Rightarrow> cache_world" where
  "cache_step (CacheGet k) w = with_cache (\<lambda>c. snd (cache_get Some k c)) w"
| "cache_step (CacheCompute i k) w = w\<lparr>cw_flight := (i, k, cw_current w k) # cw_flight w,
     cw_fresh := (cw_fresh w)(k := insert (cw_current w k) (cw_fresh w k))\<rparr>"
| "cache_step (CacheStore i) w =
     (case map_of (cw_flight w) i of None \<Rightarrow> w
      | Some (k, t) \<Rightarrow> landed i (with_cache (\<lambda>c. snd (cache_set k t c)) w))"
| "cache_step (CacheGiveUp i) w = landed i w"
| "cache_step (CacheChange k t) w = w\<lparr>cw_current := (cw_current w)(k := t), cw_settled := (cw_settled w)(k := False)\<rparr>"
| "cache_step (CacheDelete k) w = invalidated (\<lambda>k'. k' = k) (with_cache (\<lambda>c. snd (cache_delete k c)) w)"
| "cache_step (CacheDeleteMany ks) w = invalidated (\<lambda>k. k \<in> set ks) (with_cache (\<lambda>c. snd (cache_delete_many ks c)) w)"
| "cache_step (CachePattern p) w = invalidated (glob p) (with_cache (invalidate_pattern p) w)"
| "cache_step CacheHealth w = with_cache (\<lambda>c. snd (check_health c)) w"
| "cache_step (CacheExpire k) w =
     with_cache (\<lambda>c. c\<lparr>cm_redis := (cm_redis c)\<lparr>rd_data := without_keys [k] (rd_data (cm_redis c))\<rparr>\<rparr>) w"

text \<open>The start of the program, with whatever Redis holds.\<close>

definition start_world :: "redis \<Rightarrow> (string \<Rightarrow> string) \<Rightarrow> cache_world" where
  "start_world r current = \<lparr>cw_cache = init_cache_manager r, cw_current = current, cw_flight = [],
     cw_fresh = (\<lambda>k. set [t. (k', t) \<leftarrow> rd_data r, k' = k]),
     cw_settled = (\<lambda>k. list_all (\<lambda>(k', t). k' = k \<longrightarrow> t = current k) (rd_data r))\<rparr>"

text \<open>A lonely reader of \<open>single_flight\<close> takes these steps.\<close>

lemma single_flight_steps:
  assumes "fst (cache_get Some k (cw_cache w)) = None" "fst (cache_get Some k (snd (cache_get Some k (cw_cache w)))) = None"
    and "\<forall>f \<in> set (cw_flight w). fst f \<noteq> i"
  shows "single_flight Some k (cw_current w k, Some (cw_current w k)) (cw_cache w) =
    (cw_current w k, cw_cache (fold cache_step [CacheGet k, CacheGet k, CacheCompute i k, CacheStore i] w))"
  using assms by (simp add: single_flight_def with_cache_def landed_def split_def Let_def)

text \<open>The keys that the replay after an overflow reaches.\<close>

definition known_key :: "string \<Rightarrow> bool" where
  "known_key k \<longleftrightarrow> list_ex (\<lambda>p. starts_with p k) KNOWN_PREFIXES"

lemma glob_literal: "CHR ''*'' \<notin> set q \<Longrightarrow> glob (q @ p) k \<longleftrightarrow> (\<exists>r. k = q @ r \<and> glob p r)"
proof (induction q arbitrary: k)
  case (Cons c q)
  then show ?case by (cases k) auto
qed simp

lemma glob_star: "glob ''*'' k"
  by (induction k) auto

lemma prefix_no_star: "p \<in> set KNOWN_PREFIXES \<Longrightarrow> CHR ''*'' \<notin> set p"
  by (auto simp: KNOWN_PREFIXES_def)

lemma glob_known_prefix: "p \<in> set KNOWN_PREFIXES \<Longrightarrow> glob (p @ ''*'') k \<longleftrightarrow> starts_with p k"
  using glob_literal [OF prefix_no_star] by (simp add: glob_star starts_with_rest del: glob.simps)

subsection \<open>The invariant\<close>

text \<open>What is said of one key: an entry is fresh, or an invalidation of the key is deferred.\<close>

definition covered :: "cache_manager \<Rightarrow> string \<Rightarrow> bool" where
  "covered c k \<longleftrightarrow> k \<in> set (cm_pending_deletes c) \<or> (\<exists>p \<in> set (cm_pending_patterns c). glob p k) \<or> cm_pending_overflow c"

definition nothing_pending :: "cache_manager \<Rightarrow> bool" where
  "nothing_pending c \<longleftrightarrow> cm_pending_deletes c = [] \<and> cm_pending_patterns c = [] \<and> \<not> cm_pending_overflow c"

text \<open>\<open>todo\<close>: a replay in progress is still going to invalidate the key.\<close>

definition cache_inv :: "string \<Rightarrow> bool \<Rightarrow> cache_manager \<Rightarrow> string set \<Rightarrow> bool" where
  "cache_inv k todo c fresh \<longleftrightarrow>
     (cm_healthy c \<longrightarrow> nothing_pending c) \<and> Raised \<notin> set (rd_drops (cm_redis c)) \<and>
     (\<forall>t. (k, t) \<in> set (rd_data (cm_redis c)) \<longrightarrow> t \<in> fresh \<or> covered c k \<or> todo)"

lemma cache_inv_weaken:
  "cache_inv k todo c fresh \<Longrightarrow> fresh \<subseteq> fresh' \<Longrightarrow> (todo \<Longrightarrow> todo') \<Longrightarrow> cache_inv k todo' c fresh'"
  unfolding cache_inv_def by blast

lemma next_drop_cases:
  assumes "Raised \<notin> set (rd_drops r)"
  obtains (served) r' where "next_drop r = (Served, r')" "rd_data r' = rd_data r" "Raised \<notin> set (rd_drops r')"
  | (lost) b r' where "next_drop r = (Unreachable b, r')" "rd_data r' = rd_data r" "Raised \<notin> set (rd_drops r')"
proof (cases "rd_drops r")
  case Nil
  then show thesis using assms served by (simp add: next_drop_def)
next
  case (Cons x xs)
  then show thesis using assms served lost by (cases x) (auto simp: next_drop_def)
qed

lemma defer_delete_facts:
  "covered c k \<Longrightarrow> covered (defer_delete key c) k" "covered (defer_delete key c) key"
  "cm_redis (defer_delete key c) = cm_redis c" "cm_healthy (defer_delete key c) = cm_healthy c"
  by (auto simp: defer_delete_def covered_def)

lemma defer_pattern_facts:
  "covered c k \<Longrightarrow> covered (defer_pattern p c) k" "glob p k \<Longrightarrow> covered (defer_pattern p c) k"
  "cm_redis (defer_pattern p c) = cm_redis c" "cm_healthy (defer_pattern p c) = cm_healthy c"
  by (auto simp: defer_pattern_def covered_def)

lemma fold_defer_facts:
  "covered c k \<or> k \<in> set keys \<Longrightarrow> covered (fold defer_delete keys c) k"
  "cm_redis (fold defer_delete keys c) = cm_redis c" "cm_healthy (fold defer_delete keys c) = cm_healthy c"
  by (induction keys arbitrary: c) (auto simp: defer_delete_facts)

lemma cache_delete_single: "cache_delete key c = cache_delete_many [key] c"
  by (simp add: cache_delete_def cache_delete_many_def Let_def split: prod.split outcome.split)

lemma covered_healthy: "covered (c\<lparr>cm_redis := r\<rparr>) k = covered c k" "covered (c\<lparr>cm_healthy := h\<rparr>) k = covered c k"
  by (simp_all add: covered_def)

text \<open>The two ways an invalidation can end, of keys among which \<open>k\<close> is or is not: deferred, or carried out.\<close>

lemma inv_deferred:
  assumes "cache_inv k todo c fresh" "\<not> cm_healthy c'" "Raised \<notin> set (rd_drops (cm_redis c'))"
    "set (rd_data (cm_redis c')) \<subseteq> set (rd_data (cm_redis c))" "covered c k \<or> gone \<Longrightarrow> covered c' k"
  shows "cache_inv k (todo \<and> \<not> gone) c' (if gone then {} else fresh)"
  using assms unfolding cache_inv_def by auto

lemma inv_done:
  assumes "cache_inv k todo c fresh" "cm_healthy c" "Raised \<notin> set (rd_drops r)"
    and "\<And>t. (k, t) \<in> set (rd_data r) \<Longrightarrow> (k, t) \<in> set (rd_data (cm_redis c)) \<and> \<not> gone"
  shows "cache_inv k (todo \<and> \<not> gone) (c\<lparr>cm_redis := r\<rparr>) (if gone then {} else fresh)"
  using assms unfolding cache_inv_def by (auto simp: nothing_pending_def covered_healthy)

text \<open>A deletion takes its keys off the list of what is left to do, whether Redis answers or not.\<close>

lemma delete_many_inv:
  assumes inv: "cache_inv k todo c fresh"
  shows "cache_inv k (todo \<and> k \<notin> set keys) (snd (cache_delete_many keys c)) (if k \<in> set keys then {} else fresh)"
proof (cases "keys = []")
  case False
  have nr: "Raised \<notin> set (rd_drops (cm_redis c))" using inv by (simp add: cache_inv_def)
  have deferred: "cache_inv k (todo \<and> k \<notin> set keys) (fold defer_delete keys (c\<lparr>cm_redis := r, cm_healthy := False\<rparr>))
      (if k \<in> set keys then {} else fresh)"
    if "set (rd_data r) \<subseteq> set (rd_data (cm_redis c))" "Raised \<notin> set (rd_drops r)" for r
    by (intro inv_deferred [OF inv]) (use that in \<open>simp_all add: fold_defer_facts covered_healthy\<close>)
  show ?thesis
  proof (cases "cm_healthy c")
    case unhealthy: False
    then have same: "c\<lparr>cm_redis := cm_redis c, cm_healthy := False\<rparr> = c" by simp
    then show ?thesis using deferred [of "cm_redis c", unfolded same] nr False unhealthy by (simp add: cache_delete_many_def)
  next
    case True
    from nr show ?thesis
    proof (cases rule: next_drop_cases)
      case (served r')
      then have "cache_inv k (todo \<and> k \<notin> set keys) (c\<lparr>cm_redis := r'\<lparr>rd_data := without_keys keys (rd_data r')\<rparr>\<rparr>)
          (if k \<in> set keys then {} else fresh)"
        using True by (intro inv_done [OF inv]) (auto simp: without_keys_def)
      then show ?thesis using served False True by (simp add: cache_delete_many_def redis_drop_def apply_outcome_def)
    next
      case (lost b r')
      then show ?thesis
        using deferred [of "if b then r'\<lparr>rd_data := without_keys keys (rd_data r')\<rparr> else r'"] False True
        by (auto simp: cache_delete_many_def redis_drop_def apply_outcome_def without_keys_def split: if_splits)
    qed
  qed
qed (use inv in \<open>simp add: cache_delete_many_def\<close>)

lemma pattern_inv:
  assumes inv: "cache_inv k todo c fresh"
  shows "cache_inv k (todo \<and> \<not> glob p k) (invalidate_pattern p c) (if glob p k then {} else fresh)"
proof -
  have nr: "Raised \<notin> set (rd_drops (cm_redis c))" using inv by (simp add: cache_inv_def)
  have deferred: "cache_inv k (todo \<and> \<not> glob p k) (defer_pattern p (c\<lparr>cm_redis := r, cm_healthy := False\<rparr>))
      (if glob p k then {} else fresh)"
    if "set (rd_data r) \<subseteq> set (rd_data (cm_redis c))" "Raised \<notin> set (rd_drops r)" for r
    by (intro inv_deferred [OF inv]) (use that in \<open>auto simp: defer_pattern_facts covered_healthy\<close>)
  show ?thesis
  proof (cases "cm_healthy c")
    case False
    then have same: "c\<lparr>cm_redis := cm_redis c, cm_healthy := False\<rparr> = c" by simp
    then show ?thesis using deferred [of "cm_redis c", unfolded same] nr False by (simp add: invalidate_pattern_def)
  next
    case True
    from nr show ?thesis
    proof (cases rule: next_drop_cases)
      case (served r)
      show ?thesis
      proof (cases "list_ex (\<lambda>(k, _). glob p k) (rd_data r)")
        case False
        then have "cache_inv k (todo \<and> \<not> glob p k) (c\<lparr>cm_redis := r\<rparr>) (if glob p k then {} else fresh)"
          using served True by (intro inv_done [OF inv]) (auto simp: list_ex_iff)
        then show ?thesis using served False True by (simp add: invalidate_pattern_def)
      next
        case hit: True
        from served(3) show ?thesis
        proof (cases rule: next_drop_cases)
          case s2: (served r')
          have "cache_inv k (todo \<and> \<not> glob p k) (c\<lparr>cm_redis := r'\<lparr>rd_data := without_pattern p (rd_data r')\<rparr>\<rparr>)
              (if glob p k then {} else fresh)"
            using served s2 True by (intro inv_done [OF inv]) (auto simp: without_pattern_def)
          then show ?thesis using served s2 hit True by (simp add: invalidate_pattern_def redis_drop_def apply_outcome_def)
        next
          case l2: (lost b r')
          then show ?thesis
            using deferred [of "if b then r'\<lparr>rd_data := without_pattern p (rd_data r')\<rparr> else r'"] served hit True
            by (auto simp: invalidate_pattern_def redis_drop_def apply_outcome_def without_pattern_def split: if_splits)
        qed
      qed
    next
      case (lost b r)
      then show ?thesis using deferred [of r] True by (simp add: invalidate_pattern_def)
    qed
  qed
qed

lemma patterns_inv:
  assumes "cache_inv k todo c fresh"
  shows "cache_inv k (todo \<and> (\<forall>p \<in> set ps. \<not> glob p k)) (fold invalidate_pattern ps c) fresh"
  using assms
proof (induction ps arbitrary: c todo)
  case (Cons p ps)
  have "cache_inv k (todo \<and> \<not> glob p k) (invalidate_pattern p c) fresh"
    using pattern_inv [OF Cons.prems(1), of p] by (rule cache_inv_weaken) (auto split: if_splits)
  then have "cache_inv k ((todo \<and> \<not> glob p k) \<and> (\<forall>q \<in> set ps. \<not> glob q k))
      (fold invalidate_pattern ps (invalidate_pattern p c)) fresh"
    by (rule Cons.IH)
  then show ?case by (simp add: conj_assoc)
qed simp

subsection \<open>No stale answer\<close>

text \<open>A replay reaches the key, unless the queue overflowed and the key has none of the known prefixes.\<close>

lemma replay_inv:
  assumes inv: "cache_inv k False c fresh" and reach: "cm_pending_overflow c \<Longrightarrow> known_key k"
  shows "cache_inv k False (replay_pending (c\<lparr>cm_healthy := True\<rparr>)) fresh"
proof -
  let ?c = "c\<lparr>cm_healthy := True, cm_pending_overflow := False, cm_pending_deletes := [], cm_pending_patterns := []\<rparr>"
  have start: "cache_inv k (covered c k) ?c fresh" using inv by (auto simp: cache_inv_def nothing_pending_def)
  show ?thesis
  proof (cases "cm_pending_overflow c")
    case True
    let ?ps = "map (\<lambda>q. q @ ''*'') KNOWN_PREFIXES"
    have "\<exists>p \<in> set ?ps. glob p k" using reach [OF True] glob_known_prefix by (auto simp: known_key_def list_ex_iff)
    then have "cache_inv k False (fold invalidate_pattern ?ps ?c) fresh"
      by (intro cache_inv_weaken [OF patterns_inv [OF start, of ?ps]]) blast+
    then show ?thesis using True by (simp add: replay_pending_def fold_map comp_def)
  next
    case False
    have "cache_inv k (covered c k \<and> k \<notin> set (cm_pending_deletes c)) (snd (cache_delete_many (cm_pending_deletes c) ?c)) fresh"
      using delete_many_inv [OF start] by (rule cache_inv_weaken) (auto split: if_splits)
    from patterns_inv [OF this, of "cm_pending_patterns c"]
    have "cache_inv k False (fold invalidate_pattern (cm_pending_patterns c) (snd (cache_delete_many (cm_pending_deletes c) ?c))) fresh"
      by (rule cache_inv_weaken) (use False in \<open>auto simp: covered_def\<close>)
    moreover have "?c = c\<lparr>cm_healthy := True, cm_pending_deletes := [], cm_pending_patterns := []\<rparr>"
      using False by (cases c) simp
    ultimately show ?thesis using False by (simp add: replay_pending_def)
  qed
qed

text \<open>Reading and storing leave what is pending alone.\<close>

lemma inv_frame:
  assumes inv: "cache_inv k todo c fresh"
    and "cm_pending_deletes c' = cm_pending_deletes c" "cm_pending_patterns c' = cm_pending_patterns c"
    "cm_pending_overflow c' = cm_pending_overflow c" "cm_healthy c' \<Longrightarrow> cm_healthy c"
    "rd_drops (cm_redis c') = rd_drops (cm_redis c)"
    and "\<And>t. (k, t) \<in> set (rd_data (cm_redis c')) \<Longrightarrow> (k, t) \<in> set (rd_data (cm_redis c)) \<or> t \<in> fresh'"
    and "fresh \<subseteq> fresh'"
  shows "cache_inv k todo c' fresh'"
  using assms unfolding cache_inv_def nothing_pending_def covered_def by auto

lemma next_outcome_keeps:
  "next_outcome r = (x, r') \<Longrightarrow> rd_data r' = rd_data r \<and> rd_drops r' = rd_drops r"
  by (auto simp: next_outcome_def split: list.splits)

lemma cache_get_keeps:
  "cm_pending_deletes (snd (cache_get decode k c)) = cm_pending_deletes c \<and>
   cm_pending_patterns (snd (cache_get decode k c)) = cm_pending_patterns c \<and>
   cm_pending_overflow (snd (cache_get decode k c)) = cm_pending_overflow c \<and>
   (cm_healthy (snd (cache_get decode k c)) \<longrightarrow> cm_healthy c) \<and>
   rd_drops (cm_redis (snd (cache_get decode k c))) = rd_drops (cm_redis c) \<and>
   rd_data (cm_redis (snd (cache_get decode k c))) = rd_data (cm_redis c)"
proof -
  obtain x r' where n: "next_outcome (cm_redis c) = (x, r')" by fastforce
  show ?thesis
    using next_outcome_keeps [OF n]
    by (cases "cm_healthy c"; cases x; cases "map_of (rd_data r') k") (simp_all add: cache_get_def n)
qed

lemma set_update_subset: "set (AList.update k t d) \<subseteq> insert (k, t) (set d)"
  by (induction d) auto

lemma cache_set_keeps:
  "cm_pending_deletes (snd (cache_set k t c)) = cm_pending_deletes c \<and>
   cm_pending_patterns (snd (cache_set k t c)) = cm_pending_patterns c \<and>
   cm_pending_overflow (snd (cache_set k t c)) = cm_pending_overflow c \<and>
   (cm_healthy (snd (cache_set k t c)) \<longrightarrow> cm_healthy c) \<and>
   rd_drops (cm_redis (snd (cache_set k t c))) = rd_drops (cm_redis c) \<and>
   set (rd_data (cm_redis (snd (cache_set k t c)))) \<subseteq> insert (k, t) (set (rd_data (cm_redis c)))"
proof -
  obtain x r' where n: "next_outcome (cm_redis c) = (x, r')" by fastforce
  have u: "set (AList.update k t (rd_data r')) \<subseteq> insert (k, t) (set (rd_data (cm_redis c)))"
    using set_update_subset [of k t "rd_data r'"] next_outcome_keeps [OF n] by simp
  show ?thesis
    using next_outcome_keeps [OF n] u
    by (cases "cm_healthy c"; cases x) (auto simp: cache_set_def redis_set_def apply_outcome_def n)
qed

lemma check_health_inv:
  assumes inv: "cache_inv k False c fresh" and reach: "cm_pending_overflow c \<Longrightarrow> known_key k"
  shows "cache_inv k False (snd (check_health c)) fresh"
proof -
  obtain x r where n: "next_outcome (cm_redis c) = (x, r)" by fastforce
  have i: "cache_inv k False (c\<lparr>cm_redis := r\<rparr>) fresh"
    using inv next_outcome_keeps [OF n] by (auto simp: cache_inv_def nothing_pending_def covered_def)
  have u: "cache_inv k False (c\<lparr>cm_redis := r, cm_healthy := False\<rparr>) fresh"
    using i by (auto simp: cache_inv_def covered_def)
  show ?thesis
    using replay_inv [OF i] reach i u n by (cases x) (auto simp: check_health_def Let_def)
qed

text \<open>The invariant of the whole: for one key, and for what its readers hold.\<close>

definition world_inv :: "string \<Rightarrow> cache_world \<Rightarrow> bool" where
  "world_inv k w \<longleftrightarrow> cache_inv k False (cw_cache w) (cw_fresh w k) \<and>
     set (held w k) \<subseteq> cw_fresh w k \<and>
     (cw_settled w k \<longrightarrow> cw_fresh w k \<subseteq> {cw_current w k})"

lemma held_simps [simp]:
  "held (w\<lparr>cw_cache := c\<rparr>) k = held w k" "held (w\<lparr>cw_fresh := f\<rparr>) k = held w k"
  "held (w\<lparr>cw_settled := b\<rparr>) k = held w k" "held (w\<lparr>cw_current := m\<rparr>) k = held w k"
  by (simp_all add: held_def)

lemma held_mem: "t \<in> set (held w k) \<longleftrightarrow> (\<exists>i. (i, k, t) \<in> set (cw_flight w))"
  by (auto simp: held_def)

lemma world_inv_cache:
  "world_inv k w \<Longrightarrow> cache_inv k False (f (cw_cache w)) (cw_fresh w k) \<Longrightarrow> world_inv k (with_cache f w)"
  by (simp add: world_inv_def with_cache_def)

lemma world_inv_landed: "world_inv k w \<Longrightarrow> world_inv k (landed i w)"
  by (auto simp: world_inv_def landed_def held_mem subset_iff)

lemma world_inv_invalidated:
  assumes "world_inv k w" "cache_inv k (False \<and> \<not> gone k) (f (cw_cache w)) (if gone k then {} else cw_fresh w k)"
  shows "world_inv k (invalidated gone (with_cache f w))"
proof -
  have "cache_inv k False (f (cw_cache w)) (if gone k then set (held w k) else cw_fresh w k)"
    by (rule cache_inv_weaken [OF assms(2)]) auto
  then show ?thesis using assms(1) by (auto simp: world_inv_def invalidated_def with_cache_def list_all_iff)
qed

lemma cache_step_inv:
  assumes inv: "world_inv k w" and reach: "cm_pending_overflow (cw_cache w) \<Longrightarrow> known_key k"
  shows "world_inv k (cache_step x w)"
proof (cases x)
  case (CacheGet k')
  have "cache_inv k False (snd (cache_get Some k' (cw_cache w))) (cw_fresh w k)"
    by (rule inv_frame [of k False "cw_cache w" "cw_fresh w k"])
      (use cache_get_keeps [of Some k' "cw_cache w"] inv in \<open>auto simp: world_inv_def\<close>)
  then show ?thesis using inv CacheGet by (simp add: world_inv_cache)
next
  case (CacheCompute i k')
  have "cache_inv k False (cw_cache w) (insert t (cw_fresh w k))" for t
    using inv by (auto simp: world_inv_def elim: cache_inv_weaken)
  then show ?thesis using inv CacheCompute by (auto simp: world_inv_def held_mem subset_iff)
next
  case (CacheStore i)
  show ?thesis
  proof (cases "map_of (cw_flight w) i")
    case (Some kt)
    obtain k' t where kt: "kt = (k', t)" by fastforce
    have "(i, k', t) \<in> set (cw_flight w)" using Some kt by (auto dest: map_of_SomeD)
    then have t: "k' = k \<Longrightarrow> t \<in> cw_fresh w k" using inv by (auto simp: world_inv_def held_mem subset_iff)
    have "cache_inv k False (snd (cache_set k' t (cw_cache w))) (cw_fresh w k)"
      by (rule inv_frame [of k False "cw_cache w" "cw_fresh w k"])
        (use cache_set_keeps [of k' t "cw_cache w"] inv t in \<open>auto simp: world_inv_def\<close>)
    then show ?thesis using inv CacheStore Some kt by (simp add: world_inv_landed world_inv_cache)
  qed (use inv CacheStore in simp)
next
  case (CacheGiveUp i)
  then show ?thesis using inv by (simp add: world_inv_landed)
next
  case (CacheChange k' t)
  then show ?thesis using inv by (auto simp: world_inv_def)
next
  case (CacheDelete k')
  have "cache_inv k (False \<and> \<not> k = k') (snd (cache_delete k' (cw_cache w))) (if k = k' then {} else cw_fresh w k)"
    using delete_many_inv [of k False "cw_cache w" "cw_fresh w k" "[k']"] inv
    by (auto simp: cache_delete_single world_inv_def split: if_splits)
  then show ?thesis using CacheDelete world_inv_invalidated [OF inv, of "\<lambda>x. x = k'"] by simp
next
  case (CacheDeleteMany ks)
  have "cache_inv k (False \<and> k \<notin> set ks) (snd (cache_delete_many ks (cw_cache w))) (if k \<in> set ks then {} else cw_fresh w k)"
    using delete_many_inv [of k False "cw_cache w" "cw_fresh w k" ks] inv by (simp add: world_inv_def)
  then show ?thesis using CacheDeleteMany world_inv_invalidated [OF inv, of "\<lambda>x. x \<in> set ks"] by simp
next
  case (CachePattern p)
  have "cache_inv k (False \<and> \<not> glob p k) (invalidate_pattern p (cw_cache w)) (if glob p k then {} else cw_fresh w k)"
    using pattern_inv [of k False "cw_cache w" "cw_fresh w k" p] inv by (simp add: world_inv_def)
  then show ?thesis using CachePattern world_inv_invalidated [OF inv, of "glob p"] by simp
next
  case CacheHealth
  have "cache_inv k False (snd (check_health (cw_cache w))) (cw_fresh w k)"
    using check_health_inv inv reach by (simp add: world_inv_def)
  then show ?thesis using CacheHealth inv by (simp add: world_inv_cache)
next
  case (CacheExpire k')
  let ?f = "\<lambda>c. c\<lparr>cm_redis := (cm_redis c)\<lparr>rd_data := without_keys [k'] (rd_data (cm_redis c))\<rparr>\<rparr>"
  have "cache_inv k False (?f (cw_cache w)) (cw_fresh w k)"
    by (rule inv_frame [of k False "cw_cache w" "cw_fresh w k"]) (use inv in \<open>auto simp: world_inv_def without_keys_def\<close>)
  then show ?thesis using CacheExpire inv by (simp add: world_inv_cache)
qed

lemma cache_run_inv:
  assumes "world_inv k w" "known_key k \<or> (\<forall>n < length ops. \<not> cm_pending_overflow (cw_cache (fold cache_step (take n ops) w)))"
  shows "world_inv k (fold cache_step ops w)"
  using assms
proof (induction ops arbitrary: w)
  case (Cons x ops)
  have "cm_pending_overflow (cw_cache w) \<Longrightarrow> known_key k" using Cons.prems(2) by (auto dest: spec [of _ 0])
  then have "world_inv k (cache_step x w)" using Cons.prems(1) by (rule cache_step_inv [rotated])
  moreover have "known_key k \<or> (\<forall>n < length ops. \<not> cm_pending_overflow (cw_cache (fold cache_step (take n ops) (cache_step x w))))"
    using Cons.prems(2) by (auto dest: spec [of _ "Suc _"])
  ultimately show ?case using Cons.IH by simp
qed simp

text \<open>
  Whatever Redis does - lost commands, lost replies, outages and recoveries, overflowing queues - a
  read is answered with a text computed since the last invalidation of its key, or by a reader who was
  at work at that moment.
\<close>


subsection \<open>The keys the program invalidates\<close>

text \<open>Every key of the helpers lies under a prefix that the recovery replays, except \<open>categories:count\<close>.\<close>

lemma starts_with_self: "starts_with p (p @ r)"
  by (auto simp: starts_with_rest)

lemma helper_keys_known:
  "list_all known_key (user_cache_keys u)" "list_all known_key (item_cache_keys n cat)"
  "list_all known_key (stats_cache_keys d1 d2)" "list_all known_key (rating_cache_keys n)"
  by (simp_all add: user_cache_keys_def item_cache_keys_def stats_cache_keys_def rating_cache_keys_def known_key_def
      KNOWN_PREFIXES_def starts_with_def)

lemma category_count_unknown:
  "\<not> known_key ''categories:count''" "''categories:count'' \<in> set (category_cache_keys n)"
  by (code_simp, simp add: category_cache_keys_def)

text \<open>After an overflow the count of the categories survives the recovery, although its deletion was requested.\<close>

definition overflown_cache :: cache_manager where
  "overflown_cache = (init_cache_manager \<lparr>rd_data = [(''categories:count'', ''3''), (''category:games'', ''x'')],
       rd_plan = [], rd_drops = []\<rparr>)
     \<lparr>cm_healthy := False, cm_pending_overflow := True\<rparr>"

lemma invalidate_served:
  assumes "cm_healthy c" "rd_drops (cm_redis c) = []"
  shows "invalidate_pattern p c = c\<lparr>cm_redis := (cm_redis c)\<lparr>rd_data := without_pattern p (rd_data (cm_redis c))\<rparr>\<rparr>"
proof -
  have "\<not> list_ex (\<lambda>(k, _). glob p k) d \<Longrightarrow> without_pattern p d = d" for d :: "(string \<times> string) list"
    by (auto simp: without_pattern_def list_ex_iff filter_id_conv)
  then show ?thesis using assms
    by (auto simp: invalidate_pattern_def next_drop_def redis_drop_def apply_outcome_def)
qed

lemma overflow_keeps_category_count:
  "fst (cache_get Some ''categories:count'' (snd (check_health overflown_cache))) = Some ''3''"
  "fst (cache_get Some ''category:games'' (snd (check_health overflown_cache))) = None"
  by (simp_all add: overflown_cache_def init_cache_manager_def check_health_def next_outcome_def replay_pending_def
      KNOWN_PREFIXES_def invalidate_served without_pattern_def cache_get_def)

text \<open>A deletion that ends in an error other than a lost connection is forgotten.\<close>

definition old_user_cache :: "outcome list \<Rightarrow> cache_world" where
  "old_user_cache drops = start_world \<lparr>rd_data = [], rd_plan = [], rd_drops = drops\<rparr> (\<lambda>_. ''old'')"

lemma raised_delete_is_lost:
  "fst (cache_get Some ''user:7'' (cw_cache (fold cache_step [CacheCompute 1 ''user:7'', CacheStore 1,
     CacheChange ''user:7'' ''new'', CacheDelete ''user:7'', CacheHealth] (old_user_cache [Raised])))) = Some ''old''"
  by code_simp

text \<open>
  A reader who computed before a change and stores after the invalidation brings the old text back; it
  stays until it expires.
\<close>

lemma late_store_is_stale:
  "fst (cache_get Some ''user:7'' (cw_cache (fold cache_step [CacheCompute 1 ''user:7'',
     CacheChange ''user:7'' ''new'', CacheDelete ''user:7'', CacheStore 1] (old_user_cache [])))) = Some ''old''"
  by code_simp

text \<open>An outage while a user changes, and the recovery.\<close>

definition outage_run :: "cache_op list" where
  "outage_run = [CacheChange ''user:7'' ''new'', CacheDelete ''user:7'', CacheHealth, CacheCompute 2 ''user:7'', CacheStore 2]"

definition sample_redis :: redis where
  "sample_redis = \<lparr>rd_data = [(''user:7'', ''old'')], rd_plan = [Served, Served, Served], rd_drops = [Unreachable False]\<rparr>"


end
