(* ===== verification/Stats.thy ===== *)
theory Stats
  imports Listing Rate_Limit Cart
begin

text \<open>
  The statistics of \<open>database/methods/read.py\<close> and \<open>misc/caching/stats_cache.py\<close>, the statistics screen of
  \<open>handlers/admin/shop_management.py\<close>, the aggregates of the profile screens and the other small
  queries of \<open>read.py\<close>.  A date is parsed to its day number, a day is the half-open window of its
  seconds; sums are those of the rows inside.
\<close>

subsection \<open>Days\<close>

text \<open>The proleptic calendar of \<open>datetime.date\<close>; day 0 is 1970-01-01.\<close>

definition is_leap :: "int \<Rightarrow> bool" where
  "is_leap y \<longleftrightarrow> y mod 4 = 0 \<and> (y mod 100 \<noteq> 0 \<or> y mod 400 = 0)"

definition days_in_month :: "int \<Rightarrow> int \<Rightarrow> int" where
  "days_in_month y m = (if m = 2 then (if is_leap y then 29 else 28) else if m \<in> {4, 6, 9, 11} then 30 else 31)"

definition day_number :: "int \<Rightarrow> int \<Rightarrow> int \<Rightarrow> int" where
  "day_number y m d =
     (let before = y - 1
      in before * 365 + before div 4 - before div 100 + before div 400 + sum_list (map (days_in_month y) [1 .. m - 1]) + d - 719163)"

text \<open>\<open>strptime(text, "%Y-%m-%d")\<close>: four digits, then one or two for the month and the day.\<close>

definition parse_date :: "string \<Rightarrow> int result" where
  "parse_date text =
     (case split_on CHR ''-'' text of
        [ys, ms, ds] \<Rightarrow>
          if length ys = 4 \<and> length ms \<in> {1, 2} \<and> length ds \<in> {1, 2} \<and> is_digits ys \<and> is_digits ms \<and> is_digits ds
          then (let y = int (the (parse_nat ys)); m = int (the (parse_nat ms)); d = int (the (parse_nat ds))
                in if 1 \<le> y \<and> 1 \<le> m \<and> m \<le> 12 \<and> 1 \<le> d \<and> d \<le> days_in_month y m then Inr (day_number y m d)
                   else Inl (ValueError ''day is out of range''))
          else Inl (ValueError ''strptime'')
      | _ \<Rightarrow> Inl (ValueError ''strptime''))"

definition day_start :: "int \<Rightarrow> int" where
  "day_start n = 86400 * n"

definition day_window :: "string \<Rightarrow> (int \<times> int) result" where
  "day_window date_str = tx_bind (parse_date date_str) (\<lambda>n. Inr (day_start n, day_start (n + 1)))"

definition in_day :: "int \<times> int \<Rightarrow> int \<Rightarrow> bool" where
  "in_day w t \<longleftrightarrow> fst w \<le> t \<and> t < snd w"

subsection \<open>Single figures\<close>

definition select_today_users :: "shop \<Rightarrow> string \<Rightarrow> int result" where
  "select_today_users s date = tx_bind (day_window date) (\<lambda>w.
     Inr (count_rows (filter (\<lambda>u. in_day w (u_registration_date u)) (t_users s))))"

definition get_user_count :: "shop \<Rightarrow> int" where
  "get_user_count s = count_rows (t_users s)"

definition select_admins :: "shop \<Rightarrow> int" where
  "select_admins s = count_rows (filter (\<lambda>u. case Option.bind (u_role_id u) (get_role s) of
     None \<Rightarrow> False | Some r \<Rightarrow> r_permissions r AND NOT USE \<noteq> 0) (t_users s))"

definition get_all_users :: "shop \<Rightarrow> int list" where
  "get_all_users s = map u_id (t_users s)"

text \<open>Roles that are not the default and have users, with the number of their users.\<close>

definition get_roles_with_user_counts :: "shop \<Rightarrow> (string \<times> 32 word \<times> nat) list" where
  "get_roles_with_user_counts s =
     map (\<lambda>r. (r_name r, r_permissions r, count_users_with_role s (r_id r)))
       (order_by_key (\<lambda>r. uint (r_permissions r))
         (filter (\<lambda>r. \<not> r_default r \<and> 0 < count_users_with_role s (r_id r)) (t_roles s)))"

definition get_role_id_by_name :: "shop \<Rightarrow> string \<Rightarrow> int option" where
  "get_role_id_by_name s name = map_option r_id (role_by_name s name)"

definition get_bought_item_info :: "shop \<Rightarrow> int \<Rightarrow> int option \<Rightarrow> bought_goods option" where
  "get_bought_item_info s item_id buyer_id =
     List.find (\<lambda>b. bg_id b = item_id \<and> (buyer_id = None \<or> bg_buyer_id b = buyer_id)) (t_bought s)"

definition get_item_info :: "shop \<Rightarrow> string \<Rightarrow> goods option" where
  "get_item_info s item_name = goods_by_name s item_name"

text \<open>A stock unit with the name of its product.\<close>

definition get_goods_info :: "shop \<Rightarrow> int \<Rightarrow> (item_value \<times> string) option" where
  "get_goods_info s item_id =
     (case find_by iv_id item_id (t_item_values s) of None \<Rightarrow> None
      | Some v \<Rightarrow> map_option (\<lambda>g. (v, g_name g)) (get_goods s (iv_item_id v)))"

definition get_category_name_by_id :: "shop \<Rightarrow> int \<Rightarrow> string option" where
  "get_category_name_by_id s k = map_option c_name (get_category s k)"

definition get_item_name_by_id :: "shop \<Rightarrow> int \<Rightarrow> string option" where
  "get_item_name_by_id s k = map_option g_name (get_goods s k)"

definition select_user_items :: "shop \<Rightarrow> int \<Rightarrow> int" where
  "select_user_items s buyer_id = count_rows (filter (\<lambda>b. bg_buyer_id b = Some buyer_id) (t_bought s))"

definition select_bought_item :: "shop \<Rightarrow> int \<Rightarrow> bought_goods option" where
  "select_bought_item s unique_id = find_by bg_unique_id unique_id (t_bought s)"

definition select_count_items :: "shop \<Rightarrow> int" where "select_count_items s = count_rows (t_item_values s)"
definition select_count_goods :: "shop \<Rightarrow> int" where "select_count_goods s = count_rows (t_goods s)"
definition select_count_categories :: "shop \<Rightarrow> int" where "select_count_categories s = count_rows (t_categories s)"
definition select_count_bought_items :: "shop \<Rightarrow> int" where "select_count_bought_items s = count_rows (t_bought s)"

text \<open>\<open>COUNT(DISTINCT buyer_id)\<close> leaves out NULL.\<close>

definition select_unique_buyers :: "shop \<Rightarrow> int" where
  "select_unique_buyers s = count_rows (remdups (List.map_filter bg_buyer_id (t_bought s)))"

text \<open>\<open>int(avg or 0)\<close>; the average of no rows is NULL.\<close>

definition sql_avg :: "int list \<Rightarrow> rat option" where
  "sql_avg xs = (if xs = [] then None else Some (of_int (sum_list xs) / of_nat (length xs)))"

definition select_avg_order :: "shop \<Rightarrow> int" where
  "select_avg_order s = (case sql_avg (map bg_price (t_bought s)) of None \<Rightarrow> 0 | Some a \<Rightarrow> py_trunc a)"

definition select_today_orders_count :: "shop \<Rightarrow> string \<Rightarrow> int result" where
  "select_today_orders_count s date = tx_bind (day_window date) (\<lambda>w.
     Inr (count_rows (filter (\<lambda>b. in_day w (bg_datetime b)) (t_bought s))))"

definition select_blocked_users_count :: "shop \<Rightarrow> int" where
  "select_blocked_users_count s = count_rows (filter u_is_blocked (t_users s))"

definition select_today_orders :: "shop \<Rightarrow> string \<Rightarrow> int result" where
  "select_today_orders s date = tx_bind (day_window date) (\<lambda>w.
     Inr (sum_list (map bg_price (filter (\<lambda>b. in_day w (bg_datetime b)) (t_bought s)))))"

definition select_all_orders :: "shop \<Rightarrow> int" where
  "select_all_orders s = sum_list (map bg_price (t_bought s))"

definition select_today_operations :: "shop \<Rightarrow> string \<Rightarrow> int result" where
  "select_today_operations s date = tx_bind (day_window date) (\<lambda>w.
     Inr (sum_list (map op_value (filter (\<lambda>x. in_day w (op_time x)) (t_operations s)))))"

definition select_all_operations :: "shop \<Rightarrow> int" where
  "select_all_operations s = sum_list (map op_value (t_operations s))"

definition select_users_balance :: "shop \<Rightarrow> int" where
  "select_users_balance s = sum_list (map u_balance (t_users s))"

definition select_user_operations_total :: "shop \<Rightarrow> int \<Rightarrow> int" where
  "select_user_operations_total s user_id =
     sum_list (map op_value (filter (\<lambda>x. op_user_id x = Some user_id) (t_operations s)))"

definition check_user_referrals :: "shop \<Rightarrow> int \<Rightarrow> int" where
  "check_user_referrals s user_id = count_rows (filter (\<lambda>u. u_referral_id u = Some user_id) (t_users s))"

definition get_user_referral :: "shop \<Rightarrow> int \<Rightarrow> int option" where
  "get_user_referral s user_id = Option.bind (get_user s user_id) u_referral_id"

definition get_one_referral_earning :: "shop \<Rightarrow> int \<Rightarrow> int option \<Rightarrow> referral_earning option" where
  "get_one_referral_earning s earning_id referrer_id =
     List.find (\<lambda>r. re_id r = earning_id \<and> (referrer_id = None \<or> Some (re_referrer_id r) = referrer_id)) (t_earnings s)"

text \<open>\<open>round1\<close> is Python's rounding to one digit.\<close>

definition get_item_avg_rating :: "(rat \<Rightarrow> rat) \<Rightarrow> shop \<Rightarrow> string \<Rightarrow> rat option" where
  "get_item_avg_rating round1 s item_name =
     (case sql_avg (map rv_rating (reviews_of s item_name)) of None \<Rightarrow> None
      | Some a \<Rightarrow> if a = 0 then None else Some (round1 a))"

subsection \<open>Profiles\<close>

record earning_stats =
  es_count :: int
  es_amount :: int
  es_original :: int
  es_active :: int

definition get_referral_earnings_stats :: "shop \<Rightarrow> int \<Rightarrow> earning_stats" where
  "get_referral_earnings_stats s referrer_id =
     (let rows = filter (\<lambda>r. re_referrer_id r = referrer_id) (t_earnings s)
      in \<lparr>es_count = count_rows rows, es_amount = sum_list (map re_amount rows),
          es_original = sum_list (map re_original_amount rows), es_active = count_rows (remdups (map re_referral_id rows))\<rparr>)"

record profile_data =
  pd_operations_total :: int
  pd_items_count :: int
  pd_referrals :: int
  pd_role_name :: "string option"
  pd_blocked :: bool
  pd_earnings :: earning_stats

text \<open>One statement with nine scalar subqueries.\<close>

definition get_user_profile_aggregates :: "shop \<Rightarrow> int \<Rightarrow> int option \<Rightarrow> profile_data" where
  "get_user_profile_aggregates s user_id role_id =
     \<lparr>pd_operations_total = sum_list (map op_value (filter (\<lambda>x. op_user_id x = Some user_id) (t_operations s))),
      pd_items_count = count_rows (filter (\<lambda>b. bg_buyer_id b = Some user_id) (t_bought s)),
      pd_referrals = count_rows (filter (\<lambda>u. u_referral_id u = Some user_id) (t_users s)),
      pd_role_name = map_option r_name (Option.bind role_id (get_role s)),
      pd_blocked = (case map_option u_is_blocked (get_user s user_id) of None \<Rightarrow> False | Some b \<Rightarrow> b),
      pd_earnings = \<lparr>es_count = count_rows (filter (\<lambda>r. re_referrer_id r = user_id) (t_earnings s)),
        es_amount = sum_list (map re_amount (filter (\<lambda>r. re_referrer_id r = user_id) (t_earnings s))),
        es_original = sum_list (map re_original_amount (filter (\<lambda>r. re_referrer_id r = user_id) (t_earnings s))),
        es_active = count_rows (remdups (map re_referral_id (filter (\<lambda>r. re_referrer_id r = user_id) (t_earnings s))))\<rparr>\<rparr>"

text \<open>The amounts and counts of the user's own profile (\<open>profile_callback_handler\<close>).\<close>

definition own_profile :: "shop \<Rightarrow> user \<Rightarrow> string \<times> string \<times> int \<times> int" where
  "own_profile s u = (format_cents_for_ui (u_balance u), format_cents_for_ui (select_user_operations_total s (u_id u)),
     select_user_items s (u_id u), get_cart_count s (u_id u))"

subsection \<open>Statistics screen\<close>

record daily_stats =
  ds_users :: int
  ds_orders :: int
  ds_operations :: int
  ds_orders_count :: int

definition get_daily_stats :: "shop \<Rightarrow> string \<Rightarrow> daily_stats result" where
  "get_daily_stats s date = tx_bind (day_window date) (\<lambda>w. Inr
     \<lparr>ds_users = count_rows (filter (\<lambda>u. in_day w (u_registration_date u)) (t_users s)),
      ds_orders = sum_list (map bg_price (filter (\<lambda>b. in_day w (bg_datetime b)) (t_bought s))),
      ds_operations = sum_list (map op_value (filter (\<lambda>x. in_day w (op_time x)) (t_operations s))),
      ds_orders_count = count_rows (filter (\<lambda>b. in_day w (bg_datetime b)) (t_bought s))\<rparr>)"

record global_stats =
  gs_total_users :: int
  gs_total_revenue :: int
  gs_total_items :: int
  gs_total_goods :: int

definition get_global_stats :: "shop \<Rightarrow> global_stats" where
  "get_global_stats s = \<lparr>gs_total_users = count_rows (t_users s), gs_total_revenue = sum_list (map bg_price (t_bought s)),
     gs_total_items = count_rows (t_item_values s), gs_total_goods = count_rows (t_goods s)\<rparr>"

record dashboard_stats =
  db_unique_buyers :: int
  db_avg_order :: int
  db_sold_count :: int
  db_blocked_users :: int
  db_users_balance :: int
  db_all_operations :: int
  db_categories :: int

definition get_dashboard_stats :: "shop \<Rightarrow> dashboard_stats" where
  "get_dashboard_stats s = \<lparr>db_unique_buyers = count_rows (remdups (List.map_filter bg_buyer_id (t_bought s))),
     db_avg_order = py_trunc (case sql_avg (map bg_price (t_bought s)) of None \<Rightarrow> 0 | Some a \<Rightarrow> a),
     db_sold_count = count_rows (t_bought s), db_blocked_users = count_rows (filter u_is_blocked (t_users s)),
     db_users_balance = sum_list (map u_balance (t_users s)), db_all_operations = sum_list (map op_value (t_operations s)),
     db_categories = count_rows (t_categories s)\<rparr>"

text \<open>
  The figures of the screen, as they are filled into the template: with the statistics cache (whose
  answers are the current ones here) and, when Redis is off, with one query per figure.
\<close>

record stats_screen =
  sc_roles :: "(string \<times> 32 word \<times> nat) list"
  sc_today_users :: int
  sc_users :: int
  sc_buyers :: int
  sc_blocked :: int
  sc_today_orders :: int
  sc_today_sold_count :: int
  sc_all_orders :: int
  sc_avg_order :: int
  sc_today_topups :: int
  sc_system_balance :: int
  sc_all_topups :: int
  sc_items :: int
  sc_goods :: int
  sc_categories :: int
  sc_sold_count :: int

definition statistics_screen :: "bool \<Rightarrow> shop \<Rightarrow> string \<Rightarrow> stats_screen result" where
  "statistics_screen stats_cache s today =
     (if stats_cache
      then tx_bind (get_daily_stats s today) (\<lambda>daily.
        let glob = get_global_stats s; dash = get_dashboard_stats s
        in Inr \<lparr>sc_roles = get_roles_with_user_counts s, sc_today_users = ds_users daily, sc_users = gs_total_users glob,
             sc_buyers = db_unique_buyers dash, sc_blocked = db_blocked_users dash, sc_today_orders = ds_orders daily,
             sc_today_sold_count = ds_orders_count daily, sc_all_orders = gs_total_revenue glob,
             sc_avg_order = db_avg_order dash, sc_today_topups = ds_operations daily,
             sc_system_balance = db_users_balance dash, sc_all_topups = db_all_operations dash,
             sc_items = gs_total_items glob, sc_goods = gs_total_goods glob, sc_categories = db_categories dash,
             sc_sold_count = db_sold_count dash\<rparr>)
      else tx_bind (select_today_users s today) (\<lambda>today_users.
           tx_bind (select_today_orders s today) (\<lambda>today_orders.
           tx_bind (select_today_operations s today) (\<lambda>today_topups.
           tx_bind (select_today_orders_count s today) (\<lambda>today_sold_count.
             Inr \<lparr>sc_roles = get_roles_with_user_counts s, sc_today_users = today_users, sc_users = get_user_count s,
               sc_buyers = select_unique_buyers s, sc_blocked = select_blocked_users_count s, sc_today_orders = today_orders,
               sc_today_sold_count = today_sold_count, sc_all_orders = select_all_orders s,
               sc_avg_order = select_avg_order s, sc_today_topups = today_topups,
               sc_system_balance = select_users_balance s, sc_all_topups = select_all_operations s,
               sc_items = select_count_items s, sc_goods = select_count_goods s, sc_categories = select_count_categories s,
               sc_sold_count = select_count_bought_items s\<rparr>)))))"

text \<open>\<open>aggregate_completed_order_stats\<close> of the panel.\<close>

definition aggregate_completed_order_stats :: "shop \<Rightarrow> int \<times> int \<times> int" where
  "aggregate_completed_order_stats s =
     (let rows = filter (\<lambda>x. o_status x = COMPLETED) (t_orders s)
      in (count_rows rows, sum_list (map o_total_cents rows), sum_list (map (\<lambda>x. case o_profit_cents x of None \<Rightarrow> 0 | Some p \<Rightarrow> p) rows)))"

subsection \<open>Both ways to the screen\<close>

text \<open>The screen shows the same figures with the statistics cache and without it, errors included.\<close>

theorem statistics_screen_same: "statistics_screen True s today = statistics_screen False s today"
  by (cases "day_window today")
    (simp_all add: statistics_screen_def get_daily_stats_def select_today_users_def select_today_orders_def
      select_today_operations_def select_today_orders_count_def get_global_stats_def get_dashboard_stats_def Let_def
      get_user_count_def select_unique_buyers_def select_blocked_users_count_def select_all_orders_def
      select_avg_order_def select_users_balance_def select_all_operations_def select_count_items_def
      select_count_goods_def select_count_categories_def select_count_bought_items_def sql_avg_def py_trunc_def)

text \<open>The one-statement profile agrees with the separate queries.\<close>

lemma profile_aggregates_agree:
  "get_user_profile_aggregates s u r =
     \<lparr>pd_operations_total = select_user_operations_total s u, pd_items_count = select_user_items s u,
      pd_referrals = check_user_referrals s u, pd_role_name = map_option r_name (Option.bind r (get_role s)),
      pd_blocked = is_user_blocked s u, pd_earnings = get_referral_earnings_stats s u\<rparr>"
  by (simp add: get_user_profile_aggregates_def select_user_operations_total_def select_user_items_def
      check_user_referrals_def is_user_blocked_def get_referral_earnings_stats_def Let_def split: option.split)

subsection \<open>Days add up\<close>

definition in_range :: "int \<Rightarrow> int \<Rightarrow> int \<Rightarrow> bool" where
  "in_range a b t \<longleftrightarrow> day_start a \<le> t \<and> t < day_start b"

lemma sum_one_day_more:
  fixes f :: "'a \<Rightarrow> int"
  shows "sum_list (map f (filter (\<lambda>r. in_range a (b + 1) (t r)) rows)) =
    (if a \<le> b then sum_list (map f (filter (\<lambda>r. in_range a b (t r)) rows)) +
       sum_list (map f (filter (\<lambda>r. in_day (day_start b, day_start (b + 1)) (t r)) rows))
     else sum_list (map f (filter (\<lambda>r. in_range a (b + 1) (t r)) rows)))"
  by (induction rows) (auto simp: in_range_def in_day_def day_start_def)

lemma sum_over_days:
  fixes f :: "'a \<Rightarrow> int"
  shows "(\<Sum>i\<leftarrow>[0..<k]. sum_list (map f (filter (\<lambda>r. in_day (day_start (a + int i), day_start (a + int i + 1)) (t r)) rows)))
    = sum_list (map f (filter (\<lambda>r. in_range a (a + int k) (t r)) rows))"
proof (induction k)
  case 0
  then show ?case by (simp add: in_range_def)
next
  case (Suc k)
  have e: "a + int (Suc k) = a + int k + 1" by simp
  show ?case unfolding e using Suc sum_one_day_more [of f a "a + int k" t rows] by simp
qed

lemma sum_all_days:
  fixes f :: "'a \<Rightarrow> int"
  assumes "list_all (\<lambda>r. in_range a (a + int k) (t r)) rows"
  shows "(\<Sum>i\<leftarrow>[0..<k]. sum_list (map f (filter (\<lambda>r. in_day (day_start (a + int i), day_start (a + int i + 1)) (t r)) rows)))
    = sum_list (map f rows)"
  using sum_over_days [where k = k and f = f and a = a and t = t and rows = rows] assms by (simp add: list_all_iff filter_id_conv)

definition figure :: "int result \<Rightarrow> int" where
  "figure x = (case x of Inl _ \<Rightarrow> 0 | Inr n \<Rightarrow> n)"

lemma figures_of_days:
  assumes "map parse_date dates = map (\<lambda>i. Inr (a + int i)) [0..<k]"
    and "\<And>d n. parse_date d = Inr n \<Longrightarrow> figure (q d) = g n"
  shows "(\<Sum>d\<leftarrow>dates. figure (q d)) = (\<Sum>i\<leftarrow>[0..<k]. g (a + int i))"
proof -
  have len: "length dates = k" using assms(1) by (metis length_map length_upt minus_nat.diff_0)
  have "map (\<lambda>d. figure (q d)) dates = map (\<lambda>i. g (a + int i)) [0..<k]"
  proof (rule nth_equalityI)
    fix i assume "i < length (map (\<lambda>d. figure (q d)) dates)"
    then have i: "i < k" using len by simp
    have "map parse_date dates ! i = map (\<lambda>i. Inr (a + int i)) [0..<k] ! i" by (simp only: assms(1))
    then have "parse_date (dates ! i) = Inr (a + int i)" using i len by simp
    then show "map (\<lambda>d. figure (q d)) dates ! i = map (\<lambda>i. g (a + int i)) [0..<k] ! i"
      using i len assms(2) by simp
  qed (use len in simp)
  then show ?thesis by simp
qed

lemma count_rows_sum: "count_rows rows = sum_list (map (\<lambda>_. 1) rows)"
  by (induction rows) (auto simp: count_rows_def)

text \<open>
  Over consecutive dates that cover all rows, the daily revenues add up to the revenue of all time, and
  so do the operations, the numbers of sales and the registrations: no row falls between two days or
  into both.
\<close>

theorem daily_figures_add_up:
  assumes dates: "map parse_date dates = map (\<lambda>i. Inr (a + int i)) [0..<k]"
    and sales: "list_all (\<lambda>b. in_range a (a + int k) (bg_datetime b)) (t_bought s)"
    and ops: "list_all (\<lambda>x. in_range a (a + int k) (op_time x)) (t_operations s)"
    and users: "list_all (\<lambda>u. in_range a (a + int k) (u_registration_date u)) (t_users s)"
  shows "(\<Sum>d\<leftarrow>dates. figure (select_today_orders s d)) = select_all_orders s \<and>
    (\<Sum>d\<leftarrow>dates. figure (select_today_orders_count s d)) = select_count_bought_items s \<and>
    (\<Sum>d\<leftarrow>dates. figure (select_today_operations s d)) = select_all_operations s \<and>
    (\<Sum>d\<leftarrow>dates. figure (select_today_users s d)) = get_user_count s"
proof (intro conjI)
  show "(\<Sum>d\<leftarrow>dates. figure (select_today_orders s d)) = select_all_orders s"
    by (subst figures_of_days [OF dates, where g = "\<lambda>n. sum_list (map bg_price (filter (\<lambda>b. in_day (day_start n, day_start (n + 1)) (bg_datetime b)) (t_bought s)))"])
      (simp_all add: figure_def select_today_orders_def day_window_def select_all_orders_def sum_all_days [OF sales])
  show "(\<Sum>d\<leftarrow>dates. figure (select_today_orders_count s d)) = select_count_bought_items s"
    by (subst figures_of_days [OF dates, where g = "\<lambda>n. sum_list (map (\<lambda>_. 1) (filter (\<lambda>b. in_day (day_start n, day_start (n + 1)) (bg_datetime b)) (t_bought s)))"])
      (simp_all add: figure_def select_today_orders_count_def day_window_def select_count_bought_items_def count_rows_sum sum_all_days [OF sales])
  show "(\<Sum>d\<leftarrow>dates. figure (select_today_operations s d)) = select_all_operations s"
    by (subst figures_of_days [OF dates, where g = "\<lambda>n. sum_list (map op_value (filter (\<lambda>x. in_day (day_start n, day_start (n + 1)) (op_time x)) (t_operations s)))"])
      (simp_all add: figure_def select_today_operations_def day_window_def select_all_operations_def sum_all_days [OF ops])
  show "(\<Sum>d\<leftarrow>dates. figure (select_today_users s d)) = get_user_count s"
    by (subst figures_of_days [OF dates, where g = "\<lambda>n. sum_list (map (\<lambda>_. 1) (filter (\<lambda>u. in_day (day_start n, day_start (n + 1)) (u_registration_date u)) (t_users s)))"])
      (simp_all add: figure_def select_today_users_def day_window_def get_user_count_def count_rows_sum sum_all_days [OF users])
qed

text \<open>The calendar across the ends of a leap February and of a year.\<close>

lemma sample_dates:
  "parse_date ''2024-02-29'' = Inr 19782" "parse_date ''2024-03-01'' = Inr 19783" "parse_date ''2023-02-29'' = Inl (ValueError ''day is out of range'')"
  "parse_date ''1969-12-31'' = Inr (-1)" "parse_date ''1970-01-01'' = Inr 0"
  by code_simp+

lemma daily_figures_add_up_witness:
  "figure (select_today_users sample_shop ''1969-12-31'') + figure (select_today_users sample_shop ''1970-01-01'') = 2"
proof -
  have d: "map parse_date [''1969-12-31'', ''1970-01-01''] = map (\<lambda>i. Inr (- 1 + int i)) [0..<2]"
    by (simp add: sample_dates upt_rec)
  have "(\<Sum>d\<leftarrow>[''1969-12-31'', ''1970-01-01'']. figure (select_today_users sample_shop d)) = get_user_count sample_shop"
    using daily_figures_add_up [OF d, of sample_shop]
    by (simp add: sample_shop_def empty_shop_def sample_user_def in_range_def day_start_def)
  then show ?thesis by (simp add: get_user_count_def count_rows_def sample_shop_def empty_shop_def)
qed

end
