(* ===== verification/Panel.thy ===== *)
theory Panel
  imports Stats Support Orders Cache
begin

text \<open>
  The admin panel: \<open>web/admin.py\<close>, \<open>web/admin_helpers.py\<close>, \<open>web/panel_views.py\<close> and \<open>web/export.py\<close>.  The
  forms and list pages themselves are SQLAdmin's; modelled are the code that runs around them: the
  login with its limiter and the wait for its form, the checks and conversions of \<open>on_model_change\<close>, the audit rows and cache
  invalidations after a change, the refund action, the extra pages and the CSV export.  A session is
  what the signed cookie says; \<open>json.loads\<close> and \<open>json.dumps\<close> are parameters, dates of rows are seconds.
\<close>

subsection \<open>Login\<close>

text \<open>\<open>_client_ip\<close>: the peer of the socket, or the first hop of the header when the peer is loopback.\<close>

definition client_ip :: "string option \<Rightarrow> string \<Rightarrow> string" where
  "client_ip peer forwarded =
     (let p = (case peer of None \<Rightarrow> [] | Some h \<Rightarrow> h)
      in if p \<in> {''127.0.0.1'', ''::1''} \<and> forwarded \<noteq> [] then strip (hd (split_on CHR '','' forwarded)) else p)"

record login_limiter =
  ll_max_attempts :: nat
  ll_lockout_seconds :: rat
  ll_attempts :: "string \<rightharpoonup> rat list"
  ll_last_cleanup :: rat

definition new_login_limiter :: "rat \<Rightarrow> login_limiter" where
  "new_login_limiter now = \<lparr>ll_max_attempts = 5, ll_lockout_seconds = 900, ll_attempts = Map.empty, ll_last_cleanup = now\<rparr>"

definition recent :: "rat \<Rightarrow> login_limiter \<Rightarrow> rat list \<Rightarrow> rat list" where
  "recent now l ts = filter (\<lambda>t. now - t < ll_lockout_seconds l) ts"

definition is_blocked :: "rat \<Rightarrow> string \<Rightarrow> login_limiter \<Rightarrow> bool \<times> login_limiter" where
  "is_blocked now ip l =
     (case ll_attempts l ip of None \<Rightarrow> (False, l)
      | Some ts \<Rightarrow> (ll_max_attempts l \<le> length (recent now l ts),
          l\<lparr>ll_attempts := (ll_attempts l)(ip \<mapsto> recent now l ts)\<rparr>))"

definition record_failure :: "rat \<Rightarrow> string \<Rightarrow> login_limiter \<Rightarrow> login_limiter" where
  "record_failure now ip l =
     (let l1 = (if 600 < now - ll_last_cleanup l
                then l\<lparr>ll_attempts := (\<lambda>k. case ll_attempts l k of None \<Rightarrow> None
                         | Some ts \<Rightarrow> if recent now l ts = [] then None else Some (recent now l ts)),
                       ll_last_cleanup := now\<rparr> else l);
          ts = (case ll_attempts l1 ip of None \<Rightarrow> [] | Some ts \<Rightarrow> ts)
      in l1\<lparr>ll_attempts := (ll_attempts l1)(ip \<mapsto> ts @ [now])\<rparr>)"

definition reset_attempts :: "string \<Rightarrow> login_limiter \<Rightarrow> login_limiter" where
  "reset_attempts ip l = l\<lparr>ll_attempts := (ll_attempts l)(ip := None)\<rparr>"

text \<open>\<open>hmac.compare_digest\<close> of two texts; only ASCII is allowed.\<close>

definition compare_digest :: "string \<Rightarrow> string \<Rightarrow> bool result" where
  "compare_digest a b =
     (if list_all (\<lambda>c. of_char c < (128::nat)) (a @ b) then Inr (a = b) else Inl (OtherError ''TypeError''))"

text \<open>A missing form field is the text \<open>None\<close>.\<close>

definition str_of_field :: "string option \<Rightarrow> string" where
  "str_of_field x = (case x of None \<Rightarrow> ''None'' | Some t \<Rightarrow> t)"

record panel_config =
  pn_username :: string
  pn_password :: string
  pn_operator_id :: "string option"
  pn_operator_mode :: bool

record panel =
  pl_limiter :: login_limiter
  pl_authenticated :: bool
  pl_shop :: shop

definition credentials_ok :: "panel_config \<Rightarrow> string option \<Rightarrow> string option \<Rightarrow> bool result" where
  "credentials_ok cfg username password =
     tx_bind (compare_digest (str_of_field username) (pn_username cfg)) (\<lambda>ok.
       if \<not> ok then Inr False else compare_digest (str_of_field password) (pn_password cfg))"

text \<open>
  The handler waits for the form between the check and the comparison: other attempts are served in
  between. So it is two steps, each with the time and the limiter of its own moment.
\<close>

definition login_begin :: "rat \<Rightarrow> string \<Rightarrow> panel \<Rightarrow> bool \<times> panel" where
  "login_begin now ip p =
     (let (blocked, l) = is_blocked now ip (pl_limiter p); p1 = p\<lparr>pl_limiter := l\<rparr>
      in if blocked
         then (False, p1\<lparr>pl_shop := log_audit ''web_login_blocked'' ''WARNING'' None None None (pl_shop p)\<rparr>)
         else (True, p1))"

definition login_finish ::
    "panel_config \<Rightarrow> rat \<Rightarrow> string \<Rightarrow> string option \<Rightarrow> string option \<Rightarrow> panel \<Rightarrow> bool result \<times> panel" where
  "login_finish cfg now ip username password p =
     (case credentials_ok cfg username password of
        Inl err \<Rightarrow> (Inl err, p)
      | Inr True \<Rightarrow>
          if username = Some ''admin'' \<and> password = Some ''admin'' \<and> ip \<notin> {''127.0.0.1'', ''::1'', ''localhost''}
          then (Inr False, p\<lparr>pl_shop := log_audit ''web_login_blocked_default_creds'' ''WARNING'' None None None (pl_shop p)\<rparr>)
          else (Inr True, p\<lparr>pl_authenticated := True, pl_limiter := reset_attempts ip (pl_limiter p),
                  pl_shop := log_audit ''web_login'' ''INFO'' None None None (pl_shop p)\<rparr>)
      | Inr False \<Rightarrow> (Inr False, p\<lparr>pl_limiter := record_failure now ip (pl_limiter p),
             pl_shop := log_audit ''web_login_failed'' ''WARNING'' None None None (pl_shop p)\<rparr>))"

text \<open>An attempt that nothing interrupts.\<close>

definition login ::
    "panel_config \<Rightarrow> rat \<Rightarrow> rat \<Rightarrow> string \<Rightarrow> string option \<Rightarrow> string option \<Rightarrow> panel \<Rightarrow> bool result \<times> panel" where
  "login cfg asked now ip username password p =
     (case login_begin asked ip p of
        (False, p1) \<Rightarrow> (Inr False, p1)
      | (True, p1) \<Rightarrow> login_finish cfg now ip username password p1)"

definition logout :: "panel \<Rightarrow> bool \<times> panel" where
  "logout p = (True, p\<lparr>pl_authenticated := False, pl_shop := log_audit ''web_logout'' ''INFO'' None None None (pl_shop p)\<rparr>)"

definition authenticate :: "panel \<Rightarrow> bool" where
  "authenticate p = pl_authenticated p"

definition web_panel_operator_id :: "panel_config \<Rightarrow> int" where
  "web_panel_operator_id cfg =
     (case pn_operator_id cfg of None \<Rightarrow> 0
      | Some t \<Rightarrow> (case parse_int t of Inl _ \<Rightarrow> 0 | Inr n \<Rightarrow> n))"

subsection \<open>Around a change\<close>

definition audit_change :: "string \<Rightarrow> bool \<Rightarrow> string \<Rightarrow> shop \<Rightarrow> shop" where
  "audit_change view is_created rid s =
     log_audit (if is_created then ''sqladmin_create'' else ''sqladmin_update'') ''INFO'' None (Some view) (Some rid) s"

definition audit_delete :: "string \<Rightarrow> string \<Rightarrow> shop \<Rightarrow> shop" where
  "audit_delete view rid s = log_audit ''sqladmin_delete'' ''INFO'' None (Some view) (Some rid) s"

text \<open>The balance is entered in rubles and shown for editing in rubles.\<close>

definition user_balance_for_edit :: "int \<Rightarrow> rat" where
  "user_balance_for_edit balance = cents_to_float_rub balance"

definition user_on_model_change :: "string option \<Rightarrow> int option result" where
  "user_on_model_change raw_balance =
     (case raw_balance of None \<Rightarrow> Inr None
      | Some t \<Rightarrow> if t = [] then Inr None
          else tx_bind (decimal_of_string t) (\<lambda>d. tx_bind (rub_to_cents d) (\<lambda>c. Inr (Some c))))"

definition user_invalidate :: "int \<Rightarrow> bool option \<Rightarrow> auth \<times> shop \<Rightarrow> auth \<times> shop" where
  "user_invalidate tid blocked as =
     invalidate_auth_caches tid blocked (fst as, safe_create_task (InvalidateUserCache tid) (snd as))"

definition user_after_change :: "bool \<Rightarrow> user \<Rightarrow> auth \<times> shop \<Rightarrow> auth \<times> shop" where
  "user_after_change is_created u as =
     user_invalidate (u_id u) (Some (u_is_blocked u)) (fst as, audit_change ''User'' is_created ''None'' (snd as))"

definition user_after_delete :: "int \<Rightarrow> auth \<times> shop \<Rightarrow> auth \<times> shop" where
  "user_after_delete tid as = user_invalidate tid (Some False) (fst as, audit_delete ''User'' ''None'' (snd as))"

definition role_after_change :: "bool \<Rightarrow> role \<Rightarrow> auth \<times> shop \<Rightarrow> auth \<times> shop" where
  "role_after_change is_created r as =
     (flush_all_role_caches (fst as), audit_change ''Role'' is_created (show_int (r_id r)) (snd as))"

definition role_after_delete :: "role \<Rightarrow> auth \<times> shop \<Rightarrow> auth \<times> shop" where
  "role_after_delete r as = (flush_all_role_caches (fst as), audit_delete ''Role'' (show_int (r_id r)) (snd as))"

text \<open>The labels of a permission mask.\<close>

definition PERM_FLAGS :: "(32 word \<times> string) list" where
  "PERM_FLAGS = [(1, ''USE''), (2, ''BROADCAST''), (4, ''SETTINGS''), (8, ''USERS''), (16, ''CATALOG''), (32, ''ADMINS''),
     (64, ''OWN''), (128, ''STATS''), (256, ''BALANCE''), (512, ''PROMOS''), (1024, ''ORDERS''), (2048, ''TICKETS''),
     (4096, ''PROVIDERS''), (8192, ''PAYMENTS''), (16384, ''AUDIT'')]"

definition perm_labels :: "32 word \<Rightarrow> string list" where
  "perm_labels perms = map snd (filter (\<lambda>(bit, _). perms AND bit \<noteq> 0) PERM_FLAGS)"

definition goods_after_change :: "bool \<Rightarrow> goods \<Rightarrow> shop \<Rightarrow> shop" where
  "goods_after_change is_created g s =
     (let s1 = audit_change ''Product'' is_created (show_int (g_id g)) s
      in if g_name g = [] then s1 else safe_create_task (InvalidateItemCache (g_name g) None) s1)"

definition goods_after_delete :: "goods \<Rightarrow> shop \<Rightarrow> shop" where
  "goods_after_delete g s =
     (let s1 = audit_delete ''Product'' (show_int (g_id g)) s
      in if g_name g = [] then s1 else safe_create_task (InvalidateItemCache (g_name g) None) s1)"

definition category_after_change :: "bool \<Rightarrow> category \<Rightarrow> shop \<Rightarrow> shop" where
  "category_after_change is_created c s = audit_change ''Category'' is_created (show_int (c_id c)) s"

definition stock_after_change :: "bool \<Rightarrow> bool \<Rightarrow> item_value \<Rightarrow> shop \<Rightarrow> shop" where
  "stock_after_change has_bot is_created v s =
     (let s1 = audit_change ''Stock Item'' is_created (show_int (iv_id v)) s
      in case get_item_name_by_id s1 (iv_item_id v) of
           None \<Rightarrow> s1
         | Some name \<Rightarrow> if name = [] then s1
             else (let s2 = safe_create_task (InvalidateItemCache name None) s1
                   in if is_created \<and> has_bot then safe_create_task (NotifyRestock name) s2 else s2))"

definition stock_after_delete :: "item_value \<Rightarrow> shop \<Rightarrow> shop" where
  "stock_after_delete v s =
     (let s1 = audit_delete ''Stock Item'' (show_int (iv_id v)) s
      in case get_item_name_by_id s1 (iv_item_id v) of None \<Rightarrow> s1
         | Some name \<Rightarrow> if name = [] then s1 else safe_create_task (InvalidateItemCache name None) s1)"

text \<open>A form field with JSON text: empty is an empty object; anything but an object or array is refused.\<close>

datatype json_field = NoField | TextField string | DictField json

definition validate_json_text ::
    "(string \<Rightarrow> json option) \<Rightarrow> (json \<Rightarrow> string) \<Rightarrow> json_field \<Rightarrow> string result" where
  "validate_json_text loads dumps v =
     (case v of NoField \<Rightarrow> Inr ''{}''
      | DictField j \<Rightarrow> Inr (dumps j)
      | TextField t \<Rightarrow>
         (let text = strip t
          in if text = [] then Inr ''{}''
             else case loads text of
                    None \<Rightarrow> Inl (ValueError ''must be valid JSON'')
                  | Some (JObj _) \<Rightarrow> Inr text
                  | Some (JArr _) \<Rightarrow> Inr text
                  | Some _ \<Rightarrow> Inl (ValueError ''must be a JSON object or array'')))"

definition provider_on_model_change ::
    "(string \<Rightarrow> json option) \<Rightarrow> (json \<Rightarrow> string) \<Rightarrow> json_field \<Rightarrow> string result" where
  "provider_on_model_change loads dumps config_json = validate_json_text loads dumps config_json"

text \<open>Of a provider link both JSON fields are checked, where the form has them.\<close>

definition link_on_model_change ::
    "(string \<Rightarrow> json option) \<Rightarrow> (json \<Rightarrow> string) \<Rightarrow> json_field option \<Rightarrow> json_field option \<Rightarrow> (string option \<times> string option) result" where
  "link_on_model_change loads dumps request_params result_mapping =
     (let check = (\<lambda>f. case f of None \<Rightarrow> Inr None | Some v \<Rightarrow> tx_bind (validate_json_text loads dumps v) (\<lambda>t. Inr (Some t)))
      in tx_bind (check request_params) (\<lambda>a. tx_bind (check result_mapping) (\<lambda>b. Inr (a, b))))"

text \<open>\<open>PaymentGatewayAdmin.on_model_change\<close>: what the configuration column is set to (\<open>None\<close>: untouched).\<close>

definition gateway_on_model_change ::
    "(string \<Rightarrow> json option) \<Rightarrow> (json \<Rightarrow> string) \<Rightarrow> panel_config \<Rightarrow> bool \<Rightarrow> string option \<Rightarrow> json_field option \<Rightarrow> string option result" where
  "gateway_on_model_change loads dumps cfg is_created stored field =
     (if pn_operator_mode cfg then Inr (if \<not> is_created \<and> truthy_str stored then stored else None)
      else case field of None \<Rightarrow> Inr None
        | Some v \<Rightarrow> tx_bind (validate_json_text loads dumps v) (\<lambda>t. Inr (Some t)))"

definition mask_gateway_config :: "panel_config \<Rightarrow> string option \<Rightarrow> string" where
  "mask_gateway_config cfg config_json =
     (let raw = (case config_json of None \<Rightarrow> [] | Some t \<Rightarrow> t)
      in if pn_operator_mode cfg then concat (replicate 8 [CHR 0xE2, CHR 0x80, CHR 0xA2]) else if py_len raw \<le> 80 then raw else py_take 77 raw @ ''...'')"

text \<open>\<open>format_order_money\<close>; \<open>None\<close> is shown as a dash.\<close>

definition format_order_money :: "int option \<Rightarrow> string" where
  "format_order_money cents = (case cents of None \<Rightarrow> [CHR 0xE2, CHR 0x80, CHR 0x94] | Some c \<Rightarrow> format_cents_for_ui c)"

subsection \<open>Promo codes\<close>

record promo_form =
  pf_code :: "string option"
  pf_discount_type :: "string option"
  pf_discount_value :: string
  pf_scope :: "string option"
  pf_category_id :: "string option"
  pf_item_id :: "string option"

definition as_id :: "string option \<Rightarrow> int option" where
  "as_id v = (case v of None \<Rightarrow> None
     | Some t \<Rightarrow> if t \<in> {[], ''None''} then None else (case parse_int t of Inl _ \<Rightarrow> None | Inr n \<Rightarrow> Some n))"

definition scope_name :: "promo_scope \<Rightarrow> string" where
  "scope_name sc = (case sc of GlobalScope \<Rightarrow> ''global'' | CategoryScope \<Rightarrow> ''category'' | ItemScope \<Rightarrow> ''item'')"

text \<open>The normalised code and bindings; the discount value itself is left as entered.\<close>

definition promo_on_model_change :: "promo_form \<Rightarrow> (string \<times> int option \<times> int option) result" where
  "promo_on_model_change f =
     (let code = upper (strip (case pf_code f of None \<Rightarrow> [] | Some c \<Rightarrow> c))
      in if code = [] then Inl (ValueError ''Code is required.'')
         else if pf_discount_type f \<notin> {Some ''percent'', Some ''fixed'', Some ''balance''}
         then Inl (ValueError ''discount_type must be one of: percent, fixed, balance.'')
         else case decimal_of_string (pf_discount_value f) of
                Inl _ \<Rightarrow> Inl (ValueError ''discount_value must be a number.'')
              | Inr dval \<Rightarrow>
                  if dec_value dval < 0 then Inl (ValueError ''discount_value must be >= 0.'')
                  else if pf_discount_type f = Some ''percent'' \<and> 100 < dec_value dval
                  then Inl (ValueError ''A percent discount_value must be between 0 and 100.'')
                  else (let category_id = as_id (pf_category_id f); item_id = as_id (pf_item_id f)
                        in if category_id \<noteq> None \<and> item_id \<noteq> None
                           then Inl (ValueError ''A promo cannot bind both a category and an item'')
                           else if strip (if truthy_str (pf_scope f) then the (pf_scope f) else ''global'')
                                     \<noteq> scope_name (promo_scope_for category_id item_id)
                           then Inl (ValueError ''Scope does not match the binding'')
                           else Inr (code, category_id, item_id)))"

subsection \<open>Reviews, tickets and refunds\<close>

text \<open>The keys dropped after a review was changed.\<close>

definition review_invalidation :: "shop \<Rightarrow> review \<Rightarrow> string list" where
  "review_invalidation s r =
     (case get_item_name_by_id s (rv_item_id r) of None \<Rightarrow> []
      | Some name \<Rightarrow> if name = [] then [] else rating_cache_keys name)"

definition ticket_on_model_change :: "string option \<Rightarrow> unit result" where
  "ticket_on_model_change status =
     (if truthy_str status \<and> status_of_text (the status) = None then Inl (ValueError ''status'') else Inr ())"

text \<open>
  \<open>run_manual_refund\<close>: \<open>OrderTransitionError\<close> and \<open>OrderCancelForbidden\<close> are subclasses of \<open>OrderError\<close>, whose
  clause comes first.
\<close>

definition is_order_error :: "exn \<Rightarrow> bool" where
  "is_order_error err = (case err of OrderError _ \<Rightarrow> True | OrderTransitionError _ \<Rightarrow> True | OrderCancelForbidden _ \<Rightarrow> True | _ \<Rightarrow> False)"

datatype refund_message = RefundNotFound | RefundNotAllowed string | RefundCredited int int | RefundAlready int

definition run_manual_refund :: "env \<Rightarrow> int \<Rightarrow> int \<Rightarrow> shop \<Rightarrow> ((refund_message \<times> bool) \<times> shop) result" where
  "run_manual_refund e order_id operator_id s =
     (case run_session (manual_refund_order e order_id operator_id) s of
        Inl err \<Rightarrow> if is_order_error err then Inr ((RefundNotFound, False), s)
                   else (case err of OrderTransitionError m \<Rightarrow> Inr ((RefundNotAllowed m, False), s) | _ \<Rightarrow> Inl err)
      | Inr ((x, credited), s1) \<Rightarrow>
          Inr (if credited then ((RefundCredited (o_id x) (o_total_cents x), True), s1)
               else ((RefundAlready (o_id x), False), s1)))"

text \<open>The action runs over the selected ids one by one; only the first message is shown.\<close>

fun refund_each :: "env \<Rightarrow> int \<Rightarrow> string list \<Rightarrow> shop \<Rightarrow> (refund_message list \<times> shop) result" where
  "refund_each e operator_id [] s = Inr ([], s)"
| "refund_each e operator_id (pk # pks) s =
     (let t = strip pk
      in if t = [] then refund_each e operator_id pks s
         else case parse_int t of
                Inl _ \<Rightarrow> refund_each e operator_id pks s
              | Inr oid \<Rightarrow> tx_bind (run_manual_refund e oid operator_id s) (\<lambda>((m, _), s1).
                  tx_bind (refund_each e operator_id pks s1) (\<lambda>(ms, s2). Inr (m # ms, s2))))"

definition manual_refund_action :: "env \<Rightarrow> panel_config \<Rightarrow> string option \<Rightarrow> shop \<Rightarrow> (refund_message option \<times> shop) result" where
  "manual_refund_action e cfg pks s =
     tx_bind (refund_each e (web_panel_operator_id cfg) (split_on CHR '','' (case pks of None \<Rightarrow> [] | Some t \<Rightarrow> t)) s)
       (\<lambda>(ms, s1). Inr (case ms of [] \<Rightarrow> None | m # _ \<Rightarrow> Some m, s1))"

subsection \<open>Extra pages\<close>

text \<open>
  The stock import: the message of the page.  \<open>splitlines\<close> is \<open>replace("\r\n", "\n").split("\n")\<close>.
\<close>

datatype import_message = SelectProduct | NoValidLines | Imported nat nat nat nat

definition form_lines :: "string \<Rightarrow> string list" where
  "form_lines raw = split_on CHR 0x0A (py_replace [CHR 0x0D, CHR 0x0A] [CHR 0x0A] raw)"

definition stock_import :: "string option \<Rightarrow> string option \<Rightarrow> bool \<Rightarrow> shop \<Rightarrow> ((import_message \<times> bool) \<times> shop) result" where
  "stock_import item values_text is_infinity s =
     (let item_name = strip (case item of None \<Rightarrow> [] | Some n \<Rightarrow> n);
          lines = form_lines (case values_text of None \<Rightarrow> [] | Some t \<Rightarrow> t)
      in tx_bind (add_values_bulk item_name lines is_infinity s) (\<lambda>((added, skip_db, skip_batch, skip_invalid), s1). Inr (
           if item_name = [] then (SelectProduct, True)
           else if added = 0 \<and> skip_db = 0 \<and> skip_batch = 0 \<and> skip_invalid = length lines then (NoValidLines, True)
           else (Imported added skip_db skip_batch skip_invalid, False), s1)))"

text \<open>
  The reply page.  \<open>hasattr(msg, "ticket")\<close> loads a relationship declared \<open>lazy="raise"\<close>, which raises
  \<open>InvalidRequestError\<close>; \<open>hasattr\<close> only catches \<open>AttributeError\<close>.
\<close>

definition hasattr_ticket :: "support_message \<Rightarrow> bool result" where
  "hasattr_ticket msg = Inl (OtherError ''InvalidRequestError'')"

definition support_reply_page ::
    "env \<Rightarrow> string option \<Rightarrow> string option \<Rightarrow> string option \<Rightarrow> shop \<Rightarrow> ((string \<times> (int \<times> string) option) \<times> shop) result" where
  "support_reply_page e ticket_field body_field staff_field s =
     (let ticket_id = (case parse_int (if truthy_str ticket_field then the ticket_field else ''0'') of Inl _ \<Rightarrow> 0 | Inr n \<Rightarrow> n)
      in tx_bind (parse_int (if truthy_str staff_field then the staff_field else ''0'')) (\<lambda>staff_id.
         support_answer
           (\<lambda>s. tx_bind (staff_reply e ticket_id staff_id body_field s) (\<lambda>(msg, s1).
              tx_bind (hasattr_ticket msg) (\<lambda>_. Inr ((msg, get_ticket_for_staff s1 ticket_id), s1))))
           (\<lambda>(msg, ticket) s1. ((''Reply saved.'', map_option (\<lambda>t. (st_user_id t, sm_body msg)) ticket),
              log_audit ''support_reply_web'' ''INFO'' (Some staff_id) (Some ''SupportTicket'') (Some (show_int ticket_id)) s1))
           (\<lambda>code. ((code, None), s)) s))"

text \<open>The status page: what a visitor and what an operator sees.\<close>

definition health_check :: "bool \<Rightarrow> bool \<Rightarrow> cache_manager option \<Rightarrow> int \<times> bool \<times> (bool \<times> string) option" where
  "health_check authenticated db_ok cache =
     (if db_ok then 200 else 503, db_ok,
      if \<not> authenticated then None
      else Some (db_ok, case cache of None \<Rightarrow> ''not configured'' | Some c \<Rightarrow> if cm_healthy c then ''ok'' else ''degraded''))"

subsection \<open>CSV export\<close>

definition INJECTION_PREFIXES :: "char list" where
  "INJECTION_PREFIXES = [CHR ''='', CHR ''+'', CHR ''-'', CHR ''@'', CHR 0x09, CHR 0x0D]"

definition sanitize_cell :: "string option \<Rightarrow> string" where
  "sanitize_cell value =
     (case value of None \<Rightarrow> [] | Some s \<Rightarrow> if s \<noteq> [] \<and> hd s \<in> set INJECTION_PREFIXES then CHR 0x27 # s else s)"

text \<open>\<open>csv.writer\<close>: a field with a comma, a quote or a line end is quoted, quotes are doubled.\<close>

definition csv_field :: "string \<Rightarrow> string" where
  "csv_field f =
     (if list_ex (\<lambda>c. c \<in> {CHR '','', CHR 0x22, CHR 0x0D, CHR 0x0A}) f
      then [CHR 0x22] @ concat (map (\<lambda>c. if c = CHR 0x22 then [c, c] else [c]) f) @ [CHR 0x22] else f)"

fun join_with :: "string \<Rightarrow> string list \<Rightarrow> string" where
  "join_with sep [] = []"
| "join_with sep [x] = x"
| "join_with sep (x # y # xs) = x @ sep @ join_with sep (y # xs)"

definition csv_row :: "string list \<Rightarrow> string" where
  "csv_row cells = join_with '','' (map csv_field cells) @ [CHR 0x0D, CHR 0x0A]"

definition BATCH_SIZE :: nat where "BATCH_SIZE = 1000"

text \<open>
  Keyset pagination: the rows in key order behind the last key, a batch at a time, until a batch is
  empty or short.  \<open>key\<close> is the first column.
\<close>

definition export_batch :: "nat \<Rightarrow> ('r \<Rightarrow> int) \<Rightarrow> int option \<Rightarrow> 'r list \<Rightarrow> 'r list" where
  "export_batch n key last_key rows =
     take n (case last_key of None \<Rightarrow> rows | Some k \<Rightarrow> filter (\<lambda>r. k < key r) rows)"

text \<open>The source loops without a bound; \<open>None\<close> would be a stream that never ends.\<close>

partial_function (option) stream_rows :: "nat \<Rightarrow> ('r \<Rightarrow> int) \<Rightarrow> 'r list \<Rightarrow> int option \<Rightarrow> 'r list option" where
  "stream_rows n key rows last_key =
     (let batch = export_batch n key last_key rows
      in if batch = [] then Some []
         else if length batch < n then Some batch
         else Option.bind (stream_rows n key rows (Some (key (last batch)))) (\<lambda>rest. Some (batch @ rest)))"

text \<open>The date filters of the query: a date that does not parse is ignored.\<close>

definition date_param :: "string option \<Rightarrow> int option" where
  "date_param d =
     (if \<not> truthy_str d then None
      else case parse_date (the d) of Inl _ \<Rightarrow> None | Inr n \<Rightarrow> Some (day_start n))"

definition in_dates :: "string option \<Rightarrow> string option \<Rightarrow> int \<Rightarrow> bool" where
  "in_dates from_str to_str t \<longleftrightarrow>
     (case date_param from_str of None \<Rightarrow> True | Some a \<Rightarrow> a \<le> t) \<and>
     (case date_param to_str of None \<Rightarrow> True | Some b \<Rightarrow> t < b)"

text \<open>\<open>str()\<close> of a stored moment is a parameter.\<close>

definition user_cells :: "(int \<Rightarrow> string) \<Rightarrow> user \<Rightarrow> string option list" where
  "user_cells show_time u = [Some (show_int (u_id u)), Some (cents_to_csv_amount (u_balance u)),
     map_option show_int (u_role_id u), map_option show_int (u_referral_id u), Some (show_time (u_registration_date u)),
     Some (if u_is_blocked u then ''True'' else ''False'')]"

definition purchase_cells :: "(int \<Rightarrow> string) \<Rightarrow> bought_goods \<Rightarrow> string option list" where
  "purchase_cells show_time b = [Some (show_int (bg_id b)), Some (bg_item_name b), Some (cents_to_csv_amount (bg_price b)),
     map_option show_int (bg_buyer_id b), Some (show_time (bg_datetime b)), Some (show_int (bg_unique_id b))]"

definition operation_cells :: "(int \<Rightarrow> string) \<Rightarrow> operation \<Rightarrow> string option list" where
  "operation_cells show_time x = [Some (show_int (op_id x)), map_option show_int (op_user_id x),
     Some (cents_to_csv_amount (op_value x)), Some (show_time (op_time x))]"

definition payment_cells :: "(int \<Rightarrow> string) \<Rightarrow> payment \<Rightarrow> string option list" where
  "payment_cells show_time p = [Some (show_int (pay_id p)), Some (pay_provider p), Some (pay_external_id p),
     map_option show_int (pay_user_id p), Some (cents_to_csv_amount (pay_amount p)), Some (pay_currency p),
     Some (pay_status p), Some (show_time (pay_created_at p))]"

definition stream_csv ::
    "string list \<Rightarrow> ('r \<Rightarrow> int) \<Rightarrow> ('r \<Rightarrow> string option list) \<Rightarrow> 'r list \<Rightarrow> string option" where
  "stream_csv columns key cells rows =
     map_option (\<lambda>rs. csv_row columns @ concat (map (\<lambda>r. csv_row (map sanitize_cell (cells r))) rs))
       (stream_rows BATCH_SIZE key rows None)"

datatype export_reply = Unauthorized | CsvFile "string option"

definition export_users ::
    "(int \<Rightarrow> string) \<Rightarrow> string option \<Rightarrow> string option \<Rightarrow> panel \<Rightarrow> export_reply" where
  "export_users show_time from_str to_str p =
     (if \<not> authenticate p then Unauthorized
      else CsvFile (stream_csv [''telegram_id'', ''balance'', ''role_id'', ''referral_id'', ''registration_date'', ''is_blocked'']
        u_id (user_cells show_time)
        (order_by_key u_id (filter (\<lambda>u. in_dates from_str to_str (u_registration_date u)) (t_users (pl_shop p))))))"

definition export_purchases ::
    "(int \<Rightarrow> string) \<Rightarrow> string option \<Rightarrow> string option \<Rightarrow> panel \<Rightarrow> export_reply" where
  "export_purchases show_time from_str to_str p =
     (if \<not> authenticate p then Unauthorized
      else CsvFile (stream_csv [''id'', ''item_name'', ''price'', ''buyer_id'', ''bought_datetime'', ''unique_id'']
        bg_id (purchase_cells show_time)
        (order_by_key bg_id (filter (\<lambda>b. in_dates from_str to_str (bg_datetime b)) (t_bought (pl_shop p))))))"

definition export_operations ::
    "(int \<Rightarrow> string) \<Rightarrow> string option \<Rightarrow> string option \<Rightarrow> panel \<Rightarrow> export_reply" where
  "export_operations show_time from_str to_str p =
     (if \<not> authenticate p then Unauthorized
      else CsvFile (stream_csv [''id'', ''user_id'', ''operation_value'', ''operation_time'']
        op_id (operation_cells show_time)
        (order_by_key op_id (filter (\<lambda>x. in_dates from_str to_str (op_time x)) (t_operations (pl_shop p))))))"

definition export_payments ::
    "(int \<Rightarrow> string) \<Rightarrow> string option \<Rightarrow> string option \<Rightarrow> panel \<Rightarrow> export_reply" where
  "export_payments show_time from_str to_str p =
     (if \<not> authenticate p then Unauthorized
      else CsvFile (stream_csv [''id'', ''provider'', ''external_id'', ''user_id'', ''amount'', ''currency'', ''status'', ''created_at'']
        pay_id (payment_cells show_time)
        (order_by_key pay_id (filter (\<lambda>x. in_dates from_str to_str (pay_created_at x)) (t_payments (pl_shop p))))))"

subsection \<open>Guessing the password\<close>

record login_attempt =
  la_time :: rat
  la_ip :: string
  la_username :: "string option"
  la_password :: "string option"

text \<open>
  The addresses whose attempts wait for their form, in the order they arrived, and the log of the
  attempts that got it: whether the credentials were compared and wrong, and the answer. A form can
  also fail to arrive.
\<close>

type_synonym login_log = "(login_attempt \<times> bool \<times> bool result) list"

record login_world =
  lw_waiting :: "string list"
  lw_log :: login_log
  lw_panel :: panel

datatype login_event =
    Asked rat string
  | FormRead nat rat "string option" "string option"
  | FormLost nat

primrec event_time :: "login_event \<Rightarrow> rat option" where
  "event_time (Asked t ip) = Some t"
| "event_time (FormRead i t u pw) = Some t"
| "event_time (FormLost i) = None"

definition event_times :: "login_event list \<Rightarrow> rat list" where
  "event_times es = List.map_filter event_time es"

definition drop_nth :: "nat \<Rightarrow> 'a list \<Rightarrow> 'a list" where
  "drop_nth i xs = take i xs @ drop (Suc i) xs"

definition wrong_guess :: "panel_config \<Rightarrow> login_attempt \<Rightarrow> bool" where
  "wrong_guess cfg a \<longleftrightarrow> credentials_ok cfg (la_username a) (la_password a) = Inr False"

definition read_form :: "panel_config \<Rightarrow> login_attempt \<Rightarrow> login_world \<Rightarrow> login_world" where
  "read_form cfg a st =
     (let (answer, p) = login_finish cfg (la_time a) (la_ip a) (la_username a) (la_password a) (lw_panel st)
      in st\<lparr>lw_log := lw_log st @ [(a, wrong_guess cfg a, answer)], lw_panel := p\<rparr>)"

primrec serve_login :: "panel_config \<Rightarrow> login_event \<Rightarrow> login_world \<Rightarrow> login_world" where
  "serve_login cfg (Asked t ip) st =
     (case login_begin t ip (lw_panel st) of (go_on, p) \<Rightarrow>
        st\<lparr>lw_panel := p, lw_waiting := lw_waiting st @ (if go_on then [ip] else [])\<rparr>)"
| "serve_login cfg (FormRead i t u pw) st =
     (if i < length (lw_waiting st)
      then read_form cfg \<lparr>la_time = t, la_ip = lw_waiting st ! i, la_username = u, la_password = pw\<rparr>
             (st\<lparr>lw_waiting := drop_nth i (lw_waiting st)\<rparr>)
      else st)"
| "serve_login cfg (FormLost i) st = st\<lparr>lw_waiting := drop_nth i (lw_waiting st)\<rparr>"

text \<open>The most attempts of an address that wait at the same time.\<close>

fun most_waiting :: "panel_config \<Rightarrow> string \<Rightarrow> login_event list \<Rightarrow> login_world \<Rightarrow> nat" where
  "most_waiting cfg ip [] st = count_list (lw_waiting st) ip"
| "most_waiting cfg ip (e # es) st = max (count_list (lw_waiting st) ip) (most_waiting cfg ip es (serve_login cfg e st))"

text \<open>The wrong guesses from an address since the last login from it.\<close>

definition guesses :: "string \<Rightarrow> login_log \<Rightarrow> rat list" where
  "guesses ip lg = map (\<lambda>(a, _). la_time a) (filter (\<lambda>(a, g, _). la_ip a = ip \<and> g)
     (rev (takeWhile (\<lambda>(a, _, r). \<not> (la_ip a = ip \<and> r = Inr True)) (rev lg))))"

definition stored_failures :: "string \<Rightarrow> login_limiter \<Rightarrow> rat list" where
  "stored_failures ip l = (case ll_attempts l ip of None \<Rightarrow> [] | Some ts \<Rightarrow> ts)"

lemma guesses_snoc:
  "guesses ip (lg @ [(a, g, r)]) =
     (if la_ip a = ip \<and> r = Inr True then [] else guesses ip lg @ (if la_ip a = ip \<and> g then [la_time a] else []))"
  by (simp add: guesses_def)

lemma count_drop_nth:
  "i < length xs \<Longrightarrow> count_list xs x = count_list (drop_nth i xs) x + (if xs ! i = x then 1 else 0)"
  by (subst id_take_nth_drop, assumption) (simp add: drop_nth_def)

lemma count_drop_nth_le: "count_list (drop_nth i xs) x \<le> count_list xs x"
  using count_drop_nth [of i xs x] by (cases "i < length xs") (simp_all add: drop_nth_def)

lemma recent_clean: "recent now l ts = clean_old_requests now ts (ll_lockout_seconds l)"
  by (simp add: recent_def clean_old_requests_def)

lemma is_blocked_effect:
  "is_blocked now ip l = (b, l') \<Longrightarrow>
     ll_max_attempts l' = ll_max_attempts l \<and> ll_lockout_seconds l' = ll_lockout_seconds l \<and>
     stored_failures k l' = (if k = ip then recent now l (stored_failures k l) else stored_failures k l) \<and>
     (0 < ll_max_attempts l \<longrightarrow> b = (ll_max_attempts l \<le> length (recent now l (stored_failures ip l))))"
  by (auto simp: is_blocked_def stored_failures_def recent_def split: option.splits)

lemma record_failure_effect:
  "ll_max_attempts (record_failure now ip l) = ll_max_attempts l \<and>
   ll_lockout_seconds (record_failure now ip l) = ll_lockout_seconds l \<and>
   (stored_failures k (record_failure now ip l) = stored_failures k l @ (if k = ip then [now] else []) \<or>
    stored_failures k (record_failure now ip l) = recent now l (stored_failures k l) @ (if k = ip then [now] else []))"
  by (auto simp: record_failure_def stored_failures_def Let_def recent_def split: option.splits)

lemma reset_effect:
  "ll_max_attempts (reset_attempts ip l) = ll_max_attempts l \<and>
   ll_lockout_seconds (reset_attempts ip l) = ll_lockout_seconds l \<and>
   stored_failures k (reset_attempts ip l) = (if k = ip then [] else stored_failures k l)"
  by (auto simp: reset_attempts_def stored_failures_def)

text \<open>
  With \<open>k\<close> attempts waiting and never more than \<open>n + x\<close> guesses in a window: the guesses that can still
  matter are among the stored stamps, and once they reach the limit, those that wait are all that can follow.
\<close>

definition guess_inv :: "nat \<Rightarrow> nat \<Rightarrow> rat \<Rightarrow> rat \<Rightarrow> rat list \<Rightarrow> rat list \<Rightarrow> nat \<Rightarrow> bool" where
  "guess_inv n x w latest A stored k \<longleftrightarrow>
     (\<forall>t. in_window w t A \<le> n + x) \<and>
     (\<forall>now \<ge> latest. length (clean_old_requests now A w) \<le> length (clean_old_requests now stored w)) \<and>
     (\<forall>now \<ge> latest. n \<le> length (clean_old_requests now A w) \<longrightarrow> length (clean_old_requests now A w) + k \<le> n + x)"

lemma clean_later: "now \<le> t \<Longrightarrow> length (clean_old_requests t ts w) \<le> length (clean_old_requests now ts w)"
  unfolding clean_old_requests_def by (induction ts) auto

lemma guess_inv_empty: "0 < n \<Longrightarrow> guess_inv n x w latest [] stored k"
  by (simp add: guess_inv_def in_window_def clean_old_requests_def)

lemma guess_inv_later: "guess_inv n x w latest A st k \<Longrightarrow> latest \<le> now \<Longrightarrow> guess_inv n x w now A st k"
  unfolding guess_inv_def by (meson order_trans)

lemma guess_inv_clean:
  "guess_inv n x w latest A st k \<Longrightarrow> latest \<le> now \<Longrightarrow> guess_inv n x w now A (clean_old_requests now st w) k"
  by (auto simp: guess_inv_def clean_clean)

lemma guess_inv_fewer: "guess_inv n x w latest A st k \<Longrightarrow> k' \<le> k \<Longrightarrow> guess_inv n x w latest A st k'"
  unfolding guess_inv_def by (meson add_le_mono1 add_left_mono order_trans)

lemma guess_inv_ask:
  assumes "guess_inv n x w now A st k" "length (clean_old_requests now st w) < n"
  shows "guess_inv n x w now A st (Suc k)"
proof -
  have "length (clean_old_requests t A w) < n" if "now \<le> t" for t
    using assms clean_later [OF that, of A w] by (auto simp: guess_inv_def intro: le_less_trans)
  then show ?thesis using assms(1) by (fastforce simp: guess_inv_def)
qed

lemma guess_inv_wrong:
  assumes "guess_inv n x w latest A st (Suc k)" "latest \<le> now" "k \<le> x"
  shows "guess_inv n x w now (A @ [now]) (st @ [now]) k"
proof -
  have end_ok: "length (clean_old_requests t A w) + 1 + k \<le> n + x \<or> length (clean_old_requests t A w) < n" if "now \<le> t" for t
    using assms that by (auto simp: guess_inv_def not_less)
  have "in_window w t (A @ [now]) \<le> n + x" for t
  proof (cases "now \<le> t")
    case True
    have "in_window w t A \<le> length (clean_old_requests now A w)" using True by (rule in_window_le_clean)
    moreover have "in_window w t [now] \<le> 1" by (simp add: in_window_def)
    ultimately show ?thesis using end_ok [of now] by (auto simp: in_window_append)
  next
    case False
    then show ?thesis using assms(1) by (simp add: in_window_append guess_inv_def) (simp add: in_window_def)
  qed
  moreover have "length (clean_old_requests t (A @ [now]) w) + k \<le> n + x"
    if "now \<le> t" "n \<le> length (clean_old_requests t (A @ [now]) w)" for t
  proof -
    have "length (clean_old_requests t [now] w) \<le> 1" by (simp add: clean_old_requests_def)
    then show ?thesis using that end_ok [OF that(1)] assms(3) by auto
  qed
  ultimately show ?thesis using assms(1,2) by (auto simp: guess_inv_def)
qed

definition login_inv :: "nat \<Rightarrow> nat \<Rightarrow> rat \<Rightarrow> string \<Rightarrow> rat \<Rightarrow> login_world \<Rightarrow> bool" where
  "login_inv n x w ip latest st \<longleftrightarrow>
     ll_max_attempts (pl_limiter (lw_panel st)) = n \<and> ll_lockout_seconds (pl_limiter (lw_panel st)) = w \<and>
     guess_inv n x w latest (guesses ip (lw_log st)) (stored_failures ip (pl_limiter (lw_panel st)))
       (count_list (lw_waiting st) ip)"

lemma ask_inv:
  assumes "login_inv n x w ip latest st" "0 < n" "latest \<le> t"
  shows "login_inv n x w ip t (serve_login cfg (Asked t from) st)"
proof -
  obtain b l where blk: "is_blocked t from (pl_limiter (lw_panel st)) = (b, l)" by fastforce
  note eff = is_blocked_effect [OF blk, of ip]
  let ?A = "guesses ip (lw_log st)" and ?k = "count_list (lw_waiting st) ip"
  have inv: "guess_inv n x w latest ?A (stored_failures ip (pl_limiter (lw_panel st))) ?k"
    using assms(1) by (simp add: login_inv_def)
  have inv_l: "guess_inv n x w t ?A (stored_failures ip l) ?k"
    using eff guess_inv_later [OF inv assms(3)] guess_inv_clean [OF inv assms(3)] assms(1)
    by (auto simp: recent_clean login_inv_def)
  have "guess_inv n x w t ?A (stored_failures ip l) (Suc ?k)" if "\<not> b" "from = ip"
    by (rule guess_inv_ask [OF inv_l]) (use that eff assms(1,2) in \<open>auto simp: recent_clean login_inv_def clean_clean not_le\<close>)
  then show ?thesis using inv_l eff assms(1)
    by (cases b) (auto simp: login_inv_def login_begin_def blk)
qed

lemma read_inv:
  assumes "login_inv n x w ip latest st" "0 < n" "latest \<le> t" "i < length (lw_waiting st)"
    and most: "count_list (lw_waiting st) ip \<le> Suc x"
  shows "login_inv n x w ip t (serve_login cfg (FormRead i t u pw) st)"
proof -
  define a where "a = \<lparr>la_time = t, la_ip = lw_waiting st ! i, la_username = u, la_password = pw\<rparr>"
  define l where "l = pl_limiter (lw_panel st)"
  let ?A = "guesses ip (lw_log st)" and ?k = "count_list (drop_nth i (lw_waiting st)) ip"
  have cnt: "count_list (lw_waiting st) ip = ?k + (if la_ip a = ip then 1 else 0)"
    using count_drop_nth [OF assms(4)] by (simp add: a_def)
  have cfg: "ll_max_attempts l = n" "ll_lockout_seconds l = w" using assms(1) by (simp_all add: login_inv_def l_def)
  have inv: "guess_inv n x w latest ?A (stored_failures ip l) (count_list (lw_waiting st) ip)"
    using assms(1) by (simp add: login_inv_def l_def)
  have inv': "guess_inv n x w t ?A (stored_failures ip l) ?k"
    by (rule guess_inv_fewer [OF guess_inv_later [OF inv assms(3)]]) (simp add: cnt)
  consider err where "credentials_ok cfg u pw = Inl err" | "credentials_ok cfg u pw = Inr True"
    | "credentials_ok cfg u pw = Inr False" by (cases "credentials_ok cfg u pw") auto
  then show ?thesis
  proof cases
    case 1
    then show ?thesis using inv' cfg assms(4)
      by (simp add: login_inv_def read_form_def login_finish_def wrong_guess_def guesses_snoc flip: l_def)
  next
    case 2
    then show ?thesis using inv' cfg assms(4) guess_inv_empty [OF assms(2)]
      by (auto simp: login_inv_def read_form_def login_finish_def wrong_guess_def guesses_snoc reset_effect simp flip: l_def)
  next
    case 3
    have wrong: "guess_inv n x w t (?A @ [t]) (s @ [t]) ?k"
      if "la_ip a = ip" "s = stored_failures ip l \<or> s = clean_old_requests t (stored_failures ip l) w" for s
    proof (rule guess_inv_wrong [OF _ order_refl])
      show "guess_inv n x w t ?A s (Suc ?k)"
        using that guess_inv_later [OF inv assms(3)] guess_inv_clean [OF inv assms(3)] cnt by auto
      show "?k \<le> x" using most cnt that(1) by simp
    qed
    have "guess_inv n x w t (?A @ (if la_ip a = ip then [t] else []))
        (stored_failures ip (record_failure t (la_ip a) l)) ?k"
      using record_failure_effect [of t "la_ip a" l ip] wrong inv' guess_inv_clean [OF inv' order_refl]
      by (auto simp: recent_clean cfg)
    then show ?thesis using 3 record_failure_effect [of t "la_ip a" l ip] cfg assms(4)
      by (auto simp: login_inv_def read_form_def login_finish_def wrong_guess_def guesses_snoc a_def simp flip: l_def)
  qed
qed

lemma lost_inv: "login_inv n x w ip latest st \<Longrightarrow> login_inv n x w ip latest (serve_login cfg (FormLost i) st)"
  by (auto simp: login_inv_def intro: guess_inv_fewer count_drop_nth_le)

lemma login_run_inv:
  assumes "login_inv n x w ip latest st" "0 < n" "sorted (latest # event_times es)" "most_waiting cfg ip es st \<le> Suc x"
  shows "\<exists>t. login_inv n x w ip t (fold (serve_login cfg) es st)"
  using assms
proof (induction es arbitrary: latest st)
  case (Cons e es)
  have rest: "most_waiting cfg ip es (serve_login cfg e st) \<le> Suc x" using Cons.prems(4) by simp
  show ?case
  proof (cases e)
    case (Asked t ip2)
    with ask_inv [OF Cons.prems(1,2), of t cfg ip2] Cons.prems(3) Cons.IH [OF _ Cons.prems(2) _ rest]
    show ?thesis by (auto simp: event_times_def List.map_filter_simps)
  next
    case (FormRead i t u pw)
    have "latest \<le> t" using Cons.prems(3) FormRead by (simp add: event_times_def List.map_filter_simps)
    moreover have "login_inv n x w ip t (serve_login cfg e st)"
      using read_inv [OF Cons.prems(1,2) calculation, of i cfg u pw] Cons.prems(1,4) FormRead calculation
      by (cases "i < length (lw_waiting st)") (auto simp: login_inv_def intro: guess_inv_later)
    ultimately show ?thesis using Cons.prems(3) FormRead Cons.IH [OF _ Cons.prems(2) _ rest]
      by (auto simp: event_times_def List.map_filter_simps)
  next
    case (FormLost i)
    with lost_inv [OF Cons.prems(1), of cfg i] Cons.prems(3) Cons.IH [OF _ Cons.prems(2) _ rest]
    show ?thesis by (auto simp: event_times_def List.map_filter_simps)
  qed
qed auto

definition login_start :: "rat \<Rightarrow> bool \<Rightarrow> shop \<Rightarrow> login_world" where
  "login_start t0 c s = \<lparr>lw_waiting = [], lw_log = [],
     lw_panel = \<lparr>pl_limiter = new_login_limiter t0, pl_authenticated = c, pl_shop = s\<rparr>\<rparr>"

text \<open>Claim: at most five wrong guesses in any fifteen minutes, and one more for every further attempt of
  the address that waits for its form at the same time.\<close>

text \<open>C30: However login attempts of all addresses interleave, at times that do not run backwards, with
  the wait for the form between the check and the comparison, at most five wrong guesses of one
  address, plus one for every further attempt of it that waits for its form at the same time, are
  compared with the credentials in any fifteen minutes since the last login from it; five when the
  attempts of the address come one after the other.\<close>
theorem password_guesses_bounded:
  assumes "sorted (event_times es)"
  shows "in_window 900 t (guesses ip (lw_log (fold (serve_login cfg) es (login_start t0 c s))))
      \<le> 5 + (most_waiting cfg ip es (login_start t0 c s) - 1)"
proof -
  define x where "x = most_waiting cfg ip es (login_start t0 c s) - 1"
  have start: "login_inv 5 x 900 ip t1 (login_start t0 c s)" for t1
    by (simp add: login_inv_def login_start_def new_login_limiter_def guesses_def guess_inv_empty)
  have "\<exists>t1. sorted (t1 # event_times es)" by (cases "event_times es") (use assms in auto)
  then obtain t1 where "sorted (t1 # event_times es)" ..
  from login_run_inv [OF start _ this]
  show ?thesis by (auto simp: login_inv_def guess_inv_def x_def)
qed

definition sample_panel :: panel where
  "sample_panel = \<lparr>pl_limiter = new_login_limiter 0, pl_authenticated = False, pl_shop = empty_shop\<rparr>"

definition sample_panel_config :: panel_config where
  "sample_panel_config = \<lparr>pn_username = ''boss'', pn_password = ''k3y'', pn_operator_id = None, pn_operator_mode = False\<rparr>"

text \<open>Seven attempts one after the other, and seven whose forms arrive after all have been asked for.\<close>

definition one_by_one :: "login_event list" where
  "one_by_one = concat (map (\<lambda>t. [Asked t ''10.0.0.9'', FormRead 0 t (Some ''boss'') (Some ''guess'')])
     [10, 20, 30, 40, 50, 60, 70])"

definition all_at_once :: "login_event list" where
  "all_at_once = map (\<lambda>t. Asked t ''10.0.0.9'') [10, 20, 30, 40, 50, 60, 70] @
     map (\<lambda>t. FormRead 0 t (Some ''boss'') (Some ''guess'')) [80, 81, 82, 83, 84, 85, 86]"

definition guesses_made :: "login_event list \<Rightarrow> nat" where
  "guesses_made es = in_window 900 100 (guesses ''10.0.0.9''
     (lw_log (fold (serve_login sample_panel_config) es (login_start 0 False empty_shop))))"

lemma one_by_one_waits: "most_waiting sample_panel_config ''10.0.0.9'' one_by_one (login_start 0 False empty_shop) = 1"
  by code_simp

theorem password_guesses_bounded_witness: "guesses_made one_by_one \<le> 5"
proof -
  have "sorted (event_times one_by_one)" by code_simp
  from password_guesses_bounded [OF this, of 100 "''10.0.0.9''" sample_panel_config 0 False empty_shop]
  show ?thesis by (simp add: guesses_made_def one_by_one_waits)
qed

text \<open>The check passes for every attempt that asks before the first failure is counted.\<close>

lemma concurrent_guesses_pass: "guesses_made all_at_once = 7" "guesses_made one_by_one = 5"
  by code_simp+

subsection \<open>Exports\<close>

text \<open>A reader of CSV files: quoted fields, doubled quotes, records that end with a line feed.\<close>

datatype csv_mode = FieldStart | Plain | Quoted | QuoteSeen

fun csv_scan :: "csv_mode \<Rightarrow> string \<Rightarrow> string list \<Rightarrow> string \<Rightarrow> string list list" where
  "csv_scan m f row [] = (if m = FieldStart \<and> f = [] \<and> row = [] then [] else [row @ [f]])"
| "csv_scan m f row (c # cs) =
     (if m = Quoted then (if c = CHR 0x22 then csv_scan QuoteSeen f row cs else csv_scan Quoted (f @ [c]) row cs)
      else if m = QuoteSeen \<and> c = CHR 0x22 then csv_scan Quoted (f @ [c]) row cs
      else if m = FieldStart \<and> c = CHR 0x22 then csv_scan Quoted f row cs
      else if c = CHR '','' then csv_scan FieldStart [] (row @ [f]) cs
      else if c = CHR 0x0D then csv_scan Plain f row cs
      else if c = CHR 0x0A then (row @ [f]) # csv_scan FieldStart [] [] cs
      else csv_scan Plain (f @ [c]) row cs)"

definition csv_read :: "string \<Rightarrow> string list list" where
  "csv_read t = csv_scan FieldStart [] [] t"

lemma scan_plain:
  "\<not> list_ex (\<lambda>c. c \<in> {CHR '','', CHR 0x22, CHR 0x0D, CHR 0x0A}) f \<Longrightarrow> m \<in> {FieldStart, Plain} \<Longrightarrow> c \<in> {CHR '','', CHR 0x0D} \<Longrightarrow>
     csv_scan m acc row (f @ c # cs) = csv_scan Plain (acc @ f) row (c # cs)"
  by (induction f arbitrary: acc m) auto

lemma scan_quoted:
  "csv_scan Quoted acc row (concat (map (\<lambda>c. if c = CHR 0x22 then [c, c] else [c]) f) @ CHR 0x22 # cs) =
     csv_scan QuoteSeen (acc @ f) row cs"
  by (induction f arbitrary: acc) auto

lemma scan_field:
  "c \<in> {CHR '','', CHR 0x0D} \<Longrightarrow> csv_scan FieldStart [] row (csv_field f @ c # cs) = csv_scan Plain f row (c # cs)"
  using scan_plain [of f FieldStart c "[]" row cs] scan_quoted [of "[]" row f "c # cs"]
  by (auto simp: csv_field_def)

lemma scan_row:
  "xs \<noteq> [] \<Longrightarrow> csv_scan FieldStart [] row (csv_row xs @ cs) = (row @ xs) # csv_scan FieldStart [] [] cs"
proof (induction xs arbitrary: row rule: induct_list012)
  case (2 x)
  then show ?case using scan_field [of "CHR 0x0D" row x] by (simp add: csv_row_def)
next
  case (3 x y zs)
  then show ?case using scan_field [of "CHR '',''" row x] by (simp add: csv_row_def)
qed simp

lemma csv_read_rows:
  "(\<forall>xs \<in> set xss. xs \<noteq> []) \<Longrightarrow> csv_read (concat (map csv_row xss)) = xss"
  by (induction xss) (simp_all add: csv_read_def scan_row)

lemma sanitize_cell_safe: "sanitize_cell v = [] \<or> hd (sanitize_cell v) \<notin> set INJECTION_PREFIXES"
  by (auto simp: sanitize_cell_def INJECTION_PREFIXES_def split: option.splits)

lemma sorted_behind:
  fixes key :: "'r \<Rightarrow> int"
  assumes "sorted_wrt (<) (map key (a @ x # b))"
  shows "filter (\<lambda>r. key x < key r) (a @ x # b) = b"
proof -
  have "filter (\<lambda>r. key x < key r) a = []" using assms by (auto simp: sorted_wrt_append filter_empty_conv intro: less_imp_not_less)
  moreover have "filter (\<lambda>r. key x < key r) b = b" using assms by (auto simp: sorted_wrt_append)
  ultimately show ?thesis by simp
qed

lemma stream_rows_suffix:
  assumes "sorted_wrt (<) (map key rows)" "0 < n"
    "(case lk of None \<Rightarrow> rows | Some k \<Rightarrow> filter (\<lambda>r. k < key r) rows) = drop i rows"
  shows "stream_rows n key rows lk = Some (drop i rows)"
  using assms(3)
proof (induction "length rows - i" arbitrary: i lk rule: less_induct)
  case less
  let ?rest = "drop i rows" and ?batch = "take n (drop i rows)"
  have b: "export_batch n key lk rows = ?batch" by (simp add: export_batch_def less.prems)
  show ?case
  proof (cases "length ?batch < n")
    case True
    then show ?thesis by (subst stream_rows.simps) (simp add: b Let_def min_def split: if_splits)
  next
    case False
    then have len: "i + n \<le> length rows" using assms(2) by simp
    let ?x = "rows ! (i + n - 1)"
    have last: "last ?batch = ?x" using len assms(2) by (simp add: last_conv_nth)
    have split: "rows = take (i + n - 1) rows @ ?x # drop (i + n) rows"
      using id_take_nth_drop [of "i + n - 1" rows] len assms(2) by simp
    have "filter (\<lambda>r. key ?x < key r) rows = drop (i + n) rows"
      using sorted_behind [of key "take (i + n - 1) rows" ?x "drop (i + n) rows"] assms(1) by (simp only: split [symmetric])
    then have "stream_rows n key rows (Some (key (last ?batch))) = Some (drop (i + n) rows)"
      using less.hyps [of "i + n" "Some (key ?x)"] len assms(2) by (simp add: last)
    then show ?thesis using False len assms(2) append_take_drop_id [of n ?rest]
      by (subst stream_rows.simps) (simp add: b Let_def add.commute)
  qed
qed

lemma stream_rows_all: "sorted_wrt (<) (map key rows) \<Longrightarrow> 0 < n \<Longrightarrow> stream_rows n key rows None = Some rows"
  using stream_rows_suffix [of key rows n None 0] by simp

lemma order_by_key_strict: "distinct (map key rows) \<Longrightarrow> sorted_wrt (<) (map key (order_by_key key rows))"
  by (simp add: order_by_key_def strict_sorted_iff distinct_map)

text \<open>Claim: an export ends; the file reads back as the header and one record per row, in key order, and no
  cell starts like a formula.\<close>

text \<open>C31: A CSV export of rows with unique keys ends, and the file reads back as the header followed by
  one record per row in key order, with no cell that a spreadsheet would take for a formula.\<close>
theorem exports_read_back:
  assumes "distinct (map key rows)" "columns \<noteq> []" "\<forall>r \<in> set rows. cells r \<noteq> []"
  shows "\<exists>t. stream_csv columns key cells (order_by_key key rows) = Some t \<and>
    csv_read t = columns # map (\<lambda>r. map sanitize_cell (cells r)) (order_by_key key rows) \<and>
    (\<forall>record \<in> set (tl (csv_read t)). \<forall>c \<in> set record. c = [] \<or> hd c \<notin> set INJECTION_PREFIXES)"
proof -
  let ?rows = "map (\<lambda>r. map sanitize_cell (cells r)) (order_by_key key rows)"
  have "stream_csv columns key cells (order_by_key key rows) = Some (concat (map csv_row (columns # ?rows)))"
    using stream_rows_all [OF order_by_key_strict [OF assms(1)]] by (simp add: stream_csv_def BATCH_SIZE_def comp_def)
  moreover have "csv_read (concat (map csv_row (columns # ?rows))) = columns # ?rows"
    by (rule csv_read_rows) (use assms(2,3) in \<open>auto simp: order_by_key_def\<close>)
  ultimately show ?thesis using sanitize_cell_safe by auto
qed

theorem exports_read_back_witness:
  "\<exists>t. stream_csv [''memo'', ''state''] fst (\<lambda>(i, m). [m, Some ''x'']) (order_by_key fst [(2, Some ''=a''), (1, Some [CHR 0x22])]) = Some t \<and>
     csv_read t = [[''memo'', ''state''], [[CHR 0x22], ''x''], [CHR 0x27 # ''=a'', ''x'']]"
  using exports_read_back [of fst "[(2::int, Some ''=a''), (1, Some [CHR 0x22])]" "[''memo'', ''state'']" "\<lambda>(i, m). [m, Some ''x'']"]
  by (auto simp: order_by_key_def sanitize_cell_def INJECTION_PREFIXES_def)

subsection \<open>What the panel gets wrong\<close>

text \<open>The address the limiter and the default-credentials guard see is the first hop, which the client sends itself.\<close>

lemma first_hop_is_the_clients: "client_ip (Some ''127.0.0.1'') ''127.0.0.1, 203.0.113.9'' = ''127.0.0.1''"
  by (simp add: client_ip_def) code_simp

text \<open>The clause for a refused refund is never reached: its exception is a subclass of the one caught before.\<close>

lemma refused_refund_is_not_found: "run_manual_refund e x w s = Inr ((m, c), s') \<Longrightarrow> m \<noteq> RefundNotAllowed t"
  by (auto simp: run_manual_refund_def is_order_error_def split: sum.splits if_splits exn.splits)

text \<open>A valid reply written on the page is never saved.\<close>

lemma panel_reply_fails:
  "staff_reply e tid staff body s = Inr (msg, s1) \<Longrightarrow> f \<noteq> [] \<Longrightarrow> g \<noteq> [] \<Longrightarrow> parse_int f = Inr tid \<Longrightarrow> parse_int g = Inr staff \<Longrightarrow>
     support_reply_page e (Some f) body (Some g) s = Inl (OtherError ''InvalidRequestError'')"
  by (simp add: support_reply_page_def support_answer_def hasattr_ticket_def run_session_def truthy_str_def)

text \<open>A name or password with a character beyond ASCII ends in an exception that is not counted.\<close>

lemma non_ascii_is_not_counted:
  "\<not> list_all (\<lambda>c. of_char c < (128::nat)) u \<Longrightarrow> is_blocked now ip (pl_limiter p) = (False, l) \<Longrightarrow>
     login cfg now later ip (Some u) pw p = (Inl (OtherError ''TypeError''), p\<lparr>pl_limiter := l\<rparr>)"
  by (simp add: login_def login_begin_def login_finish_def credentials_ok_def compare_digest_def str_of_field_def)

end
