(* ===== verification/Broadcast.thy ===== *)
theory Broadcast
  imports Validation Catalog Stats
begin

text \<open>
  Mass mailing: \<open>misc/services/broadcast_system.py\<close>, the dialogue of \<open>handlers/admin/broadcast.py\<close> and the
  restock notices of \<open>misc/services/restock_notifier.py\<close>.  What Telegram answers to each attempt is a
  function of the user and the number of the attempt; keyboards, pauses between batches and durations are left out.
\<close>

subsection \<open>Sending one message\<close>

datatype api_reply = ApiOk | RetryAfter rat | ApiForbidden | ApiBadRequest | ApiError

text \<open>The verdict on one user, and how long it slept between the attempts.\<close>

fun send_attempts :: "(nat \<Rightarrow> api_reply) \<Rightarrow> nat \<Rightarrow> nat \<Rightarrow> string \<times> rat list" where
  "send_attempts reply retry_count 0 = (''failed'', [])"
| "send_attempts reply retry_count (Suc left) =
     (let attempt = retry_count - Suc left;
          again = (\<lambda>pause. if attempt + 1 < retry_count
                     then (let (verdict, pauses) = send_attempts reply retry_count left in (verdict, pause # pauses))
                     else (''failed'', []))
      in case reply attempt of
           ApiOk \<Rightarrow> (''sent'', [])
         | RetryAfter t \<Rightarrow> again t
         | ApiForbidden \<Rightarrow> (''blocked'', [])
         | ApiBadRequest \<Rightarrow> (''failed'', [])
         | ApiError \<Rightarrow> again 1)"

definition send_message_safe :: "nat \<Rightarrow> (nat \<Rightarrow> api_reply) \<Rightarrow> string \<times> rat list" where
  "send_message_safe retry_count reply = send_attempts reply retry_count retry_count"

subsection \<open>Mailing in batches\<close>

record broadcast_stats =
  bs_total :: nat
  bs_sent :: nat
  bs_failed :: nat
  bs_blocked :: nat

definition success_rate :: "broadcast_stats \<Rightarrow> rat" where
  "success_rate st = (if bs_total st = 0 then 0 else of_nat (bs_sent st) / of_nat (bs_total st) * 100)"

record broadcast_manager =
  bm_batch_size :: nat
  bm_retry_count :: nat

definition default_manager :: broadcast_manager where
  "default_manager = \<lparr>bm_batch_size = 25, bm_retry_count = 3\<rparr>"

definition count_result :: "string \<Rightarrow> broadcast_stats \<Rightarrow> broadcast_stats" where
  "count_result r st =
     (if r = ''sent'' then st\<lparr>bs_sent := bs_sent st + 1\<rparr>
      else if r = ''blocked'' then st\<lparr>bs_blocked := bs_blocked st + 1\<rparr>
      else st\<lparr>bs_failed := bs_failed st + 1\<rparr>)"

text \<open>
  The batches from batch \<open>i\<close> on: the statistics at the end, the users written to with the verdict, and the
  statistics shown after every batch.  \<open>cancelled i\<close> says whether \<open>cancel\<close> was called before batch \<open>i\<close> starts.
\<close>

function broadcast_batches ::
    "broadcast_manager \<Rightarrow> (int \<Rightarrow> nat \<Rightarrow> api_reply) \<Rightarrow> (nat \<Rightarrow> bool) \<Rightarrow> nat \<Rightarrow> int list \<Rightarrow> broadcast_stats
     \<Rightarrow> broadcast_stats \<times> (int \<times> string) list \<times> broadcast_stats list" where
  "broadcast_batches m reply cancelled i user_ids st =
     (if user_ids = [] \<or> bm_batch_size m = 0 \<or> cancelled i then (st, [], [])
      else
        (let batch = take (bm_batch_size m) user_ids;
             results = map (\<lambda>u. fst (send_message_safe (bm_retry_count m) (reply u))) batch;
             st1 = fold count_result results st;
             (st2, told, shown) = broadcast_batches m reply cancelled (i + 1) (drop (bm_batch_size m) user_ids) st1
         in (st2, zip batch results @ told, st1 # shown)))"
  by pat_completeness auto
termination by (relation "measure (\<lambda>(m, reply, cancelled, i, user_ids, st). length user_ids)") auto

declare broadcast_batches.simps [simp del]

text \<open>\<open>range\<close> refuses a step of zero.\<close>

definition broadcast ::
    "broadcast_manager \<Rightarrow> (int \<Rightarrow> nat \<Rightarrow> api_reply) \<Rightarrow> (nat \<Rightarrow> bool) \<Rightarrow> int list
     \<Rightarrow> (broadcast_stats \<times> (int \<times> string) list \<times> broadcast_stats list) result" where
  "broadcast m reply cancelled user_ids =
     (if bm_batch_size m = 0 then Inl (ValueError ''range() arg 3 must not be zero'')
      else Inr (broadcast_batches m reply cancelled 0 user_ids
             \<lparr>bs_total = length user_ids, bs_sent = 0, bs_failed = 0, bs_blocked = 0\<rparr>))"

subsection \<open>The dialogue of an administrator\<close>

text \<open>\<open>broadcast_managers\<close>: a slot is reserved until the manager exists, which may have been cancelled.\<close>

datatype slot = Reserved | Running bool

type_synonym slots = "int \<Rightarrow> slot option"

definition broadcast_begin :: "int \<Rightarrow> slots \<Rightarrow> (slots, string) sum" where
  "broadcast_begin admin_id slots =
     (if slots admin_id \<noteq> None then Inr ''broadcast.already_running'' else Inl (slots(admin_id \<mapsto> Reserved)))"

definition broadcast_launch :: "int \<Rightarrow> slots \<Rightarrow> slots" where
  "broadcast_launch admin_id slots = slots(admin_id \<mapsto> Running False)"

definition broadcast_end :: "int \<Rightarrow> slots \<Rightarrow> slots" where
  "broadcast_end admin_id slots = slots(admin_id := None)"

definition cancel_broadcast_handler :: "int \<Rightarrow> slots \<Rightarrow> string \<times> slots" where
  "cancel_broadcast_handler admin_id slots =
     (case slots admin_id of
        Some (Running c) \<Rightarrow> (''broadcast.cancel'', slots(admin_id \<mapsto> Running True))
      | _ \<Rightarrow> (''broadcast.warning'', slots))"

text \<open>
  What Telegram answers during one mailing: to the administrator's own messages (the request is deleted
  and the progress message is sent, the progress is edited after every batch, the final edit), and to the users.
\<close>

record bot_world =
  bw_prepare :: api_reply
  bw_progress :: "nat \<Rightarrow> api_reply"
  bw_final :: api_reply
  bw_reply :: "int \<Rightarrow> nat \<Rightarrow> api_reply"
  bw_cancelled :: "nat \<Rightarrow> bool"

definition progress_percent :: "broadcast_stats \<Rightarrow> rat" where
  "progress_percent st =
     of_nat (bs_sent st + bs_failed st + bs_blocked st) / of_nat (bs_total st) * 100"

text \<open>Other exceptions of the progress edit end in the manager, which logs them.\<close>

definition update_progress :: "bot_world \<Rightarrow> nat \<Rightarrow> shop \<Rightarrow> shop" where
  "update_progress w i s =
     (if bw_progress w i \<in> {ApiBadRequest, ApiForbidden}
      then log_audit ''broadcast_progress_fail'' ''WARNING'' None None None s else s)"

text \<open>
  The body of the \<open>try\<close> block, from validation to the final message: the mail that went out (the text and
  the users with their verdicts), and either the exception or the statistics.
\<close>

definition broadcast_error :: "int \<Rightarrow> shop \<Rightarrow> shop" where
  "broadcast_error admin_id = log_audit ''broadcast_error'' ''ERROR'' (Some admin_id) None None"

definition broadcast_body ::
    "bot_world \<Rightarrow> int \<Rightarrow> string \<Rightarrow> shop \<Rightarrow> string \<times> (string \<times> (int \<times> string) list) option \<times> shop" where
  "broadcast_body w admin_id words s =
     (case broadcast_message words of
        Inl err \<Rightarrow> (''errors.invalid_data'', None, broadcast_error admin_id s)
      | Inr () \<Rightarrow>
          (let safe_text = sanitize_html words; user_ids = get_all_users s
           in if bw_prepare w \<noteq> ApiOk then (''errors.invalid_data'', None, broadcast_error admin_id s)
              else case broadcast default_manager (bw_reply w) (bw_cancelled w) user_ids of
                Inl err \<Rightarrow> (''errors.invalid_data'', None, broadcast_error admin_id s)
              | Inr (stats, told, shown) \<Rightarrow>
                  (let s1 = fold (update_progress w) [0..<length shown] s
                   in if bw_final w \<notin> {ApiOk, ApiBadRequest}
                      then (''errors.invalid_data'', Some (safe_text, told), broadcast_error admin_id s1)
                      else (let s2 = (if bw_final w = ApiBadRequest
                                   then log_audit ''broadcast_final_edit_fail'' ''WARNING'' None None None s1 else s1)
                            in (''broadcast.done'', Some (safe_text, told),
                                log_audit ''broadcast_sent'' ''INFO'' (Some admin_id) None None s2)))))"

text \<open>The whole handler; \<open>finally\<close> gives the slot back.\<close>

definition broadcast_messages ::
    "bot_world \<Rightarrow> int \<Rightarrow> string \<Rightarrow> slots \<times> shop \<Rightarrow> string \<times> (string \<times> (int \<times> string) list) option \<times> slots \<times> shop" where
  "broadcast_messages w admin_id words ss =
     (case broadcast_begin admin_id (fst ss) of
        Inr answer \<Rightarrow> (answer, None, ss)
      | Inl slots \<Rightarrow>
          (let (answer, mail, s1) = broadcast_body w admin_id words (snd ss)
           in (answer, mail, broadcast_end admin_id (broadcast_launch admin_id slots), s1)))"

subsection \<open>Restock notices\<close>

text \<open>Nobody holds the manager of a notice, so it is never cancelled.\<close>

definition notify_restock ::
    "(int \<Rightarrow> nat \<Rightarrow> api_reply) \<Rightarrow> string \<Rightarrow> shop \<Rightarrow> ((nat \<times> (int \<times> string) list) \<times> shop) result" where
  "notify_restock reply item_name s =
     tx_bind (pop_stock_subscribers item_name s) (\<lambda>(user_ids, s1).
       if user_ids = [] then Inr ((0, []), s1)
       else tx_bind (broadcast default_manager reply (\<lambda>_. False) user_ids) (\<lambda>(stats, told, _).
         Inr ((bs_sent stats, told), s1)))"

subsection \<open>Properties\<close>

definition retryable :: "api_reply \<Rightarrow> bool" where
  "retryable r \<longleftrightarrow> (case r of RetryAfter t \<Rightarrow> True | ApiError \<Rightarrow> True | _ \<Rightarrow> False)"

text \<open>The first answer that is not retryable decides; \<open>n\<close> of them in a row give up.\<close>

definition first_answer :: "(nat \<Rightarrow> api_reply) \<Rightarrow> nat list \<Rightarrow> api_reply option" where
  "first_answer reply ks = find (\<lambda>r. \<not> retryable r) (map reply ks)"

definition verdict_of :: "api_reply option \<Rightarrow> string" where
  "verdict_of r = (case r of Some ApiOk \<Rightarrow> ''sent'' | Some ApiForbidden \<Rightarrow> ''blocked'' | _ \<Rightarrow> ''failed'')"

lemma send_attempts_verdict:
  "left \<le> n \<Longrightarrow> fst (send_attempts reply n left) = verdict_of (first_answer reply [n - left..<n])"
proof (induction left)
  case 0
  then show ?case by (simp add: verdict_of_def first_answer_def)
next
  case (Suc left)
  then have "[n - Suc left..<n] = (n - Suc left) # [n - left..<n]" by (simp add: upt_rec [of "n - Suc left"] Suc_diff_Suc)
  moreover have "left = 0" if "\<not> n - Suc left + 1 < n" using that Suc.prems by simp
  ultimately show ?case using Suc
    by (cases "reply (n - Suc left)")
      (auto simp: Let_def split_beta verdict_of_def first_answer_def retryable_def)
qed

lemma send_attempts_pauses: "length (snd (send_attempts reply n left)) \<le> left - 1"
  by (induction left) (auto simp: Let_def split_beta split: api_reply.split)

theorem mail_attempts_bounded:
  "fst (send_message_safe n reply) = verdict_of (first_answer reply [0..<n]) \<and>
   length (snd (send_message_safe n reply)) \<le> n - 1"
  using send_attempts_verdict [of n n reply] send_attempts_pauses [of reply n n] by (simp add: send_message_safe_def)

lemma count_result_total:
  "bs_sent (fold count_result rs st) + bs_failed (fold count_result rs st) + bs_blocked (fold count_result rs st) =
     bs_sent st + bs_failed st + bs_blocked st + length rs"
proof (induction rs arbitrary: st)
  case (Cons r rs)
  have "bs_sent (count_result r st) + bs_failed (count_result r st) + bs_blocked (count_result r st) =
      bs_sent st + bs_failed st + bs_blocked st + 1"
    by (simp add: count_result_def)
  then show ?case using Cons by simp
qed simp

lemma count_results:
  "bs_sent (fold count_result rs st) = bs_sent st + count_list rs ''sent'' \<and>
   bs_blocked (fold count_result rs st) = bs_blocked st + count_list rs ''blocked'' \<and>
   bs_total (fold count_result rs st) = bs_total st"
  by (induction rs arbitrary: st) (auto simp: count_result_def)

text \<open>The users of a mailing with the verdict on each.\<close>

definition mailed :: "broadcast_manager \<Rightarrow> (int \<Rightarrow> nat \<Rightarrow> api_reply) \<Rightarrow> int list \<Rightarrow> (int \<times> string) list" where
  "mailed m reply user_ids = map (\<lambda>u. (u, fst (send_message_safe (bm_retry_count m) (reply u)))) user_ids"

lemma batches_outcome:
  assumes "broadcast_batches m reply cancelled i ids st = (st', told, shown)" "0 < bm_batch_size m"
  shows "told = mailed m reply (take (length shown * bm_batch_size m) ids) \<and>
    bs_sent st' = bs_sent st + count_list (map snd told) ''sent'' \<and>
    bs_blocked st' = bs_blocked st + count_list (map snd told) ''blocked'' \<and>
    bs_sent st' + bs_failed st' + bs_blocked st' = bs_sent st + bs_failed st + bs_blocked st + length told \<and>
    bs_total st' = bs_total st \<and> (\<forall>j < length shown. \<not> cancelled (i + j)) \<and>
    (length told < length ids \<longrightarrow> cancelled (i + length shown))"
  using assms
proof (induction m reply cancelled i ids st arbitrary: st' told shown rule: broadcast_batches.induct)
  case (1 m reply cancelled i ids st)
  let ?b = "bm_batch_size m"
  let ?rs = "map (\<lambda>u. fst (send_message_safe (bm_retry_count m) (reply u))) (take ?b ids)"
  show ?case
  proof (cases "ids = [] \<or> ?b = 0 \<or> cancelled i")
    case True
    then have "st' = st \<and> told = [] \<and> shown = []" using 1(2) by (simp add: broadcast_batches.simps)
    with True show ?thesis using 1(3) by (auto simp: mailed_def)
  next
    case False
    obtain st2 log2 shown2 where rest:
      "broadcast_batches m reply cancelled (i + 1) (drop ?b ids) (fold count_result ?rs st) = (st2, log2, shown2)"
      by (metis surj_pair)
    have "broadcast_batches m reply cancelled i ids st = (st2, zip (take ?b ids) ?rs @ log2, fold count_result ?rs st # shown2)"
      by (subst broadcast_batches.simps) (simp add: Let_def False rest [unfolded Suc_eq_plus1 [symmetric]])
    then have d: "st' = st2" "told = zip (take ?b ids) ?rs @ log2" "shown = fold count_result ?rs st # shown2"
      using 1(2) by simp_all
    have z: "zip (take ?b ids) ?rs = mailed m reply (take ?b ids)" by (simp add: mailed_def zip_map2 zip_same_conv_map)
    have split: "take (length shown * ?b) ids = take ?b ids @ take (length shown2 * ?b) (drop ?b ids)"
      by (simp add: d take_add)
    note IH = 1(1) [OF False refl refl refl rest 1(3)]
    have len: "length told = length (take ?b ids) + length log2" by (simp add: d)
    have "length log2 < length (drop ?b ids)" if "length told < length ids" using that by (simp add: len)
    then have last: "length told < length ids \<longrightarrow> cancelled (i + length shown)" using IH by (simp add: d)
    have all: "\<forall>j < length shown. \<not> cancelled (i + j)" using IH False by (simp add: d All_less_Suc2)
    have told: "told = mailed m reply (take (length shown * ?b) ids)"
    proof -
      have l2: "log2 = mailed m reply (take (length shown2 * ?b) (drop ?b ids))" using IH by blast
      show ?thesis unfolding split d(2) z l2 by (simp add: mailed_def)
    qed
    have counts: "count_list (map snd told) r = count_list ?rs r + count_list (map snd log2) r" for r
      by (simp add: d)
    from IH have "bs_sent st' = bs_sent (fold count_result ?rs st) + count_list (map snd log2) ''sent''"
      "bs_blocked st' = bs_blocked (fold count_result ?rs st) + count_list (map snd log2) ''blocked''"
      "bs_sent st' + bs_failed st' + bs_blocked st' = bs_sent (fold count_result ?rs st) +
         bs_failed (fold count_result ?rs st) + bs_blocked (fold count_result ?rs st) + length log2"
      "bs_total st' = bs_total (fold count_result ?rs st)" unfolding d(1) by blast+
    then have "bs_sent st' = bs_sent st + count_list (map snd told) ''sent'' \<and>
        bs_blocked st' = bs_blocked st + count_list (map snd told) ''blocked'' \<and>
        bs_sent st' + bs_failed st' + bs_blocked st' = bs_sent st + bs_failed st + bs_blocked st + length told \<and>
        bs_total st' = bs_total st"
      using count_results [of ?rs st] count_result_total [of ?rs st] by (simp only: counts len length_map) simp
    with last all told show ?thesis by blast
  qed
qed


theorem broadcast_accounts_for_everyone:
  assumes "broadcast m reply cancelled ids = Inr (st, told, shown)"
  shows "told = mailed m reply (take (length shown * bm_batch_size m) ids) \<and>
    bs_total st = length ids \<and> bs_sent st = count_list (map snd told) ''sent'' \<and>
    bs_blocked st = count_list (map snd told) ''blocked'' \<and>
    bs_sent st + bs_failed st + bs_blocked st = length told \<and>
    (\<forall>j < length shown. \<not> cancelled j) \<and> (length told < length ids \<longrightarrow> cancelled (length shown))"
proof -
  have "0 < bm_batch_size m" "broadcast_batches m reply cancelled 0 ids
      \<lparr>bs_total = length ids, bs_sent = 0, bs_failed = 0, bs_blocked = 0\<rparr> = (st, told, shown)"
    using assms by (auto simp: broadcast_def split: if_splits)
  from batches_outcome [OF this(2,1)] show ?thesis by (elim conjE, intro conjI) (simp_all only: broadcast_stats.simps add_0 add_0_right)
qed

lemma uncancelled_broadcast:
  assumes "broadcast m reply (\<lambda>_. False) ids = Inr (st, told, shown)"
  shows "told = mailed m reply ids \<and> bs_sent st = count_list (map snd told) ''sent''"
proof -
  have b: "0 < bm_batch_size m" "broadcast_batches m reply (\<lambda>_. False) 0 ids
      \<lparr>bs_total = length ids, bs_sent = 0, bs_failed = 0, bs_blocked = 0\<rparr> = (st, told, shown)"
    using assms by (auto simp: broadcast_def split: if_splits)
  from batches_outcome [OF b(2,1)] show ?thesis by (auto simp: mailed_def not_less)
qed

text \<open>The mailing of an administrator.\<close>

lemma broadcast_default: "\<exists>st told shown. broadcast default_manager reply c ids = Inr (st, told, shown)"
  unfolding broadcast_def default_manager_def by simp (metis surj_pair)

lemma same_tables_audit:
  "t_users (fold (update_progress w) is s) = t_users s" "t_orders (fold (update_progress w) is s) = t_orders s"
  by (induction "is" arbitrary: s) (simp_all add: update_progress_def log_audit_def)

theorem broadcast_dialogue:
  assumes "broadcast_messages w a words (slots, s) = (answer, mail, slots', s')"
  shows "(slots a \<noteq> None \<longrightarrow> answer = ''broadcast.already_running'' \<and> mail = None \<and> slots' = slots \<and> s' = s) \<and>
    (slots a = None \<longrightarrow> slots' = slots) \<and> t_users s' = t_users s \<and>
    (case mail of None \<Rightarrow> True
     | Some (body, told) \<Rightarrow> safe_html body \<and> broadcast_message words = Inr () \<and>
         (\<exists>n. told = mailed default_manager (bw_reply w) (take n (get_all_users s)) \<and>
           (n < length (get_all_users s) \<longrightarrow> (\<exists>i. bw_cancelled w i))))"
proof (cases "slots a")
  case None
  obtain st told shown where b: "broadcast default_manager (bw_reply w) (bw_cancelled w) (get_all_users s) = Inr (st, told, shown)"
    using broadcast_default by blast
  note acc = broadcast_accounts_for_everyone [OF b]
  have upd: "slots(a := None) = slots" using None by (simp add: fun_upd_idem)
  obtain m where body: "broadcast_body w a words s = (answer, m, s')" and m: "m = mail"
    and sl: "slots' = slots"
    using assms None upd by (auto simp: broadcast_messages_def broadcast_begin_def broadcast_end_def broadcast_launch_def split_beta)
  have "t_users s' = t_users s \<and> (case mail of None \<Rightarrow> True
     | Some (t, l) \<Rightarrow> t = sanitize_html words \<and> l = told \<and> broadcast_message words = Inr ())"
  proof (cases "broadcast_message words")
    case (Inl err)
    then show ?thesis using body m by (auto simp: broadcast_body_def broadcast_error_def log_audit_def)
  next
    case (Inr u)
    then have ok: "broadcast_message words = Inr ()" by simp
    have "t_users (log_audit x y z p q s0) = t_users s0" for x y z p q s0 by (simp add: log_audit_def)
    then show ?thesis using body m ok same_tables_audit(1) [of w "[0..<length shown]" s]
      unfolding broadcast_body_def broadcast_error_def Let_def b
      by (cases "bw_prepare w = ApiOk"; cases "bw_final w") (auto simp only: if_True if_False sum.case prod.case unit.case prod.inject option.case api_reply.distinct
          insert_iff empty_iff simp_thms split: if_split_asm)
  qed
  moreover have "safe_html (sanitize_html words)" by (simp add: sanitize_html_render render_html_safe)
  moreover have "\<exists>n. told = mailed default_manager (bw_reply w) (take n (get_all_users s)) \<and>
      (n < length (get_all_users s) \<longrightarrow> (\<exists>i. bw_cancelled w i))"
    using acc by (intro exI [of _ "length shown * bm_batch_size default_manager"]) (auto simp: mailed_def)
  ultimately show ?thesis using None sl by (auto split: option.splits)
qed (use assms in \<open>auto simp: broadcast_messages_def broadcast_begin_def\<close>)

text \<open>Restock notices: everybody waiting is written to once, and nobody is left waiting.\<close>

theorem restock_notice_once:
  assumes "notify_restock reply name s = Inr ((n, told), s')" "goods_id_by_name s name = Some g"
    and "distinct (map ss_id (t_subs s))"
  shows "told = mailed default_manager reply (map ss_user_id (filter (\<lambda>r. ss_item_id r = g) (t_subs s))) \<and>
    n = count_list (map snd told) ''sent'' \<and> t_subs s' = filter (\<lambda>r. ss_item_id r \<noteq> g) (t_subs s) \<and>
    notify_restock reply' name s' = Inr ((0, []), s')"
proof -
  let ?rows = "filter (\<lambda>r. ss_item_id r = g) (t_subs s)"
  from assms(1) obtain us s1 where p: "pop_stock_subscribers name s = Inr (us, s1)"
    and rest: "(if us = [] then Inr ((0, []), s1)
       else tx_bind (broadcast default_manager reply (\<lambda>_. False) us) (\<lambda>(stats, told, _).
         Inr ((bs_sent stats, told), s1))) = Inr ((n, told), s')"
    by (auto simp: notify_restock_def tx_bind_eq_Inr)
  have us: "us = map ss_user_id ?rows" and ck: "check_violation s1 = None"
    and s1: "s1 = s\<lparr>t_subs := filter (\<lambda>r. ss_id r \<notin> set (map ss_id ?rows)) (t_subs s)\<rparr>"
    using p assms(2) by (auto simp: pop_stock_subscribers_def run_session_Inr)
  have keep: "ss_id r \<notin> set (map ss_id ?rows) \<longleftrightarrow> ss_item_id r \<noteq> g" if "r \<in> set (t_subs s)" for r
    using that assms(3) by (auto simp: distinct_map inj_on_def)
  have subs: "t_subs s1 = filter (\<lambda>r. ss_item_id r \<noteq> g) (t_subs s)"
    unfolding s1 using keep by (auto intro: filter_cong)
  have same: "s1\<lparr>t_subs := filter (\<lambda>r. ss_item_id r \<noteq> g) (t_subs s)\<rparr> = s1" by (simp flip: subs)
  have "s' = s1 \<and> told = mailed default_manager reply us \<and> n = count_list (map snd told) ''sent''"
    using rest uncancelled_broadcast
    by (fastforce simp: mailed_def tx_bind_eq_Inr split: if_splits)
  moreover have "goods_id_by_name s1 name = Some g" using assms(2) by (simp add: s1 goods_id_by_name_def goods_by_name_def)
  then have "pop_stock_subscribers name s1 = Inr ([], s1)"
    by (simp add: pop_stock_subscribers_def run_session_def commit_def subs same ck)
  then have "notify_restock reply' name s1 = Inr ((0, []), s1)" by (simp add: notify_restock_def)
  ultimately show ?thesis using us subs by simp
qed

end
