(* ===== verification/Storefront.thy ===== *)
theory Storefront
  imports Listing Stats Cart
begin

text \<open>
  The shop as the user browses it: \<open>handlers/user/shop_and_goods.py\<close>, \<open>handlers/user/purchase_ui.py\<close> and the two
  purchase callbacks of \<open>balance_and_payment.py\<close>.  The dialogue of a user (\<open>FSMContext\<close>) is a record: its
  state and the entries of its data the handlers use.  A screen is the key of its text with its buttons.
\<close>

subsection \<open>The dialogue of a user\<close>

datatype dialogue_state = ViewingGoods | ViewingCategories | WaitingSearchQuery | ViewingSearchResults
  | WaitingGiftRecipient | WaitingItemCode | WaitingRedeemCode | WaitingRating | WaitingReviewText | OtherState string

record dialogue =
  fs_state :: "dialogue_state option"
  fs_item :: "string option"
  fs_back :: "string option"
  fs_promo :: "string option"
  fs_pre_promo :: "dialogue_state option"
  fs_gift :: "int option"
  fs_review_item :: "string option"
  fs_review_rating :: "int option"
  fs_category :: "string option"
  fs_cat_page :: "int option"
  fs_query :: "string option"
  fs_categories :: "(string list \<times> int) option"
  fs_goods :: "(string list \<times> int) option"
  fs_found :: "(string list \<times> int) option"

definition fresh_dialogue :: dialogue where
  "fresh_dialogue = \<lparr>fs_state = None, fs_item = None, fs_back = None, fs_promo = None, fs_pre_promo = None,
     fs_gift = None, fs_review_item = None, fs_review_rating = None, fs_category = None, fs_cat_page = None,
     fs_query = None, fs_categories = None, fs_goods = None, fs_found = None\<rparr>"

text \<open>The row of page buttons is the one of \<open>nav_row\<close>.\<close>

type_synonym nav = "(int option \<times> (int \<times> int) \<times> int option) option"

datatype price_line = PlainPrice int | SalePrice int int int | PromoPrice int int string

record item_card =
  ic_name :: string
  ic_price :: price_line
  ic_left :: "nat option"
  ic_api :: bool
  ic_gift :: bool
  ic_rating :: "(rat \<times> int) option"
  ic_buttons :: "string list"

datatype screen =
    Alert string
  | Listed string "(string \<times> string) list" nav string
  | Card item_card
  | Confirm string int "int option"
  | Receipt string purchase_data
  | Reviews "(int \<times> string option) list" nav
  | Bought bought_goods string

subsection \<open>The card of a product\<close>

text \<open>What the cached reads answer; \<open>fresh_reads\<close> is what they answer right after an invalidation.\<close>

record cached_reads =
  cr_info :: "string \<Rightarrow> goods option"
  cr_amount :: "string \<Rightarrow> nat"
  cr_infinite :: "string \<Rightarrow> bool"
  cr_rating :: "string \<Rightarrow> rat option"
  cr_reviews :: "string \<Rightarrow> int"

definition fresh_reads :: "(rat \<Rightarrow> rat) \<Rightarrow> shop \<Rightarrow> cached_reads" where
  "fresh_reads round1 s = \<lparr>cr_info = get_item_info s, cr_amount = select_item_values_amount s, cr_infinite = check_value s,
     cr_rating = get_item_avg_rating round1 s, cr_reviews = count_item_reviews s\<rparr>"

definition browsing_state_for :: "string \<Rightarrow> dialogue_state option" where
  "browsing_state_for back_data =
     (if starts_with ''gp_'' back_data then Some ViewingGoods
      else if starts_with ''sp_'' back_data then Some ViewingSearchResults else None)"

text \<open>\<open>item_info\<close> of \<open>keyboards/inline.py\<close>: the callbacks of the buttons.\<close>

definition item_info_buttons ::
    "string \<Rightarrow> int \<Rightarrow> bool \<Rightarrow> string option \<Rightarrow> bool \<Rightarrow> bool \<Rightarrow> bool \<Rightarrow> bool \<Rightarrow> string list" where
  "item_info_buttons back_data review_count has_purchased applied_promo reviews_enabled out_of_stock subscribed allows_gift =
     [''buy_item''] @ (if allows_gift \<and> \<not> out_of_stock then [''buy_gift''] else []) @ [''add_to_cart''] @
     [if truthy_str applied_promo then ''remove_promo'' else ''apply_promo''] @
     (if reviews_enabled then (if 0 < review_count then [''reviews:0''] else []) @
        (if has_purchased then [''review''] else []) else []) @
     (if out_of_stock then [if subscribed then ''unsub_stock'' else ''sub_stock''] else []) @ [back_data]"

text \<open>The price line: a promo code that stopped applying is forgotten.\<close>

definition card_price ::
    "env \<Rightarrow> shop \<Rightarrow> int \<Rightarrow> goods \<Rightarrow> string \<Rightarrow> string option \<Rightarrow> price_line \<times> string option" where
  "card_price e s user_id info item_name applied_promo =
     (let (sale_price, on_sale, original_price) = effective_price info (env_now e);
          plain = (if on_sale then SalePrice original_price sale_price
                       (to_integral_value (case g_sale_percent info of None \<Rightarrow> 0 | Some p \<Rightarrow> p))
                   else PlainPrice sale_price)
      in if truthy_str applied_promo
         then (case validate_promo_for_item e s (the applied_promo) item_name user_id of
                 (True, _, Some promo) \<Rightarrow>
                   (PromoPrice original_price
                      (apply_promo_discount sale_price (pc_discount_type promo) (pc_discount_value promo) 1)
                      (the applied_promo), applied_promo)
               | _ \<Rightarrow> (plain, None))
         else (plain, applied_promo))"

definition render_item_page ::
    "env \<Rightarrow> cached_reads \<Rightarrow> bool \<Rightarrow> string \<Rightarrow> string option \<Rightarrow> int \<Rightarrow> dialogue \<Rightarrow> shop \<Rightarrow> screen \<times> dialogue" where
  "render_item_page e cr reviews_enabled item_name back user_id d s =
     (let back_data = (if truthy_str back then the back else case fs_back d of None \<Rightarrow> ''gp_0'' | Some b \<Rightarrow> b)
      in case cr_info cr item_name of
           None \<Rightarrow> (Alert ''shop.item.not_found'', d)
         | Some info \<Rightarrow>
             (let d1 = (case browsing_state_for back_data of None \<Rightarrow> d | Some st \<Rightarrow> d\<lparr>fs_state := Some st\<rparr>);
                  quantity = cr_amount cr item_name; is_infinite = cr_infinite cr item_name;
                  avg_rating = (if reviews_enabled then cr_rating cr item_name else None);
                  review_count = (if reviews_enabled then cr_reviews cr item_name else 0);
                  purchased = (reviews_enabled \<and> has_purchased_item s user_id item_name);
                  out_of_stock = (\<not> is_infinite \<and> quantity = 0);
                  subscribed = (out_of_stock \<and> is_subscribed_to_stock s user_id item_name);
                  (price, promo) = card_price e s user_id info item_name (fs_promo d1)
              in (Card \<lparr>ic_name = item_name, ic_price = price, ic_left = (if is_infinite then None else Some quantity),
                    ic_api = (g_fulfillment_type info = FulfillApi), ic_gift = g_allows_gift info,
                    ic_rating = map_option (\<lambda>r. (r, review_count)) avg_rating,
                    ic_buttons = item_info_buttons back_data review_count purchased promo reviews_enabled out_of_stock
                      subscribed (g_allows_gift info)\<rparr>,
                  d1\<lparr>fs_promo := promo\<rparr>)))"

subsection \<open>Pages of names\<close>

text \<open>\<open>{name: index}\<close> keeps the last index of a name.\<close>

definition items_index :: "string list \<Rightarrow> string \<Rightarrow> nat option" where
  "items_index names = map_of (rev (zip names [0..<length names]))"

definition name_callback :: "string \<Rightarrow> nat \<Rightarrow> int \<Rightarrow> string" where
  "name_callback prefix i page = prefix @ CHR '':'' # show_nat i @ CHR '':'' # show_int page"

definition name_buttons :: "string \<Rightarrow> string list \<Rightarrow> int \<Rightarrow> (string \<times> string) list" where
  "name_buttons prefix names page = map (\<lambda>n. (n, name_callback prefix (the (items_index names n)) page)) names"

definition show_categories_page :: "shop \<Rightarrow> int \<Rightarrow> dialogue \<Rightarrow> (screen \<times> dialogue) result" where
  "show_categories_page s page d =
     tx_bind (lazy_paginated_keyboard (query_categories s) (count_categories s) page (new_paginator 10)) (\<lambda>((names, nav), _).
       Inr (Listed ''shop.categories.title'' (name_buttons ''cat'' names page) nav ''back_to_menu'',
            d\<lparr>fs_categories := Some (names, page)\<rparr>))"

definition shop_callback_handler :: "shop \<Rightarrow> dialogue \<Rightarrow> (screen \<times> dialogue) result" where
  "shop_callback_handler s d =
     tx_bind (show_categories_page s 0 d) (\<lambda>(scr, d1). Inr (scr, d1\<lparr>fs_state := Some ViewingCategories\<rparr>))"

text \<open>The text after the first underscore, when it is a number.\<close>

definition navigate_categories :: "shop \<Rightarrow> string \<Rightarrow> dialogue \<Rightarrow> (screen \<times> dialogue) result" where
  "navigate_categories s cb d =
     (let rest = drop (length ''categories-page_'') cb;
          page = (if is_digits rest then (case parse_nat rest of None \<Rightarrow> 0 | Some n \<Rightarrow> int n) else 0)
      in show_categories_page s page d)"

definition show_goods_page :: "shop \<Rightarrow> string \<Rightarrow> int \<Rightarrow> int \<Rightarrow> dialogue \<Rightarrow> (screen \<times> dialogue) result" where
  "show_goods_page s category_name cat_page page d =
     (let cat = category_by_name s category_name
      in tx_bind (lazy_paginated_keyboard (query_items_in_category s cat) (count_items_in_category s category_name cat) page
                    (new_paginator 10)) (\<lambda>((names, nav), _).
           Inr (Listed ''shop.goods.choose'' (name_buttons ''itm'' names page) nav
                  (''categories-page_'' @ show_int cat_page),
                d\<lparr>fs_category := Some category_name, fs_goods := Some (names, page), fs_cat_page := Some cat_page,
                  fs_state := Some ViewingGoods\<rparr>)))"

text \<open>Negative pages are refused.\<close>

definition page_arg :: "string \<Rightarrow> int option" where
  "page_arg raw = (case parse_int raw of Inl _ \<Rightarrow> None | Inr page \<Rightarrow> if 0 \<le> page then Some page else None)"

definition page_item_at :: "(int \<Rightarrow> int \<Rightarrow> string list result) \<Rightarrow> int \<Rightarrow> int \<Rightarrow> string option result" where
  "page_item_at query page idx =
     tx_bind (get_page query page (new_paginator 10)) (\<lambda>(names, _).
       Inr (if idx < 0 \<or> int (length names) \<le> idx then None else Some (names ! nat idx)))"

definition page_item_from_state :: "(string list \<times> int) option \<Rightarrow> int \<Rightarrow> int \<Rightarrow> string option" where
  "page_item_from_state saved page idx =
     (case saved of None \<Rightarrow> None
      | Some (names, p) \<Rightarrow>
          if p \<noteq> page then None
          else if names = [] \<or> idx < 0 \<or> int (length names) \<le> idx then None else Some (names ! nat idx))"

text \<open>\<open>prefix:index:page\<close>; a missing page is 0.\<close>

definition index_and_page :: "string \<Rightarrow> (int \<times> int) option" where
  "index_and_page cb =
     (case callback_int 1 cb of None \<Rightarrow> None
      | Some idx \<Rightarrow> if length (split_on (CHR '':'') cb) \<le> 2 then Some (idx, 0)
          else map_option (\<lambda>p. (idx, p)) (callback_int 2 cb))"

definition items_list_callback_handler :: "shop \<Rightarrow> string \<Rightarrow> dialogue \<Rightarrow> (screen \<times> dialogue) result" where
  "items_list_callback_handler s cb d =
     (case index_and_page cb of None \<Rightarrow> Inr (Alert ''shop.item.not_found'', d)
      | Some (idx, cat_page) \<Rightarrow>
          tx_bind (case page_item_from_state (fs_categories d) cat_page idx of
                     Some c \<Rightarrow> Inr (Some c) | None \<Rightarrow> page_item_at (query_categories s) cat_page idx) (\<lambda>category.
            case category of None \<Rightarrow> Inr (Alert ''shop.item.not_found'', d)
            | Some c \<Rightarrow> show_goods_page s c cat_page 0 d))"

text \<open>Handlers of a state are only reached in that state.\<close>

definition navigate_goods :: "shop \<Rightarrow> string \<Rightarrow> dialogue \<Rightarrow> (screen \<times> dialogue) result" where
  "navigate_goods s cb d =
     (case page_arg (drop 3 cb) of None \<Rightarrow> Inr (Alert ''errors.pagination_invalid'', d)
      | Some page \<Rightarrow> show_goods_page s (case fs_category d of None \<Rightarrow> '''' | Some c \<Rightarrow> c)
          (case fs_cat_page d of None \<Rightarrow> 0 | Some p \<Rightarrow> p) page d)"

definition open_item ::
    "env \<Rightarrow> cached_reads \<Rightarrow> bool \<Rightarrow> string \<Rightarrow> string \<Rightarrow> int \<Rightarrow> dialogue \<Rightarrow> shop \<Rightarrow> screen \<times> dialogue" where
  "open_item e cr reviews_enabled item_name back_data user_id d s =
     (let d1 = d\<lparr>fs_item := Some item_name, fs_back := Some back_data\<rparr>;
          d2 = (if fs_item d \<noteq> Some item_name then d1\<lparr>fs_promo := None\<rparr> else d1)
      in render_item_page e cr reviews_enabled item_name (Some back_data) user_id d2 s)"

text \<open>An empty name counts as none.\<close>

definition found_name :: "string option \<Rightarrow> string option result \<Rightarrow> string option result" where
  "found_name saved fallback =
     tx_bind (if truthy_str saved then Inr saved else fallback) (\<lambda>n. Inr (if truthy_str n then n else None))"

definition item_info_callback_handler ::
    "env \<Rightarrow> cached_reads \<Rightarrow> bool \<Rightarrow> string \<Rightarrow> int \<Rightarrow> dialogue \<Rightarrow> shop \<Rightarrow> (screen \<times> dialogue) result" where
  "item_info_callback_handler e cr reviews_enabled cb user_id d s =
     (case index_and_page cb of None \<Rightarrow> Inr (Alert ''shop.item.not_found'', d)
      | Some (idx, page) \<Rightarrow>
          (let cat = category_by_name s (case fs_category d of None \<Rightarrow> '''' | Some c \<Rightarrow> c)
           in tx_bind (found_name (page_item_from_state (fs_goods d) page idx)
                         (page_item_at (query_items_in_category s cat) page idx)) (\<lambda>item_name.
                case item_name of None \<Rightarrow> Inr (Alert ''shop.item.not_found'', d)
                | Some n \<Rightarrow> Inr (open_item e cr reviews_enabled n (''gp_'' @ show_int page) user_id d s))))"

subsection \<open>Search\<close>

definition show_search_page :: "shop \<Rightarrow> string \<Rightarrow> int \<Rightarrow> dialogue \<Rightarrow> (screen \<times> dialogue) result" where
  "show_search_page s words page d =
     tx_bind (get_page (query_goods_search s (Some words)) page (new_paginator 10)) (\<lambda>(names, p).
       if names = [] \<and> page = 0 then Inr (Alert ''shop.search.empty'', d\<lparr>fs_state := None\<rparr>)
       else tx_bind (lazy_paginated_keyboard (query_goods_search s (Some words)) (count_goods_search s (Some words)) page p)
         (\<lambda>((_, nav), _).
            Inr (Listed ''shop.search.results'' (name_buttons ''sitm'' names page) nav ''shop'',
              d\<lparr>fs_query := Some words, fs_found := Some (names, page), fs_state := Some ViewingSearchResults\<rparr>)))"

definition shop_search_handler :: "dialogue \<Rightarrow> screen \<times> dialogue" where
  "shop_search_handler d = (Alert ''shop.search.prompt'', d\<lparr>fs_state := Some WaitingSearchQuery\<rparr>)"

definition receive_search_query_handler :: "shop \<Rightarrow> string \<Rightarrow> dialogue \<Rightarrow> (screen \<times> dialogue) result" where
  "receive_search_query_handler s words d =
     (let q = strip words
      in if py_len q < 2 \<or> 64 < py_len q then Inr (Alert ''shop.search.too_short'', d) else show_search_page s q 0 d)"

definition navigate_search :: "shop \<Rightarrow> string \<Rightarrow> dialogue \<Rightarrow> (screen \<times> dialogue) result" where
  "navigate_search s cb d =
     (case page_arg (drop 3 cb) of None \<Rightarrow> Inr (Alert ''errors.pagination_invalid'', d)
      | Some page \<Rightarrow> show_search_page s (case fs_query d of None \<Rightarrow> '''' | Some q \<Rightarrow> q) page d)"

definition search_item_info_handler ::
    "env \<Rightarrow> cached_reads \<Rightarrow> bool \<Rightarrow> string \<Rightarrow> int \<Rightarrow> dialogue \<Rightarrow> shop \<Rightarrow> (screen \<times> dialogue) result" where
  "search_item_info_handler e cr reviews_enabled cb user_id d s =
     (case index_and_page cb of None \<Rightarrow> Inr (Alert ''shop.item.not_found'', d)
      | Some (idx, page) \<Rightarrow>
          (let words = (case fs_query d of None \<Rightarrow> '''' | Some q \<Rightarrow> q)
           in tx_bind (found_name (page_item_from_state (fs_found d) page idx)
                         (page_item_at (query_goods_search s (Some words)) page idx)) (\<lambda>item_name.
                case item_name of None \<Rightarrow> Inr (Alert ''shop.item.not_found'', d)
                | Some n \<Rightarrow> Inr (open_item e cr reviews_enabled n (''sp_'' @ show_int page) user_id d s))))"

subsection \<open>Restock subscriptions and promo codes of the product on screen\<close>

definition subscribe_stock_handler ::
    "env \<Rightarrow> cached_reads \<Rightarrow> bool \<Rightarrow> int \<Rightarrow> dialogue \<Rightarrow> shop \<Rightarrow> (string \<times> screen option \<times> dialogue \<times> shop) result" where
  "subscribe_stock_handler e cr reviews_enabled user_id d s =
     (if \<not> truthy_str (fs_item d) then Inr (''shop.item.not_found'', None, d, s)
      else tx_bind (subscribe_to_stock user_id (the (fs_item d)) s) (\<lambda>((ok, _), s1).
        let (scr, d1) = render_item_page e cr reviews_enabled (the (fs_item d)) None user_id d s1
        in Inr (if ok then ''stock.subscribed'' else ''errors.something_wrong'', Some scr, d1, s1)))"

definition unsubscribe_stock_handler ::
    "env \<Rightarrow> cached_reads \<Rightarrow> bool \<Rightarrow> int \<Rightarrow> dialogue \<Rightarrow> shop \<Rightarrow> (string \<times> screen option \<times> dialogue \<times> shop) result" where
  "unsubscribe_stock_handler e cr reviews_enabled user_id d s =
     (if \<not> truthy_str (fs_item d) then Inr (''shop.item.not_found'', None, d, s)
      else tx_bind (unsubscribe_from_stock user_id (the (fs_item d)) s) (\<lambda>(_, s1).
        let (scr, d1) = render_item_page e cr reviews_enabled (the (fs_item d)) None user_id d s1
        in Inr (''stock.unsubscribed'', Some scr, d1, s1)))"

definition leave_promo_input :: "dialogue \<Rightarrow> dialogue" where
  "leave_promo_input d =
     (case fs_pre_promo d of None \<Rightarrow> d | Some st \<Rightarrow> d\<lparr>fs_pre_promo := None, fs_state := Some st\<rparr>)"

definition apply_promo_handler :: "dialogue \<Rightarrow> screen \<times> dialogue" where
  "apply_promo_handler d = (Alert ''promo.enter_code'', d\<lparr>fs_pre_promo := fs_state d, fs_state := Some WaitingItemCode\<rparr>)"

definition promo_code_text_handler ::
    "env \<Rightarrow> cached_reads \<Rightarrow> bool \<Rightarrow> string \<Rightarrow> int \<Rightarrow> dialogue \<Rightarrow> shop \<Rightarrow> screen \<times> dialogue" where
  "promo_code_text_handler e cr reviews_enabled words user_id d s =
     (let d1 = leave_promo_input d
      in if \<not> truthy_str (fs_item d) then (Alert ''shop.item.not_found'', d1)
         else (let code = upper (strip words); (valid, error_key, _) = validate_promo_for_item e s code (the (fs_item d)) user_id
               in if \<not> valid then (Alert error_key, d1)
                  else render_item_page e cr reviews_enabled (the (fs_item d)) None user_id (d1\<lparr>fs_promo := Some code\<rparr>) s))"

definition remove_promo_handler ::
    "env \<Rightarrow> cached_reads \<Rightarrow> bool \<Rightarrow> int \<Rightarrow> dialogue \<Rightarrow> shop \<Rightarrow> screen \<times> dialogue" where
  "remove_promo_handler e cr reviews_enabled user_id d s =
     (let d1 = d\<lparr>fs_promo := None\<rparr>
      in if truthy_str (fs_item d1) then render_item_page e cr reviews_enabled (the (fs_item d1)) None user_id d1 s
         else (Alert ''promo.removed'', d1))"

definition back_to_item_handler ::
    "env \<Rightarrow> cached_reads \<Rightarrow> bool \<Rightarrow> int \<Rightarrow> dialogue \<Rightarrow> shop \<Rightarrow> screen \<times> dialogue" where
  "back_to_item_handler e cr reviews_enabled user_id d s =
     (if \<not> truthy_str (fs_item d) then (Alert ''shop.item.not_found'', d)
      else render_item_page e cr reviews_enabled (the (fs_item d)) None user_id (leave_promo_input d) s)"

definition redeem_promo_handler :: "dialogue \<Rightarrow> screen \<times> dialogue" where
  "redeem_promo_handler d = (Alert ''promo.enter_redeem_code'', d\<lparr>fs_state := Some WaitingRedeemCode\<rparr>)"

definition redeem_promo_code_handler ::
    "env \<Rightarrow> string \<Rightarrow> int \<Rightarrow> dialogue \<Rightarrow> shop \<Rightarrow> string \<times> int option \<times> dialogue \<times> shop" where
  "redeem_promo_code_handler e words user_id d s =
     (let code = upper (strip words); ((success, error_key, amount), s1) = redeem_balance_promo e code user_id s
      in if success
         then (''promo.balance_redeemed'', amount, fresh_dialogue,
               log_audit ''promo_redeem'' ''INFO'' (Some user_id) (Some ''PromoCode'') (Some code) s1)
         else (error_key, None, fresh_dialogue, s1))"

subsection \<open>Reviews\<close>

definition start_review_handler :: "bool \<Rightarrow> int \<Rightarrow> dialogue \<Rightarrow> shop \<Rightarrow> string \<times> dialogue" where
  "start_review_handler reviews_enabled user_id d s =
     (if \<not> reviews_enabled then (''review.disabled'', d)
      else if \<not> truthy_str (fs_item d) then (''shop.item.not_found'', d)
      else if \<not> has_purchased_item s user_id (the (fs_item d)) then (''review.not_purchased'', d)
      else if get_user_review s user_id (the (fs_item d)) \<noteq> None then (''review.already_exists'', d)
      else (''review.prompt_rating'', d\<lparr>fs_review_item := fs_item d, fs_state := Some WaitingRating\<rparr>))"

definition receive_rating_handler :: "string \<Rightarrow> dialogue \<Rightarrow> string \<times> dialogue" where
  "receive_rating_handler cb d =
     (case callback_int 1 cb of None \<Rightarrow> (''errors.invalid_data'', d)
      | Some r \<Rightarrow>
          (case review_request r None of Inl _ \<Rightarrow> (''errors.invalid_data'', d)
           | Inr _ \<Rightarrow> (''review.prompt_text'', d\<lparr>fs_review_rating := Some r, fs_state := Some WaitingReviewText\<rparr>)))"

definition submit_review :: "int \<Rightarrow> dialogue \<Rightarrow> string option \<Rightarrow> shop \<Rightarrow> (bool \<times> shop) result" where
  "submit_review user_id d words s =
     (if \<not> truthy_str (fs_review_item d) \<or> fs_review_rating d = None then Inr (False, s)
      else tx_bind (create_review user_id (the (fs_review_item d)) (the (fs_review_rating d)) words s) (\<lambda>(rid, s1).
        Inr (rid \<noteq> None, s1)))"

definition finish_review :: "int \<Rightarrow> dialogue \<Rightarrow> string option \<Rightarrow> shop \<Rightarrow> (string \<times> dialogue \<times> shop) result" where
  "finish_review user_id d words s =
     tx_bind (submit_review user_id d words s) (\<lambda>(ok, s1).
       Inr (if ok then ''review.created'' else ''errors.something_wrong'', fresh_dialogue, s1))"

definition skip_review_text_handler :: "int \<Rightarrow> dialogue \<Rightarrow> shop \<Rightarrow> (string \<times> dialogue \<times> shop) result" where
  "skip_review_text_handler user_id d s = finish_review user_id d None s"

definition receive_review_text_handler :: "string \<Rightarrow> int \<Rightarrow> dialogue \<Rightarrow> shop \<Rightarrow> (string \<times> dialogue \<times> shop) result" where
  "receive_review_text_handler words user_id d s = finish_review user_id d (Some (strip (py_take 500 words))) s"

text \<open>The list of reviews, five a page; the texts are cut to 100 characters.\<close>

definition view_reviews_handler :: "bool \<Rightarrow> string \<Rightarrow> dialogue \<Rightarrow> shop \<Rightarrow> screen result" where
  "view_reviews_handler reviews_enabled cb d s =
     (if \<not> reviews_enabled then Inr (Alert ''review.disabled'')
      else (let page = (case callback_int 1 cb of None \<Rightarrow> 0 | Some p \<Rightarrow> p)
            in if \<not> truthy_str (fs_item d) then Inr (Alert ''shop.item.not_found'')
               else tx_bind (get_page (query_item_reviews s (the (fs_item d))) page (new_paginator 5)) (\<lambda>(rows, p).
                 let (total_pages, _) = get_total_pages (count_item_reviews s (the (fs_item d))) p
                 in if rows = [] then Inr (Alert ''review.list_empty'')
                    else Inr (Reviews
                      (map (\<lambda>r. (rv_rating r, if truthy_str (rv_text r) then map_option (py_take 100) (rv_text r) else None)) rows)
                      (if 0 < page \<or> 1 < total_pages
                       then Some (if 0 < page then Some (page - 1) else None, (page + 1, total_pages),
                              if page < total_pages - 1 then Some (page + 1) else None)
                       else None)))))"

subsection \<open>Buying the product on screen\<close>

definition PURCHASE_ERROR_KEYS :: "(string \<times> string) list" where
  "PURCHASE_ERROR_KEYS = [(''user_not_found'', ''shop.purchase.fail.user_not_found''),
     (''item_not_found'', ''shop.item.not_found''), (''insufficient_funds'', ''shop.insufficient_funds''),
     (''out_of_stock'', ''shop.out_of_stock''), (''promo_invalid'', ''promo.not_found''),
     (''promo_expired'', ''promo.expired''), (''promo_max_uses'', ''promo.max_uses_reached''),
     (''promo_already_used'', ''promo.already_used''), (''promo_min_order'', ''promo.min_order''),
     (''promo_wrong_item'', ''promo.wrong_item''), (''promo_wrong_category'', ''promo.wrong_category''),
     (''gift_not_allowed'', ''shop.gift.not_allowed''),
     (''gift_recipient_not_registered'', ''shop.gift.recipient_not_registered''),
     (''no_provider_link'', ''shop.purchase.fail.no_provider'')]"

definition validate_purchase_context :: "int \<Rightarrow> dialogue \<Rightarrow> string + string \<times> int" where
  "validate_purchase_context user_id d =
     (if \<not> truthy_str (fs_item d) then Inl ''middleware.security.invalid_csrf''
      else if \<not> is_safe_item_name (the (fs_item d)) then Inl ''errors.invalid_item_name''
      else case validate_telegram_id (show_int user_id) of
             Inl _ \<Rightarrow> Inl ''errors.invalid_user'' | Inr uid \<Rightarrow> Inr (the (fs_item d), uid))"

definition build_purchase_confirm ::
    "env \<Rightarrow> cached_reads \<Rightarrow> string \<Rightarrow> int option \<Rightarrow> dialogue \<Rightarrow> (screen \<times> dialogue) option" where
  "build_purchase_confirm e cr item_name gift d =
     (case cr_info cr item_name of None \<Rightarrow> None
      | Some info \<Rightarrow> Some (Confirm item_name (fst (effective_price info (env_now e))) gift, d\<lparr>fs_gift := gift\<rparr>))"

definition show_purchase_confirm :: "env \<Rightarrow> cached_reads \<Rightarrow> int \<Rightarrow> dialogue \<Rightarrow> screen \<times> dialogue" where
  "show_purchase_confirm e cr user_id d =
     (case validate_purchase_context user_id d of Inl err \<Rightarrow> (Alert err, d)
      | Inr (item_name, _) \<Rightarrow>
          (case build_purchase_confirm e cr item_name None d of None \<Rightarrow> (Alert ''shop.item.not_found'', d) | Some r \<Rightarrow> r))"

definition buy_gift_start :: "cached_reads \<Rightarrow> dialogue \<Rightarrow> screen \<times> dialogue" where
  "buy_gift_start cr d =
     (if \<not> truthy_str (fs_item d) then (Alert ''middleware.security.invalid_csrf'', d)
      else case cr_info cr (the (fs_item d)) of None \<Rightarrow> (Alert ''shop.gift.not_allowed'', d)
        | Some info \<Rightarrow>
            if \<not> g_allows_gift info then (Alert ''shop.gift.not_allowed'', d)
            else (Alert ''shop.gift.prompt_recipient'', d\<lparr>fs_state := Some WaitingGiftRecipient\<rparr>))"

definition buy_gift_recipient_message :: "env \<Rightarrow> cached_reads \<Rightarrow> string \<Rightarrow> dialogue \<Rightarrow> screen \<times> dialogue" where
  "buy_gift_recipient_message e cr words d =
     (case parse_int (lstrip_by (\<lambda>c. c = CHR ''@'') (strip words)) of
        Inl _ \<Rightarrow> (Alert ''shop.gift.invalid_recipient'', d)
      | Inr recipient_id \<Rightarrow>
          if \<not> truthy_str (fs_item d) then (Alert ''middleware.security.invalid_csrf'', d)
          else (case build_purchase_confirm e cr (the (fs_item d)) (Some recipient_id) d of
                  None \<Rightarrow> (Alert ''shop.item.not_found'', d)
                | Some (scr, d1) \<Rightarrow> (scr, d1\<lparr>fs_state := Some ViewingGoods\<rparr>)))"

text \<open>
  \<open>buy_confirm_handler\<close> around \<open>execute_confirmed_purchase\<close>.  \<open>log_audit_bg\<close> schedules the row and returns
  \<open>None\<close>, which is then awaited: the handler answers \<open>errors.something_wrong\<close> after every purchase that it
  audits, whatever it has shown before.
\<close>

definition purchase_audit :: "string \<Rightarrow> string \<Rightarrow> int \<Rightarrow> string \<Rightarrow> shop \<Rightarrow> shop" where
  "purchase_audit action level user_id item_name =
     log_audit action level (Some user_id) (Some ''Item'') (Some item_name)"

definition buy_confirm_handler ::
    "env \<Rightarrow> int \<Rightarrow> dialogue \<Rightarrow> shop \<Rightarrow> screen \<times> string option \<times> dialogue \<times> shop" where
  "buy_confirm_handler e user_id d s =
     (case validate_purchase_context user_id d of Inl err \<Rightarrow> (Alert err, None, d, s)
      | Inr (item_name, uid) \<Rightarrow>
          (let ((success, message, data), s1) = buy_item_transaction e uid item_name (fs_promo d) (fs_gift d) s
           in case data of
                None \<Rightarrow>
                  (case map_of PURCHASE_ERROR_KEYS message of
                     Some key \<Rightarrow> (Alert key, None, d, s1)
                   | None \<Rightarrow> (Alert ''shop.purchase.fail.general'', Some ''errors.something_wrong'', d,
                       purchase_audit ''purchase_error'' ''ERROR'' uid item_name s1))
              | Some pd \<Rightarrow>
                  (let d1 = d\<lparr>fs_promo := None, fs_gift := None\<rparr>; is_gift = (fs_gift d \<noteq> None);
                       is_processing = (pd_order_status pd = PROCESSING \<or> \<not> truthy_str (pd_value pd));
                       key = (if is_processing \<and> \<not> is_gift then ''shop.purchase.processing_order''
                              else if is_gift then ''shop.purchase.gift_sent'' else ''shop.purchase.receipt'')
                   in (Receipt key pd, Some ''errors.something_wrong'', d1,
                       purchase_audit ''purchase'' ''INFO'' uid (py_take 100 item_name) s1))))"

subsection \<open>Bought items\<close>

definition bought_page :: "shop \<Rightarrow> int \<Rightarrow> int \<Rightarrow> string \<Rightarrow> string \<Rightarrow> screen result" where
  "bought_page s user_id page pre_back back_cb =
     tx_bind (lazy_paginated_keyboard (query_user_bought_items s user_id) (count_user_bought_items s user_id) page
                (new_paginator 10)) (\<lambda>((rows, nav), _).
       Inr (Listed ''purchases.title''
         (map (\<lambda>b. (bg_item_name b, ''bought-item:'' @ show_int (bg_id b) @ CHR '':'' # pre_back)) rows) nav back_cb))"

definition bought_items_callback_handler :: "shop \<Rightarrow> int \<Rightarrow> screen result" where
  "bought_items_callback_handler s user_id = bought_page s user_id 0 ''bought-goods-page_user_0'' ''profile''"

text \<open>\<open>perms\<close> is what \<open>check_role_cached\<close> answers for the caller.\<close>

definition navigate_bought_items :: "32 word \<Rightarrow> string \<Rightarrow> int \<Rightarrow> shop \<Rightarrow> screen result" where
  "navigate_bought_items perms cb caller s =
     (let parts = split_on (CHR ''_'') cb
      in if length parts < 3 then Inr (Alert ''purchases.pagination.invalid'')
         else (let data_type = parts ! 1; page = (case parse_int (parts ! 2) of Inl _ \<Rightarrow> 0 | Inr n \<Rightarrow> n);
                   pre_back = ''bought-goods-page_'' @ data_type @ ''_'' @ show_int page
               in if data_type = ''user'' then bought_page s caller page pre_back ''profile''
                  else if \<not> granted perms USERS_MANAGE then Inr (Alert ''middleware.security.not_admin'')
                  else (case parse_int data_type of Inl _ \<Rightarrow> Inr (Alert ''purchases.pagination.invalid'')
                        | Inr user_id \<Rightarrow> bought_page s user_id page pre_back (''check-user_'' @ data_type))))"

text \<open>\<open>split(':', 2)\<close>: the rest of the text belongs to the last part.\<close>

definition bought_callback :: "string \<Rightarrow> (int \<times> string) option" where
  "bought_callback cb =
     (let rest = dropWhile (\<lambda>c. c \<noteq> CHR '':'') cb;
          num = takeWhile (\<lambda>c. c \<noteq> CHR '':'') (drop 1 rest); back_data = dropWhile (\<lambda>c. c \<noteq> CHR '':'') (drop 1 rest)
      in if rest = [] \<or> back_data = [] then None
         else case parse_int num of Inl _ \<Rightarrow> None | Inr n \<Rightarrow> Some (n, drop 1 back_data))"

definition bought_item_info_callback_handler :: "32 word \<Rightarrow> string \<Rightarrow> int \<Rightarrow> shop \<Rightarrow> screen" where
  "bought_item_info_callback_handler perms cb caller s =
     (case bought_callback cb of None \<Rightarrow> Alert ''errors.invalid_data''
      | Some (item_id, back_data) \<Rightarrow>
          (case get_bought_item_info s item_id (Some caller) of
             Some b \<Rightarrow> Bought b back_data
           | None \<Rightarrow>
              (case if granted perms USERS_MANAGE then get_bought_item_info s item_id None else None of
                 Some b \<Rightarrow> Bought b back_data | None \<Rightarrow> Alert ''purchases.item.not_found'')))"

subsection \<open>Numbers in callbacks\<close>

declare parse_int_show_int [simp] parse_int_show_nat [simp]

lemma index_and_page_callback:
  assumes "CHR '':'' \<notin> set prefix"
  shows "index_and_page (name_callback prefix i page) = Some (int i, page)"
proof -
  have n: "CHR '':'' \<notin> set (show_nat k)" for k using show_nat_set by blast
  then have "CHR '':'' \<notin> set (show_int page)" by (simp add: show_int_def)
  with n assms have "split_on (CHR '':'') (name_callback prefix i page) = [prefix, show_nat i, show_int page]"
    unfolding name_callback_def by (simp add: split_on_first split_on_none)
  then show ?thesis by (simp add: index_and_page_def callback_int_def)
qed

subsection \<open>A button opens what it shows\<close>

lemma items_index_nth: "n \<in> set names \<Longrightarrow> \<exists>i < length names. items_index names n = Some i \<and> names ! i = n"
proof -
  assume "n \<in> set names"
  then have "n \<in> fst ` set (rev (zip names [0..<length names]))" by (simp flip: set_map)
  then obtain i where i: "items_index names n = Some i"
    unfolding items_index_def by (metis map_of_eq_None_iff option.exhaust)
  then have "(n, i) \<in> set (zip names [0..<length names])" using map_of_SomeD unfolding items_index_def by fastforce
  then show ?thesis using i by (auto simp: set_zip)
qed

lemma button_index:
  assumes "(n, cb) \<in> set (name_buttons prefix names page)" "CHR '':'' \<notin> set prefix"
  shows "\<exists>i. index_and_page cb = Some (int i, page) \<and> page_item_from_state (Some (names, page)) page (int i) = Some n"
proof -
  from assms(1) obtain i where "i < length names" "names ! i = n" "cb = name_callback prefix i page"
    using items_index_nth by (fastforce simp: name_buttons_def)
  then show ?thesis using index_and_page_callback [OF assms(2)] by (auto simp: page_item_from_state_def)
qed

lemma category_button:
  assumes "show_categories_page s page d = Inr (Listed key buttons nav back, d1)" "(n, cb) \<in> set buttons"
    and "fs_categories d2 = fs_categories d1"
  shows "items_list_callback_handler s2 cb d2 = show_goods_page s2 n page 0 d2"
proof -
  from assms(1) obtain names where "buttons = name_buttons ''cat'' names page" "fs_categories d1 = Some (names, page)"
    by (auto simp: show_categories_page_def tx_simps)
  with assms button_index [of n cb "''cat''" names page] show ?thesis
    by (auto simp: items_list_callback_handler_def)
qed

theorem goods_button_opens_shown_item:
  assumes "show_goods_page s cat cat_page page d = Inr (Listed key buttons nav back, d1)"
    and "(n, cb) \<in> set buttons" "n \<noteq> []" "fs_goods d2 = fs_goods d1"
  shows "item_info_callback_handler e cr rv cb u d2 s2 = Inr (open_item e cr rv n (''gp_'' @ show_int page) u d2 s2) \<and>
    fs_item (snd (open_item e cr rv n (''gp_'' @ show_int page) u d2 s2)) = Some n"
proof -
  have item: "fs_item (snd (render_item_page e cr rv a b u x s2)) = fs_item x" for a b x
    by (simp add: render_item_page_def Let_def split_beta split: option.split)
  from assms(1) obtain names where "buttons = name_buttons ''itm'' names page" "fs_goods d1 = Some (names, page)"
    by (auto simp: show_goods_page_def Let_def tx_simps)
  with assms button_index [of n cb "''itm''" names page] show ?thesis
    by (auto simp: item_info_callback_handler_def found_name_def truthy_str_def open_item_def item Let_def)
qed

lemma search_button:
  assumes "show_search_page s words page d = Inr (Listed key buttons nav back, d1)"
    and "(n, cb) \<in> set buttons" "n \<noteq> []" "fs_found d2 = fs_found d1"
  shows "search_item_info_handler e cr rv cb u d2 s2 = Inr (open_item e cr rv n (''sp_'' @ show_int page) u d2 s2)"
proof -
  from assms(1) obtain names where "buttons = name_buttons ''sitm'' names page" "fs_found d1 = Some (names, page)"
    by (auto simp: show_search_page_def tx_simps split: if_splits)
  with assms button_index [of n cb "''sitm''" names page] show ?thesis
    by (auto simp: search_item_info_handler_def found_name_def truthy_str_def)
qed

subsection \<open>The price on the card\<close>

definition shown_price :: "price_line \<Rightarrow> int" where
  "shown_price p = (case p of PlainPrice a \<Rightarrow> a | SalePrice orig a pct \<Rightarrow> a | PromoPrice orig a c \<Rightarrow> a)"

lemma one_check_more:
  assumes "\<not> m'"
  shows "(if a then A else if b then B else if c then C else if d then D else if m then M else r) =
      (if a then A else if b then B else if c then C else if d then D else if m' then M else r) \<or>
    (if a then A else if b then B else if c then C else if d then D else if m then M else r) = M"
  using assms by simp

lemma rule_error_min_order:
  "promo_rule_error s now p u k False used (Some t) = promo_rule_error s now p u k False used None \<or>
   promo_rule_error s now p u k False used (Some t) = Some ''min_order''"
proof (cases p)
  case (Some q)
  show ?thesis unfolding promo_rule_error_def Some option.case by (rule one_check_more) simp
qed (simp add: promo_rule_error_def)


subsection \<open>Runs of a user's dialogue\<close>

text \<open>One handled update of user \<open>u\<close>.\<close>

inductive browse_step :: "int \<Rightarrow> dialogue \<Rightarrow> shop \<Rightarrow> dialogue \<Rightarrow> shop \<Rightarrow> bool" for u where
  shop_opened: "shop_callback_handler s d = Inr (scr, d') \<Longrightarrow> browse_step u d s d' s"
| categories_turned: "navigate_categories s cb d = Inr (scr, d') \<Longrightarrow> browse_step u d s d' s"
| category_chosen: "items_list_callback_handler s cb d = Inr (scr, d') \<Longrightarrow> browse_step u d s d' s"
| goods_turned: "navigate_goods s cb d = Inr (scr, d') \<Longrightarrow> browse_step u d s d' s"
| item_chosen: "item_info_callback_handler e cr rv cb u d s = Inr (scr, d') \<Longrightarrow> browse_step u d s d' s"
| search_started: "shop_search_handler d = (scr, d') \<Longrightarrow> browse_step u d s d' s"
| searched: "receive_search_query_handler s words d = Inr (scr, d') \<Longrightarrow> browse_step u d s d' s"
| search_turned: "navigate_search s cb d = Inr (scr, d') \<Longrightarrow> browse_step u d s d' s"
| hit_chosen: "search_item_info_handler e cr rv cb u d s = Inr (scr, d') \<Longrightarrow> browse_step u d s d' s"
| subscribed: "subscribe_stock_handler e cr rv u d s = Inr (key, scr', d', s') \<Longrightarrow> browse_step u d s d' s'"
| unsubscribed: "unsubscribe_stock_handler e cr rv u d s = Inr (key, scr', d', s') \<Longrightarrow> browse_step u d s d' s'"
| promo_asked: "apply_promo_handler d = (scr, d') \<Longrightarrow> browse_step u d s d' s"
| promo_typed: "promo_code_text_handler e cr rv words u d s = (scr, d') \<Longrightarrow> browse_step u d s d' s"
| promo_removed: "remove_promo_handler e cr rv u d s = (scr, d') \<Longrightarrow> browse_step u d s d' s"
| went_back: "back_to_item_handler e cr rv u d s = (scr, d') \<Longrightarrow> browse_step u d s d' s"
| redeem_asked: "redeem_promo_handler d = (scr, d') \<Longrightarrow> browse_step u d s d' s"
| redeemed: "redeem_promo_code_handler e words u d s = (key, amount, d', s') \<Longrightarrow> browse_step u d s d' s'"
| review_started: "start_review_handler rv u d s = (key, d') \<Longrightarrow> browse_step u d s d' s"
| rated: "receive_rating_handler cb d = (key, d') \<Longrightarrow> browse_step u d s d' s"
| review_unwritten: "skip_review_text_handler u d s = Inr (key, d', s') \<Longrightarrow> browse_step u d s d' s'"
| review_written: "receive_review_text_handler words u d s = Inr (key, d', s') \<Longrightarrow> browse_step u d s d' s'"
| purchase_asked: "show_purchase_confirm e cr u d = (scr, d') \<Longrightarrow> browse_step u d s d' s"
| gift_asked: "buy_gift_start cr d = (scr, d') \<Longrightarrow> browse_step u d s d' s"
| gift_named: "buy_gift_recipient_message e cr words d = (scr, d') \<Longrightarrow> browse_step u d s d' s"
| bought: "buy_confirm_handler e u d s = (scr, key', d', s') \<Longrightarrow> browse_step u d s d' s'"

text \<open>What a step may do to the three entries that later steps rely on.\<close>

lemma card_price_promo: "card_price e s u info n p = (pl, p') \<Longrightarrow> p' = p \<or> p' = None"
  by (auto simp: card_price_def Let_def split_beta split: if_splits prod.splits bool.splits option.splits)

lemma render_keeps:
  assumes "render_item_page e cr rv n b u d s = (scr, d')"
  shows "fs_item d' = fs_item d \<and> fs_gift d' = fs_gift d \<and> fs_review_item d' = fs_review_item d \<and>
    (fs_promo d' = fs_promo d \<or> fs_promo d' = None)"
proof (cases "cr_info cr n")
  case None
  then show ?thesis using assms by (auto simp: render_item_page_def Let_def)
next
  case (Some info)
  let ?d1 = "case browsing_state_for (if truthy_str b then the b else case fs_back d of None \<Rightarrow> ''gp_0'' | Some x \<Rightarrow> x) of
     None \<Rightarrow> d | Some st \<Rightarrow> d\<lparr>fs_state := Some st\<rparr>"
  obtain pl p where cp: "card_price e s u info n (fs_promo ?d1) = (pl, p)" by fastforce
  have "d' = ?d1\<lparr>fs_promo := p\<rparr>"
    using assms unfolding render_item_page_def Let_def Some option.case cp prod.case by simp
  moreover have "fs_promo ?d1 = fs_promo d \<and> fs_item ?d1 = fs_item d \<and> fs_gift ?d1 = fs_gift d \<and> fs_review_item ?d1 = fs_review_item d"
    by (simp split: option.split)
  ultimately show ?thesis using card_price_promo [OF cp] by auto
qed

lemma open_keeps:
  assumes "open_item e cr rv n b u d s = (scr, d')"
  shows "fs_item d' = Some n \<and> fs_review_item d' = fs_review_item d \<and>
    (fs_promo d' = None \<or> fs_promo d' = fs_promo d \<and> fs_item d = Some n)"
  using assms unfolding open_item_def Let_def by (auto dest!: render_keeps split: if_splits)

lemma leave_keeps [simp]:
  "fs_item (leave_promo_input d) = fs_item d" "fs_promo (leave_promo_input d) = fs_promo d"
  "fs_review_item (leave_promo_input d) = fs_review_item d"
  by (simp_all add: leave_promo_input_def split: option.split)

text \<open>Paging changes none of them.\<close>

lemma paging_keeps:
  "show_categories_page s page d = Inr (scr, d') \<Longrightarrow> fs_item d' = fs_item d \<and> fs_promo d' = fs_promo d \<and> fs_review_item d' = fs_review_item d"
  "show_goods_page s cat cp page d = Inr (scr, d') \<Longrightarrow> fs_item d' = fs_item d \<and> fs_promo d' = fs_promo d \<and> fs_review_item d' = fs_review_item d"
  "show_search_page s words page d = Inr (scr, d') \<Longrightarrow> fs_item d' = fs_item d \<and> fs_promo d' = fs_promo d \<and> fs_review_item d' = fs_review_item d"
  by (auto simp: show_categories_page_def show_goods_page_def show_search_page_def Let_def tx_simps split: if_splits)

lemma browsing_keeps:
  "shop_callback_handler s d = Inr (scr, d') \<Longrightarrow> fs_item d' = fs_item d \<and> fs_promo d' = fs_promo d \<and> fs_review_item d' = fs_review_item d"
  "navigate_categories s cb d = Inr (scr, d') \<Longrightarrow> fs_item d' = fs_item d \<and> fs_promo d' = fs_promo d \<and> fs_review_item d' = fs_review_item d"
  "items_list_callback_handler s cb d = Inr (scr, d') \<Longrightarrow> fs_item d' = fs_item d \<and> fs_promo d' = fs_promo d \<and> fs_review_item d' = fs_review_item d"
  "navigate_goods s cb d = Inr (scr, d') \<Longrightarrow> fs_item d' = fs_item d \<and> fs_promo d' = fs_promo d \<and> fs_review_item d' = fs_review_item d"
  "receive_search_query_handler s words d = Inr (scr, d') \<Longrightarrow> fs_item d' = fs_item d \<and> fs_promo d' = fs_promo d \<and> fs_review_item d' = fs_review_item d"
  "navigate_search s cb d = Inr (scr, d') \<Longrightarrow> fs_item d' = fs_item d \<and> fs_promo d' = fs_promo d \<and> fs_review_item d' = fs_review_item d"
  using paging_keeps
  by (auto simp: shop_callback_handler_def navigate_categories_def items_list_callback_handler_def navigate_goods_def
      receive_search_query_handler_def navigate_search_def Let_def tx_simps split: option.splits if_splits)

definition promo_fits :: "int \<Rightarrow> shop \<Rightarrow> dialogue \<Rightarrow> dialogue \<Rightarrow> bool" where
  "promo_fits u s d d' \<longleftrightarrow>
     fs_promo d' = None \<or> fs_promo d' = fs_promo d \<and> fs_item d' = fs_item d \<or>
     (\<exists>e code. fs_promo d' = Some code \<and> fs_item d' = fs_item d \<and>
        fst (validate_promo_for_item e s code (the (fs_item d')) u))"

definition review_fits :: "int \<Rightarrow> shop \<Rightarrow> dialogue \<Rightarrow> dialogue \<Rightarrow> bool" where
  "review_fits u s d d' \<longleftrightarrow>
     fs_review_item d' = fs_review_item d \<or> fs_review_item d' = None \<or>
     fs_review_item d' = fs_item d \<and> has_purchased_item s u (the (fs_item d))"

definition fits :: "int \<Rightarrow> shop \<Rightarrow> dialogue \<Rightarrow> dialogue \<Rightarrow> bool" where
  "fits u s d d' \<longleftrightarrow> promo_fits u s d d' \<and> review_fits u s d d'"

lemma fits_same: "fs_item d' = fs_item d \<Longrightarrow> fs_promo d' = fs_promo d \<or> fs_promo d' = None \<Longrightarrow>
    fs_review_item d' = fs_review_item d \<or> fs_review_item d' = None \<Longrightarrow> fits u s d d'"
  by (auto simp: fits_def promo_fits_def review_fits_def)

lemma fits_refl [simp]: "fits u s d d"
  by (rule fits_same) simp_all

lemma fits_fresh: "fits u s d fresh_dialogue"
  by (simp add: fits_def promo_fits_def review_fits_def fresh_dialogue_def)

lemma fits_open: "open_item e cr rv n b u d s = (scr, d') \<Longrightarrow> fits u s d d'"
  using open_keeps [of e cr rv n b u d s scr d'] by (auto simp: fits_def promo_fits_def review_fits_def)

lemma fits_render: "render_item_page e cr rv n b u d s0 = (scr, d') \<Longrightarrow> fits u s d d'"
  using render_keeps [of e cr rv n b u d s0 scr d'] by (auto intro: fits_same)

lemma fits_rendered [simp]: "fits u s d (snd (render_item_page e cr rv n b u d s0))"
  by (rule fits_render) (rule prod.collapse [symmetric])

lemma fits_promo_typed:
  assumes "promo_code_text_handler e cr rv words u d s = (scr, d')"
  shows "fits u s d d'"
proof (cases "truthy_str (fs_item d)")
  case True
  let ?code = "upper (strip words)"
  obtain v err p where v: "validate_promo_for_item e s ?code (the (fs_item d)) u = (v, err, p)" by (metis surj_pair)
  show ?thesis
  proof (cases v)
    case True
    then have "render_item_page e cr rv (the (fs_item d)) None u (leave_promo_input d\<lparr>fs_promo := Some ?code\<rparr>) s = (scr, d')"
      using assms v \<open>truthy_str (fs_item d)\<close> by (simp add: promo_code_text_handler_def Let_def)
    from render_keeps [OF this] v True show ?thesis
      by (auto simp: fits_def promo_fits_def review_fits_def intro!: exI [of _ e])
  next
    case False
    then show ?thesis using assms v \<open>truthy_str (fs_item d)\<close>
      by (auto simp: promo_code_text_handler_def Let_def intro!: fits_same)
  qed
qed (use assms in \<open>auto simp: promo_code_text_handler_def intro!: fits_same\<close>)

lemma fits_gift_confirm:
  "build_purchase_confirm e cr n g d = Some (scr, d') \<Longrightarrow> fits u s d d'"
  by (auto simp: build_purchase_confirm_def intro!: fits_same split: option.splits)

lemma fits_confirm:
  "show_purchase_confirm e cr u d = (scr, d') \<Longrightarrow> fits u s d d'"
  "buy_gift_recipient_message e cr words d = (scr, d') \<Longrightarrow> fits u s d d'"
  "buy_gift_start cr d = (scr, d') \<Longrightarrow> fits u s d d'"
  subgoal
    by (auto simp: show_purchase_confirm_def build_purchase_confirm_def intro!: fits_same split: sum.splits option.splits)
  subgoal
    by (auto simp: buy_gift_recipient_message_def build_purchase_confirm_def intro!: fits_same
        split: sum.splits option.splits if_splits)
  subgoal by (auto simp: buy_gift_start_def intro!: fits_same split: option.splits if_splits)
  done

lemma fits_bought:
  assumes "buy_confirm_handler e u d s = (scr, key, d', s')"
  shows "fits u s d d'"
proof -
  have "d' = d \<or> d' = d\<lparr>fs_promo := None, fs_gift := None\<rparr>"
    using assms by (auto simp: buy_confirm_handler_def Let_def split: sum.splits option.splits prod.splits)
  then show ?thesis by (auto intro!: fits_same)
qed

lemma fits_review:
  "start_review_handler rv u d s = (key, d') \<Longrightarrow> fits u s d d'"
  "receive_rating_handler cb d = (key, d') \<Longrightarrow> fits u s d d'"
  subgoal by (auto simp: start_review_handler_def fits_def promo_fits_def review_fits_def split: if_splits)
  subgoal by (auto simp: receive_rating_handler_def intro!: fits_same split: sum.splits option.splits)
  done

lemma browse_fits:
  assumes "browse_step u d s d' s'"
  shows "fits u s d d'"
  using assms
proof (cases rule: browse_step.cases)
  case (item_chosen e cr rv cb scr)
  then show ?thesis
    by (auto simp: item_info_callback_handler_def Let_def tx_simps dest!: fits_open split: option.splits)
next
  case (hit_chosen e cr rv cb scr)
  then show ?thesis
    by (auto simp: search_item_info_handler_def Let_def tx_simps dest!: fits_open split: option.splits)
next
  case (subscribed e cr rv key scr')
  then show ?thesis
    by (auto simp: subscribe_stock_handler_def tx_simps Let_def split_beta split: if_splits)
next
  case (unsubscribed e cr rv key scr')
  then show ?thesis
    by (auto simp: unsubscribe_stock_handler_def tx_simps Let_def split_beta split: if_splits)
next
  case (promo_removed e cr rv scr)
  then show ?thesis using render_keeps [of e cr rv "the (fs_item d)" None u "d\<lparr>fs_promo := None\<rparr>" s scr d']
    by (auto simp: remove_promo_handler_def Let_def intro!: fits_same split: if_splits)
next
  case (went_back e cr rv scr)
  then show ?thesis using render_keeps [of e cr rv "the (fs_item d)" None u "leave_promo_input d" s scr d']
    by (auto simp: back_to_item_handler_def intro!: fits_same split: if_splits)
next
  case (redeemed e words key amount)
  then show ?thesis by (auto simp: redeem_promo_code_handler_def Let_def fits_fresh split: prod.splits if_splits)
next
  case (review_unwritten key)
  then show ?thesis by (auto simp: skip_review_text_handler_def finish_review_def tx_simps fits_fresh split: prod.splits)
next
  case (review_written words key)
  then show ?thesis by (auto simp: receive_review_text_handler_def finish_review_def tx_simps fits_fresh split: prod.splits)
next
  case (promo_typed e cr rv words scr)
  then show ?thesis using fits_promo_typed by blast
next
  case (bought e scr key')
  then show ?thesis using fits_bought by blast
next
  case (review_started rv key)
  then show ?thesis using fits_review(1) by blast
next
  case (rated cb key)
  then show ?thesis using fits_review(2) by blast
next
  case (purchase_asked e cr scr)
  then show ?thesis using fits_confirm(1) by blast
next
  case (gift_asked cr scr)
  then show ?thesis using fits_confirm(3) by blast
next
  case (gift_named e cr words scr)
  then show ?thesis using fits_confirm(2) by blast
qed (auto simp: shop_search_handler_def apply_promo_handler_def redeem_promo_handler_def
    dest: browsing_keeps intro!: fits_same)

text \<open>A promo code belongs to the product on screen: it goes when another product is opened.\<close>

theorem applied_promo_fits_item:
  assumes "browse_step u d s d' s'" "fs_promo d' = Some code"
  shows "fs_promo d = Some code \<and> fs_item d' = fs_item d \<or>
    fs_item d' = fs_item d \<and> (\<exists>e. fst (validate_promo_for_item e s code (the (fs_item d')) u))"
  using browse_fits [OF assms(1)] assms(2) by (auto simp: fits_def promo_fits_def)

subsection \<open>Reviews come from buyers\<close>

text \<open>Products and reviews stay, and nothing that was bought is forgotten.\<close>

definition shelf :: "shop \<Rightarrow> shop \<Rightarrow> bool" where
  "shelf s s' \<longleftrightarrow> t_goods s' = t_goods s \<and> t_reviews s' = t_reviews s \<and> (\<exists>rows. t_bought s' = t_bought s @ rows)"

lemma shelf_refl [simp]: "shelf s s"
  by (simp add: shelf_def)

lemma shelf_trans [trans]: "shelf s s1 \<Longrightarrow> shelf s1 s2 \<Longrightarrow> shelf s s2"
  by (auto simp: shelf_def)

lemma shelf_same: "t_goods s' = t_goods s \<Longrightarrow> t_reviews s' = t_reviews s \<Longrightarrow> t_bought s' = t_bought s \<Longrightarrow> shelf s s'"
  by (simp add: shelf_def)

lemma shelf_updates [simp]:
  "shelf s (log_audit a b c f g s1) = shelf s s1" "shelf s (safe_create_task t s1) = shelf s s1"
  "shelf s (put_order x s1) = shelf s s1" "shelf s (put_user v s1) = shelf s s1"
  "shelf s (append_history x p q w s1) = shelf s s1" "shelf s (add_operation k amt m s1) = shelf s s1"
  by (simp_all add: shelf_def log_audit_def safe_create_task_def put_order_def put_user_def append_history_def add_operation_def Let_def)

lemma shelf_release: "shelf s (snd (release_stock_reservations k s))"
  by (simp add: shelf_def release_stock_reservations_def Let_def)

lemma shelf_transition:
  assumes "transition_order e x t a s = Inr (y, s')"
  shows "shelf s s'"
proof -
  let ?s1 = "if t = EXPIRED \<or> t = FAILED then snd (release_stock_reservations (o_id x) s) else s"
  have 1: "shelf s ?s1" using shelf_release by simp
  have rev: "shelf s0 (snd (reverse_referral_for_order x0 s0))" for x0 s0
  proof -
    obtain b z s1 where r: "reverse_referral_for_order x0 s0 = ((b, z), s1)" by (metis surj_pair)
    show ?thesis using reverse_referral_effect(2) [OF r] by (auto simp: r shelf_def)
  qed
  have cred: "shelf s0 s2" if "credit_referral_for_order e x0 s0 = Inr (az, s2)" for x0 s0 az s2
    using credit_referral_tables(4,8,14) [of e x0 s0 "fst az" "snd az" s2] that by (simp add: shelf_def)
  show ?thesis
  proof (cases "t = COMPLETED")
    case True
    with assms obtain az s2 where c: "credit_referral_for_order e (x\<lparr>o_status := COMPLETED\<rparr>) s = Inr (az, s2)"
      "\<exists>w. s' = append_history w (Some (o_status x)) t a s2"
      by (auto simp: transition_order_def Let_def tx_bind_eq_Inr split_beta split: if_split_asm)
    then show ?thesis using cred [OF c(1)] by auto
  next
    case False
    with assms obtain x4 where "\<exists>z. s' = append_history z (Some (o_status x)) t a
        (if t = REFUNDED then snd (reverse_referral_for_order x4 ?s1) else ?s1)"
      by (auto simp: transition_order_def Let_def tx_bind_eq_Inr split_beta split: if_split_asm)
    then show ?thesis using shelf_trans [OF 1 rev] 1 by auto
  qed
qed

lemma shelf_consume: "consume_stock_units g q s = Inr (vs, s') \<Longrightarrow> shelf s s'"
  using consume_stock_units_frame [of g q s vs s'] by (auto simp: shelf_def)

lemma shelf_created:
  "create_order_with_snapshot e u g q p dc cc fc ra dt x pid px gift s = Inr (y, s') \<Longrightarrow> shelf s s'"
  by (auto simp: create_order_with_snapshot_def tx_bind_eq_Inr Let_def shelf_def append_history_def put_order_def split: if_splits)

lemma shelf_paid: "begin_paid_order e u g q p dc gift cc s = Inr (x, s') \<Longrightarrow> shelf s s'"
  unfolding begin_paid_order_def Let_def
  by (auto simp: tx_bind_eq_Inr split: if_splits dest!: shelf_created shelf_transition) (metis shelf_trans shelf_updates(4))

lemma shelf_complete: "complete_stock_order e x g vs s = Inr (r, s') \<Longrightarrow> shelf s s'"
proof -
  have ins: "shelf s0 s1" if "insert_bought e n b k vps s0 = Inr (rows, s1)" for n b k vps s0 rows s1
    using insert_bought_Inr(1) [OF that] by (simp add: shelf_def)
  assume "complete_stock_order e x g vs s = Inr (r, s')"
  then show ?thesis
    by (auto simp: complete_stock_order_def Let_def tx_bind_eq_Inr record_bought_units_def split: if_splits
        dest!: ins shelf_transition intro: shelf_trans)
qed

lemma shelf_buy_body: "buy_body e u n code gift s = Inr (r, s') \<Longrightarrow> shelf s s'"
proof -
  have line: "shelf s0 s1" if l: "buy_line e us g p dc gift cc s0 = Inr ((rows, x, api), s1)" for us g p dc cc s0 s1 rows x api
  proof (cases "g_fulfillment_type g = FulfillApi")
    case True
    then obtain x0 s2 where "begin_paid_order e us g 1 p dc gift cc s0 = Inr (x0, s2)" "purchase_api_line x0 g s2 = Inr (x, s1)"
      using l by (auto simp: buy_line_def tx_bind_eq_Inr)
    then show ?thesis using shelf_paid by (auto simp: purchase_api_line_def Let_def split: option.splits)
  next
    case False
    then obtain vs x0 s2 s3 where c: "consume_stock_units g 1 s0 = Inr (vs, s2)"
      "begin_paid_order e us g 1 p dc gift 0 s2 = Inr (x0, s3)" "purchase_stock_line e x0 g 1 (Some vs) s3 = Inr ((rows, x), s1)"
      using l by (auto simp: buy_line_def tx_bind_eq_Inr)
    have "shelf s3 s1"
      using c(3) by (cases vs) (auto simp: purchase_stock_line_def tx_bind_eq_Inr intro: shelf_trans [OF shelf_consume shelf_complete] shelf_complete)
    then show ?thesis using shelf_trans [OF shelf_consume [OF c(1)] shelf_trans [OF shelf_paid [OF c(2)]]] by blast
  qed
  have promo: "shelf s0 s1" if "buy_record_promo u a x s0 = Inr (r1, s1)" for a x s0 r1 s1
    using buy_record_promo_Inr [OF that] by (auto simp: record_promo_usage_Inr shelf_def)
  assume "buy_body e u n code gift s = Inr (r, s')"
  then obtain us g price dc cost rows x api a s1 where l: "buy_line e us g price dc gift cost s = Inr ((rows, x, api), s1)"
    and p: "buy_record_promo u a x s1 = Inr ((), s')"
    by (auto simp: buy_body_def Let_def tx_simps split: option.splits prod.splits)
  show ?thesis using line [OF l] promo [OF p] by (rule shelf_trans)
qed

lemma shelf_buy: "buy_item_transaction e u n code gift s = (r, s') \<Longrightarrow> shelf s s'"
proof -
  have "buy_loop k e u n code gift s = (r, s') \<Longrightarrow> shelf s s'" for k
  proof (induction k)
    case (Suc k)
    show ?case
    proof (cases "run_session (buy_body (e\<lparr>env_attempt := 2 - k\<rparr>) u n code gift) s")
      case (Inl err)
      then show ?thesis using Suc by (auto simp: Let_def split: exn.splits if_splits)
    next
      case (Inr q)
      obtain d api s1 where q: "q = ((d, api), s1)" by (metis surj_pair)
      have "shelf s s1" using Inr q shelf_buy_body by (auto simp: run_session_Inr)
      then show ?thesis using Suc.prems Inr q by (auto simp: Let_def split: option.splits)
    qed
  qed simp
  then show "buy_item_transaction e u n code gift s = (r, s') \<Longrightarrow> shelf s s'" by (simp add: buy_item_transaction_def)
qed

text \<open>A step that writes a review, and every other step.\<close>

definition review_written_by :: "int \<Rightarrow> string \<Rightarrow> shop \<Rightarrow> shop \<Rightarrow> bool" where
  "review_written_by u n s s' \<longleftrightarrow> t_goods s' = t_goods s \<and> t_bought s' = t_bought s \<and>
     (\<exists>r g. t_reviews s' = t_reviews s @ [r] \<and> goods_by_name s n = Some g \<and> rv_item_id r = g_id g \<and> rv_user_id r = u \<and>
        1 \<le> rv_rating r \<and> rv_rating r \<le> 5 \<and> (\<forall>q \<in> set (t_reviews s). \<not> (rv_user_id q = u \<and> rv_item_id q = g_id g)))"

lemma create_review_effect:
  assumes "create_review u n rating body s = Inr (rid, s')"
  shows "shelf s s' \<or> review_written_by u n s s'"
  using assms
  by (auto simp: create_review_def review_written_by_def run_session_Inr goods_id_by_name_def scalar_id_def list_ex_iff
      split: if_splits option.splits)

lemma finish_review_effect:
  assumes "finish_review u d words s = Inr (key, d', s')"
  shows "shelf s s' \<or> (\<exists>n. fs_review_item d = Some n \<and> review_written_by u n s s')"
proof (cases "\<not> truthy_str (fs_review_item d) \<or> fs_review_rating d = None")
  case True
  then show ?thesis using assms by (auto simp: finish_review_def submit_review_def)
next
  case False
  then obtain n where n: "fs_review_item d = Some n" by (auto simp: truthy_str_def)
  from False n assms obtain rid where "create_review u n (the (fs_review_rating d)) words s = Inr (rid, s')"
    by (auto simp: finish_review_def submit_review_def tx_bind_eq_Inr)
  from create_review_effect [OF this] n show ?thesis by blast
qed

lemma shelf_redeem: "redeem_balance_promo e code u s = (r, s') \<Longrightarrow> shelf s s'"
proof -
  assume r: "redeem_balance_promo e code u s = (r, s')"
  show ?thesis
  proof (cases "run_session (redeem_body e code u) s")
    case (Inl err)
    then show ?thesis using r by (cases err) (auto simp: redeem_balance_promo_def)
  next
    case (Inr q)
    obtain amount s1 where q: "q = (amount, s1)" by fastforce
    have "shelf s s1"
      using Inr q
      by (auto simp: run_session_Inr redeem_body_def Let_def record_promo_usage_Inr shelf_def add_operation_def put_user_def
          split: option.splits sum.splits exn.splits)
    then show ?thesis using r Inr q by (auto simp: redeem_balance_promo_def)
  qed
qed

lemma shelf_subscriptions:
  "subscribe_to_stock u n s = Inr (a, s') \<Longrightarrow> shelf s s'"
  "unsubscribe_from_stock u n s = Inr (b, s') \<Longrightarrow> shelf s s'"
  unfolding subscribe_to_stock_def unsubscribe_from_stock_def
  subgoal
    by (auto simp: run_session_Inr Let_def shelf_def split: if_splits sum.splits exn.splits option.splits)
  subgoal by (auto simp: run_session_Inr Let_def shelf_def split: option.splits)
  done

lemma browse_effect:
  assumes "browse_step u d s d' s'"
  shows "shelf s s' \<or> (\<exists>n. fs_review_item d = Some n \<and> review_written_by u n s s')"
  using assms
proof (cases rule: browse_step.cases)
  case (subscribed e cr rv key scr')
  then show ?thesis using shelf_subscriptions(1)
    by (auto simp: subscribe_stock_handler_def tx_bind_eq_Inr Let_def split_beta split: if_splits)
next
  case (unsubscribed e cr rv key scr')
  then show ?thesis using shelf_subscriptions(2)
    by (auto simp: unsubscribe_stock_handler_def tx_bind_eq_Inr Let_def split_beta split: if_splits)
next
  case (redeemed e words key amount)
  obtain r s1 where "redeem_balance_promo e (upper (strip words)) u s = (r, s1)" by fastforce
  with redeemed shelf_redeem show ?thesis
    by (cases r) (auto simp: redeem_promo_code_handler_def Let_def split: if_splits)
next
  case (review_unwritten key)
  then show ?thesis using finish_review_effect by (simp add: skip_review_text_handler_def)
next
  case (review_written words key)
  then show ?thesis using finish_review_effect by (simp add: receive_review_text_handler_def)
next
  case (bought e scr key')
  show ?thesis
  proof (cases "validate_purchase_context u d")
    case (Inr q)
    obtain n k where q: "q = (n, k)" by fastforce
    obtain r s1 where b: "buy_item_transaction e k n (fs_promo d) (fs_gift d) s = (r, s1)" by fastforce
    have "shelf s s1" using shelf_buy [OF b] .
    then show ?thesis using bought Inr q b
      by (cases r) (auto simp: buy_confirm_handler_def purchase_audit_def Let_def split: option.splits)
  qed (use bought in \<open>simp add: buy_confirm_handler_def\<close>)
qed simp_all

text \<open>
  The storefront with all its users; between their steps anything may happen that keeps the products, the
  reviews and what was bought.
\<close>

inductive store_step :: "(int \<Rightarrow> dialogue) \<times> shop \<Rightarrow> (int \<Rightarrow> dialogue) \<times> shop \<Rightarrow> bool" where
  browsed: "browse_step u (ds u) s d' s' \<Longrightarrow> store_step (ds, s) (ds(u := d'), s')"
| elsewhere: "shelf s s' \<Longrightarrow> store_step (ds, s) (ds, s')"

inductive store_reach :: "(int \<Rightarrow> dialogue) \<times> shop \<Rightarrow> (int \<Rightarrow> dialogue) \<times> shop \<Rightarrow> bool" for x where
  store_start: "store_reach x x"
| store_more: "store_reach x y \<Longrightarrow> store_step y z \<Longrightarrow> store_reach x z"

definition reviewed_by_buyers :: "shop \<Rightarrow> bool" where
  "reviewed_by_buyers s \<longleftrightarrow>
     (\<forall>r \<in> set (t_reviews s). 1 \<le> rv_rating r \<and> rv_rating r \<le> 5 \<and>
        (\<exists>g \<in> set (t_goods s). g_id g = rv_item_id r \<and> has_purchased_item s (rv_user_id r) (g_name g))) \<and>
     distinct (map (\<lambda>r. (rv_user_id r, rv_item_id r)) (t_reviews s))"

definition reviewers_bought :: "(int \<Rightarrow> dialogue) \<Rightarrow> shop \<Rightarrow> bool" where
  "reviewers_bought ds s \<longleftrightarrow> (\<forall>u n. fs_review_item (ds u) = Some n \<longrightarrow> has_purchased_item s u n)"

lemma purchased_append: "has_purchased_item s u n \<Longrightarrow> t_bought s' = t_bought s @ rows \<Longrightarrow> has_purchased_item s' u n"
  by (auto simp: has_purchased_item_def list_ex_iff)

lemma shelf_keeps:
  assumes "shelf s s'" "reviewed_by_buyers s"
  shows "reviewed_by_buyers s'"
  using assms purchased_append unfolding shelf_def reviewed_by_buyers_def by metis

lemma written_keeps:
  assumes "review_written_by u n s s'" "reviewed_by_buyers s" "has_purchased_item s u n"
  shows "reviewed_by_buyers s'"
proof -
  obtain r g where w: "t_goods s' = t_goods s" "t_bought s' = t_bought s" "t_reviews s' = t_reviews s @ [r]"
    "goods_by_name s n = Some g" "rv_item_id r = g_id g" "rv_user_id r = u" "1 \<le> rv_rating r" "rv_rating r \<le> 5"
    "\<forall>q \<in> set (t_reviews s). \<not> (rv_user_id q = u \<and> rv_item_id q = g_id g)"
    using assms(1) by (auto simp: review_written_by_def)
  have g: "g \<in> set (t_goods s)" "g_name g = n"
    using w(4) by (auto simp: goods_by_name_def dest: find_by_Some_mem find_by_Some_key)
  have same: "has_purchased_item s' = has_purchased_item s" by (simp add: has_purchased_item_def w(2) fun_eq_iff)
  show ?thesis using assms(2,3) w g by (auto simp: reviewed_by_buyers_def same)
qed

lemma store_step_inv:
  assumes "store_step x y" "reviewed_by_buyers (snd x) \<and> reviewers_bought (fst x) (snd x)"
  shows "reviewed_by_buyers (snd y) \<and> reviewers_bought (fst y) (snd y)"
  using assms(1)
proof (cases rule: store_step.cases)
  case (browsed u ds s d' s')
  have b: "\<exists>rows. t_bought s' = t_bought s @ rows"
    using browse_effect [OF browsed(3)] by (auto simp: shelf_def review_written_by_def)
  then have keep: "has_purchased_item s v n \<Longrightarrow> has_purchased_item s' v n" for v n
    using purchased_append by blast
  have "review_fits u s (ds u) d'" using browse_fits [OF browsed(3)] by (simp add: fits_def)
  then have "fs_review_item d' = Some n \<Longrightarrow> has_purchased_item s u n" for n
    using assms(2) browsed(1)
    by (cases "fs_item (ds u)") (auto simp: review_fits_def reviewers_bought_def)
  then have "reviewers_bought (ds(u := d')) s'"
    using assms(2) keep browsed(1) by (auto simp: reviewers_bought_def)
  moreover have "reviewed_by_buyers s'"
    using browse_effect [OF browsed(3)] assms(2) browsed(1) shelf_keeps written_keeps
    by (auto simp: reviewers_bought_def)
  ultimately show ?thesis by (simp add: browsed(2))
next
  case (elsewhere s s' ds)
  have "has_purchased_item s u n \<Longrightarrow> has_purchased_item s' u n" for u n
    using elsewhere(3) purchased_append by (auto simp: shelf_def)
  then show ?thesis using assms(2) elsewhere shelf_keeps by (auto simp: reviewers_bought_def)
qed

text \<open>C32: Whatever users do in the shop, in any interleaving of their dialogues - browsing, searching,
  promo codes, gifts, confirmed purchases, reviews in several steps - every review is written by
  somebody who has bought that product, and nobody reviews a product twice; the reviewer's
  purchase stays on record.\<close>
theorem reviews_come_from_buyers:
  assumes "store_reach (ds, s) (ds', s')" "reviewed_by_buyers s"
    and "\<forall>u. fs_review_item (ds u) = None"
  shows "reviewed_by_buyers s'"
proof -
  have "store_reach (ds, s) y \<Longrightarrow> reviewed_by_buyers (snd y) \<and> reviewers_bought (fst y) (snd y)" for y
  proof (induction rule: store_reach.induct)
    case store_start
    then show ?case using assms(2,3) by (simp add: reviewers_bought_def)
  next
    case (store_more y z)
    then show ?case using store_step_inv by blast
  qed
  from this [OF assms(1)] show ?thesis by simp
qed

subsection \<open>Two screens that can mislead\<close>

text \<open>The confirmation shows the price without the promo code that the purchase will take off.\<close>

lemma confirmation_shows_list_price:
  "\<exists>d d'. fs_promo d = Some ''SALE'' \<and>
     show_purchase_confirm sample_env (fresh_reads id sample_shop) 1 d = (Confirm ''key'' 1999 None, d') \<and>
     map_sum id fst (buy_price sample_env sample_shop 1 (sample_goods 3 ''key'' 1999 FulfillStock) (fs_promo d')) = Inr 1499"
proof -
  let ?d = "fresh_dialogue\<lparr>fs_item := Some ''key'', fs_promo := Some ''SALE''\<rparr>"
  have "fst (show_purchase_confirm sample_env (fresh_reads id sample_shop) 1 ?d) = Confirm ''key'' 1999 None" by code_simp
  moreover have "map_sum id fst (buy_price sample_env sample_shop 1 (sample_goods 3 ''key'' 1999 FulfillStock)
      (fs_promo (snd (show_purchase_confirm sample_env (fresh_reads id sample_shop) 1 ?d)))) = Inr 1499" by code_simp
  ultimately show ?thesis
    by (intro exI [of _ ?d] exI [of _ "snd (show_purchase_confirm sample_env (fresh_reads id sample_shop) 1 ?d)"])
      (simp add: prod_eq_iff)
qed

text \<open>
  A confirmation names neither product nor recipient in its button: the button of an older confirmation
  buys what was confirmed last.
\<close>

lemma confirm_button_names_nothing:
  "build_purchase_confirm e cr n1 g1 d = Some (scr1, d1) \<Longrightarrow> build_purchase_confirm e cr n2 g2 d1 = Some (scr2, d2) \<Longrightarrow>
   buy_confirm_handler e' u d2 s = buy_confirm_handler e' u (d\<lparr>fs_gift := g2\<rparr>) s"
  by (auto simp: build_purchase_confirm_def split: option.splits)

subsection \<open>Witnesses\<close>

definition sample_browsing :: dialogue where
  "sample_browsing = (case show_goods_page sample_catalog ''games'' 0 0 fresh_dialogue of Inr (_, d) \<Rightarrow> d | Inl _ \<Rightarrow> fresh_dialogue)"

lemma goods_button_opens_shown_item_witness:
  "\<exists>scr d. item_info_callback_handler sample_env (fresh_reads id sample_catalog) True ''itm:1:0'' 1 sample_browsing empty_shop =
     Inr (scr, d) \<and> fs_item d = Some ''key''"
proof -
  have "map_sum id fst (show_goods_page sample_catalog ''games'' 0 0 fresh_dialogue) =
      Inr (Listed ''shop.goods.choose'' [(''api'', ''itm:0:0''), (''key'', ''itm:1:0'')] None ''categories-page_0'')" by code_simp
  then have "show_goods_page sample_catalog ''games'' 0 0 fresh_dialogue =
      Inr (Listed ''shop.goods.choose'' [(''api'', ''itm:0:0''), (''key'', ''itm:1:0'')] None ''categories-page_0'', sample_browsing)"
    unfolding sample_browsing_def by (cases "show_goods_page sample_catalog ''games'' 0 0 fresh_dialogue") auto
  from goods_button_opens_shown_item [OF this, of "''key''" "''itm:1:0''" sample_browsing sample_env
      "fresh_reads id sample_catalog" True 1 empty_shop]
  show ?thesis by (auto simp: prod_eq_iff)
qed


definition sample_bought_shop :: shop where
  "sample_bought_shop = sample_shop\<lparr>t_bought := [\<lparr>bg_id = 19, bg_item_name = ''key'', bg_value = ''k'', bg_price = 1999,
     bg_buyer_id = Some 1, bg_datetime = 900, bg_unique_id = 77, bg_order_id = None\<rparr>]\<rparr>"

definition sample_dialogues :: "int \<Rightarrow> dialogue" where
  "sample_dialogues u = fresh_dialogue\<lparr>fs_item := Some ''key''\<rparr>"

definition sample_started :: dialogue where
  "sample_started = snd (start_review_handler True 1 (sample_dialogues 1) sample_bought_shop)"

definition sample_rated :: dialogue where
  "sample_rated = snd (receive_rating_handler ''rating:5'' sample_started)"

definition sample_reviewed_shop :: shop where
  "sample_reviewed_shop = (case receive_review_text_handler ''good'' 1 sample_rated sample_bought_shop of
     Inr (key, d, s) \<Rightarrow> s | Inl _ \<Rightarrow> sample_bought_shop)"

lemma reviews_come_from_buyers_witness:
  "reviewed_by_buyers sample_reviewed_shop \<and> map rv_text (t_reviews sample_reviewed_shop) = [Some ''good'']"
proof -
  have texts: "map rv_text (t_reviews sample_reviewed_shop) = [Some ''good'']" by code_simp
  have "map_sum id fst (receive_review_text_handler ''good'' 1 sample_rated sample_bought_shop) = Inr ''review.created''" by code_simp
  then obtain d where "receive_review_text_handler ''good'' 1 sample_rated sample_bought_shop = Inr (''review.created'', d, sample_reviewed_shop)"
    unfolding sample_reviewed_shop_def by (cases "receive_review_text_handler ''good'' 1 sample_rated sample_bought_shop") auto
  then have written: "browse_step 1 sample_rated sample_bought_shop d sample_reviewed_shop" by (rule review_written)
  have started: "browse_step 1 (sample_dialogues 1) sample_bought_shop sample_started sample_bought_shop"
    unfolding sample_started_def by (rule review_started) (rule prod.collapse [symmetric])
  have rated: "browse_step 1 sample_started sample_bought_shop sample_rated sample_bought_shop"
    unfolding sample_rated_def by (rule browse_step.rated) (rule prod.collapse [symmetric])
  have "store_reach (sample_dialogues, sample_bought_shop)
     (sample_dialogues(1 := sample_started, 1 := sample_rated, 1 := d), sample_reviewed_shop)"
    by (rule store_more [OF store_more [OF store_more [OF store_start browsed] browsed] browsed])
      (simp_all only: fun_upd_same, rule started, rule rated, rule written)
  moreover have "reviewed_by_buyers sample_bought_shop"
    by (simp add: reviewed_by_buyers_def sample_bought_shop_def sample_shop_def empty_shop_def)
  moreover have "\<forall>u. fs_review_item (sample_dialogues u) = None" by (simp add: sample_dialogues_def fresh_dialogue_def)
  ultimately show ?thesis using reviews_come_from_buyers texts by blast
qed

end
