(* ===== verification/Desk.thy ===== *)
theory Desk
  imports Broadcast
begin

text \<open>
  The dialogues of the staff about the catalogue: \<open>handlers/admin/goods_management.py\<close>, \<open>adding_position.py\<close>,
  \<open>update_position.py\<close>, \<open>categories_management.py\<close> and \<open>sale_management.py\<close>.  The dialogue of a member of
  staff (\<open>FSMContext\<close>) is the record \<open>desk\<close>: its state and the entries of its data these handlers use.
  A handler answers with the keys of the texts it sends; \<open>Raised\<close> is an exception that leaves it.
\<close>

subsection \<open>The dialogue of a member of staff\<close>

datatype desk_state =
    AddName | AddDescription | AddPrice | AddCategory | AddInfinity | AddValues | AddSingle
  | AmountName | AmountValues
  | UpdName | UpdNewName | UpdDescription | UpdPrice | UpdInfinity | UpdSingle | UpdValues
  | DeleteName | ShowName | BoughtId
  | CategoryAdd | CategoryDelete | CategoryOld | CategoryNew
  | SaleName | SalePercent | SaleDays
  | PromoCode | PromoType | PromoValue | PromoMaxUses | PromoExpires | PromoBinding | PromoBindingName

text \<open>The amount of a promo code is a float: a finite one is its shortest decimal notation, an infinite one its sign.\<close>

datatype float_amount = Finite decimal | NotANumber | Infinite bool

record desk =
  ad_state :: "desk_state option"
  ad_item_name :: "string option"
  ad_description :: "string option"
  ad_price :: "int option"
  ad_category :: "string option"
  ad_infinite :: "bool option"
  ad_values :: "string list"
  ad_old_name :: "string option"
  ad_new_name :: "string option"
  ad_old_category :: "string option"
  ad_sale_item :: "string option"
  ad_sale_percent :: "int option"
  ad_hash :: "(string \<times> string) option"
  ad_position :: "string option"
  ad_delete :: "(int \<times> string \<times> string \<times> string) option"
  ad_code :: "string option"
  ad_type :: "string option"
  ad_value :: "float_amount option"
  ad_max_uses :: "int option"
  ad_expires :: "int option"
  ad_binding :: "string option"
  ad_category_id :: "int option"
  ad_item_id :: "int option"

definition fresh_desk :: desk where
  "fresh_desk = \<lparr>ad_state = None, ad_item_name = None, ad_description = None, ad_price = None, ad_category = None,
     ad_infinite = None, ad_values = [], ad_old_name = None, ad_new_name = None, ad_old_category = None,
     ad_sale_item = None, ad_sale_percent = None, ad_hash = None, ad_position = None, ad_delete = None,
     ad_code = None, ad_type = None, ad_value = None, ad_max_uses = None, ad_expires = None, ad_binding = None,
     ad_category_id = None, ad_item_id = None\<rparr>"

datatype said = Key string | Count string nat

datatype answer =
    Said "said list"
  | Units string "(string \<times> string) list" "(int option \<times> (int \<times> int) \<times> int option) option"
  | Unit item_value string int "(string \<times> string) list"
  | Promo promo_code "string \<times> string" "(string \<times> string) list"
  | Asked string string "(string \<times> string) list"
  | Purchase bought_goods
  | Raised "said list" exn
  | Unheard

type_synonym turn = "answer \<times> desk \<times> shop"

text \<open>What a handler learns from outside: the cached reads, Telegram's replies, the channel, md5, and of the
  Unicode tables whether a text has only letters and digits beyond ASCII, and the text without the other characters.\<close>

datatype channel_reply = ChannelOk | ChannelForbidden | ChannelNotFound | ChannelBadRequest | ChannelError

record staff_world =
  sw_item :: "string \<Rightarrow> goods option"
  sw_category :: "string \<Rightarrow> category option"
  sw_reply :: "int \<Rightarrow> nat \<Rightarrow> api_reply"
  sw_channel :: "channel_reply option"
  sw_hash :: "string \<Rightarrow> string"
  sw_letters :: "string \<Rightarrow> bool"
  sw_keep :: "string \<Rightarrow> string"

definition need :: "'a option \<Rightarrow> 'a result" where
  "need x = (case x of None \<Rightarrow> Inl (OtherError ''NoneType'') | Some v \<Rightarrow> Inr v)"

definition attempt :: "('a \<times> shop) result \<Rightarrow> desk \<Rightarrow> shop \<Rightarrow> ('a \<Rightarrow> shop \<Rightarrow> turn) \<Rightarrow> turn" where
  "attempt r d s k = (case r of Inl err \<Rightarrow> (Raised [] err, d, s) | Inr (x, s1) \<Rightarrow> k x s1)"

definition prompt :: "string \<Rightarrow> desk_state \<Rightarrow> desk \<Rightarrow> shop \<Rightarrow> turn" where
  "prompt key st d s = (Said [Key key], d\<lparr>ad_state := Some st\<rparr>, s)"

definition refuse :: "string \<Rightarrow> desk \<Rightarrow> shop \<Rightarrow> turn" where
  "refuse key d s = (Said [Key key], d, s)"

text \<open>\<open>_notify_restock_safe\<close> and the message to the channel of the shop.\<close>

definition notify_restock_safe :: "staff_world \<Rightarrow> string \<Rightarrow> shop \<Rightarrow> shop" where
  "notify_restock_safe w item_name s =
     (case notify_restock (sw_reply w) item_name s of Inl _ \<Rightarrow> s | Inr (_, s1) \<Rightarrow> s1)"

definition announce_upload :: "staff_world \<Rightarrow> said list result" where
  "announce_upload w =
     (case sw_channel w of None \<Rightarrow> Inr [] | Some ChannelOk \<Rightarrow> Inr []
      | Some ChannelForbidden \<Rightarrow> Inr [Key ''errors.channel.telegram_forbidden_error'']
      | Some ChannelNotFound \<Rightarrow> Inr [Key ''errors.channel.telegram_not_found'']
      | Some ChannelBadRequest \<Rightarrow> Inr [Key ''errors.channel.telegram_bad_request'']
      | Some ChannelError \<Rightarrow> Inl (OtherError ''channel''))"

definition item_audit :: "string \<Rightarrow> int \<Rightarrow> string \<Rightarrow> shop \<Rightarrow> shop" where
  "item_audit action caller item_name = log_audit action ''INFO'' (Some caller) (Some ''Item'') (Some item_name)"

definition report_lines :: "string \<Rightarrow> nat \<Rightarrow> nat \<Rightarrow> nat \<Rightarrow> nat \<Rightarrow> said list" where
  "report_lines title added db_dup batch_dup invalid =
     [Key title, Count ''admin.goods.add.result.added'' added] @
     (if 0 < db_dup then [Count ''admin.goods.add.result.skipped_db_dup'' db_dup] else []) @
     (if 0 < batch_dup then [Count ''admin.goods.add.result.skipped_batch_dup'' batch_dup] else []) @
     (if 0 < invalid then [Count ''admin.goods.add.result.skipped_invalid'' invalid] else [])"

text \<open>
  The end of a stock dialogue: subscribers are told when stock was added, then the channel, then the
  audit row is written and the dialogue cleared.  \<open>says\<close> was said before, \<open>later\<close> is said at the end.
\<close>

definition stock_done ::
    "staff_world \<Rightarrow> int \<Rightarrow> string \<Rightarrow> string \<Rightarrow> bool \<Rightarrow> said list \<Rightarrow> said list \<Rightarrow> desk \<Rightarrow> shop \<Rightarrow> turn" where
  "stock_done w caller action item_name added says later d s =
     (let s1 = (if added then notify_restock_safe w item_name s else s)
      in case announce_upload w of
           Inl err \<Rightarrow> (Raised says err, d, s1)
         | Inr told \<Rightarrow> (Said (says @ told @ later), fresh_desk, item_audit action caller item_name s1))"

subsection \<open>Adding a position\<close>

definition add_item_callback_handler :: "desk \<Rightarrow> shop \<Rightarrow> turn" where
  "add_item_callback_handler = prompt ''admin.goods.add.prompt.name'' AddName"

definition check_item_name_for_add :: "staff_world \<Rightarrow> string \<Rightarrow> desk \<Rightarrow> shop \<Rightarrow> turn" where
  "check_item_name_for_add w words d s =
     (let item_name = strip words
      in if \<not> is_safe_item_name item_name then refuse ''admin.goods.add.name.invalid'' d s
         else if sw_item w item_name \<noteq> None then refuse ''admin.goods.add.name.exists'' d s
         else prompt ''admin.goods.add.prompt.description'' AddDescription (d\<lparr>ad_item_name := Some item_name\<rparr>) s)"

definition add_item_description :: "string \<Rightarrow> desk \<Rightarrow> shop \<Rightarrow> turn" where
  "add_item_description words d =
     prompt ''admin.goods.add.prompt.price'' AddPrice (d\<lparr>ad_description := Some (strip words)\<rparr>)"

definition add_item_price :: "string \<Rightarrow> desk \<Rightarrow> shop \<Rightarrow> turn" where
  "add_item_price words d s =
     (case parse_price (Some words) of None \<Rightarrow> refuse ''admin.goods.add.price.invalid'' d s
      | Some price \<Rightarrow> prompt ''admin.goods.add.prompt.category'' AddCategory (d\<lparr>ad_price := Some price\<rparr>) s)"

definition check_category_for_add_item :: "staff_world \<Rightarrow> string \<Rightarrow> desk \<Rightarrow> shop \<Rightarrow> turn" where
  "check_category_for_add_item w words d s =
     (let category_name = strip words
      in if sw_category w category_name = None then refuse ''admin.goods.add.category.not_found'' d s
         else prompt ''admin.goods.add.infinity.question'' AddInfinity (d\<lparr>ad_category := Some category_name\<rparr>) s)"

definition adding_value_to_position :: "string \<Rightarrow> desk \<Rightarrow> shop \<Rightarrow> turn" where
  "adding_value_to_position cb d s =
     (let ans = split_on (CHR ''_'') cb ! 1; d1 = d\<lparr>ad_infinite := Some (ans = ''yes'')\<rparr>
      in if ans = ''no'' then prompt ''admin.goods.add.values.prompt_multi'' AddValues d1 s
         else prompt ''admin.goods.add.single.prompt_value'' AddSingle d1 s)"

text \<open>The three handlers that collect values do the same.\<close>

definition collect_item_value :: "string \<Rightarrow> desk \<Rightarrow> shop \<Rightarrow> turn" where
  "collect_item_value words d s =
     (let values = ad_values d @ [words]
      in (Said [Count ''admin.goods.add.values.added'' (length values)], d\<lparr>ad_values := values\<rparr>, s))"

definition create_from_desk :: "desk \<Rightarrow> shop \<Rightarrow> (string \<times> shop) result" where
  "create_from_desk d s =
     tx_bind (need (ad_item_name d)) (\<lambda>item_name. tx_bind (need (ad_description d)) (\<lambda>item_description.
     tx_bind (need (ad_price d)) (\<lambda>item_price. tx_bind (need (ad_category d)) (\<lambda>category_name.
     tx_bind (create_item item_name item_description (dec_of_int item_price) category_name FulfillStock False s) (\<lambda>(_, s1).
       Inr (item_name, s1))))))"

definition finish_adding_items_callback_handler :: "staff_world \<Rightarrow> int \<Rightarrow> desk \<Rightarrow> shop \<Rightarrow> turn" where
  "finish_adding_items_callback_handler w caller d s =
     attempt (create_from_desk d s) d s (\<lambda>item_name s1.
     attempt (add_values_bulk item_name (ad_values d) False s1) d s1 (\<lambda>(added, db_dup, batch_dup, invalid) s2.
       stock_done w caller ''create_item'' item_name (0 < added)
         (report_lines ''admin.goods.add.result.created'' added db_dup batch_dup invalid) [] d s2))"

definition finish_adding_item_callback_handler :: "staff_world \<Rightarrow> int \<Rightarrow> string \<Rightarrow> desk \<Rightarrow> shop \<Rightarrow> turn" where
  "finish_adding_item_callback_handler w caller words d s =
     (let single_value = strip words
      in if single_value = [] then refuse ''admin.goods.add.single.empty'' d s
         else attempt (create_from_desk d s) d s (\<lambda>item_name s1.
              attempt (add_values_to_item item_name single_value True s1) d s1 (\<lambda>added s2.
                stock_done w caller ''create_item'' item_name added [] [Key ''admin.goods.add.single.created''] d s2)))"

subsection \<open>Adding stock to a position\<close>

definition update_item_amount_callback_handler :: "desk \<Rightarrow> shop \<Rightarrow> turn" where
  "update_item_amount_callback_handler = prompt ''admin.goods.update.amount.prompt.name'' AmountName"

definition check_item_name_for_amount_upd :: "staff_world \<Rightarrow> string \<Rightarrow> desk \<Rightarrow> shop \<Rightarrow> turn" where
  "check_item_name_for_amount_upd w words d s =
     (let item_name = strip words
      in if sw_item w item_name = None then refuse ''admin.goods.update.amount.not_exists'' d s
         else if check_value s item_name then refuse ''admin.goods.update.amount.infinity_forbidden'' d s
         else prompt ''admin.goods.add.values.prompt_multi'' AmountValues (d\<lparr>ad_item_name := Some item_name\<rparr>) s)"

definition updating_item_values :: "string \<Rightarrow> desk \<Rightarrow> shop \<Rightarrow> turn" where
  "updating_item_values = collect_item_value"

definition updating_item_amount :: "staff_world \<Rightarrow> int \<Rightarrow> desk \<Rightarrow> shop \<Rightarrow> turn" where
  "updating_item_amount w caller d s =
     attempt (tx_bind (need (ad_item_name d)) (\<lambda>n. tx_bind (add_values_bulk n (ad_values d) False s) (\<lambda>(r, s1). Inr ((n, r), s1))))
       d s (\<lambda>(item_name, added, db_dup, batch_dup, invalid) s1.
         stock_done w caller ''add_item_values'' item_name (0 < added)
           (report_lines ''admin.goods.update.values.result.title'' added db_dup batch_dup invalid) [] d s1)"

subsection \<open>Updating a position\<close>

definition UPDATE_ITEM_ERRORS :: "string option \<Rightarrow> string" where
  "UPDATE_ITEM_ERRORS code =
     (if code = Some ''position_invalid'' then ''admin.goods.update.position.invalid''
      else if code = Some ''position_exists'' then ''admin.goods.update.position.exists''
      else ''errors.something_wrong'')"

definition update_item_callback_handler :: "desk \<Rightarrow> shop \<Rightarrow> turn" where
  "update_item_callback_handler = prompt ''admin.goods.update.prompt.name'' UpdName"

definition check_item_name_for_update :: "staff_world \<Rightarrow> string \<Rightarrow> desk \<Rightarrow> shop \<Rightarrow> turn" where
  "check_item_name_for_update w words d s =
     (let item_name = strip words
      in case sw_item w item_name of None \<Rightarrow> refuse ''admin.goods.update.not_exists'' d s
         | Some item \<Rightarrow> prompt ''admin.goods.update.prompt.new_name'' UpdNewName
             (d\<lparr>ad_old_name := Some item_name, ad_category := get_category_name_by_id s (g_category_id item)\<rparr>) s)"

definition update_item_name :: "string \<Rightarrow> desk \<Rightarrow> shop \<Rightarrow> turn" where
  "update_item_name words d s =
     (let new_name = strip words
      in if \<not> is_safe_item_name new_name then refuse ''admin.goods.add.name.invalid'' d s
         else prompt ''admin.goods.update.prompt.description'' UpdDescription (d\<lparr>ad_new_name := Some new_name\<rparr>) s)"

definition update_item_description :: "string \<Rightarrow> desk \<Rightarrow> shop \<Rightarrow> turn" where
  "update_item_description words d =
     prompt ''admin.goods.add.prompt.price'' UpdPrice (d\<lparr>ad_description := Some (strip words)\<rparr>)"

definition update_item_price :: "string \<Rightarrow> desk \<Rightarrow> shop \<Rightarrow> turn" where
  "update_item_price words d s =
     (case parse_price (Some words) of None \<Rightarrow> refuse ''admin.goods.add.price.invalid'' d s
      | Some price \<Rightarrow>
          prompt (if \<not> check_value s (case ad_old_name d of None \<Rightarrow> [] | Some n \<Rightarrow> n)
                  then ''admin.goods.update.infinity.make.question''
                  else ''admin.goods.update.infinity.deny.question'') UpdInfinity (d\<lparr>ad_price := Some price\<rparr>) s)"

text \<open>Without a category in the data there is no such category, as \<open>update_item\<close> and \<open>replace_item_stock_and_meta\<close> find.\<close>

definition desk_update :: "desk \<Rightarrow> shop \<Rightarrow> ((string \<times> string \<times> bool \<times> string option) \<times> shop) result" where
  "desk_update d s =
     tx_bind (need (ad_old_name d)) (\<lambda>old_name. tx_bind (need (ad_new_name d)) (\<lambda>new_name.
     tx_bind (need (ad_description d)) (\<lambda>description. tx_bind (need (ad_price d)) (\<lambda>price.
       case ad_category d of None \<Rightarrow> Inr ((old_name, new_name, False, Some ''position_invalid''), s)
       | Some category \<Rightarrow> tx_bind (update_item old_name new_name description (dec_of_int price) category s) (\<lambda>((ok, err), s1).
           Inr ((old_name, new_name, ok, err), s1))))))"

definition desk_replace :: "string list \<Rightarrow> bool \<Rightarrow> desk \<Rightarrow> shop \<Rightarrow> ((string \<times> bool \<times> string option \<times> nat) \<times> shop) result" where
  "desk_replace values is_infinity d s =
     tx_bind (need (ad_old_name d)) (\<lambda>old_name. tx_bind (need (ad_new_name d)) (\<lambda>new_name.
     tx_bind (need (ad_description d)) (\<lambda>description. tx_bind (need (ad_price d)) (\<lambda>price.
       case ad_category d of None \<Rightarrow> Inr ((new_name, False, Some ''position_invalid'', 0), s)
       | Some category \<Rightarrow>
          (let (r, s1) = replace_item_stock_and_meta old_name new_name description (dec_of_int price) category values is_infinity s
           in Inr ((new_name, r), s1))))))"

definition update_item_process :: "int \<Rightarrow> string \<Rightarrow> desk \<Rightarrow> shop \<Rightarrow> turn" where
  "update_item_process caller cb d s =
     (let parts = split_on (CHR ''_'') cb
      in if length parts < 4 then (Raised [] (OtherError ''IndexError''), d, s)
         else if parts ! 3 = ''no''
         then attempt (desk_update d s) d s (\<lambda>(old_name, new_name, ok, err) s1.
           if \<not> ok then (Said [Key (UPDATE_ITEM_ERRORS err)], fresh_desk, s1)
           else (Said [Key ''admin.goods.update.success''], fresh_desk, item_audit ''update_item'' caller new_name s1))
         else if parts ! 1 = ''make'' then prompt ''admin.goods.add.single.prompt_value'' UpdSingle d s
         else prompt ''admin.goods.add.values.prompt_multi'' UpdValues d s)"

definition update_item_infinity :: "staff_world \<Rightarrow> int \<Rightarrow> string \<Rightarrow> desk \<Rightarrow> shop \<Rightarrow> turn" where
  "update_item_infinity w caller words d s =
     (let value = strip words
      in if value = [] then refuse ''admin.goods.add.single.empty'' d s
         else attempt (desk_replace [value] True d s) d s (\<lambda>(new_name, ok, err, added) s1.
           if \<not> ok then (Said [Key (UPDATE_ITEM_ERRORS err)], fresh_desk, s1)
           else (Said [Key ''admin.goods.update.success''], fresh_desk,
                 item_audit ''update_item'' caller new_name (notify_restock_safe w new_name s1))))"

definition updating_item :: "string \<Rightarrow> desk \<Rightarrow> shop \<Rightarrow> turn" where
  "updating_item = collect_item_value"

definition update_item_no_infinity :: "staff_world \<Rightarrow> int \<Rightarrow> desk \<Rightarrow> shop \<Rightarrow> turn" where
  "update_item_no_infinity w caller d s =
     (let (_, batch_dup, invalid) = normalize_values (ad_values d)
      in attempt (desk_replace (ad_values d) False d s) d s (\<lambda>(new_name, ok, err, added) s1.
           if \<not> ok then (Said [Key (UPDATE_ITEM_ERRORS err)], fresh_desk, s1)
           else stock_done w caller ''update_item'' new_name (0 < added) []
                  (report_lines ''admin.goods.update.success'' added 0 batch_dup invalid) d s1))"

subsection \<open>The units of a position\<close>

definition goods_management_callback_handler :: "desk \<Rightarrow> shop \<Rightarrow> turn" where
  "goods_management_callback_handler d s = (Said [Key ''admin.goods.menu.title''], fresh_desk, s)"

definition delete_item_callback_handler :: "desk \<Rightarrow> shop \<Rightarrow> turn" where
  "delete_item_callback_handler = prompt ''admin.goods.delete.prompt.name'' DeleteName"

text \<open>The name is not stripped here.\<close>

definition delete_str_item :: "staff_world \<Rightarrow> int \<Rightarrow> string \<Rightarrow> desk \<Rightarrow> shop \<Rightarrow> turn" where
  "delete_str_item w caller words d s =
     (if sw_item w words = None then (Said [Key ''admin.goods.delete.position.not_found''], fresh_desk, s)
      else attempt (delete_item words s) d s (\<lambda>_ s1.
             (Said [Key ''admin.goods.delete.position.success''], fresh_desk, item_audit ''delete_item'' caller words s1)))"

definition show_items_callback_handler :: "desk \<Rightarrow> shop \<Rightarrow> turn" where
  "show_items_callback_handler = prompt ''admin.goods.prompt.enter_item_name'' ShowName"

text \<open>A page of unit ids; the callback of a unit carries the hash of the name and a page.\<close>

definition unit_callback :: "string \<Rightarrow> int \<Rightarrow> int \<Rightarrow> string" where
  "unit_callback item_hash page unit_id = ''si_'' @ show_int unit_id @ CHR ''_'' # item_hash @ CHR ''_'' # show_int page"

definition units_page ::
    "string \<Rightarrow> string \<Rightarrow> string \<Rightarrow> int \<Rightarrow> desk \<Rightarrow> shop \<Rightarrow> desk \<Rightarrow> turn" where
  "units_page title item_name item_hash page d s d1 =
     (case lazy_paginated_keyboard (query_items_in_position s item_name) (count_items_in_position s item_name) page
             (new_paginator 10) of
        Inl err \<Rightarrow> (Raised [] err, d, s)
      | Inr ((ids, nav), _) \<Rightarrow>
          (Units title (map (\<lambda>g. (show_int g, unit_callback item_hash page g)) ids) nav, d1, s))"

definition show_str_item :: "staff_world \<Rightarrow> string \<Rightarrow> desk \<Rightarrow> shop \<Rightarrow> turn" where
  "show_str_item w words d s =
     (let item_name = strip words
      in if sw_item w item_name = None then (Said [Key ''admin.goods.position.not_found''], fresh_desk, s)
         else if count_items_in_position s item_name = 0
         then (Said [Key ''admin.goods.list_in_position.empty''], fresh_desk, s)
         else (let item_hash = sw_hash w item_name;
                   d1 = d\<lparr>ad_hash := Some (item_hash, item_name), ad_position := Some item_name\<rparr>
               in units_page ''admin.goods.list_in_position.title'' item_name item_hash 0 d1 s d1))"

text \<open>\<open>payload.rsplit('_', 1)\<close> with a number at the end; otherwise the whole payload is the hash.\<close>

definition hash_and_page :: "string \<Rightarrow> string \<times> int" where
  "hash_and_page payload =
     (let tail = rev (takeWhile (\<lambda>c. c \<noteq> CHR ''_'') (rev payload))
      in if CHR ''_'' \<notin> set payload then (payload, 0)
         else case parse_int tail of Inl _ \<Rightarrow> (payload, 0)
              | Inr n \<Rightarrow> (take (length payload - length tail - 1) payload, n))"

definition navigate_items_in_goods :: "string \<Rightarrow> desk \<Rightarrow> shop \<Rightarrow> turn" where
  "navigate_items_in_goods cb d s =
     (let (item_hash, page) = hash_and_page (drop 4 cb);
          mapped = (case ad_hash d of None \<Rightarrow> None | Some (h, n) \<Rightarrow> if h = item_hash then Some n else None);
          found = (if truthy_str mapped then mapped else ad_position d)
      in if \<not> truthy_str found then refuse ''errors.invalid_data'' d s
         else (let item_name = the found
               in if count_items_in_position s item_name = 0 then refuse ''admin.goods.list_in_position.empty'' d s
                  else units_page ''admin.goods.list_in_position.title'' item_name item_hash page d s
                         (d\<lparr>ad_position := Some item_name, ad_hash := Some (item_hash, item_name)\<rparr>)))"

definition unit_info_callback_handler :: "staff_world \<Rightarrow> string \<Rightarrow> desk \<Rightarrow> shop \<Rightarrow> turn" where
  "unit_info_callback_handler w cb d s =
     (let parts = split_on (CHR ''_'') (drop 3 cb)
      in if length parts < 2 then refuse ''admin.goods.item.invalid'' d s
         else case parse_int (parts ! 0) of
           Inl _ \<Rightarrow> refuse ''admin.goods.item.invalid_id'' d s
         | Inr item_id \<Rightarrow>
             (let item_hash = parts ! 1; page = (if 2 < length parts then parts ! 2 else ''0'')
              in case get_goods_info s item_id of
                   None \<Rightarrow> refuse ''admin.goods.item.not_found'' d s
                 | Some (v, item_name) \<Rightarrow>
                     (let d1 = d\<lparr>ad_delete := Some (item_id, item_hash, page, item_name)\<rparr>
                      in case sw_item w item_name of
                           None \<Rightarrow> (Raised [] (OtherError ''TypeError''), d1, s)
                         | Some position \<Rightarrow>
                             (Unit v item_name (g_price position)
                                [(''admin.goods.item.delete.button'', ''dip_'' @ show_int item_id),
                                 (''btn.back'', ''gip_'' @ item_hash @ CHR ''_'' # page)], d1, s))))"

definition process_delete_item_from_position :: "int \<Rightarrow> string \<Rightarrow> desk \<Rightarrow> shop \<Rightarrow> turn" where
  "process_delete_item_from_position caller cb d s =
     (case parse_int (drop 4 cb) of
        Inl _ \<Rightarrow> refuse ''admin.goods.item.invalid'' d s
      | Inr item_id \<Rightarrow>
         (let (item_hash, page, item_name) = (case ad_delete d of None \<Rightarrow> ('''', ''0'', '''') | Some (_, h, p, n) \<Rightarrow> (h, p, n))
          in case get_goods_info s item_id of
               None \<Rightarrow> (Said [Key ''admin.goods.item.already_deleted_or_missing'', Key ''admin.goods.list_in_position.title''], d, s)
             | Some (v, position_name) \<Rightarrow>
                 attempt (delete_item_from_position item_id s) d s (\<lambda>_ s0.
                   let s1 = safe_create_task (InvalidateItemCache position_name None) s0;
                       audit = log_audit ''delete_item_value'' ''INFO'' (Some caller) (Some ''ItemValue'') (Some (show_int item_id))
                   in if item_hash = [] \<or> item_name = [] then (Said [Key ''admin.goods.item.deleted''], d, audit s1)
                      else case parse_int page of
                        Inl _ \<Rightarrow> (Said [Key ''admin.goods.item.deleted''], d, s1)
                      | Inr wanted \<Rightarrow>
                         (let total = count_items_in_position s1 item_name
                          in if total = 0 then (Said [Key ''admin.goods.list_in_position.empty''], d, audit s1)
                             else (let page_int = max 0 (min wanted (max ((total - 1) div 10) 0));
                                       (ans, d2, s2) = units_page ''admin.goods.item.deleted'' item_name item_hash page_int d s1
                                         (d\<lparr>ad_hash := Some (item_hash, item_name)\<rparr>)
                                   in (ans, d2, (case ans of Raised _ _ \<Rightarrow> s2 | _ \<Rightarrow> audit s2)))))))"

subsection \<open>Categories\<close>

definition category_audit :: "string \<Rightarrow> int \<Rightarrow> string \<Rightarrow> shop \<Rightarrow> shop" where
  "category_audit action caller name = log_audit action ''INFO'' (Some caller) (Some ''Category'') (Some name)"

definition categories_callback_handler :: "desk \<Rightarrow> shop \<Rightarrow> turn" where
  "categories_callback_handler = refuse ''admin.categories.menu.title''"

definition add_category_callback_handler :: "desk \<Rightarrow> shop \<Rightarrow> turn" where
  "add_category_callback_handler = prompt ''admin.categories.prompt.add'' CategoryAdd"

definition process_category_for_add :: "staff_world \<Rightarrow> int \<Rightarrow> string \<Rightarrow> desk \<Rightarrow> shop \<Rightarrow> turn" where
  "process_category_for_add w caller words d s =
     (case tx_bind (category_request (strip words)) (\<lambda>name.
             let category_name = sanitize_name name
             in if sw_category w category_name \<noteq> None then Inr (None, s)
                else tx_bind (create_category category_name s) (\<lambda>(_, s1). Inr (Some category_name, s1))) of
        Inl _ \<Rightarrow> (Said [Key ''errors.invalid_data''], fresh_desk,
                 log_audit ''create_category_error'' ''ERROR'' (Some caller) (Some ''Category'') None s)
      | Inr (None, s1) \<Rightarrow> (Said [Key ''admin.categories.add.exist''], fresh_desk, s1)
      | Inr (Some name, s1) \<Rightarrow>
          (Said [Key ''admin.categories.add.success''], fresh_desk, category_audit ''create_category'' caller name s1))"

definition delete_category_callback_handler :: "desk \<Rightarrow> shop \<Rightarrow> turn" where
  "delete_category_callback_handler = prompt ''admin.categories.prompt.delete'' CategoryDelete"

definition process_category_for_delete :: "staff_world \<Rightarrow> int \<Rightarrow> string \<Rightarrow> desk \<Rightarrow> shop \<Rightarrow> turn" where
  "process_category_for_delete w caller words d s =
     (let category_name = strip words
      in if sw_category w category_name = None then (Said [Key ''admin.categories.delete.not_found''], fresh_desk, s)
         else attempt (delete_category category_name s) d s (\<lambda>_ s1.
                (Said [Key ''admin.categories.delete.success''], fresh_desk,
                 category_audit ''delete_category'' caller category_name s1)))"

definition update_category_callback_handler :: "desk \<Rightarrow> shop \<Rightarrow> turn" where
  "update_category_callback_handler = prompt ''admin.categories.prompt.rename.old'' CategoryOld"

definition check_category_for_update :: "staff_world \<Rightarrow> string \<Rightarrow> desk \<Rightarrow> shop \<Rightarrow> turn" where
  "check_category_for_update w words d s =
     (let old_name = strip words
      in if sw_category w old_name = None then (Said [Key ''admin.categories.rename.not_found''], fresh_desk, s)
         else prompt ''admin.categories.prompt.rename.new'' CategoryNew (d\<lparr>ad_old_category := Some old_name\<rparr>) s)"

definition check_category_name_for_update :: "staff_world \<Rightarrow> int \<Rightarrow> string \<Rightarrow> desk \<Rightarrow> shop \<Rightarrow> turn" where
  "check_category_name_for_update w caller words d s =
     (let new_name = strip words
      in if sw_category w new_name \<noteq> None then (Said [Key ''admin.categories.rename.exist''], fresh_desk, s)
         else attempt (tx_bind (need (ad_old_category d)) (\<lambda>old_name. update_category old_name new_name s)) d s (\<lambda>_ s1.
                (Said [Key ''admin.categories.rename.success''], fresh_desk,
                 category_audit ''rename_category'' caller new_name s1)))"

subsection \<open>Sales\<close>

definition manage_sale_callback_handler :: "desk \<Rightarrow> shop \<Rightarrow> turn" where
  "manage_sale_callback_handler = prompt ''admin.sale.prompt.name'' SaleName"

definition sale_item_name :: "staff_world \<Rightarrow> env \<Rightarrow> string \<Rightarrow> desk \<Rightarrow> shop \<Rightarrow> turn" where
  "sale_item_name w e words d s =
     (let item_name = strip words
      in case sw_item w item_name of None \<Rightarrow> refuse ''admin.sale.not_found'' d s
         | Some item \<Rightarrow>
             (let (_, on_sale, _) = effective_price item (env_now e)
              in (Said [Key (if on_sale then ''admin.sale.current.active'' else ''admin.sale.current.none''),
                    Key ''admin.sale.prompt.percent''],
                  d\<lparr>ad_sale_item := Some item_name, ad_state := Some SalePercent\<rparr>, s)))"

definition small_number :: "nat \<Rightarrow> nat \<Rightarrow> string \<Rightarrow> int option" where
  "small_number least greatest words =
     (let t = strip words
      in if \<not> is_digits t then None
         else case parse_nat t of None \<Rightarrow> None
              | Some n \<Rightarrow> if n < least \<or> greatest < n then None else Some (int n))"

definition sale_percent :: "int \<Rightarrow> string \<Rightarrow> desk \<Rightarrow> shop \<Rightarrow> turn" where
  "sale_percent caller words d s =
     (case small_number 0 100 words of None \<Rightarrow> refuse ''admin.sale.percent.invalid'' d s
      | Some percent \<Rightarrow>
          if percent = 0
          then attempt (tx_bind (need (ad_sale_item d)) (\<lambda>n. tx_bind (set_item_sale n None None s) (\<lambda>(_, s1). Inr (n, s1)))) d s
                 (\<lambda>item_name s1. (Said [Key ''admin.sale.disabled''], fresh_desk, item_audit ''set_item_sale'' caller item_name s1))
          else prompt ''admin.sale.prompt.days'' SaleDays (d\<lparr>ad_sale_percent := Some percent\<rparr>) s)"

text \<open>\<open>now + timedelta(days)\<close>: at most 999999999 days, and not past the year 9999.\<close>

definition days_later :: "int \<Rightarrow> int \<Rightarrow> int result" where
  "days_later now days =
     (if 999999999 < days \<or> day_start (day_number 9999 12 31 + 1) \<le> now + day_start days
      then Inl (OtherError ''OverflowError'') else Inr (now + day_start days))"

definition sale_days :: "env \<Rightarrow> int \<Rightarrow> string \<Rightarrow> desk \<Rightarrow> shop \<Rightarrow> turn" where
  "sale_days e caller words d s =
     (let t = strip words
      in if \<not> is_digits t \<or> parse_nat t = Some 0 then refuse ''admin.sale.days.invalid'' d s
         else attempt
           (tx_bind (days_later (env_now e) (int (the (parse_nat t)))) (\<lambda>sale_until. tx_bind (need (ad_sale_item d)) (\<lambda>item_name.
            tx_bind (need (ad_sale_percent d)) (\<lambda>percent. tx_bind (set_item_sale item_name (Some (of_int percent)) (Some sale_until) s)
              (\<lambda>(ok, s1). Inr ((item_name, ok), s1)))))) d s
           (\<lambda>(item_name, ok) s1.
              if \<not> ok then (Said [Key ''admin.sale.not_found''], fresh_desk, s1)
              else (Said [Key ''admin.sale.success''], fresh_desk, item_audit ''set_item_sale'' caller item_name s1)))"

subsection \<open>Looking up a purchase\<close>

text \<open>The word characters of ASCII and the hyphen; what lies beyond ASCII is left to the parameters.\<close>

definition code_char :: "char \<Rightarrow> bool" where
  "code_char c \<longleftrightarrow> (let n = (of_char c :: nat) in 128 \<le> n \<or> (48 \<le> n \<and> n \<le> 57) \<or> (65 \<le> n \<and> n \<le> 90) \<or>
     (97 \<le> n \<and> n \<le> 122) \<or> c = CHR ''_'' \<or> c = CHR ''-'')"

definition sanitize_query :: "(string \<Rightarrow> string) \<Rightarrow> string \<Rightarrow> string" where
  "sanitize_query keep v = strip (keep (filter (\<lambda>c. code_char c \<or> is_space c \<or> c = CHR ''.'') v))"

definition search_query :: "string \<Rightarrow> string result" where
  "search_query words = constrained_str 1 255 words"

definition show_bought_item_callback_handler :: "desk \<Rightarrow> shop \<Rightarrow> turn" where
  "show_bought_item_callback_handler = prompt ''admin.shop.bought.prompt_id'' BoughtId"

definition process_item_show :: "staff_world \<Rightarrow> string \<Rightarrow> desk \<Rightarrow> shop \<Rightarrow> turn" where
  "process_item_show w words d s =
     (case search_query (strip words) of
        Inl _ \<Rightarrow> (Said [Key ''errors.invalid_data''], fresh_desk, log_audit ''search_error'' ''ERROR'' None None None s)
      | Inr q \<Rightarrow>
         (let msg = sanitize_query (sw_keep w) q
          in if \<not> is_digits msg then refuse ''errors.id_should_be_number'' d s
             else case select_bought_item s (int (the (parse_nat msg))) of
                    Some b \<Rightarrow> (Purchase b, fresh_desk, s)
                  | None \<Rightarrow> (Said [Key ''admin.shop.bought.not_found''], fresh_desk, s)))"

end
