(* ===== verification/Promo_Desk.thy ===== *)
theory Promo_Desk
  imports Desk
begin

text \<open>
  The promo codes of the staff: \<open>handlers/admin/promo_management.py\<close>, with \<open>PromoCodeRequest\<close> of
  \<open>misc/validators.py\<close>.  A float is the decimal that its shortest notation names.
\<close>

subsection \<open>Validating what is typed\<close>

text \<open>
  \<open>PromoCodeRequest\<close>: the text may hold word characters and hyphens.  Which letters and digits there are
  beyond ASCII is a parameter, asked about the whole text.
\<close>

definition promo_code_request :: "(string \<Rightarrow> bool) \<Rightarrow> string \<Rightarrow> string result" where
  "promo_code_request letters words =
     tx_bind (constrained_str 1 50 (strip words)) (\<lambda>t.
       let v = strip (upper t)
       in if list_all code_char v \<and> letters v then Inr v
          else Inl (ValueError ''Promo code can only contain letters, digits, and hyphens''))"

text \<open>
  \<open>str(float(text))\<close> read back as a decimal: no zero at the end but the one after the point.
\<close>

function shortest :: "int \<Rightarrow> int \<Rightarrow> decimal" where
  "shortest m k =
     (if 0 \<le> k then \<lparr>mantissa = m * 10 ^ nat (k + 1), exponent = - 1\<rparr>
      else if k = - 1 \<or> m mod 10 \<noteq> 0 then \<lparr>mantissa = m, exponent = k\<rparr>
      else shortest (m div 10) (k + 1))"
  by pat_completeness auto
termination by (relation "measure (\<lambda>(m, k). nat (- k))") auto

declare shortest.simps [simp del]

definition unsigned_part :: "string \<Rightarrow> string" where
  "unsigned_part t = (case t of [] \<Rightarrow> [] | c # cs \<Rightarrow> if c = CHR ''-'' \<or> c = CHR ''+'' then cs else t)"

definition py_float :: "string \<Rightarrow> float_amount result" where
  "py_float words =
     (let t = strip words; u = lower (unsigned_part t)
      in if u = ''nan'' then Inr NotANumber
         else if u = ''inf'' \<or> u = ''infinity''
         then Inr (Infinite (starts_with ''-'' t))
         else case decimal_of_string t of Inl _ \<Rightarrow> Inl (ValueError ''float'')
              | Inr d \<Rightarrow> Inr (Finite (shortest (mantissa d) (exponent d))))"

text \<open>The comparisons of a float: a NaN is neither at most 0 nor more than 100.\<close>

definition at_most_zero :: "float_amount \<Rightarrow> bool" where
  "at_most_zero v = (case v of Finite d \<Rightarrow> mantissa d \<le> 0 | NotANumber \<Rightarrow> False | Infinite negative \<Rightarrow> negative)"

definition more_than_100 :: "float_amount \<Rightarrow> bool" where
  "more_than_100 v = (case v of Finite d \<Rightarrow> 100 < dec_value d | NotANumber \<Rightarrow> False | Infinite negative \<Rightarrow> \<not> negative)"

subsection \<open>The list and the card of a promo code\<close>

type_synonym promo_row = "promo_code \<times> bool"

text \<open>The signs of a row: a warning, a check mark, a no-entry sign, an infinity sign.\<close>

definition warning_sign :: string where "warning_sign = map char_of [226, 154, 160, 239, 184, 143, 32 :: nat]"

definition check_mark :: string where "check_mark = map char_of [226, 156, 133 :: nat]"

definition no_entry :: string where "no_entry = map char_of [226, 155, 148 :: nat]"

definition infinity_sign :: string where "infinity_sign = map char_of [226, 136, 158 :: nat]"

definition promo_list_label :: "promo_row \<Rightarrow> string" where
  "promo_list_label row =
     (case row of (p, gone) \<Rightarrow>
        (if gone then warning_sign else '''') @ (if pc_is_active p then check_mark else no_entry) @ '' '' @ pc_code p @
        '' ('' @ show_int (pc_current_uses p) @ ''/'' @
        (if pc_max_uses p = 0 then infinity_sign else show_int (pc_max_uses p)) @ '')'')"

definition promo_page :: "int \<Rightarrow> desk \<Rightarrow> shop \<Rightarrow> turn" where
  "promo_page page d s =
     (case lazy_paginated_keyboard (query_promo_codes s) (count_promo_codes s) page (new_paginator 10) of
        Inl err \<Rightarrow> (Raised [] err, d, s)
      | Inr ((rows, nav), _) \<Rightarrow>
          (Units ''admin.promo.title'' (map (\<lambda>row. (promo_list_label row, ''promo_v_'' @ show_int (pc_id (fst row)))) rows) nav, d, s))"

definition promo_management_handler :: "desk \<Rightarrow> shop \<Rightarrow> turn" where
  "promo_management_handler d s =
     (if t_promos s = [] then (Said [Key ''admin.promo.title'', Key ''admin.promo.list_empty''], fresh_desk, s)
      else promo_page 0 d s)"

definition navigate_promos :: "string \<Rightarrow> desk \<Rightarrow> shop \<Rightarrow> turn" where
  "navigate_promos cb d s =
     (case parse_int (drop (length ''promos-page_'') cb) of
        Inl _ \<Rightarrow> refuse ''errors.pagination_invalid'' d s | Inr page \<Rightarrow> promo_page page d s)"

text \<open>What a promo code applies to; a scoped code whose binding is gone says so.\<close>

definition promo_binding_label :: "shop \<Rightarrow> promo_code \<Rightarrow> string \<times> string" where
  "promo_binding_label s p =
     (let name = (\<lambda>n. if truthy_str n then the n else ''?'')
      in if pc_scope p = CategoryScope
         then (case pc_category_id p of None \<Rightarrow> (''admin.promo.binding.dangling'', '''')
               | Some k \<Rightarrow> (''admin.promo.binding.on_category'', name (get_category_name_by_id s k)))
         else if pc_scope p = ItemScope
         then (case pc_item_id p of None \<Rightarrow> (''admin.promo.binding.dangling'', '''')
               | Some k \<Rightarrow> (''admin.promo.binding.on_item'', name (get_item_name_by_id s k)))
         else (''admin.promo.binding.none'', ''''))"

definition show_promo_view :: "int \<Rightarrow> shop \<Rightarrow> answer option" where
  "show_promo_view promo_id s =
     map_option (\<lambda>p. Promo p (promo_binding_label s p)
       [(if pc_is_active p then ''admin.promo.btn.deactivate'' else ''admin.promo.btn.activate'', ''promo_toggle_'' @ show_int promo_id),
        (''admin.promo.btn.delete'', ''promo_d_'' @ show_int promo_id), (''btn.back'', ''promo_mgmt'')]) (get_promo s promo_id)"

text \<open>The third part of \<open>promo_v_7\<close>, \<open>promo_toggle_7\<close>, \<open>promo_d_7\<close> and \<open>promo_dc_7\<close>.\<close>

definition promo_id_arg :: "string \<Rightarrow> int option" where
  "promo_id_arg cb =
     (let parts = split_on (CHR ''_'') cb
      in if length parts < 3 then None else case parse_int (parts ! 2) of Inl _ \<Rightarrow> None | Inr n \<Rightarrow> Some n)"

definition view_promo :: "string \<Rightarrow> desk \<Rightarrow> shop \<Rightarrow> turn" where
  "view_promo cb d s =
     (case promo_id_arg cb of None \<Rightarrow> refuse ''errors.invalid_data'' d s
      | Some promo_id \<Rightarrow>
          (case show_promo_view promo_id s of None \<Rightarrow> refuse ''promo.not_found'' d s | Some view \<Rightarrow> (view, d, s)))"

definition promo_audit :: "string \<Rightarrow> int \<Rightarrow> string \<Rightarrow> shop \<Rightarrow> shop" where
  "promo_audit action caller rid = log_audit action ''INFO'' (Some caller) (Some ''PromoCode'') (Some rid)"

definition toggle_promo :: "int \<Rightarrow> string \<Rightarrow> desk \<Rightarrow> shop \<Rightarrow> turn" where
  "toggle_promo caller cb d s =
     (case promo_id_arg cb of None \<Rightarrow> refuse ''errors.invalid_data'' d s
      | Some promo_id \<Rightarrow>
          attempt (toggle_promo_code promo_id s) d s (\<lambda>new_state s1.
            case new_state of None \<Rightarrow> refuse ''promo.not_found'' d s1
            | Some on \<Rightarrow>
               (let s2 = promo_audit ''promo_toggle'' caller (show_int promo_id) s1
                in (case show_promo_view promo_id s2 of
                      None \<Rightarrow> Said [Key (if on then ''admin.promo.toggled_on'' else ''admin.promo.toggled_off'')]
                    | Some view \<Rightarrow> view, d, s2))))"

definition confirm_delete_promo :: "string \<Rightarrow> desk \<Rightarrow> shop \<Rightarrow> turn" where
  "confirm_delete_promo cb d s =
     (case promo_id_arg cb of None \<Rightarrow> refuse ''errors.invalid_data'' d s
      | Some promo_id \<Rightarrow>
          (Asked ''admin.promo.confirm_delete'' (case get_promo s promo_id of None \<Rightarrow> ''?'' | Some p \<Rightarrow> pc_code p)
             [(''btn.yes'', ''promo_dc_'' @ show_int promo_id), (''btn.no'', ''promo_v_'' @ show_int promo_id)], d, s))"

definition delete_promo_confirmed :: "int \<Rightarrow> string \<Rightarrow> desk \<Rightarrow> shop \<Rightarrow> turn" where
  "delete_promo_confirmed caller cb d s =
     (case promo_id_arg cb of None \<Rightarrow> refuse ''errors.invalid_data'' d s
      | Some promo_id \<Rightarrow>
          attempt (delete_promo_code promo_id s) d s (\<lambda>_ s1.
            promo_management_handler d (promo_audit ''promo_delete'' caller (show_int promo_id) s1)))"

subsection \<open>Creating a promo code\<close>

definition promo_create_start :: "desk \<Rightarrow> shop \<Rightarrow> turn" where
  "promo_create_start = prompt ''admin.promo.prompt.code'' PromoCode"

definition promo_receive_code :: "staff_world \<Rightarrow> string \<Rightarrow> desk \<Rightarrow> shop \<Rightarrow> turn" where
  "promo_receive_code w words d s =
     (case promo_code_request (sw_letters w) words of
        Inl _ \<Rightarrow> refuse ''admin.promo.invalid_code'' d s
      | Inr code \<Rightarrow>
          if promo_by_code s (upper code) \<noteq> None then refuse ''admin.promo.code_exists'' d s
          else prompt ''admin.promo.prompt.type'' PromoType (d\<lparr>ad_code := Some code\<rparr>) s)"

definition promo_receive_type :: "string \<Rightarrow> desk \<Rightarrow> shop \<Rightarrow> turn" where
  "promo_receive_type cb d s =
     prompt ''admin.promo.prompt.value'' PromoValue (d\<lparr>ad_type := Some (split_on (CHR ''_'') cb ! 2)\<rparr>) s"

definition promo_receive_value :: "string \<Rightarrow> desk \<Rightarrow> shop \<Rightarrow> turn" where
  "promo_receive_value words d s =
     (case py_float words of Inl _ \<Rightarrow> refuse ''admin.promo.invalid_value'' d s
      | Inr value \<Rightarrow>
          if at_most_zero value \<or> (ad_type d = Some ''percent'' \<and> more_than_100 value)
          then refuse ''admin.promo.invalid_value'' d s
          else prompt ''admin.promo.prompt.max_uses'' PromoMaxUses (d\<lparr>ad_value := Some value\<rparr>) s)"

definition promo_receive_max_uses :: "string \<Rightarrow> desk \<Rightarrow> shop \<Rightarrow> turn" where
  "promo_receive_max_uses words d s =
     (case parse_int words of Inl _ \<Rightarrow> refuse ''admin.promo.invalid_value'' d s
      | Inr max_uses \<Rightarrow>
          if max_uses < 0 then refuse ''admin.promo.invalid_value'' d s
          else prompt ''admin.promo.prompt.expires'' PromoExpires (d\<lparr>ad_max_uses := Some max_uses\<rparr>) s)"

text \<open>\<open>_finalize_promo_creation\<close>: the dialogue stays as it is when the creation raises.\<close>

definition create_from_promo_desk :: "desk \<Rightarrow> shop \<Rightarrow> ((string \<times> int option) \<times> shop) result" where
  "create_from_promo_desk d s =
     tx_bind (need (ad_code d)) (\<lambda>code. tx_bind (need (ad_type d)) (\<lambda>discount_type. tx_bind (need (ad_value d)) (\<lambda>value.
     tx_bind (case value of
         Finite v \<Rightarrow> create_promo_code code discount_type v (case ad_max_uses d of None \<Rightarrow> 0 | Some n \<Rightarrow> n) (ad_expires d)
           (ad_category_id d) (ad_item_id d) 0 1 s
       | _ \<Rightarrow> Inl (if ad_category_id d \<noteq> None \<and> ad_item_id d \<noteq> None
                  then ValueError ''a promo code cannot be bound to both a category and an item''
                  else OtherError ''not a finite number''))
       (\<lambda>(promo_id, s1). Inr ((code, promo_id), s1)))))"

definition finalize_promo_creation :: "int \<Rightarrow> desk \<Rightarrow> shop \<Rightarrow> turn" where
  "finalize_promo_creation caller d s =
     attempt (create_from_promo_desk d s) d s (\<lambda>(code, promo_id) s1.
       if truthy_id promo_id
       then (Said [Key ''admin.promo.created''], fresh_desk, promo_audit ''promo_create'' caller code s1)
       else (Said [Key ''admin.promo.code_exists''], fresh_desk, s1))"

text \<open>The last valid day is named, so a code expires when that day ends.\<close>

definition promo_receive_expires :: "int \<Rightarrow> string \<Rightarrow> desk \<Rightarrow> shop \<Rightarrow> turn" where
  "promo_receive_expires caller words d s =
     (let t = strip words;
          next = (\<lambda>d1. if ad_type d1 = Some ''balance'' then finalize_promo_creation caller d1 s
                       else prompt ''admin.promo.prompt.binding_type'' PromoBinding d1 s)
      in if t = ''0'' then next (d\<lparr>ad_expires := None\<rparr>)
         else case parse_date t of
           Inl _ \<Rightarrow> refuse ''admin.promo.invalid_date'' d s
         | Inr day \<Rightarrow>
             (case days_later (day_start day) 1 of
                Inl err \<Rightarrow> (Raised [] err, d, s) | Inr expires_at \<Rightarrow> next (d\<lparr>ad_expires := Some expires_at\<rparr>)))"

definition promo_binding_type_chosen :: "int \<Rightarrow> string \<Rightarrow> desk \<Rightarrow> shop \<Rightarrow> turn" where
  "promo_binding_type_chosen caller cb d s =
     (let choice = py_replace ''promo_bind_'' [] cb
      in if choice = ''none'' then finalize_promo_creation caller d s
         else prompt (if choice = ''category'' then ''admin.promo.prompt.category_name'' else ''admin.promo.prompt.item_name'')
                PromoBindingName (d\<lparr>ad_binding := Some choice\<rparr>) s)"

definition promo_receive_binding_name :: "int \<Rightarrow> string \<Rightarrow> desk \<Rightarrow> shop \<Rightarrow> turn" where
  "promo_receive_binding_name caller words d s =
     (let name = strip words
      in if ad_binding d = Some ''category''
         then (case category_by_name s name of None \<Rightarrow> refuse ''admin.promo.category_not_found'' d s
               | Some c \<Rightarrow> finalize_promo_creation caller (d\<lparr>ad_category_id := Some (c_id c)\<rparr>) s)
         else (case get_item_info s name of None \<Rightarrow> refuse ''admin.promo.item_not_found'' d s
               | Some g \<Rightarrow> finalize_promo_creation caller (d\<lparr>ad_item_id := Some (g_id g)\<rparr>) s))"

end
