(* ===== verification/Staff.thy ===== *)
theory Staff
  imports Promo_Desk
begin

text \<open>
  The routers of the staff dialogues put together: which handler a text or a pressed button reaches, with the
  permission the callback filters ask for (of the texts typed in a state only the number of a purchase is filtered).  On top: what any
  interleaving of such dialogues keeps true of the catalogue.
\<close>

subsection \<open>Dispatching\<close>

datatype desk_event = Typed string | Pressed string

definition desk_typed :: "staff_world \<Rightarrow> env \<Rightarrow> 32 word \<Rightarrow> int \<Rightarrow> string \<Rightarrow> desk \<Rightarrow> shop \<Rightarrow> turn" where
  "desk_typed w e perms caller words d s =
     (case ad_state d of
        None \<Rightarrow> (Unheard, d, s)
      | Some AddName \<Rightarrow> check_item_name_for_add w words d s
      | Some AddDescription \<Rightarrow> add_item_description words d s
      | Some AddPrice \<Rightarrow> add_item_price words d s
      | Some AddCategory \<Rightarrow> check_category_for_add_item w words d s
      | Some AddInfinity \<Rightarrow> (Unheard, d, s)
      | Some AddValues \<Rightarrow> collect_item_value words d s
      | Some AddSingle \<Rightarrow> finish_adding_item_callback_handler w caller words d s
      | Some AmountName \<Rightarrow> check_item_name_for_amount_upd w words d s
      | Some AmountValues \<Rightarrow> updating_item_values words d s
      | Some UpdName \<Rightarrow> check_item_name_for_update w words d s
      | Some UpdNewName \<Rightarrow> update_item_name words d s
      | Some UpdDescription \<Rightarrow> update_item_description words d s
      | Some UpdPrice \<Rightarrow> update_item_price words d s
      | Some UpdInfinity \<Rightarrow> (Unheard, d, s)
      | Some UpdSingle \<Rightarrow> update_item_infinity w caller words d s
      | Some UpdValues \<Rightarrow> updating_item words d s
      | Some DeleteName \<Rightarrow> delete_str_item w caller words d s
      | Some ShowName \<Rightarrow> show_str_item w words d s
      | Some BoughtId \<Rightarrow> if granted perms CATALOG_MANAGE then process_item_show w words d s else (Unheard, d, s)
      | Some CategoryAdd \<Rightarrow> process_category_for_add w caller words d s
      | Some CategoryDelete \<Rightarrow> process_category_for_delete w caller words d s
      | Some CategoryOld \<Rightarrow> check_category_for_update w words d s
      | Some CategoryNew \<Rightarrow> check_category_name_for_update w caller words d s
      | Some SaleName \<Rightarrow> sale_item_name w e words d s
      | Some SalePercent \<Rightarrow> sale_percent caller words d s
      | Some SaleDays \<Rightarrow> sale_days e caller words d s
      | Some PromoCode \<Rightarrow> promo_receive_code w words d s
      | Some PromoType \<Rightarrow> (Unheard, d, s)
      | Some PromoValue \<Rightarrow> promo_receive_value words d s
      | Some PromoMaxUses \<Rightarrow> promo_receive_max_uses words d s
      | Some PromoExpires \<Rightarrow> promo_receive_expires caller words d s
      | Some PromoBinding \<Rightarrow> (Unheard, d, s)
      | Some PromoBindingName \<Rightarrow> promo_receive_binding_name caller words d s)"

text \<open>The buttons that are guarded by the state alone.\<close>

definition state_pressed :: "staff_world \<Rightarrow> int \<Rightarrow> string \<Rightarrow> desk \<Rightarrow> shop \<Rightarrow> turn" where
  "state_pressed w caller cb d s =
     (if starts_with ''infinity_'' cb \<and> ad_state d = Some AddInfinity then adding_value_to_position cb d s
      else if cb = ''finish_adding_items'' \<and> ad_state d = Some AddValues then finish_adding_items_callback_handler w caller d s
      else if cb = ''finish_updating_items'' \<and> ad_state d = Some AmountValues then updating_item_amount w caller d s
      else if starts_with ''change_'' cb \<and> ad_state d = Some UpdInfinity then update_item_process caller cb d s
      else if cb = ''finish_update_item'' \<and> ad_state d = Some UpdValues then update_item_no_infinity w caller d s
      else if starts_with ''promo_type_'' cb \<and> ad_state d = Some PromoType then promo_receive_type cb d s
      else if starts_with ''promo_bind_'' cb \<and> ad_state d = Some PromoBinding then promo_binding_type_chosen caller cb d s
      else (Unheard, d, s))"

definition catalog_pressed :: "staff_world \<Rightarrow> int \<Rightarrow> string \<Rightarrow> desk \<Rightarrow> shop \<Rightarrow> turn" where
  "catalog_pressed w caller cb d s =
     (if cb = ''goods_management'' then goods_management_callback_handler d s
      else if cb = ''add_item'' then add_item_callback_handler d s
      else if cb = ''update_item_amount'' then update_item_amount_callback_handler d s
      else if cb = ''update_item'' then update_item_callback_handler d s
      else if cb = ''delete_item'' then delete_item_callback_handler d s
      else if cb = ''show__items_in_position'' then show_items_callback_handler d s
      else if cb = ''show_bought_item'' then show_bought_item_callback_handler d s
      else if cb = ''categories_management'' then categories_callback_handler d s
      else if cb = ''add_category'' then add_category_callback_handler d s
      else if cb = ''delete_category'' then delete_category_callback_handler d s
      else if cb = ''update_category'' then update_category_callback_handler d s
      else if cb = ''manage_sale'' then manage_sale_callback_handler d s
      else if starts_with ''gip_'' cb then navigate_items_in_goods cb d s
      else if starts_with ''si_'' cb then unit_info_callback_handler w cb d s
      else if starts_with ''dip_'' cb then process_delete_item_from_position caller cb d s
      else (Unheard, d, s))"

definition promo_pressed :: "int \<Rightarrow> string \<Rightarrow> desk \<Rightarrow> shop \<Rightarrow> turn" where
  "promo_pressed caller cb d s =
     (if cb = ''promo_mgmt'' then promo_management_handler d s
      else if cb = ''promo_create'' then promo_create_start d s
      else if starts_with ''promos-page_'' cb then navigate_promos cb d s
      else if starts_with ''promo_v_'' cb then view_promo cb d s
      else if starts_with ''promo_toggle_'' cb then toggle_promo caller cb d s
      else if starts_with ''promo_d_'' cb then confirm_delete_promo cb d s
      else if starts_with ''promo_dc_'' cb then delete_promo_confirmed caller cb d s
      else (Unheard, d, s))"

definition desk_pressed :: "staff_world \<Rightarrow> 32 word \<Rightarrow> int \<Rightarrow> string \<Rightarrow> desk \<Rightarrow> shop \<Rightarrow> turn" where
  "desk_pressed w perms caller cb d s =
     (case state_pressed w caller cb d s of
        (Unheard, _, _) \<Rightarrow>
          (case (if granted perms CATALOG_MANAGE then catalog_pressed w caller cb d s else (Unheard, d, s)) of
             (Unheard, _, _) \<Rightarrow> if granted perms PROMO_MANAGE then promo_pressed caller cb d s else (Unheard, d, s)
           | t \<Rightarrow> t)
      | t \<Rightarrow> t)"

definition desk_turn :: "staff_world \<Rightarrow> env \<Rightarrow> 32 word \<Rightarrow> int \<Rightarrow> desk_event \<Rightarrow> desk \<Rightarrow> shop \<Rightarrow> turn" where
  "desk_turn w e perms caller ev d s =
     (case ev of Typed words \<Rightarrow> desk_typed w e perms caller words d s | Pressed cb \<Rightarrow> desk_pressed w perms caller cb d s)"

text \<open>One member of staff, one event after the other.\<close>

fun desk_run :: "(staff_world \<times> env \<times> 32 word \<times> desk_event) list \<Rightarrow> int \<Rightarrow> desk \<times> shop \<Rightarrow> desk \<times> shop" where
  "desk_run [] caller ds = ds"
| "desk_run ((w, e, perms, ev) # evs) caller ds = desk_run evs caller (snd (desk_turn w e perms caller ev (fst ds) (snd ds)))"

lemma desk_run_append: "desk_run (xs @ ys) caller ds = desk_run ys caller (desk_run xs caller ds)"
  by (induction xs caller ds rule: desk_run.induct) auto

text \<open>Several members of staff, each with a dialogue, in any order.\<close>

inductive staff_reach :: "(int \<Rightarrow> desk) \<times> shop \<Rightarrow> (int \<Rightarrow> desk) \<times> shop \<Rightarrow> bool" for x where
  staff_start: "staff_reach x x"
| staff_more: "staff_reach x (ds, s) \<Longrightarrow> desk_turn w e perms u ev (ds u) s = (a, d', s') \<Longrightarrow> staff_reach x (ds(u := d'), s')"

subsection \<open>Permission\<close>

lemma typed_without_state: "ad_state d = None \<Longrightarrow> desk_typed w e perms caller words d s = (Unheard, d, s)"
  by (simp add: desk_typed_def)

lemma pressed_without_permission:
  "ad_state d = None \<Longrightarrow> \<not> granted perms CATALOG_MANAGE \<Longrightarrow> \<not> granted perms PROMO_MANAGE \<Longrightarrow>
   desk_pressed w perms caller cb d s = (Unheard, d, s)"
  by (simp add: desk_pressed_def state_pressed_def)

text \<open>C36: Somebody who holds neither the catalogue nor the promo permission at any moment and is in no
  staff dialogue cannot change anything or enter such a dialogue, whatever is typed and pressed,
  callback data made up included.\<close>
theorem staff_dialogues_need_permission:
  assumes "ad_state d = None"
    and "\<forall>(w, e, perms, ev) \<in> set evs. \<not> granted perms CATALOG_MANAGE \<and> \<not> granted perms PROMO_MANAGE"
  shows "desk_run evs caller (d, s) = (d, s)"
  using assms
proof (induction evs)
  case Nil
  then show ?case by simp
next
  case (Cons x evs)
  obtain w e perms ev where x: "x = (w, e, perms, ev)" by (metis prod_cases4)
  have "snd (desk_turn w e perms caller ev d s) = (d, s)"
    using Cons.prems x by (cases ev) (simp_all add: desk_turn_def typed_without_state pressed_without_permission)
  then show ?case using Cons x by simp
qed

subsection \<open>What the catalogue keeps\<close>

text \<open>
  Prices, names and sales of products; stock values, which are never blank and never twice at one
  product; promo codes, whose percentage is at most 100 and whose scope follows their binding.
\<close>

definition goods_fine :: "goods \<Rightarrow> bool" where
  "goods_fine g \<longleftrightarrow> 100 \<le> g_price g \<and> g_price g \<le> 100 * MAX_ITEM_PRICE \<and> is_safe_item_name (g_name g) \<and>
     (case g_sale_percent g of None \<Rightarrow> True | Some p \<Rightarrow> 1 \<le> p \<and> p \<le> 100)"

definition stock_fine :: "item_value list \<Rightarrow> bool" where
  "stock_fine rows \<longleftrightarrow> (\<forall>v \<in> set rows. case iv_value v of None \<Rightarrow> False | Some t \<Rightarrow> t \<noteq> [] \<and> strip t = t) \<and>
     distinct (map (\<lambda>v. (iv_item_id v, iv_value v)) rows)"

definition code_fine :: "promo_code \<Rightarrow> bool" where
  "code_fine p \<longleftrightarrow> (if pc_discount_type p = ''percent'' then 0 \<le> pc_discount_value p \<and> pc_discount_value p \<le> 100
       else 1 \<le> pc_discount_value p) \<and> 0 \<le> pc_max_uses p \<and>
     (pc_category_id p \<noteq> None \<longrightarrow> pc_scope p = CategoryScope) \<and> (pc_item_id p \<noteq> None \<longrightarrow> pc_scope p = ItemScope)"

definition catalog_ok :: "shop \<Rightarrow> bool" where
  "catalog_ok s \<longleftrightarrow> (\<forall>g \<in> set (t_goods s). goods_fine g) \<and> stock_fine (t_item_values s) \<and>
     (\<forall>p \<in> set (t_promos s). code_fine p)"

lemma goods_fine_iff: "goods_fine g \<longleftrightarrow> 100 \<le> g_price g \<and> g_price g \<le> 100 * MAX_ITEM_PRICE \<and> is_safe_item_name (g_name g) \<and>
     (\<forall>p. g_sale_percent g = Some p \<longrightarrow> 1 \<le> p \<and> p \<le> 100)"
  by (simp add: goods_fine_def split: option.split)

lemma stock_fine_iff: "stock_fine rows \<longleftrightarrow> (\<forall>v \<in> set rows. \<exists>t. iv_value v = Some t \<and> t \<noteq> [] \<and> strip t = t) \<and>
     distinct (map (\<lambda>v. (iv_item_id v, iv_value v)) rows)"
proof -
  have "(case x of None \<Rightarrow> False | Some t \<Rightarrow> t \<noteq> [] \<and> strip t = t) \<longleftrightarrow> (\<exists>t. x = Some t \<and> t \<noteq> [] \<and> strip t = t)" for x :: "string option"
    by (cases x) auto
  then show ?thesis by (simp add: stock_fine_def)
qed

lemma catalog_ok_same:
  "t_goods s' = t_goods s \<Longrightarrow> t_item_values s' = t_item_values s \<Longrightarrow> t_promos s' = t_promos s \<Longrightarrow>
   catalog_ok s \<Longrightarrow> catalog_ok s'"
  by (simp add: catalog_ok_def)

lemma catalog_ok_seq [simp]: "catalog_ok (s\<lparr>t_seq := k\<rparr>) = catalog_ok s"
  by (simp add: catalog_ok_def)

lemma catalog_ok_task [simp]: "catalog_ok (safe_create_task t s) = catalog_ok s"
  by (simp add: catalog_ok_def safe_create_task_def)

lemma catalog_ok_tasks [simp]: "catalog_ok (fold (\<lambda>x. safe_create_task (f x)) xs s) = catalog_ok s"
  by (simp add: catalog_ok_def fold_create_task)

lemma catalog_ok_audit [simp]: "catalog_ok (log_audit a l u t r s) = catalog_ok s"
  by (simp add: catalog_ok_def log_audit_def)

lemma catalog_ok_audits [simp]:
  "catalog_ok (item_audit a u n s) = catalog_ok s" "catalog_ok (category_audit a u n s) = catalog_ok s"
  "catalog_ok (promo_audit a u n s) = catalog_ok s"
  by (simp_all add: item_audit_def category_audit_def promo_audit_def)

lemma stock_fine_filter: "stock_fine rows \<Longrightarrow> stock_fine (filter P rows)"
  by (auto simp: stock_fine_iff distinct_map_filter)

lemma value_rows_keys: "map (\<lambda>v. (iv_item_id v, iv_value v)) (value_rows k i b vs) = map (\<lambda>t. (i, Some t)) vs"
  by (induction vs arbitrary: k) auto

lemma stock_fine_new_rows:
  assumes "stock_fine rows" "distinct vs" "\<forall>t \<in> set vs. t \<noteq> [] \<and> strip t = t"
    and "\<forall>t \<in> set vs. \<not> list_ex (value_of_item i t) rows"
  shows "stock_fine (rows @ value_rows k i b vs)"
proof -
  have "\<forall>v \<in> set (value_rows k i b vs). \<exists>t \<in> set vs. iv_value v = Some t" by (induction vs arbitrary: k) auto
  moreover have "distinct (map (\<lambda>v. (iv_item_id v, iv_value v)) (value_rows k i b vs))"
    unfolding value_rows_keys using assms(2) by (simp add: distinct_map inj_on_def)
  moreover have "set (map (\<lambda>v. (iv_item_id v, iv_value v)) rows) \<inter> set (map (\<lambda>v. (iv_item_id v, iv_value v)) (value_rows k i b vs)) = {}"
    unfolding value_rows_keys using assms(4) by (auto simp: list_ex_iff value_of_item_def)
  ultimately show ?thesis using assms(1,3) unfolding stock_fine_iff
    by (fastforce simp del: set_map)
qed

lemma kept_values: "\<forall>t \<in> set (keep_first (nonblank vs)). t \<noteq> [] \<and> strip t = t"
  by (auto simp: nonblank_def)

lemma catalog_ok_new_values:
  assumes "catalog_ok s" "distinct vs" "\<forall>t \<in> set vs. t \<noteq> [] \<and> strip t = t"
    and "\<forall>t \<in> set vs. \<not> list_ex (value_of_item i t) (t_item_values s)"
  shows "catalog_ok (fold (add_value_row i b) vs s)"
  using assms stock_fine_new_rows [of "t_item_values s" vs i] by (simp add: catalog_ok_def fold_add_value_row)

lemma catalog_ok_put_goods: "catalog_ok s \<Longrightarrow> goods_fine g \<Longrightarrow> catalog_ok (put_goods g s)"
  using set_put [of g_id g "t_goods s"] by (auto simp: catalog_ok_def put_goods_def)

lemma catalog_ok_rename [simp]: "catalog_ok (rename_bought a b s) = catalog_ok s"
  by (simp add: catalog_ok_def rename_bought_def)

lemma goods_by_name_fine: "catalog_ok s \<Longrightarrow> goods_by_name s n = Some g \<Longrightarrow> goods_fine g \<and> g_name g = n"
  by (auto simp: catalog_ok_def goods_by_name_def dest: find_by_Some_mem find_by_Some_key)

lemma price_cents:
  assumes "1 \<le> p" "p \<le> MAX_ITEM_PRICE"
  shows "rub_to_cents (dec_of_int p) = Inr (p * 100)"
  using assms rub_to_cents_integer [of p] by (simp add: dec_of_int_def MAX_ITEM_PRICE_def)

subsection \<open>Every operation keeps it\<close>

lemma create_item_keeps:
  assumes "create_item n desc (dec_of_int p) cat ft ag s = Inr (r, s')" "catalog_ok s"
    and "is_safe_item_name n" "1 \<le> p" "p \<le> MAX_ITEM_PRICE"
  shows "catalog_ok s'"
proof -
  let ?new = "\<lambda>k. \<lparr>g_id = next_id s, g_name = n, g_price = p * 100, g_description = desc, g_category_id = k,
      g_fulfillment_type = ft, g_allows_gift = ag, g_sale_percent = None, g_sale_until = None\<rparr>"
  have "goods_fine (?new k)" for k using assms(3-5) by (simp add: goods_fine_iff)
  then have "catalog_ok (s\<lparr>t_goods := t_goods s @ [?new k], t_seq := next_id s\<rparr>)" for k
    using assms(2) by (simp add: catalog_ok_def)
  then show ?thesis using assms(1,2)
    by (auto simp: create_item_def price_cents [OF assms(4,5)] tx_bind_eq_Inr run_session_Inr split: if_splits option.splits)
qed

lemma add_values_to_item_keeps:
  assumes "add_values_to_item n v b s = Inr (r, s')" "catalog_ok s"
  shows "catalog_ok s'"
proof -
  have "catalog_ok s1" if "add_value_body n (strip v) b s = Inr (i, s1)" "strip v \<noteq> []" for i s1
    using that assms(2) catalog_ok_new_values [of s "[strip v]" _ b]
    by (auto simp: add_value_body_def split: option.splits if_splits)
  with assms show ?thesis
    by (auto simp: add_values_to_item_def Let_def run_session_Inr split: sum.splits if_splits exn.splits)
qed

lemma add_one_by_one_keeps: "add_one_by_one n b vs a k s = Inr (r, s') \<Longrightarrow> catalog_ok s \<Longrightarrow> catalog_ok s'"
proof (induction n b vs a k s rule: add_one_by_one.induct)
  case (1 n b a k s)
  then show ?case by simp
next
  case (2 n b v vs a k s)
  from 2(3) obtain ok s1 where s1: "add_values_to_item n v b s = Inr (ok, s1)"
    and rest: "(if ok then add_one_by_one n b vs (a + 1) k s1 else add_one_by_one n b vs a (k + 1) s1) = Inr (r, s')"
    by (auto simp: tx_bind_eq_Inr)
  have "catalog_ok s1" using s1 2(4) by (rule add_values_to_item_keeps)
  with 2(1,2) s1 rest show ?case by (cases ok) auto
qed

lemma add_values_bulk_keeps:
  assumes "add_values_bulk n vs False s = Inr (r, s')" "catalog_ok s"
  shows "catalog_ok s'"
proof -
  let ?vs = "keep_first (nonblank vs)"
  have body: "catalog_ok s1" if "bulk_body n ?vs False s = Inr (x, s1)" for x s1
  proof (cases "goods_id_by_name s n")
    case None
    with that assms(2) show ?thesis by (simp add: bulk_body_def)
  next
    case (Some i)
    let ?new = "filter (\<lambda>v. \<not> list_ex (value_of_item i v) (t_item_values s)) ?vs"
    have "catalog_ok (fold (add_value_row i False) ?new s)"
      by (rule catalog_ok_new_values [OF assms(2)]) (use kept_values [of vs] in auto)
    with Some that show ?thesis by (auto simp: bulk_body_def Let_def)
  qed
  show ?thesis
    using assms(1) body add_one_by_one_keeps [OF _ assms(2)] assms(2)
    by (auto simp: add_values_bulk_def normalize_values_keep_first Let_def run_session_Inr tx_bind_eq_Inr
        split: sum.splits if_splits exn.splits option.splits prod.splits)
qed

lemma update_item_keeps:
  assumes "update_item n new desc (dec_of_int p) cat s = Inr (r, s')" "catalog_ok s"
    and "is_safe_item_name new" "1 \<le> p" "p \<le> MAX_ITEM_PRICE"
  shows "catalog_ok s'"
proof -
  have body: "catalog_ok s1" if body: "update_item_body n new desc (p * 100) cat s = Inr (x, s1)" for x s1
  proof (cases "goods_by_name s n")
    case None
    with body assms(2) show ?thesis by (simp add: update_item_body_def)
  next
    case (Some g)
    have fine: "goods_fine g" "g_name g = n" using goods_by_name_fine [OF assms(2) Some] by simp_all
    have "goods_fine (g\<lparr>g_description := desc, g_price := p * 100, g_category_id := k\<rparr>)"
      "goods_fine (g\<lparr>g_description := desc, g_price := p * 100, g_category_id := k, g_name := new\<rparr>)"
      "goods_fine (g\<lparr>g_description := desc, g_price := p * 100\<rparr>)"
      "goods_fine (g\<lparr>g_description := desc, g_price := p * 100, g_name := new\<rparr>)" for k
      using fine assms(3-5) by (simp_all add: goods_fine_iff)
    then show ?thesis using body Some assms(2)
      by (auto simp: update_item_body_def Let_def catalog_ok_put_goods split: if_splits option.splits)
  qed
  show ?thesis
    using assms(1) body assms(2)
    by (auto simp: update_item_def price_cents [OF assms(4,5)] run_session_Inr fold_create_task Let_def
        split: sum.splits if_splits exn.splits)
      (simp_all add: catalog_ok_def safe_create_task_def)
qed

lemma replace_keeps:
  assumes "replace_item_stock_and_meta n new desc (dec_of_int p) cat vs b s = (r, s')" "catalog_ok s"
    and "is_safe_item_name new" "1 \<le> p" "p \<le> MAX_ITEM_PRICE"
  shows "catalog_ok s'"
proof -
  let ?vs = "keep_first (nonblank vs)"
  have body: "catalog_ok s1" if body: "replace_body n new desc (dec_of_int p) cat ?vs b s = Inr (x, s1)" for x s1
  proof -
    from body obtain g k where g: "goods_by_name s n = Some g"
      and s1: "s1 = (let s3 = put_goods (g\<lparr>g_name := new, g_description := desc, g_price := p * 100, g_category_id := k\<rparr>)
          (fold (add_value_row (g_id g) b) (if b then take 1 ?vs else ?vs)
             (s\<lparr>t_item_values := filter (\<lambda>v. iv_item_id v \<noteq> g_id g) (t_item_values s)\<rparr>))
        in if new \<noteq> n then rename_bought n new s3 else s3)"
      by (auto simp: replace_body_def Let_def tx_bind_eq_Inr price_cents [OF assms(4,5)] split: option.splits if_splits)
    have "goods_fine (g\<lparr>g_name := new, g_description := desc, g_price := p * 100, g_category_id := k\<rparr>)"
      using goods_by_name_fine [OF assms(2) g] assms(3-5) by (simp add: goods_fine_iff)
    moreover have "catalog_ok (fold (add_value_row (g_id g) b) (if b then take 1 ?vs else ?vs)
             (s\<lparr>t_item_values := filter (\<lambda>v. iv_item_id v \<noteq> g_id g) (t_item_values s)\<rparr>))"
    proof (rule catalog_ok_new_values)
      show "catalog_ok (s\<lparr>t_item_values := filter (\<lambda>v. iv_item_id v \<noteq> g_id g) (t_item_values s)\<rparr>)"
        using assms(2) by (simp add: catalog_ok_def stock_fine_filter)
      show "\<forall>t \<in> set (if b then take 1 ?vs else ?vs). t \<noteq> [] \<and> strip t = t"
        using kept_values [of vs] set_take_subset [of 1 ?vs] by (simp only: split: if_split) blast
    qed (auto simp: list_ex_iff value_of_item_def)
    ultimately have put: "catalog_ok (put_goods (g\<lparr>g_name := new, g_description := desc, g_price := p * 100, g_category_id := k\<rparr>)
        (fold (add_value_row (g_id g) b) (if b then take 1 ?vs else ?vs)
           (s\<lparr>t_item_values := filter (\<lambda>v. iv_item_id v \<noteq> g_id g) (t_item_values s)\<rparr>)))"
      by (rule catalog_ok_put_goods [rotated])
    have "catalog_ok (if new \<noteq> n then rename_bought n new x else x) = catalog_ok x" for x by simp
    then show ?thesis unfolding s1 Let_def using put by (simp only:)
  qed
  show ?thesis
    using assms(1) body assms(2)
    by (auto simp: replace_item_stock_and_meta_def normalize_values_keep_first run_session_Inr
        split: sum.splits if_splits exn.splits)
qed

lemma code_fine_unbound:
  "code_fine p \<Longrightarrow> code_fine (p\<lparr>pc_item_id := None\<rparr>)" "code_fine p \<Longrightarrow> code_fine (p\<lparr>pc_category_id := None\<rparr>)"
  by (simp_all add: code_fine_def)

lemma delete_goods_rows_keeps: "delete_goods_rows del s = Inr s' \<Longrightarrow> catalog_ok s \<Longrightarrow> catalog_ok s'"
  by (auto simp: delete_goods_rows_def Let_def catalog_ok_def stock_fine_filter code_fine_unbound split: if_splits)

lemma delete_item_keeps: "delete_item n s = Inr (r, s') \<Longrightarrow> catalog_ok s \<Longrightarrow> catalog_ok s'"
  by (auto simp: delete_item_def delete_item_body_def Let_def tx_bind_eq_Inr run_session_Inr split: option.splits if_splits
      elim!: delete_goods_rows_keeps)
    (auto simp: catalog_ok_def stock_fine_filter)

lemma delete_unit_keeps: "delete_item_from_position k s = Inr (r, s') \<Longrightarrow> catalog_ok s \<Longrightarrow> catalog_ok s'"
  by (auto simp: delete_item_from_position_def run_session_Inr catalog_ok_def stock_fine_filter)

lemma set_item_sale_keeps:
  assumes "set_item_sale n pct until s = Inr (r, s')" "catalog_ok s" "\<forall>p. pct = Some p \<longrightarrow> 1 \<le> p \<and> p \<le> 100"
  shows "catalog_ok s'"
proof (cases "goods_by_name s n")
  case None
  with assms(1,2) show ?thesis by (auto simp: set_item_sale_def tx_bind_eq_Inr run_session_Inr)
next
  case (Some g)
  have "goods_fine (g\<lparr>g_sale_percent := pct, g_sale_until := until\<rparr>)"
    using goods_by_name_fine [OF assms(2) Some] assms(3) by (auto simp: goods_fine_iff)
  then have "catalog_ok (put_goods (g\<lparr>g_sale_percent := pct, g_sale_until := until\<rparr>) s)"
    using assms(2) by (rule catalog_ok_put_goods [rotated])
  then show ?thesis using assms(1) Some by (auto simp: set_item_sale_def tx_bind_eq_Inr run_session_Inr)
qed

lemma create_category_keeps: "create_category n s = Inr (r, s') \<Longrightarrow> catalog_ok s \<Longrightarrow> catalog_ok s'"
  by (auto simp: create_category_def tx_bind_eq_Inr run_session_Inr split: if_splits)
    (simp_all add: catalog_ok_def)

lemma update_category_keeps: "update_category a b s = Inr (r, s') \<Longrightarrow> catalog_ok s \<Longrightarrow> catalog_ok s'"
  by (auto simp: update_category_def tx_bind_eq_Inr run_session_Inr Let_def put_category_def split: option.splits if_splits)
    (simp_all add: catalog_ok_def)

lemma delete_category_keeps: "delete_category n s = Inr (r, s') \<Longrightarrow> catalog_ok s \<Longrightarrow> catalog_ok s'"
proof -
  have body: "delete_category_body n s = Inr (x, s1) \<Longrightarrow> catalog_ok s \<Longrightarrow> catalog_ok s1" for x s1
    by (auto simp: delete_category_body_def Let_def tx_bind_eq_Inr split: option.splits if_splits
        dest!: delete_goods_rows_keeps)
      (auto simp: catalog_ok_def code_fine_unbound log_audit_def)
  show "delete_category n s = Inr (r, s') \<Longrightarrow> catalog_ok s \<Longrightarrow> catalog_ok s'"
    using body by (auto simp: delete_category_def tx_bind_eq_Inr run_session_Inr split: option.splits)
qed

lemma notify_restock_safe_tables:
  "t_goods (notify_restock_safe w n s) = t_goods s \<and> t_item_values (notify_restock_safe w n s) = t_item_values s \<and>
   t_promos (notify_restock_safe w n s) = t_promos s"
  by (auto simp: notify_restock_safe_def notify_restock_def pop_stock_subscribers_def tx_bind_eq_Inr run_session_Inr Let_def
      split: sum.split option.splits if_splits)

lemma notify_keeps [simp]: "catalog_ok (notify_restock_safe w n s) = catalog_ok s"
  using notify_restock_safe_tables [of w n s] by (simp add: catalog_ok_def)

lemma percent_at_most_100:
  assumes "dec_value v \<le> 100" "0 < mantissa v"
  shows "(let q = 10 ^ nat (- exponent v) in if 0 \<le> exponent v then mantissa v * 10 ^ nat (exponent v)
      else sgn (mantissa v) * (\<bar>mantissa v\<bar> div q)) \<in> {0..100}"
proof (cases "0 \<le> exponent v")
  case True
  with assms(1) have "rat_of_int (mantissa v * 10 ^ nat (exponent v)) \<le> rat_of_int 100" by (simp add: dec_value_def)
  then have "mantissa v * 10 ^ nat (exponent v) \<le> 100" by (simp only: of_int_le_iff)
  with True assms(2) show ?thesis by (simp add: Let_def)
next
  case False
  let ?q = "10 ^ nat (- exponent v) :: int"
  from False assms(1) have "rat_of_int (mantissa v) / rat_of_int ?q \<le> 100" by (simp add: dec_value_def)
  then have "rat_of_int (mantissa v) \<le> rat_of_int (100 * ?q)" by (simp add: pos_divide_le_eq)
  then have "mantissa v \<le> 100 * ?q" by (simp only: of_int_le_iff)
  then have "mantissa v div ?q \<le> 100 * ?q div ?q" by (rule zdiv_mono1) simp
  then have "mantissa v div ?q \<le> 100" by simp
  with False assms(2) show ?thesis by (simp add: Let_def pos_imp_zdiv_nonneg_iff)
qed

lemma positive_cents:
  assumes "rub_to_cents v = Inr c" "0 < mantissa v"
  shows "1 \<le> c"
proof -
  from assms(1) have e: "- 2 \<le> exponent v" and c: "c = quantize_half_up (v\<lparr>mantissa := mantissa v * 100\<rparr>)"
    by (auto simp: rub_to_cents_def Let_def split: if_splits)
  show ?thesis
  proof (cases "0 \<le> exponent v")
    case True
    have "0 < mantissa v * 100 * 10 ^ nat (exponent v)" using assms(2) by simp
    with True c show ?thesis by (simp add: quantize_half_up_def)
  next
    case False
    then consider "exponent v = - 1" | "exponent v = - 2" using e by linarith
    then show ?thesis using c assms(2) by cases (simp_all add: quantize_half_up_def abs_mult sgn_mult)
  qed
qed

lemma create_promo_keeps:
  assumes "create_promo_code code ty v uses ex cat item least per s = Inr (r, s')" "catalog_ok s" "0 < mantissa v"
    and "ty = ''percent'' \<Longrightarrow> dec_value v \<le> 100" "0 \<le> uses"
  shows "catalog_ok s'"
proof -
  have one: "cat = None \<or> item = None" using assms(1) by (auto simp: create_promo_code_def split: if_splits)
  from assms(1) obtain c where worth: "if ty = ''percent'' then c \<in> {0..100} else 1 \<le> c"
    and s': "s' = s \<or> s' = s\<lparr>t_promos := t_promos s @
                 [\<lparr>pc_id = next_id s, pc_code = upper code, pc_discount_type = ty,
                    pc_discount_value = c, pc_scope = promo_scope_for cat item,
                    pc_max_uses = uses,
                    pc_max_uses_per_user = (if per = 0 then 1 else per),
                    pc_min_order_cents = least, pc_current_uses = 0, pc_expires_at = ex,
                    pc_category_id = cat, pc_item_id = item, pc_is_active = True\<rparr>],
               t_seq := next_id s\<rparr>"
    using percent_at_most_100 [of v] positive_cents [of v] assms(3,4)
    by (fastforce simp: create_promo_code_def tx_bind_eq_Inr run_session_Inr split: if_splits)
  from s' show ?thesis
  proof
    assume "s' = s"
    with assms(2) show ?thesis by simp
  next
    assume new: "s' = s\<lparr>t_promos := t_promos s @
                 [\<lparr>pc_id = next_id s, pc_code = upper code, pc_discount_type = ty,
                    pc_discount_value = c, pc_scope = promo_scope_for cat item,
                    pc_max_uses = uses,
                    pc_max_uses_per_user = (if per = 0 then 1 else per),
                    pc_min_order_cents = least, pc_current_uses = 0, pc_expires_at = ex,
                    pc_category_id = cat, pc_item_id = item, pc_is_active = True\<rparr>],
               t_seq := next_id s\<rparr>"
    show ?thesis unfolding new using assms(2,5) worth one
      by (auto simp: catalog_ok_def code_fine_def promo_scope_for_def split: if_splits)
  qed
qed

lemma toggle_promo_keeps: "toggle_promo_code k s = Inr (r, s') \<Longrightarrow> catalog_ok s \<Longrightarrow> catalog_ok s'"
proof -
  have "catalog_ok (put_promo (p\<lparr>pc_is_active := b\<rparr>) s)" if "get_promo s k = Some p" "catalog_ok s" for p b
  proof -
    have "code_fine p" using that by (auto simp: get_promo_def catalog_ok_def dest: find_by_Some_mem)
    then have "code_fine (p\<lparr>pc_is_active := b\<rparr>)" by (simp add: code_fine_def)
    then show ?thesis using that(2) set_put [of pc_id "p\<lparr>pc_is_active := b\<rparr>" "t_promos s"]
      by (auto simp: catalog_ok_def put_promo_def)
  qed
  then show "toggle_promo_code k s = Inr (r, s') \<Longrightarrow> catalog_ok s \<Longrightarrow> catalog_ok s'"
    by (auto simp: toggle_promo_code_def run_session_Inr split: option.splits)
qed

lemma delete_promo_keeps: "delete_promo_code k s = Inr (r, s') \<Longrightarrow> catalog_ok s \<Longrightarrow> catalog_ok s'"
  by (auto simp: delete_promo_code_def run_session_Inr catalog_ok_def split: option.splits)

subsection \<open>Every handler keeps it\<close>

definition adding :: "desk_state option \<Rightarrow> bool" where
  "adding st \<longleftrightarrow> st \<in> Some ` {AddDescription, AddPrice, AddCategory, AddInfinity, AddValues, AddSingle}"

definition valued :: "desk_state option \<Rightarrow> bool" where
  "valued st \<longleftrightarrow> st \<in> Some ` {PromoMaxUses, PromoExpires, PromoBinding, PromoBindingName}"

text \<open>What the data of a dialogue satisfies in the states that use it.\<close>

definition desk_ok :: "desk \<Rightarrow> bool" where
  "desk_ok d \<longleftrightarrow> (\<forall>p. ad_price d = Some p \<longrightarrow> 1 \<le> p \<and> p \<le> MAX_ITEM_PRICE) \<and>
     (\<forall>n. ad_new_name d = Some n \<longrightarrow> is_safe_item_name n) \<and>
     (\<forall>p. ad_sale_percent d = Some p \<longrightarrow> 1 \<le> p \<and> p \<le> 100) \<and> (\<forall>n. ad_max_uses d = Some n \<longrightarrow> 0 \<le> n) \<and>
     (adding (ad_state d) \<longrightarrow> (\<exists>n. ad_item_name d = Some n \<and> is_safe_item_name n)) \<and>
     (valued (ad_state d) \<longrightarrow> (\<exists>v. ad_value d = Some v \<and> \<not> at_most_zero v \<and>
        (ad_type d = Some ''percent'' \<longrightarrow> \<not> more_than_100 v)))"

definition sound :: "turn \<Rightarrow> bool" where
  "sound t \<longleftrightarrow> (case t of (a, d', s') \<Rightarrow> desk_ok d' \<and> catalog_ok s')"

named_theorems sound_intros \<open>handlers that keep the catalogue sound\<close>

lemma sound_turn [simp]: "sound (a, d, s) \<longleftrightarrow> desk_ok d \<and> catalog_ok s"
  by (simp add: sound_def)

lemma desk_ok_fresh [simp]: "desk_ok fresh_desk"
  by (simp add: desk_ok_def fresh_desk_def adding_def valued_def)

lemma adding_simps [simp]:
  "\<not> adding None" "adding (Some st) \<longleftrightarrow> st \<in> {AddDescription, AddPrice, AddCategory, AddInfinity, AddValues, AddSingle}"
  by (auto simp: adding_def)

lemma valued_simps [simp]:
  "\<not> valued None" "valued (Some st) \<longleftrightarrow> st \<in> {PromoMaxUses, PromoExpires, PromoBinding, PromoBindingName}"
  by (auto simp: valued_def)

lemma desk_ok_data [simp]:
  "desk_ok (d\<lparr>ad_description := x1\<rparr>) = desk_ok d" "desk_ok (d\<lparr>ad_category := x2\<rparr>) = desk_ok d"
  "desk_ok (d\<lparr>ad_infinite := x3\<rparr>) = desk_ok d" "desk_ok (d\<lparr>ad_values := x4\<rparr>) = desk_ok d"
  "desk_ok (d\<lparr>ad_old_name := x5\<rparr>) = desk_ok d" "desk_ok (d\<lparr>ad_old_category := x6\<rparr>) = desk_ok d"
  "desk_ok (d\<lparr>ad_sale_item := x7\<rparr>) = desk_ok d" "desk_ok (d\<lparr>ad_hash := x8\<rparr>) = desk_ok d"
  "desk_ok (d\<lparr>ad_position := x9\<rparr>) = desk_ok d" "desk_ok (d\<lparr>ad_delete := x10\<rparr>) = desk_ok d"
  "desk_ok (d\<lparr>ad_code := x11\<rparr>) = desk_ok d" "desk_ok (d\<lparr>ad_expires := x12\<rparr>) = desk_ok d"
  "desk_ok (d\<lparr>ad_binding := x13\<rparr>) = desk_ok d" "desk_ok (d\<lparr>ad_category_id := x14\<rparr>) = desk_ok d"
  "desk_ok (d\<lparr>ad_item_id := x15\<rparr>) = desk_ok d"
  by (simp_all add: desk_ok_def)

lemma sound_prompt:
  "\<not> adding (Some st) \<Longrightarrow> \<not> valued (Some st) \<Longrightarrow> desk_ok d \<Longrightarrow> catalog_ok s \<Longrightarrow> sound (prompt key st d s)"
  by (simp add: prompt_def desk_ok_def)

lemma sound_refuse [simp]: "sound (refuse key d s) \<longleftrightarrow> desk_ok d \<and> catalog_ok s"
  by (simp add: refuse_def)

lemma sound_attempt:
  "desk_ok d \<Longrightarrow> catalog_ok s \<Longrightarrow> (\<And>x s1. r = Inr (x, s1) \<Longrightarrow> sound (k x s1)) \<Longrightarrow> sound (attempt r d s k)"
  by (auto simp: attempt_def split: sum.split)

lemma sound_stock_done: "desk_ok d \<Longrightarrow> catalog_ok s \<Longrightarrow> sound (stock_done w u a n added says later d s)"
  by (simp add: stock_done_def Let_def split: sum.split)

lemma need_Inr [simp]: "need x = Inr v \<longleftrightarrow> x = Some v"
  by (simp add: need_def split: option.split)

lemma small_number_bounds: "small_number a b words = Some n \<Longrightarrow> int a \<le> n \<and> n \<le> int b"
  by (auto simp: small_number_def Let_def split: if_splits option.splits)

lemma parse_price_bounds: "parse_price t = Some p \<Longrightarrow> 1 \<le> p \<and> p \<le> MAX_ITEM_PRICE"
  by (auto simp: parse_price_def Let_def split: if_splits option.splits)

lemmas desk_simps = prompt_def desk_ok_def Let_def

lemma sound_prompts:
  "desk_ok d \<Longrightarrow> catalog_ok s \<Longrightarrow> sound (add_item_callback_handler d s)"
  "desk_ok d \<Longrightarrow> catalog_ok s \<Longrightarrow> sound (update_item_amount_callback_handler d s)"
  "desk_ok d \<Longrightarrow> catalog_ok s \<Longrightarrow> sound (update_item_callback_handler d s)"
  "desk_ok d \<Longrightarrow> catalog_ok s \<Longrightarrow> sound (delete_item_callback_handler d s)"
  "desk_ok d \<Longrightarrow> catalog_ok s \<Longrightarrow> sound (show_items_callback_handler d s)"
  "desk_ok d \<Longrightarrow> catalog_ok s \<Longrightarrow> sound (show_bought_item_callback_handler d s)"
  "desk_ok d \<Longrightarrow> catalog_ok s \<Longrightarrow> sound (add_category_callback_handler d s)"
  "desk_ok d \<Longrightarrow> catalog_ok s \<Longrightarrow> sound (delete_category_callback_handler d s)"
  "desk_ok d \<Longrightarrow> catalog_ok s \<Longrightarrow> sound (update_category_callback_handler d s)"
  "desk_ok d \<Longrightarrow> catalog_ok s \<Longrightarrow> sound (manage_sale_callback_handler d s)"
  "catalog_ok s \<Longrightarrow> sound (goods_management_callback_handler d s)"
  "desk_ok d \<Longrightarrow> catalog_ok s \<Longrightarrow> sound (promo_create_start d s)"
  by (simp_all add: add_item_callback_handler_def update_item_amount_callback_handler_def update_item_callback_handler_def
      delete_item_callback_handler_def show_items_callback_handler_def show_bought_item_callback_handler_def
      add_category_callback_handler_def delete_category_callback_handler_def update_category_callback_handler_def
      manage_sale_callback_handler_def goods_management_callback_handler_def promo_create_start_def sound_prompt)

lemma sound_adding:
  "desk_ok d \<Longrightarrow> catalog_ok s \<Longrightarrow> sound (check_item_name_for_add w words d s)"
  "desk_ok d \<Longrightarrow> catalog_ok s \<Longrightarrow> ad_state d = Some AddDescription \<Longrightarrow> sound (add_item_description words d s)"
  "desk_ok d \<Longrightarrow> catalog_ok s \<Longrightarrow> ad_state d = Some AddPrice \<Longrightarrow> sound (add_item_price words d s)"
  "desk_ok d \<Longrightarrow> catalog_ok s \<Longrightarrow> ad_state d = Some AddCategory \<Longrightarrow> sound (check_category_for_add_item w words d s)"
  "desk_ok d \<Longrightarrow> catalog_ok s \<Longrightarrow> ad_state d = Some AddInfinity \<Longrightarrow> sound (adding_value_to_position cb d s)"
  "desk_ok d \<Longrightarrow> catalog_ok s \<Longrightarrow> sound (collect_item_value words d s)"
  using parse_price_bounds
  by (simp_all add: check_item_name_for_add_def add_item_description_def add_item_price_def check_category_for_add_item_def
      adding_value_to_position_def collect_item_value_def desk_simps split: option.split)

lemma create_from_desk_keeps:
  assumes "create_from_desk d s = Inr (n, s1)" "desk_ok d" "catalog_ok s" "adding (ad_state d)"
  shows "catalog_ok s1"
  using assms create_item_keeps by (fastforce simp: create_from_desk_def tx_bind_eq_Inr desk_ok_def)

lemma sound_finish_adding:
  assumes "desk_ok d" "catalog_ok s"
  shows "ad_state d = Some AddValues \<Longrightarrow> sound (finish_adding_items_callback_handler w u d s)"
    and "ad_state d = Some AddSingle \<Longrightarrow> sound (finish_adding_item_callback_handler w u words d s)"
proof -
  have created: "catalog_ok s1" if "adding (ad_state d)" "create_from_desk d s = Inr (n, s1)" for n s1
    using create_from_desk_keeps that assms by blast
  assume "ad_state d = Some AddValues"
  then have "adding (ad_state d)" by simp
  then show "sound (finish_adding_items_callback_handler w u d s)"
    unfolding finish_adding_items_callback_handler_def using assms(1)
    by (auto intro!: sound_attempt sound_stock_done assms dest: created add_values_bulk_keeps)
next
  have created: "catalog_ok s1" if "adding (ad_state d)" "create_from_desk d s = Inr (n, s1)" for n s1
    using create_from_desk_keeps that assms by blast
  assume "ad_state d = Some AddSingle"
  then have "adding (ad_state d)" by simp
  then show "sound (finish_adding_item_callback_handler w u words d s)"
    unfolding finish_adding_item_callback_handler_def Let_def using assms
    by (auto intro!: sound_attempt sound_stock_done dest: created add_values_to_item_keeps)
qed

lemma sound_amount:
  "desk_ok d \<Longrightarrow> catalog_ok s \<Longrightarrow> sound (check_item_name_for_amount_upd w words d s)"
  "desk_ok d \<Longrightarrow> catalog_ok s \<Longrightarrow> sound (updating_item_amount w u d s)"
  unfolding updating_item_amount_def
  by (simp add: check_item_name_for_amount_upd_def desk_simps)
    (auto simp: tx_bind_eq_Inr intro!: sound_attempt sound_stock_done dest: add_values_bulk_keeps)

lemma sound_update_steps:
  "desk_ok d \<Longrightarrow> catalog_ok s \<Longrightarrow> sound (check_item_name_for_update w words d s)"
  "desk_ok d \<Longrightarrow> catalog_ok s \<Longrightarrow> sound (update_item_name words d s)"
  "desk_ok d \<Longrightarrow> catalog_ok s \<Longrightarrow> sound (update_item_description words d s)"
  "desk_ok d \<Longrightarrow> catalog_ok s \<Longrightarrow> sound (update_item_price words d s)"
  using parse_price_bounds
  by (simp_all add: check_item_name_for_update_def update_item_name_def update_item_description_def update_item_price_def
      desk_simps split: option.split)

lemma desk_update_keeps:
  "desk_update d s = Inr (r, s1) \<Longrightarrow> desk_ok d \<Longrightarrow> catalog_ok s \<Longrightarrow> catalog_ok s1"
  using update_item_keeps
  by (fastforce simp: desk_update_def tx_bind_eq_Inr desk_ok_def split: option.splits)

lemma desk_replace_keeps:
  assumes "desk_replace vs b d s = Inr (r, s1)" "desk_ok d" "catalog_ok s"
  shows "catalog_ok s1"
proof (cases "ad_category d")
  case None
  with assms(1,3) show ?thesis by (auto simp: desk_replace_def tx_bind_eq_Inr)
next
  case (Some category)
  with assms(1) obtain old new desc p where data: "ad_new_name d = Some new" "ad_price d = Some p"
    and r: "snd (replace_item_stock_and_meta old new desc (dec_of_int p) category vs b s) = s1"
    by (auto simp: desk_replace_def tx_bind_eq_Inr case_prod_beta)
  show ?thesis unfolding r [symmetric] using data assms(2)
    by (intro replace_keeps [OF prod.collapse [symmetric] assms(3)]) (simp_all add: desk_ok_def)
qed

lemma sound_update_ends:
  assumes "desk_ok d" "catalog_ok s"
  shows "sound (update_item_process u cb d s)" "sound (update_item_infinity w u words d s)"
    "sound (update_item_no_infinity w u d s)"
proof -
  have upd: "catalog_ok s1" if "desk_update d s = Inr (r, s1)" for r s1
    using desk_update_keeps that assms by blast
  have rep: "catalog_ok s1" if "desk_replace vs b d s = Inr (r, s1)" for vs b r s1
    using desk_replace_keeps that assms by blast
  show "sound (update_item_process u cb d s)" unfolding update_item_process_def Let_def using assms
    by (auto intro!: sound_attempt sound_prompt dest: upd)
  show "sound (update_item_infinity w u words d s)" unfolding update_item_infinity_def Let_def using assms
    by (auto intro!: sound_attempt dest: rep)
  show "sound (update_item_no_infinity w u d s)" unfolding update_item_no_infinity_def using assms
    by (auto intro!: sound_attempt sound_stock_done dest: rep split: prod.split)
qed

lemma sound_units_page: "desk_ok d \<Longrightarrow> desk_ok d1 \<Longrightarrow> catalog_ok s \<Longrightarrow> sound (units_page t n h p d s d1)"
  by (auto simp: units_page_def split: sum.split)

lemma sound_units:
  "desk_ok d \<Longrightarrow> catalog_ok s \<Longrightarrow> sound (show_str_item w words d s)"
  "desk_ok d \<Longrightarrow> catalog_ok s \<Longrightarrow> sound (navigate_items_in_goods cb d s)"
  "desk_ok d \<Longrightarrow> catalog_ok s \<Longrightarrow> sound (unit_info_callback_handler w cb d s)"
  "desk_ok d \<Longrightarrow> catalog_ok s \<Longrightarrow> sound (process_item_show w words d s)"
proof -
  show "desk_ok d \<Longrightarrow> catalog_ok s \<Longrightarrow> sound (show_str_item w words d s)"
    unfolding show_str_item_def Let_def by (simp add: sound_units_page)
  show "desk_ok d \<Longrightarrow> catalog_ok s \<Longrightarrow> sound (navigate_items_in_goods cb d s)"
    unfolding navigate_items_in_goods_def Let_def by (simp add: sound_units_page split: prod.split)
  show "desk_ok d \<Longrightarrow> catalog_ok s \<Longrightarrow> sound (unit_info_callback_handler w cb d s)"
    unfolding unit_info_callback_handler_def Let_def by (simp split: sum.split option.split)
  show "desk_ok d \<Longrightarrow> catalog_ok s \<Longrightarrow> sound (process_item_show w words d s)"
    unfolding process_item_show_def Let_def by (simp split: sum.split option.split)
qed

lemma sound_delete_unit:
  assumes "desk_ok d" "catalog_ok s"
  shows "sound (process_delete_item_from_position u cb d s)"
proof -
  have page: "desk_ok d2" "catalog_ok (case ans of Raised _ _ \<Rightarrow> s2 | _ \<Rightarrow> log_audit a l v rt ri s2)"
    if "units_page t n h p d (safe_create_task tk s1) (d\<lparr>ad_hash := x\<rparr>) = (ans, d2, s2)" "catalog_ok s1"
    for t n h p tk s1 x ans d2 s2 a l v rt ri
    using sound_units_page [of d "d\<lparr>ad_hash := x\<rparr>" "safe_create_task tk s1" t n h p] assms(1) that by (auto split: answer.split)
  have gone: "catalog_ok s1" if "delete_item_from_position k s = Inr (r, s1)" for k r s1
    using delete_unit_keeps that assms(2) by blast
  show ?thesis unfolding process_delete_item_from_position_def Let_def using assms
    by (auto intro!: sound_attempt dest!: gone split: sum.split option.split prod.split
        intro: page)
qed

lemma sound_categories:
  "desk_ok d \<Longrightarrow> catalog_ok s \<Longrightarrow> sound (process_category_for_add w u words d s)"
  "desk_ok d \<Longrightarrow> catalog_ok s \<Longrightarrow> sound (process_category_for_delete w u words d s)"
  "desk_ok d \<Longrightarrow> catalog_ok s \<Longrightarrow> sound (check_category_for_update w words d s)"
  "desk_ok d \<Longrightarrow> catalog_ok s \<Longrightarrow> sound (check_category_name_for_update w u words d s)"
proof -
  show "desk_ok d \<Longrightarrow> catalog_ok s \<Longrightarrow> sound (process_category_for_add w u words d s)"
    unfolding process_category_for_add_def
    by (auto simp: tx_bind_eq_Inr Let_def dest: create_category_keeps split: sum.split option.split if_splits)
  show "desk_ok d \<Longrightarrow> catalog_ok s \<Longrightarrow> sound (process_category_for_delete w u words d s)"
    unfolding process_category_for_delete_def Let_def by (auto intro!: sound_attempt dest: delete_category_keeps)
  show "desk_ok d \<Longrightarrow> catalog_ok s \<Longrightarrow> sound (check_category_for_update w words d s)"
    by (simp add: check_category_for_update_def Let_def sound_prompt)
  show "desk_ok d \<Longrightarrow> catalog_ok s \<Longrightarrow> sound (check_category_name_for_update w u words d s)"
    unfolding check_category_name_for_update_def Let_def
    by (auto simp: tx_bind_eq_Inr intro!: sound_attempt dest: update_category_keeps)
qed

lemma sound_delete_position: "desk_ok d \<Longrightarrow> catalog_ok s \<Longrightarrow> sound (delete_str_item w u words d s)"
  unfolding delete_str_item_def by (auto intro!: sound_attempt dest: delete_item_keeps)

lemma sound_sales:
  "desk_ok d \<Longrightarrow> catalog_ok s \<Longrightarrow> sound (sale_item_name w e words d s)"
  "desk_ok d \<Longrightarrow> catalog_ok s \<Longrightarrow> sound (sale_percent u words d s)"
  "desk_ok d \<Longrightarrow> catalog_ok s \<Longrightarrow> sound (sale_days e u words d s)"
proof -
  show "desk_ok d \<Longrightarrow> catalog_ok s \<Longrightarrow> sound (sale_item_name w e words d s)"
    by (simp add: sale_item_name_def desk_simps split: option.split prod.split)
  have percent: "desk_ok d \<Longrightarrow> 1 \<le> p \<Longrightarrow> p \<le> 100 \<Longrightarrow> desk_ok (d\<lparr>ad_sale_percent := Some p\<rparr>)" for d p
    by (simp add: desk_ok_def)
  have off: "set_item_sale n None None s = Inr (r, s1) \<Longrightarrow> catalog_ok s \<Longrightarrow> catalog_ok s1" for n r s1
    by (rule set_item_sale_keeps) auto
  show "desk_ok d \<Longrightarrow> catalog_ok s \<Longrightarrow> sound (sale_percent u words d s)"
    unfolding sale_percent_def
    by (auto simp: tx_bind_eq_Inr intro!: sound_attempt sound_prompt percent dest: off dest!: small_number_bounds
        split: option.split)
  have on: "catalog_ok s1" if "set_item_sale n (Some (of_int p)) until s = Inr (r, s1)" "ad_sale_percent d = Some p" "desk_ok d" "catalog_ok s"
    for n p until r s1
    using that by (intro set_item_sale_keeps [OF that(1,4)]) (simp add: desk_ok_def)
  show "desk_ok d \<Longrightarrow> catalog_ok s \<Longrightarrow> sound (sale_days e u words d s)"
    unfolding sale_days_def Let_def by (auto simp: tx_bind_eq_Inr intro!: sound_attempt dest: on)
qed

lemma sound_promo_pages:
  "desk_ok d \<Longrightarrow> catalog_ok s \<Longrightarrow> sound (promo_management_handler d s)"
  "desk_ok d \<Longrightarrow> catalog_ok s \<Longrightarrow> sound (navigate_promos cb d s)"
  "desk_ok d \<Longrightarrow> catalog_ok s \<Longrightarrow> sound (view_promo cb d s)"
  "desk_ok d \<Longrightarrow> catalog_ok s \<Longrightarrow> sound (toggle_promo u cb d s)"
  "desk_ok d \<Longrightarrow> catalog_ok s \<Longrightarrow> sound (confirm_delete_promo cb d s)"
  "desk_ok d \<Longrightarrow> catalog_ok s \<Longrightarrow> sound (delete_promo_confirmed u cb d s)"
proof -
  have page: "desk_ok d \<Longrightarrow> catalog_ok s \<Longrightarrow> sound (promo_page p d s)" for p d s
    by (auto simp: promo_page_def split: sum.split)
  have list: "desk_ok d \<Longrightarrow> catalog_ok s \<Longrightarrow> sound (promo_management_handler d s)" for d s
    by (simp add: promo_management_handler_def page)
  show "desk_ok d \<Longrightarrow> catalog_ok s \<Longrightarrow> sound (promo_management_handler d s)" by (rule list)
  show "desk_ok d \<Longrightarrow> catalog_ok s \<Longrightarrow> sound (navigate_promos cb d s)"
    by (simp add: navigate_promos_def page split: sum.split)
  show "desk_ok d \<Longrightarrow> catalog_ok s \<Longrightarrow> sound (view_promo cb d s)"
    by (simp add: view_promo_def split: option.split)
  show "desk_ok d \<Longrightarrow> catalog_ok s \<Longrightarrow> sound (toggle_promo u cb d s)"
    unfolding toggle_promo_def Let_def by (auto intro!: sound_attempt dest: toggle_promo_keeps split: option.split)
  show "desk_ok d \<Longrightarrow> catalog_ok s \<Longrightarrow> sound (confirm_delete_promo cb d s)"
    by (simp add: confirm_delete_promo_def split: option.split)
  show "desk_ok d \<Longrightarrow> catalog_ok s \<Longrightarrow> sound (delete_promo_confirmed u cb d s)"
    unfolding delete_promo_confirmed_def
    by (auto intro!: sound_attempt list dest: delete_promo_keeps split: option.split)
qed

lemma sound_promo_start:
  "desk_ok d \<Longrightarrow> catalog_ok s \<Longrightarrow> sound (promo_receive_code w words d s)"
  "desk_ok d \<Longrightarrow> catalog_ok s \<Longrightarrow> sound (promo_receive_type cb d s)"
  "desk_ok d \<Longrightarrow> catalog_ok s \<Longrightarrow> sound (promo_receive_value words d s)"
  "desk_ok d \<Longrightarrow> catalog_ok s \<Longrightarrow> ad_state d = Some PromoMaxUses \<Longrightarrow> sound (promo_receive_max_uses words d s)"
  by (simp_all add: promo_receive_code_def promo_receive_type_def promo_receive_value_def promo_receive_max_uses_def
      desk_simps split: sum.split)

lemma sound_finalize:
  assumes "desk_ok d" "catalog_ok s" "valued (ad_state d)"
  shows "sound (finalize_promo_creation u d s)"
proof -
  have created: "catalog_ok s1" if made: "create_from_promo_desk d s = Inr (r, s1)" for r s1
  proof -
    obtain val where val: "ad_value d = Some val" using made by (auto simp: create_from_promo_desk_def tx_bind_eq_Inr)
    obtain v where v: "ad_value d = Some (Finite v)"
      using made val by (cases val) (auto simp: create_from_promo_desk_def tx_bind_eq_Inr)
    with made obtain code ty c where data: "ad_type d = Some ty" "ad_value d = Some (Finite v)"
      and make: "create_promo_code code ty v (case ad_max_uses d of None \<Rightarrow> 0 | Some n \<Rightarrow> n) (ad_expires d)
        (ad_category_id d) (ad_item_id d) 0 1 s = Inr (c, s1)"
      by (auto simp: create_from_promo_desk_def tx_bind_eq_Inr)
    show ?thesis
      using assms data
      by (intro create_promo_keeps [OF make])
        (auto simp: desk_ok_def at_most_zero_def more_than_100_def split: option.split)
  qed
  show ?thesis unfolding finalize_promo_creation_def using assms(1,2)
    by (auto intro!: sound_attempt dest: created)
qed

lemma sound_promo_end:
  assumes "desk_ok d" "catalog_ok s"
  shows "ad_state d = Some PromoExpires \<Longrightarrow> sound (promo_receive_expires u words d s)"
    and "ad_state d = Some PromoBinding \<Longrightarrow> sound (promo_binding_type_chosen u cb d s)"
    and "ad_state d = Some PromoBindingName \<Longrightarrow> sound (promo_receive_binding_name u words d s)"
proof -
  have go_on: "sound (prompt key st (d\<lparr>ad_expires := x\<rparr>) s)" "sound (prompt key st (d\<lparr>ad_binding := y\<rparr>) s)"
    if "valued (ad_state d)" "valued (Some st)" for key st x y
    using that assms by (auto simp: desk_simps)
  show "ad_state d = Some PromoExpires \<Longrightarrow> sound (promo_receive_expires u words d s)"
    unfolding promo_receive_expires_def Let_def using assms
    by (auto intro!: sound_finalize go_on split: sum.split)
  show "ad_state d = Some PromoBinding \<Longrightarrow> sound (promo_binding_type_chosen u cb d s)"
    unfolding promo_binding_type_chosen_def Let_def using assms by (auto intro!: sound_finalize go_on)
  show "ad_state d = Some PromoBindingName \<Longrightarrow> sound (promo_receive_binding_name u words d s)"
    unfolding promo_receive_binding_name_def Let_def using assms by (auto intro!: sound_finalize split: option.split)
qed

subsection \<open>Every turn keeps it\<close>

lemmas sound_handlers = sound_prompts sound_adding sound_finish_adding sound_amount sound_update_steps sound_update_ends
  sound_units sound_delete_unit sound_categories sound_delete_position sound_sales sound_promo_pages sound_promo_start
  sound_promo_end

lemma sound_typed: "desk_ok d \<Longrightarrow> catalog_ok s \<Longrightarrow> sound (desk_typed w e perms u words d s)"
  unfolding desk_typed_def by (simp add: sound_handlers updating_item_values_def updating_item_def split: option.split desk_state.split)

lemma sound_state_pressed: "desk_ok d \<Longrightarrow> catalog_ok s \<Longrightarrow> sound (state_pressed w u cb d s)"
  unfolding state_pressed_def by (simp add: sound_handlers)

lemma sound_catalog_pressed: "desk_ok d \<Longrightarrow> catalog_ok s \<Longrightarrow> sound (catalog_pressed w u cb d s)"
  unfolding catalog_pressed_def by (simp add: sound_handlers categories_callback_handler_def)

lemma sound_promo_pressed: "desk_ok d \<Longrightarrow> catalog_ok s \<Longrightarrow> sound (promo_pressed u cb d s)"
  unfolding promo_pressed_def by (simp add: sound_handlers)

lemma sound_pressed:
  assumes "desk_ok d" "catalog_ok s"
  shows "sound (desk_pressed w perms u cb d s)"
  using sound_state_pressed [OF assms, of w u cb] sound_catalog_pressed [OF assms, of w u cb]
    sound_promo_pressed [OF assms, of u cb] assms
  unfolding desk_pressed_def by (auto split: prod.split answer.split)

lemma sound_desk_turn: "desk_ok d \<Longrightarrow> catalog_ok s \<Longrightarrow> sound (desk_turn w e perms u ev d s)"
  unfolding desk_turn_def by (simp add: sound_typed sound_pressed split: desk_event.split)

text \<open>C34: Whatever members of staff type and press in their product, stock, category, sale and promo
  code dialogues, in any interleaving and with any permissions, every product keeps a safe name, a
  price within the limits and a sale of 1 to 100 per cent, no stock value is blank or twice at one
  product, and no promo code takes off more than 100 per cent or points outside its scope.\<close>
theorem catalog_stays_valid:
  assumes "staff_reach (ds, s) (ds', s')" "catalog_ok s" "\<forall>u. ds u = fresh_desk"
  shows "catalog_ok s'"
proof -
  have "staff_reach (ds, s) y \<Longrightarrow> catalog_ok (snd y) \<and> (\<forall>u. desk_ok (fst y u))" for y
  proof (induction rule: staff_reach.induct)
    case staff_start
    then show ?case using assms(2,3) by simp
  next
    case (staff_more ds1 s1 w e perms u ev a d2 s2)
    then have "sound (a, d2, s2)" using sound_desk_turn [of "ds1 u" s1 w e perms u ev] by simp
    with staff_more.IH show ?case by simp
  qed
  from this [OF assms(1)] show ?thesis by simp
qed

lemma staff_run_reaches:
  "staff_reach x (ds, s) \<Longrightarrow> ds u = d \<Longrightarrow> desk_run evs u (d, s) = (d', s') \<Longrightarrow> staff_reach x (ds(u := d'), s')"
proof (induction evs arbitrary: ds d s)
  case Nil
  then show ?case by (metis desk_run.simps(1) fun_upd_triv prod.inject)
next
  case (Cons ev evs)
  obtain w e perms v where ev: "ev = (w, e, perms, v)" by (metis prod_cases4)
  obtain a d1 s1 where turn: "desk_turn w e perms u v (ds u) s = (a, d1, s1)" by (metis prod_cases3)
  have step: "staff_reach x (ds(u := d1), s1)" using Cons.prems(1) turn by (rule staff_more)
  have "desk_run evs u (d1, s1) = (d', s')" using Cons.prems(2,3) turn ev by simp
  then have "staff_reach x ((ds(u := d1))(u := d'), s')" by (rule Cons.IH [OF step fun_upd_same])
  then show ?case by (simp only: fun_upd_upd)
qed

subsection \<open>Adding a position\<close>

lemma add_dialogue:
  assumes "granted perms CATALOG_MANAGE" "is_safe_item_name (strip name)" "sw_item w (strip name) = None"
    and "sw_category w (strip cat) = Some c" "parse_price (Some price) = Some p"
  shows "desk_run (map (\<lambda>ev. (w, e, perms, ev)) [Pressed ''goods_management'', Pressed ''add_item'', Typed name, Typed desc,
       Typed price, Typed cat, Pressed ''infinity_no'']) u (d, s) =
     (fresh_desk\<lparr>ad_state := Some AddValues, ad_item_name := Some (strip name), ad_description := Some (strip desc),
        ad_price := Some p, ad_category := Some (strip cat), ad_infinite := Some False\<rparr>, s)"
  using assms
  by (simp add: desk_turn_def desk_pressed_def state_pressed_def catalog_pressed_def starts_with_def desk_typed_def Let_def
      goods_management_callback_handler_def add_item_callback_handler_def check_item_name_for_add_def
      add_item_description_def add_item_price_def check_category_for_add_item_def adding_value_to_position_def prompt_def
      fresh_desk_def)

lemma collect_run:
  "ad_state d = Some AddValues \<Longrightarrow>
   desk_run (map (\<lambda>ev. (w, e, perms, ev)) (map Typed vs)) u (d, s) = (d\<lparr>ad_values := ad_values d @ vs\<rparr>, s)"
  by (induction vs arbitrary: d) (simp_all add: desk_turn_def desk_typed_def collect_item_value_def Let_def)

lemma bulk_into_empty_position:
  fixes vs :: "string list"
  assumes "goods_id_by_name s n = Some i" "stock_of s i = []" "check_violation s = None"
  defines "kept \<equiv> keep_first (nonblank vs)"
  shows "\<exists>b c. add_values_bulk n vs False s = Inr ((length kept, 0, b, c),
     if kept = [] then s
     else safe_create_task (InvalidateItemCache n None)
       (s\<lparr>t_item_values := t_item_values s @ value_rows (t_seq s) i False kept, t_seq := t_seq s + int (length kept)\<rparr>))"
proof -
  have "\<not> list_ex (value_of_item i v) (t_item_values s)" for v
    using assms(2) by (auto simp: stock_of_def list_ex_iff value_of_item_def filter_empty_conv)
  then have new: "filter (\<lambda>v. \<not> list_ex (value_of_item i v) (t_item_values s)) kept = kept" by simp
  have ok: "check_violation (s\<lparr>t_item_values := x, t_seq := k\<rparr>) = None" for x k
    using assms(3) by (simp add: check_violation_def split: if_splits)
  have "run_session (bulk_body n kept False) s = Inr (Some (length kept, 0),
      s\<lparr>t_item_values := t_item_values s @ value_rows (t_seq s) i False kept, t_seq := t_seq s + int (length kept)\<rparr>)"
    by (simp add: run_session_def commit_def bulk_body_def Let_def assms(1) new fold_add_value_row ok)
  then show ?thesis by (auto simp: add_values_bulk_def normalize_values_keep_first kept_def)
qed

text \<open>Nobody waits for a product that has just got its id.\<close>

lemma notify_nobody:
  "goods_id_by_name s n = Some i \<Longrightarrow> \<forall>r\<in>set (t_subs s). ss_item_id r \<noteq> i \<Longrightarrow> notify_restock_safe w n s = s"
  by (auto simp: notify_restock_safe_def notify_restock_def pop_stock_subscribers_def tx_bind_eq_Inr run_session_def
      commit_def Let_def filter_empty_conv split: sum.split option.splits)

text \<open>The dialogue with all its answers, and the shop with the new product and its units.\<close>

definition answered :: "string \<Rightarrow> string \<Rightarrow> int \<Rightarrow> string \<Rightarrow> string list \<Rightarrow> desk" where
  "answered name desc p cat vs = fresh_desk\<lparr>ad_state := Some AddValues, ad_item_name := Some (strip name),
     ad_description := Some (strip desc), ad_price := Some p, ad_category := Some (strip cat), ad_infinite := Some False,
     ad_values := vs\<rparr>"

definition stocked_shop :: "string \<Rightarrow> string \<Rightarrow> int \<Rightarrow> string \<Rightarrow> int \<Rightarrow> string list \<Rightarrow> shop \<Rightarrow> shop" where
  "stocked_shop name desc p cat k kept s = s\<lparr>
     t_goods := t_goods s @ [\<lparr>g_id = next_id s, g_name = strip name, g_price = p * 100, g_description = strip desc,
       g_category_id = k, g_fulfillment_type = FulfillStock, g_allows_gift = False, g_sale_percent = None, g_sale_until = None\<rparr>],
     t_item_values := t_item_values s @ value_rows (next_id s) (next_id s) False kept,
     t_seq := next_id s + int (length kept),
     t_tasks := t_tasks s @ [InvalidateStatsCache, InvalidateCategoryCache (strip cat)] @
       (if kept = [] then [] else [InvalidateItemCache (strip name) None])\<rparr>"

lemma create_answered:
  assumes "parse_price (Some price) = Some p" "goods_by_name s (strip name) = None" "category_id_by_name s (strip cat) = Some k"
    and "check_violation s = None"
  shows "create_from_desk (answered name desc p cat vs) s = Inr (strip name, stocked_shop name desc p cat k [] s)"
proof -
  have ok: "check_violation (s\<lparr>t_goods := g, t_seq := i\<rparr>) = None" for g i
    using assms(4) by (simp add: check_violation_def split: if_splits)
  show ?thesis using parse_price_bounds [OF assms(1)] assms(2,3)
    by (simp add: create_from_desk_def need_def create_item_def price_cents run_session_def commit_def ok fresh_desk_def
        answered_def stocked_shop_def safe_create_task_def value_rows.simps)
qed

lemma stocked_id:
  assumes "goods_by_name s (strip name) = None" "0 \<le> t_seq s"
  shows "goods_id_by_name (stocked_shop name desc p cat k kept s) (strip name) = Some (next_id s)"
  using assms by (simp add: goods_id_by_name_def goods_by_name_def stocked_shop_def scalar_id_def truthy_id_def next_id_def
      find_by_append)

lemma stock_answered:
  fixes vs :: "string list"
  assumes "goods_by_name s (strip name) = None" "0 \<le> t_seq s" "stock_of s (next_id s) = []" "check_violation s = None"
  defines "kept \<equiv> keep_first (nonblank vs)"
  shows "\<exists>b c. add_values_bulk (strip name) vs False (stocked_shop name desc p cat k [] s) =
    Inr ((length kept, 0, b, c), stocked_shop name desc p cat k kept s)"
proof -
  let ?s1 = "stocked_shop name desc p cat k [] s"
  have "check_violation ?s1 = None" using assms(4) by (simp add: check_violation_def stocked_shop_def split: if_splits)
  moreover have "stock_of ?s1 (next_id s) = []" using assms(3) by (simp add: stock_of_def stocked_shop_def value_rows.simps)
  ultimately show ?thesis
    using bulk_into_empty_position [OF stocked_id [OF assms(1,2)], of desc p cat k "[]" vs]
    by (fastforce simp: stocked_shop_def safe_create_task_def value_rows.simps kept_def)
qed

text \<open>C35: In a shop whose constraints hold and in which nothing refers to the next id, a member of
  staff who goes through the dialogue for a new position with valid answers, a free name and a
  known category creates exactly one product with the stripped name, the description and the price
  in kopecks, stocked with exactly the distinct non-blank values typed, stripped, in their order;
  apart from the id counter, the queued cache invalidations and one audit row every table stays as
  it was, and the dialogue is over. Only when announcing it in the channel fails with an
  unexpected error, the product and its stock are there without the audit row and the dialogue
  stays open.\<close>
theorem adding_position_outcome:
  fixes e :: env and u :: int and vs :: "string list" and d :: desk and desc :: string
  assumes staff: "granted perms CATALOG_MANAGE" "sw_item w (strip name) = None" "sw_category w (strip cat) = Some c"
    and typed: "is_safe_item_name (strip name)" "parse_price (Some price) = Some p"
    and free: "goods_by_name s (strip name) = None" "category_id_by_name s (strip cat) = Some k"
    and shop: "check_violation s = None" "0 \<le> t_seq s" "stock_of s (next_id s) = []" "\<forall>r\<in>set (t_subs s). ss_item_id r \<noteq> next_id s"
  defines "run \<equiv> desk_run (map (\<lambda>ev. (w, e, perms, ev))
      ([Pressed ''goods_management'', Pressed ''add_item'', Typed name, Typed desc, Typed price, Typed cat, Pressed ''infinity_no'']
       @ map Typed vs @ [Pressed ''finish_adding_items''])) u (d, s)"
    and "after \<equiv> stocked_shop name desc p cat k (keep_first (nonblank vs)) s"
  shows "run = (if sw_channel w = Some ChannelError then (answered name desc p cat vs, after)
    else (fresh_desk, item_audit ''create_item'' u (strip name) after))"
proof -
  let ?n = "strip name" and ?kept = "keep_first (nonblank vs)" and ?d = "answered name desc p cat vs"
  obtain b c' where bulk: "add_values_bulk ?n vs False (stocked_shop name desc p cat k [] s) = Inr ((length ?kept, 0, b, c'), after)"
    using stock_answered [OF free(1) shop(2,3,1)] unfolding after_def by blast
  have told: "notify_restock_safe w ?n after = after"
    by (rule notify_nobody [OF stocked_id [OF free(1) shop(2), of desc p cat k ?kept, folded after_def]])
      (use shop(4) in \<open>simp add: after_def stocked_shop_def\<close>)
  let ?last = "if sw_channel w = Some ChannelError then (?d, after) else (fresh_desk, item_audit ''create_item'' u ?n after)"
  have "\<exists>a. a \<noteq> Unheard \<and> finish_adding_items_callback_handler w u ?d s = (a, ?last)"
    unfolding finish_adding_items_callback_handler_def create_answered [OF typed(2) free shop(1)]
    using bulk by (auto simp: attempt_def answered_def stock_done_def told Let_def announce_upload_def
        split: option.split channel_reply.split)
  then obtain a where finish: "a \<noteq> Unheard" "finish_adding_items_callback_handler w u ?d s = (a, ?last)" by blast
  have "run = desk_run [(w, e, perms, Pressed ''finish_adding_items'')] u (?d, s)"
    unfolding run_def map_append desk_run_append add_dialogue [OF staff(1) typed(1) staff(2,3) typed(2)]
    by (subst collect_run) (simp_all add: fresh_desk_def answered_def)
  also have "\<dots> = ?last" using finish
    by (simp add: desk_turn_def desk_pressed_def state_pressed_def starts_with_def answered_def split: answer.split)
  finally show ?thesis .
qed

subsection \<open>Dialogues that can surprise\<close>

definition sample_world :: staff_world where
  "sample_world = \<lparr>sw_item = get_item_info sample_catalog, sw_category = category_by_name sample_catalog,
     sw_reply = (\<lambda>_ _. ApiOk), sw_channel = None, sw_hash = (\<lambda>t. t), sw_letters = (\<lambda>_. True), sw_keep = (\<lambda>t. t)\<rparr>"

definition staff_perms :: "32 word" where
  "staff_perms = CATALOG_MANAGE OR PROMO_MANAGE"

definition sample_turns :: "32 word \<Rightarrow> desk_event list \<Rightarrow> (staff_world \<times> env \<times> 32 word \<times> desk_event) list" where
  "sample_turns perms evs = map (\<lambda>ev. (sample_world, sample_env, perms, ev)) evs"

definition sample_adding :: "desk_event list" where
  "sample_adding = [Pressed ''goods_management'', Pressed ''add_item'', Typed ''disc'', Typed ''a disc'', Typed ''5'',
     Typed ''games'', Pressed ''infinity_no'']"

lemma sample_permission: "granted staff_perms CATALOG_MANAGE" "granted staff_perms PROMO_MANAGE" "\<not> granted 0 CATALOG_MANAGE"
  "\<not> granted 0 PROMO_MANAGE"
  by code_simp+

text \<open>The values typed for one position go to another when the dialogue of the other is opened from an older menu.\<close>

lemma stale_values_go_elsewhere:
  "list_ex (value_of_item 3 ''secret'') (t_item_values (snd (desk_run (sample_turns staff_perms
     (sample_adding @ [Typed ''secret'', Pressed ''update_item_amount'', Typed ''key'', Pressed ''finish_updating_items''])) 1
     (fresh_desk, sample_catalog))))"
  by code_simp

text \<open>The last steps of a dialogue ask for no permission: who lost it in between still finishes.\<close>

lemma demoted_staff_finishes:
  "goods_by_name (snd (desk_run (sample_turns staff_perms sample_adding @ sample_turns 0 [Typed ''v'', Pressed ''finish_adding_items''])
     1 (fresh_desk, sample_catalog))) ''disc'' \<noteq> None"
  by code_simp

definition sample_promo_dialogue :: "string \<Rightarrow> string \<Rightarrow> desk_event list" where
  "sample_promo_dialogue kind amount = [Pressed ''promo_create'', Typed ''summer'', Pressed (''promo_type_'' @ kind), Typed amount,
     Typed ''0'', Typed ''0'', Pressed ''promo_bind_none'']"

text \<open>Half a percent is accepted and stored as a code that takes nothing off.\<close>

lemma half_percent_is_nothing:
  "map pc_discount_value (filter (\<lambda>p. pc_code p = ''SUMMER'') (t_promos (snd (desk_run (sample_turns staff_perms
     (sample_promo_dialogue ''percent'' ''0.5'')) 1 (fresh_desk, sample_catalog))))) = [0]"
  by code_simp

text \<open>A third decimal place and a NaN are accepted as amounts; the creation then raises and the dialogue is stuck.\<close>

definition stuck_amount :: "string \<Rightarrow> bool" where
  "stuck_amount amount \<longleftrightarrow>
     (let evs = sample_promo_dialogue ''fixed'' amount; run = desk_run (sample_turns staff_perms evs) 1 (fresh_desk, sample_catalog)
      in ad_state (fst run) = Some PromoBinding \<and> t_promos (snd run) = t_promos sample_catalog \<and>
         desk_run (sample_turns staff_perms [Pressed ''promo_bind_none'']) 1 run = run)"

lemma bad_amounts_are_stuck: "stuck_amount ''9.999''" "stuck_amount ''nan''"
  by code_simp+

subsection \<open>Witnesses\<close>

lemma staff_dialogues_need_permission_witness:
  "desk_run (sample_turns 0 (sample_adding @ [Typed ''v'', Pressed ''finish_adding_items'', Pressed ''promo_dc_9''])) 1
     (fresh_desk, sample_catalog) = (fresh_desk, sample_catalog)"
  by (rule staff_dialogues_need_permission)
    (auto simp: fresh_desk_def sample_turns_def sample_adding_def sample_permission)

lemma catalog_stays_valid_witness:
  "catalog_ok (snd (desk_run (sample_turns staff_perms (sample_promo_dialogue ''percent'' ''15'')) 1 (fresh_desk, sample_catalog))) \<and>
   length (t_promos (snd (desk_run (sample_turns staff_perms (sample_promo_dialogue ''percent'' ''15'')) 1 (fresh_desk, sample_catalog)))) = 2"
    (is "catalog_ok (snd ?run) \<and> _")
proof
  have "staff_reach (\<lambda>_. fresh_desk, sample_catalog) ((\<lambda>_. fresh_desk)(1 := fst ?run), snd ?run)"
    by (rule staff_run_reaches [OF staff_start]) simp_all
  moreover have "catalog_ok sample_catalog" by code_simp
  ultimately show "catalog_ok (snd ?run)" by (rule catalog_stays_valid) simp
  show "length (t_promos (snd ?run)) = 2" by code_simp
qed

lemma adding_position_outcome_witness:
  "t_item_values (snd (desk_run (sample_turns staff_perms (sample_adding @ map Typed ['' k9 '', ''k9'', ''''] @
       [Pressed ''finish_adding_items''])) 1 (fresh_desk, sample_catalog))) =
   t_item_values sample_catalog @ [\<lparr>iv_id = 22, iv_item_id = 21, iv_value = Some ''k9'', iv_is_infinity = False,
     iv_status = AVAILABLE, iv_reserved_order_id = None\<rparr>]"
proof -
  have item: "sw_item sample_world (strip ''disc'') = None" by code_simp
  have category: "sw_category sample_world (strip ''games'') = Some \<lparr>c_id = 7, c_name = ''games''\<rparr>" by code_simp
  have name: "is_safe_item_name (strip ''disc'')" and price: "parse_price (Some ''5'') = Some 5" by code_simp+
  have free: "goods_by_name sample_catalog (strip ''disc'') = None" by code_simp
  have known: "category_id_by_name sample_catalog (strip ''games'') = Some 7" by code_simp
  have shop: "check_violation sample_catalog = None" "0 \<le> t_seq sample_catalog" by code_simp+
  have empty: "stock_of sample_catalog (next_id sample_catalog) = []" by code_simp
  have nobody: "\<forall>r\<in>set (t_subs sample_catalog). ss_item_id r \<noteq> next_id sample_catalog" by code_simp
  have new: "value_rows (next_id sample_catalog) (next_id sample_catalog) False (keep_first (nonblank ['' k9 '', ''k9'', ''''])) =
      [\<lparr>iv_id = 22, iv_item_id = 21, iv_value = Some ''k9'', iv_is_infinity = False, iv_status = AVAILABLE,
        iv_reserved_order_id = None\<rparr>]" by code_simp
  have turns: "sample_turns staff_perms (sample_adding @ evs) = map (\<lambda>ev. (sample_world, sample_env, staff_perms, ev))
      ([Pressed ''goods_management'', Pressed ''add_item'', Typed ''disc'', Typed ''a disc'', Typed ''5'', Typed ''games'',
        Pressed ''infinity_no''] @ evs)" for evs
    by (simp only: sample_turns_def sample_adding_def)
  note outcome = adding_position_outcome [OF sample_permission(1) item category name price free known shop empty nobody,
      where e = sample_env and u = 1 and d = fresh_desk and desc = "''a disc''" and vs = "['' k9 '', ''k9'', '''']"]
  show ?thesis
    unfolding turns outcome new [symmetric] by (simp add: sample_world_def item_audit_def log_audit_def stocked_shop_def)
qed

end
