(* ===== verification/Pages.thy ===== *)
theory Pages
  imports Storefront
begin

text \<open>
  The screens that show what is stored and change nothing but the registration of a newcomer: the menus of
  \<open>keyboards/inline.py\<close>, \<open>handlers/user/main.py\<close>, \<open>handlers/user/referral_system.py\<close>, \<open>handlers/admin/main.py\<close>, the
  profiles and lists of \<open>handlers/admin/user_management.py\<close> and \<open>shop_management.py\<close>.  A text is its key with the
  arguments that are printed into it (the currency, the same everywhere, is left out); a button is its
  label with its callback data, or the address it opens.  On top: on these screens, who is no user
  manager sees nothing of another user.
\<close>

subsection \<open>Texts and buttons\<close>

datatype line = Text string "string list" | Plain string

datatype label = Key string | Counted string int | Invited int int | Earning referral_earning | Purchased bought_goods
  | Person int | Arrow bool | PageNumber int int

datatype view = Unanswered | Answer string | Page "line list" "(label \<times> string) list" | Shown screen

text \<open>
  What a screen reads from outside: the names Telegram answers, the dates as they are printed, the cached
  rows of users (\<open>check_user_cached\<close>), the settings and the answer of the subscription check.
\<close>

record page_world =
  pw_name :: "int \<Rightarrow> string"
  pw_date :: "int \<Rightarrow> string"
  pw_moment :: "int \<Rightarrow> string"
  pw_user :: "int \<Rightarrow> user option"
  pw_bot :: string
  pw_channel :: "string option"
  pw_subscribed :: "bool option"
  pw_rules :: "string option"
  pw_maintenance :: bool
  pw_first_name :: string

text \<open>\<open>esc\<close> leaves quotes alone, \<open>html.escape\<close> does not.\<close>

definition esc :: "string \<Rightarrow> string" where
  "esc t = py_replace ''>'' ''&gt;'' (py_replace ''<'' ''&lt;'' (py_replace ''&'' ''&amp;'' t))"

definition esc_quotes :: "string \<Rightarrow> string" where
  "esc_quotes t = py_replace [CHR 0x27] ''&#x27;'' (py_replace [CHR 0x22] ''&quot;'' (esc t))"

definition simple_buttons :: "(string \<times> string) list \<Rightarrow> (label \<times> string) list" where
  "simple_buttons actions = map (\<lambda>(text, cb). (Key text, cb)) actions"

definition back_button :: "string \<Rightarrow> (label \<times> string) list" where
  "back_button cb = simple_buttons [(''btn.back'', cb)]"

definition nav_buttons :: "string \<Rightarrow> nav \<Rightarrow> (label \<times> string) list" where
  "nav_buttons nav_cb_prefix nav =
     (case nav of None \<Rightarrow> []
      | Some (prev, (page, total_pages), next) \<Rightarrow>
          (case prev of None \<Rightarrow> [] | Some p \<Rightarrow> [(Arrow False, nav_cb_prefix @ show_int p)])
          @ [(PageNumber page total_pages, ''dummy_button'')]
          @ (case next of None \<Rightarrow> [] | Some p \<Rightarrow> [(Arrow True, nav_cb_prefix @ show_int p)]))"

text \<open>A page of a list; the paginator may have been asked for the count before.\<close>

definition list_page ::
    "line list \<Rightarrow> (int \<Rightarrow> int \<Rightarrow> 'a list result) \<Rightarrow> int \<Rightarrow> int \<Rightarrow> 'a paginator \<Rightarrow> ('a \<Rightarrow> label) \<Rightarrow> ('a \<Rightarrow> string) \<Rightarrow>
     string \<Rightarrow> string \<Rightarrow> view result" where
  "list_page title query counted page p item_text item_callback back_cb nav_cb_prefix =
     tx_bind (lazy_paginated_keyboard query counted page p) (\<lambda>((rows, nav), _).
       Inr (Page title (map (\<lambda>r. (item_text r, item_callback r)) rows @ nav_buttons nav_cb_prefix nav @ back_button back_cb)))"

text \<open>The first page says so when the list is empty.\<close>

definition first_or_page ::
    "line list \<Rightarrow> line list \<Rightarrow> (int \<Rightarrow> int \<Rightarrow> 'a list result) \<Rightarrow> int \<Rightarrow> int \<Rightarrow> ('a \<Rightarrow> label) \<Rightarrow> ('a \<Rightarrow> string) \<Rightarrow>
     string \<Rightarrow> string \<Rightarrow> view result" where
  "first_or_page nothing title query counted page item_text item_callback back_cb nav_cb_prefix =
     (if page = 0
      then (let (total, p) = get_total_count counted (new_paginator 10)
            in if total = 0 then Inr (Page nothing (back_button back_cb))
               else list_page title query counted 0 p item_text item_callback back_cb nav_cb_prefix)
      else list_page title query counted page (new_paginator 10) item_text item_callback back_cb nav_cb_prefix)"

subsection \<open>Numbers in callbacks\<close>

text \<open>\<open>int(data.split('_')[k])\<close> and \<open>[-1]\<close>.\<close>

definition nth_number :: "nat \<Rightarrow> string \<Rightarrow> int option" where
  "nth_number k cb =
     (let parts = split_on (CHR ''_'') cb
      in if length parts \<le> k then None else case parse_int (parts ! k) of Inl _ \<Rightarrow> None | Inr n \<Rightarrow> Some n)"

definition last_number :: "string \<Rightarrow> int option" where
  "last_number cb = (case parse_int (last (split_on (CHR ''_'') cb)) of Inl _ \<Rightarrow> None | Inr n \<Rightarrow> Some n)"

subsection \<open>Menus\<close>

definition main_menu :: "32 word \<Rightarrow> string option \<Rightarrow> (label \<times> string) list" where
  "main_menu role channel = simple_buttons
     ([(''btn.shop'', ''shop''), (''btn.rules'', ''rules''), (''btn.profile'', ''profile''), (''btn.support'', ''support'')]
      @ (if truthy_str channel then [(''btn.channel'', ''https://t.me/'' @ lstrip_by (\<lambda>c. c = CHR ''@'') (the channel))] else [])
      @ (if has_any_admin_perm role then [(''btn.admin_menu'', ''console'')] else []))"

definition profile_keyboard :: "int \<Rightarrow> int \<Rightarrow> int \<Rightarrow> (label \<times> string) list" where
  "profile_keyboard percent user_items cart_count =
     [(Key ''btn.replenish'', ''replenish_balance'')]
     @ (if percent \<noteq> 0 then [(Key ''btn.referral'', ''referral_system'')] else [])
     @ (if user_items \<noteq> 0 then [(Key ''btn.purchased'', ''bought_items'')] else [])
     @ [(if 0 < cart_count then Counted ''btn.cart'' cart_count else Key ''btn.cart_empty'', ''cart''),
        (Key ''btn.my_orders'', ''my_orders''), (Key ''btn.operation_history'', ''operation_history''),
        (Key ''btn.redeem_promo'', ''redeem_promo''), (Key ''btn.back'', ''back_to_menu'')]"

definition admin_console_keyboard :: "bool \<Rightarrow> 32 word \<Rightarrow> (label \<times> string) list" where
  "admin_console_keyboard maintenance_mode role = simple_buttons
     ((if role AND (CATALOG_MANAGE OR STATS_VIEW) \<noteq> 0 then [(''admin.menu.shop'', ''shop_management'')] else [])
      @ (if role AND CATALOG_MANAGE \<noteq> 0
         then [(''admin.menu.goods'', ''goods_management''), (''admin.menu.categories'', ''categories_management'')] else [])
      @ (if role AND PROMO_MANAGE \<noteq> 0 then [(''admin.menu.promo'', ''promo_mgmt'')] else [])
      @ (if role AND TICKETS_MANAGE \<noteq> 0 then [(''admin.menu.support'', ''support_tickets'')] else [])
      @ (if role AND USERS_MANAGE \<noteq> 0 then [(''admin.menu.users'', ''user_management'')] else [])
      @ (if role AND ADMINS_MANAGE \<noteq> 0 then [(''admin.menu.roles'', ''role_mgmt'')] else [])
      @ (if role AND BROADCAST \<noteq> 0 then [(''admin.menu.broadcast'', ''send_message'')] else [])
      @ (if role AND SETTINGS_MANAGE \<noteq> 0
         then [(if maintenance_mode then ''admin.menu.maintenance_on'' else ''admin.menu.maintenance_off'', ''toggle_maintenance'')]
         else [])
      @ [(''btn.back'', ''back_to_menu'')])"

definition referral_system_keyboard :: "bool \<Rightarrow> bool \<Rightarrow> (label \<times> string) list" where
  "referral_system_keyboard has_referrals has_earnings = simple_buttons
     ((if has_referrals then [(''btn.view_referrals'', ''view_referrals'')] else [])
      @ (if has_earnings then [(''btn.view_earnings'', ''view_all_earnings'')] else [])
      @ [(''btn.back'', ''profile'')])"

definition shop_callback_handler :: "32 word \<Rightarrow> view" where
  "shop_callback_handler role = Page [Text ''admin.shop.menu.title'' []] (simple_buttons
     ((if role AND STATS_VIEW \<noteq> 0
       then [(''admin.shop.menu.statistics'', ''statistics''), (''admin.shop.menu.logs'', ''show_logs'')] else [])
      @ (if role AND USERS_MANAGE \<noteq> 0 then [(''admin.shop.menu.users'', ''users_list'')] else [])
      @ (if role AND CATALOG_MANAGE \<noteq> 0 then [(''admin.shop.menu.search_bought'', ''show_bought_item'')] else [])
      @ [(''btn.back'', ''console'')]))"

definition console_callback_handler :: "page_world \<Rightarrow> 32 word \<Rightarrow> view" where
  "console_callback_handler w role =
     (if has_any_admin_perm role then Page [Text ''admin.menu.main'' []] (admin_console_keyboard (pw_maintenance w) role)
      else Answer ''admin.menu.rights'')"

text \<open>
  The log files: of each its type, name and size, if it exists.  The answer: the files that are too large, the
  documents that are sent with their captions, and whether there was nothing to send.
\<close>

definition MAX_LOG_UPLOAD_BYTES :: int where
  "MAX_LOG_UPLOAD_BYTES = 50 * 1024 * 1024"

definition logs_callback_handler ::
    "(string \<times> string \<times> int option) list \<Rightarrow> string list \<times> (string \<times> string) list \<times> bool" where
  "logs_callback_handler files =
     (let sized = [(t, n, bytes). (t, n, Some bytes) \<leftarrow> files, bytes \<noteq> 0];
          oversized = [n. (_, n, bytes) \<leftarrow> sized, MAX_LOG_UPLOAD_BYTES < bytes];
          files_to_send = [(n, if t = ''audit'' then ''admin.shop.logs.caption'' else ''Bot log file'').
            (t, n, bytes) \<leftarrow> sized, bytes \<le> MAX_LOG_UPLOAD_BYTES]
      in (oversized, files_to_send, files_to_send = []))"

subsection \<open>The own referrals\<close>

definition stats_line :: "earning_stats \<Rightarrow> line" where
  "stats_line st = Text ''referrals.stats.template''
     [show_int (es_active st), show_int (es_amount st), show_int (es_original st), show_int (es_count st)]"

definition referral_callback_handler :: "page_world \<Rightarrow> int \<Rightarrow> int \<Rightarrow> shop \<Rightarrow> view" where
  "referral_callback_handler w percent user_id s =
     (let referrals_count = check_user_referrals s user_id; st = get_referral_earnings_stats s user_id;
          has_earnings = (0 < es_count st)
      in Page ([Text ''referral.title'' [], Text ''referral.link'' [pw_bot w, show_int user_id],
                Text ''referral.count'' [show_int referrals_count], Text ''referral.description'' [show_int percent]]
               @ (if has_earnings then [Plain '''', stats_line st] else []))
              (referral_system_keyboard (0 < referrals_count) has_earnings))"

definition invited_label :: "int \<times> int \<times> int \<Rightarrow> label" where
  "invited_label r = Invited (fst r) (snd (snd r))"

definition referrals_callback :: "int \<times> int \<times> int \<Rightarrow> string" where
  "referrals_callback r = ''referral_earnings_'' @ show_int (fst r)"

definition view_referrals_handler :: "int \<Rightarrow> shop \<Rightarrow> view result" where
  "view_referrals_handler user_id s =
     first_or_page [Text ''referrals.list.empty'' []] [Text ''referrals.list.title'' []]
       (query_user_referrals s user_id) (count_user_referrals s user_id) 0 invited_label referrals_callback
       ''referral_system'' ''referrals_page_''"

definition referrals_pagination_handler :: "int \<Rightarrow> string \<Rightarrow> shop \<Rightarrow> view result" where
  "referrals_pagination_handler user_id cb s =
     (case last_number cb of None \<Rightarrow> Inr (Answer ''errors.pagination_invalid'')
      | Some page \<Rightarrow> list_page [Text ''referrals.list.title'' []]
          (query_user_referrals s user_id) (count_user_referrals s user_id) page (new_paginator 10)
          invited_label referrals_callback ''referral_system'' ''referrals_page_'')"

definition show_ref_earnings_page :: "page_world \<Rightarrow> int \<Rightarrow> int \<Rightarrow> int \<Rightarrow> shop \<Rightarrow> view result" where
  "show_ref_earnings_page w user_id referral_id page s =
     (let name = esc (pw_name w referral_id)
      in first_or_page [Text ''referral.earnings.empty'' [show_int referral_id, name]]
           [Text ''referral.earnings.title'' [show_int referral_id, name]]
           (query_referral_earnings_from_user s user_id referral_id) (count_referral_earnings_from_user s user_id referral_id) page
           Earning (\<lambda>r. ''earning_detail:'' @ show_int (re_id r) @ '':referral_earnings_'' @ show_int referral_id)
           ''view_referrals'' (''ref-earn_'' @ show_int referral_id @ ''_''))"

definition referral_earnings_handler :: "page_world \<Rightarrow> int \<Rightarrow> string \<Rightarrow> shop \<Rightarrow> view result" where
  "referral_earnings_handler w user_id cb s =
     (case last_number cb of None \<Rightarrow> Inr (Answer ''errors.invalid_data'')
      | Some referral_id \<Rightarrow> show_ref_earnings_page w user_id referral_id 0 s)"

definition referral_earnings_pagination_handler :: "page_world \<Rightarrow> int \<Rightarrow> string \<Rightarrow> shop \<Rightarrow> view result" where
  "referral_earnings_pagination_handler w user_id cb s =
     (case (length (split_on (CHR ''_'') cb) = 3, nth_number 1 cb, nth_number 2 cb) of
        (True, Some referral_id, Some page) \<Rightarrow> show_ref_earnings_page w user_id referral_id page s
      | _ \<Rightarrow> Inr (Answer ''errors.pagination_invalid''))"

definition all_earnings_callback :: "string \<Rightarrow> referral_earning \<Rightarrow> string" where
  "all_earnings_callback back_data r = ''earning_detail:'' @ show_int (re_id r) @ CHR '':'' # back_data"

definition view_all_earnings_handler :: "int \<Rightarrow> shop \<Rightarrow> view result" where
  "view_all_earnings_handler user_id s =
     first_or_page [Text ''all.earnings.empty'' []] [Text ''all.earnings.title'' []]
       (query_all_referral_earnings s user_id) (count_all_referral_earnings s user_id) 0
       Earning (all_earnings_callback ''view_all_earnings'') ''referral_system'' ''all_earnings_page_''"

definition all_earnings_pagination_handler :: "int \<Rightarrow> string \<Rightarrow> shop \<Rightarrow> view result" where
  "all_earnings_pagination_handler user_id cb s =
     (case last_number cb of None \<Rightarrow> Inr (Answer ''errors.pagination_invalid'')
      | Some page \<Rightarrow> list_page [Text ''all.earnings.title'' []]
          (query_all_referral_earnings s user_id) (count_all_referral_earnings s user_id) page (new_paginator 10)
          Earning (all_earnings_callback (''all_earnings_page_'' @ show_int page)) ''referral_system'' ''all_earnings_page_'')"

definition earning_card :: "page_world \<Rightarrow> int \<Rightarrow> referral_earning \<Rightarrow> string \<Rightarrow> view" where
  "earning_card w earning_id r back_data =
     Page [Text ''referral.item.info'' [show_int earning_id, show_int (re_referral_id r), esc (pw_name w (re_referral_id r)),
             show_int (re_amount r), pw_date w (re_created_at r), show_int (re_original_amount r)]] (back_button back_data)"

text \<open>The callback is split twice at a colon, as \<open>bought_callback\<close> does it.\<close>

definition earning_detail_handler :: "page_world \<Rightarrow> int \<Rightarrow> string \<Rightarrow> shop \<Rightarrow> view" where
  "earning_detail_handler w user_id cb s =
     (case bought_callback cb of None \<Rightarrow> Answer ''errors.invalid_data''
      | Some (earning_id, back_data) \<Rightarrow>
         (case get_one_referral_earning s earning_id (Some user_id) of None \<Rightarrow> Answer ''errors.invalid_data''
          | Some r \<Rightarrow> earning_card w earning_id r back_data))"

subsection \<open>The own profile\<close>

definition profile_callback_handler ::
    "page_world \<Rightarrow> env \<Rightarrow> int \<Rightarrow> shop \<Rightarrow> (view \<times> shop) result" where
  "profile_callback_handler w e user_id s =
     tx_bind (ensure_user e user_id (pw_user w user_id) s) (\<lambda>(user_info, s1). Inr
       (case user_info of None \<Rightarrow> Answer ''errors.something_wrong''
        | Some u \<Rightarrow>
           (let overall_balance = select_user_operations_total s1 user_id; items = select_user_items s1 user_id;
                cart_count = get_cart_count s1 user_id
            in Page [Text ''profile.caption'' [esc_quotes (pw_first_name w), show_int user_id],
                 Text ''profile.id'' [show_int user_id], Text ''profile.balance'' [format_cents_for_ui (u_balance u)],
                 Text ''profile.total_topup'' [format_cents_for_ui overall_balance],
                 Text ''profile.purchased_count'' [show_int items]]
               (profile_keyboard (env_referral_percent e) items cart_count)), s1))"

definition back_to_menu_callback_handler ::
    "page_world \<Rightarrow> env \<Rightarrow> 32 word \<Rightarrow> int \<Rightarrow> shop \<Rightarrow> (view \<times> shop) result" where
  "back_to_menu_callback_handler w e role user_id s =
     tx_bind (ensure_user e user_id (pw_user w user_id) s) (\<lambda>(_, s1).
       Inr (Page [Text ''menu.title'' []] (main_menu role (pw_channel w)), s1))"

definition rules_callback_handler :: "page_world \<Rightarrow> view" where
  "rules_callback_handler w =
     (if truthy_str (pw_rules w) then Page [Plain (the (pw_rules w))] (back_button ''back_to_menu'') else Answer ''rules.not_set'')"

text \<open>A check that could not be made counts as subscribed.\<close>

definition check_sub_to_channel ::
    "page_world \<Rightarrow> env \<Rightarrow> 32 word \<Rightarrow> int \<Rightarrow> shop \<Rightarrow> (view \<times> shop) result" where
  "check_sub_to_channel w e role user_id s =
     (if truthy_str (pw_channel w) \<and> pw_subscribed w \<noteq> Some False
      then tx_bind (ensure_user e user_id (pw_user w user_id) s) (\<lambda>(_, s1).
             Inr (Page [Text ''menu.title'' []] (main_menu role (pw_channel w)), s1))
      else Inr (Answer ''errors.not_subscribed'', s))"

text \<open>The history of the operations with the arrows that \<open>show_operations_page\<close> computes.\<close>

definition history_lines :: "page_world \<Rightarrow> string option \<times> int \<times> int \<Rightarrow> line list" where
  "history_lines w r = (case fst r of None \<Rightarrow> [] | Some key \<Rightarrow> [Text key [show_int (fst (snd r))]])
     @ [Text ''history.date'' [pw_moment w (snd (snd r))], Plain '''']"

definition history_page :: "page_world \<Rightarrow> (string + (string option \<times> int \<times> int) list \<times> int option \<times> (int \<times> int) option \<times> int option) \<Rightarrow> view" where
  "history_page w r =
     (case r of
        Inl key \<Rightarrow> if key = ''history.empty''
          then Page [Text ''history.title'' [], Plain '''', Text ''history.empty'' []] (back_button ''profile'') else Answer key
      | Inr (rows, prev, label, further) \<Rightarrow>
          Page ([Text ''history.title'' [], Plain ''''] @ concat (map (history_lines w) rows))
            ((case prev of None \<Rightarrow> [] | Some p \<Rightarrow> [(Arrow False, ''ops-page_'' @ show_int p)])
             @ (case label of None \<Rightarrow> [] | Some (page, total_pages) \<Rightarrow> [(PageNumber page total_pages, ''dummy_button'')])
             @ (case further of None \<Rightarrow> [] | Some p \<Rightarrow> [(Arrow True, ''ops-page_'' @ show_int p)])
             @ back_button ''profile''))"

definition operation_history_handler :: "page_world \<Rightarrow> int \<Rightarrow> shop \<Rightarrow> view result" where
  "operation_history_handler w user_id s = tx_bind (show_operations_page s user_id 0) (\<lambda>r. Inr (history_page w r))"

definition operations_pagination :: "page_world \<Rightarrow> int \<Rightarrow> string \<Rightarrow> shop \<Rightarrow> view result" where
  "operations_pagination w user_id cb s =
     (if length (split_on (CHR ''_'') cb) < 2 then Inr (Answer ''errors.pagination_invalid'')
      else tx_bind (navigate_operations s user_id cb) (\<lambda>r. Inr (history_page w r)))"

subsection \<open>Profiles of other users\<close>

definition none_or :: "('a \<Rightarrow> string) \<Rightarrow> 'a option \<Rightarrow> string" where
  "none_or f x = (case x of None \<Rightarrow> ''None'' | Some y \<Rightarrow> f y)"

definition user_profile_lines :: "page_world \<Rightarrow> user \<Rightarrow> string \<Rightarrow> int \<Rightarrow> profile_data \<Rightarrow> bool \<Rightarrow> line list" where
  "user_profile_lines w user first_name target_id agg include_referral_id =
     [Text ''profile.caption'' [esc_quotes first_name, show_int target_id], Plain '''', Text ''profile.id'' [show_int target_id],
      Text ''profile.balance'' [format_cents_for_ui (u_balance user)],
      Text ''profile.total_topup'' [format_cents_for_ui (pd_operations_total agg)],
      Text ''profile.purchased_count'' [show_int (pd_items_count agg)], Plain '''']
     @ (if include_referral_id then [Text ''profile.referral_id'' [none_or show_int (u_referral_id user)]] else [])
     @ [Text ''admin.users.referrals'' [show_int (pd_referrals agg)], Text ''admin.users.role'' [none_or id (pd_role_name agg)],
        Text ''profile.registration_date'' [pw_moment w (u_registration_date user)]]"

text \<open>The buttons of the profile; \<open>caller_perms\<close> is what \<open>check_role_cached\<close> answers for the member of staff.\<close>

definition profile_actions :: "int \<Rightarrow> 32 word \<Rightarrow> profile_data \<Rightarrow> (string \<times> string) list" where
  "profile_actions target_id caller_perms agg =
     (let target = show_int target_id; plain_user = (\<not> is_superadmin_role (pd_role_name agg))
      in (if plain_user then [(''btn.admin.assign_role'', ''asr_list_'' @ target)] else [])
         @ (if caller_perms AND BALANCE_MANAGE \<noteq> 0
            then [(''btn.admin.replenish_user'', ''fill-user-balance_'' @ target),
                  (''btn.admin.deduct_user'', ''deduct-user-balance_'' @ target)] else [])
         @ (if plain_user
            then [if pd_blocked agg then (''btn.admin.unblock'', ''unblock-user_'' @ target)
                  else (''btn.admin.block'', ''block-user_'' @ target)] else [])
         @ (if pd_items_count agg \<noteq> 0 then [(''btn.purchased'', ''user-items_'' @ target)] else [])
         @ (if 0 < pd_referrals agg then [(''admin.users.btn.view_referrals'', ''admin-view-referrals_'' @ target)] else [])
         @ (if 0 < es_count (pd_earnings agg)
            then [(''admin.users.btn.view_earnings'', ''admin-view-earnings_'' @ target)] else [])
         @ [(''btn.back'', ''user_management'')])"

definition build_user_profile :: "page_world \<Rightarrow> int \<Rightarrow> 32 word \<Rightarrow> shop \<Rightarrow> view option" where
  "build_user_profile w target_id caller_perms s =
     (case pw_user w target_id of None \<Rightarrow> None
      | Some user \<Rightarrow>
          (let agg = get_user_profile_aggregates s target_id (u_role_id user)
           in Some (Page (user_profile_lines w user (pw_name w target_id) target_id agg False
                  @ (if pd_blocked agg then [Text ''admin.users.status.blocked'' []] else [])
                  @ (if 0 < es_count (pd_earnings agg) then [Plain '''', stats_line (pd_earnings agg)] else []))
                (simple_buttons (profile_actions target_id caller_perms agg)))))"

text \<open>The profile of the number that was typed; the flag is whether the dialogue still waits for one.\<close>

definition check_user_data :: "page_world \<Rightarrow> 32 word \<Rightarrow> string \<Rightarrow> shop \<Rightarrow> view \<times> bool" where
  "check_user_data w caller_perms words s =
     (case validate_telegram_id (strip words) of
        Inl _ \<Rightarrow> (Page [Text ''admin.users.invalid_id'' []] (back_button ''console''), True)
      | Inr target_id \<Rightarrow>
          (case build_user_profile w target_id caller_perms s of
             None \<Rightarrow> (Page [Text ''admin.users.profile_unavailable'' []] (back_button ''console''), True)
           | Some v \<Rightarrow> (v, False)))"

definition user_profile_view :: "page_world \<Rightarrow> 32 word \<Rightarrow> string \<Rightarrow> shop \<Rightarrow> view" where
  "user_profile_view w caller_perms cb s =
     (case parse_after 11 cb of None \<Rightarrow> Answer ''errors.invalid_data''
      | Some target_id \<Rightarrow>
          (case build_user_profile w target_id caller_perms s of None \<Rightarrow> Answer ''admin.users.not_found'' | Some v \<Rightarrow> v))"

text \<open>\<open>show-user_user-\<close> and the number: what follows the first hyphen behind the prefix.\<close>

definition show_user_info :: "page_world \<Rightarrow> string \<Rightarrow> shop \<Rightarrow> view" where
  "show_user_info w cb s =
     (let rest = dropWhile (\<lambda>c. c \<noteq> CHR ''-'') (drop 10 cb)
      in case (if rest = [] then Inl (ValueError ''split'') else parse_int (drop 1 rest)) of
           Inl _ \<Rightarrow> Answer ''errors.invalid_data''
         | Inr user_id \<Rightarrow>
             (case pw_user w user_id of None \<Rightarrow> Answer ''admin.users.not_found''
              | Some user \<Rightarrow>
                  Page (user_profile_lines w user (pw_name w user_id) user_id
                         (get_user_profile_aggregates s user_id (u_role_id user)) True)
                       (back_button ''users_list'')))"

subsection \<open>Lists of other users\<close>

definition show_users_page :: "int \<Rightarrow> shop \<Rightarrow> view result" where
  "show_users_page page s =
     list_page [Text ''admin.shop.users.title'' []] (query_all_users s) (count_all_users s) page (new_paginator 10)
       Person (\<lambda>user_id. ''show-user_user-'' @ show_int user_id) ''shop_management'' ''users-page_''"

definition navigate_users :: "string \<Rightarrow> shop \<Rightarrow> view result" where
  "navigate_users cb s = show_users_page (case nth_number 1 cb of None \<Rightarrow> 0 | Some page \<Rightarrow> page) s"

text \<open>The line with the link to the user.\<close>

definition user_link :: "page_world \<Rightarrow> int \<Rightarrow> line" where
  "user_link w user_id = Text ''tg://user'' [show_int user_id, esc_quotes (pw_name w user_id), show_int user_id]"

definition show_referrals_page :: "page_world \<Rightarrow> int \<Rightarrow> int \<Rightarrow> shop \<Rightarrow> view result" where
  "show_referrals_page w user_id page s =
     first_or_page [Text ''referrals.list.empty'' []] [Text ''referrals.list.title'' [], user_link w user_id]
       (query_user_referrals s user_id) (count_user_referrals s user_id) page invited_label
       (\<lambda>r. ''admin-ref-earnings_'' @ show_int user_id @ CHR ''_'' # show_int (fst r))
       (''check-user_'' @ show_int user_id) (''admin-refs-page_'' @ show_int user_id @ ''_'')"

definition admin_view_referrals_handler :: "page_world \<Rightarrow> string \<Rightarrow> shop \<Rightarrow> view result" where
  "admin_view_referrals_handler w cb s =
     (case last_number cb of None \<Rightarrow> Inr (Answer ''errors.invalid_data'') | Some user_id \<Rightarrow> show_referrals_page w user_id 0 s)"

definition admin_referrals_pagination_handler :: "page_world \<Rightarrow> string \<Rightarrow> shop \<Rightarrow> view result" where
  "admin_referrals_pagination_handler w cb s =
     (case (nth_number 1 cb, nth_number 2 cb) of (Some user_id, Some page) \<Rightarrow> show_referrals_page w user_id page s
      | _ \<Rightarrow> Inr (Answer ''errors.pagination_invalid''))"

definition show_admin_ref_earnings_page :: "page_world \<Rightarrow> int \<Rightarrow> int \<Rightarrow> int \<Rightarrow> shop \<Rightarrow> view result" where
  "show_admin_ref_earnings_page w user_id referral_id page s =
     (let name = esc_quotes (pw_name w referral_id); pair = show_int user_id @ CHR ''_'' # show_int referral_id
      in first_or_page [Text ''referral.earnings.empty'' [show_int referral_id, name]]
           [Text ''referral.earnings.title'' [show_int referral_id, name]]
           (query_referral_earnings_from_user s user_id referral_id) (count_referral_earnings_from_user s user_id referral_id) page
           Earning (\<lambda>r. ''admin-earning-detail:'' @ show_int (re_id r) @ '':admin-ref-earnings_'' @ pair)
           (''admin-view-referrals_'' @ show_int user_id) (''admin-refearn_'' @ pair @ ''_''))"

definition admin_referral_earnings_handler :: "page_world \<Rightarrow> string \<Rightarrow> shop \<Rightarrow> view result" where
  "admin_referral_earnings_handler w cb s =
     (case (nth_number 1 cb, nth_number 2 cb) of
        (Some user_id, Some referral_id) \<Rightarrow> show_admin_ref_earnings_page w user_id referral_id 0 s
      | _ \<Rightarrow> Inr (Answer ''errors.invalid_data''))"

definition admin_ref_earnings_pagination_handler :: "page_world \<Rightarrow> string \<Rightarrow> shop \<Rightarrow> view result" where
  "admin_ref_earnings_pagination_handler w cb s =
     (case (length (split_on (CHR ''_'') cb) = 4, nth_number 1 cb, nth_number 2 cb, nth_number 3 cb) of
        (True, Some user_id, Some referral_id, Some page) \<Rightarrow> show_admin_ref_earnings_page w user_id referral_id page s
      | _ \<Rightarrow> Inr (Answer ''errors.pagination_invalid''))"

definition show_all_earnings_page :: "page_world \<Rightarrow> int \<Rightarrow> int \<Rightarrow> shop \<Rightarrow> view result" where
  "show_all_earnings_page w user_id page s =
     (let detail_back = (if page = 0 then ''admin-view-earnings_'' @ show_int user_id
                         else ''admin-all-earn_'' @ show_int user_id @ ''_page_'' @ show_int page)
      in first_or_page [Text ''all.earnings.empty'' []] [Text ''all.earnings.title'' [], user_link w user_id]
           (query_all_referral_earnings s user_id) (count_all_referral_earnings s user_id) page Earning
           (\<lambda>r. ''admin-earning-detail:'' @ show_int (re_id r) @ CHR '':'' # detail_back)
           (''check-user_'' @ show_int user_id) (''admin-all-earn_'' @ show_int user_id @ ''_page_''))"

definition admin_view_all_earnings_handler :: "page_world \<Rightarrow> string \<Rightarrow> shop \<Rightarrow> view result" where
  "admin_view_all_earnings_handler w cb s =
     (case last_number cb of None \<Rightarrow> Inr (Answer ''errors.invalid_data'') | Some user_id \<Rightarrow> show_all_earnings_page w user_id 0 s)"

definition admin_all_earnings_pagination_handler :: "page_world \<Rightarrow> string \<Rightarrow> shop \<Rightarrow> view result" where
  "admin_all_earnings_pagination_handler w cb s =
     (case (nth_number 1 cb, nth_number 3 cb) of (Some user_id, Some page) \<Rightarrow> show_all_earnings_page w user_id page s
      | _ \<Rightarrow> Inr (Answer ''errors.pagination_invalid''))"

definition admin_earning_detail_handler :: "page_world \<Rightarrow> string \<Rightarrow> shop \<Rightarrow> view" where
  "admin_earning_detail_handler w cb s =
     (case bought_callback cb of None \<Rightarrow> Answer ''errors.invalid_data''
      | Some (earning_id, back_data) \<Rightarrow>
         (case get_one_referral_earning s earning_id None of None \<Rightarrow> Answer ''errors.invalid_data''
          | Some r \<Rightarrow> Page [Text ''referral.item.info'' [show_int earning_id, show_int (re_referral_id r),
                 esc_quotes (pw_name w (re_referral_id r)), show_int (re_amount r), pw_date w (re_created_at r),
                 show_int (re_original_amount r)]] (back_button back_data)))"

definition user_items_callback_handler :: "string \<Rightarrow> shop \<Rightarrow> view result" where
  "user_items_callback_handler cb s =
     (case parse_after 11 cb of None \<Rightarrow> Inr (Answer ''errors.invalid_data'')
      | Some user_id \<Rightarrow>
          list_page [Text ''purchases.title'' []] (query_user_bought_items s user_id) (count_user_bought_items s user_id) 0
            (new_paginator 10) Purchased
            (\<lambda>b. ''bought-item:'' @ show_int (bg_id b) @ '':bought-goods-page_'' @ show_int user_id @ ''_0'')
            (''check-user_'' @ show_int user_id) (''bought-goods-page_'' @ show_int user_id @ ''_''))"

subsection \<open>Which handler is reached\<close>

datatype page_event = Said_number string | Tapped string

text \<open>
  The buttons of everybody, then those that ask for a permission.  The flag is the state
  \<open>waiting_user_id_for_check\<close>; the shop changes only when a newcomer is registered.
\<close>

type_synonym page_turn = "(view \<times> bool \<times> shop) result"

definition keeping :: "bool \<Rightarrow> shop \<Rightarrow> view result \<Rightarrow> page_turn" where
  "keeping waiting s v = tx_bind v (\<lambda>x. Inr (x, waiting, s))"

definition with_shop :: "bool \<Rightarrow> (view \<times> shop) result \<Rightarrow> page_turn" where
  "with_shop waiting v = tx_bind v (\<lambda>(x, s1).
     Inr (x, (case x of Answer _ \<Rightarrow> waiting | _ \<Rightarrow> False), s1))"

definition own_tapped :: "page_world \<Rightarrow> env \<Rightarrow> 32 word \<Rightarrow> int \<Rightarrow> string \<Rightarrow> bool \<Rightarrow> shop \<Rightarrow> page_turn" where
  "own_tapped w e perms caller cb waiting s =
     (if cb = ''referral_system'' then keeping False s (Inr (referral_callback_handler w (env_referral_percent e) caller s))
      else if cb = ''view_referrals'' then keeping waiting s (view_referrals_handler caller s)
      else if starts_with ''referrals_page_'' cb then keeping waiting s (referrals_pagination_handler caller cb s)
      else if starts_with ''referral_earnings_'' cb then keeping waiting s (referral_earnings_handler w caller cb s)
      else if starts_with ''ref-earn_'' cb then keeping waiting s (referral_earnings_pagination_handler w caller cb s)
      else if cb = ''view_all_earnings'' then keeping waiting s (view_all_earnings_handler caller s)
      else if starts_with ''all_earnings_page_'' cb then keeping waiting s (all_earnings_pagination_handler caller cb s)
      else if starts_with ''earning_detail:'' cb then with_shop waiting (Inr (earning_detail_handler w caller cb s, s))
      else if cb = ''profile'' then with_shop waiting (profile_callback_handler w e caller s)
      else if cb = ''back_to_menu'' then with_shop waiting (back_to_menu_callback_handler w e perms caller s)
      else if cb = ''rules'' then keeping False s (Inr (rules_callback_handler w))
      else if cb = ''sub_channel_done'' then with_shop waiting (check_sub_to_channel w e perms caller s)
      else if cb = ''operation_history'' then keeping waiting s (operation_history_handler w caller s)
      else if starts_with ''ops-page_'' cb then keeping waiting s (operations_pagination w caller cb s)
      else if cb = ''bought_items'' then keeping waiting s (tx_bind (bought_items_callback_handler s caller) (\<lambda>v. Inr (Shown v)))
      else if starts_with ''bought-goods-page_'' cb
      then keeping waiting s (tx_bind (navigate_bought_items perms cb caller s) (\<lambda>v. Inr (Shown v)))
      else if starts_with ''bought-item:'' cb
      then keeping waiting s (Inr (Shown (bought_item_info_callback_handler perms cb caller s)))
      else if cb = ''console'' then keeping False s (Inr (console_callback_handler w perms))
      else if cb = ''shop_management'' \<and> perms AND (CATALOG_MANAGE OR STATS_VIEW) \<noteq> 0
      then keeping waiting s (Inr (shop_callback_handler perms))
      else Inr (Unanswered, waiting, s))"

definition users_tapped :: "page_world \<Rightarrow> 32 word \<Rightarrow> string \<Rightarrow> bool \<Rightarrow> shop \<Rightarrow> page_turn" where
  "users_tapped w perms cb waiting s =
     (if cb = ''user_management'' then Inr (Page [Text ''admin.users.prompt_enter_id'' []] (back_button ''console''), True, s)
      else if starts_with ''check-user_'' cb then keeping waiting s (Inr (user_profile_view w perms cb s))
      else if starts_with ''admin-view-referrals_'' cb then keeping waiting s (admin_view_referrals_handler w cb s)
      else if starts_with ''admin-refs-page_'' cb then keeping waiting s (admin_referrals_pagination_handler w cb s)
      else if starts_with ''admin-ref-earnings_'' cb then keeping waiting s (admin_referral_earnings_handler w cb s)
      else if starts_with ''admin-refearn_'' cb then keeping waiting s (admin_ref_earnings_pagination_handler w cb s)
      else if starts_with ''admin-view-earnings_'' cb then keeping waiting s (admin_view_all_earnings_handler w cb s)
      else if starts_with ''admin-all-earn_'' cb then keeping waiting s (admin_all_earnings_pagination_handler w cb s)
      else if starts_with ''admin-earning-detail:'' cb then keeping waiting s (Inr (admin_earning_detail_handler w cb s))
      else if starts_with ''user-items_'' cb then keeping waiting s (user_items_callback_handler cb s)
      else if cb = ''users_list'' then keeping waiting s (show_users_page 0 s)
      else if starts_with ''users-page_'' cb then keeping waiting s (navigate_users cb s)
      else if starts_with ''show-user_'' cb then keeping waiting s (Inr (show_user_info w cb s))
      else Inr (Unanswered, waiting, s))"

definition page_tapped :: "page_world \<Rightarrow> env \<Rightarrow> 32 word \<Rightarrow> int \<Rightarrow> string \<Rightarrow> bool \<Rightarrow> shop \<Rightarrow> page_turn" where
  "page_tapped w e perms caller cb waiting s =
     (case own_tapped w e perms caller cb waiting s of
        Inr (Unanswered, _, _) \<Rightarrow>
          if granted perms USERS_MANAGE then users_tapped w perms cb waiting s else Inr (Unanswered, waiting, s)
      | t \<Rightarrow> t)"

definition page_turn :: "page_world \<Rightarrow> env \<Rightarrow> 32 word \<Rightarrow> int \<Rightarrow> page_event \<Rightarrow> bool \<Rightarrow> shop \<Rightarrow> page_turn" where
  "page_turn w e perms caller ev waiting s =
     (case ev of
        Tapped cb \<Rightarrow> page_tapped w e perms caller cb waiting s
      | Said_number words \<Rightarrow>
          if waiting then (let (v, waiting1) = check_user_data w perms words s in Inr (v, waiting1, s))
          else Inr (Unanswered, waiting, s))"

text \<open>What one user gets to see; an exception shows nothing and changes nothing.\<close>

fun pages_seen :: "page_world \<Rightarrow> env \<Rightarrow> int \<Rightarrow> (32 word \<times> page_event) list \<Rightarrow> bool \<Rightarrow> shop \<Rightarrow> view result list" where
  "pages_seen w e caller [] waiting s = []"
| "pages_seen w e caller ((perms, ev) # evs) waiting s =
     (case page_turn w e perms caller ev waiting s of
        Inl err \<Rightarrow> Inl err # pages_seen w e caller evs waiting s
      | Inr (v, waiting1, s1) \<Rightarrow> Inr v # pages_seen w e caller evs waiting1 s1)"

subsection \<open>Nobody sees the data of others\<close>

text \<open>
  Two shops that agree on what belongs to a user: earnings, invited users (their ids and dates, not their
  balances), purchases, operations and cart.
\<close>

text \<open>The counts of the own lists that the count cache holds.\<close>

definition own_count_key :: "int \<Rightarrow> string \<Rightarrow> bool" where
  "own_count_key user_id key \<longleftrightarrow>
     key \<in> set (map (\<lambda>p. p @ show_int user_id) [''count:refs:'', ''count:earn:'', ''count:ops:'', ''count:bought:'']) \<or>
     starts_with (''count:earn:'' @ show_int user_id @ '':'') key"

definition own_counts_held :: "int \<Rightarrow> shop \<Rightarrow> (string \<times> int) list" where
  "own_counts_held user_id s = (case t_counts s of None \<Rightarrow> [] | Some m \<Rightarrow> filter (\<lambda>(key, _). own_count_key user_id key) m)"

definition same_to :: "int \<Rightarrow> shop \<Rightarrow> shop \<Rightarrow> bool" where
  "same_to user_id s s' \<longleftrightarrow> earnings_of s' user_id = earnings_of s user_id \<and>
     map (\<lambda>u. (u_id u, u_registration_date u)) (referrals_of s' user_id) = map (\<lambda>u. (u_id u, u_registration_date u)) (referrals_of s user_id) \<and>
     filter (\<lambda>b. bg_buyer_id b = Some user_id) (t_bought s') = filter (\<lambda>b. bg_buyer_id b = Some user_id) (t_bought s) \<and>
     filter (\<lambda>x. op_user_id x = Some user_id) (t_operations s') = filter (\<lambda>x. op_user_id x = Some user_id) (t_operations s) \<and>
     filter (\<lambda>c. ci_user_id c = user_id) (t_cart s') = filter (\<lambda>c. ci_user_id c = user_id) (t_cart s) \<and>
     own_counts_held user_id s' = own_counts_held user_id s"

lemma cached_count_own:
  assumes "same_to user_id s s'" "own_count_key user_id key"
  shows "fst (cached_count key n s') = fst (cached_count key n s)"
proof -
  have "map_of m key = map_of (filter (\<lambda>(k, _). own_count_key user_id k) m) key" for m :: "(string \<times> int) list"
    using assms(2) by (induction m) auto
  then have "fst (cached_count key n x) = (case map_of (own_counts_held user_id x) key of None \<Rightarrow> n | Some k \<Rightarrow> k)" for x
    by (auto simp: cached_count_def own_counts_held_def split: option.split)
  then show ?thesis using assms(1) by (simp add: same_to_def)
qed

lemma own_key:
  "own_count_key user_id (''count:refs:'' @ show_int user_id)" "own_count_key user_id (''count:earn:'' @ show_int user_id)"
  "own_count_key user_id (''count:ops:'' @ show_int user_id)" "own_count_key user_id (''count:bought:'' @ show_int user_id)"
  "own_count_key user_id (''count:earn:'' @ show_int user_id @ CHR '':'' # show_int r)"
  by (simp_all add: own_count_key_def starts_with_def)

lemmas own_cached = own_key [THEN cached_count_own [rotated], simplified]

lemma find_in_filter: "List.find (\<lambda>x. P x \<and> Q x) xs = List.find P (filter Q xs)"
  by (induction xs) auto

lemma own_counts:
  assumes "same_to user_id s s'"
  shows "check_user_referrals s' user_id = check_user_referrals s user_id"
    "count_user_referrals s' user_id = count_user_referrals s user_id"
    "get_referral_earnings_stats s' user_id = get_referral_earnings_stats s user_id"
    "count_all_referral_earnings s' user_id = count_all_referral_earnings s user_id"
    "select_user_items s' user_id = select_user_items s user_id"
    "get_cart_count s' user_id = get_cart_count s user_id"
    "select_user_operations_total s' user_id = select_user_operations_total s user_id"
proof -
  have "length (referrals_of s' user_id) = length (referrals_of s user_id)"
    using assms unfolding same_to_def by (metis length_map)
  then show "check_user_referrals s' user_id = check_user_referrals s user_id"
    "count_user_referrals s' user_id = count_user_referrals s user_id"
    by (simp_all add: check_user_referrals_def count_user_referrals_def count_rows_def referrals_of_def own_cached [OF assms])
qed (use assms in \<open>simp_all add: same_to_def get_referral_earnings_stats_def earnings_of_def Let_def count_all_referral_earnings_def
      select_user_items_def get_cart_count_def select_user_operations_total_def own_cached [OF assms]\<close>)

lemma own_earnings_from:
  assumes "same_to user_id s s'"
  shows "earnings_from s' user_id r = earnings_from s user_id r" "earned_from s' user_id r = earned_from s user_id r"
proof -
  have rows: "earnings_from x user_id r = filter (\<lambda>e. re_referral_id e = r) (earnings_of x user_id)" for x
    by (simp add: earnings_from_def earnings_of_def conj_commute)
  then show eq: "earnings_from s' user_id r = earnings_from s user_id r" using assms by (simp add: same_to_def)
  have "earned_from x user_id r = sum_list (map re_amount (earnings_from x user_id r))" for x
    by (simp add: earned_from_def earnings_from_def)
  then show "earned_from s' user_id r = earned_from s user_id r" by (simp add: eq)
qed

lemma own_lists:
  assumes "same_to user_id s s'"
  shows "query_user_referrals s' user_id = query_user_referrals s user_id"
    "query_all_referral_earnings s' user_id = query_all_referral_earnings s user_id"
    "query_referral_earnings_from_user s' user_id r = query_referral_earnings_from_user s user_id r"
    "count_referral_earnings_from_user s' user_id r = count_referral_earnings_from_user s user_id r"
    "bought_of s' user_id = bought_of s user_id"
    "get_one_referral_earning s' k (Some user_id) = get_one_referral_earning s k (Some user_id)"
    "get_bought_item_info s' k (Some user_id) = get_bought_item_info s k (Some user_id)"
proof -
  have pairs: "map (\<lambda>u. (u_id u, u_registration_date u, h (u_id u))) us =
      map (\<lambda>(a, b). (a, b, h a)) (map (\<lambda>u. (u_id u, u_registration_date u)) us)" for h :: "int \<Rightarrow> int" and us
    by simp
  have refs: "map (\<lambda>u. (u_id u, u_registration_date u)) (referrals_of s' user_id) = map (\<lambda>u. (u_id u, u_registration_date u)) (referrals_of s user_id)"
    using assms by (simp add: same_to_def)
  have "map (\<lambda>u. (u_id u, u_registration_date u, earned_from s' user_id (u_id u))) (referrals_of s' user_id) =
      map (\<lambda>u. (u_id u, u_registration_date u, earned_from s user_id (u_id u))) (referrals_of s user_id)"
    unfolding own_earnings_from(2) [OF assms] pairs [of "earned_from s user_id"] refs ..
  then show "query_user_referrals s' user_id = query_user_referrals s user_id"
    by (intro ext) (simp only: query_user_referrals_def)
  have "get_one_referral_earning x k (Some user_id) = List.find (\<lambda>r. re_id r = k) (earnings_of x user_id)" for x
    by (simp add: get_one_referral_earning_def earnings_of_def find_in_filter)
  then show "get_one_referral_earning s' k (Some user_id) = get_one_referral_earning s k (Some user_id)"
    using assms by (simp add: same_to_def)
  have "get_bought_item_info x k (Some user_id) = List.find (\<lambda>b. bg_id b = k) (filter (\<lambda>b. bg_buyer_id b = Some user_id) (t_bought x))" for x
    by (simp add: get_bought_item_info_def find_in_filter)
  then show "get_bought_item_info s' k (Some user_id) = get_bought_item_info s k (Some user_id)"
    using assms by (simp add: same_to_def)
qed (use assms in \<open>auto simp: fun_eq_iff same_to_def query_all_referral_earnings_def query_referral_earnings_from_user_def
      count_referral_earnings_from_user_def own_earnings_from [OF assms] bought_of_def own_cached [OF assms]\<close>)

lemma own_history:
  assumes "same_to user_id s s'"
  shows "show_operations_page s' user_id page = show_operations_page s user_id page"
proof -
  have tops: "filter (\<lambda>x. op_user_id x = Some user_id \<and> 0 < op_value x) (t_operations x') =
      filter (\<lambda>x. 0 < op_value x) (filter (\<lambda>x. op_user_id x = Some user_id) (t_operations x'))" for x'
    by (simp add: conj_commute)
  have "query_user_operations_history s' user_id = query_user_operations_history s user_id"
    "count_user_operations_history s' user_id = count_user_operations_history s user_id"
    using assms by (auto simp: fun_eq_iff query_user_operations_history_def count_user_operations_history_def history_topups_def
        history_purchases_def history_referrals_def own_lists(5) [OF assms] tops same_to_def own_cached [OF assms] simp del: filter_filter)
  then show ?thesis by (simp add: show_operations_page_def)
qed

lemma own_purchases:
  assumes "same_to user_id s s'"
  shows "bought_page s' user_id page a b = bought_page s user_id page a b"
proof -
  have "query_user_bought_items s' user_id = query_user_bought_items s user_id"
    "count_user_bought_items s' user_id = count_user_bought_items s user_id"
    using assms by (auto simp: fun_eq_iff query_user_bought_items_def count_user_bought_items_def own_lists(5) [OF assms] own_cached [OF assms] same_to_def)
  then show ?thesis by (simp add: bought_page_def)
qed

text \<open>A turn that shows the same on both shops and leaves the user outside the dialogue of the staff.\<close>

definition same_turn :: "shop \<Rightarrow> shop \<Rightarrow> page_turn \<Rightarrow> page_turn \<Rightarrow> bool" where
  "same_turn s s' t t' \<longleftrightarrow> (\<exists>v. t = keeping False s v \<and> t' = keeping False s' v)"

lemma same_turn_intros:
  "same_turn s s' (keeping False s v) (keeping False s' v)"
  "same_turn s s' (with_shop False (Inr (x, s))) (with_shop False (Inr (x, s')))"
  "same_turn s s' (Inr (x, False, s)) (Inr (x, False, s'))"
  "(c \<Longrightarrow> same_turn s s' t t') \<Longrightarrow> (\<not> c \<Longrightarrow> same_turn s s' t1 t1') \<Longrightarrow> same_turn s s' (if c then t else t1) (if c then t' else t1')"
  by (auto simp: same_turn_def keeping_def with_shop_def tx_simps intro: exI [of _ "Inr x"] split: view.split)

lemma known_user: "ensure_user e user_id (Some u) s = Inr (Some u, s)"
  by (simp add: ensure_user_def)

lemma other_world_parts:
  "show_ref_earnings_page (w\<lparr>pw_user := f\<rparr>) = show_ref_earnings_page w" "earning_card (w\<lparr>pw_user := f\<rparr>) = earning_card w"
  "history_page (w\<lparr>pw_user := f\<rparr>) = history_page w"
proof -
  have "history_lines (w\<lparr>pw_user := f\<rparr>) = history_lines w" by (simp add: fun_eq_iff history_lines_def)
  then show "history_page (w\<lparr>pw_user := f\<rparr>) = history_page w" by (intro ext) (simp only: history_page_def)
qed (simp_all add: fun_eq_iff show_ref_earnings_page_def earning_card_def)

lemma other_world:
  "referral_callback_handler (w\<lparr>pw_user := f\<rparr>) p k s = referral_callback_handler w p k s"
  "referral_earnings_handler (w\<lparr>pw_user := f\<rparr>) k cb s = referral_earnings_handler w k cb s"
  "referral_earnings_pagination_handler (w\<lparr>pw_user := f\<rparr>) k cb s = referral_earnings_pagination_handler w k cb s"
  "earning_detail_handler (w\<lparr>pw_user := f\<rparr>) k cb s = earning_detail_handler w k cb s"
  "rules_callback_handler (w\<lparr>pw_user := f\<rparr>) = rules_callback_handler w"
  "operation_history_handler (w\<lparr>pw_user := f\<rparr>) = operation_history_handler w"
  "operations_pagination (w\<lparr>pw_user := f\<rparr>) = operations_pagination w"
  "console_callback_handler (w\<lparr>pw_user := f\<rparr>) = console_callback_handler w"
  by (simp_all add: fun_eq_iff referral_callback_handler_def referral_earnings_handler_def referral_earnings_pagination_handler_def
      earning_detail_handler_def rules_callback_handler_def operation_history_handler_def
      operations_pagination_def console_callback_handler_def other_world_parts
      split: option.split bool.split prod.split sum.split)

lemma own_handlers:
  assumes "same_to k s s'"
  shows "referral_callback_handler w p k s' = referral_callback_handler w p k s"
    "view_referrals_handler k s' = view_referrals_handler k s"
    "referrals_pagination_handler k cb s' = referrals_pagination_handler k cb s"
    "referral_earnings_handler w k cb s' = referral_earnings_handler w k cb s"
    "referral_earnings_pagination_handler w k cb s' = referral_earnings_pagination_handler w k cb s"
    "view_all_earnings_handler k s' = view_all_earnings_handler k s"
    "all_earnings_pagination_handler k cb s' = all_earnings_pagination_handler k cb s"
    "earning_detail_handler w k cb s' = earning_detail_handler w k cb s"
    "operation_history_handler w k s' = operation_history_handler w k s"
    "operations_pagination w k cb s' = operations_pagination w k cb s"
    "bought_items_callback_handler s' k = bought_items_callback_handler s k"
proof -
  note eqs = own_counts [OF assms] own_lists [OF assms] own_history [OF assms] own_purchases [OF assms]
  have "show_ref_earnings_page w k r page s' = show_ref_earnings_page w k r page s" for r page
    by (simp add: show_ref_earnings_page_def eqs)
  then show "referral_earnings_handler w k cb s' = referral_earnings_handler w k cb s"
    "referral_earnings_pagination_handler w k cb s' = referral_earnings_pagination_handler w k cb s"
    by (simp_all add: referral_earnings_handler_def referral_earnings_pagination_handler_def split: option.split bool.split)
qed (simp_all add: own_counts [OF assms] own_lists [OF assms] own_history [OF assms] own_purchases [OF assms]
      referral_callback_handler_def view_referrals_handler_def referrals_pagination_handler_def view_all_earnings_handler_def
      all_earnings_pagination_handler_def earning_detail_handler_def operation_history_handler_def operations_pagination_def
      navigate_operations_def bought_items_callback_handler_def split: option.split sum.split)

lemma own_purchase_screens:
  assumes "same_to k s s'" "\<not> granted perms USERS_MANAGE"
  shows "navigate_bought_items perms cb k s' = navigate_bought_items perms cb k s"
    "bought_item_info_callback_handler perms cb k s' = bought_item_info_callback_handler perms cb k s"
  using assms(2) by (simp_all add: navigate_bought_items_def bought_item_info_callback_handler_def own_purchases [OF assms(1)]
      own_lists [OF assms(1)] Let_def split: option.split)

lemma own_registered:
  assumes same: "same_to k s s'" and known: "pw_user w k = Some u" "f k = Some u"
  shows "same_turn s s' (with_shop False (profile_callback_handler w e k s))
      (with_shop False (profile_callback_handler (w\<lparr>pw_user := f\<rparr>) e k s'))"
    and "same_turn s s' (with_shop False (back_to_menu_callback_handler w e perms k s))
      (with_shop False (back_to_menu_callback_handler (w\<lparr>pw_user := f\<rparr>) e perms k s'))"
    and "same_turn s s' (with_shop False (check_sub_to_channel w e perms k s))
      (with_shop False (check_sub_to_channel (w\<lparr>pw_user := f\<rparr>) e perms k s'))"
  using known by (auto simp: profile_callback_handler_def back_to_menu_callback_handler_def check_sub_to_channel_def known_user
      tx_simps own_counts [OF same] intro: same_turn_intros)

lemma own_screens_same:
  assumes same: "same_to caller s s'" and known: "pw_user w caller = Some u" "f caller = Some u"
    and perms: "\<not> granted perms USERS_MANAGE"
  shows "same_turn s s' (own_tapped w e perms caller cb False s) (own_tapped (w\<lparr>pw_user := f\<rparr>) e perms caller cb False s')"
  unfolding own_tapped_def other_world own_handlers [OF same] own_purchase_screens [OF same perms]
  by (intro same_turn_intros own_registered [where f = f, OF same known])

lemma own_turn_same:
  assumes "same_to caller s s'" "pw_user w caller = Some u" "f caller = Some u" "\<not> granted perms USERS_MANAGE"
  shows "same_turn s s' (page_turn w e perms caller ev False s) (page_turn (w\<lparr>pw_user := f\<rparr>) e perms caller ev False s')"
proof (cases ev)
  case (Said_number words)
  then show ?thesis by (simp add: page_turn_def same_turn_intros)
next
  case (Tapped cb)
  obtain v where "own_tapped w e perms caller cb False s = keeping False s v"
    "own_tapped (w\<lparr>pw_user := f\<rparr>) e perms caller cb False s' = keeping False s' v"
    using own_screens_same [OF assms(1,2), where f = f and e = e and cb = cb, OF assms(3,4)] by (auto simp: same_turn_def)
  then have "page_turn w e perms caller ev False s = keeping False s v"
    "page_turn (w\<lparr>pw_user := f\<rparr>) e perms caller ev False s' = keeping False s' v"
    using Tapped assms(4) by (auto simp: page_turn_def page_tapped_def keeping_def tx_bind_def split: sum.split view.split)
  then show ?thesis by (auto simp: same_turn_def)
qed

text \<open>C37: On the profile, referral, earnings, operation history, purchase, rules and main menu pages
  and the user management pages behind them, a registered user who never holds the permission to
  manage users sees, whatever is typed and pressed (callback data made up included), only what
  depends on the own rows: on two shops and user caches that agree on the own earnings, invited
  users, purchases, operations, cart and cached counts of these, every answer is the same,
  whatever the rows of all others.\<close>
theorem pages_show_own_data:
  assumes "same_to caller s s'" "pw_user w caller = Some u" "f caller = Some u"
    and "\<forall>(perms, ev) \<in> set evs. \<not> granted perms USERS_MANAGE"
  shows "pages_seen (w\<lparr>pw_user := f\<rparr>) e caller evs False s' = pages_seen w e caller evs False s"
  using assms(4)
proof (induction evs)
  case Nil
  then show ?case by simp
next
  case (Cons x evs)
  obtain perms ev where x: "x = (perms, ev)" by force
  obtain v where "page_turn w e perms caller ev False s = keeping False s v"
    "page_turn (w\<lparr>pw_user := f\<rparr>) e perms caller ev False s' = keeping False s' v"
    using own_turn_same [OF assms(1,2), where f = f and perms = perms and e = e and ev = ev, OF assms(3)] Cons.prems x by (auto simp: same_turn_def)
  then show ?case using Cons x by (cases v) (simp_all add: keeping_def tx_bind_def)
qed

subsection \<open>A card and the way back\<close>

lemma split_on_append: "split_on c (xs @ c # ys) = split_on c xs @ split_on c ys"
  by (induction xs) (auto simp: neq_Nil_conv split: list.split)

lemma show_int_plain: "CHR ''_'' \<notin> set (show_int n)" "CHR '':'' \<notin> set (show_int n)"
proof -
  have "list_all (\<lambda>d. digit_char d \<noteq> CHR ''_'') [0..<10]" by code_simp
  then have "CHR ''_'' \<notin> set (show_nat k)" for k
    using show_nat_chars [of "CHR ''_''" k] by (fastforce simp: list_all_iff)
  then show "CHR ''_'' \<notin> set (show_int n)" by (simp add: show_int_def)
  show "CHR '':'' \<notin> set (show_int n)" using show_nat_set by (auto simp: show_int_def)
qed

lemma last_number_show: "last_number (xs @ CHR ''_'' # show_int n) = Some n"
  by (simp add: last_number_def split_on_append split_on_none show_int_plain)

lemma bought_callback_show:
  assumes "CHR '':'' \<notin> set prefix"
  shows "bought_callback (prefix @ CHR '':'' # show_int n @ CHR '':'' # back_data) = Some (n, back_data)"
proof -
  have colon: "\<And>c. c \<in> set (show_int n) \<Longrightarrow> c \<noteq> CHR '':''" using show_int_plain(2) by metis
  have "dropWhile (\<lambda>c. c \<noteq> CHR '':'') (prefix @ CHR '':'' # xs) = CHR '':'' # xs" for xs
    using assms by (subst dropWhile_append2) auto
  moreover have "takeWhile (\<lambda>c. c \<noteq> CHR '':'') (show_int n @ CHR '':'' # xs) = show_int n" for xs
    using colon by (subst takeWhile_append2) auto
  moreover have "dropWhile (\<lambda>c. c \<noteq> CHR '':'') (show_int n @ CHR '':'' # xs) = CHR '':'' # xs" for xs
    using colon by (subst dropWhile_append2) auto
  ultimately show ?thesis by (simp add: bought_callback_def)
qed

lemma list_page_rows:
  assumes "list_page title query counted page p item_text item_callback back_cb prefix = Inr v" "pgn_cache p = []"
  obtains rows nav where "query (page * pgn_per_page p) (pgn_per_page p) = Inr rows"
    "v = Page title (map (\<lambda>r. (item_text r, item_callback r)) rows @ nav_buttons prefix nav @ back_button back_cb)"
proof -
  obtain rows p1 where page: "get_page query page p = Inr (rows, p1)"
    "v = Page title (map (\<lambda>r. (item_text r, item_callback r)) rows @
       nav_buttons prefix (nav_row page (fst (get_total_pages counted p1))) @ back_button back_cb)"
    using assms(1) by (auto simp: list_page_def lazy_paginated_keyboard_def tx_bind_eq_Inr Let_def split_def)
  then have "query (page * pgn_per_page p) (pgn_per_page p) = Inr rows"
    using assms(2) by (simp add: get_page_def tx_bind_eq_Inr Let_def)
  with page(2) show thesis using that by blast
qed

lemma first_or_page_rows:
  assumes "first_or_page nothing title query counted page item_text item_callback back_cb prefix = Inr v"
  obtains "v = Page nothing (back_button back_cb)"
  | rows nav where "query (page * 10) 10 = Inr rows"
    "v = Page title (map (\<lambda>r. (item_text r, item_callback r)) rows @ nav_buttons prefix nav @ back_button back_cb)"
proof -
  have new: "pgn_cache (new_paginator 10) = []" "pgn_per_page (new_paginator 10) = 10"
    "get_total_count counted (new_paginator 10) = (counted, (new_paginator 10)\<lparr>pgn_total := Some counted\<rparr>)"
    by (simp_all add: new_paginator_def get_total_count_def)
  show thesis
    using assms that by (auto simp: first_or_page_def new Let_def split: if_splits elim!: list_page_rows)
qed

text \<open>A button with an earning comes from a row.\<close>

lemma earning_not_elsewhere: "(Earning r, cb) \<notin> set (nav_buttons prefix nav @ back_button back_cb)"
  by (auto simp: nav_buttons_def back_button_def simple_buttons_def split: option.splits prod.splits)

lemma earning_opened:
  assumes "distinct (map re_id (t_earnings s))" "r \<in> set (earnings_of s k)" "CHR '':'' \<notin> set prefix"
  shows "earning_detail_handler w k (prefix @ CHR '':'' # show_int (re_id r) @ CHR '':'' # back_data) s =
     earning_card w (re_id r) r back_data"
proof -
  have "find_by re_id (re_id r) (earnings_of s k) = Some r"
    using assms(1,2) by (auto simp: earnings_of_def distinct_map_filter intro!: find_by_distinct)
  then have "get_one_referral_earning s (re_id r) (Some k) = Some r"
    by (simp add: get_one_referral_earning_def find_in_filter earnings_of_def find_by_def)
  then show ?thesis by (simp add: earning_detail_handler_def bought_callback_show [OF assms(3)])
qed

lemma all_earnings_rows:
  assumes "query_all_referral_earnings s k offset limit = Inr rows" "r \<in> set rows"
  shows "r \<in> set (earnings_of s k)"
  using assms by (auto simp: query_all_referral_earnings_def sql_page_def newest_earnings_def split: if_splits
      dest!: in_set_takeD in_set_dropD)

text \<open>The callback of a button on a page of all earnings, and the page its back button opens.\<close>

lemma all_earnings_button:
  assumes "cb = ''view_all_earnings'' \<and> view_all_earnings_handler k s = Inr (Page ls bs)
      \<or> cb = ''all_earnings_page_'' @ n \<and> all_earnings_pagination_handler k cb s = Inr (Page ls bs)"
    and "(Earning r, cb') \<in> set bs"
  obtains target where "r \<in> set (earnings_of s k)" "cb' = all_earnings_callback target r"
    "target = ''view_all_earnings'' \<and> view_all_earnings_handler k s = Inr (Page ls bs)
      \<or> (\<exists>page. target = ''all_earnings_page_'' @ show_int page \<and> all_earnings_pagination_handler k target s = Inr (Page ls bs))"
  using assms(1)
proof (elim disjE conjE)
  assume h: "view_all_earnings_handler k s = Inr (Page ls bs)"
  then have "r \<in> set (earnings_of s k) \<and> cb' = all_earnings_callback ''view_all_earnings'' r"
    unfolding view_all_earnings_handler_def
    using assms(2) earning_not_elsewhere by (elim first_or_page_rows) (fastforce dest: all_earnings_rows simp: back_button_def simple_buttons_def)+
  with h show thesis using that [of "''view_all_earnings''"] by blast
next
  assume h: "all_earnings_pagination_handler k cb s = Inr (Page ls bs)" and cb: "cb = ''all_earnings_page_'' @ n"
  let ?page = "\<lambda>page. list_page [Text ''all.earnings.title'' []] (query_all_referral_earnings s k)
      (count_all_referral_earnings s k) page (new_paginator 10)
          Earning (all_earnings_callback (''all_earnings_page_'' @ show_int page)) ''referral_system'' ''all_earnings_page_''"
  obtain page where page: "?page page = Inr (Page ls bs)"
    using h by (auto simp: all_earnings_pagination_handler_def split: option.splits)
  then have "r \<in> set (earnings_of s k) \<and> cb' = all_earnings_callback (''all_earnings_page_'' @ show_int page) r"
    using assms(2) earning_not_elsewhere
    by (elim list_page_rows) (auto simp: new_paginator_def dest: all_earnings_rows)
  moreover have "last_number (''all_earnings_page_'' @ show_int page) = Some page"
    using last_number_show [of "''all_earnings_page''" page] by simp
  then have "all_earnings_pagination_handler k (''all_earnings_page_'' @ show_int page) s = Inr (Page ls bs)"
    using page by (simp add: all_earnings_pagination_handler_def)
  ultimately show thesis using that [of "''all_earnings_page_'' @ show_int page"] by blast
qed

lemma own_tapped_earnings:
  "own_tapped w e perms caller ''view_all_earnings'' waiting s = keeping waiting s (view_all_earnings_handler caller s)"
  "own_tapped w e perms caller (''all_earnings_page_'' @ n) waiting s =
     keeping waiting s (all_earnings_pagination_handler caller (''all_earnings_page_'' @ n) s)"
  "own_tapped w e perms caller (all_earnings_callback target r) waiting s =
     with_shop waiting (Inr (earning_detail_handler w caller (all_earnings_callback target r) s, s))"
  by (simp_all add: own_tapped_def starts_with_def all_earnings_callback_def)

lemma keeping_Inr: "keeping waiting s v = Inr (x, waiting', s') \<longleftrightarrow> v = Inr x \<and> waiting' = waiting \<and> s' = s"
  by (auto simp: keeping_def tx_bind_eq_Inr)

text \<open>C38: On a page of all earnings, pressing the button of an earning opens the card of that earning,
  and the back button of the card opens the same page again.\<close>
theorem earning_card_and_back:
  assumes ids: "distinct (map re_id (t_earnings s))"
    and list: "cb = ''view_all_earnings'' \<or> cb = ''all_earnings_page_'' @ n"
    and page: "own_tapped w e perms caller cb waiting s = Inr (Page ls bs, waiting, s)"
    and button: "(Earning r, cb') \<in> set bs"
  shows "\<exists>target. own_tapped w e perms caller cb' waiting s = Inr (earning_card w (re_id r) r target, False, s) \<and>
     own_tapped w e perms caller target False s = Inr (Page ls bs, False, s)"
proof -
  have "cb = ''view_all_earnings'' \<and> view_all_earnings_handler caller s = Inr (Page ls bs)
      \<or> cb = ''all_earnings_page_'' @ n \<and> all_earnings_pagination_handler caller cb s = Inr (Page ls bs)"
    using list page by (elim disjE) (simp_all only: own_tapped_earnings keeping_Inr simp_thms)
  then obtain target where r: "r \<in> set (earnings_of s caller)" "cb' = all_earnings_callback target r"
    and target: "target = ''view_all_earnings'' \<and> view_all_earnings_handler caller s = Inr (Page ls bs)
      \<or> (\<exists>page. target = ''all_earnings_page_'' @ show_int page \<and> all_earnings_pagination_handler caller target s = Inr (Page ls bs))"
    using button by (rule all_earnings_button)
  have "earning_detail_handler w caller cb' s = earning_card w (re_id r) r target"
    using earning_opened [OF ids r(1), of "''earning_detail''" w target] by (simp add: r(2) all_earnings_callback_def)
  then have "own_tapped w e perms caller cb' waiting s = Inr (earning_card w (re_id r) r target, False, s)"
    by (simp add: r(2) own_tapped_earnings with_shop_def tx_simps earning_card_def)
  moreover have "own_tapped w e perms caller target False s = Inr (Page ls bs, False, s)"
    using target by (elim disjE conjE exE) (simp_all only: own_tapped_earnings keeping_Inr simp_thms)
  ultimately show ?thesis by blast
qed

subsection \<open>Menus and filters\<close>

text \<open>The filters in front of the handlers that the menus of the staff lead to.\<close>

definition reaches :: "string \<Rightarrow> 32 word \<Rightarrow> bool" where
  "reaches cb perms \<longleftrightarrow>
     (if cb \<in> {''goods_management'', ''categories_management'', ''show_bought_item''} then granted perms CATALOG_MANAGE
      else if cb = ''shop_management'' then perms AND (CATALOG_MANAGE OR STATS_VIEW) \<noteq> 0
      else if cb = ''promo_mgmt'' then granted perms PROMO_MANAGE
      else if cb = ''support_tickets'' then granted perms TICKETS_MANAGE
      else if cb \<in> {''user_management'', ''users_list''} then granted perms USERS_MANAGE
      else if cb = ''role_mgmt'' then granted perms ADMINS_MANAGE
      else if cb = ''send_message'' then granted perms BROADCAST
      else if cb = ''toggle_maintenance'' then granted perms SETTINGS_MANAGE
      else if cb \<in> {''statistics'', ''show_logs''} then granted perms STATS_VIEW
      else if starts_with ''asr_list_'' cb then granted perms ADMINS_MANAGE
      else True)"

lemma one_bit:
  fixes perms :: "32 word"
  assumes "n < 32"
  shows "perms AND push_bit n 1 \<noteq> 0 \<longleftrightarrow> granted perms (push_bit n 1)"
proof -
  have "perms AND push_bit n 1 = (if bit perms n then push_bit n 1 else 0)"
    by (rule bit_word_eqI) (auto simp: bit_simps)
  moreover have "push_bit n 1 \<noteq> (0 :: 32 word)" using assms by (simp add: push_bit_eq_mult)
  ultimately show ?thesis by (simp add: granted_def)
qed

lemma menu_bits:
  "perms AND CATALOG_MANAGE \<noteq> 0 \<longleftrightarrow> granted perms CATALOG_MANAGE" "perms AND PROMO_MANAGE \<noteq> 0 \<longleftrightarrow> granted perms PROMO_MANAGE"
  "perms AND TICKETS_MANAGE \<noteq> 0 \<longleftrightarrow> granted perms TICKETS_MANAGE" "perms AND USERS_MANAGE \<noteq> 0 \<longleftrightarrow> granted perms USERS_MANAGE"
  "perms AND ADMINS_MANAGE \<noteq> 0 \<longleftrightarrow> granted perms ADMINS_MANAGE" "perms AND BROADCAST \<noteq> 0 \<longleftrightarrow> granted perms BROADCAST"
  "perms AND SETTINGS_MANAGE \<noteq> 0 \<longleftrightarrow> granted perms SETTINGS_MANAGE" "perms AND STATS_VIEW \<noteq> 0 \<longleftrightarrow> granted perms STATS_VIEW"
  unfolding CATALOG_MANAGE_def PROMO_MANAGE_def TICKETS_MANAGE_def USERS_MANAGE_def ADMINS_MANAGE_def BROADCAST_def
    SETTINGS_MANAGE_def STATS_VIEW_def by (rule one_bit, simp)+

text \<open>The console offers exactly what the filters let through.\<close>

lemma offered_simps:
  "cb \<in> set (map snd (simple_buttons bs)) \<longleftrightarrow> cb \<in> set (map snd bs)"
  "map snd (if c then bs else []) = (if c then map snd bs else [])"
  "cb \<in> set (if c then cbs else []) \<longleftrightarrow> c \<and> cb \<in> set cbs"
  by (auto simp: simple_buttons_def image_iff split_def)

lemma console_matches_filters:
  assumes "cb \<in> set [''shop_management'', ''goods_management'', ''categories_management'', ''promo_mgmt'', ''support_tickets'',
       ''user_management'', ''role_mgmt'', ''send_message'', ''toggle_maintenance'']"
  shows "cb \<in> set (map snd (admin_console_keyboard maintenance perms)) \<longleftrightarrow> reaches cb perms"
proof -
  have "cb \<in> set (map snd (admin_console_keyboard maintenance perms)) \<longleftrightarrow>
     perms AND (CATALOG_MANAGE OR STATS_VIEW) \<noteq> 0 \<and> cb = ''shop_management''
     \<or> granted perms CATALOG_MANAGE \<and> (cb = ''goods_management'' \<or> cb = ''categories_management'')
     \<or> granted perms PROMO_MANAGE \<and> cb = ''promo_mgmt'' \<or> granted perms TICKETS_MANAGE \<and> cb = ''support_tickets''
     \<or> granted perms USERS_MANAGE \<and> cb = ''user_management'' \<or> granted perms ADMINS_MANAGE \<and> cb = ''role_mgmt''
     \<or> granted perms BROADCAST \<and> cb = ''send_message'' \<or> granted perms SETTINGS_MANAGE \<and> cb = ''toggle_maintenance''
     \<or> cb = ''back_to_menu''"
    unfolding admin_console_keyboard_def menu_bits offered_simps map_append set_append Un_iff
    by (simp only: list.map snd_conv list.set insert_iff empty_iff simp_thms)
  with assms show ?thesis
    by (simp only: list.set insert_iff empty_iff simp_thms, elim disjE) (simp_all add: reaches_def)
qed

subsection \<open>Witnesses and surprises\<close>

definition sample_earning :: "int \<Rightarrow> int \<Rightarrow> int \<Rightarrow> referral_earning" where
  "sample_earning k referrer amount = \<lparr>re_id = k, re_referrer_id = referrer, re_referral_id = 1,
     re_amount = amount, re_original_amount = 10 * amount, re_order_id = Some k, re_created_at = k\<rparr>"

definition sample_pages :: shop where
  "sample_pages = sample_shop\<lparr>t_earnings := [sample_earning 31 2 250, sample_earning 32 3 90, sample_earning 33 2 40]\<rparr>"

definition sample_page_world :: page_world where
  "sample_page_world = \<lparr>pw_name = show_int, pw_date = show_int, pw_moment = show_int, pw_user = get_user sample_pages,
     pw_bot = ''bot'', pw_channel = None, pw_subscribed = None, pw_rules = None, pw_maintenance = False, pw_first_name = ''a''\<rparr>"

text \<open>Who may only manage users is offered the list of all users in a menu that does not open for him.\<close>

lemma users_menu_is_closed:
  "page_tapped w e USERS_MANAGE k ''shop_management'' waiting s = Inr (Unanswered, waiting, s)"
  "(Key ''admin.shop.menu.users'', ''users_list'') \<in> set (case shop_callback_handler USERS_MANAGE of Page _ bs \<Rightarrow> bs | _ \<Rightarrow> [])"
proof -
  have bits: "USERS_MANAGE AND (CATALOG_MANAGE OR STATS_VIEW) = 0" "USERS_MANAGE AND USERS_MANAGE \<noteq> 0" by code_simp+
  show "page_tapped w e USERS_MANAGE k ''shop_management'' waiting s = Inr (Unanswered, waiting, s)"
    by (simp add: page_tapped_def own_tapped_def users_tapped_def starts_with_def bits)
  show "(Key ''admin.shop.menu.users'', ''users_list'') \<in> set (case shop_callback_handler USERS_MANAGE of Page _ bs \<Rightarrow> bs | _ \<Rightarrow> [])"
    by code_simp
qed

text \<open>The profile offers to assign a role also to who may not.\<close>

lemma assign_button_without_permission:
  "(''btn.admin.assign_role'', ''asr_list_2'') \<in> set (profile_actions 2 USERS_MANAGE (get_user_profile_aggregates sample_pages 2 None))"
  "\<not> reaches ''asr_list_2'' USERS_MANAGE"
  by code_simp+

text \<open>The number typed into an open dialogue is answered without asking for the permission again.\<close>

lemma demoted_manager_sees_profile:
  "pages_seen sample_page_world sample_env 9 [(USERS_MANAGE, Tapped ''user_management''), (USE, Said_number ''2'')] False sample_pages ! 1
     = Inr (the (build_user_profile sample_page_world 2 USE sample_pages))"
  by code_simp

lemma pages_show_own_data_witness:
  "pages_seen (sample_page_world\<lparr>pw_user := \<lambda>k. if k = 2 then get_user sample_pages 2 else None\<rparr>) sample_env 2
     [(USE, Tapped ''referral_system''), (USE, Tapped ''earning_detail:32:view_all_earnings''), (USE, Tapped ''admin-view-earnings_3''),
      (USE, Tapped ''profile''), (STATS_VIEW, Said_number ''3'')] False
     (sample_pages\<lparr>t_earnings := [sample_earning 31 2 250, sample_earning 33 2 40], t_users := [sample_user 1 7 (Some 2)]\<rparr>) =
   pages_seen sample_page_world sample_env 2
     [(USE, Tapped ''referral_system''), (USE, Tapped ''earning_detail:32:view_all_earnings''), (USE, Tapped ''admin-view-earnings_3''),
      (USE, Tapped ''profile''), (STATS_VIEW, Said_number ''3'')] False sample_pages"
proof (rule pages_show_own_data)
  show "same_to 2 sample_pages (sample_pages\<lparr>t_earnings := [sample_earning 31 2 250, sample_earning 33 2 40],
      t_users := [sample_user 1 7 (Some 2)]\<rparr>)" by code_simp
  show "pw_user sample_page_world 2 = Some (sample_user 2 0 None)" by code_simp
  show "(if (2 :: int) = 2 then get_user sample_pages 2 else None) = Some (sample_user 2 0 None)" by code_simp
  have "\<not> granted USE USERS_MANAGE" "\<not> granted STATS_VIEW USERS_MANAGE" by code_simp+
  then show "\<forall>(perms, ev) \<in> set [(USE, Tapped ''referral_system''), (USE, Tapped ''earning_detail:32:view_all_earnings''),
      (USE, Tapped ''admin-view-earnings_3''), (USE, Tapped ''profile''), (STATS_VIEW, Said_number ''3'')].
      \<not> granted perms USERS_MANAGE" by simp
qed

lemma earning_card_and_back_witness:
  "\<exists>target ls bs. own_tapped sample_page_world sample_env USE 2 ''earning_detail:31:all_earnings_page_0'' True sample_pages =
       Inr (earning_card sample_page_world 31 (sample_earning 31 2 250) target, False, sample_pages) \<and>
     own_tapped sample_page_world sample_env USE 2 target False sample_pages = Inr (Page ls bs, False, sample_pages)"
proof -
  let ?bs = "[(Earning (sample_earning 33 2 40), ''earning_detail:33:all_earnings_page_0''),
      (Earning (sample_earning 31 2 250), ''earning_detail:31:all_earnings_page_0''), (Key ''btn.back'', ''referral_system'')]"
  have id: "re_id (sample_earning 31 2 250) = 31" by (simp add: sample_earning_def)
  have "\<exists>target. own_tapped sample_page_world sample_env USE 2 ''earning_detail:31:all_earnings_page_0'' True sample_pages =
       Inr (earning_card sample_page_world (re_id (sample_earning 31 2 250)) (sample_earning 31 2 250) target, False, sample_pages) \<and>
     own_tapped sample_page_world sample_env USE 2 target False sample_pages =
       Inr (Page [Text ''all.earnings.title'' []] ?bs, False, sample_pages)"
  proof (rule earning_card_and_back)
    show "distinct (map re_id (t_earnings sample_pages))" by code_simp
    show "''all_earnings_page_0'' = ''view_all_earnings'' \<or> ''all_earnings_page_0'' = ''all_earnings_page_'' @ ''0''" by simp
    show "own_tapped sample_page_world sample_env USE 2 ''all_earnings_page_0'' True sample_pages =
        Inr (Page [Text ''all.earnings.title'' []] ?bs, True, sample_pages)"
    proof -
      have "all_earnings_pagination_handler 2 ''all_earnings_page_0'' sample_pages = Inr (Page [Text ''all.earnings.title'' []] ?bs)"
        by code_simp
      then show ?thesis by (simp add: own_tapped_def starts_with_def keeping_def tx_simps)
    qed
    show "(Earning (sample_earning 31 2 250), ''earning_detail:31:all_earnings_page_0'') \<in> set ?bs" by simp
  qed
  then show ?thesis unfolding id by blast
qed

end
