(* ===== verification/Spec2Isabelle.thy ===== *)
theory Spec2Isabelle
  imports Books Redis_Limit Listing Cache Stats Panel Broadcast Storefront Staff Pages
begin

text \<open>
  A model of the Telegram shop: a bot (\<open>bot/handlers\<close>), a web panel (\<open>bot/web\<close>) and background loops
  (\<open>bot/misc/services\<close>) that share one PostgreSQL database (\<open>bot/database\<close>), a Redis cache
  (\<open>bot/misc/caching\<close>), payment services (\<open>bot/payments\<close>) and fulfilment services (\<open>bot/providers\<close>).
  Paths below are relative to \<open>src/bot\<close>.

  \<^bold>\<open>The program and its theories.\<close>  Definitions keep the names of the functions they translate.

  \<^item> \<open>Prelude\<close>: tables as lists of rows, lookup and update by key, calls that may raise (\<open>tx_bind\<close>), sums.
  \<^item> \<open>Money\<close> (\<open>money.py\<close>): kopecks, parsing and printing of amounts.  \<open>PyStr\<close>: the string and
    dictionary methods of Python that the sources use.
  \<^item> \<open>Models\<close> (\<open>database/models\<close>): one record per table, one datatype per enumeration.  \<open>Shop\<close>: the
    database state \<open>shop\<close>, the CHECK constraints, \<open>run_session\<close> for \<open>Database.session()\<close>.
  \<^item> \<open>Pricing\<close>, \<open>Stock\<close> (\<open>catalog/stock.py\<close>), \<open>Promos\<close>, \<open>Referral\<close>, \<open>Orders\<close> (\<open>database/methods/orders.py\<close>):
    the parts that a purchase is composed of.  \<open>Providers\<close> (\<open>providers\<close>) and \<open>Fulfillment\<close>
    (\<open>misc/services/fulfillment.py\<close>, \<open>fulfillment_worker.py\<close>): paying for an order, placing it with a
    service, delivering, failing and refunding it.
  \<^item> \<open>Checkout\<close> (\<open>database/methods/transactions.py\<close>): \<open>buy_item_transaction\<close> and
    \<open>checkout_cart_transaction\<close>; \<open>Purchases\<close> holds what they do on every branch.
  \<^item> \<open>Payments\<close> (\<open>payments\<close>, \<open>web/payment_webhooks.py\<close>): crediting a top-up, gateway settings, the webhook.
    \<open>Topups\<close> (\<open>misc/services/payment.py\<close>, \<open>recovery.py\<close>, \<open>cleanup.py\<close>, the top-up handlers): invoices, the circuit
    breaker, the recovery of pending payments.
  \<^item> \<open>Catalog\<close> (\<open>database/methods/create.py\<close>, \<open>update.py\<close>, \<open>delete.py\<close>): products, stock imports, categories, reviews.
    \<open>Cart\<close>: the cart, its screen and its handlers.
  \<^item> \<open>Validation\<close> (\<open>misc/validators.py\<close>); \<open>Access\<close> (roles, permissions, blocking, the authentication and
    security middlewares, registration, balance corrections, balance codes) with \<open>Access_Safety\<close>.
  \<^item> \<open>Support\<close> (tickets), \<open>Listing\<close> (\<open>lazy_queries.py\<close>, \<open>lazy_paginator.py\<close>, the pager row), \<open>Cache\<close>
    (\<open>misc/caching\<close>), \<open>Stats\<close>, \<open>Panel\<close> (\<open>web\<close>).  \<open>Rate_Limit\<close> (\<open>middleware/rate_limit.py\<close>): the limiter in the
    process; \<open>Redis_Limit\<close>: the one in Redis with its scripts and the fallback between the two.
  \<^item> \<open>Storefront\<close> (\<open>handlers/user/shop_and_goods.py\<close>, \<open>purchase_ui.py\<close>): browsing, search, product cards, reviews,
    gifts and confirmed purchases.  \<open>Pages\<close> (\<open>keyboards/inline.py\<close>, \<open>handlers/user/main.py\<close>,
    \<open>referral_system.py\<close>, \<open>handlers/admin/user_management.py\<close>): menus, profiles, referral and earnings pages.
  \<^item> \<open>Broadcast\<close> (\<open>misc/services/broadcast_system.py\<close>, \<open>restock_notifier.py\<close>): mailing.  \<open>Desk\<close>, \<open>Promo_Desk\<close>
    (\<open>handlers/admin\<close>): the dialogues of the staff about products, stock, categories, sales and promo
    codes; \<open>Staff\<close>: their dispatch by dialogue state, button and permission.
  \<^item> \<open>Sample_Shop\<close>: a small shop on which the witnesses evaluate.  \<open>Books\<close>: the whole shop as one step relation.

  \<^bold>\<open>How the parts interact.\<close>  A handler calls functions of \<open>database/methods\<close>; each runs in a session and
  commits or rolls back.  In the model an operation is a function of the state \<open>shop\<close> that returns
  either an exception (\<open>exn\<close>) or a result with the new state; \<open>run_session\<close> adds the check at commit.
  Work scheduled by \<open>safe_create_task\<close> is a list in the state (\<open>t_tasks\<close>), which a rollback discards.
  Caches of the authentication middleware are a second component of the state (\<open>auth \<times> shop\<close>).  What a
  step reads from outside is its environment \<open>env\<close>: the clock, the configured percentages and limits,
  fresh uuids, the hash function, and the replies of the services (\<open>env_http\<close>).  Every theorem
  quantifies over it.  Dialogues (\<open>FSMContext\<close>) are records beside the shop, one per user; an interleaving
  of several users is a reachability relation on all of them.  What Telegram answers, the file of the log,
  \<open>md5\<close> and which characters outside ASCII count as letters are parameters (\<open>page_world\<close>, \<open>staff_world\<close>).

  \<^bold>\<open>What the lemmas show.\<close>

  \<^item> The books (\<open>Books\<close>): over any sequence of the operations of all components the balances are what the
    operation, bonus, order and purchase rows account for, no balance is negative and the tables stay
    well-formed.  A change made to a balance by hand in the panel writes no operation row and is
    not a step of that relation.
  \<^item> Purchases and the cart: the exact effect of a success, every reason for a refusal, that a
    refusal changes nothing (a checkout of nothing but dead lines removes just these), that a cart
    without dead lines shows what the checkout charges.
  \<^item> Payments: a payment is credited at most once under any interleaving of requests, and the top-up
    refines an abstract ledger; the webhook credits only what is recorded and confirmed.
  \<^item> Orders and fulfilment: every status change is an edge of the status machine and is recorded; refunds and
    referral bonuses happen once and are undone exactly; a worker tick on an order returns one of
    five outcomes or raises one of a known set of exceptions, which stops the batch.
  \<^item> Stock, promo codes, catalogue: exact consumption and release, usage caps, what deletions take with them.
  \<^item> Access: no role operation gives a permission that neither the user nor an acting administrator held;
    blocked users stay out; seeding; the limits of both rate limiters and that they decide alike.
  \<^item> Lists: following the pages of a list ends and shows each row once, as far as the count, which may be
    an old cached one, reaches.  Cache: a cached value was computed since its last invalidation or was
    then held by a reader; what an overflow, a late store and a refused deletion leave stale is shown by
    examples.  Statistics: both routes give the same figures.
  \<^item> Panel: wrong guesses of an address are bounded by five and the attempts that wait at the same time;
    exports read back as the rows.
  \<^item> Storefront and staff: reviews come from buyers, the price on the card is charged, the catalogue stays
    valid under any dialogues, the dialogue for a new position has exactly its effect, dialogues need
    their permission.  Pages: the own pages depend on the own rows only, and a card leads back.

  Interfaces are locales: \<open>row_table\<close> (a table with a key), \<open>once_by_key\<close> (an operation that succeeds at
  most once per key), \<open>idempotent_provider\<close>, \<open>page_source\<close> (a query whose pages are slices of one list; the count
  is not part of the contract), each interpreted on the model's own tables, operations and queries.

  \<^bold>\<open>Decisions of the model.\<close>

  \<^item> A transaction is one step: rows are locked with \<open>with_for_update\<close> where the code relies on it.  An exception
    restores the state.  Sessions run with \<open>autoflush=False\<close>, so a query does not see pending changes.
    CHECK constraints and the unique external order id are checked at commit, other UNIQUE and
    foreign keys by the statement that breaks them.  Loading blocked users succeeds; deadlocks and lost
    connections, which the code retries, do not occur.
  \<^item> Serial ids come from one counter; a transaction reads the clock once; a query without an order
    returns rows in insertion order; rows without a creation column are ordered by id; names are ordered by code points.
  \<^item> Amounts are integers of kopecks, percentages and rates exact rationals; floats that hold rubles are exact.
    Strings are UTF-8 byte strings; \<open>lower\<close> and \<open>upper\<close> change ASCII letters only; \<open>int()\<close> and \<open>float()\<close> read plain
    decimal notation.  JSON columns are parsed values.
  \<^item> A handler's answer is the key of the text it sends.  The single values a handler takes from the cache are
    arguments.  Audit rows carry the action, level, user and resource, not the details and the address.
  \<^item> Redis is an association list with two plans that say which commands fail, one for reads and writes and
    one for deletions.  A reader of \<open>single_flight\<close> is two steps, computing and storing, with anything in
    between.  The count cache (\<open>t_counts\<close>) holds any counts; screens read it and the theorems hold for
    whatever it holds, so that it fills up meanwhile is not a step.  A login is two steps, the check and
    the comparison, with the wait for the form in between.  Times of the rate limiter are exact
    rationals.  The panel session is its decoded cookie; the encoders of JSON and of dates are parameters.

  \<^bold>\<open>Bounds and fuel.\<close>  \<open>buy_loop\<close> and \<open>checkout_loop\<close> run at most three attempts, as the sources do; a fourth
  is never reached because the third does not retry.  Loops over rows are folds.  The stream of a CSV
  export is a \<open>partial_function\<close>, where \<open>None\<close> is a stream that never ends; that it ends is
  proved.  Ids and quantities are Python integers and are not bounded; permission sets are 32-bit words.

  \<^bold>\<open>Not modelled.\<close>  Message texts (\<open>i18n\<close>), start-up and routing outside the staff dialogues (\<open>main.py\<close>),
  counters (\<open>misc/metrics.py\<close>), the forms and column lists of the panel, which are declarations for
  SQLAdmin, migrations.  The prompts and dialogue states of the top-up, support and role dialogues: their
  handlers are operations with what was typed as arguments.  The wizard provider's time limit.
\<close>

end
